(* ===== verification/Prelude.thy ===== *)
theory Prelude
  imports Main "HOL-Library.Char_ord" "HOL-Library.List_Lexorder"
begin

text \<open>
  What the component theories share: the types that name the program's values, the
  functions of Go's standard library that the source calls on strings and durations, the
  JSON values that flow through the gateway, and generic lemmas.

  Go strings are byte sequences, so a \<^typ>\<open>string\<close> is read as its list of bytes.
  Case folding and white space follow ASCII: the identifiers, header names, schemes and
  roles that the source folds are ASCII.
\<close>

named_theorems go_string "unfolding rules of the modelled string functions"
named_theorems component_inv "what an operation keeps of its component's invariant"

type_synonym duration = int \<comment> \<open>\<open>time.Duration\<close>, nanoseconds, an int64\<close>
type_synonym timestamp = int \<comment> \<open>\<open>time.Time\<close> as nanoseconds since the epoch\<close>

subsection \<open>64-bit integers and durations\<close>

text \<open>Go's int and time.Duration are 64-bit two's complement and wrap around.\<close>

definition wrap64 :: "int \<Rightarrow> int" where
  "wrap64 x = (x + 2 ^ 63) mod 2 ^ 64 - 2 ^ 63"

lemma wrap64_id: "- (2 ^ 63) \<le> x \<Longrightarrow> x < 2 ^ 63 \<Longrightarrow> wrap64 x = x"
  by (simp add: wrap64_def)

lemma wrap64_range: "- (2 ^ 63) \<le> wrap64 x \<and> wrap64 x < 2 ^ 63"
proof -
  have "0 \<le> (x + 2 ^ 63) mod 2 ^ 64" and "(x + 2 ^ 63) mod 2 ^ 64 < 2 ^ 64"
    by simp_all
  then show ?thesis by (simp add: wrap64_def)
qed

abbreviation nanosecond_per_ms :: int where "nanosecond_per_ms \<equiv> 1000000"
abbreviation second :: duration where "second \<equiv> 1000000000"

text \<open>Go's division and remainder truncate towards zero.\<close>

definition go_div :: "int \<Rightarrow> int \<Rightarrow> int" where
  "go_div a b = sgn a * sgn b * (\<bar>a\<bar> div \<bar>b\<bar>)"

definition go_mod :: "int \<Rightarrow> int \<Rightarrow> int" where
  "go_mod a b = a - b * go_div a b"

lemma go_div_nonneg [simp]: "0 \<le> a \<Longrightarrow> 0 < b \<Longrightarrow> go_div a b = a div b"
  by (cases "a = 0") (auto simp: go_div_def sgn_if)

lemma go_mod_nonneg [simp]: "0 \<le> a \<Longrightarrow> 0 < b \<Longrightarrow> go_mod a b = a mod b"
  by (simp add: go_mod_def minus_mult_div_eq_mod)

subsection \<open>Characters\<close>

definition lower_char :: "char \<Rightarrow> char" where
  "lower_char c = (let n = (of_char c :: nat) in
     if 65 \<le> n \<and> n \<le> 90 then char_of (n + 32) else c)"

definition upper_char :: "char \<Rightarrow> char" where
  "upper_char c = (let n = (of_char c :: nat) in
     if 97 \<le> n \<and> n \<le> 122 then char_of (n - 32) else c)"

definition is_space :: "char \<Rightarrow> bool" where
  "is_space c = (let n = (of_char c :: nat) in n = 32 \<or> (9 \<le> n \<and> n \<le> 13))"

definition is_digit :: "char \<Rightarrow> bool" where
  "is_digit c = (let n = (of_char c :: nat) in 48 \<le> n \<and> n \<le> 57)"

definition is_lower :: "char \<Rightarrow> bool" where
  "is_lower c = (let n = (of_char c :: nat) in 97 \<le> n \<and> n \<le> 122)"

definition is_upper :: "char \<Rightarrow> bool" where
  "is_upper c = (let n = (of_char c :: nat) in 65 \<le> n \<and> n \<le> 90)"

definition is_letter :: "char \<Rightarrow> bool" where
  "is_letter c \<longleftrightarrow> is_lower c \<or> is_upper c"

lemmas char_class_defs = lower_char_def upper_char_def is_space_def is_digit_def is_lower_def
  is_upper_def is_letter_def Let_def

text \<open>
  The same on the bits of a character, which is how they are evaluated: as numbers, characters
  would be counted in unary.
\<close>

lemma lower_char_code [code]:
  "lower_char (Char b0 b1 b2 b3 b4 b5 b6 b7) =
     Char b0 b1 b2 b3 b4 (b5 \<or> \<not> b7 \<and> b6 \<and>  (b0 \<or> b1 \<or> b2 \<or> b3 \<or> b4) \<and> \<not> (b4 \<and> b3 \<and> (b2 \<or> b1 \<and> b0))) b6 b7"
  by (cases b0; cases b1; cases b2; cases b3; cases b4; cases b5; cases b6; cases b7)
    (simp_all add: lower_char_def char_of_eq_iff)

lemma upper_char_code [code]:
  "upper_char (Char b0 b1 b2 b3 b4 b5 b6 b7) =
     Char b0 b1 b2 b3 b4 (b5 \<and> \<not> (\<not> b7 \<and> b6 \<and>  (b0 \<or> b1 \<or> b2 \<or> b3 \<or> b4) \<and> \<not> (b4 \<and> b3 \<and> (b2 \<or> b1 \<and> b0)))) b6 b7"
  by (cases b0; cases b1; cases b2; cases b3; cases b4; cases b5; cases b6; cases b7)
    (simp_all add: upper_char_def char_of_eq_iff)

lemma is_space_code [code]:
  "is_space (Char b0 b1 b2 b3 b4 b5 b6 b7) \<longleftrightarrow> \<not> b7 \<and> \<not> b6 \<and> \<not> b4 \<and>
     (if b5 then \<not> (b0 \<or> b1 \<or> b2 \<or> b3) else b3 \<and> (b0 \<or> b1 \<or> b2) \<and> \<not> (b2 \<and> b1))"
  by (cases b0; cases b1; cases b2; cases b3; cases b4; cases b5; cases b6; cases b7)
    (simp_all add: is_space_def)

lemma is_digit_code [code]:
  "is_digit (Char b0 b1 b2 b3 b4 b5 b6 b7) \<longleftrightarrow> \<not> b7 \<and> \<not> b6 \<and> b5 \<and> b4 \<and> \<not> (b3 \<and> (b2 \<or> b1))"
  by (cases b0; cases b1; cases b2; cases b3; cases b4; cases b5; cases b6; cases b7)
    (simp_all add: is_digit_def)

lemma is_lower_code [code]:
  "is_lower (Char b0 b1 b2 b3 b4 b5 b6 b7) \<longleftrightarrow>
     \<not> b7 \<and> b6 \<and> b5 \<and> (b0 \<or> b1 \<or> b2 \<or> b3 \<or> b4) \<and> \<not> (b4 \<and> b3 \<and> (b2 \<or> b1 \<and> b0))"
  by (cases b0; cases b1; cases b2; cases b3; cases b4; cases b5; cases b6; cases b7)
    (simp_all add: is_lower_def)

lemma is_upper_code [code]:
  "is_upper (Char b0 b1 b2 b3 b4 b5 b6 b7) \<longleftrightarrow>
     \<not> b7 \<and> b6 \<and> \<not> b5 \<and> (b0 \<or> b1 \<or> b2 \<or> b3 \<or> b4) \<and> \<not> (b4 \<and> b3 \<and> (b2 \<or> b1 \<and> b0))"
  by (cases b0; cases b1; cases b2; cases b3; cases b4; cases b5; cases b6; cases b7)
    (simp_all add: is_upper_def)

subsection \<open>Package strings\<close>

definition to_lower :: "string \<Rightarrow> string" where "to_lower s = map lower_char s"
definition to_upper :: "string \<Rightarrow> string" where "to_upper s = map upper_char s"

definition equal_fold :: "string \<Rightarrow> string \<Rightarrow> bool" where
  "equal_fold a b \<longleftrightarrow> to_lower a = to_lower b"

definition trim_left :: "string \<Rightarrow> string" where "trim_left s = dropWhile is_space s"
definition trim_space :: "string \<Rightarrow> string" where
  "trim_space s = rev (trim_left (rev (trim_left s)))"

definition has_prefix :: "string \<Rightarrow> string \<Rightarrow> bool" where
  "has_prefix s p \<longleftrightarrow> take (length p) s = p"

definition has_suffix :: "string \<Rightarrow> string \<Rightarrow> bool" where
  "has_suffix s p \<longleftrightarrow> has_prefix (rev s) (rev p)"

definition trim_prefix :: "string \<Rightarrow> string \<Rightarrow> string" where
  "trim_prefix s p = (if has_prefix s p then drop (length p) s else s)"

definition trim_suffix :: "string \<Rightarrow> string \<Rightarrow> string" where
  "trim_suffix s p = (if has_suffix s p then take (length s - length p) s else s)"

fun str_contains :: "string \<Rightarrow> string \<Rightarrow> bool" where
  "str_contains [] p = (p = [])"
| "str_contains (c # s) p = (has_prefix (c # s) p \<or> str_contains s p)"

text \<open>\<open>strings.Split\<close> at a one-byte separator: always at least one part.\<close>

fun split_at_char :: "char \<Rightarrow> string \<Rightarrow> string list" where
  "split_at_char sep [] = [[]]"
| "split_at_char sep (c # s) =
     (if c = sep then [] # split_at_char sep s
      else (case split_at_char sep s of
              [] \<Rightarrow> [[c]]
            | p # ps \<Rightarrow> (c # p) # ps))"

text \<open>\<open>strings.Fields\<close>: the maximal runs of non-space bytes.\<close>

fun fields_from :: "string \<Rightarrow> string \<Rightarrow> string list" where
  "fields_from cur [] = (if cur = [] then [] else [rev cur])"
| "fields_from cur (c # s) =
     (if is_space c then (if cur = [] then fields_from [] s else rev cur # fields_from [] s)
      else fields_from (c # cur) s)"

definition str_fields :: "string \<Rightarrow> string list" where
  "str_fields s = fields_from [] s"

text \<open>\<open>strings.Cut\<close> at a one-byte separator.\<close>

definition str_cut :: "char \<Rightarrow> string \<Rightarrow> (string \<times> string) option" where
  "str_cut sep s =
     (if sep \<in> set s
      then Some (takeWhile (\<lambda>c. c \<noteq> sep) s, drop 1 (dropWhile (\<lambda>c. c \<noteq> sep) s))
      else None)"

lemma str_cut_shorter:
  assumes "str_cut sep s = Some (line, rest)"
  shows "length rest < length s"
proof -
  from assms have "sep \<in> set s" and rest: "rest = drop 1 (dropWhile (\<lambda>c. c \<noteq> sep) s)"
    by (auto simp: str_cut_def split: if_splits)
  then have "s \<noteq> []" by auto
  have "length rest \<le> length s - 1" unfolding rest by (simp add: length_dropWhile_le diff_le_mono)
  with \<open>s \<noteq> []\<close> show ?thesis by (cases s) simp_all
qed

definition sort_strings :: "string list \<Rightarrow> string list" where
  "sort_strings = sort"

lemmas [go_string] = to_lower_def to_upper_def equal_fold_def trim_left_def trim_space_def
  has_prefix_def has_suffix_def trim_prefix_def trim_suffix_def str_cut_def sort_strings_def

lemma has_prefix_append [simp]: "has_prefix (p @ s) p"
  by (simp add: has_prefix_def)

lemma has_prefix_iff: "has_prefix s p \<longleftrightarrow> (\<exists>r. s = p @ r)"
  by (metis append_eq_conv_conj has_prefix_append has_prefix_def append_take_drop_id)

lemma split_at_char_not_Nil [simp]: "split_at_char sep s \<noteq> []"
  by (induction s) (auto split: list.splits)

lemma split_at_char_parts: "p \<in> set (split_at_char sep s) \<Longrightarrow> sep \<notin> set p"
  by (induction s arbitrary: p) (auto split: if_splits list.splits)

lemma to_lower_length [simp]: "length (to_lower s) = length s"
  by (simp add: to_lower_def)

lemma lower_char_idem [simp]: "lower_char (lower_char c) = lower_char c"
  by (auto simp: lower_char_def Let_def)

lemma to_lower_idem [simp]: "to_lower (to_lower s) = to_lower s"
  by (simp add: to_lower_def)

subsection \<open>Decimal numbers\<close>

fun digits_of :: "nat \<Rightarrow> string" where
  "digits_of n = (if n < 10 then [char_of (48 + n)] else digits_of (n div 10) @ [char_of (48 + n mod 10)])"

declare digits_of.simps [simp del]

text \<open>\<open>strconv.Itoa\<close>.\<close>

definition itoa :: "int \<Rightarrow> string" where
  "itoa i = (if i < 0 then ''-'' @ digits_of (nat (- i)) else digits_of (nat i))"

text \<open>
  \<open>strconv.ParseInt(s, 10, 64)\<close> and \<open>strconv.Atoi\<close> on a 64-bit platform: an optional
  sign, at least one digit, digits only, in range.
\<close>

definition digits_value :: "string \<Rightarrow> int" where
  "digits_value s = foldl (\<lambda>n c. 10 * n + (int (of_char c) - 48)) 0 s"

definition parse_int64 :: "string \<Rightarrow> int option" where
  "parse_int64 s =
     (let (neg, ds) = (case s of
            [] \<Rightarrow> (False, [])
          | c # r \<Rightarrow> if c = CHR ''-'' then (True, r) else if c = CHR ''+'' then (False, r) else (False, s))
      in if ds = [] \<or> \<not> list_all is_digit ds then None
         else let n = (if neg then - digits_value ds else digits_value ds)
              in if - (2 ^ 63) \<le> n \<and> n < 2 ^ 63 then Some n else None)"

lemma parse_int64_range: "parse_int64 s = Some n \<Longrightarrow> - (2 ^ 63) \<le> n \<and> n < 2 ^ 63"
  by (auto simp: parse_int64_def Let_def split: list.splits if_splits prod.splits)

lemma digits_of_digit: "list_all is_digit (digits_of n) \<and> digits_of n \<noteq> []"
proof (induction n rule: digits_of.induct)
  case (1 n)
  have "is_digit (char_of (48 + d))" if "d < 10" for d :: nat
    using that by (simp add: is_digit_def Let_def of_char_of)
  with 1 show ?case by (subst (1 2) digits_of.simps) auto
qed

lemma digits_value_digits: "digits_value (digits_of n) = int n"
proof (induction n rule: digits_of.induct)
  case (1 n)
  have c: "int (of_char (char_of (48 + d) :: char)) - 48 = int d" if "d < 10" for d :: nat
    using that by (simp add: of_char_of)
  show ?case
  proof (cases "n < 10")
    case True
    with c show ?thesis by (subst digits_of.simps) (simp add: digits_value_def)
  next
    case False
    then have "digits_value (digits_of (n div 10) @ [char_of (48 + n mod 10)]) = 10 * int (n div 10) + int (n mod 10)"
      using 1 c [of "n mod 10"] by (simp add: digits_value_def)
    with False show ?thesis by (subst digits_of.simps) (simp, presburger)
  qed
qed

lemma digits_of_inj: "digits_of m = digits_of n \<Longrightarrow> m = n"
  by (metis digits_value_digits of_nat_eq_iff)

subsection \<open>JSON values\<close>

text \<open>
  The dynamic values of encoding/json: \<open>any\<close> is nil, bool, float64 (kept as its number
  text), string, []any or map[string]any. An object is the list of its members, read
  with \<^const>\<open>map_of\<close>; a Go map has no order, so nothing below may depend on it.
\<close>

datatype jval =
    JNull
  | JBool bool
  | JNum string
  | JStr string
  | JArr "jval list"
  | JObj "(string \<times> jval) list"

type_synonym jargs = "(string \<times> jval) list"

subsection \<open>Results\<close>

text \<open>A Go function returning \<open>(T, error)\<close> is a sum: \<^const>\<open>Inl\<close> carries the error.\<close>

definition is_ok :: "'e + 'a \<Rightarrow> bool" where
  "is_ok r = (case r of Inl _ \<Rightarrow> False | Inr _ \<Rightarrow> True)"

lemma is_ok_simps [simp]: "is_ok (Inr x)" "\<not> is_ok (Inl e)"
  by (simp_all add: is_ok_def)

lemma is_ok_iff: "is_ok r \<longleftrightarrow> (\<exists>x. r = Inr x)"
  by (cases r) simp_all

subsection \<open>Lists\<close>

lemma foldl_invariant: "P s \<Longrightarrow> (\<And>s x. P s \<Longrightarrow> P (f s x)) \<Longrightarrow> P (foldl f s xs)"
  by (induction xs arbitrary: s) auto

lemma find_SomeD: "find P xs = Some x \<Longrightarrow> x \<in> set xs \<and> P x"
  by (induction xs) (auto split: if_splits)

subsection \<open>Association lists\<close>

text \<open>A Go map, finite and iterable in an unspecified order, is an association list.\<close>

definition amap_put :: "'k \<Rightarrow> 'v \<Rightarrow> ('k \<times> 'v) list \<Rightarrow> ('k \<times> 'v) list" where
  "amap_put k v m = (k, v) # filter (\<lambda>p. fst p \<noteq> k) m"

definition amap_del :: "'k \<Rightarrow> ('k \<times> 'v) list \<Rightarrow> ('k \<times> 'v) list" where
  "amap_del k m = filter (\<lambda>p. fst p \<noteq> k) m"

abbreviation amap_wf :: "('k \<times> 'v) list \<Rightarrow> bool" where
  "amap_wf m \<equiv> distinct (map fst m)"

lemma map_of_filter_key:
  "map_of (filter (\<lambda>p. fst p \<noteq> k) m) = (map_of m)(k := None)"
  by (induction m) (auto simp: fun_eq_iff)

lemma map_of_amap_put [simp]: "map_of (amap_put k v m) = (map_of m)(k \<mapsto> v)"
  by (simp add: amap_put_def map_of_filter_key)

lemma map_of_amap_del [simp]: "map_of (amap_del k m) = (map_of m)(k := None)"
  by (simp add: amap_del_def map_of_filter_key)

lemma amap_wf_filter: "amap_wf m \<Longrightarrow> amap_wf (filter P m)"
  by (simp add: distinct_map_filter)

lemma amap_wf_put [simp, intro]: "amap_wf m \<Longrightarrow> amap_wf (amap_put k v m)"
  by (auto simp: amap_put_def distinct_map_filter)

lemma amap_wf_del [simp, intro]: "amap_wf m \<Longrightarrow> amap_wf (amap_del k m)"
  by (simp add: amap_del_def distinct_map_filter)

lemma set_amap_del: "set (amap_del k m) = {p \<in> set m. fst p \<noteq> k}"
  by (auto simp: amap_del_def)

lemma amap_mem_iff: "amap_wf m \<Longrightarrow> (k, v) \<in> set m \<longleftrightarrow> map_of m k = Some v"
  by (simp add: map_of_eq_Some_iff)

lemma map_fst_map_upd [simp]: "map fst (map (\<lambda>(k, v). (k, f k v)) m) = map fst m"
  by (induction m) auto

lemma map_of_map_upd: "map_of (map (\<lambda>(k, v). (k, f k v)) m) k = map_option (f k) (map_of m k)"
  by (induction m) auto

end
