(* ===== verification/Faults.thy ===== *)
theory Faults
  imports Prelude
begin

text \<open>
  The error taxonomy: internal/faults/errors.go, the classification of ERP statuses in
  internal/mcp/tool.go (\<open>faultForHTTPStatus\<close>) and the rendering of failures in
  internal/mcp/errors.go. A Go \<open>error\<close> is a value of \<open>gerr\<close>; its
  \<open>Unwrap\<close> chain is the list \<open>err_chain\<close>, which \<open>errors.Is\<close> and
  \<open>errors.As\<close> search.
\<close>

subsection \<open>Kinds, errors and the Unwrap chain\<close>

datatype fault_kind =
    KindInvalidInput
  | KindNotFound
  | KindPermissionDenied
  | KindRateLimited
  | KindConcurrencyLimited
  | KindDependencyTimeout
  | KindDependencyUnavailable
  | KindConflict
  | KindInternal

text \<open>
  The part of \<open>http.Response\<close> the gateway reads: status code, the headers it looks
  at and the body (\<^const>\<open>None\<close> for a nil Body).
\<close>

record http_response =
  resp_status :: int
  resp_retry_after :: string
  resp_content_type :: string
  resp_body :: "string option"

text \<open>
  Error values. \<open>EText\<close> is an \<open>errors.New\<close> leaf, \<open>EWrap\<close> a
  \<open>fmt.Errorf\<close> with \<open>%w\<close> between two texts; the sentinels are compared by
  identity, so each is a constructor.
\<close>

datatype gerr =
    EText string
  | EWrap string gerr string
  | ErrRevisionInactive
  | ErrOriginDenied
  | ErrPluginProcessingFailed
  | ErrDeadlineExceeded
  | ErrCanceled
  | ErrOpenState
  | ErrTooManyRequests
  | ENet bool
  | ERole int string
  | ERetryAttempt gerr int duration bool
  | EPreserved http_response gerr
  | EFault fault
and fault =
    MkFault (f_kind: fault_kind) (f_message: string) (f_retryable: bool)
      (f_retry_after: duration) (f_protocol: bool) (f_cause: "gerr option")

fun unwrap :: "gerr \<Rightarrow> gerr option" where
  "unwrap (EWrap _ e _) = Some e"
| "unwrap (ERetryAttempt e _ _ _) = Some e"
| "unwrap (EPreserved _ e) = Some e"
| "unwrap (EFault f) = f_cause f"
| "unwrap _ = None"

lemma unwrap_smaller: "unwrap e = Some e' \<Longrightarrow> size e' < size e"
proof (cases e)
  case (EFault f)
  moreover assume "unwrap e = Some e'"
  ultimately show ?thesis by (cases f) auto
qed auto

function err_chain :: "gerr \<Rightarrow> gerr list" where
  "err_chain e = e # (case unwrap e of None \<Rightarrow> [] | Some e' \<Rightarrow> err_chain e')"
  by pat_completeness auto
termination
  by (relation "measure size") (auto dest: unwrap_smaller)

declare err_chain.simps [simp del]

lemma err_chain_wrap [simp]: "err_chain (EWrap a e b) = EWrap a e b # err_chain e"
  by (simp add: err_chain.simps [of "EWrap a e b"])

lemma err_chain_retry [simp]:
  "err_chain (ERetryAttempt e s d h) = ERetryAttempt e s d h # err_chain e"
  by (simp add: err_chain.simps [of "ERetryAttempt e s d h"])

lemma err_chain_preserved [simp]: "err_chain (EPreserved r e) = EPreserved r e # err_chain e"
  by (simp add: err_chain.simps [of "EPreserved r e"])

lemma err_chain_fault [simp]:
  "err_chain (EFault f) = EFault f # (case f_cause f of None \<Rightarrow> [] | Some e \<Rightarrow> err_chain e)"
  by (simp add: err_chain.simps [of "EFault f"])

lemma err_chain_leaf [simp]: "unwrap e = None \<Longrightarrow> err_chain e = [e]"
  by (simp add: err_chain.simps [of e])

definition errors_is :: "gerr \<Rightarrow> gerr \<Rightarrow> bool" where
  "errors_is e target \<longleftrightarrow> target \<in> set (err_chain e)"

fun is_fault :: "gerr \<Rightarrow> bool" where
  "is_fault (EFault _) = True"
| "is_fault _ = False"

fun fault_of :: "gerr \<Rightarrow> fault option" where
  "fault_of (EFault f) = Some f"
| "fault_of _ = None"

text \<open>\<open>faults.As\<close>: the first taxonomy error of the chain.\<close>

definition faults_as :: "gerr \<Rightarrow> fault option" where
  "faults_as e = Option.bind (List.find is_fault (err_chain e)) fault_of"

lemma faults_as_fault [simp]: "faults_as (EFault f) = Some f"
  by (simp add: faults_as_def)

lemma is_fault_iff: "is_fault e \<longleftrightarrow> (\<exists>f. e = EFault f)"
  by (cases e) auto

lemma faults_as_None: "faults_as e = None \<longleftrightarrow> (\<forall>f. EFault f \<notin> set (err_chain e))"
proof (cases "List.find is_fault (err_chain e)")
  case None
  then have "\<forall>x \<in> set (err_chain e). \<not> is_fault x" by (simp add: find_None_iff)
  moreover have "faults_as e = None" using None by (simp add: faults_as_def)
  ultimately show ?thesis by auto
next
  case (Some x)
  then have x: "x \<in> set (err_chain e)" "is_fault x" by (auto simp: find_Some_iff)
  then obtain f where "x = EFault f" by (auto simp: is_fault_iff)
  with x Some show ?thesis by (auto simp: faults_as_def)
qed

text \<open>\<open>faults.New\<close>, \<open>faults.NewProtocol\<close>, \<open>faults.IsProtocol\<close>.\<close>

definition new_fault :: "fault_kind \<Rightarrow> string \<Rightarrow> bool \<Rightarrow> duration \<Rightarrow> gerr option \<Rightarrow> fault" where
  "new_fault kind message retryable retryAfter cause =
     MkFault kind message retryable retryAfter False cause"

definition new_protocol_fault :: "fault_kind \<Rightarrow> string \<Rightarrow> gerr option \<Rightarrow> fault" where
  "new_protocol_fault kind message cause = MkFault kind message False 0 True cause"

definition is_protocol :: "gerr \<Rightarrow> bool" where
  "is_protocol e = (case faults_as e of None \<Rightarrow> False | Some f \<Rightarrow> f_protocol f)"

lemma new_fault_sel [simp]:
  "f_kind (new_fault k m r d c) = k" "f_message (new_fault k m r d c) = m"
  "f_retryable (new_fault k m r d c) = r" "f_retry_after (new_fault k m r d c) = d"
  "f_protocol (new_fault k m r d c) = False" "f_cause (new_fault k m r d c) = c"
  by (simp_all add: new_fault_def)

lemma new_protocol_fault_sel [simp]:
  "f_kind (new_protocol_fault k m c) = k" "f_message (new_protocol_fault k m c) = m"
  "f_protocol (new_protocol_fault k m c)" "f_retry_after (new_protocol_fault k m c) = 0"
  "f_retryable (new_protocol_fault k m c) = False" "f_cause (new_protocol_fault k m c) = c"
  by (simp_all add: new_protocol_fault_def)

text \<open>The \<open>Error\<close> method of a taxonomy error: its message only, never its cause.\<close>

definition fault_text :: "fault \<Rightarrow> string" where
  "fault_text f = (if f_message f = '''' then ''internal server error'' else f_message f)"

subsection \<open>Retry-After text\<close>

definition retry_after_seconds :: "duration \<Rightarrow> int" where
  "retry_after_seconds delay =
     (if delay \<le> 0 then 1
      else let s = go_div delay second;
               s' = (if go_mod delay second \<noteq> 0 then s + 1 else s)
           in if s' < 1 then 1 else s')"

definition retry_after_text :: "duration \<Rightarrow> string" where
  "retry_after_text delay =
     (let s = retry_after_seconds delay
      in itoa s @ '' '' @ (if s = 1 then ''second'' else ''seconds''))"

lemma ceiling_exact: "(d::int) = q * s + m \<Longrightarrow> m = 0 \<Longrightarrow> 0 < s \<Longrightarrow> (q - 1) * s < d \<and> d \<le> q * s"
  by (simp add: algebra_simps)

lemma ceiling_up: "(d::int) = q * s + m \<Longrightarrow> 0 < m \<Longrightarrow> m < s \<Longrightarrow> (q + 1 - 1) * s < d \<and> d \<le> (q + 1) * s"
  by (simp add: algebra_simps)

lemma retry_after_seconds_ceiling:
  assumes "0 < d"
  shows "(retry_after_seconds d - 1) * second < d \<and> d \<le> retry_after_seconds d * second"
proof -
  let ?q = "d div second" and ?m = "d mod second"
  have split: "d = ?q * second + ?m" by (simp only: div_mult_mod_eq)
  have m: "0 \<le> ?m" "?m < second" by simp_all
  have q: "0 \<le> ?q" using assms by (simp add: pos_imp_zdiv_nonneg_iff)
  show ?thesis
  proof (cases "?m = 0")
    case True
    with split assms q have "1 \<le> ?q" by (cases "?q = 0") auto
    then have "retry_after_seconds d = ?q"
      using True assms by (simp add: retry_after_seconds_def Let_def)
    with ceiling_exact [OF split True] show ?thesis by simp
  next
    case False
    then have "retry_after_seconds d = ?q + 1"
      using q assms by (simp add: retry_after_seconds_def Let_def)
    moreover have "0 < ?m" using False m by linarith
    ultimately show ?thesis using ceiling_up [OF split _ m(2)] by simp
  qed
qed

lemma retry_after_seconds_pos: "1 \<le> retry_after_seconds d"
  by (simp add: retry_after_seconds_def Let_def)

subsection \<open>Classification of an ERP status\<close>

definition fault_for_http_status :: "int \<Rightarrow> duration \<Rightarrow> fault" where
  "fault_for_http_status status retryAfter =
     (if status = 400 \<or> status = 422 then
        new_fault KindInvalidInput ''the ERP rejected the request; review the tool arguments'' False 0 None
      else if status = 401 \<or> status = 403 then
        new_fault KindPermissionDenied ''the ERP denied this operation; verify access'' False 0 None
      else if status = 404 then
        new_fault KindNotFound ''the requested ERP resource was not found; check the arguments'' False 0 None
      else if status = 409 then
        new_fault KindConflict ''the ERP operation conflicted with current state; review before retrying'' False 0 None
      else if status = 408 \<or> status = 504 then
        new_fault KindDependencyTimeout ''the ERP service timed out; retry later'' True retryAfter None
      else if status = 429 then
        new_fault KindRateLimited
          (if retryAfter > 0
           then ''the ERP service is temporarily rate limited; retry after '' @ retry_after_text retryAfter
           else ''the ERP service is temporarily rate limited; retry later'')
          True retryAfter None
      else if status \<ge> 500 then
        new_fault KindDependencyUnavailable ''the ERP service is temporarily unavailable; retry later'' True retryAfter None
      else
        new_fault KindInternal ''the ERP returned an unexpected response; check server logs'' False 0 None)"

subsection \<open>Tool results and their error metadata\<close>

text \<open>
  The fields of \<open>mcp.CallToolResult\<close> the code sets and reads: the error flag, the
  text content, the structured content and the \<open>com.erpbridge/error\<close> metadata.
\<close>

record err_meta =
  em_type :: string
  em_retryable :: bool
  em_retry_after_ms :: "int option"

record call_result =
  cr_is_error :: bool
  cr_text :: string
  cr_structured :: "jval option"
  cr_meta :: "err_meta option"

fun fault_type_name :: "fault_kind \<Rightarrow> string" where
  "fault_type_name KindInvalidInput = ''invalid_input''"
| "fault_type_name KindNotFound = ''not_found''"
| "fault_type_name KindPermissionDenied = ''permission_denied''"
| "fault_type_name KindRateLimited = ''rate_limit''"
| "fault_type_name KindConcurrencyLimited = ''concurrency_limit''"
| "fault_type_name KindDependencyTimeout = ''dependency_timeout''"
| "fault_type_name KindDependencyUnavailable = ''dependency_unavailable''"
| "fault_type_name KindConflict = ''conflict''"
| "fault_type_name KindInternal = ''internal''"

abbreviation plugin_failure_message :: string where
  "plugin_failure_message \<equiv> ''plugin processing failed''"

abbreviation default_execution_message :: string where
  "default_execution_message \<equiv> ''the tool could not complete; check server logs before retrying''"

definition new_tool_execution_result :: "gerr \<Rightarrow> call_result" where
  "new_tool_execution_result err =
     (let fault = (case faults_as err of
            Some f \<Rightarrow> f
          | None \<Rightarrow> new_fault KindInternal
              (if errors_is err ErrPluginProcessingFailed then plugin_failure_message
               else default_execution_message) False 0 (Some err))
      in \<lparr> cr_is_error = True, cr_text = fault_text fault, cr_structured = None,
           cr_meta = Some \<lparr> em_type = fault_type_name (f_kind fault),
                            em_retryable = f_retryable fault,
                            em_retry_after_ms = (if f_retry_after fault > 0
                              then Some (go_div (f_retry_after fault) nanosecond_per_ms) else None) \<rparr> \<rparr>)"

text \<open>
  \<open>ToolResult.Error\<close> is \<open>any\<close>: an error value or a string.
\<close>

datatype tool_error = TEErr gerr | TEText string

fun tool_result_error :: "tool_error \<Rightarrow> gerr" where
  "tool_result_error (TEErr e) = e"
| "tool_result_error (TEText m) =
     (if m = plugin_failure_message
      then EFault (new_fault KindInternal plugin_failure_message False 0 (Some ErrPluginProcessingFailed))
      else EFault (new_fault KindInternal default_execution_message False 0
                     (Some (EText ''unclassified tool result failure''))))"

definition tool_result_error_type :: "call_result \<Rightarrow> string" where
  "tool_result_error_type r =
     (case cr_meta r of
        Some m \<Rightarrow> if em_type m \<noteq> '''' then em_type m else ''internal''
      | None \<Rightarrow> ''internal'')"

subsection \<open>Control-plane error responses\<close>

record http_error =
  he_status :: int
  he_code :: string
  he_message :: string
  he_suggestion :: string
  he_retry_after :: "string option"

definition write_control_plane_error :: "int \<Rightarrow> string \<Rightarrow> string \<Rightarrow> string \<Rightarrow> http_error" where
  "write_control_plane_error status code message suggestion =
     \<lparr> he_status = (if status < 400 then 500 else status), he_code = code, he_message = message,
       he_suggestion = suggestion, he_retry_after = None \<rparr>"

definition write_control_plane_internal_error :: "int \<Rightarrow> string \<Rightarrow> string \<Rightarrow> http_error" where
  "write_control_plane_internal_error status code suggestion =
     write_control_plane_error status code ''the control-plane operation could not be completed'' suggestion"

definition write_tool_execution_http_error :: "call_result \<Rightarrow> http_error" where
  "write_tool_execution_http_error r =
     (let typeName = (case cr_meta r of None \<Rightarrow> ''internal'' | Some m \<Rightarrow> em_type m);
          retry = (case cr_meta r of None \<Rightarrow> None
                   | Some m \<Rightarrow> (case em_retry_after_ms m of
                       Some ms \<Rightarrow> if ms > 0
                         then Some (itoa (retry_after_seconds (wrap64 (ms * nanosecond_per_ms)))) else None
                     | None \<Rightarrow> None));
          (status, code, suggestion) =
            (if typeName = ''invalid_input'' then (400, ''VALIDATION_FAILED'', ''review the tool arguments'')
             else if typeName = ''not_found'' then (404, ''RESOURCE_NOT_FOUND'', ''check the requested ERP resource'')
             else if typeName = ''permission_denied'' then (403, ''AUTHORIZATION_DENIED'', ''verify access to the ERP operation'')
             else if typeName = ''rate_limit'' \<or> typeName = ''concurrency_limit'' then (429, ''RATE_LIMITED'', ''retry after the indicated delay'')
             else if typeName = ''dependency_timeout'' then (504, ''UPSTREAM_UNREACHABLE'', ''retry after the dependency is available'')
             else if typeName = ''dependency_unavailable'' then (503, ''UPSTREAM_UNREACHABLE'', ''retry after the dependency is available'')
             else if typeName = ''conflict'' then (409, ''VALIDATION_FAILED'', ''review the current resource state before retrying'')
             else if typeName = ''internal'' then (500, ''HEALTH_CHECK_FAILED'', ''check server logs before retrying'')
             else (502, ''UPSTREAM_UNREACHABLE'', ''check the upstream ERP service and tool configuration''))
      in (write_control_plane_error status code ''the tool execution failed'' suggestion)
           \<lparr> he_retry_after := retry \<rparr>)"

definition status_of_kind :: "fault_kind \<Rightarrow> int" where
  "status_of_kind k = (case k of
      KindInvalidInput \<Rightarrow> 400 | KindNotFound \<Rightarrow> 404 | KindPermissionDenied \<Rightarrow> 403
    | KindRateLimited \<Rightarrow> 429 | KindConcurrencyLimited \<Rightarrow> 429 | KindDependencyTimeout \<Rightarrow> 504
    | KindDependencyUnavailable \<Rightarrow> 503 | KindConflict \<Rightarrow> 409 | KindInternal \<Rightarrow> 500)"

lemma he_status_of_fault:
  "he_status (write_tool_execution_http_error (new_tool_execution_result (EFault f))) = status_of_kind (f_kind f)"
  by (cases "f_kind f")
     (simp_all add: write_tool_execution_http_error_def new_tool_execution_result_def
       write_control_plane_error_def status_of_kind_def Let_def)

lemma new_tool_execution_result_is_error [simp]: "cr_is_error (new_tool_execution_result e)"
  by (simp add: new_tool_execution_result_def Let_def)

end
