(* ===== verification/Glob.thy ===== *)
theory Glob
  imports Prelude
begin

text \<open>
  \<open>path.Match\<close> of Go's standard library, which \<open>MemoryBackend.Scan\<close> calls: the
  pattern grammar and its matching, on bytes. A malformed pattern is an error wherever it
  is malformed, since \<open>path.Match\<close> checks the rest of the pattern before it reports
  a mismatch.
\<close>

datatype gtok = GStar | GAny | GClass bool "(char \<times> char) list" | GLit char

text \<open>One bound of a character range (\<open>getEsc\<close>).\<close>

definition glob_esc :: "string \<Rightarrow> (char \<times> string) option" where
  "glob_esc s = (case s of
       [] \<Rightarrow> None
     | c # r \<Rightarrow>
         if c = CHR ''-'' \<or> c = CHR '']'' then None
         else if c = CHR 0x5C then
           (case r of d # e # r' \<Rightarrow> Some (d, e # r') | _ \<Rightarrow> None)
         else (case r of e # r' \<Rightarrow> Some (c, e # r') | [] \<Rightarrow> None))"

lemma glob_esc_shorter: "glob_esc s = Some (c, r) \<Longrightarrow> length r < length s"
  by (auto simp: glob_esc_def split: list.splits if_splits)

text \<open>The ranges of a class up to its closing bracket; at least one is required.\<close>

function glob_ranges :: "bool \<Rightarrow> string \<Rightarrow> ((char \<times> char) list \<times> string) option" where
  "glob_ranges some s =
     (if some \<and> s \<noteq> [] \<and> hd s = CHR '']'' then Some ([], tl s)
      else (case glob_esc s of
          None \<Rightarrow> None
        | Some (lo, r) \<Rightarrow>
            (if r \<noteq> [] \<and> hd r = CHR ''-'' then
               (case glob_esc (tl r) of
                  None \<Rightarrow> None
                | Some (hi, r') \<Rightarrow> map_option (\<lambda>(rs, u). ((lo, hi) # rs, u)) (glob_ranges True r'))
             else map_option (\<lambda>(rs, u). ((lo, lo) # rs, u)) (glob_ranges True r))))"
  by pat_completeness auto
termination
proof (relation "measure (length \<circ> snd)", goal_cases)
  case 1 show ?case by simp
next
  case (2 some s x2 lo r x2a hi r')
  then have "length r < length s" and "length r' < length (tl r)"
    by (auto dest!: glob_esc_shorter)
  then show ?case by simp
next
  case (3 some s x2 lo r)
  then show ?case by (auto dest!: glob_esc_shorter)
qed

declare glob_ranges.simps [simp del]

lemma glob_ranges_shorter: "glob_ranges b s = Some (rs, u) \<Longrightarrow> length u < length s"
proof (induction b s arbitrary: rs u rule: glob_ranges.induct)
  case (1 b s)
  show ?case
  proof (cases "b \<and> s \<noteq> [] \<and> hd s = CHR '']''")
    case True
    then have "glob_ranges b s = Some ([], tl s)" by (subst glob_ranges.simps) simp
    with True "1.prems" show ?thesis by (cases s) auto
  next
    case False
    with "1.prems" obtain lo r where e: "glob_esc s = Some (lo, r)"
      by (auto simp: glob_ranges.simps [of b s] split: option.splits)
    then have len: "length r < length s" by (rule glob_esc_shorter)
    show ?thesis
    proof (cases "r \<noteq> [] \<and> hd r = CHR ''-''")
      case True
      with "1.prems" False e obtain hi r' v where e': "glob_esc (tl r) = Some (hi, r')"
        and rec: "glob_ranges True r' = Some (v, u)"
        by (auto simp: glob_ranges.simps [of b s] split: option.splits)
      have "length u < length r'" using "1.IH"(1) [OF False e refl True e' refl rec] .
      with glob_esc_shorter [OF e'] len show ?thesis by simp
    next
      case noDash: False
      with "1.prems" False e obtain v where rec: "glob_ranges True r = Some (v, u)"
        by (auto simp: glob_ranges.simps [of b s])
      have "length u < length r" using "1.IH"(2) [OF False e refl noDash rec] .
      with len show ?thesis by simp
    qed
  qed
qed

function parse_glob :: "string \<Rightarrow> gtok list option" where
  "parse_glob [] = Some []"
| "parse_glob (c # s) =
     (if c = CHR ''*'' then map_option ((#) GStar) (parse_glob s)
      else if c = CHR ''?'' then map_option ((#) GAny) (parse_glob s)
      else if c = CHR 0x5C then
        (case s of [] \<Rightarrow> None | d # s' \<Rightarrow> map_option ((#) (GLit d)) (parse_glob s'))
      else if c = CHR ''['' then
        (let neg = (s \<noteq> [] \<and> hd s = CHR 0x5E) in
         case glob_ranges False (if neg then tl s else s) of
           None \<Rightarrow> None
         | Some (rs, u) \<Rightarrow> map_option ((#) (GClass neg rs)) (parse_glob u))
      else map_option ((#) (GLit c)) (parse_glob s))"
  by pat_completeness auto
termination
proof (relation "measure length", goal_cases)
  case (5 c s neg x2 rs u)
  then have "length u < length (if neg then tl s else s)"
    by (auto dest!: glob_ranges_shorter)
  then show ?case by (auto split: if_splits)
qed auto

fun glob_match :: "gtok list \<Rightarrow> string \<Rightarrow> bool" where
  "glob_match [] s = (s = [])"
| "glob_match (GStar # ts) [] = glob_match ts []"
| "glob_match (GStar # ts) (c # s) =
     (glob_match ts (c # s) \<or> (c \<noteq> CHR ''/'' \<and> glob_match (GStar # ts) s))"
| "glob_match (GAny # ts) (c # s) = (c \<noteq> CHR ''/'' \<and> glob_match ts s)"
| "glob_match (GClass neg rs # ts) (c # s) =
     ((neg \<noteq> list_ex (\<lambda>(lo, hi). lo \<le> c \<and> c \<le> hi) rs) \<and> glob_match ts s)"
| "glob_match (GLit d # ts) (c # s) = (c = d \<and> glob_match ts s)"
| "glob_match (t # ts) [] = False"

text \<open>\<open>path.Match(pattern, name)\<close>; \<^const>\<open>None\<close> is \<open>path.ErrBadPattern\<close>.\<close>

definition path_match :: "string \<Rightarrow> string \<Rightarrow> bool option" where
  "path_match pattern name = map_option (\<lambda>ts. glob_match ts name) (parse_glob pattern)"

definition glob_plain :: "string \<Rightarrow> bool" where
  "glob_plain s = list_all (\<lambda>c. c \<notin> {CHR ''*'', CHR ''?'', CHR 0x5C, CHR ''[''}) s"

lemma parse_glob_plain:
  "glob_plain p \<Longrightarrow> parse_glob (p @ r) = map_option ((@) (map GLit p)) (parse_glob r)"
  by (induction p) (cases "parse_glob r"; auto simp: glob_plain_def)+

lemma glob_match_lits:
  "glob_match (map GLit p @ ts) s \<longleftrightarrow> (\<exists>r. s = p @ r \<and> glob_match ts r)"
proof (induction p arbitrary: s)
  case (Cons a p)
  then show ?case by (cases s) auto
qed auto

lemma glob_match_star: "glob_match [GStar] s \<longleftrightarrow> CHR ''/'' \<notin> set s"
  by (induction s) auto

lemma path_match_plain_star:
  assumes "glob_plain p"
  shows "path_match (p @ ''*'') s = Some (\<exists>r. s = p @ r \<and> CHR ''/'' \<notin> set r)"
  using parse_glob_plain [OF assms, of "''*''"]
  by (simp add: path_match_def glob_match_lits glob_match_star)

end
