(* ===== verification/Cache_Memory.thy ===== *)
theory Cache_Memory
  imports Glob
begin

text \<open>
  internal/cache/memory_backend.go: the mutex-protected bounded LRU cache. The Go value
  keeps a map from keys to elements of a container/list; the model keeps both, with
  element identities for the pointers. Every method runs under the mutex, so an operation
  is one state transition, and \<open>b.now()\<close> is the clock field, constant during it.
  The stored bytes are opaque here: their type is \<open>'v\<close>.
\<close>

datatype cache_err = ErrCacheMiss | ErrRedisNil | ErrBadPattern | ErrBackend string

record 'v mem_entry =
  me_key :: string
  me_value :: 'v
  me_expires :: "timestamp option"

record 'v memory_backend =
  mb_max :: int
  mb_items :: "(string \<times> nat) list"
  mb_lru :: "(nat \<times> 'v mem_entry) list"
  mb_next :: nat
  mb_now :: timestamp

definition new_memory_backend :: "int \<Rightarrow> timestamp \<Rightarrow> 'v memory_backend" where
  "new_memory_backend maxEntries now =
     \<lparr> mb_max = maxEntries, mb_items = [], mb_lru = [], mb_next = 0, mb_now = now \<rparr>"

definition expired :: "timestamp \<Rightarrow> 'v mem_entry \<Rightarrow> bool" where
  "expired now e = (case me_expires e of None \<Rightarrow> False | Some t \<Rightarrow> \<not> now < t)"

definition remove_element :: "nat \<Rightarrow> 'v memory_backend \<Rightarrow> 'v memory_backend" where
  "remove_element i b = (case map_of (mb_lru b) i of
       None \<Rightarrow> b
     | Some e \<Rightarrow> b\<lparr> mb_items := amap_del (me_key e) (mb_items b), mb_lru := amap_del i (mb_lru b) \<rparr>)"

definition move_to_front :: "nat \<Rightarrow> 'v memory_backend \<Rightarrow> 'v memory_backend" where
  "move_to_front i b = (case map_of (mb_lru b) i of
       None \<Rightarrow> b
     | Some e \<Rightarrow> b\<lparr> mb_lru := (i, e) # amap_del i (mb_lru b) \<rparr>)"

definition set_element_value :: "nat \<Rightarrow> 'v mem_entry \<Rightarrow> 'v memory_backend \<Rightarrow> 'v memory_backend" where
  "set_element_value i e b =
     b\<lparr> mb_lru := map (\<lambda>(j, x). if j = i then (j, e) else (j, x)) (mb_lru b) \<rparr>"

definition mem_get :: "string \<Rightarrow> 'v memory_backend \<Rightarrow> (cache_err + 'v) \<times> 'v memory_backend" where
  "mem_get key b = (case map_of (mb_items b) key of
       None \<Rightarrow> (Inl ErrCacheMiss, b)
     | Some i \<Rightarrow> (case map_of (mb_lru b) i of
           None \<Rightarrow> (Inl ErrCacheMiss, b)
         | Some e \<Rightarrow>
             if expired (mb_now b) e then (Inl ErrCacheMiss, remove_element i b)
             else (Inr (me_value e), move_to_front i b)))"

text \<open>
  The eviction loop of \<open>Set\<close>. The guard on the list keeps the recursion total; under
  \<open>mem_inv\<close> the two lengths agree, so it never decides.
\<close>

function evict :: "'v memory_backend \<Rightarrow> 'v memory_backend" where
  "evict b = (if int (length (mb_items b)) > mb_max b \<and> mb_lru b \<noteq> []
              then evict (remove_element (fst (last (mb_lru b))) b) else b)"
  by pat_completeness auto
termination
proof (relation "measure (\<lambda>b. length (mb_lru b))", goal_cases)
  case (2 b)
  then obtain i e where l: "last (mb_lru b) = (i, e)" "(i, e) \<in> set (mb_lru b)"
    by (metis last_in_set surj_pair)
  then obtain e' where "map_of (mb_lru b) i = Some e'"
    by (metis domIff map_of_eq_None_iff not_None_eq fst_conv image_eqI)
  moreover have "length (amap_del i (mb_lru b)) < length (mb_lru b)"
    using l by (auto simp: amap_del_def intro: length_filter_less)
  ultimately show ?case using l by (simp add: remove_element_def)
qed simp

declare evict.simps [simp del]

definition mem_set ::
  "string \<Rightarrow> 'v \<Rightarrow> duration \<Rightarrow> 'v memory_backend \<Rightarrow> cache_err option \<times> 'v memory_backend" where
  "mem_set key value ttl b =
     (if mb_max b \<le> 0 then (None, b)
      else let entry = \<lparr> me_key = key, me_value = value,
                         me_expires = (if ttl > 0 then Some (mb_now b + ttl) else None) \<rparr>
           in case map_of (mb_items b) key of
                Some i \<Rightarrow> (None, move_to_front i (set_element_value i entry b))
              | None \<Rightarrow>
                  let i = mb_next b;
                      b1 = b\<lparr> mb_lru := (i, entry) # mb_lru b, mb_next := i + 1 \<rparr>;
                      b2 = b1\<lparr> mb_items := amap_put key i (mb_items b1) \<rparr>
                  in (None, evict b2))"

fun mem_delete_loop :: "string list \<Rightarrow> nat \<Rightarrow> 'v memory_backend \<Rightarrow> nat \<times> 'v memory_backend" where
  "mem_delete_loop [] count b = (count, b)"
| "mem_delete_loop (key # keys) count b = (case map_of (mb_items b) key of
       Some i \<Rightarrow> mem_delete_loop keys (count + 1) (remove_element i b)
     | None \<Rightarrow> mem_delete_loop keys count b)"

definition mem_delete :: "string list \<Rightarrow> 'v memory_backend \<Rightarrow> (cache_err + nat) \<times> 'v memory_backend" where
  "mem_delete keys b = (let (n, b') = mem_delete_loop keys 0 b in (Inr n, b'))"

text \<open>
  \<open>Scan\<close> ranges over the map (any order), drops expired entries as it meets them and
  stops at the first \<open>path.Match\<close> error.
\<close>

fun mem_scan_loop ::
  "string \<Rightarrow> (string \<times> nat) list \<Rightarrow> string list \<Rightarrow> 'v memory_backend \<Rightarrow>
     (cache_err + string list) \<times> 'v memory_backend" where
  "mem_scan_loop pattern [] acc b = (Inr acc, b)"
| "mem_scan_loop pattern ((key, i) # rest) acc b =
     (case map_of (mb_lru b) i of
        None \<Rightarrow> mem_scan_loop pattern rest acc b
      | Some e \<Rightarrow>
          if expired (mb_now b) e then mem_scan_loop pattern rest acc (remove_element i b)
          else (case path_match pattern key of
                  None \<Rightarrow> (Inl ErrBadPattern, b)
                | Some matched \<Rightarrow> mem_scan_loop pattern rest (if matched then acc @ [key] else acc) b))"

definition mem_scan ::
  "string \<Rightarrow> 'v memory_backend \<Rightarrow> (cache_err + string list) \<times> 'v memory_backend" where
  "mem_scan pattern b = mem_scan_loop pattern (mb_items b) [] b"

definition mem_flush_all :: "'v memory_backend \<Rightarrow> (cache_err + nat) \<times> 'v memory_backend" where
  "mem_flush_all b = (Inr (length (mb_items b)), b\<lparr> mb_items := [], mb_lru := [] \<rparr>)"

fun mem_stats_loop :: "(nat \<times> 'v mem_entry) list \<Rightarrow> 'v memory_backend \<Rightarrow> 'v memory_backend" where
  "mem_stats_loop [] b = b"
| "mem_stats_loop ((i, e) # rest) b =
     mem_stats_loop rest (if expired (mb_now b) e then remove_element i b else b)"

definition lru_back_to_front :: "'v memory_backend \<Rightarrow> (nat \<times> 'v mem_entry) list" where
  "lru_back_to_front b = rev (mb_lru b)"

definition mem_stats :: "'v memory_backend \<Rightarrow> (cache_err + nat \<times> string) \<times> 'v memory_backend" where
  "mem_stats b = (let b' = mem_stats_loop (lru_back_to_front b) b
                  in (Inr (length (mb_items b'), ''''), b'))"

text \<open>The clock moves between operations.\<close>

definition mem_tick :: "duration \<Rightarrow> 'v memory_backend \<Rightarrow> 'v memory_backend" where
  "mem_tick d b = b\<lparr> mb_now := mb_now b + d \<rparr>"

subsection \<open>The representation invariant\<close>

text \<open>
  The map and the list index each other, identities are fresh, and the number of entries
  never exceeds the configured capacity.
\<close>

definition index_entry :: "nat \<times> 'v mem_entry \<Rightarrow> string \<times> nat" where
  "index_entry p = (me_key (snd p), fst p)"

definition mem_wf :: "'v memory_backend \<Rightarrow> bool" where
  "mem_wf b \<longleftrightarrow> amap_wf (mb_lru b) \<and> amap_wf (mb_items b) \<and>
     set (mb_items b) = index_entry ` set (mb_lru b) \<and>
     (\<forall>p \<in> set (mb_lru b). fst p < mb_next b)"

text \<open>The capacity bound holds between operations; inside \<open>Set\<close> it is exceeded by one.\<close>

definition mem_inv :: "'v memory_backend \<Rightarrow> bool" where
  "mem_inv b \<longleftrightarrow> mem_wf b \<and> int (length (mb_lru b)) \<le> max 0 (mb_max b)"

lemma mem_wfD:
  assumes "mem_wf b"
  shows "amap_wf (mb_lru b)" "amap_wf (mb_items b)"
    "set (mb_items b) = index_entry ` set (mb_lru b)"
    "p \<in> set (mb_lru b) \<Longrightarrow> fst p < mb_next b"
  using assms by (simp_all add: mem_wf_def)

lemma mem_wf_keys_distinct:
  assumes "mem_wf b" and "p \<in> set (mb_lru b)" and "q \<in> set (mb_lru b)"
    and "me_key (snd p) = me_key (snd q)"
  shows "p = q"
proof -
  have "index_entry p \<in> set (mb_items b)" "index_entry q \<in> set (mb_items b)"
    using assms by (auto simp: mem_wfD(3))
  with assms(4) have "fst p = fst q"
    using mem_wfD(2) [OF assms(1)] unfolding index_entry_def by (metis eq_key_imp_eq_value)
  with assms(2,3) show ?thesis
    using mem_wfD(1) [OF assms(1)] by (metis eq_key_imp_eq_value prod.collapse)
qed

lemma mem_wf_lookup:
  assumes "mem_wf b"
  shows "map_of (mb_items b) k = Some i \<longleftrightarrow> (\<exists>e. map_of (mb_lru b) i = Some e \<and> me_key e = k)"
proof -
  have "map_of (mb_items b) k = Some i \<longleftrightarrow> (k, i) \<in> index_entry ` set (mb_lru b)"
    using mem_wfD [OF assms] by simp
  also have "\<dots> \<longleftrightarrow> (\<exists>e. (i, e) \<in> set (mb_lru b) \<and> me_key e = k)"
    by (force simp: index_entry_def image_iff)
  also have "\<dots> \<longleftrightarrow> (\<exists>e. map_of (mb_lru b) i = Some e \<and> me_key e = k)"
    using mem_wfD [OF assms] by simp
  finally show ?thesis .
qed

lemma mem_wf_lengths:
  assumes "mem_wf b"
  shows "length (mb_items b) = length (mb_lru b)"
proof -
  have "inj_on index_entry (set (mb_lru b))"
    using mem_wf_keys_distinct [OF assms] by (intro inj_onI) (auto simp: index_entry_def)
  then have "card (set (mb_items b)) = card (set (mb_lru b))"
    using mem_wfD(3) [OF assms] by (simp add: card_image)
  moreover have "distinct (mb_items b)" "distinct (mb_lru b)"
    using mem_wfD(1,2) [OF assms] by (auto simp: distinct_map)
  ultimately show ?thesis by (simp add: distinct_card)
qed

lemma remove_element_wf [component_inv]:
  assumes "mem_wf b"
  shows "mem_wf (remove_element i b)"
proof (cases "map_of (mb_lru b) i")
  case None
  with assms show ?thesis by (simp add: remove_element_def)
next
  case (Some e)
  have mem: "(i, e) \<in> set (mb_lru b)" using Some by (rule map_of_SomeD)
  have keys: "me_key (snd p) = me_key e \<longleftrightarrow> fst p = i" if "p \<in> set (mb_lru b)" for p
    using mem_wf_keys_distinct [OF assms that mem] that mem mem_wfD(1) [OF assms]
    by (metis eq_key_imp_eq_value fst_conv prod.collapse snd_conv)
  have "set (amap_del (me_key e) (mb_items b)) = index_entry ` set (amap_del i (mb_lru b))"
    unfolding set_amap_del mem_wfD(3) [OF assms] using keys by (auto simp: index_entry_def)
  then show ?thesis
    using mem_wfD [OF assms] Some
    by (simp add: mem_wf_def remove_element_def amap_wf_del) (simp add: set_amap_del)
qed

lemma remove_element_fields [simp]:
  "mb_max (remove_element i b) = mb_max b"
  "mb_now (remove_element i b) = mb_now b"
  "mb_next (remove_element i b) = mb_next b"
  "map_of (mb_lru (remove_element i b)) = (map_of (mb_lru b))(i := None)"
  by (auto simp: remove_element_def fun_eq_iff split: option.splits)

lemma remove_element_lru: "mb_lru (remove_element i b) = amap_del i (mb_lru b)"
  by (auto simp: remove_element_def amap_del_def map_of_eq_None_iff image_iff
        intro!: filter_True [symmetric] split: option.splits)

lemma amap_del_length: "length (amap_del i m) \<le> length m"
  by (simp add: amap_del_def)

lemma remove_element_inv [component_inv]: "mem_inv b \<Longrightarrow> mem_inv (remove_element i b)"
  using amap_del_length [of i "mb_lru b"]
  by (auto simp: mem_inv_def remove_element_lru intro: remove_element_wf)


subsection \<open>The abstract cache: entries in order of use\<close>

text \<open>
  The contract of the cache forgets the map and the identities: a list of entries, the
  most recently used first, truncated to the capacity.
\<close>

definition lru_view :: "'v memory_backend \<Rightarrow> 'v mem_entry list" where
  "lru_view b = map snd (mb_lru b)"

definition lookup_entry :: "'v mem_entry list \<Rightarrow> string \<Rightarrow> 'v mem_entry option" where
  "lookup_entry es = map_of (map (\<lambda>e. (me_key e, e)) es)"

definition without_key :: "string \<Rightarrow> 'v mem_entry list \<Rightarrow> 'v mem_entry list" where
  "without_key k es = filter (\<lambda>e. me_key e \<noteq> k) es"

definition spec_get ::
  "timestamp \<Rightarrow> string \<Rightarrow> 'v mem_entry list \<Rightarrow> (cache_err + 'v) \<times> 'v mem_entry list" where
  "spec_get now k es = (case lookup_entry es k of
       None \<Rightarrow> (Inl ErrCacheMiss, es)
     | Some e \<Rightarrow> if expired now e then (Inl ErrCacheMiss, without_key k es)
                else (Inr (me_value e), e # without_key k es))"

definition spec_set ::
  "int \<Rightarrow> timestamp \<Rightarrow> string \<Rightarrow> 'v \<Rightarrow> duration \<Rightarrow> 'v mem_entry list \<Rightarrow> 'v mem_entry list" where
  "spec_set capacity now k v ttl es =
     (if capacity \<le> 0 then es
      else take (nat capacity)
        (\<lparr> me_key = k, me_value = v, me_expires = (if ttl > 0 then Some (now + ttl) else None) \<rparr>
           # without_key k es))"

lemma lookup_entry_simps [simp]:
  "lookup_entry [] = Map.empty"
  "lookup_entry (e # es) = (lookup_entry es)(me_key e \<mapsto> e)"
  by (simp_all add: lookup_entry_def)

lemma lookup_entry_key: "lookup_entry es k = Some e \<Longrightarrow> me_key e = k \<and> e \<in> set es"
  by (induction es) (auto split: if_splits)

lemma lookup_without_key [simp]: "lookup_entry (without_key k es) = (lookup_entry es)(k := None)"
  by (induction es) (auto simp: without_key_def fun_eq_iff)

lemma lookup_entry_append:
  "lookup_entry (xs @ ys) k = (case lookup_entry xs k of None \<Rightarrow> lookup_entry ys k | Some e \<Rightarrow> Some e)"
  by (induction xs) auto

lemma lru_view_keys: "mem_wf b \<Longrightarrow> distinct (map me_key (lru_view b))"
  using mem_wf_keys_distinct [of b] mem_wfD(1) [of b]
  by (auto simp: lru_view_def distinct_map inj_on_def o_def dest: map_of_is_SomeI)

lemma lookup_entry_mem:
  "distinct (map me_key es) \<Longrightarrow> e \<in> set es \<Longrightarrow> lookup_entry es (me_key e) = Some e"
  by (induction es) (auto simp: image_iff dest!: lookup_entry_key)

lemma lookup_lru_view:
  assumes "mem_wf b"
  shows "lookup_entry (lru_view b) k =
           (case map_of (mb_items b) k of None \<Rightarrow> None | Some i \<Rightarrow> map_of (mb_lru b) i)"
proof (cases "map_of (mb_items b) k")
  case None
  have "lookup_entry (lru_view b) k = None"
  proof (rule ccontr)
    assume "lookup_entry (lru_view b) k \<noteq> None"
    then obtain e where e: "me_key e = k" "e \<in> set (lru_view b)" by (auto dest: lookup_entry_key)
    then obtain i where "(i, e) \<in> set (mb_lru b)" by (auto simp: lru_view_def)
    then have "map_of (mb_items b) k = Some i"
      using mem_wf_lookup [OF assms] mem_wfD(1) [OF assms] e by auto
    with None show False by simp
  qed
  with None show ?thesis by simp
next
  case (Some i)
  then obtain e where e: "map_of (mb_lru b) i = Some e" "me_key e = k"
    using mem_wf_lookup [OF assms] by blast
  then have "e \<in> set (lru_view b)" by (force simp: lru_view_def dest: map_of_SomeD)
  then have "lookup_entry (lru_view b) (me_key e) = Some e"
    by (rule lookup_entry_mem [OF lru_view_keys [OF assms]])
  with e Some show ?thesis by simp
qed

lemma lru_view_del:
  assumes "mem_wf b" and "map_of (mb_lru b) i = Some e"
  shows "map snd (amap_del i (mb_lru b)) = without_key (me_key e) (lru_view b)"
proof -
  have "me_key (snd p) = me_key e \<longleftrightarrow> fst p = i" if "p \<in> set (mb_lru b)" for p
    using mem_wf_keys_distinct [OF assms(1) that, of "(i, e)"] map_of_SomeD [OF assms(2)] that
      mem_wfD(1) [OF assms(1)]
    by (metis eq_key_imp_eq_value fst_conv prod.collapse snd_conv)
  then show ?thesis
    by (auto simp: amap_del_def without_key_def lru_view_def filter_map o_def intro!: arg_cong [where f = "map snd"] filter_cong)
qed

lemma lru_view_remove:
  assumes "mem_wf b" and "map_of (mb_lru b) i = Some e"
  shows "lru_view (remove_element i b) = without_key (me_key e) (lru_view b)"
  using lru_view_del [OF assms] by (simp add: lru_view_def remove_element_lru)

lemma move_to_front_wf [component_inv]:
  assumes "mem_wf b"
  shows "mem_wf (move_to_front i b)"
proof (cases "map_of (mb_lru b) i")
  case (Some e)
  have "set ((i, e) # amap_del i (mb_lru b)) = set (mb_lru b)"
    using map_of_SomeD [OF Some] mem_wfD(1) [OF assms]
    by (auto simp: set_amap_del dest: eq_key_imp_eq_value)
  moreover have "amap_wf ((i, e) # amap_del i (mb_lru b))"
    using mem_wfD(1) [OF assms] by (auto simp: set_amap_del intro: amap_wf_del)
  ultimately show ?thesis
    using mem_wfD [OF assms] Some by (simp add: mem_wf_def move_to_front_def)
qed (simp add: move_to_front_def assms)

lemma move_to_front_view:
  assumes "mem_wf b" and "map_of (mb_lru b) i = Some e"
  shows "lru_view (move_to_front i b) = e # without_key (me_key e) (lru_view b)"
  using lru_view_del [OF assms] assms(2) by (simp add: lru_view_def move_to_front_def)

lemma move_to_front_fields [simp]:
  "mb_max (move_to_front i b) = mb_max b" "mb_now (move_to_front i b) = mb_now b"
  by (auto simp: move_to_front_def split: option.splits)

lemma amap_del_present_length:
  "amap_wf m \<Longrightarrow> map_of m i = Some e \<Longrightarrow> Suc (length (amap_del i m)) = length m"
proof (induction m)
  case (Cons p m)
  show ?case
  proof (cases "fst p = i")
    case True
    with Cons.prems have "amap_del i m = m" by (auto simp: amap_del_def image_iff intro!: filter_True)
    with True show ?thesis by (simp add: amap_del_def)
  next
    case False
    with Cons show ?thesis by (cases p) (auto simp: amap_del_def)
  qed
qed simp

lemma move_to_front_length:
  "mem_wf b \<Longrightarrow> length (mb_lru (move_to_front i b)) = length (mb_lru b)"
  using amap_del_present_length [OF mem_wfD(1), of b i]
  by (auto simp: move_to_front_def split: option.splits)


subsection \<open>Each operation keeps the invariant and implements its specification\<close>

lemma mem_get_spec:
  assumes "mem_inv b" and "mem_get k b = (r, b')"
  shows "mem_inv b' \<and> (r, lru_view b') = spec_get (mb_now b) k (lru_view b) \<and>
         mb_max b' = mb_max b \<and> mb_now b' = mb_now b"
proof -
  have wf: "mem_wf b" using assms(1) by (simp add: mem_inv_def)
  have look: "lookup_entry (lru_view b) k =
      (case map_of (mb_items b) k of None \<Rightarrow> None | Some i \<Rightarrow> map_of (mb_lru b) i)"
    by (rule lookup_lru_view [OF wf])
  show ?thesis
  proof (cases "map_of (mb_items b) k")
    case None
    with assms look show ?thesis by (simp add: mem_get_def spec_get_def)
  next
    case (Some i)
    then obtain e where e: "map_of (mb_lru b) i = Some e" "me_key e = k"
      using mem_wf_lookup [OF wf] by blast
    have inv: "mem_inv (move_to_front i b)" "mem_inv (remove_element i b)"
      using assms(1) move_to_front_wf [OF wf] remove_element_inv [OF assms(1)]
      by (auto simp: mem_inv_def move_to_front_length)
    from assms(2) Some e look show ?thesis
      using inv lru_view_remove [OF wf e(1)] move_to_front_view [OF wf e(1)]
      by (auto simp: mem_get_def spec_get_def split: if_splits)
  qed
qed

lemma amap_del_last:
  assumes "amap_wf m" and "m \<noteq> []"
  shows "amap_del (fst (last m)) m = butlast m"
proof -
  obtain xs p where m: "m = xs @ [p]" using assms(2) by (metis rev_exhaust)
  with assms(1) have "\<forall>q \<in> set xs. fst q \<noteq> fst p" by (auto simp: image_iff)
  with m show ?thesis by (simp add: amap_del_def)
qed

lemma evict_wf:
  "mem_wf b \<Longrightarrow> 0 \<le> mb_max b \<Longrightarrow>
     mem_wf (evict b) \<and> mb_lru (evict b) = take (nat (mb_max b)) (mb_lru b) \<and>
     mb_max (evict b) = mb_max b \<and> mb_now (evict b) = mb_now b"
proof (induction b rule: evict.induct)
  case (1 b)
  show ?case
  proof (cases "int (length (mb_items b)) > mb_max b \<and> mb_lru b \<noteq> []")
    case True
    let ?b = "remove_element (fst (last (mb_lru b))) b"
    have lru: "mb_lru ?b = butlast (mb_lru b)"
      using amap_del_last [OF mem_wfD(1) [OF "1.prems"(1)] conjunct2 [OF True]]
      by (simp add: remove_element_lru)
    have long: "nat (mb_max b) < length (mb_lru b)"
      using conjunct1 [OF True] "1.prems"(2) mem_wf_lengths [OF "1.prems"(1)] by linarith
    have "mem_wf (evict ?b) \<and> mb_lru (evict ?b) = take (nat (mb_max b)) (butlast (mb_lru b)) \<and>
          mb_max (evict ?b) = mb_max b \<and> mb_now (evict ?b) = mb_now b"
      using "1.IH" [OF True remove_element_wf [OF "1.prems"(1)]] "1.prems"(2) lru by simp
    moreover have "evict b = evict ?b" using True by (subst evict.simps) simp
    moreover have "take (nat (mb_max b)) (butlast (mb_lru b)) = take (nat (mb_max b)) (mb_lru b)"
      using long by (simp add: take_butlast)
    ultimately show ?thesis by simp
  next
    case False
    then have "evict b = b" by (subst evict.simps) (simp only: if_False)
    moreover have "length (mb_lru b) \<le> nat (mb_max b)"
      using False mem_wf_lengths [OF "1.prems"(1)] by auto
    ultimately show ?thesis using "1.prems" by simp
  qed
qed

lemma set_element_value_wf:
  assumes wf: "mem_wf b" and look: "map_of (mb_lru b) i = Some e" and key: "me_key e' = me_key e"
  shows "mem_wf (set_element_value i e' b) \<and>
         map_of (mb_lru (set_element_value i e' b)) i = Some e' \<and>
         without_key (me_key e) (lru_view (set_element_value i e' b)) = without_key (me_key e) (lru_view b)"
proof -
  let ?f = "\<lambda>(j, x). if j = i then (j, e') else (j, x)"
  have lru: "mb_lru (set_element_value i e' b) = map ?f (mb_lru b)"
    by (simp add: set_element_value_def)
  have fst: "fst (?f p) = fst p" for p by (cases p) simp
  have idx: "index_entry (?f p) = index_entry p" if "p \<in> set (mb_lru b)" for p
  proof (cases "fst p = i")
    case True
    then have "map_of (mb_lru b) i = Some (snd p)"
      using that mem_wfD(1) [OF wf] by (cases p) simp
    with look key True show ?thesis by (cases p) (simp add: index_entry_def)
  next
    case False
    then show ?thesis by (cases p) simp
  qed
  have wf': "mem_wf (set_element_value i e' b)"
    using mem_wfD [OF wf] lru fst idx
    by (simp add: mem_wf_def o_def image_image set_element_value_def cong: image_cong)
  have "map_of (map ?f m) i = Some e'" if "map_of m i = Some e" for m
    using that by (induction m) (auto split: if_splits)
  with look have at: "map_of (mb_lru (set_element_value i e' b)) i = Some e'" by (simp add: lru)
  have "map snd (amap_del i (map ?f m)) = map snd (amap_del i m)" for m :: "(nat \<times> 'a mem_entry) list"
    by (induction m) (auto simp: amap_del_def split: if_splits)
  then have "map snd (amap_del i (mb_lru (set_element_value i e' b))) = map snd (amap_del i (mb_lru b))"
    by (simp add: lru)
  with lru_view_del [OF wf' at] lru_view_del [OF wf look] key wf' at show ?thesis by simp
qed

lemma set_element_value_fields [simp]:
  "mb_max (set_element_value i e b) = mb_max b" "mb_now (set_element_value i e b) = mb_now b"
  "length (mb_lru (set_element_value i e b)) = length (mb_lru b)"
  by (simp_all add: set_element_value_def)

lemma without_key_absent: "lookup_entry es k = None \<Longrightarrow> without_key k es = es"
  by (induction es) (auto simp: without_key_def split: if_splits)

lemma without_key_length: "length (without_key k es) \<le> length es"
  by (simp add: without_key_def)

lemma mem_set_update:
  assumes inv: "mem_inv b" and cap: "0 < mb_max b" and i: "map_of (mb_items b) k = Some i"
    and e': "me_key e' = k"
  shows "mem_inv (move_to_front i (set_element_value i e' b)) \<and>
         lru_view (move_to_front i (set_element_value i e' b)) = e' # without_key k (lru_view b)"
proof -
  have wf: "mem_wf b" using inv by (simp add: mem_inv_def)
  obtain e where e: "map_of (mb_lru b) i = Some e" "me_key e = k"
    using i mem_wf_lookup [OF wf] by blast
  note sev = set_element_value_wf [OF wf e(1), of e']
  show ?thesis
    using sev move_to_front_view [of "set_element_value i e' b" i e'] e e' inv
      move_to_front_wf [of "set_element_value i e' b" i]
    by (simp add: mem_inv_def move_to_front_length)
qed

lemma mem_set_insert_wf:
  assumes wf: "mem_wf b" and new: "map_of (mb_items b) (me_key e) = None"
  shows "mem_wf (b\<lparr> mb_lru := (mb_next b, e) # mb_lru b, mb_next := mb_next b + 1,
                    mb_items := amap_put (me_key e) (mb_next b) (mb_items b) \<rparr>)"
proof -
  have fresh: "mb_next b \<notin> fst ` set (mb_lru b)"
    using mem_wfD(4) [OF wf] by force
  have "amap_del (me_key e) (mb_items b) = mb_items b"
    using new by (auto simp: amap_del_def map_of_eq_None_iff image_iff intro!: filter_True)
  then have "amap_put (me_key e) (mb_next b) (mb_items b) = (me_key e, mb_next b) # mb_items b"
    by (simp add: amap_put_def amap_del_def)
  then show ?thesis
    using mem_wfD [OF wf] fresh new
    by (auto simp: mem_wf_def index_entry_def map_of_eq_None_iff less_Suc_eq)
qed

lemma take_view: "lru_view b' = take n (lru_view b)" if "mb_lru b' = take n (mb_lru b)"
  using that by (simp add: lru_view_def take_map)

lemma mem_set_spec:
  assumes "mem_inv b" and "mem_set k v ttl b = (r, b')"
  shows "r = None \<and> mem_inv b' \<and> lru_view b' = spec_set (mb_max b) (mb_now b) k v ttl (lru_view b) \<and>
         mb_max b' = mb_max b \<and> mb_now b' = mb_now b"
proof (cases "mb_max b \<le> 0")
  case True
  with assms show ?thesis by (simp add: mem_set_def spec_set_def)
next
  case cap: False
  have wf: "mem_wf b" using assms(1) by (simp add: mem_inv_def)
  define e where "e = \<lparr> me_key = k, me_value = v,
                        me_expires = (if ttl > 0 then Some (mb_now b + ttl) else None) \<rparr>"
  have ek: "me_key e = k" by (simp add: e_def)
  have spec: "spec_set (mb_max b) (mb_now b) k v ttl (lru_view b) =
      take (nat (mb_max b)) (e # without_key k (lru_view b))"
    using cap by (simp add: spec_set_def e_def)
  have len: "length (lru_view b) \<le> nat (mb_max b)"
    using assms(1) cap by (simp add: mem_inv_def lru_view_def) linarith
  show ?thesis
  proof (cases "map_of (mb_items b) k")
    case (Some i)
    have res: "r = None" "b' = move_to_front i (set_element_value i e b)"
      using assms(2) cap Some by (auto simp: mem_set_def e_def Let_def)
    have upd: "mem_inv b'" "lru_view b' = e # without_key k (lru_view b)"
      using mem_set_update [OF assms(1) _ Some ek] cap res by auto
    have "length (lru_view b') \<le> nat (mb_max b)"
      using upd(1) cap res by (simp add: mem_inv_def lru_view_def) linarith
    then show ?thesis using upd res spec by simp
  next
    case None
    let ?b2 = "b\<lparr> mb_lru := (mb_next b, e) # mb_lru b, mb_next := mb_next b + 1,
                  mb_items := amap_put k (mb_next b) (mb_items b) \<rparr>"
    have res: "r = None" "b' = evict ?b2"
      using assms(2) cap None by (auto simp: mem_set_def e_def Let_def)
    have "mem_wf ?b2" using mem_set_insert_wf [OF wf, of e] None ek by simp
    then have ev: "mem_wf b'" "mb_lru b' = take (nat (mb_max b)) (mb_lru ?b2)"
        "mb_max b' = mb_max b" "mb_now b' = mb_now b"
      using evict_wf [of ?b2] cap res by auto
    have "without_key k (lru_view b) = lru_view b"
      using lookup_lru_view [OF wf, of k] None by (intro without_key_absent) simp
    then have "lru_view b' = spec_set (mb_max b) (mb_now b) k v ttl (lru_view b)"
      using take_view [of b' _ ?b2, OF ev(2)] spec by (simp add: lru_view_def)
    then show ?thesis using ev res cap by (simp add: mem_inv_def)
  qed
qed


subsection \<open>What readers see\<close>

text \<open>The live contents of the cache: the entries that have not expired.\<close>

definition live :: "'v memory_backend \<Rightarrow> string \<Rightarrow> 'v option" where
  "live b k = (case lookup_entry (lru_view b) k of
       None \<Rightarrow> None
     | Some e \<Rightarrow> if expired (mb_now b) e then None else Some (me_value e))"

lemma mem_get_live:
  assumes "mem_inv b" and "mem_get k b = (r, b')"
  shows "r = (case live b k of None \<Rightarrow> Inl ErrCacheMiss | Some v \<Rightarrow> Inr v)" "live b' = live b"
  using mem_get_spec [OF assms] lookup_entry_key [of "lru_view b" k]
  by (auto simp: spec_get_def live_def fun_eq_iff split: option.splits if_splits)

lemma live_remove:
  assumes "mem_wf b" and "map_of (mb_lru b) i = Some e"
  shows "live (remove_element i b) = (live b)(me_key e := None)"
  using lru_view_remove [OF assms] by (auto simp: live_def fun_eq_iff split: option.splits)

lemma live_remove_expired:
  assumes "mem_wf b" and "map_of (mb_lru b) i = Some e" and "expired (mb_now b) e"
  shows "live (remove_element i b) = live b"
proof -
  have "lookup_entry (lru_view b) (me_key e) = Some e"
    using assms lookup_entry_mem [OF lru_view_keys [OF assms(1)]]
    by (force simp: lru_view_def dest: map_of_SomeD)
  with assms show ?thesis by (auto simp: live_remove live_def fun_eq_iff)
qed

lemma mem_set_live_other:
  assumes "mem_inv b" and "mem_set k v ttl b = (r, b')" and "k' \<noteq> k"
  shows "live b' k' = None \<or> live b' k' = live b k'"
proof -
  have sp: "lru_view b' = spec_set (mb_max b) (mb_now b) k v ttl (lru_view b)" "mb_now b' = mb_now b"
    using mem_set_spec [OF assms(1,2)] by auto
  have tk: "lookup_entry (take n es) k' = None \<or> lookup_entry (take n es) k' = lookup_entry es k'"
    for n and es :: "'a mem_entry list"
    by (metis append_take_drop_id lookup_entry_append option.case_eq_if option.simps(5) option.exhaust)
  show ?thesis
  proof (cases "mb_max b \<le> 0")
    case True
    with sp show ?thesis by (simp add: spec_set_def live_def split: option.splits)
  next
    case False
    define e where "e = \<lparr> me_key = k, me_value = v,
                          me_expires = (if ttl > 0 then Some (mb_now b + ttl) else None) \<rparr>"
    have "lookup_entry (e # without_key k (lru_view b)) k' = lookup_entry (lru_view b) k'"
      using assms(3) by (simp add: e_def)
    moreover have "lru_view b' = take (nat (mb_max b)) (e # without_key k (lru_view b))"
      using sp False by (simp add: spec_set_def e_def)
    ultimately have "lookup_entry (lru_view b') k' = None \<or>
        lookup_entry (lru_view b') k' = lookup_entry (lru_view b) k'"
      using tk by metis
    with sp show ?thesis by (auto simp: live_def split: option.splits)
  qed
qed

lemma mem_set_live_same:
  assumes "mem_inv b" and "mem_set k v ttl b = (r, b')" and "0 < mb_max b"
  shows "live b' k = Some v"
proof -
  have "lru_view b' = spec_set (mb_max b) (mb_now b) k v ttl (lru_view b)" "mb_now b' = mb_now b"
    using mem_set_spec [OF assms(1,2)] by auto
  with assms(3) show ?thesis
    by (cases "nat (mb_max b)") (auto simp: spec_set_def live_def expired_def)
qed


lemma mem_delete_loop_spec:
  assumes "mem_inv b" and "mem_delete_loop ks c b = (n, b')"
  shows "mem_inv b'" "lru_view b' = filter (\<lambda>e. me_key e \<notin> set ks) (lru_view b)"
    "mb_max b' = mb_max b" "mb_now b' = mb_now b"
    "n + length (mb_lru b') = c + length (mb_lru b)"
  using assms
proof (induction ks arbitrary: c b)
  case (Cons k ks)
  {
    case 1 then show ?case
      using Cons.IH(1) by (auto split: option.splits intro: remove_element_inv)
  next
    case 2
    then have wf: "mem_wf b" by (simp add: mem_inv_def)
    show ?case
    proof (cases "map_of (mb_items b) k")
      case None
      then have "\<forall>e \<in> set (lru_view b). me_key e \<noteq> k"
        using lookup_lru_view [OF wf, of k] lookup_entry_mem [OF lru_view_keys [OF wf]] by force
      with None 2 Cons.IH(2) [OF 2(1)] show ?thesis by (auto intro!: filter_cong)
    next
      case (Some i)
      then obtain e where e: "map_of (mb_lru b) i = Some e" "me_key e = k"
        using mem_wf_lookup [OF wf] by blast
      show ?thesis
        using 2 Some Cons.IH(2) [OF remove_element_inv [OF 2(1)]] lru_view_remove [OF wf e(1)] e(2)
        by (simp add: without_key_def conj_commute)
    qed
  next
    case 3 then show ?case
      using Cons.IH(3) remove_element_inv by (cases "map_of (mb_items b) k") fastforce+
  next
    case 4 then show ?case
      using Cons.IH(4) remove_element_inv by (cases "map_of (mb_items b) k") fastforce+
  next
    case 5
    then have wf: "mem_wf b" by (simp add: mem_inv_def)
    show ?case
    proof (cases "map_of (mb_items b) k")
      case None
      with 5 Cons.IH(5) [OF 5(1)] show ?thesis by simp
    next
      case (Some i)
      then obtain e where e: "map_of (mb_lru b) i = Some e" "me_key e = k"
        using mem_wf_lookup [OF wf] by blast
      have "Suc (length (mb_lru (remove_element i b))) = length (mb_lru b)"
        unfolding remove_element_lru by (rule amap_del_present_length [OF mem_wfD(1) [OF wf] e(1)])
      then show ?thesis
        using 5 Some Cons.IH(5) [OF remove_element_inv [OF 5(1)]] by simp
    qed
  }
qed auto

lemma lookup_entry_filter:
  "lookup_entry (filter (\<lambda>e. P (me_key e)) es) k = (if P k then lookup_entry es k else None)"
  by (induction es) auto

lemma mem_delete_spec:
  assumes "mem_inv b" and "mem_delete ks b = (r, b')"
  shows "mem_inv b'" "live b' = (\<lambda>k. if k \<in> set ks then None else live b k)"
    "mb_max b' = mb_max b" "mb_now b' = mb_now b"
    "r = Inr (length (mb_lru b) - length (mb_lru b'))" "length (mb_lru b') \<le> length (mb_lru b)"
proof -
  obtain n where n: "mem_delete_loop ks 0 b = (n, b')" "r = Inr n"
    using assms(2) by (auto simp: mem_delete_def split: prod.splits)
  note sp = mem_delete_loop_spec [OF assms(1) n(1)]
  show "mem_inv b'" "mb_max b' = mb_max b" "mb_now b' = mb_now b" by (fact sp)+
  show "live b' = (\<lambda>k. if k \<in> set ks then None else live b k)"
    using lookup_entry_filter [of "\<lambda>k. k \<notin> set ks" "lru_view b"]
    by (simp add: live_def fun_eq_iff sp(2,4) split: option.splits)
  show "r = Inr (length (mb_lru b) - length (mb_lru b'))" "length (mb_lru b') \<le> length (mb_lru b)"
    using n(2) sp(5) by auto
qed

lemma remove_expired_step:
  assumes "mem_inv b" and "map_of (mb_lru b) i = Some e" and "expired (mb_now b) e"
  shows "mem_inv (remove_element i b) \<and> live (remove_element i b) = live b"
  using remove_element_inv [OF assms(1)] live_remove_expired [OF _ assms(2,3)] assms(1)
  by (simp add: mem_inv_def)

lemma live_at:
  assumes "mem_wf b" and "map_of (mb_lru b) i = Some e"
  shows "live b (me_key e) = (if expired (mb_now b) e then None else Some (me_value e))"
proof -
  have "lookup_entry (lru_view b) (me_key e) = Some e"
    using assms lookup_entry_mem [OF lru_view_keys [OF assms(1)]]
    by (force simp: lru_view_def dest: map_of_SomeD)
  then show ?thesis by (simp add: live_def)
qed

text \<open>
  The scan visits the elements of the map it started with: an element removed on the way
  is an expired one.
\<close>

lemma mem_scan_loop_spec:
  assumes "mem_inv b" and "amap_wf es"
    and "\<And>k i. (k, i) \<in> set es \<Longrightarrow> \<exists>e. map_of (mb_lru b) i = Some e \<and> me_key e = k"
    and "mem_scan_loop pat es acc b = (r, b')"
  shows "mem_inv b' \<and> live b' = live b \<and> mb_max b' = mb_max b \<and> mb_now b' = mb_now b \<and>
         (\<forall>ks. r = Inr ks \<longrightarrow> ks = acc @ filter (\<lambda>k. live b k \<noteq> None \<and> path_match pat k = Some True) (map fst es))"
  using assms
proof (induction es arbitrary: b acc)
  case (Cons p es)
  obtain k i where p: "p = (k, i)" by (cases p)
  obtain e where e: "map_of (mb_lru b) i = Some e" "me_key e = k"
    using Cons.prems(3) [of k i] p by auto
  have wf: "mem_wf b" using Cons.prems(1) by (simp add: mem_inv_def)
  have rest: "\<exists>e. map_of (mb_lru b) j = Some e \<and> me_key e = l" if "(l, j) \<in> set es" for l j
    using Cons.prems(3) that by auto
  have lk: "live b k = (if expired (mb_now b) e then None else Some (me_value e))"
    using live_at [OF wf e(1)] e(2) by simp
  show ?case
  proof (cases "expired (mb_now b) e")
    case True
    let ?b = "remove_element i b"
    have other: "\<exists>e. map_of (mb_lru ?b) j = Some e \<and> me_key e = l" if lj: "(l, j) \<in> set es" for l j
    proof -
      have "l \<noteq> k" using Cons.prems(2) p lj by force
      with rest [OF lj] e have "j \<noteq> i" by auto
      with rest [OF lj] show ?thesis by simp
    qed
    show ?thesis
      using Cons.IH [of ?b acc] remove_expired_step [OF Cons.prems(1) e(1) True] other Cons.prems(2,4)
        True e p lk by simp
  next
    case False
    note IH = Cons.IH [OF Cons.prems(1) _ rest]
    show ?thesis
    proof (cases "path_match pat k")
      case None
      with False Cons.prems(1,4) e p show ?thesis by auto
    next
      case (Some m)
      with False Cons.prems(2,4) e p lk IH [of "if m then acc @ [k] else acc"] show ?thesis
        by (cases m) simp_all
    qed
  qed
qed auto

lemma mem_scan_spec:
  assumes "mem_inv b" and "mem_scan pat b = (r, b')"
  shows "mem_inv b'" "live b' = live b" "mb_max b' = mb_max b" "mb_now b' = mb_now b"
    "r = Inr ks \<Longrightarrow> set ks = {k. live b k \<noteq> None \<and> path_match pat k = Some True}"
proof -
  have wf: "mem_wf b" using assms(1) by (simp add: mem_inv_def)
  have "\<exists>e. map_of (mb_lru b) i = Some e \<and> me_key e = k" if "(k, i) \<in> set (mb_items b)" for k i
    using that mem_wf_lookup [OF wf, of k i] mem_wfD(2) [OF wf] by simp
  note sp = mem_scan_loop_spec [OF assms(1) mem_wfD(2) [OF wf] this assms(2) [unfolded mem_scan_def]]
  show "mem_inv b'" "live b' = live b" "mb_max b' = mb_max b" "mb_now b' = mb_now b"
    using sp by auto
  have "k \<in> fst ` set (mb_items b)" if "live b k \<noteq> None" for k
    using that lookup_lru_view [OF wf, of k]
    by (auto simp: live_def split: option.splits dest!: map_of_SomeD) force
  then show "set ks = {k. live b k \<noteq> None \<and> path_match pat k = Some True}" if "r = Inr ks"
    using sp that by auto
qed

lemma mem_stats_loop_spec:
  assumes "mem_inv b" and "amap_wf es"
    and "\<And>i e. (i, e) \<in> set es \<Longrightarrow> map_of (mb_lru b) i = Some e"
  shows "mem_inv (mem_stats_loop es b) \<and> live (mem_stats_loop es b) = live b \<and>
         mb_max (mem_stats_loop es b) = mb_max b \<and> mb_now (mem_stats_loop es b) = mb_now b \<and>
         mb_lru (mem_stats_loop es b) =
           filter (\<lambda>p. \<not> (p \<in> set es \<and> expired (mb_now b) (snd p))) (mb_lru b)"
  using assms
proof (induction es arbitrary: b)
  case (Cons p es)
  obtain i e where p: "p = (i, e)" by (cases p)
  have e: "map_of (mb_lru b) i = Some e" using Cons.prems(3) p by simp
  have wf: "mem_wf b" using Cons.prems(1) by (simp add: mem_inv_def)
  show ?case
  proof (cases "expired (mb_now b) e")
    case True
    let ?b = "remove_element i b"
    have other: "map_of (mb_lru ?b) j = Some x" if "(j, x) \<in> set es" for j x
    proof -
      have "j \<noteq> i" using Cons.prems(2) p that by force
      with Cons.prems(3) that show ?thesis by simp
    qed
    have iff: "q = p" if "q \<in> set (mb_lru b)" "fst q = i" for q
      using that e p mem_wfD(1) [OF wf] by (metis amap_mem_iff option.inject prod.collapse)
    have "(fst q \<noteq> i \<and> \<not> (q \<in> set es \<and> expired (mb_now b) (snd q))) \<longleftrightarrow>
          \<not> (q \<in> set (p # es) \<and> expired (mb_now b) (snd q))" if "q \<in> set (mb_lru b)" for q
      using iff [OF that] True p by (cases "fst q = i") auto
    then have "filter (\<lambda>q. \<not> (q \<in> set es \<and> expired (mb_now b) (snd q))) (amap_del i (mb_lru b)) =
          filter (\<lambda>q. \<not> (q \<in> set (p # es) \<and> expired (mb_now b) (snd q))) (mb_lru b)"
      unfolding amap_del_def filter_filter by (intro filter_cong) auto
    with Cons.IH [of ?b] remove_expired_step [OF Cons.prems(1) e True] other Cons.prems(2) True p
    show ?thesis by (simp add: remove_element_lru)
  next
    case False
    then show ?thesis
      using Cons.IH [OF Cons.prems(1)] Cons.prems(2,3) p by (auto intro!: filter_cong)
  qed
qed auto


lemma mem_stats_spec:
  assumes "mem_inv b" and "mem_stats b = (r, b')"
  shows "mem_inv b'" "live b' = live b" "mb_max b' = mb_max b" "mb_now b' = mb_now b"
    "r = Inr (card {k. live b k \<noteq> None}, [])"
proof -
  have wf: "mem_wf b" using assms(1) by (simp add: mem_inv_def)
  have b': "b' = mem_stats_loop (rev (mb_lru b)) b" and r: "r = Inr (length (mb_items b'), [])"
    using assms(2) by (auto simp: mem_stats_def lru_back_to_front_def Let_def)
  have "amap_wf (rev (mb_lru b))" using mem_wfD(1) [OF wf] by (simp add: rev_map [symmetric])
  note sp = mem_stats_loop_spec [OF assms(1) this, folded b']
  have at: "map_of (mb_lru b) i = Some e" if "(i, e) \<in> set (rev (mb_lru b))" for i e
    using that mem_wfD(1) [OF wf] by simp
  show inv': "mem_inv b'" and lv: "live b' = live b"
    and "mb_max b' = mb_max b" and now: "mb_now b' = mb_now b"
    using sp at by auto
  have wf': "mem_wf b'" using inv' by (simp add: mem_inv_def)
  have lru: "mb_lru b' = filter (\<lambda>p. \<not> expired (mb_now b) (snd p)) (mb_lru b)"
    using sp at by (auto intro!: filter_cong)
  have "{k. live b k \<noteq> None} = me_key ` set (lru_view b')"
  proof (intro set_eqI iffI)
    fix k assume "k \<in> {k. live b k \<noteq> None}"
    then show "k \<in> me_key ` set (lru_view b')"
      unfolding lv [symmetric] live_def by (auto split: option.splits dest!: lookup_entry_key)
  next
    fix k assume "k \<in> me_key ` set (lru_view b')"
    then obtain e where e: "e \<in> set (lru_view b')" "me_key e = k" by blast
    then have "\<not> expired (mb_now b') e" by (auto simp: lru_view_def lru now)
    with e lookup_entry_mem [OF lru_view_keys [OF wf'] e(1)] show "k \<in> {k. live b k \<noteq> None}"
      unfolding lv [symmetric] by (simp add: live_def)
  qed
  then have "card {k. live b k \<noteq> None} = length (lru_view b')"
    using lru_view_keys [OF wf'] by (metis distinct_card length_map set_map)
  then show "r = Inr (card {k. live b k \<noteq> None}, [])"
    using r mem_wf_lengths [OF wf'] by (simp add: lru_view_def)
qed

lemma mem_flush_all_spec:
  assumes "mem_inv b" and "mem_flush_all b = (r, b')"
  shows "mem_inv b'" "live b' = Map.empty" "mb_max b' = mb_max b" "mb_now b' = mb_now b"
    "r = Inr (length (lru_view b))"
  using assms mem_wf_lengths [of b]
  by (auto simp: mem_flush_all_def mem_inv_def mem_wf_def live_def lru_view_def)


subsection \<open>Sequences of operations\<close>

datatype 'v mem_op =
    OpGet string
  | OpSet string 'v duration
  | OpDelete "string list"
  | OpScan string
  | OpFlushAll
  | OpStats
  | OpTick duration

fun mem_step :: "'v mem_op \<Rightarrow> 'v memory_backend \<Rightarrow> 'v memory_backend" where
  "mem_step (OpGet k) b = snd (mem_get k b)"
| "mem_step (OpSet k v ttl) b = snd (mem_set k v ttl b)"
| "mem_step (OpDelete ks) b = snd (mem_delete ks b)"
| "mem_step (OpScan pat) b = snd (mem_scan pat b)"
| "mem_step OpFlushAll b = snd (mem_flush_all b)"
| "mem_step OpStats b = snd (mem_stats b)"
| "mem_step (OpTick d) b = mem_tick d b"

definition mem_run :: "'v mem_op list \<Rightarrow> 'v memory_backend \<Rightarrow> 'v memory_backend" where
  "mem_run ops b = foldl (\<lambda>b op. mem_step op b) b ops"

lemma mem_run_simps [simp]:
  "mem_run [] b = b"
  "mem_run (op # ops) b = mem_run ops (mem_step op b)"
  by (simp_all add: mem_run_def)

lemma mem_tick_inv [component_inv]: "mem_inv b \<Longrightarrow> mem_inv (mem_tick d b)"
  by (simp add: mem_inv_def mem_wf_def mem_tick_def)

lemma mem_step_inv [component_inv]:
  assumes "mem_inv b"
  shows "mem_inv (mem_step op b) \<and> mb_max (mem_step op b) = mb_max b"
proof (cases op)
  case (OpGet k)
  then show ?thesis using mem_get_spec [OF assms surjective_pairing, of k] by simp
next
  case (OpSet k v ttl)
  then show ?thesis using mem_set_spec [OF assms surjective_pairing, of k v ttl] by simp
next
  case (OpDelete ks)
  then show ?thesis using mem_delete_spec(1,3) [OF assms surjective_pairing, of ks] by simp
next
  case (OpScan pat)
  then show ?thesis using mem_scan_spec(1,3) [OF assms surjective_pairing, of pat] by simp
next
  case OpFlushAll
  then show ?thesis using mem_flush_all_spec(1,3) [OF assms surjective_pairing] by simp
next
  case OpStats
  then show ?thesis using mem_stats_spec(1,3) [OF assms surjective_pairing] by simp
next
  case (OpTick d)
  then show ?thesis using mem_tick_inv [OF assms] by (simp add: mem_tick_def)
qed

lemma mem_run_inv:
  "mem_inv b \<Longrightarrow> mem_inv (mem_run ops b) \<and> mb_max (mem_run ops b) = mb_max b"
proof (induction ops arbitrary: b)
  case (Cons op ops)
  with mem_step_inv [of b op] Cons.IH [of "mem_step op b"] show ?case by simp
qed simp

lemma new_memory_backend_inv: "mem_inv (new_memory_backend n now)"
  by (simp add: new_memory_backend_def mem_inv_def mem_wf_def)

text \<open>
  The keys ahead of \<open>k\<close> in the order of use. As long as they are fewer than the
  capacity, no insertion of another key can push \<open>k\<close> out.
\<close>

definition ahead_of :: "string \<Rightarrow> 'v mem_entry list \<Rightarrow> string set" where
  "ahead_of k es = me_key ` set (takeWhile (\<lambda>e. me_key e \<noteq> k) es)"

definition op_key_other :: "string \<Rightarrow> 'v mem_op \<Rightarrow> string set \<Rightarrow> bool" where
  "op_key_other k op ks = (case op of
       OpGet k' \<Rightarrow> k' \<noteq> k \<and> k' \<in> ks
     | OpSet k' v ttl \<Rightarrow> k' \<noteq> k \<and> k' \<in> ks
     | OpTick d \<Rightarrow> True
     | _ \<Rightarrow> False)"

lemma ahead_of_Cons: "ahead_of k (e # es) = (if me_key e = k then {} else insert (me_key e) (ahead_of k es))"
  by (auto simp: ahead_of_def)

lemma ahead_of_without: "k' \<noteq> k \<Longrightarrow> ahead_of k (without_key k' es) \<subseteq> ahead_of k es"
  by (induction es) (auto simp: ahead_of_def without_key_def)

lemma lookup_take:
  assumes "distinct (map me_key es)" and "lookup_entry es k = Some e" and "card (ahead_of k es) < n"
  shows "lookup_entry (take n es) k = Some e \<and> ahead_of k (take n es) \<subseteq> ahead_of k es"
  using assms
proof (induction es arbitrary: n)
  case (Cons x es)
  obtain m where n: "n = Suc m" using Cons.prems(3) by (cases n) auto
  show ?case
  proof (cases "me_key x = k")
    case True
    with n Cons.prems(2) show ?thesis by (simp add: ahead_of_Cons)
  next
    case False
    have "me_key x \<notin> ahead_of k es"
      using Cons.prems(1) by (auto simp: ahead_of_def dest!: set_takeWhileD)
    then have "card (ahead_of k es) < m"
      using Cons.prems(3) False n by (simp add: ahead_of_Cons) (simp add: ahead_of_def)
    with Cons False n show ?thesis by (auto simp: ahead_of_Cons)
  qed
qed simp

lemma mem_step_retains:
  assumes "mem_inv b" and "lookup_entry (lru_view b) k = Some e"
    and "ahead_of k (lru_view b) \<subseteq> ks" and "finite ks" and "int (card ks) < mb_max b"
    and "op_key_other k op ks"
  shows "lookup_entry (lru_view (mem_step op b)) k = Some e \<and>
         ahead_of k (lru_view (mem_step op b)) \<subseteq> ks"
proof (cases op)
  case (OpGet k')
  then have k': "k' \<noteq> k" "k' \<in> ks" using assms(6) by (auto simp: op_key_other_def)
  have "(fst (mem_get k' b), lru_view (mem_step op b)) = spec_get (mb_now b) k' (lru_view b)"
    using mem_get_spec [OF assms(1), of k'] OpGet by (simp add: prod_eq_iff)
  with k' assms(2,3) ahead_of_without [OF k'(1), of "lru_view b"] show ?thesis
    using lookup_entry_key [of "lru_view b" k']
    by (auto simp: spec_get_def ahead_of_Cons split: option.splits if_splits)
next
  case (OpSet k' v ttl)
  then have k': "k' \<noteq> k" "k' \<in> ks" using assms(6) by (auto simp: op_key_other_def)
  define x where "x = \<lparr> me_key = k', me_value = v,
                        me_expires = (if ttl > 0 then Some (mb_now b + ttl) else None) \<rparr>"
  have wf: "mem_wf b" using assms(1) by (simp add: mem_inv_def)
  let ?es = "x # without_key k' (lru_view b)"
  have pos: "0 < mb_max b" using assms(5) by linarith
  have view: "lru_view (mem_step op b) = take (nat (mb_max b)) ?es"
    using mem_set_spec [OF assms(1), of k' v ttl] OpSet pos
    by (simp add: prod_eq_iff spec_set_def x_def)
  have dist: "distinct (map me_key ?es)"
    using lru_view_keys [OF wf] by (auto simp: x_def without_key_def distinct_map_filter)
  have look: "lookup_entry ?es k = Some e" using k'(1) assms(2) by (simp add: x_def)
  have sub: "ahead_of k ?es \<subseteq> ks"
    using k' assms(3) ahead_of_without [OF k'(1), of "lru_view b"]
    by (auto simp: ahead_of_Cons x_def)
  have "card (ahead_of k ?es) < nat (mb_max b)"
    using card_mono [OF assms(4) sub] assms(5) by linarith
  with lookup_take [OF dist look] sub view show ?thesis by auto
next
  case (OpTick d)
  then show ?thesis using assms(2,3) by (simp add: mem_tick_def lru_view_def)
qed (use assms(6) in \<open>simp_all add: op_key_other_def\<close>)

lemma mem_run_retains:
  assumes "mem_inv b" and "lookup_entry (lru_view b) k = Some e"
    and "ahead_of k (lru_view b) \<subseteq> ks" and "finite ks" and "int (card ks) < mb_max b"
    and "\<forall>op \<in> set ops. op_key_other k op ks"
  shows "lookup_entry (lru_view (mem_run ops b)) k = Some e"
  using assms
proof (induction ops arbitrary: b)
  case (Cons op ops)
  have op: "op_key_other k op ks" using Cons.prems(6) by simp
  show ?case
    using mem_step_retains [OF Cons.prems(1-5) op] mem_step_inv [OF Cons.prems(1), of op]
      Cons.IH [of "mem_step op b"] Cons.prems(4-6) by simp
qed simp


subsection \<open>Properties\<close>

text \<open>
  In every state that any sequence of cache operations and clock advances reaches
  from a new backend, the key map and the recency list index each other one to one, and
  the number of stored entries never exceeds the configured capacity (zero entries for a
  non-positive one).
\<close>

theorem memory_cache_bounded:
  "mem_inv (mem_run ops (new_memory_backend n now)) \<and>
   int (length (mb_items (mem_run ops (new_memory_backend n now)))) \<le> max 0 n"
proof -
  let ?b = "mem_run ops (new_memory_backend n now)"
  have "mem_inv ?b" "mb_max ?b = n"
    using mem_run_inv [OF new_memory_backend_inv, of ops n now]
    by (simp_all add: new_memory_backend_def)
  then show ?thesis using mem_wf_lengths [of ?b] by (simp add: mem_inv_def)
qed

text \<open>
  C40: in every reachable state \<open>Get\<close> and \<open>Set\<close> of the map-and-linked-list backend
  implement the abstract LRU list: a hit returns the stored value and moves its entry to
  the front, an expired entry is dropped and reported as a miss, and a store puts the
  entry in front, replaces one with the same key and keeps exactly the most recently used
  entries that fit the capacity.
\<close>

theorem memory_cache_refines_lru:
  "let b = mem_run ops (new_memory_backend n now) in
     (fst (mem_get k b), lru_view (snd (mem_get k b))) = spec_get (mb_now b) k (lru_view b) \<and>
     fst (mem_set k v ttl b) = None \<and>
     lru_view (snd (mem_set k v ttl b)) = spec_set n (mb_now b) k v ttl (lru_view b)"
proof -
  define b where "b = mem_run ops (new_memory_backend n now)"
  have inv: "mem_inv b" "mb_max b = n"
    using mem_run_inv [OF new_memory_backend_inv, of ops n now]
    by (simp_all add: b_def new_memory_backend_def)
  show ?thesis
    using mem_get_spec [OF inv(1) surjective_pairing, of k]
      mem_set_spec [OF inv(1) surjective_pairing, of k v ttl] inv(2)
    by (simp add: b_def [symmetric] Let_def)
qed

text \<open>
  An entry survives in the cache while fewer than capacity other keys are
  used: after storing \<open>v\<close> under \<open>k\<close>, any run of reads and writes of keys from a set
  of fewer than capacity other keys, with any clock advances, leaves \<open>k\<close> readable with
  value \<open>v\<close> exactly until its time to live has passed.
\<close>

theorem memory_cache_retention:
  assumes "mem_inv b" and "finite ks" and "int (card ks) < mb_max b"
    and "\<forall>op \<in> set ops. op_key_other k op ks"
  shows "let b' = mem_run ops (snd (mem_set k v ttl b)) in
           fst (mem_get k b') =
             (if 0 < ttl \<and> mb_now b + ttl \<le> mb_now b' then Inl ErrCacheMiss else Inr v)"
proof -
  let ?b1 = "snd (mem_set k v ttl b)" and ?b' = "mem_run ops (snd (mem_set k v ttl b))"
  define e where "e = \<lparr> me_key = k, me_value = v,
                        me_expires = (if ttl > 0 then Some (mb_now b + ttl) else None) \<rparr>"
  have pos: "0 < mb_max b" using assms(3) by linarith
  note st = mem_set_spec [OF assms(1) surjective_pairing, of k v ttl]
  have view: "lru_view ?b1 = take (nat (mb_max b)) (e # without_key k (lru_view b))"
    using st pos by (simp add: spec_set_def e_def)
  then obtain es where es: "lru_view ?b1 = e # es"
    using pos by (cases "nat (mb_max b)") auto
  have "lookup_entry (lru_view ?b1) k = Some e" "ahead_of k (lru_view ?b1) \<subseteq> ks"
    using es by (simp_all add: e_def ahead_of_Cons)
  then have "lookup_entry (lru_view ?b') k = Some e"
    using mem_run_retains [of ?b1 k e ks ops] st assms by simp
  moreover have "mem_inv ?b'" using mem_run_inv st by blast
  ultimately show ?thesis
    using mem_get_live(1) [OF \<open>mem_inv ?b'\<close> surjective_pairing, of k]
    by (simp add: live_def expired_def e_def Let_def split: if_splits)
qed

theorem memory_cache_retention_witness:
  "fst (mem_get ''a'' (mem_run [OpSet ''b'' 2 0, OpTick 5, OpGet ''b'']
     (snd (mem_set ''a'' (1::nat) 9 (new_memory_backend 2 0))))) = Inr 1"
proof -
  have "\<forall>op \<in> set [OpSet ''b'' (2::nat) 0, OpTick 5, OpGet ''b'']. op_key_other ''a'' op {''b''}"
    by (simp add: op_key_other_def)
  note app = memory_cache_retention [OF new_memory_backend_inv, of "{''b''}" 2 0, OF _ _ this]
  have "mb_now (mem_run [OpSet ''b'' 2 0, OpTick 5, OpGet ''b'']
     (snd (mem_set ''a'' (1::nat) 9 (new_memory_backend 2 0)))) = 5"
    by code_simp
  then show ?thesis
    using app [of 1 9] by (simp add: new_memory_backend_def Let_def del: mem_step.simps)
qed

end
