(* ===== verification/Json.thy ===== *)
theory Json
  imports Prelude
begin

text \<open>
  encoding/json as the source uses it: \<open>json.Marshal\<close> of the dynamic values. Object
  members are written in the order of their keys, as Marshal does for Go maps, so the text
  does not depend on the iteration order of a map.
\<close>

definition hex_digit :: "nat \<Rightarrow> char" where
  "hex_digit n = (if n < 10 then char_of (48 + n) else char_of (87 + n))"

definition unicode_escape :: "nat \<Rightarrow> string" where
  "unicode_escape n = [CHR 0x5C, CHR ''u'', CHR ''0'', CHR ''0'', hex_digit (n div 16), hex_digit (n mod 16)]"

text \<open>
  The escapes of Marshal: quote, backslash, control characters, and the HTML-sensitive
  \<open><\<close>, \<open>>\<close> and \<open>&\<close>.
\<close>

definition json_char :: "char \<Rightarrow> string" where
  "json_char c = (let n = (of_char c :: nat) in
     if c = CHR 0x22 then [CHR 0x5C, CHR 0x22]
     else if c = CHR 0x5C then [CHR 0x5C, CHR 0x5C]
     else if n = 8 then [CHR 0x5C, CHR ''b'']
     else if n = 12 then [CHR 0x5C, CHR ''f'']
     else if n = 10 then [CHR 0x5C, CHR ''n'']
     else if n = 13 then [CHR 0x5C, CHR ''r'']
     else if n = 9 then [CHR 0x5C, CHR ''t'']
     else if n < 32 \<or> c = CHR ''<'' \<or> c = CHR ''>'' \<or> c = CHR ''&'' then unicode_escape n
     else [c])"

definition json_string :: "string \<Rightarrow> string" where
  "json_string s = [CHR 0x22] @ concat (map json_char s) @ [CHR 0x22]"

fun join_with :: "string \<Rightarrow> string list \<Rightarrow> string" where
  "join_with sep [] = []"
| "join_with sep [s] = s"
| "join_with sep (s # t # ts) = s @ sep @ join_with sep (t # ts)"

definition sort_members :: "(string \<times> 'a) list \<Rightarrow> (string \<times> 'a) list" where
  "sort_members ms = sort_key fst ms"

fun json_text :: "jval \<Rightarrow> string" where
  "json_text JNull = ''null''"
| "json_text (JBool b) = (if b then ''true'' else ''false'')"
| "json_text (JNum n) = n"
| "json_text (JStr s) = json_string s"
| "json_text (JArr vs) = ''['' @ join_with '','' (map json_text vs) @ '']''"
| "json_text (JObj ms) =
     ''{'' @ join_with '','' (map (\<lambda>(k, t). json_string k @ '':'' @ t)
                       (sort_members (map (\<lambda>(k, v). (k, json_text v)) ms))) @ ''}''"

lemma sort_members_sorted [simp]: "sorted (map fst (sort_members ms))"
  by (simp add: sort_members_def)

lemma sort_members_set [simp]: "set (sort_members ms) = set ms"
  by (simp add: sort_members_def)

text \<open>A Go map has no order: two listings of one map sort to the same members.\<close>

lemma sort_members_unique:
  assumes "amap_wf a" and "amap_wf b" and "map_of a = map_of b"
  shows "sort_members a = sort_members b"
proof -
  have "set a = set b"
    using assms by (metis amap_mem_iff prod.collapse subset_antisym subsetI)
  moreover have wf: "distinct (map fst (sort_members a))" "distinct (map fst (sort_members b))"
    using assms(1,2) by (simp_all add: sort_members_def distinct_map inj_on_def)
  ultimately have "map fst (sort_members a) = map fst (sort_members b)"
    by (intro sorted_distinct_set_unique) auto
  moreover have "sort_members x = map (\<lambda>k. (k, the (map_of x k))) (map fst (sort_members x))"
    if "amap_wf x" for x :: "(string \<times> 'a) list"
  proof -
    have "map (\<lambda>p. (fst p, the (map_of x (fst p)))) (sort_members x) = sort_members x"
      using that by (intro map_idI) auto
    then show ?thesis by (simp add: o_def)
  qed
  ultimately show ?thesis using assms by metis
qed

lemma json_text_members:
  assumes "amap_wf a" and "amap_wf b" and "map_of a = map_of b"
  shows "json_text (JObj a) = json_text (JObj b)"
proof -
  let ?f = "map (\<lambda>(k, v). (k, json_text v))"
  have "map_of (?f a) = map_of (?f b)" using assms(3) by (simp add: fun_eq_iff map_of_map_upd)
  moreover have "amap_wf (?f a)" "amap_wf (?f b)"
    using assms(1,2) by (simp_all only: map_fst_map_upd)
  ultimately have "sort_members (?f a) = sort_members (?f b)" by (intro sort_members_unique)
  then show ?thesis by simp
qed

text \<open>
  \<open>fmt.Sprintf("%v", x)\<close> of a decoded JSON value. A number prints as its shortest
  text; nested maps and slices print with Go's bracket syntax.
\<close>

fun go_sprint :: "jval \<Rightarrow> string" where
  "go_sprint JNull = ''<nil>''"
| "go_sprint (JBool b) = (if b then ''true'' else ''false'')"
| "go_sprint (JNum n) = n"
| "go_sprint (JStr s) = s"
| "go_sprint (JArr vs) = ''['' @ join_with '' '' (map go_sprint vs) @ '']''"
| "go_sprint (JObj ms) =
     ''map['' @ join_with '' '' (map (\<lambda>(k, t). k @ '':'' @ t)
                       (sort_members (map (\<lambda>(k, v). (k, go_sprint v)) ms))) @ '']''"

end
