(* ===== verification/Cache_Manager.thy ===== *)
theory Cache_Manager
  imports Cache_Memory Json
begin

text \<open>
  internal/cache/manager.go, exact.go, flush.go, redis_backend.go: the exact-match cache
  above a storage backend. The Go interface \<open>Backend\<close> is a record of operations on
  a backend state \<open>'s\<close>; its contract is the locale \<open>lawful_backend\<close>, in which
  the manager's lemmas are proved once, and which the in-memory backend satisfies.
\<close>

subsection \<open>Stored payloads\<close>

text \<open>
  A \<open>json.RawMessage\<close> is empty, a JSON text (kept as its value) or bytes that are
  not JSON; the stored bytes are a marshalled envelope or anything else. The zero
  \<open>time.Time\<close> is \<^const>\<open>None\<close>.
\<close>

datatype raw_message = RawEmpty | RawJSON jval | RawInvalid string

record cache_envelope =
  env_response :: raw_message
  env_cached_at :: "timestamp option"

datatype payload = PEnvelope cache_envelope | PBytes string

definition marshal_envelope :: "cache_envelope \<Rightarrow> payload option" where
  "marshal_envelope env = (case env_response env of
       RawInvalid _ \<Rightarrow> None
     | RawEmpty \<Rightarrow> Some (PEnvelope (env\<lparr> env_response := RawJSON JNull \<rparr>))
     | RawJSON _ \<Rightarrow> Some (PEnvelope env))"

definition unmarshal_envelope :: "payload \<Rightarrow> cache_envelope option" where
  "unmarshal_envelope p = (case p of PEnvelope env \<Rightarrow> Some env | PBytes _ \<Rightarrow> None)"

record cache_config =
  cc_enabled :: bool
  cc_ttl_seconds :: int
  cc_is_read_only :: bool
  cc_flush_on :: "string list"

record cache_entry =
  ce_response :: raw_message
  ce_cached_at :: "timestamp option"
  ce_hit_type :: string

record cache_stats =
  cs_exact_keys :: int
  cs_redis_memory :: string

datatype manager_err = MarshalErr | BackendErr string cache_err

subsection \<open>The backend interface\<close>

record 's backend =
  be_name :: string
  be_get :: "string \<Rightarrow> 's \<Rightarrow> (cache_err + payload) \<times> 's"
  be_set :: "string \<Rightarrow> payload \<Rightarrow> duration \<Rightarrow> 's \<Rightarrow> cache_err option \<times> 's"
  be_delete :: "string list \<Rightarrow> 's \<Rightarrow> (cache_err + nat) \<times> 's"
  be_scan :: "string \<Rightarrow> 's \<Rightarrow> (cache_err + string list) \<times> 's"
  be_flush_all :: "'s \<Rightarrow> (cache_err + nat) \<times> 's"
  be_stats :: "'s \<Rightarrow> (cache_err + nat \<times> string) \<times> 's"

definition memory_ops :: "payload memory_backend backend" where
  "memory_ops = \<lparr> be_name = ''memory'', be_get = mem_get, be_set = mem_set, be_delete = mem_delete,
     be_scan = mem_scan, be_flush_all = mem_flush_all, be_stats = mem_stats \<rparr>"

text \<open>
  The Redis client is third-party code: the commands the backend issues are fields of a
  record on the client's state. \<open>rc_scan\<close> is the drained iterator: the keys it
  yielded and its final error.
\<close>

record 's redis_client =
  rc_get :: "string \<Rightarrow> 's \<Rightarrow> (cache_err + payload) \<times> 's"
  rc_set :: "string \<Rightarrow> payload \<Rightarrow> duration \<Rightarrow> 's \<Rightarrow> cache_err option \<times> 's"
  rc_unlink :: "string list \<Rightarrow> 's \<Rightarrow> (cache_err + nat) \<times> 's"
  rc_scan :: "string \<Rightarrow> nat \<Rightarrow> 's \<Rightarrow> (string list \<times> cache_err option) \<times> 's"
  rc_info :: "string \<Rightarrow> 's \<Rightarrow> (cache_err + string) \<times> 's"

definition redis_nil_client :: cache_err where
  "redis_nil_client = ErrBackend ''redis client is nil''"

definition redis_get :: "'s redis_client option \<Rightarrow> string \<Rightarrow> 's \<Rightarrow> (cache_err + payload) \<times> 's" where
  "redis_get rdb key s = (case rdb of None \<Rightarrow> (Inl redis_nil_client, s) | Some c \<Rightarrow> rc_get c key s)"

definition redis_set ::
  "'s redis_client option \<Rightarrow> string \<Rightarrow> payload \<Rightarrow> duration \<Rightarrow> 's \<Rightarrow> cache_err option \<times> 's" where
  "redis_set rdb key value ttl s =
     (case rdb of None \<Rightarrow> (Some redis_nil_client, s) | Some c \<Rightarrow> rc_set c key value ttl s)"

definition redis_delete ::
  "'s redis_client option \<Rightarrow> string list \<Rightarrow> 's \<Rightarrow> (cache_err + nat) \<times> 's" where
  "redis_delete rdb keys s =
     (if keys = [] then (Inr 0, s)
      else case rdb of None \<Rightarrow> (Inl redis_nil_client, s) | Some c \<Rightarrow> rc_unlink c keys s)"

definition redis_scan ::
  "'s redis_client option \<Rightarrow> string \<Rightarrow> 's \<Rightarrow> (cache_err + string list) \<times> 's" where
  "redis_scan rdb pattern s = (case rdb of
       None \<Rightarrow> (Inl redis_nil_client, s)
     | Some c \<Rightarrow> (case rc_scan c pattern 100 s of
           ((keys, None), s') \<Rightarrow> (Inr keys, s')
         | ((keys, Some e), s') \<Rightarrow> (Inl e, s')))"

definition redis_flush_all :: "'s redis_client option \<Rightarrow> 's \<Rightarrow> (cache_err + nat) \<times> 's" where
  "redis_flush_all rdb s = (case redis_scan rdb ''exact:*'' s of
       (Inl e, s') \<Rightarrow> (Inl e, s')
     | (Inr keys, s') \<Rightarrow> redis_delete rdb keys s')"

fun used_memory_line :: "string list \<Rightarrow> string" where
  "used_memory_line [] = []"
| "used_memory_line (line # rest) =
     (if has_prefix line ''used_memory_human:'' then trim_prefix line ''used_memory_human:''
      else used_memory_line rest)"

definition redis_stats :: "'s redis_client option \<Rightarrow> 's \<Rightarrow> (cache_err + nat \<times> string) \<times> 's" where
  "redis_stats rdb s = (case redis_scan rdb ''exact:*'' s of
       (Inl e, s') \<Rightarrow> (Inl e, s')
     | (Inr keys, s') \<Rightarrow> (case rdb of
           None \<Rightarrow> (Inl redis_nil_client, s')
         | Some c \<Rightarrow> (case rc_info c ''memory'' s' of
               (Inl e, s'') \<Rightarrow> (Inl e, s'')
             | (Inr info, s'') \<Rightarrow>
                 (Inr (length keys, used_memory_line (split_at_char (CHR 0x0A) info)), s''))))"

definition redis_ops :: "'s redis_client option \<Rightarrow> 's backend" where
  "redis_ops rdb = \<lparr> be_name = ''redis'', be_get = redis_get rdb, be_set = redis_set rdb,
     be_delete = redis_delete rdb, be_scan = redis_scan rdb, be_flush_all = redis_flush_all rdb,
     be_stats = redis_stats rdb \<rparr>"

subsection \<open>Keys\<close>

definition role_scope :: "string \<Rightarrow> bool \<Rightarrow> string" where
  "role_scope role isReadOnly =
     (if isReadOnly then ''shared'' else if role = [] then ''anonymous'' else role)"

text \<open>
  The canonical text that is hashed: the arguments sorted by name, each as an object with
  fields k and v. SHA-256 in hexadecimal is the parameter \<open>sha\<close>.
\<close>

definition ordered_args_json :: "jargs \<Rightarrow> string" where
  "ordered_args_json args =
     (let keys = sort_strings (map fst args);
          ordered = map (\<lambda>k. (k, case map_of args k of Some v \<Rightarrow> v | None \<Rightarrow> JNull)) keys
      in ''['' @ join_with '',''
           (map (\<lambda>(k, v). ''{'' @ json_string ''k'' @ '':'' @ json_string k @ '','' @
                          json_string ''v'' @ '':'' @ json_text v @ ''}'') ordered) @ '']'')"

definition args_hash :: "(string \<Rightarrow> string) \<Rightarrow> jargs \<Rightarrow> string" where
  "args_hash sha args = (if args = [] then ''empty'' else sha (ordered_args_json args))"

definition exact_revision_key ::
  "(string \<Rightarrow> string) \<Rightarrow> string \<Rightarrow> string \<Rightarrow> string \<Rightarrow> jargs \<Rightarrow> string" where
  "exact_revision_key sha tool revision roleKey args =
     (if revision = []
      then ''exact:'' @ tool @ '':'' @ roleKey @ '':'' @ args_hash sha args
      else ''exact:'' @ tool @ '':'' @ revision @ '':'' @ roleKey @ '':'' @ args_hash sha args)"

definition exact_key :: "(string \<Rightarrow> string) \<Rightarrow> string \<Rightarrow> string \<Rightarrow> jargs \<Rightarrow> string" where
  "exact_key sha tool roleKey args = exact_revision_key sha tool [] roleKey args"

subsection \<open>Reads and writes\<close>

definition exact_get :: "'s backend \<Rightarrow> string \<Rightarrow> 's \<Rightarrow> (cache_err + cache_entry option) \<times> 's" where
  "exact_get be key s = (case be_get be key s of
       (Inl ErrRedisNil, s') \<Rightarrow> (Inr None, s')
     | (Inl ErrCacheMiss, s') \<Rightarrow> (Inr None, s')
     | (Inl e, s') \<Rightarrow> (Inl e, s')
     | (Inr val, s') \<Rightarrow> (case unmarshal_envelope val of
           None \<Rightarrow> (Inr None, s')
         | Some env \<Rightarrow>
             if env_response env = RawEmpty \<or> env_cached_at env = None then (Inr None, s')
             else (Inr (Some \<lparr> ce_response = env_response env, ce_cached_at = env_cached_at env,
                               ce_hit_type = [] \<rparr>), s')))"

definition miss_entry :: cache_entry where
  "miss_entry = \<lparr> ce_response = RawEmpty, ce_cached_at = None, ce_hit_type = ''miss'' \<rparr>"

text \<open>A backend error is a miss as well: \<open>GetRevision\<close> never returns an error.\<close>

definition get_revision ::
  "'s backend \<Rightarrow> (string \<Rightarrow> string) \<Rightarrow> string \<Rightarrow> string \<Rightarrow> string \<Rightarrow> jargs \<Rightarrow> cache_config \<Rightarrow> 's \<Rightarrow>
     cache_entry \<times> 's" where
  "get_revision be sha tool revision role args cfg s =
     (if \<not> cc_enabled cfg then (miss_entry, s)
      else let roleKey = role_scope role (cc_is_read_only cfg);
               key = exact_revision_key sha tool revision roleKey args
           in case exact_get be key s of
                (Inr (Some entry), s') \<Rightarrow> (entry\<lparr> ce_hit_type := ''exact'' \<rparr>, s')
              | (_, s') \<Rightarrow> (miss_entry, s'))"

definition cache_get ::
  "'s backend \<Rightarrow> (string \<Rightarrow> string) \<Rightarrow> string \<Rightarrow> string \<Rightarrow> jargs \<Rightarrow> cache_config \<Rightarrow> 's \<Rightarrow>
     cache_entry \<times> 's" where
  "cache_get be sha tool role args cfg s = get_revision be sha tool [] role args cfg s"

text \<open>\<open>time.Duration(cfg.TTLSeconds) * time.Second\<close> is a 64-bit product.\<close>

definition cache_ttl :: "cache_config \<Rightarrow> duration" where
  "cache_ttl cfg = wrap64 (cc_ttl_seconds cfg * second)"

definition set_revision ::
  "'s backend \<Rightarrow> (string \<Rightarrow> string) \<Rightarrow> timestamp \<Rightarrow> string \<Rightarrow> string \<Rightarrow> string \<Rightarrow> jargs \<Rightarrow>
     raw_message \<Rightarrow> cache_config \<Rightarrow> 's \<Rightarrow> manager_err option \<times> 's" where
  "set_revision be sha now tool revision role args response cfg s =
     (if \<not> cc_enabled cfg then (None, s)
      else let roleKey = role_scope role (cc_is_read_only cfg);
               ttl = cache_ttl cfg;
               key = exact_revision_key sha tool revision roleKey args;
               envelope = \<lparr> env_response = response, env_cached_at = Some now \<rparr>
           in case marshal_envelope envelope of
                None \<Rightarrow> (Some MarshalErr, s)
              | Some data \<Rightarrow> (case be_set be key data ttl s of
                    (Some e, s') \<Rightarrow> (Some (BackendErr ''exact cache set: '' e), s')
                  | (None, s') \<Rightarrow> (None, s')))"

definition cache_set ::
  "'s backend \<Rightarrow> (string \<Rightarrow> string) \<Rightarrow> timestamp \<Rightarrow> string \<Rightarrow> string \<Rightarrow> jargs \<Rightarrow>
     raw_message \<Rightarrow> cache_config \<Rightarrow> 's \<Rightarrow> manager_err option \<times> 's" where
  "cache_set be sha now tool role args response cfg s =
     set_revision be sha now tool [] role args response cfg s"

definition backend_name :: "'s backend \<Rightarrow> string" where
  "backend_name be = (if be_name be = ''memory'' \<or> be_name be = ''redis'' then be_name be else ''unknown'')"

definition manager_stats :: "'s backend \<Rightarrow> 's \<Rightarrow> (cache_err + cache_stats) \<times> 's" where
  "manager_stats be s = (case be_stats be s of
       (Inl e, s') \<Rightarrow> (Inl e, s')
     | (Inr (n, m), s') \<Rightarrow> (Inr \<lparr> cs_exact_keys = int n, cs_redis_memory = m \<rparr>, s'))"

subsection \<open>Invalidation\<close>

text \<open>\<open>scanAndDelete\<close>: batches of at most 100 keys, stopping at the first error.\<close>

function delete_batches ::
  "'s backend \<Rightarrow> string list \<Rightarrow> nat \<Rightarrow> 's \<Rightarrow> (cache_err \<times> nat + nat) \<times> 's" where
  "delete_batches be keys count s =
     (if keys = [] then (Inr count, s)
      else case be_delete be (take 100 keys) s of
             (Inl e, s') \<Rightarrow> (Inl (e, count), s')
           | (Inr deleted, s') \<Rightarrow> delete_batches be (drop 100 keys) (count + deleted) s')"
  by pat_completeness auto
termination by (relation "measure (\<lambda>(be, keys, count, s). length keys)") auto

declare delete_batches.simps [simp del]

lemma delete_batches_Nil: "delete_batches be [] count s = (Inr count, s)"
  by (simp add: delete_batches.simps)

lemma delete_batches_step:
  "keys \<noteq> [] \<Longrightarrow> delete_batches be keys count s =
     (case be_delete be (take 100 keys) s of
        (Inl e, s') \<Rightarrow> (Inl (e, count), s')
      | (Inr deleted, s') \<Rightarrow> delete_batches be (drop 100 keys) (count + deleted) s')"
  by (subst delete_batches.simps) simp

definition scan_and_delete :: "'s backend \<Rightarrow> string \<Rightarrow> 's \<Rightarrow> (cache_err \<times> nat + nat) \<times> 's" where
  "scan_and_delete be pattern s = (case be_scan be pattern s of
       (Inl e, s') \<Rightarrow> (Inl (e, 0), s')
     | (Inr keys, s') \<Rightarrow> delete_batches be keys 0 s')"

definition tool_pattern :: "string \<Rightarrow> string" where
  "tool_pattern toolName = ''exact:'' @ toolName @ '':*''"

definition flush_tool :: "'s backend \<Rightarrow> string \<Rightarrow> 's \<Rightarrow> (manager_err + nat) \<times> 's" where
  "flush_tool be toolName s = (case scan_and_delete be (tool_pattern toolName) s of
       (Inl (e, _), s') \<Rightarrow> (Inl (BackendErr ''flush exact: '' e), s')
     | (Inr n, s') \<Rightarrow> (Inr n, s'))"

definition flush_module :: "'s backend \<Rightarrow> string \<Rightarrow> 's \<Rightarrow> (cache_err + nat) \<times> 's" where
  "flush_module be module s =
     (if module = [] then be_flush_all be s
      else case scan_and_delete be (''exact:'' @ module @ ''.*:*'') s of
             (Inl (e, _), s') \<Rightarrow> (Inl e, s')
           | (Inr n, s') \<Rightarrow> (Inr n, s'))"

definition flush_tool_internal :: "'s backend \<Rightarrow> string \<Rightarrow> 's \<Rightarrow> (cache_err + nat) \<times> 's" where
  "flush_tool_internal be toolName s = (case scan_and_delete be (tool_pattern toolName) s of
       (Inl (e, _), s') \<Rightarrow> (Inl e, s')
     | (Inr n, s') \<Rightarrow> (Inr n, s'))"

text \<open>A failed flush is logged and the remaining tools are still flushed.\<close>

fun auto_flush :: "'s backend \<Rightarrow> string list \<Rightarrow> 's \<Rightarrow> 's" where
  "auto_flush be [] s = s"
| "auto_flush be (toolName # rest) s = auto_flush be rest (snd (flush_tool_internal be toolName s))"


subsection \<open>The contract of a backend\<close>

text \<open>
  \<open>view\<close> is what readers see; \<open>matches\<close> is the pattern language of Scan. A
  failed command leaves the invariant and never invents or changes a value.
\<close>

definition shrinks :: "('k \<Rightarrow> 'v option) \<Rightarrow> ('k \<Rightarrow> 'v option) \<Rightarrow> bool" where
  "shrinks g f \<longleftrightarrow> (\<forall>k. g k = None \<or> g k = f k)"

lemma shrinks_refl [simp]: "shrinks f f"
  by (simp add: shrinks_def)

lemma shrinksD: "shrinks g f \<Longrightarrow> g k = None \<or> g k = f k"
  by (simp add: shrinks_def)

lemma shrinks_trans [trans]: "shrinks h g \<Longrightarrow> shrinks g f \<Longrightarrow> shrinks h f"
proof -
  assume "shrinks h g" and "shrinks g f"
  then have "h k = None \<or> h k = f k" for k
    using shrinksD [of h g k] shrinksD [of g f k] by auto
  then show ?thesis by (simp add: shrinks_def)
qed

lemma shrinks_None: "shrinks g f \<Longrightarrow> f k = None \<Longrightarrow> g k = None"
  using shrinksD [of g f k] by auto

lemma shrinks_delete [simp]: "shrinks (\<lambda>k. if P k then None else f k) f"
  by (simp add: shrinks_def)

locale lawful_backend =
  fixes be :: "'s backend"
    and inv :: "'s \<Rightarrow> bool"
    and view :: "'s \<Rightarrow> string \<Rightarrow> payload option"
    and matches :: "string \<Rightarrow> string \<Rightarrow> bool"
  assumes get_law: "inv s \<Longrightarrow> be_get be k s = (r, s') \<Longrightarrow>
      inv s' \<and> view s' = view s \<and> (\<forall>v. r = Inr v \<longrightarrow> view s k = Some v)"
    and set_law: "inv s \<Longrightarrow> be_set be k v ttl s = (res, s') \<Longrightarrow>
      inv s' \<and> (\<forall>k'. k' \<noteq> k \<longrightarrow> view s' k' = None \<or> view s' k' = view s k') \<and>
      (res = None \<longrightarrow> view s' k = None \<or> view s' k = Some v)"
    and delete_law: "inv s \<Longrightarrow> be_delete be ks s = (d, s') \<Longrightarrow>
      inv s' \<and> shrinks (view s') (view s) \<and>
      (\<forall>n. d = Inr n \<longrightarrow> view s' = (\<lambda>k. if k \<in> set ks then None else view s k))"
    and scan_law: "inv s \<Longrightarrow> be_scan be pat s = (found, s') \<Longrightarrow>
      inv s' \<and> view s' = view s \<and>
      (\<forall>ks. found = Inr ks \<longrightarrow> set ks = {k. view s k \<noteq> None \<and> matches pat k})"
    and flush_all_law: "inv s \<Longrightarrow> be_flush_all be s = (d, s') \<Longrightarrow>
      inv s' \<and> shrinks (view s') (view s) \<and> (\<forall>n k. d = Inr n \<longrightarrow> view s' k = None)"
begin

lemma delete_batches_law:
  "inv s \<Longrightarrow> delete_batches be keys count s = (r, s') \<Longrightarrow>
     inv s' \<and> shrinks (view s') (view s) \<and>
     (\<forall>n. r = Inr n \<longrightarrow> view s' = (\<lambda>k. if k \<in> set keys then None else view s k))"
proof (induction keys arbitrary: count s rule: measure_induct_rule [where f = length])
  case (less keys)
  show ?case
  proof (cases "keys = []")
    case True
    with less.prems show ?thesis by (simp add: delete_batches_Nil)
  next
    case False
    obtain d s1 where d: "be_delete be (take 100 keys) s = (d, s1)" by (cases "be_delete be (take 100 keys) s")
    note law = delete_law [OF less.prems(1) d]
    show ?thesis
    proof (cases d)
      case (Inl e)
      with less.prems(2) False d have "s' = s1" "r = Inl (e, count)"
        by (simp_all add: delete_batches_step)
      with law show ?thesis by simp
    next
      case (Inr n)
      then have rest: "delete_batches be (drop 100 keys) (count + n) s1 = (r, s')"
        using less.prems(2) False d by (simp add: delete_batches_step)
      have "set keys = set (take 100 keys) \<union> set (drop 100 keys)"
        by (metis append_take_drop_id set_append)
      with less.IH [OF _ _ rest] law Inr False show ?thesis
        by (auto simp: fun_eq_iff intro: shrinks_trans)
    qed
  qed
qed

lemma scan_and_delete_law:
  assumes "inv s" and "scan_and_delete be pat s = (r, s')"
  shows "inv s'" "shrinks (view s') (view s)"
    "r = Inr n \<Longrightarrow> view s' = (\<lambda>k. if matches pat k then None else view s k)"
proof -
  obtain f s1 where f: "be_scan be pat s = (f, s1)" by (cases "be_scan be pat s")
  note law = scan_law [OF assms(1) f]
  have all: "inv s' \<and> shrinks (view s') (view s) \<and>
    (\<forall>n. r = Inr n \<longrightarrow> view s' = (\<lambda>k. if matches pat k then None else view s k))"
  proof (cases f)
    case (Inl e)
    with assms(2) f law show ?thesis by (auto simp: scan_and_delete_def)
  next
    case (Inr ks)
    then have "delete_batches be ks 0 s1 = (r, s')" using assms(2) f by (simp add: scan_and_delete_def)
    with delete_batches_law [of s1 ks 0 r s'] law Inr show ?thesis by (auto simp: fun_eq_iff)
  qed
  then show "inv s'" "shrinks (view s') (view s)"
    "r = Inr n \<Longrightarrow> view s' = (\<lambda>k. if matches pat k then None else view s k)"
    by auto
qed

lemma flush_tool_law:
  assumes "inv s" and "flush_tool be name s = (r, s')"
  shows "inv s'" "shrinks (view s') (view s)"
    "r = Inr n \<Longrightarrow> view s' = (\<lambda>k. if matches (tool_pattern name) k then None else view s k)"
proof -
  obtain d where d: "scan_and_delete be (tool_pattern name) s = (d, s')" "\<And>n. r = Inr n \<Longrightarrow> d = Inr n"
    using assms(2) by (auto simp: flush_tool_def split: prod.splits sum.splits)
  show "inv s'" "shrinks (view s') (view s)" by (fact scan_and_delete_law(1,2) [OF assms(1) d(1)])+
  show "r = Inr n \<Longrightarrow> view s' = (\<lambda>k. if matches (tool_pattern name) k then None else view s k)"
    using scan_and_delete_law(3) [OF assms(1) d(1)] d(2) by blast
qed

lemma flush_tool_internal_law:
  assumes "inv s" and "flush_tool_internal be name s = (r, s')"
  shows "inv s'" "shrinks (view s') (view s)"
    "r = Inr n \<Longrightarrow> view s' = (\<lambda>k. if matches (tool_pattern name) k then None else view s k)"
proof -
  obtain d where d: "scan_and_delete be (tool_pattern name) s = (d, s')" "\<And>n. r = Inr n \<Longrightarrow> d = Inr n"
    using assms(2) by (auto simp: flush_tool_internal_def split: prod.splits sum.splits)
  show "inv s'" "shrinks (view s') (view s)" by (fact scan_and_delete_law(1,2) [OF assms(1) d(1)])+
  show "r = Inr n \<Longrightarrow> view s' = (\<lambda>k. if matches (tool_pattern name) k then None else view s k)"
    using scan_and_delete_law(3) [OF assms(1) d(1)] d(2) by blast
qed

lemma auto_flush_law:
  "inv s \<Longrightarrow> inv (auto_flush be names s) \<and> shrinks (view (auto_flush be names s)) (view s)"
proof (induction names arbitrary: s)
  case (Cons name names)
  obtain r s1 where r: "flush_tool_internal be name s = (r, s1)"
    by (cases "flush_tool_internal be name s")
  from flush_tool_internal_law(1,2) [OF Cons.prems r] Cons.IH [of s1] r
  show ?case by (auto intro: shrinks_trans)
qed simp

lemma auto_flush_removes:
  assumes "inv s" and "name \<in> set names" and "matches (tool_pattern name) k"
    and ok: "\<And>s. inv s \<Longrightarrow> is_ok (fst (flush_tool_internal be name s))"
  shows "view (auto_flush be names s) k = None"
  using assms(1,2)
proof (induction names arbitrary: s)
  case (Cons n names)
  obtain r s1 where r: "flush_tool_internal be n s = (r, s1)"
    by (cases "flush_tool_internal be n s")
  note law = flush_tool_internal_law [OF Cons.prems(1) r]
  show ?case
  proof (cases "n = name")
    case True
    with ok [OF Cons.prems(1)] r obtain c where "r = Inr c" by (auto simp: is_ok_iff)
    with law(3) assms(3) True have "view s1 k = None" by simp
    with auto_flush_law [OF law(1), of names] r show ?thesis by (auto intro: shrinks_None)
  next
    case False
    with Cons.IH [OF law(1)] Cons.prems(2) r show ?thesis by simp
  qed
qed simp

lemma exact_get_law:
  assumes "inv s" and "exact_get be key s = (r, s')"
  shows "inv s'" "view s' = view s"
    "r = Inr (Some e) \<Longrightarrow> \<exists>env. view s key = Some (PEnvelope env) \<and> env_response env = ce_response e"
proof -
  obtain g s1 where g: "be_get be key s = (g, s1)" by (cases "be_get be key s")
  have s1: "s1 = s'"
    using assms(2) g by (auto simp: exact_get_def split: sum.splits cache_err.splits option.splits if_splits)
  note law = get_law [OF assms(1) g, unfolded s1]
  show "inv s'" "view s' = view s" using law by auto
  show "\<exists>env. view s key = Some (PEnvelope env) \<and> env_response env = ce_response e" if "r = Inr (Some e)"
    using law assms(2) g that
    by (auto simp: exact_get_def unmarshal_envelope_def
          split: sum.splits cache_err.splits option.splits if_splits payload.splits)
qed

text \<open>A hit returns what the view holds under exactly this caller's key.\<close>

lemma get_revision_law:
  assumes "inv s" and "get_revision be sha tool rv role args cfg s = (e, s')"
  shows "inv s'" "view s' = view s"
    "ce_hit_type e \<noteq> ''miss'' \<Longrightarrow> cc_enabled cfg \<and>
       (\<exists>env. view s (exact_revision_key sha tool rv (role_scope role (cc_is_read_only cfg)) args)
               = Some (PEnvelope env) \<and> env_response env = ce_response e)"
proof -
  let ?k = "exact_revision_key sha tool rv (role_scope role (cc_is_read_only cfg)) args"
  obtain g s1 where g: "exact_get be ?k s = (g, s1)" by (cases "exact_get be ?k s")
  note law = exact_get_law [OF assms(1) g]
  have "inv s' \<and> view s' = view s \<and> (ce_hit_type e \<noteq> ''miss'' \<longrightarrow> cc_enabled cfg \<and>
       (\<exists>env. view s ?k = Some (PEnvelope env) \<and> env_response env = ce_response e))"
  proof (cases "cc_enabled cfg")
    case False
    with assms show ?thesis by (auto simp: get_revision_def miss_entry_def)
  next
    case True
    show ?thesis
    proof (cases "\<exists>x. g = Inr (Some x)")
      case True
      then obtain x where "g = Inr (Some x)" by blast
      with law law(3) [of x] assms(2) g \<open>cc_enabled cfg\<close> show ?thesis
        by (auto simp: get_revision_def)
    next
      case False
      with law(1,2) assms(2) g \<open>cc_enabled cfg\<close> show ?thesis
        by (auto simp: get_revision_def miss_entry_def split: sum.splits option.splits)
    qed
  qed
  then show "inv s'" "view s' = view s"
    "ce_hit_type e \<noteq> ''miss'' \<Longrightarrow> cc_enabled cfg \<and>
       (\<exists>env. view s ?k = Some (PEnvelope env) \<and> env_response env = ce_response e)"
    by auto
qed

lemma set_revision_law:
  assumes "inv s" and "set_revision be sha now tool rv role args resp cfg s = (r, s')"
  shows "inv s'"
    "k \<noteq> exact_revision_key sha tool rv (role_scope role (cc_is_read_only cfg)) args \<Longrightarrow>
       view s' k = None \<or> view s' k = view s k"
proof -
  let ?k = "exact_revision_key sha tool rv (role_scope role (cc_is_read_only cfg)) args"
  have "s' = s \<or> (\<exists>v res. be_set be ?k v (cache_ttl cfg) s = (res, s'))"
    using assms(2) by (auto simp: set_revision_def Let_def split: if_splits option.splits prod.splits)
  with set_law [OF assms(1)] assms(1) show "inv s'"
    "k \<noteq> ?k \<Longrightarrow> view s' k = None \<or> view s' k = view s k"
    by blast+
qed

end

subsection \<open>The in-memory backend satisfies the contract\<close>

interpretation mem_cache: lawful_backend memory_ops mem_inv live
  "\<lambda>pat k. path_match pat k = Some True"
proof (unfold_locales, goal_cases)
  case (1 s k r s')
  then have g: "mem_get k s = (r, s')" by (simp add: memory_ops_def)
  from mem_get_spec [OF 1(1) g] mem_get_live [OF 1(1) g] show ?case
    by (auto split: option.splits)
next
  case (2 s k v ttl res s')
  then have g: "mem_set k v ttl s = (res, s')" by (simp add: memory_ops_def)
  have "live s' k = None \<or> live s' k = Some v"
  proof (cases "0 < mb_max s")
    case True
    then show ?thesis using mem_set_live_same [OF 2(1) g] by simp
  next
    case False
    then have "lru_view s = []" using 2(1) by (simp add: mem_inv_def lru_view_def)
    then have "live s' k = None"
      using mem_set_spec [OF 2(1) g] False by (simp add: spec_set_def live_def)
    then show ?thesis by simp
  qed
  then show ?case using mem_set_spec [OF 2(1) g] mem_set_live_other [OF 2(1) g] by auto
next
  case (3 s ks d s')
  then have g: "mem_delete ks s = (d, s')" by (simp add: memory_ops_def)
  from mem_delete_spec(1,2) [OF 3(1) g] show ?case by simp
next
  case (4 s pat found s')
  then have g: "mem_scan pat s = (found, s')" by (simp add: memory_ops_def)
  from mem_scan_spec(1,2,5) [OF 4(1) g] show ?case by simp
next
  case (5 s d s')
  then have g: "mem_flush_all s = (d, s')" by (simp add: memory_ops_def)
  from mem_flush_all_spec(1,2) [OF 5(1) g] show ?case by (simp add: shrinks_def)
qed


subsection \<open>What a read returns, and the shape of keys\<close>

definition entry_of :: "payload option \<Rightarrow> cache_entry" where
  "entry_of p = (case p of
       Some (PEnvelope env) \<Rightarrow>
         if env_response env = RawEmpty \<or> env_cached_at env = None then miss_entry
         else \<lparr> ce_response = env_response env, ce_cached_at = env_cached_at env, ce_hit_type = ''exact'' \<rparr>
     | _ \<Rightarrow> miss_entry)"

lemma mem_get_revision:
  assumes "mem_inv s" and "cc_enabled cfg"
  shows "fst (get_revision memory_ops sha tool rv role args cfg s) =
     entry_of (live s (exact_revision_key sha tool rv (role_scope role (cc_is_read_only cfg)) args))"
proof -
  let ?k = "exact_revision_key sha tool rv (role_scope role (cc_is_read_only cfg)) args"
  obtain r s1 where g: "mem_get ?k s = (r, s1)" by (cases "mem_get ?k s")
  note live = mem_get_live(1) [OF assms(1) g]
  show ?thesis
  proof (cases "live s ?k")
    case None
    with live g assms(2) show ?thesis
      by (simp add: get_revision_def exact_get_def memory_ops_def entry_of_def)
  next
    case (Some p)
    with live g assms(2) show ?thesis
      by (cases p) (auto simp: get_revision_def exact_get_def memory_ops_def entry_of_def
            unmarshal_envelope_def)
  qed
qed

lemma separator_inject:
  "c \<notin> set a \<Longrightarrow> c \<notin> set b \<Longrightarrow> a @ c # x = b @ c # y \<longleftrightarrow> a = b \<and> x = y"
proof (induction a arbitrary: b)
  case Nil
  then show ?case by (cases b) auto
next
  case (Cons d a)
  then show ?case by (cases b) auto
qed

abbreviation no_colon :: "string \<Rightarrow> bool" where
  "no_colon s \<equiv> CHR '':'' \<notin> set s"

text \<open>Read from its end, a key gives its hash, its scope and its revision; the rest is the tool.\<close>

lemma last_separator_inject:
  assumes "c \<notin> set x" and "c \<notin> set y" shows "a @ c # x = b @ c # y \<longleftrightarrow> a = b \<and> x = y"
proof -
  have "a @ c # x = b @ c # y \<longleftrightarrow> rev x @ c # rev a = rev y @ c # rev b"
    by (metis append.assoc append_Cons append_Nil rev_append rev_rev_ident rev.simps(2))
  then show ?thesis using separator_inject [of c "rev x" "rev y" "rev a" "rev b"] assms by auto
qed

lemma exact_revision_key_inject:
  assumes "\<And>t. no_colon (sha t)" and "no_colon rv" "no_colon scope" "rv \<noteq> []" and "no_colon rv'" "no_colon scope'" "rv' \<noteq> []"
  shows "exact_revision_key sha tool rv scope args = exact_revision_key sha tool' rv' scope' args' \<longleftrightarrow>
     tool = tool' \<and> rv = rv' \<and> scope = scope' \<and> args_hash sha args = args_hash sha args'"
proof -
  have hash: "no_colon (args_hash sha xs)" for xs using assms(1) by (simp add: args_hash_def)
  have key: "exact_revision_key sha t r s xs = (((''exact:'' @ t) @ CHR '':'' # r) @ CHR '':'' # s) @ CHR '':'' # args_hash sha xs"
    if "r \<noteq> []" for t r s xs
    using that by (simp add: exact_revision_key_def)
  show ?thesis
    unfolding key [OF assms(4)] key [OF assms(7)] last_separator_inject [OF hash hash] last_separator_inject [OF assms(3,6)]
      last_separator_inject [OF assms(2,5)] by auto
qed

lemma sorted_keys_unique:
  assumes "amap_wf a" and "amap_wf b" and "map_of a = map_of b"
  shows "sort_strings (map fst a) = sort_strings (map fst b)"
proof -
  have "set (map fst a) = set (map fst b)"
    using assms(3) by (metis dom_map_of_conv_image_fst set_map)
  then show ?thesis using assms(1,2)
    by (intro sorted_distinct_set_unique) (simp_all add: sort_strings_def)
qed

lemma live_flush:
  assumes "mem_inv s" and "glob_plain tool" and "flush_tool memory_ops tool s = (r, s')"
  shows "is_ok r" "mem_inv s'"
    "live s' k = (if \<exists>x. k = ''exact:'' @ tool @ '':'' @ x \<and> CHR ''/'' \<notin> set x then None else live s k)"
proof -
  have plain: "glob_plain (''exact:'' @ tool @ '':'')"
    using assms(2) by (simp add: glob_plain_def)
  have pat: "path_match (tool_pattern tool) k = Some (\<exists>x. k = ''exact:'' @ tool @ '':'' @ x \<and> CHR ''/'' \<notin> set x)"
    for k
    using path_match_plain_star [OF plain, of k] by (simp add: tool_pattern_def)
  have scan_ok: "is_ok (fst (mem_scan_loop (tool_pattern tool) es acc b))" for es acc b
    by (induction es arbitrary: acc b) (auto simp: pat split: option.splits)
  have del_ok: "is_ok (fst (delete_batches memory_ops ks c b))" for ks c and b :: "payload memory_backend"
  proof (induction ks arbitrary: c b rule: measure_induct_rule [where f = length])
    case (less ks)
    obtain n b' where d: "mem_delete (take 100 ks) b = (Inr n, b')"
      by (cases "mem_delete_loop (take 100 ks) 0 b") (simp add: mem_delete_def)
    show ?case
    proof (cases "ks = []")
      case False
      then show ?thesis using less.IH [of "drop 100 ks"] d
        by (simp add: delete_batches_step memory_ops_def)
    qed (simp add: delete_batches_Nil)
  qed
  show ok: "is_ok r"
  proof -
    obtain ks s1 where "mem_scan (tool_pattern tool) s = (Inr ks, s1)"
      using scan_ok [of "mb_items s" "[]" s]
      by (cases "mem_scan (tool_pattern tool) s") (auto simp: mem_scan_def is_ok_iff)
    moreover obtain n s2 where "delete_batches memory_ops ks 0 s1 = (Inr n, s2)"
      using del_ok [of ks 0 s1] by (cases "delete_batches memory_ops ks 0 s1") (auto simp: is_ok_iff)
    moreover have "be_scan memory_ops = mem_scan" by (simp add: memory_ops_def)
    ultimately show ?thesis
      using assms(3) by (auto simp: flush_tool_def scan_and_delete_def)
  qed
  show "mem_inv s'" by (rule mem_cache.flush_tool_law(1) [OF assms(1,3)])
  show "live s' k = (if \<exists>x. k = ''exact:'' @ tool @ '':'' @ x \<and> CHR ''/'' \<notin> set x then None else live s k)"
    using mem_cache.flush_tool_law(3) [OF assms(1,3)] ok by (auto simp: is_ok_iff pat)
qed

subsection \<open>Properties\<close>

text \<open>
  The cache key of a call does not depend on the iteration order of the argument
  map: two listings of the same arguments hash to the same value, for every hash function.
\<close>

theorem args_hash_order_independent:
  assumes "amap_wf a" and "amap_wf b" and "map_of a = map_of b"
  shows "args_hash sha a = args_hash sha b"
proof -
  have "a = [] \<longleftrightarrow> b = []" using assms(3) by (metis map_of_eq_empty_iff)
  then show ?thesis
    using sorted_keys_unique [OF assms] assms(3) by (simp add: args_hash_def ordered_args_json_def)
qed

theorem args_hash_order_independent_witness:
  "args_hash id [(''b'', JNull), (''a'', JNum ''1'')] = args_hash id [(''a'', JNum ''1''), (''b'', JNull)]"
  by (rule args_hash_order_independent) (auto simp: fun_eq_iff)

text \<open>
  A response that was stored for a tool revision is what the next read by a caller of
  the same role scope with the same arguments gets: an exact hit with that response.
\<close>

theorem cache_set_then_get:
  assumes "mem_inv s" and "0 < mb_max s" and "cc_enabled cfg"
    and "role_scope role' (cc_is_read_only cfg) = role_scope role (cc_is_read_only cfg)"
    and "set_revision memory_ops sha now tool rv role args (RawJSON j) cfg s = (r, s')"
  shows "r = None \<and>
     fst (get_revision memory_ops sha tool rv role' args cfg s') =
       \<lparr> ce_response = RawJSON j, ce_cached_at = Some now, ce_hit_type = ''exact'' \<rparr>"
proof -
  let ?k = "exact_revision_key sha tool rv (role_scope role (cc_is_read_only cfg)) args"
  let ?p = "PEnvelope \<lparr> env_response = RawJSON j, env_cached_at = Some now \<rparr>"
  have "fst (mem_set ?k ?p (cache_ttl cfg) s) = None"
    using mem_set_spec [OF assms(1) surjective_pairing, of ?k ?p "cache_ttl cfg"] by simp
  then obtain q where q: "mem_set ?k ?p (cache_ttl cfg) s = (q, s')" "r = None"
    using assms(3,5) by (cases "mem_set ?k ?p (cache_ttl cfg) s")
      (auto simp: set_revision_def marshal_envelope_def memory_ops_def Let_def)
  have "live s' ?k = Some ?p" "mem_inv s'"
    using mem_set_live_same [OF assms(1) q(1) assms(2)] mem_set_spec [OF assms(1) q(1)] by auto
  then show ?thesis
    using mem_get_revision [of s' cfg] assms(3,4) q(2) by (simp add: entry_of_def)
qed

theorem cache_set_then_get_witness:
  "fst (get_revision memory_ops id ''t'' ''d'' ''clerk'' [] \<lparr> cc_enabled = True, cc_ttl_seconds = 60,
       cc_is_read_only = False, cc_flush_on = [] \<rparr>
     (snd (set_revision memory_ops id 7 ''t'' ''d'' ''clerk'' [] (RawJSON JNull) \<lparr> cc_enabled = True,
       cc_ttl_seconds = 60, cc_is_read_only = False, cc_flush_on = [] \<rparr> (new_memory_backend 4 0)))) =
   \<lparr> ce_response = RawJSON JNull, ce_cached_at = Some 7, ce_hit_type = ''exact'' \<rparr>"
proof -
  have "0 < mb_max (new_memory_backend 4 0)" by (simp add: new_memory_backend_def)
  from cache_set_then_get [OF new_memory_backend_inv this _ refl surjective_pairing] show ?thesis
    by simp
qed

text \<open>
  C39: role isolation in the memory cache. Storing a response for one tool revision and role
  scope never changes what a caller of another tool, another revision or another role scope
  reads from the in-memory backend: that caller misses or gets exactly what it would have got
  before. Revisions are the digests of tools and, like the hashes of arguments, hexadecimal
  texts, and roles are words: of this it is assumed that neither has a colon and that a
  revision is not empty. Tool names and arguments are arbitrary.
\<close>

theorem cache_role_isolation:
  assumes "mem_inv s" and "rv \<noteq> []" and "rv' \<noteq> []"
    and "\<And>t. no_colon (sha t)" and "no_colon rv" and "no_colon rv'" and "no_colon role" and "no_colon role'"
    and "(tool, rv, role_scope role (cc_is_read_only cfg)) \<noteq>
         (tool', rv', role_scope role' (cc_is_read_only cfg'))"
  shows "let s' = snd (set_revision memory_ops sha now tool rv role args resp cfg s) in
           fst (get_revision memory_ops sha tool' rv' role' args' cfg' s') \<in>
             {miss_entry, fst (get_revision memory_ops sha tool' rv' role' args' cfg' s)}"
proof (cases "cc_enabled cfg'")
  case False
  then show ?thesis by (simp add: get_revision_def)
next
  case True
  let ?k' = "exact_revision_key sha tool' rv' (role_scope role' (cc_is_read_only cfg')) args'"
  let ?s' = "snd (set_revision memory_ops sha now tool rv role args resp cfg s)"
  have scope: "no_colon r \<Longrightarrow> no_colon (role_scope r b)" for r b by (simp add: role_scope_def)
  have "?k' \<noteq> exact_revision_key sha tool rv (role_scope role (cc_is_read_only cfg)) args"
    using assms(9) exact_revision_key_inject [of sha, OF assms(4,6) _ assms(3,5) _ assms(2)] scope assms(7,8) by auto
  then have "live ?s' ?k' = None \<or> live ?s' ?k' = live s ?k'" "mem_inv ?s'"
    using mem_cache.set_revision_law [OF assms(1) surjective_pairing] by blast+
  then show ?thesis
    using mem_get_revision [OF _ True] assms(1) by (auto simp: Let_def entry_of_def)
qed

definition sample_sha :: "string \<Rightarrow> string" where "sample_sha t = (if t = [] then ''00'' else ''f1'')"

theorem cache_role_isolation_witness:
  "fst (get_revision memory_ops sample_sha ''t:x'' ''d'' ''hr'' [] \<lparr> cc_enabled = True, cc_ttl_seconds = 60,
       cc_is_read_only = False, cc_flush_on = [] \<rparr>
     (snd (set_revision memory_ops sample_sha 7 ''t:x'' ''d'' ''clerk'' [] (RawJSON JNull) \<lparr> cc_enabled = True,
       cc_ttl_seconds = 60, cc_is_read_only = False, cc_flush_on = [] \<rparr> (new_memory_backend 4 0)))) =
   miss_entry"
proof -
  let ?cfg = "\<lparr> cc_enabled = True, cc_ttl_seconds = 60, cc_is_read_only = False, cc_flush_on = [] \<rparr>"
  have "fst (get_revision memory_ops sample_sha ''t:x'' ''d'' ''hr'' [] ?cfg (new_memory_backend 4 0)) = miss_entry"
    by (simp add: mem_get_revision new_memory_backend_inv)
      (simp add: live_def lru_view_def new_memory_backend_def entry_of_def)
  then show ?thesis
    using cache_role_isolation [where rv = "''d''" and rv' = "''d''"
        and tool = "''t:x''" and tool' = "''t:x''" and role = "''clerk''" and role' = "''hr''"
        and cfg = ?cfg and cfg' = ?cfg and sha = sample_sha and now = 7 and args = "[]" and args' = "[]"
        and resp = "RawJSON JNull" and s = "new_memory_backend 4 0", OF new_memory_backend_inv]
    by (simp add: role_scope_def sample_sha_def Let_def)
qed

text \<open>
  Flushing a tool succeeds and afterwards every cached call of that tool misses,
  whatever its revision, role and arguments, while what callers of other tools read is
  unchanged.
\<close>

theorem flush_tool_invalidates:
  assumes "mem_inv s" and "glob_plain tool" and "no_colon tool" and "no_colon tool'" and "tool' \<noteq> tool"
    and "CHR ''/'' \<notin> set rv" and "CHR ''/'' \<notin> set role" and "\<And>x. CHR ''/'' \<notin> set (sha x)"
    and "flush_tool memory_ops tool s = (r, s')"
  shows "is_ok r \<and>
     fst (get_revision memory_ops sha tool rv role args cfg s') = miss_entry \<and>
     fst (get_revision memory_ops sha tool' rv' role' args' cfg' s') =
       fst (get_revision memory_ops sha tool' rv' role' args' cfg' s)"
proof (intro conjI)
  note fl = live_flush [OF assms(1,2,9)]
  show "is_ok r" by (rule fl(1))
  have hash: "CHR ''/'' \<notin> set (args_hash sha args)" using assms(8) by (simp add: args_hash_def)
  have scope: "CHR ''/'' \<notin> set (role_scope role b)" for b using assms(7) by (simp add: role_scope_def)
  let ?k = "exact_revision_key sha tool rv (role_scope role (cc_is_read_only cfg)) args"
  have "\<exists>x. ?k = ''exact:'' @ tool @ '':'' @ x \<and> CHR ''/'' \<notin> set x"
    using hash scope assms(6) by (auto simp: exact_revision_key_def)
  then have "live s' ?k = None" using fl(3) [of ?k] by presburger
  then show "fst (get_revision memory_ops sha tool rv role args cfg s') = miss_entry"
    using mem_get_revision [OF fl(2), of cfg sha tool rv role args]
    by (cases "cc_enabled cfg") (simp_all add: entry_of_def get_revision_def)
  let ?k' = "exact_revision_key sha tool' rv' (role_scope role' (cc_is_read_only cfg')) args'"
  have "\<not> (\<exists>x. ?k' = ''exact:'' @ tool @ '':'' @ x)"
    using assms(3-5) by (auto simp: exact_revision_key_def separator_inject)
  then have "live s' ?k' = live s ?k'" using fl(3) [of ?k'] by auto
  then show "fst (get_revision memory_ops sha tool' rv' role' args' cfg' s') =
       fst (get_revision memory_ops sha tool' rv' role' args' cfg' s)"
    using mem_get_revision [OF fl(2), of cfg' sha tool' rv' role' args']
      mem_get_revision [OF assms(1), of cfg' sha tool' rv' role' args']
    by (cases "cc_enabled cfg'") (simp_all add: get_revision_def)
qed

theorem flush_tool_invalidates_witness:
  "let cfg = \<lparr> cc_enabled = True, cc_ttl_seconds = 60, cc_is_read_only = False, cc_flush_on = [] \<rparr>;
       s = snd (set_revision memory_ops (\<lambda>x. ''h'') 7 ''t'' ''d'' ''hr'' [] (RawJSON JNull) cfg
                  (new_memory_backend 4 0));
       s' = snd (flush_tool memory_ops ''t'' s)
   in fst (get_revision memory_ops (\<lambda>x. ''h'') ''t'' ''d'' ''hr'' [] cfg s') = miss_entry"
proof -
  let ?cfg = "\<lparr> cc_enabled = True, cc_ttl_seconds = 60, cc_is_read_only = False, cc_flush_on = [] \<rparr>"
  let ?s = "snd (set_revision memory_ops (\<lambda>x. ''h'') 7 ''t'' ''d'' ''hr'' [] (RawJSON JNull) ?cfg
                  (new_memory_backend 4 0))"
  have "mem_inv ?s"
    by (rule mem_cache.set_revision_law(1) [OF new_memory_backend_inv surjective_pairing])
  then show ?thesis
    using flush_tool_invalidates [where tool = "''t''" and tool' = "''u''" and sha = "\<lambda>x. ''h''"
        and rv = "''d''" and role = "''hr''" and s = ?s, OF _ _ _ _ _ _ _ _ surjective_pairing]
    by (simp add: glob_plain_def Let_def)
qed

text \<open>
  The expiry of a stored response is the configured number of seconds as long as it
  fits a \<open>time.Duration\<close>, 9223372036 seconds; beyond, the 64-bit product wraps and a
  positive time to live can become negative, which the backend stores without any expiry.
\<close>

theorem cache_ttl_range:
  "(0 \<le> cc_ttl_seconds cfg \<and> cc_ttl_seconds cfg \<le> 9223372036 \<longrightarrow>
      cache_ttl cfg = cc_ttl_seconds cfg * second) \<and>
   cache_ttl (cfg\<lparr> cc_ttl_seconds := 9223372037 \<rparr>) < 0"
  by (auto simp: cache_ttl_def wrap64_def)

theorem cache_ttl_range_witness:
  "cache_ttl \<lparr> cc_enabled = True, cc_ttl_seconds = 60, cc_is_read_only = False, cc_flush_on = [] \<rparr> =
     60 * second"
  using cache_ttl_range [of "\<lparr> cc_enabled = True, cc_ttl_seconds = 60, cc_is_read_only = False, cc_flush_on = [] \<rparr>"]
  by simp

end
