(* ===== verification/Tool_Types.thy ===== *)
theory Tool_Types
  imports Complex_Main Cache_Manager
begin

text \<open>
  internal/mcp/tool.go and admission.go: the tool resource with all its parts, the copy
  every registry hand-out makes, and the canonical form that is digested. A Go slice and
  a Go map are lists (nil and empty coincide, as they do after the JSON round trip of
  \<open>cloneTool\<close>); an \<open>any\<close> is a JSON value with \<open>JNull\<close> for nil.
\<close>

subsection \<open>The resource\<close>

text \<open>A float64: finite values are rationals.\<close>

datatype go_float = Finite rat | Infinite bool | NaN

record admission_record =
  adm_actor :: string
  adm_approved_at :: timestamp
  adm_decision :: string
  adm_canonicalization :: string

record metadata =
  md_name :: string
  md_version :: string
  md_module :: string
  md_status :: string
  md_is_active :: bool
  md_is_serving :: bool
  md_resource_digest :: string
  md_admission :: "admission_record option"

record description =
  ds_short :: string
  ds_when_to_use :: "string list"
  ds_when_not_to_use :: "string list"
  ds_examples :: "string list"

record tool_annotations =
  an_title :: string
  an_read_only_hint :: "bool option"
  an_destructive_hint :: "bool option"
  an_idempotent_hint :: "bool option"
  an_open_world_hint :: "bool option"

record rate_limit_config =
  rl_requests_per_second :: go_float
  rl_burst :: int

record tool_concurrency =
  tc_limit :: int
  tc_per_principal :: bool

datatype property =
  MkProperty (pr_additional: jval) (pr_type: string) (pr_description: string) (pr_enum: "jval list")
    (pr_default: jval) (pr_properties: "(string \<times> property) list") (pr_items: "property option")
    (pr_required: "string list")

record input_schema =
  is_additional :: jval
  is_type :: string
  is_properties :: "(string \<times> property) list"
  is_required :: "string list"

record execution =
  ex_type :: string
  ex_method :: string
  ex_endpoint :: string
  ex_approved_origins :: "string list"
  ex_mapping :: "(string \<times> string) list"
  ex_parameter_locations :: "(string \<times> string) list"
  ex_body_argument :: string
  ex_response_path :: string

record security =
  se_auth_type :: string
  se_auth_header :: string
  se_credential_ref :: string
  se_credential_source :: string
  se_data_class :: string
  se_allowed_roles :: "string list"

record routing =
  ro_priority :: go_float
  ro_signals :: "string list"
  ro_anti_signals :: "string list"

record lifecycle =
  lc_status :: string
  lc_deprecated_at :: string
  lc_sunset_at :: string
  lc_replacement :: string

record tool_spec =
  ts_description :: description
  ts_annotations :: "tool_annotations option"
  ts_rate_limit :: "rate_limit_config option"
  ts_concurrency :: "tool_concurrency option"
  ts_input_schema :: input_schema
  ts_output_schema :: "jval option"
  ts_execution :: execution
  ts_cache :: "cache_config option"
  ts_security :: security
  ts_routing :: "routing option"
  ts_lifecycle :: "lifecycle option"

text \<open>A native Go handler is a function outside the resource; the tool carries its identity.\<close>

record tool =
  tl_api_version :: string
  tl_kind :: string
  tl_metadata :: metadata
  tl_spec :: tool_spec
  tl_handler :: "nat option"

record tool_call_request =
  tr_name :: string
  tr_arguments :: jargs

text \<open>The selectors and updates of the nested records that the code writes most.\<close>

definition tool_name :: "tool \<Rightarrow> string" where "tool_name t = md_name (tl_metadata t)"
definition tool_version :: "tool \<Rightarrow> string" where "tool_version t = md_version (tl_metadata t)"
definition tool_digest :: "tool \<Rightarrow> string" where "tool_digest t = md_resource_digest (tl_metadata t)"
definition tool_active :: "tool \<Rightarrow> bool" where "tool_active t = md_is_active (tl_metadata t)"
definition tool_serving :: "tool \<Rightarrow> bool" where "tool_serving t = md_is_serving (tl_metadata t)"
definition tool_roles :: "tool \<Rightarrow> string list" where
  "tool_roles t = se_allowed_roles (ts_security (tl_spec t))"

definition map_metadata :: "(metadata \<Rightarrow> metadata) \<Rightarrow> tool \<Rightarrow> tool" where
  "map_metadata f t = t\<lparr> tl_metadata := f (tl_metadata t) \<rparr>"

definition set_serving_flag :: "bool \<Rightarrow> tool \<Rightarrow> tool" where
  "set_serving_flag b = map_metadata (\<lambda>m. m\<lparr> md_is_serving := b \<rparr>)"

definition set_active_flag :: "bool \<Rightarrow> tool \<Rightarrow> tool" where
  "set_active_flag b = map_metadata (\<lambda>m. m\<lparr> md_is_active := b \<rparr>)"

lemmas tool_selectors = tool_name_def tool_version_def tool_digest_def tool_active_def
  tool_serving_def tool_roles_def map_metadata_def set_serving_flag_def set_active_flag_def

lemma flag_updates [simp]:
  "tool_name (set_serving_flag b t) = tool_name t"
  "tool_version (set_serving_flag b t) = tool_version t"
  "tool_digest (set_serving_flag b t) = tool_digest t"
  "tool_active (set_serving_flag b t) = tool_active t"
  "tool_serving (set_serving_flag b t) = b"
  "tool_name (set_active_flag b t) = tool_name t"
  "tool_version (set_active_flag b t) = tool_version t"
  "tool_digest (set_active_flag b t) = tool_digest t"
  "tool_active (set_active_flag b t) = b"
  "tool_serving (set_active_flag b t) = tool_serving t"
  "tl_spec (set_serving_flag b t) = tl_spec t"
  "tl_spec (set_active_flag b t) = tl_spec t"
  by (simp_all add: tool_selectors)

subsection \<open>Validation of limits and schemas\<close>

definition rate_limit_validate :: "rate_limit_config \<Rightarrow> string + unit" where
  "rate_limit_validate c =
     (case rl_requests_per_second c of
        Finite r \<Rightarrow>
          if r \<le> 0 then Inl ''rate limit requests per second must be positive and finite''
          else if rl_burst c \<le> 0 then Inl ''rate limit burst must be positive''
          else Inr ()
      | _ \<Rightarrow> Inl ''rate limit requests per second must be positive and finite'')"

definition tool_concurrency_validate :: "tool_concurrency \<Rightarrow> string + unit" where
  "tool_concurrency_validate c =
     (if tc_limit c \<le> 0 then Inl ''tool concurrency limit must be positive'' else Inr ())"

definition has_concrete_output_schema :: "jval option \<Rightarrow> bool" where
  "has_concrete_output_schema schema = (case schema of
       Some (JObj ms) \<Rightarrow> (case map_of ms ''type'' of
           Some (JStr typeName) \<Rightarrow> trim_space typeName \<noteq> []
         | _ \<Rightarrow> False)
     | _ \<Rightarrow> False)"

subsection \<open>Copies and digests\<close>

text \<open>
  \<open>cloneTool\<close> marshals the tool and decodes it again; the handler is carried over. A
  pointer to a nil output schema is marshalled as null and decodes to no schema.
\<close>

definition clone_tool :: "tool \<Rightarrow> tool" where
  "clone_tool t = t\<lparr> tl_spec := (tl_spec t)\<lparr> ts_output_schema :=
       (case ts_output_schema (tl_spec t) of Some JNull \<Rightarrow> None | x \<Rightarrow> x) \<rparr> \<rparr>"

lemma clone_tool_meta [simp]:
  "tl_metadata (clone_tool t) = tl_metadata t"
  "tool_name (clone_tool t) = tool_name t"
  "tool_version (clone_tool t) = tool_version t"
  "tool_digest (clone_tool t) = tool_digest t"
  "tool_active (clone_tool t) = tool_active t"
  "tool_serving (clone_tool t) = tool_serving t"
  "tool_roles (clone_tool t) = tool_roles t"
  "tl_handler (clone_tool t) = tl_handler t"
  by (simp_all add: clone_tool_def tool_selectors)

lemma clone_tool_idem [simp]: "clone_tool (clone_tool t) = clone_tool t"
  by (simp add: clone_tool_def split: option.splits jval.splits)

lemma clone_set_serving [simp]: "clone_tool (set_serving_flag b t) = set_serving_flag b (clone_tool t)"
  by (simp add: clone_tool_def tool_selectors)

lemma clone_set_active [simp]: "clone_tool (set_active_flag b t) = set_active_flag b (clone_tool t)"
  by (simp add: clone_tool_def tool_selectors)

text \<open>
  The content that is digested: everything but the handler, the lifecycle state, the
  digest itself and the admission record. SHA-256 over the JSON text of the canonical
  resource is the parameter \<open>sha\<close>.
\<close>

definition canonical_tool :: "tool \<Rightarrow> tool" where
  "canonical_tool t = (clone_tool t)\<lparr> tl_handler := None,
     tl_metadata := (tl_metadata t)\<lparr> md_status := [], md_is_active := False, md_is_serving := False,
       md_resource_digest := [], md_admission := None \<rparr> \<rparr>"

definition canonical_tool_digest :: "(tool \<Rightarrow> string) \<Rightarrow> tool \<Rightarrow> string" where
  "canonical_tool_digest sha t = sha (canonical_tool t)"

definition new_admission_record :: "string \<Rightarrow> timestamp \<Rightarrow> admission_record" where
  "new_admission_record actor now =
     \<lparr> adm_actor = (if actor = [] then ''control-plane-operator'' else actor),
       adm_approved_at = now, adm_decision = ''approved'',
       adm_canonicalization = ''erpbridge-tool-json-v1'' \<rparr>"

lemma canonical_tool_name [simp]:
  "tool_name (canonical_tool t) = tool_name t" "tool_version (canonical_tool t) = tool_version t"
  by (simp_all add: canonical_tool_def tool_selectors)

definition lifecycle_update :: "(metadata \<Rightarrow> metadata) \<Rightarrow> bool" where
  "lifecycle_update f \<longleftrightarrow> (\<forall>m. md_name (f m) = md_name m \<and> md_version (f m) = md_version m \<and>
     md_module (f m) = md_module m)"

lemma canonical_map_metadata:
  assumes "lifecycle_update f"
  shows "canonical_tool (map_metadata f t) = canonical_tool t"
  using assms by (simp add: lifecycle_update_def canonical_tool_def map_metadata_def clone_tool_def)

lemma canonical_tool_flags [simp]:
  "canonical_tool (set_serving_flag b t) = canonical_tool t"
  "canonical_tool (set_active_flag b t) = canonical_tool t"
  by (simp_all add: set_serving_flag_def set_active_flag_def canonical_map_metadata lifecycle_update_def)

text \<open>A minimal active tool, for concrete instances.\<close>

definition blank_tool :: "string \<Rightarrow> string \<Rightarrow> tool" where
  "blank_tool name version = \<lparr> tl_api_version = ''erpbridge.io/v1'', tl_kind = ''Tool'',
     tl_metadata = \<lparr> md_name = name, md_version = version, md_module = [], md_status = [],
       md_is_active = True, md_is_serving = False, md_resource_digest = [], md_admission = None \<rparr>,
     tl_spec = \<lparr> ts_description = \<lparr> ds_short = [], ds_when_to_use = [], ds_when_not_to_use = [], ds_examples = [] \<rparr>,
       ts_annotations = None, ts_rate_limit = None, ts_concurrency = None,
       ts_input_schema = \<lparr> is_additional = JNull, is_type = [], is_properties = [], is_required = [] \<rparr>,
       ts_output_schema = None,
       ts_execution = \<lparr> ex_type = ''http'', ex_method = ''GET'', ex_endpoint = [], ex_approved_origins = [],
         ex_mapping = [], ex_parameter_locations = [], ex_body_argument = [], ex_response_path = [] \<rparr>,
       ts_cache = None,
       ts_security = \<lparr> se_auth_type = [], se_auth_header = [], se_credential_ref = [], se_credential_source = [],
         se_data_class = [], se_allowed_roles = [] \<rparr>,
       ts_routing = None, ts_lifecycle = None \<rparr>,
     tl_handler = None \<rparr>"

lemma blank_tool_simps [simp]:
  "tool_name (blank_tool n v) = n" "tool_version (blank_tool n v) = v"
  "tool_active (blank_tool n v)" "\<not> tool_serving (blank_tool n v)"
  "tool_digest (blank_tool n v) = []" "tool_roles (blank_tool n v) = []"
  "clone_tool (blank_tool n v) = blank_tool n v"
  by (simp_all add: blank_tool_def tool_selectors clone_tool_def)

text \<open>
  The digest of a tool depends on its reviewed content only: changing the active and
  serving flags, the status, the stored digest or the admission record leaves it, and so
  does copying the tool.
\<close>

theorem digest_ignores_lifecycle:
  assumes "lifecycle_update f"
  shows "canonical_tool_digest sha (map_metadata f t) = canonical_tool_digest sha t \<and>
         canonical_tool_digest sha (clone_tool t) = canonical_tool_digest sha t"
  using canonical_map_metadata [OF assms]
  by (simp add: canonical_tool_digest_def canonical_tool_def)

theorem digest_ignores_lifecycle_witness:
  "\<forall>sha t. canonical_tool_digest sha (map_metadata (\<lambda>m. m\<lparr> md_is_active := False, md_resource_digest := ''d'' \<rparr>) t) =
   canonical_tool_digest sha t"
  using digest_ignores_lifecycle [of "\<lambda>m. m\<lparr> md_is_active := False, md_resource_digest := ''d'' \<rparr>"]
  by (simp add: lifecycle_update_def)

end
