(* ===== verification/Registry.thy ===== *)
theory Registry
  imports Tool_Types
begin

text \<open>
  internal/mcp/registry.go: the runtime registry of immutable tool revisions, the serving
  pointers that operators select, and the identifiers of exact revisions. The server calls
  every operation under its mutex. Version parsing and constraints are the third-party
  semver library, a record of its four functions.
\<close>

subsection \<open>Exact-revision identifiers\<close>

text \<open>encoding/base64, \<open>RawURLEncoding\<close>: no padding; decoding skips CR and LF.\<close>

definition b64_alphabet :: string where
  "b64_alphabet = ''ABCDEFGHIJKLMNOPQRSTUVWXYZabcdefghijklmnopqrstuvwxyz0123456789-_''"

definition b64_char :: "nat \<Rightarrow> char" where "b64_char n = b64_alphabet ! n"

fun index_of :: "char \<Rightarrow> string \<Rightarrow> nat option" where
  "index_of c [] = None"
| "index_of c (d # ds) = (if c = d then Some 0 else map_option Suc (index_of c ds))"

definition b64_value :: "char \<Rightarrow> nat option" where "b64_value c = index_of c b64_alphabet"

abbreviation byte :: "char \<Rightarrow> nat" where "byte c \<equiv> of_char c"

fun b64_encode :: "string \<Rightarrow> string" where
  "b64_encode [] = []"
| "b64_encode [a] = [b64_char (byte a div 4), b64_char (byte a mod 4 * 16)]"
| "b64_encode [a, b] =
     [b64_char (byte a div 4), b64_char (byte a mod 4 * 16 + byte b div 16),
      b64_char (byte b mod 16 * 4)]"
| "b64_encode (a # b # c # r) =
     [b64_char (byte a div 4), b64_char (byte a mod 4 * 16 + byte b div 16),
      b64_char (byte b mod 16 * 4 + byte c div 64), b64_char (byte c mod 64)] @ b64_encode r"

fun b64_join :: "nat list \<Rightarrow> string option" where
  "b64_join [] = Some []"
| "b64_join [w] = None"
| "b64_join [w, x] = Some [char_of (w * 4 + x div 16)]"
| "b64_join [w, x, y] = Some [char_of (w * 4 + x div 16), char_of (x mod 16 * 16 + y div 4)]"
| "b64_join (w # x # y # z # r) = map_option
     ((@) [char_of (w * 4 + x div 16), char_of (x mod 16 * 16 + y div 4), char_of (y mod 4 * 64 + z)])
     (b64_join r)"

fun b64_values :: "string \<Rightarrow> nat list option" where
  "b64_values [] = Some []"
| "b64_values (c # cs) = (case b64_value c of
       None \<Rightarrow> None
     | Some n \<Rightarrow> map_option ((#) n) (b64_values cs))"

definition b64_decode :: "string \<Rightarrow> string option" where
  "b64_decode s = (case b64_values (filter (\<lambda>c. c \<noteq> CHR 0x0A \<and> c \<noteq> CHR 0x0D) s) of
       None \<Rightarrow> None
     | Some vs \<Rightarrow> b64_join vs)"

lemma b64_value_char: "n < 64 \<Longrightarrow> b64_value (b64_char n) = Some n"
proof -
  have "\<forall>n \<in> set [0..<64]. b64_value (b64_char n) = Some n" by code_simp
  then show "n < 64 \<Longrightarrow> b64_value (b64_char n) = Some n" by simp
qed

definition b64_clean :: "char \<Rightarrow> bool" where
  "b64_clean c \<longleftrightarrow> c \<noteq> CHR 0x0A \<and> c \<noteq> CHR 0x0D \<and> c \<noteq> CHR ''.''"

lemma b64_char_clean: "n < 64 \<Longrightarrow> b64_clean (b64_char n)"
proof -
  have "\<forall>n \<in> set [0..<64]. b64_clean (b64_char n)" by code_simp
  then show "n < 64 \<Longrightarrow> b64_clean (b64_char n)" by simp
qed

lemma sextets:
  fixes a b c :: nat
  assumes "a < 256" "b < 256" "c < 256"
  shows "a div 4 < 64" "a mod 4 * 16 + b div 16 < 64" "a mod 4 * 16 < 64"
    "b mod 16 * 4 + c div 64 < 64" "b mod 16 * 4 < 64" "c mod 64 < 64"
    "a div 4 * 4 + (a mod 4 * 16 + b div 16) div 16 = a"
    "a div 4 * 4 + (a mod 4 * 16) div 16 = a"
    "(a mod 4 * 16 + b div 16) mod 16 * 16 + (b mod 16 * 4 + c div 64) div 4 = b"
    "(a mod 4 * 16 + b div 16) mod 16 * 16 + (b mod 16 * 4) div 4 = b"
    "(b mod 16 * 4 + c div 64) mod 4 * 64 + c mod 64 = c"
proof -
  have h: "b div 16 < 16" "c div 64 < 4" using assms by auto
  show "a div 4 < 64" "c mod 64 < 64" "a mod 4 * 16 < 64" "b mod 16 * 4 < 64" using assms by auto
  show "a mod 4 * 16 + b div 16 < 64" "b mod 16 * 4 + c div 64 < 64" using h mod_less_divisor [of 4 a] mod_less_divisor [of 16 b] by linarith+
  have e: "(a mod 4 * 16 + b div 16) div 16 = a mod 4" "(a mod 4 * 16 + b div 16) mod 16 = b div 16"
    "(b mod 16 * 4 + c div 64) div 4 = b mod 16" "(b mod 16 * 4 + c div 64) mod 4 = c div 64"
    using h by simp_all
  show "a div 4 * 4 + (a mod 4 * 16 + b div 16) div 16 = a"
    "a div 4 * 4 + (a mod 4 * 16) div 16 = a"
    "(a mod 4 * 16 + b div 16) mod 16 * 16 + (b mod 16 * 4 + c div 64) div 4 = b"
    "(a mod 4 * 16 + b div 16) mod 16 * 16 + (b mod 16 * 4) div 4 = b"
    "(b mod 16 * 4 + c div 64) mod 4 * 64 + c mod 64 = c"
    unfolding e by simp_all
qed

lemma b64_encode_clean: "list_all b64_clean (b64_encode s)"
proof (induction s rule: b64_encode.induct)
  case (2 a)
  show ?case using sextets [of "byte a" "byte a" "byte a"] by (simp add: b64_char_clean)
next
  case (3 a b)
  show ?case using sextets [of "byte a" "byte b" "byte b"] by (simp add: b64_char_clean)
next
  case (4 a b c r)
  then show ?case using sextets [of "byte a" "byte b" "byte c"] by (simp add: b64_char_clean)
qed simp

lemma b64_values_encode:
  "\<exists>vs. b64_values (b64_encode s) = Some vs \<and> b64_join vs = Some s"
proof (induction s rule: b64_encode.induct)
  case (2 a)
  show ?case using sextets [of "byte a" "byte a" "byte a"] by (simp add: b64_value_char)
next
  case (3 a b)
  show ?case using sextets [of "byte a" "byte b" "byte b"] by (simp add: b64_value_char)
next
  case (4 a b c r)
  then obtain vs where "b64_values (b64_encode r) = Some vs" "b64_join vs = Some r" by blast
  then show ?case
    using sextets [of "byte a" "byte b" "byte c"] by (simp add: b64_value_char)
qed simp

lemma b64_roundtrip: "b64_decode (b64_encode s) = Some s"
proof -
  have "filter (\<lambda>c. c \<noteq> CHR 0x0A \<and> c \<noteq> CHR 0x0D) (b64_encode s) = b64_encode s"
    using b64_encode_clean [of s] by (auto simp: list_all_iff b64_clean_def intro!: filter_True)
  with b64_values_encode [of s] show ?thesis by (auto simp: b64_decode_def)
qed

text \<open>\<open>strings.LastIndex\<close>.\<close>

fun last_index :: "string \<Rightarrow> string \<Rightarrow> nat option" where
  "last_index [] p = (if p = [] then Some 0 else None)"
| "last_index (c # s) p = (case last_index s p of
       Some i \<Rightarrow> Some (Suc i)
     | None \<Rightarrow> if has_prefix (c # s) p then Some 0 else None)"

definition qualified_tool_name :: "string \<Rightarrow> string \<Rightarrow> string" where
  "qualified_tool_name name version = name @ ''.rev_'' @ b64_encode version"

definition parse_qualified_tool_name :: "string \<Rightarrow> (string \<times> string) option" where
  "parse_qualified_tool_name identifier = (case last_index identifier ''.rev_'' of
       None \<Rightarrow> None
     | Some 0 \<Rightarrow> None
     | Some index \<Rightarrow> (case b64_decode (drop (index + 5) identifier) of
           None \<Rightarrow> None
         | Some decoded \<Rightarrow> if decoded = [] then None else Some (take index identifier, decoded)))"

definition parse_tool_identifier :: "string \<Rightarrow> string \<times> string" where
  "parse_tool_identifier ident = (case str_cut (CHR ''@'') ident of
       Some (name, version) \<Rightarrow> (name, version)
     | None \<Rightarrow> (ident, []))"

lemma last_index_absent: "CHR ''.'' \<notin> set s \<Longrightarrow> last_index s ''.rev_'' = None"
  by (induction s) (auto simp: has_prefix_def)

lemma last_index_append:
  assumes "CHR ''.'' \<notin> set t"
  shows "last_index (s @ ''.rev_'' @ t) ''.rev_'' = Some (length s)"
proof (induction s)
  case Nil
  show ?case using last_index_absent [of "''rev_'' @ t"] assms by (simp add: has_prefix_def)
qed simp

text \<open>
  Exact-revision names round trip. Parsing the qualified name of any non-empty tool
  name and version gives back exactly that name and version, also when the name itself
  contains the separator, so distinct revisions never share a protocol name.
\<close>

theorem qualified_name_roundtrip:
  assumes "name \<noteq> []" and "version \<noteq> []"
  shows "parse_qualified_tool_name (qualified_tool_name name version) = Some (name, version)"
proof -
  have "CHR ''.'' \<notin> set (b64_encode version)"
    using b64_encode_clean [of version] by (auto simp: list_all_iff b64_clean_def)
  from last_index_append [OF this, of name] assms show ?thesis
    by (cases "length name") (simp_all add: parse_qualified_tool_name_def qualified_tool_name_def b64_roundtrip)
qed

theorem qualified_name_roundtrip_witness:
  "parse_qualified_tool_name (qualified_tool_name ''hr.list'' ''1.2.0'') = Some (''hr.list'', ''1.2.0'')"
  by (rule qualified_name_roundtrip) simp_all


subsection \<open>The registry\<close>

datatype registry_err =
    InvalidSemver string string
  | ToolNotFound string
  | VersionNotFound string string
  | VersionInactive string string
  | InvalidConstraint string
  | NoVersionMatches string string
  | NoServingVersion string
  | ServingUnavailable string string
  | DigestInactive string string
  | DigestNotFound string string

record ('v, 'c) semver =
  sv_new :: "string \<Rightarrow> 'v option"
  sv_constraint :: "string \<Rightarrow> 'c option"
  sv_check :: "'c \<Rightarrow> 'v \<Rightarrow> bool"
  sv_greater :: "'v \<Rightarrow> 'v \<Rightarrow> bool"
  sv_prerelease :: "'v \<Rightarrow> string"

type_synonym versions = "(string \<times> tool) list"

record registry =
  reg_tools :: "(string \<times> versions) list"
  reg_serving :: "(string \<times> string) list"

definition new_tool_registry :: registry where
  "new_tool_registry = \<lparr> reg_tools = [], reg_serving = [] \<rparr>"

text \<open>A missing key of a Go map reads as the zero value.\<close>

definition serving_of :: "registry \<Rightarrow> string \<Rightarrow> string" where
  "serving_of r name = (case map_of (reg_serving r) name of None \<Rightarrow> [] | Some v \<Rightarrow> v)"

definition map_versions :: "(string \<Rightarrow> tool \<Rightarrow> tool) \<Rightarrow> versions \<Rightarrow> versions" where
  "map_versions f vs = map (\<lambda>(v, t). (v, f v t)) vs"

definition set_serving :: "string \<Rightarrow> string \<Rightarrow> registry \<Rightarrow> registry_err option \<times> registry" where
  "set_serving name version r = (case map_of (reg_tools r) name of
       None \<Rightarrow> (Some (ToolNotFound name), r)
     | Some vs \<Rightarrow> (case map_of vs version of
           None \<Rightarrow> (Some (VersionNotFound name version), r)
         | Some selected \<Rightarrow>
             if \<not> tool_active selected then (Some (VersionInactive name version), r)
             else (None, r\<lparr> reg_tools := amap_put name
                              (map_versions (\<lambda>v t. set_serving_flag (v = version) t) vs) (reg_tools r),
                            reg_serving := amap_put name version (reg_serving r) \<rparr>)))"

definition registry_add ::
  "('v, 'c) semver \<Rightarrow> bool \<Rightarrow> tool \<Rightarrow> registry \<Rightarrow> registry_err option \<times> registry" where
  "registry_add sv allowServingDefault t r =
     (let name = tool_name t; version = tool_version t in
      case sv_new sv version of
        None \<Rightarrow> (Some (InvalidSemver version name), r)
      | Some _ \<Rightarrow>
          let vs = (case map_of (reg_tools r) name of None \<Rightarrow> [] | Some vs \<Rightarrow> vs);
              r1 = r\<lparr> reg_tools := amap_put name (amap_put version (clone_tool t) vs) (reg_tools r) \<rparr>
          in if tool_serving t \<or> (allowServingDefault \<and> serving_of r name = [])
             then set_serving name version r1
             else if \<not> allowServingDefault \<and> serving_of r name = version
             then (None, r1\<lparr> reg_serving := amap_del name (reg_serving r1) \<rparr>)
             else (None, r1))"

definition registry_add_default :: "('v, 'c) semver \<Rightarrow> tool \<Rightarrow> registry \<Rightarrow> registry_err option \<times> registry" where
  "registry_add_default sv t r = registry_add sv True t r"

definition registry_add_explicit :: "('v, 'c) semver \<Rightarrow> tool \<Rightarrow> registry \<Rightarrow> registry_err option \<times> registry" where
  "registry_add_explicit sv t r = registry_add sv False t r"

text \<open>
  The loop over a tool's versions. \<^const>\<open>None\<close> is the nil \<open>bestVersion\<close>; every
  stored version parsed when it was added.
\<close>

fun best_match ::
  "('v, 'c) semver \<Rightarrow> 'c \<Rightarrow> versions \<Rightarrow> ('v \<times> tool) option \<Rightarrow> ('v \<times> tool) option" where
  "best_match sv c [] best = best"
| "best_match sv c ((vStr, t) # rest) best =
     (if \<not> tool_active t then best_match sv c rest best
      else case sv_new sv vStr of
             None \<Rightarrow> best_match sv c rest best
           | Some v \<Rightarrow>
               if sv_check sv c v \<and>
                  (case best of None \<Rightarrow> True | Some (bestVersion, _) \<Rightarrow> sv_greater sv v bestVersion)
               then best_match sv c rest (Some (v, t))
               else best_match sv c rest best)"

definition resolve ::
  "('v, 'c) semver \<Rightarrow> string \<Rightarrow> string \<Rightarrow> registry \<Rightarrow> registry_err + tool" where
  "resolve sv name versionConstraint r = (case map_of (reg_tools r) name of
       None \<Rightarrow> Inl (ToolNotFound name)
     | Some vs \<Rightarrow>
         if versionConstraint \<noteq> [] then
           (case map_of vs versionConstraint of
              Some t \<Rightarrow>
                if \<not> tool_active t then Inl (VersionInactive name versionConstraint)
                else Inr (clone_tool t)
            | None \<Rightarrow> (case sv_constraint sv versionConstraint of
                  None \<Rightarrow> Inl (InvalidConstraint versionConstraint)
                | Some c \<Rightarrow> (case best_match sv c vs None of
                      Some (_, t) \<Rightarrow> Inr (clone_tool t)
                    | None \<Rightarrow> Inl (NoVersionMatches name versionConstraint))))
         else
           let servingVersion = serving_of r name in
           if servingVersion = [] then Inl (NoServingVersion name)
           else (case map_of vs servingVersion of
               None \<Rightarrow> Inl (ServingUnavailable servingVersion name)
             | Some t \<Rightarrow> if \<not> tool_active t then Inl (ServingUnavailable servingVersion name)
                         else Inr (clone_tool t)))"

definition resolve_digest :: "string \<Rightarrow> string \<Rightarrow> registry \<Rightarrow> registry_err + tool" where
  "resolve_digest name digest r = (case map_of (reg_tools r) name of
       None \<Rightarrow> Inl (ToolNotFound name)
     | Some vs \<Rightarrow> (case find (\<lambda>(v, t). tool_digest t = digest) vs of
           None \<Rightarrow> Inl (DigestNotFound name digest)
         | Some (_, t) \<Rightarrow>
             if \<not> tool_active t then Inl (DigestInactive name digest) else Inr (clone_tool t)))"

definition list_stable :: "('v, 'c) semver \<Rightarrow> registry \<Rightarrow> tool list" where
  "list_stable sv r = sort_key tool_name
     (concat (map (\<lambda>(name, vs). case resolve sv name [] r of Inr t \<Rightarrow> [t] | Inl _ \<Rightarrow> []) (reg_tools r)))"

definition registry_remove :: "string \<Rightarrow> string \<Rightarrow> registry \<Rightarrow> registry" where
  "registry_remove name version r = (case map_of (reg_tools r) name of
       None \<Rightarrow> r
     | Some vs \<Rightarrow> (case map_of vs version of
           None \<Rightarrow> r
         | Some t \<Rightarrow>
             let r1 = r\<lparr> reg_tools := amap_put name
                          (amap_put version (set_serving_flag False (set_active_flag False t)) vs) (reg_tools r) \<rparr>
             in if serving_of r name = version
                then r1\<lparr> reg_serving := amap_del name (reg_serving r1) \<rparr> else r1))"

definition list_all_tools :: "registry \<Rightarrow> tool list" where
  "list_all_tools r = concat (map (\<lambda>(name, vs). map (\<lambda>(v, t). clone_tool t) vs) (reg_tools r))"

definition list_active :: "registry \<Rightarrow> tool list" where
  "list_active r = concat (map (\<lambda>(name, vs). map (\<lambda>(v, t). clone_tool t)
     (filter (\<lambda>(v, t). tool_active t) vs)) (reg_tools r))"

subsection \<open>The stored revision, and what each operation does to it\<close>

definition revision_at :: "registry \<Rightarrow> string \<Rightarrow> string \<Rightarrow> tool option" where
  "revision_at r n v = (case map_of (reg_tools r) n of None \<Rightarrow> None | Some vs \<Rightarrow> map_of vs v)"

text \<open>
  The invariant: keys are unique and agree with the metadata, stored versions are semantic
  versions, a serving pointer names a stored revision, and an active revision that is
  flagged as serving is the one the pointer names.
\<close>

definition versions_wf :: "(string \<times> versions) list \<Rightarrow> bool" where
  "versions_wf m \<longleftrightarrow> (\<forall>p \<in> set m. amap_wf (snd p))"

lemma versions_wf_put [intro]: "versions_wf m \<Longrightarrow> amap_wf vs \<Longrightarrow> versions_wf (amap_put n vs m)"
  by (auto simp: versions_wf_def amap_put_def)

lemma versions_wf_at: "versions_wf m \<Longrightarrow> map_of m n = Some vs \<Longrightarrow> amap_wf vs"
  by (auto simp: versions_wf_def dest!: map_of_SomeD)

lemma versions_wf_mem: "versions_wf m \<Longrightarrow> (n, vs) \<in> set m \<Longrightarrow> amap_wf vs"
  by (auto simp: versions_wf_def)

definition registry_inv :: "('v, 'c) semver \<Rightarrow> registry \<Rightarrow> bool" where
  "registry_inv sv r \<longleftrightarrow>
     amap_wf (reg_tools r) \<and> amap_wf (reg_serving r) \<and>
     versions_wf (reg_tools r) \<and>
     (\<forall>n v t. revision_at r n v = Some t \<longrightarrow>
        tool_name t = n \<and> tool_version t = v \<and> sv_new sv v \<noteq> None \<and>
        (tool_active t \<and> tool_serving t \<longrightarrow> map_of (reg_serving r) n = Some v)) \<and>
     (\<forall>n v. map_of (reg_serving r) n = Some v \<longrightarrow> revision_at r n v \<noteq> None)"

lemma map_of_map_versions [simp]:
  "map_of (map_versions f vs) v = map_option (f v) (map_of vs v)"
  by (simp add: map_versions_def map_of_map_upd)

lemma map_versions_keys [simp]: "map fst (map_versions f vs) = map fst vs"
  by (simp only: map_versions_def map_fst_map_upd)

lemma set_serving_revision:
  assumes "set_serving n v r = (None, r')"
  shows "revision_at r' m w = (if m = n then map_option (set_serving_flag (w = v)) (revision_at r m w)
                               else revision_at r m w)"
    "map_of (reg_serving r') = (map_of (reg_serving r))(n \<mapsto> v)"
    "\<exists>t. revision_at r n v = Some t \<and> tool_active t"
  using assms by (auto simp: set_serving_def revision_at_def split: option.splits if_splits)

lemma set_serving_error: "set_serving n v r = (Some e, r') \<Longrightarrow> r' = r"
  by (auto simp: set_serving_def split: option.splits if_splits)

lemma set_serving_wf:
  assumes "set_serving n v r = (res, r')" and "amap_wf (reg_tools r)" and "amap_wf (reg_serving r)"
    and "versions_wf (reg_tools r)"
  shows "amap_wf (reg_tools r') \<and> amap_wf (reg_serving r') \<and> versions_wf (reg_tools r')"
proof (cases res)
  case None
  then obtain vs where vs: "map_of (reg_tools r) n = Some vs"
    "r' = r\<lparr> reg_tools := amap_put n (map_versions (\<lambda>w t. set_serving_flag (w = v) t) vs) (reg_tools r),
            reg_serving := amap_put n v (reg_serving r) \<rparr>"
    using assms(1) by (auto simp: set_serving_def split: option.splits if_splits)
  have "amap_wf vs" by (rule versions_wf_at [OF assms(4) vs(1)])
  then have "amap_wf (map_versions (\<lambda>w t. set_serving_flag (w = v) t) vs)" by simp
  with assms(2-4) vs(2) show ?thesis by (auto intro!: versions_wf_put)
next
  case (Some e)
  with set_serving_error [of n v r] assms show ?thesis by simp
qed

lemma set_serving_inv:
  assumes "set_serving n v r = (None, r')"
    and wf: "amap_wf (reg_tools r)" "amap_wf (reg_serving r)" "versions_wf (reg_tools r)"
    and rev: "\<And>m w t. revision_at r m w = Some t \<Longrightarrow> tool_name t = m \<and> tool_version t = w \<and> sv_new sv w \<noteq> None"
    and flag: "\<And>m w t. m \<noteq> n \<Longrightarrow> revision_at r m w = Some t \<Longrightarrow> tool_active t \<and> tool_serving t \<Longrightarrow>
                 map_of (reg_serving r) m = Some w"
    and ptr: "\<And>m w. map_of (reg_serving r) m = Some w \<Longrightarrow> revision_at r m w \<noteq> None"
  shows "registry_inv sv r'"
proof -
  note s = set_serving_revision [OF assms(1)]
  have "tool_name t = m \<and> tool_version t = w \<and> sv_new sv w \<noteq> None \<and>
        (tool_active t \<and> tool_serving t \<longrightarrow> map_of (reg_serving r') m = Some w)"
    if t: "revision_at r' m w = Some t" for m w t
  proof (cases "m = n")
    case True
    then obtain t0 where "revision_at r m w = Some t0" "t = set_serving_flag (w = v) t0"
      using t s(1) by (cases "revision_at r m w") auto
    with rev [of m w t0] True s(2) show ?thesis by auto
  next
    case False
    with t s(1) have "revision_at r m w = Some t" by simp
    with rev [of m w t] flag [of m w t] False s(2) show ?thesis by auto
  qed
  moreover have "revision_at r' m w \<noteq> None" if "map_of (reg_serving r') m = Some w" for m w
    using that s ptr [of m w] by (cases "m = n") auto
  ultimately show ?thesis
    using set_serving_wf [OF assms(1) wf] by (simp add: registry_inv_def)
qed

lemma registry_invD:
  assumes "registry_inv sv r"
  shows "amap_wf (reg_tools r)" "amap_wf (reg_serving r)" "versions_wf (reg_tools r)"
    "revision_at r m w = Some t \<Longrightarrow> tool_name t = m \<and> tool_version t = w \<and> sv_new sv w \<noteq> None"
    "revision_at r m w = Some t \<Longrightarrow> tool_active t \<and> tool_serving t \<Longrightarrow> map_of (reg_serving r) m = Some w"
    "map_of (reg_serving r) m = Some w \<Longrightarrow> revision_at r m w \<noteq> None"
  using assms unfolding registry_inv_def by blast+

lemma registry_invI:
  assumes "amap_wf (reg_tools r)" "amap_wf (reg_serving r)" "versions_wf (reg_tools r)"
    and "\<And>m w t. revision_at r m w = Some t \<Longrightarrow> tool_name t = m \<and> tool_version t = w \<and> sv_new sv w \<noteq> None"
    and "\<And>m w t. revision_at r m w = Some t \<Longrightarrow> tool_active t \<and> tool_serving t \<Longrightarrow> map_of (reg_serving r) m = Some w"
    and "\<And>m w. map_of (reg_serving r) m = Some w \<Longrightarrow> revision_at r m w \<noteq> None"
  shows "registry_inv sv r"
  unfolding registry_inv_def using assms by blast


text \<open>Storing a copy of \<open>t\<close> in its slot, before the serving pointer is looked at.\<close>

definition put_revision :: "tool \<Rightarrow> registry \<Rightarrow> registry" where
  "put_revision t r = r\<lparr> reg_tools := amap_put (tool_name t) (amap_put (tool_version t) (clone_tool t)
     (case map_of (reg_tools r) (tool_name t) of None \<Rightarrow> [] | Some vs \<Rightarrow> vs)) (reg_tools r) \<rparr>"

lemma revision_at_put:
  "revision_at (put_revision t r) m w =
     (if m = tool_name t \<and> w = tool_version t then Some (clone_tool t) else revision_at r m w)"
  by (auto simp: put_revision_def revision_at_def split: option.splits)

lemma put_revision_serving [simp]: "reg_serving (put_revision t r) = reg_serving r"
  by (simp add: put_revision_def)

lemma put_revision_wf:
  assumes "amap_wf (reg_tools r)" and "versions_wf (reg_tools r)"
  shows "amap_wf (reg_tools (put_revision t r))" "versions_wf (reg_tools (put_revision t r))"
  using assms by (auto simp: put_revision_def intro!: versions_wf_put dest: versions_wf_at split: option.splits)

lemma registry_add_put:
  "sv_new sv (tool_version t) \<noteq> None \<Longrightarrow>
   registry_add sv dflt t r =
     (if tool_serving t \<or> (dflt \<and> serving_of r (tool_name t) = [])
      then set_serving (tool_name t) (tool_version t) (put_revision t r)
      else if \<not> dflt \<and> serving_of r (tool_name t) = tool_version t
      then (None, (put_revision t r)\<lparr> reg_serving := amap_del (tool_name t) (reg_serving r) \<rparr>)
      else (None, put_revision t r))"
  by (auto simp: registry_add_def put_revision_def Let_def)

lemma put_revision_inv:
  assumes "registry_inv sv r" and "sv_new sv (tool_version t) \<noteq> None" and "\<not> tool_serving t"
  shows "registry_inv sv (put_revision t r)"
proof (rule registry_invI)
  note inv = registry_invD [OF assms(1)]
  show "amap_wf (reg_tools (put_revision t r))" "versions_wf (reg_tools (put_revision t r))"
    by (fact put_revision_wf [OF inv(1,3)])+
  show "amap_wf (reg_serving (put_revision t r))" using inv(2) by simp
  fix m w u
  assume u: "revision_at (put_revision t r) m w = Some u"
  show "tool_name u = m \<and> tool_version u = w \<and> sv_new sv w \<noteq> None"
    using u inv(4) assms(2) by (auto simp: revision_at_put split: if_splits)
  show "map_of (reg_serving (put_revision t r)) m = Some w" if "tool_active u \<and> tool_serving u"
    using u that inv(5) [of m w u] assms(3) by (auto simp: revision_at_put split: if_splits)
next
  fix m w
  assume "map_of (reg_serving (put_revision t r)) m = Some w"
  with registry_invD(6) [OF assms(1)] show "revision_at (put_revision t r) m w \<noteq> None"
    by (simp add: revision_at_put)
qed

lemma unset_serving_inv:
  assumes "registry_inv sv r"
    and "\<And>w u. revision_at r n w = Some u \<Longrightarrow> \<not> (tool_active u \<and> tool_serving u)"
  shows "registry_inv sv (r\<lparr> reg_serving := amap_del n (reg_serving r) \<rparr>)"
proof -
  have rev: "revision_at (r\<lparr> reg_serving := x \<rparr>) = revision_at r" for x
    by (simp add: revision_at_def fun_eq_iff)
  note inv = registry_invD [OF assms(1)]
  show ?thesis
  proof (rule registry_invI, unfold rev)
    fix m w t
    assume t: "revision_at r m w = Some t"
    show "tool_name t = m \<and> tool_version t = w \<and> sv_new sv w \<noteq> None" by (rule inv(4) [OF t])
    show "map_of (reg_serving (r\<lparr> reg_serving := amap_del n (reg_serving r) \<rparr>)) m = Some w"
      if "tool_active t \<and> tool_serving t"
      using inv(5) [OF t that] assms(2) [of w t] t that by auto
  next
    fix m w
    assume "map_of (reg_serving (r\<lparr> reg_serving := amap_del n (reg_serving r) \<rparr>)) m = Some w"
    then show "revision_at r m w \<noteq> None" using inv(6) by (auto split: if_splits)
  qed (use inv in auto)
qed

text \<open>An inactive tool that is refused the serving pointer still stays stored.\<close>

lemma put_revision_inv_inactive:
  assumes "registry_inv sv r" and "sv_new sv (tool_version t) \<noteq> None" and "\<not> tool_active t"
  shows "registry_inv sv (put_revision t r)"
proof (rule registry_invI)
  note inv = registry_invD [OF assms(1)]
  show "amap_wf (reg_tools (put_revision t r))" "versions_wf (reg_tools (put_revision t r))"
    by (fact put_revision_wf [OF inv(1,3)])+
  show "amap_wf (reg_serving (put_revision t r))" using inv(2) by simp
  fix m w u
  assume u: "revision_at (put_revision t r) m w = Some u"
  show "tool_name u = m \<and> tool_version u = w \<and> sv_new sv w \<noteq> None"
    using u inv(4) assms(2) by (auto simp: revision_at_put split: if_splits)
  show "map_of (reg_serving (put_revision t r)) m = Some w" if "tool_active u \<and> tool_serving u"
    using u that inv(5) [of m w u] assms(3) by (auto simp: revision_at_put split: if_splits)
next
  fix m w
  assume "map_of (reg_serving (put_revision t r)) m = Some w"
  with registry_invD(6) [OF assms(1)] show "revision_at (put_revision t r) m w \<noteq> None"
    by (simp add: revision_at_put)
qed

lemma serving_of_eq:
  "v \<noteq> [] \<Longrightarrow> serving_of r n = v \<longleftrightarrow> map_of (reg_serving r) n = Some v"
  by (auto simp: serving_of_def split: option.splits)

lemma serve_put_inv:
  assumes inv: "registry_inv sv r" and "sv_new sv (tool_version t) \<noteq> None"
    and "set_serving (tool_name t) (tool_version t) (put_revision t r) = (res, r')"
  shows "registry_inv sv r'"
proof (cases "tool_active t")
  case True
  note I = registry_invD [OF inv]
  have "res = None"
    using assms(3) True by (auto simp: set_serving_def put_revision_def split: if_splits)
  show ?thesis
  proof (rule set_serving_inv [OF assms(3) [unfolded \<open>res = None\<close>]])
    show "amap_wf (reg_tools (put_revision t r))" "versions_wf (reg_tools (put_revision t r))"
      by (fact put_revision_wf [OF I(1,3)])+
    show "amap_wf (reg_serving (put_revision t r))" using I(2) by simp
    fix m w u
    assume u: "revision_at (put_revision t r) m w = Some u"
    show "tool_name u = m \<and> tool_version u = w \<and> sv_new sv w \<noteq> None"
      using u I(4) assms(2) by (auto simp: revision_at_put split: if_splits)
    show "map_of (reg_serving (put_revision t r)) m = Some w"
      if "m \<noteq> tool_name t" "tool_active u \<and> tool_serving u"
      using u that I(5) [of m w u] by (auto simp: revision_at_put)
  next
    fix m w
    assume "map_of (reg_serving (put_revision t r)) m = Some w"
    with I(6) show "revision_at (put_revision t r) m w \<noteq> None" by (simp add: revision_at_put)
  qed
next
  case False
  have "set_serving (tool_name t) (tool_version t) (put_revision t r) =
          (Some (VersionInactive (tool_name t) (tool_version t)), put_revision t r)"
    using False by (simp add: set_serving_def put_revision_def)
  with assms(3) have "r' = put_revision t r" by simp
  then show ?thesis using put_revision_inv_inactive [OF inv assms(2) False] by simp
qed

lemma registry_add_inv [component_inv]:
  assumes inv: "registry_inv sv r" and add: "registry_add sv dflt t r = (res, r')"
  shows "registry_inv sv r'"
proof (cases "sv_new sv (tool_version t)")
  case None
  with add inv show ?thesis by (simp add: registry_add_def Let_def)
next
  case (Some x)
  then have v: "sv_new sv (tool_version t) \<noteq> None" by simp
  note eq = add [unfolded registry_add_put [OF v]]
  consider (serve) "tool_serving t \<or> (dflt \<and> serving_of r (tool_name t) = [])"
    | (drop) "\<not> tool_serving t" "serving_of r (tool_name t) = tool_version t"
        "r' = (put_revision t r)\<lparr> reg_serving := amap_del (tool_name t) (reg_serving r) \<rparr>"
    | (keep) "\<not> tool_serving t" "r' = put_revision t r"
    using eq by (auto split: if_splits)
  then show ?thesis
  proof cases
    case serve
    then show ?thesis using eq serve_put_inv [OF inv v] by simp
  next
    case keep
    then show ?thesis using put_revision_inv [OF inv v] by simp
  next
    case drop
    have p: "registry_inv sv (put_revision t r)" by (rule put_revision_inv [OF inv v drop(1)])
    have "\<not> (tool_active u \<and> tool_serving u)"
      if u: "revision_at (put_revision t r) (tool_name t) w = Some u" for w u
    proof
      assume a: "tool_active u \<and> tool_serving u"
      have "map_of (reg_serving r) (tool_name t) = Some w" using registry_invD(5) [OF p u a] by simp
      then have "w = tool_version t" using drop(2) by (simp add: serving_of_def)
      with u have "u = clone_tool t" by (simp add: revision_at_put)
      with a drop(1) show False by simp
    qed
    from unset_serving_inv [OF p this] drop(3) show ?thesis by simp
  qed
qed

lemma registry_remove_revision:
  assumes "revision_at r n v = Some t"
  shows "revision_at (registry_remove n v r) m w =
     (if m = n \<and> w = v then Some (set_serving_flag False (set_active_flag False t)) else revision_at r m w)"
    "map_of (reg_serving (registry_remove n v r)) m =
     (if m = n \<and> serving_of r n = v then None else map_of (reg_serving r) m)"
  using assms by (auto simp: registry_remove_def revision_at_def Let_def split: option.splits)

lemma registry_remove_absent: "revision_at r n v = None \<Longrightarrow> registry_remove n v r = r"
  by (auto simp: registry_remove_def revision_at_def split: option.splits)

lemma registry_remove_wf:
  "amap_wf (reg_tools r) \<Longrightarrow> amap_wf (reg_serving r) \<Longrightarrow> versions_wf (reg_tools r) \<Longrightarrow>
   amap_wf (reg_tools (registry_remove n v r)) \<and> amap_wf (reg_serving (registry_remove n v r)) \<and>
   versions_wf (reg_tools (registry_remove n v r))"
  by (auto simp: registry_remove_def Let_def intro!: versions_wf_put dest: versions_wf_at versions_wf_mem
        split: option.splits)

lemma registry_remove_inv [component_inv]:
  assumes "registry_inv sv r"
  shows "registry_inv sv (registry_remove n v r)"
proof (cases "revision_at r n v")
  case None
  with assms show ?thesis by (simp add: registry_remove_absent)
next
  case (Some t)
  note I = registry_invD [OF assms] and R = registry_remove_revision [OF Some]
  show ?thesis
  proof (rule registry_invI)
    fix m w u
    assume u: "revision_at (registry_remove n v r) m w = Some u"
    show "tool_name u = m \<and> tool_version u = w \<and> sv_new sv w \<noteq> None"
      using u I(4) Some by (auto simp: R split: if_splits)
    show "map_of (reg_serving (registry_remove n v r)) m = Some w" if "tool_active u \<and> tool_serving u"
    proof -
      have "\<not> (m = n \<and> w = v)" using u that by (auto simp: R)
      moreover from this have "revision_at r m w = Some u" using u by (auto simp: R split: if_splits)
      from I(5) [OF this that] have "map_of (reg_serving r) m = Some w" .
      ultimately show ?thesis by (auto simp: R serving_of_def)
    qed
  next
    fix m w
    assume "map_of (reg_serving (registry_remove n v r)) m = Some w"
    then show "revision_at (registry_remove n v r) m w \<noteq> None"
      using I(6) [of m w] by (auto simp: R split: if_splits)
  qed (use registry_remove_wf [OF I(1-3)] in auto)
qed

lemma new_tool_registry_inv: "registry_inv sv new_tool_registry"
  by (simp add: registry_inv_def new_tool_registry_def revision_at_def versions_wf_def)


subsection \<open>What resolution returns\<close>

lemma best_match_member:
  "best_match sv c vs best = Some (v, t) \<Longrightarrow> best = Some (v, t) \<or>
     (\<exists>vStr. (vStr, t) \<in> set vs \<and> tool_active t \<and> sv_new sv vStr = Some v \<and> sv_check sv c v)"
proof (induction vs arbitrary: best)
  case (Cons p vs)
  obtain ws u where p: "p = (ws, u)" by (cases p)
  show ?case
  proof (cases "\<exists>w. tool_active u \<and> sv_new sv ws = Some w \<and> sv_check sv c w \<and>
      (case best of None \<Rightarrow> True | Some (b, _) \<Rightarrow> sv_greater sv w b)")
    case True
    then obtain w where w: "tool_active u" "sv_new sv ws = Some w" "sv_check sv c w"
        "case best of None \<Rightarrow> True | Some (b, _) \<Rightarrow> sv_greater sv w b" by blast
    then have "best_match sv c vs (Some (w, u)) = Some (v, t)" using Cons.prems p by simp
    from Cons.IH [OF this] w p show ?thesis by auto
  next
    case False
    then have "best_match sv c vs best = Some (v, t)"
      using Cons.prems p by (auto split: if_splits option.splits)
    from Cons.IH [OF this] show ?thesis by auto
  qed
qed simp

text \<open>\<open>GreaterThan\<close> is a strict order on versions.\<close>

definition semver_order :: "('v, 'c) semver \<Rightarrow> bool" where
  "semver_order sv \<longleftrightarrow> transp (sv_greater sv) \<and> irreflp (sv_greater sv)"

lemma best_match_max:
  assumes "semver_order sv" and "best_match sv c vs best = Some (v, t)"
  shows "(\<forall>b u. best = Some (b, u) \<longrightarrow> v = b \<or> sv_greater sv v b) \<and>
     (\<forall>ws u w. (ws, u) \<in> set vs \<longrightarrow> tool_active u \<longrightarrow> sv_new sv ws = Some w \<longrightarrow> sv_check sv c w \<longrightarrow>
        \<not> sv_greater sv w v)"
  using assms(2)
proof (induction vs arbitrary: best)
  case (Cons p vs)
  have tr: "sv_greater sv a b \<Longrightarrow> sv_greater sv b d \<Longrightarrow> sv_greater sv a d" for a b d
    using assms(1) by (auto simp: semver_order_def dest: transpD)
  have ir: "\<not> sv_greater sv a a" for a using assms(1) by (auto simp: semver_order_def irreflp_def)
  obtain ws u where p: "p = (ws, u)" by (cases p)
  define cand where "cand w \<longleftrightarrow> tool_active u \<and> sv_new sv ws = Some w \<and> sv_check sv c w" for w
  show ?case
  proof (cases "\<exists>w. cand w \<and> (case best of None \<Rightarrow> True | Some (b, _) \<Rightarrow> sv_greater sv w b)")
    case True
    then obtain w where w: "cand w" "case best of None \<Rightarrow> True | Some (b, _) \<Rightarrow> sv_greater sv w b" by blast
    then have "best_match sv c vs (Some (w, u)) = Some (v, t)" using Cons.prems p by (simp add: cand_def)
    note IH = Cons.IH [OF this]
    have "v = w \<or> sv_greater sv v w" using IH by blast
    then have "v = b \<or> sv_greater sv v b" if "best = Some (b, x)" for b x
      using w(2) that tr by auto
    moreover have "\<not> sv_greater sv w' v" if "cand w'" for w'
      using \<open>v = w \<or> sv_greater sv v w\<close> that w(1) tr ir by (auto simp: cand_def)
    ultimately show ?thesis using IH p by (auto simp: cand_def)
  next
    case False
    then have "best_match sv c vs best = Some (v, t)"
      using Cons.prems p by (auto simp: cand_def split: if_splits option.splits)
    note IH = Cons.IH [OF this]
    have "\<not> sv_greater sv w' v" if cw: "cand w'" for w'
    proof
      assume g: "sv_greater sv w' v"
      obtain b x where b: "best = Some (b, x)" "\<not> sv_greater sv w' b"
        using False cw by (cases best) auto
      with IH have "v = b \<or> sv_greater sv v b" by blast
      with g b(2) tr show False by blast
    qed
    then show ?thesis using IH p by (auto simp: cand_def)
  qed
qed simp

lemma resolve_active:
  assumes "resolve sv n c r = Inr t"
  shows "tool_active t \<and> (\<exists>v u. revision_at r n v = Some u \<and> t = clone_tool u) \<or> \<not> versions_wf (reg_tools r)"
proof -
  obtain vs where vs: "map_of (reg_tools r) n = Some vs"
    using assms by (auto simp: resolve_def split: option.splits)
  have mem: "map_of vs v = Some u" if "versions_wf (reg_tools r)" "(v, u) \<in> set vs" for v u
    using versions_wf_at [OF that(1) vs] that(2) by simp
  show ?thesis
  proof (cases "versions_wf (reg_tools r)")
    case True
    have at: "revision_at r n v = map_of vs v" for v using vs by (simp add: revision_at_def)
    consider u where "t = clone_tool u" "tool_active u" "map_of vs c = Some u"
      | u where "t = clone_tool u" "tool_active u" "map_of vs (serving_of r n) = Some u"
      | x v u where "best_match sv x vs None = Some (v, u)" "t = clone_tool u"
      using assms vs by (auto simp: resolve_def Let_def split: if_splits option.splits)
    then show ?thesis
    proof cases
      case 3
      from best_match_member [OF this(1)] obtain vStr where "(vStr, u) \<in> set vs" "tool_active u" by auto
      with mem [OF True] 3(2) at show ?thesis by fastforce
    qed (auto simp: at)
  qed simp
qed


subsection \<open>Sequences of registry operations\<close>

datatype registry_op =
    RAdd bool tool
  | RSetServing string string
  | RRemove string string

fun registry_step :: "('v, 'c) semver \<Rightarrow> registry_op \<Rightarrow> registry \<Rightarrow> registry" where
  "registry_step sv (RAdd dflt t) r = snd (registry_add sv dflt t r)"
| "registry_step sv (RSetServing n v) r = snd (set_serving n v r)"
| "registry_step sv (RRemove n v) r = registry_remove n v r"

definition registry_run :: "('v, 'c) semver \<Rightarrow> registry_op list \<Rightarrow> registry" where
  "registry_run sv ops = foldl (\<lambda>r op. registry_step sv op r) new_tool_registry ops"

lemma registry_set_serving_inv [component_inv]:
  assumes "registry_inv sv r" and "set_serving n v r = (res, r')"
  shows "registry_inv sv r'"
proof (cases res)
  case None
  note I = registry_invD [OF assms(1)]
  show ?thesis by (rule set_serving_inv [OF assms(2) [unfolded None] I(1-3)]) (use I(4-6) in blast)+
next
  case (Some e)
  with assms show ?thesis using set_serving_error by fastforce
qed

lemma registry_step_inv [component_inv]: "registry_inv sv r \<Longrightarrow> registry_inv sv (registry_step sv op r)"
  by (cases op)
    (simp_all add: registry_remove_inv registry_add_inv [OF _ surjective_pairing]
      registry_set_serving_inv [OF _ surjective_pairing])

lemma registry_run_inv: "registry_inv sv (registry_run sv ops)"
  unfolding registry_run_def
  by (rule foldl_invariant [where P = "registry_inv sv"])
    (simp_all add: new_tool_registry_inv registry_step_inv)

lemma resolve_serving:
  assumes "registry_inv sv r" and "revision_at r n v = Some t" and "tool_active t"
    and "map_of (reg_serving r) n = Some v" and "v \<noteq> []"
  shows "resolve sv n [] r = Inr (clone_tool t)"
  using assms(2-5) by (auto simp: resolve_def revision_at_def serving_of_def split: option.splits)

text \<open>
  C9: in every state the registry reaches, at most one active version of a tool carries
  the serving flag, and that version is what an unqualified call resolves to.
\<close>

theorem registry_single_serving:
  assumes "r = registry_run sv ops"
    and "revision_at r n v = Some t" and "tool_active t" and "tool_serving t" and "v \<noteq> []"
  shows "resolve sv n [] r = Inr (clone_tool t) \<and>
     (\<forall>w u. revision_at r n w = Some u \<and> tool_active u \<and> tool_serving u \<longrightarrow> w = v)"
proof -
  have inv: "registry_inv sv r" using assms(1) registry_run_inv by simp
  then have ptr: "map_of (reg_serving r) n = Some v" using registry_invD(5) [OF inv] assms(2-4) by blast
  show ?thesis using resolve_serving [OF inv assms(2,3) ptr assms(5)] registry_invD(5) [OF inv] ptr
    by (metis option.inject)
qed

definition any_semver :: "(string, string) semver" where
  "any_semver = \<lparr> sv_new = Some, sv_constraint = Some, sv_check = (\<lambda>c v. True), sv_greater = (\<lambda>a b. b < a),
     sv_prerelease = (\<lambda>v. []) \<rparr>"

theorem registry_single_serving_witness:
  "resolve any_semver ''t'' [] (registry_run any_semver [RAdd True (blank_tool ''t'' ''1''), RAdd True (blank_tool ''t'' ''2''),
      RSetServing ''t'' ''2'']) = Inr (set_serving_flag True (blank_tool ''t'' ''2''))"
proof -
  let ?r = "registry_run any_semver [RAdd True (blank_tool ''t'' ''1''), RAdd True (blank_tool ''t'' ''2''),
      RSetServing ''t'' ''2'']"
  have "revision_at ?r ''t'' ''2'' = Some (set_serving_flag True (blank_tool ''t'' ''2''))"
    by (simp add: registry_run_def registry_add_def any_semver_def new_tool_registry_def serving_of_def
        set_serving_def revision_at_def amap_put_def map_versions_def Let_def)
  from registry_single_serving [OF refl this] show ?thesis by simp
qed

text \<open>
  A version constraint resolves to an active stored version that satisfies it, and to
  the greatest such version, whatever the iteration order of the map. The version order of
  the semver library is assumed to be a strict order.
\<close>

theorem resolve_constraint_greatest:
  assumes "registry_inv sv r" and "semver_order sv"
    and "constr \<noteq> []" and "revision_at r n constr = None" and "sv_constraint sv constr = Some c"
    and "resolve sv n constr r = Inr t"
  shows "\<exists>s v u. revision_at r n s = Some u \<and> t = clone_tool u \<and> tool_active t \<and> sv_new sv s = Some v \<and>
     sv_check sv c v \<and>
     (\<forall>s' u' v'. revision_at r n s' = Some u' \<and> tool_active u' \<and> sv_new sv s' = Some v' \<and> sv_check sv c v'
        \<longrightarrow> \<not> sv_greater sv v' v)"
proof -
  obtain vs where vs: "map_of (reg_tools r) n = Some vs"
    using assms(6) by (auto simp: resolve_def split: option.splits)
  have at: "revision_at r n s = map_of vs s" for s using vs by (simp add: revision_at_def)
  have wf: "amap_wf vs" using versions_wf_at [OF registry_invD(3) [OF assms(1)] vs] .
  obtain v u where bm: "best_match sv c vs None = Some (v, u)" "t = clone_tool u"
    using assms(3-6) vs at by (auto simp: resolve_def split: option.splits)
  obtain s where s: "(s, u) \<in> set vs" "tool_active u" "sv_new sv s = Some v" "sv_check sv c v"
    using best_match_member [OF bm(1)] by auto
  have "\<not> sv_greater sv v' v" if "map_of vs s' = Some u'" "tool_active u'" "sv_new sv s' = Some v'"
      "sv_check sv c v'" for s' u' v'
    using best_match_max [OF assms(2) bm(1)] that map_of_SomeD by fast
  with s bm(2) wf show ?thesis unfolding at by (intro exI [of _ s] exI [of _ v] exI [of _ u]) auto
qed

lemma less_string_order: "transp (\<lambda>a b. (b::string) < a)" "irreflp (\<lambda>a b. (b::string) < a)"
  by (auto simp: transp_def irreflp_def)

theorem resolve_constraint_greatest_witness:
  "\<exists>t. resolve any_semver ''t'' ''*'' (registry_run any_semver [RAdd True (blank_tool ''t'' ''1''), RAdd True (blank_tool ''t'' ''2'')])
         = Inr t \<and> tool_version t = ''2'' \<and> tool_active t"
proof -
  let ?r = "registry_run any_semver [RAdd True (blank_tool ''t'' ''1''), RAdd True (blank_tool ''t'' ''2'')]"
  note defs = registry_run_def registry_add_def any_semver_def new_tool_registry_def serving_of_def
        set_serving_def revision_at_def amap_put_def map_versions_def Let_def
  have "\<exists>t. resolve any_semver ''t'' ''*'' ?r = Inr t \<and> tool_version t = ''2''"
    by (simp add: defs resolve_def)
  then obtain t where t: "resolve any_semver ''t'' ''*'' ?r = Inr t" "tool_version t = ''2''" by blast
  have "revision_at ?r ''t'' ''*'' = None" by (simp add: defs)
  moreover have "semver_order any_semver"
    using less_string_order by (simp add: semver_order_def any_semver_def)
  moreover have "sv_constraint any_semver ''*'' = Some ''*''" by (simp add: any_semver_def)
  ultimately show ?thesis
    using resolve_constraint_greatest [OF registry_run_inv _ _ _ _ t(1)] t by auto
qed

text \<open>
  A withdrawn revision is never resolved again. After \<open>Remove\<close> no call, exact, by
  constraint, unqualified or by digest, resolves to the removed version; other revisions
  keep resolving exactly as before when named exactly.
\<close>

theorem removed_revision_unresolvable:
  assumes "registry_inv sv r"
  shows "(\<forall>c t. resolve sv n c (registry_remove n v r) = Inr t \<longrightarrow> tool_version t \<noteq> v) \<and>
     (\<forall>d t. resolve_digest n d (registry_remove n v r) = Inr t \<longrightarrow> tool_version t \<noteq> v) \<and>
     (\<forall>w. w \<noteq> [] \<and> w \<noteq> v \<and> revision_at r n w \<noteq> None \<longrightarrow>
        resolve sv n w (registry_remove n v r) = resolve sv n w r)"
proof (intro conjI allI impI)
  let ?r = "registry_remove n v r"
  note inv' = registry_remove_inv [OF assms, of n v]
  have gone: "\<not> tool_active u" if "revision_at ?r n v = Some u" for u
    using that registry_remove_revision(1) [of r n v] registry_remove_absent [of r n v]
    by (cases "revision_at r n v") auto
  show "tool_version t \<noteq> v" if t: "resolve sv n c ?r = Inr t" for c t
  proof
    assume "tool_version t = v"
    moreover obtain w u where u: "tool_active t" "revision_at ?r n w = Some u" "t = clone_tool u"
      using resolve_active [OF t] registry_invD(3) [OF inv'] by blast
    ultimately have "w = v" using registry_invD(4) [OF inv' u(2)] by simp
    with gone u show False by simp
  qed
  show "tool_version t \<noteq> v" if t: "resolve_digest n d ?r = Inr t" for d t
  proof
    assume ver: "tool_version t = v"
    obtain vs p where vs: "map_of (reg_tools ?r) n = Some vs" "find (\<lambda>(v, t). tool_digest t = d) vs = Some p"
        "tool_active (snd p)" "t = clone_tool (snd p)"
      using t by (auto simp: resolve_digest_def split: option.splits if_splits)
    have "p \<in> set vs" using find_SomeD [OF vs(2)] by simp
    then have at: "revision_at ?r n (fst p) = Some (snd p)"
      using versions_wf_at [OF registry_invD(3) [OF inv'] vs(1)] vs(1) by (simp add: revision_at_def)
    have "fst p = v" using registry_invD(4) [OF inv' at] ver vs(4) by simp
    with gone at vs(3) show False by simp
  qed
  show "resolve sv n w ?r = resolve sv n w r" if "w \<noteq> [] \<and> w \<noteq> v \<and> revision_at r n w \<noteq> None" for w
  proof (cases "revision_at r n v")
    case None
    then show ?thesis by (simp add: registry_remove_absent)
  next
    case (Some t)
    have "revision_at ?r n w = revision_at r n w" using registry_remove_revision(1) [OF Some] that by auto
    then show ?thesis using that by (auto simp: resolve_def revision_at_def split: option.splits)
  qed
qed

theorem removed_revision_unresolvable_witness:
  "\<not> (\<exists>c t. resolve any_semver ''t'' c (registry_remove ''t'' ''1'' (registry_run any_semver [RAdd True (blank_tool ''t'' ''1'')]))
     = Inr t \<and> tool_version t = ''1'')"
  using removed_revision_unresolvable [OF registry_run_inv] by blast

text \<open>
  Resolving a reviewed digest never falls forward. It returns an active stored revision
  with exactly that digest, and when the revision with that digest is inactive it fails,
  even if other revisions of the tool are active or serving.
\<close>

theorem resolve_digest_exact:
  assumes "registry_inv sv r"
  shows "(\<forall>t. resolve_digest n d r = Inr t \<longrightarrow> tool_digest t = d \<and> tool_active t \<and>
            (\<exists>u. revision_at r n (tool_version t) = Some u \<and> t = clone_tool u)) \<and>
     ((\<forall>w u. revision_at r n w = Some u \<and> tool_digest u = d \<longrightarrow> \<not> tool_active u) \<longrightarrow>
        (\<exists>e. resolve_digest n d r = Inl e))"
proof -
  have main: "tool_digest t = d \<and> tool_active t \<and> (\<exists>u. revision_at r n (tool_version t) = Some u \<and> t = clone_tool u)"
    if t: "resolve_digest n d r = Inr t" for t
  proof -
    obtain vs p where vs: "map_of (reg_tools r) n = Some vs" "find (\<lambda>(v, t). tool_digest t = d) vs = Some p"
        "tool_active (snd p)" "t = clone_tool (snd p)"
      using t by (auto simp: resolve_digest_def split: option.splits if_splits)
    have p: "p \<in> set vs" "tool_digest (snd p) = d" using find_SomeD [OF vs(2)] by (auto split: prod.splits)
    then have at: "revision_at r n (fst p) = Some (snd p)"
      using versions_wf_at [OF registry_invD(3) [OF assms] vs(1)] vs(1) by (simp add: revision_at_def)
    have "tool_version t = fst p" using registry_invD(4) [OF assms at] vs(4) by simp
    with at p vs show ?thesis by auto
  qed
  show ?thesis
  proof (intro conjI allI impI)
    fix t assume t: "resolve_digest n d r = Inr t"
    from main [OF t] show "tool_digest t = d" "tool_active t"
      "\<exists>u. revision_at r n (tool_version t) = Some u \<and> t = clone_tool u" by auto
  next
    assume none: "\<forall>w u. revision_at r n w = Some u \<and> tool_digest u = d \<longrightarrow> \<not> tool_active u"
    show "\<exists>e. resolve_digest n d r = Inl e"
    proof (cases "resolve_digest n d r")
      case (Inr t)
      with main [OF Inr] none show ?thesis by auto
    qed simp
  qed
qed

theorem resolve_digest_exact_witness:
  "\<exists>e. resolve_digest ''t'' ''d'' (registry_run any_semver [RAdd True (blank_tool ''t'' ''1'')]) = Inl e"
proof -
  let ?r = "registry_run any_semver [RAdd True (blank_tool ''t'' ''1'')]"
  have "\<not> tool_active u" if "revision_at ?r ''t'' w = Some u" "tool_digest u = ''d''" for w u
    using that by (auto simp: registry_run_def registry_add_def any_semver_def new_tool_registry_def serving_of_def
        set_serving_def revision_at_def amap_put_def map_versions_def Let_def split: if_splits)
  with resolve_digest_exact [OF registry_run_inv] show ?thesis by blast
qed

text \<open>
  Registering the serving revision again without its flag keeps the pointer but clears the
  flag that discovery shows: the tool resolves as serving while it is listed as not serving.
\<close>

lemma reregistration_clears_flag:
  assumes "registry_inv sv r" and "sv_new sv (tool_version t) \<noteq> None" and "tool_active t" and "\<not> tool_serving t"
    and "tool_version t \<noteq> []" and "map_of (reg_serving r) (tool_name t) = Some (tool_version t)"
  shows "resolve sv (tool_name t) [] (snd (registry_add sv True t r)) = Inr (clone_tool t) \<and>
         \<not> tool_serving (clone_tool t)"
proof -
  have ne: "serving_of r (tool_name t) = tool_version t" using assms(6) by (simp add: serving_of_def)
  have "registry_add sv True t r = (None, put_revision t r)"
    using ne assms(4,5) by (simp add: registry_add_put [OF assms(2)])
  moreover have "resolve sv (tool_name t) [] (put_revision t r) = Inr (clone_tool (clone_tool t))"
    by (rule resolve_serving [OF put_revision_inv [OF assms(1,2,4)], of _ "tool_version t"])
      (use assms in \<open>simp_all add: revision_at_put\<close>)
  ultimately show ?thesis using assms(4) by simp
qed

end
