(* ===== verification/Url.thy ===== *)
theory Url
  imports Json
begin

text \<open>
  net/url and the parts of package net the source uses: \<open>url.Parse\<close>,
  \<open>URL.String\<close>, \<open>Hostname\<close>, \<open>Port\<close>, \<open>url.PathEscape\<close>,
  \<open>net.ParseIP\<close> and \<open>IsLoopback\<close>, transcribed from the standard library. Every
  parse error is \<^const>\<open>None\<close>: no caller looks at which one it was.
\<close>

record url =
  u_scheme :: string
  u_opaque :: string
  u_user :: "string option"
  u_host :: string
  u_path :: string
  u_raw_path :: string
  u_omit_host :: bool
  u_force_query :: bool
  u_raw_query :: string
  u_fragment :: string

subsection \<open>Percent encoding\<close>

datatype url_mode = EncodeHost | EncodeZone | EncodePath | EncodePathSegment | EncodeFragment

definition is_hex :: "char \<Rightarrow> bool" where
  "is_hex c = (let n = (of_char c :: nat) in
     (48 \<le> n \<and> n \<le> 57) \<or> (97 \<le> n \<and> n \<le> 102) \<or> (65 \<le> n \<and> n \<le> 70))"

definition unhex :: "char \<Rightarrow> nat" where
  "unhex c = (let n = (of_char c :: nat) in
     if 48 \<le> n \<and> n \<le> 57 then n - 48 else if 97 \<le> n then n - 87 else n - 55)"

definition upper_hex :: "nat \<Rightarrow> char" where
  "upper_hex n = (if n < 10 then char_of (48 + n) else char_of (55 + n))"

definition should_escape :: "url_mode \<Rightarrow> char \<Rightarrow> bool" where
  "should_escape mode c =
     (if is_letter c \<or> is_digit c then False
      else if mode \<in> {EncodeHost, EncodeZone} \<and> c \<in> set ''!$&()*+,;=:[]<>'' \<union> {CHR 0x27, CHR 0x22} then False
      else if c \<in> set ''-_.~'' then False
      else if c \<in> set ''$&+,/:;=?@'' then
        (case mode of EncodePath \<Rightarrow> c = CHR ''?''
         | EncodePathSegment \<Rightarrow> c \<in> set ''/;,?''
         | EncodeFragment \<Rightarrow> False
         | _ \<Rightarrow> True)
      else if mode = EncodeFragment \<and> c \<in> set ''!()*'' then False
      else True)"

fun url_unescape :: "url_mode \<Rightarrow> string \<Rightarrow> string option" where
  "url_unescape mode [] = Some []"
| "url_unescape mode (c # s) =
     (if c = CHR ''%'' then
        (case s of
           a # b # r \<Rightarrow>
             if \<not> (is_hex a \<and> is_hex b) then None
             else if mode = EncodeHost \<and> unhex a < 8 \<and> \<not> (a = CHR ''2'' \<and> b = CHR ''5'') then None
             else if mode = EncodeZone \<and> \<not> (a = CHR ''2'' \<and> b = CHR ''5'') \<and>
                     char_of (16 * unhex a + unhex b) \<noteq> CHR '' '' \<and>
                     should_escape EncodeHost (char_of (16 * unhex a + unhex b)) then None
             else map_option ((#) (char_of (16 * unhex a + unhex b))) (url_unescape mode r)
         | _ \<Rightarrow> None)
      else if mode \<in> {EncodeHost, EncodeZone} \<and> (of_char c :: nat) < 128 \<and> should_escape mode c then None
      else map_option ((#) c) (url_unescape mode s))"

definition url_escape :: "url_mode \<Rightarrow> string \<Rightarrow> string" where
  "url_escape mode s = concat (map (\<lambda>c. if should_escape mode c
     then [CHR ''%'', upper_hex (of_char c div 16), upper_hex (of_char c mod 16)] else [c]) s)"

definition path_escape :: "string \<Rightarrow> string" where
  "path_escape s = url_escape EncodePathSegment s"

subsection \<open>Parsing\<close>

fun get_scheme_from :: "bool \<Rightarrow> string \<Rightarrow> string \<Rightarrow> string \<Rightarrow> (string \<times> string) option" where
  "get_scheme_from first whole acc [] = Some ([], whole)"
| "get_scheme_from first whole acc (c # s) =
     (if is_letter c then get_scheme_from False whole (acc @ [c]) s
      else if is_digit c \<or> c \<in> set ''+-.'' then
        (if first then Some ([], whole) else get_scheme_from False whole (acc @ [c]) s)
      else if c = CHR '':'' then (if first then None else Some (acc, s))
      else Some ([], whole))"

definition get_scheme :: "string \<Rightarrow> (string \<times> string) option" where
  "get_scheme raw = get_scheme_from True raw [] raw"

text \<open>\<open>strings.LastIndex\<close> at a byte: what precedes and what follows it.\<close>

definition cut_last :: "char \<Rightarrow> string \<Rightarrow> (string \<times> string) option" where
  "cut_last c s = (case str_cut c (rev s) of None \<Rightarrow> None | Some (after, before) \<Rightarrow> Some (rev before, rev after))"

definition valid_optional_port :: "string \<Rightarrow> bool" where
  "valid_optional_port port = (case port of
       [] \<Rightarrow> True
     | c # ds \<Rightarrow> c = CHR '':'' \<and> list_all is_digit ds)"

text \<open>The zone of a bracketed IPv6 address starts at an escaped percent sign.\<close>

fun cut_zone :: "string \<Rightarrow> (string \<times> string) option" where
  "cut_zone [] = None"
| "cut_zone (c # s) = (if has_prefix (c # s) ''%25'' then Some ([], c # s)
     else map_option (\<lambda>(a, b). (c # a, b)) (cut_zone s))"

definition parse_host :: "string \<Rightarrow> string option" where
  "parse_host host =
     (if has_prefix host ''['' then
        (case cut_last (CHR '']'') host of
           None \<Rightarrow> None
         | Some (inside, colonPort) \<Rightarrow>
             if \<not> valid_optional_port colonPort then None
             else (case cut_zone inside of
                 Some (h1, z) \<Rightarrow>
                   (case (url_unescape EncodeHost h1, url_unescape EncodeZone z,
                          url_unescape EncodeHost (CHR '']'' # colonPort)) of
                      (Some a, Some b, Some d) \<Rightarrow> Some (a @ b @ d)
                    | _ \<Rightarrow> None)
               | None \<Rightarrow> url_unescape EncodeHost host))
      else (case cut_last (CHR '':'') host of
          Some (_, port) \<Rightarrow>
            if \<not> valid_optional_port (CHR '':'' # port) then None else url_unescape EncodeHost host
        | None \<Rightarrow> url_unescape EncodeHost host))"

definition valid_userinfo :: "string \<Rightarrow> bool" where
  "valid_userinfo s = list_all (\<lambda>c. is_letter c \<or> is_digit c \<or>
     c \<in> set ''-._:~!$&()*+,;=%@'' \<or> c = CHR 0x27) s"

definition parse_authority :: "string \<Rightarrow> (string option \<times> string) option" where
  "parse_authority authority = (case cut_last (CHR ''@'') authority of
       None \<Rightarrow> map_option (\<lambda>h. (None, h)) (parse_host authority)
     | Some (userinfo, host) \<Rightarrow> (case parse_host host of
           None \<Rightarrow> None
         | Some h \<Rightarrow> if \<not> valid_userinfo userinfo \<or> url_unescape EncodePath userinfo = None then None
                     else Some (Some userinfo, h)))"

definition has_ctl_byte :: "string \<Rightarrow> bool" where
  "has_ctl_byte s = list_ex (\<lambda>c. (of_char c :: nat) < 32 \<or> (of_char c :: nat) = 127) s"

definition empty_url :: url where
  "empty_url = \<lparr> u_scheme = [], u_opaque = [], u_user = None, u_host = [], u_path = [], u_raw_path = [],
     u_omit_host = False, u_force_query = False, u_raw_query = [], u_fragment = [] \<rparr>"

definition set_path :: "string \<Rightarrow> url \<Rightarrow> url option" where
  "set_path p u = (case url_unescape EncodePath p of
       None \<Rightarrow> None
     | Some path \<Rightarrow> Some (u\<lparr> u_path := path, u_raw_path := (if url_escape EncodePath path = p then [] else p) \<rparr>))"

definition url_parse_body :: "string \<Rightarrow> url option" where
  "url_parse_body raw =
     (if has_ctl_byte raw then None
      else if raw = ''*'' then Some (empty_url\<lparr> u_path := ''*'' \<rparr>)
      else case get_scheme raw of
        None \<Rightarrow> None
      | Some (scheme0, rest0) \<Rightarrow>
          let scheme = to_lower scheme0;
              force = has_suffix rest0 ''?'' \<and> length (filter (\<lambda>c. c = CHR ''?'') rest0) = 1;
              (rest, query) = (if force then (butlast rest0, [])
                               else case str_cut (CHR ''?'') rest0 of
                                      None \<Rightarrow> (rest0, []) | Some (a, b) \<Rightarrow> (a, b));
              u = empty_url\<lparr> u_scheme := scheme, u_force_query := force, u_raw_query := query \<rparr>
          in if \<not> has_prefix rest ''/'' \<and> scheme \<noteq> [] then Some (u\<lparr> u_opaque := rest \<rparr>)
             else if \<not> has_prefix rest ''/'' \<and> CHR '':'' \<in> set (takeWhile (\<lambda>c. c \<noteq> CHR ''/'') rest) then None
             else if (scheme \<noteq> [] \<or> \<not> has_prefix rest ''///'') \<and> has_prefix rest ''//'' then
               let authority = takeWhile (\<lambda>c. c \<noteq> CHR ''/'') (drop 2 rest);
                   path = dropWhile (\<lambda>c. c \<noteq> CHR ''/'') (drop 2 rest)
               in (case parse_authority authority of
                     None \<Rightarrow> None
                   | Some (user, host) \<Rightarrow> set_path path (u\<lparr> u_user := user, u_host := host \<rparr>))
             else set_path rest (u\<lparr> u_omit_host := (scheme \<noteq> [] \<and> has_prefix rest ''/'') \<rparr>))"

definition url_parse :: "string \<Rightarrow> url option" where
  "url_parse raw = (case str_cut (CHR ''#'') raw of
       None \<Rightarrow> url_parse_body raw
     | Some (body, frag) \<Rightarrow> (case (url_parse_body body, url_unescape EncodeFragment frag) of
           (Some u, Some f) \<Rightarrow> Some (u\<lparr> u_fragment := f \<rparr>)
         | _ \<Rightarrow> None))"

definition url_is_abs :: "url \<Rightarrow> bool" where "url_is_abs u \<longleftrightarrow> u_scheme u \<noteq> []"

subsection \<open>Hosts, ports and the URL text\<close>

text \<open>\<open>splitHostPort\<close>: a port is split off only when it is valid; brackets go.\<close>

definition split_host_port :: "string \<Rightarrow> string \<times> string" where
  "split_host_port hostPort =
     (let (host, port) = (case cut_last (CHR '':'') hostPort of
            Some (h, p) \<Rightarrow> if valid_optional_port (CHR '':'' # p) then (h, p) else (hostPort, [])
          | None \<Rightarrow> (hostPort, []))
      in (if has_prefix host ''['' \<and> has_suffix host '']'' then butlast (tl host) else host, port))"

definition url_hostname :: "url \<Rightarrow> string" where "url_hostname u = fst (split_host_port (u_host u))"
definition url_port :: "url \<Rightarrow> string" where "url_port u = snd (split_host_port (u_host u))"

definition valid_encoded_path :: "string \<Rightarrow> bool" where
  "valid_encoded_path s = list_all (\<lambda>c. c \<in> set ''!$&()*+,;=:@[]%'' \<or> c = CHR 0x27 \<or> \<not> should_escape EncodePath c) s"

definition escaped_path :: "url \<Rightarrow> string" where
  "escaped_path u =
     (if u_raw_path u \<noteq> [] \<and> valid_encoded_path (u_raw_path u) \<and>
         url_unescape EncodePath (u_raw_path u) = Some (u_path u) then u_raw_path u
      else if u_path u = ''*'' then ''*'' else url_escape EncodePath (u_path u))"

definition url_string :: "url \<Rightarrow> string" where
  "url_string u =
     (let scheme = (if u_scheme u \<noteq> [] then u_scheme u @ '':'' else []);
          rest = (if u_opaque u \<noteq> [] then u_opaque u
            else
              let auth = (if (u_scheme u \<noteq> [] \<or> u_host u \<noteq> [] \<or> u_user u \<noteq> None) \<and>
                             \<not> (u_omit_host u \<and> u_host u = [] \<and> u_user u = None)
                          then (if u_host u \<noteq> [] \<or> u_path u \<noteq> [] \<or> u_user u \<noteq> None then ''//'' else []) @
                               (case u_user u of None \<Rightarrow> [] | Some ui \<Rightarrow> ui @ ''@'') @
                               url_escape EncodeHost (u_host u)
                          else []);
                  path = escaped_path u
              in auth @ (if path \<noteq> [] \<and> \<not> has_prefix path ''/'' \<and> u_host u \<noteq> [] then ''/'' else []) @
                 (if scheme @ auth = [] \<and> CHR '':'' \<in> set (takeWhile (\<lambda>c. c \<noteq> CHR ''/'') path) then ''./'' else []) @
                 path);
          query = (if u_force_query u \<or> u_raw_query u \<noteq> [] then ''?'' @ u_raw_query u else []);
          fragment = (if u_fragment u \<noteq> [] then ''#'' @ url_escape EncodeFragment (u_fragment u) else [])
      in scheme @ rest @ query @ fragment)"

subsection \<open>IP addresses\<close>

text \<open>
  \<open>net.ParseIP\<close> on the dotted form: four decimal parts of at most three digits, each
  at most 255 and without a leading zero.
\<close>

definition parse_octet :: "string \<Rightarrow> nat option" where
  "parse_octet s =
     (if s = [] \<or> length s > 3 \<or> \<not> list_all is_digit s \<or> (length s > 1 \<and> hd s = CHR ''0'') then None
      else let n = nat (digits_value s) in if n \<le> 255 then Some n else None)"

definition parse_ipv4 :: "string \<Rightarrow> (nat \<times> nat \<times> nat \<times> nat) option" where
  "parse_ipv4 s = (case map parse_octet (split_at_char (CHR ''.'') s) of
       [Some a, Some b, Some c, Some d] \<Rightarrow> Some (a, b, c, d)
     | _ \<Rightarrow> None)"

definition parse_hextet :: "string \<Rightarrow> nat option" where
  "parse_hextet s =
     (if s = [] \<or> length s > 4 \<or> \<not> list_all is_hex s then None
      else Some (foldl (\<lambda>n c. 16 * n + unhex c) 0 s))"

text \<open>
  The colon form: 16-bit groups, at most one double colon standing for at least one zero
  group, and a dotted form as the last two groups.
\<close>

fun ipv6_groups :: "string list \<Rightarrow> nat list option" where
  "ipv6_groups [] = Some []"
| "ipv6_groups [g] = (case parse_ipv4 g of
       Some (a, b, c, d) \<Rightarrow> Some [256 * a + b, 256 * c + d]
     | None \<Rightarrow> map_option (\<lambda>n. [n]) (parse_hextet g))"
| "ipv6_groups (g # h # gs) = (case parse_hextet g of
       None \<Rightarrow> None
     | Some n \<Rightarrow> map_option ((#) n) (ipv6_groups (h # gs)))"

fun cut_double_colon :: "string \<Rightarrow> (string \<times> string) option" where
  "cut_double_colon [] = None"
| "cut_double_colon [c] = None"
| "cut_double_colon (c # d # s) =
     (if c = CHR '':'' \<and> d = CHR '':'' then Some ([], s)
      else map_option (\<lambda>(a, b). (c # a, b)) (cut_double_colon (d # s)))"

definition colon_groups :: "string \<Rightarrow> nat list option" where
  "colon_groups s = (if s = [] then Some [] else ipv6_groups (split_at_char (CHR '':'') s))"

definition parse_ipv6 :: "string \<Rightarrow> nat list option" where
  "parse_ipv6 s = (case cut_double_colon s of
       None \<Rightarrow> (case colon_groups s of Some gs \<Rightarrow> if length gs = 8 then Some gs else None | None \<Rightarrow> None)
     | Some (a, b) \<Rightarrow> (case (colon_groups a, colon_groups b) of
           (Some xs, Some ys) \<Rightarrow>
             if CHR ''.'' \<notin> set a \<and> length xs + length ys < 8
             then Some (xs @ replicate (8 - length xs - length ys) 0 @ ys) else None
         | _ \<Rightarrow> None))"

text \<open>\<open>ip != nil && ip.IsLoopback()\<close>: 127.0.0.0/8, also mapped into IPv6, and ::1.\<close>

definition ip_is_loopback :: "string \<Rightarrow> bool" where
  "ip_is_loopback s = (case parse_ipv4 s of
       Some (a, _) \<Rightarrow> a = 127
     | None \<Rightarrow> (case parse_ipv6 s of
           None \<Rightarrow> False
         | Some gs \<Rightarrow> gs = [0, 0, 0, 0, 0, 0, 0, 1] \<or>
             (take 6 gs = [0, 0, 0, 0, 0, 65535] \<and> gs ! 6 div 256 = 127)))"

end
