(* ===== verification/Plugin_Types.thy ===== *)
theory Plugin_Types
  imports Registry Url
begin

text \<open>
  internal/mcp/plugin.go and internal/credentials/credentials.go: plugin and binding
  resources, the invocation a plugin receives, their validation, and credential
  references with their resolution.
\<close>

subsection \<open>Credentials\<close>

definition validate_credential_source :: "string \<Rightarrow> bool" where
  "validate_credential_source source \<longleftrightarrow> source = [] \<or> source = ''env'' \<or> source = ''file''"

definition is_file_backed :: "string \<Rightarrow> bool" where
  "is_file_backed source \<longleftrightarrow> source = ''file''"

text \<open>The pattern \<open>^[A-Za-z_][A-Za-z0-9_]*$\<close>.\<close>

definition validate_reference :: "string \<Rightarrow> bool" where
  "validate_reference ref = (case ref of
       [] \<Rightarrow> False
     | c # cs \<Rightarrow> (is_letter c \<or> c = CHR ''_'') \<and> list_all (\<lambda>c. is_letter c \<or> is_digit c \<or> c = CHR ''_'') cs)"

text \<open>
  What resolution reads: the environment, and files below the configured directory. A file
  read is one of the outcomes the code distinguishes; a successful one yields its bytes.
\<close>

datatype file_outcome = FileMissing | FileNotRegular | FileReadError | FileBytes string

record credential_env =
  env_lookup :: "string \<Rightarrow> string option"
  env_file :: "string \<Rightarrow> file_outcome"

datatype credential_error =
    CredInvalidSource
  | CredMissingReference
  | CredInvalidReference string
  | CredNotConfigured string
  | CredDirectoryMissing
  | CredFileUnavailable
  | CredFileNotRegular
  | CredFileUnreadable
  | CredFileEmpty
  | CredFileOversized
  | CredFileInvalidContent

text \<open>\<open>utf8.Valid\<close>: the byte sequences of the Unicode standard, table 3-7.\<close>

definition in_range :: "nat \<Rightarrow> nat \<Rightarrow> char \<Rightarrow> bool" where
  "in_range lo hi c \<longleftrightarrow> lo \<le> of_char c \<and> of_char c \<le> hi"

definition cont_byte :: "char \<Rightarrow> bool" where "cont_byte c = in_range 128 191 c"

fun utf8_runes :: "string \<Rightarrow> nat list option" where
  "utf8_runes [] = Some []"
| "utf8_runes (a # s) =
     (if in_range 0 127 a then map_option ((#) (of_char a)) (utf8_runes s)
      else if in_range 194 223 a then
        (case s of b # r \<Rightarrow>
           if cont_byte b then map_option ((#) ((of_char a - 192) * 64 + (of_char b - 128))) (utf8_runes r) else None
         | _ \<Rightarrow> None)
      else if in_range 224 239 a then
        (case s of b # c # r \<Rightarrow>
           if in_range (if of_char a = (224::nat) then 160 else 128) (if of_char a = (237::nat) then 159 else 191) b \<and> cont_byte c
           then map_option ((#) ((of_char a - 224) * 4096 + (of_char b - 128) * 64 + (of_char c - 128))) (utf8_runes r)
           else None
         | _ \<Rightarrow> None)
      else if in_range 240 244 a then
        (case s of b # c # d # r \<Rightarrow>
           if in_range (if of_char a = (240::nat) then 144 else 128) (if of_char a = (244::nat) then 143 else 191) b \<and>
              cont_byte c \<and> cont_byte d
           then map_option ((#) ((of_char a - 240) * 262144 + (of_char b - 128) * 4096 +
                  (of_char c - 128) * 64 + (of_char d - 128))) (utf8_runes r)
           else None
         | _ \<Rightarrow> None)
      else None)"

text \<open>\<open>unicode.IsControl\<close>: C0, DEL and C1.\<close>

definition is_control_rune :: "nat \<Rightarrow> bool" where
  "is_control_rune n \<longleftrightarrow> n < 32 \<or> (127 \<le> n \<and> n < 160)"

definition max_credential_file_bytes :: nat where "max_credential_file_bytes = 65536"

definition credentials_dir_env :: string where "credentials_dir_env = ''ERPBRIDGE_CREDENTIALS_DIR''"

definition resolve_credential ::
  "credential_env \<Rightarrow> string \<Rightarrow> string list \<Rightarrow> credential_error + string" where
  "resolve_credential env ref sources =
     (if length sources > 1 then Inl CredInvalidSource
      else
        let source = (case sources of s # _ \<Rightarrow> if s \<noteq> [] then s else ''env'' | [] \<Rightarrow> ''env'')
        in if \<not> validate_credential_source source then Inl CredInvalidSource
        else if ref = [] then (if is_file_backed source then Inl CredMissingReference else Inr [])
        else if \<not> validate_reference ref then Inl (CredInvalidReference ref)
        else if \<not> is_file_backed source then
          (case env_lookup env ref of
             None \<Rightarrow> Inl (CredNotConfigured ref)
           | Some value \<Rightarrow> if value = [] then Inl (CredNotConfigured ref) else Inr value)
        else (case env_lookup env credentials_dir_env of
            None \<Rightarrow> Inl CredDirectoryMissing
          | Some dir \<Rightarrow>
              if dir = [] then Inl CredDirectoryMissing
              else (case env_file env (dir @ ''/'' @ ref) of
                  FileMissing \<Rightarrow> Inl CredFileUnavailable
                | FileNotRegular \<Rightarrow> Inl CredFileNotRegular
                | FileReadError \<Rightarrow> Inl CredFileUnreadable
                | FileBytes content \<Rightarrow>
                    let value = take (max_credential_file_bytes + 1) content in
                    if value = [] then Inl CredFileEmpty
                    else if length value > max_credential_file_bytes then Inl CredFileOversized
                    else (case utf8_runes value of
                        None \<Rightarrow> Inl CredFileInvalidContent
                      | Some runes \<Rightarrow>
                          if list_ex is_control_rune runes then Inl CredFileInvalidContent
                          else Inr value))))"

definition credential_configured :: "credential_env \<Rightarrow> string \<Rightarrow> string \<Rightarrow> bool" where
  "credential_configured env ref source =
     (if ref = [] then True
      else if \<not> validate_credential_source source then False
      else if is_file_backed source then
        (case env_lookup env credentials_dir_env of None \<Rightarrow> False | Some dir \<Rightarrow> dir \<noteq> [])
      else (case env_lookup env ref of None \<Rightarrow> False | Some value \<Rightarrow> value \<noteq> []))"

subsection \<open>Resources\<close>

record plugin_metadata =
  pm_name :: string
  pm_version :: string
  pm_type :: string
  pm_is_active :: bool

record plugin_auth =
  pa_type :: string
  pa_credential_ref :: string
  pa_credential_source :: string
  pa_header :: string

record plugin_spec =
  ps_endpoint :: string
  ps_timeout_milliseconds :: int
  ps_auth :: "plugin_auth option"

record plugin =
  pl_api_version :: string
  pl_kind :: string
  pl_metadata :: plugin_metadata
  pl_spec :: plugin_spec

record resource_ref =
  rf_name :: string
  rf_version :: string

record plugin_binding_metadata =
  bm_name :: string
  bm_is_active :: bool

record plugin_binding_spec =
  bs_plugin_ref :: resource_ref
  bs_tool_ref :: resource_ref
  bs_phase :: string
  bs_priority :: int
  bs_failure_policy :: string
  bs_config :: jargs

record plugin_binding =
  pb_api_version :: string
  pb_kind :: string
  pb_metadata :: plugin_binding_metadata
  pb_spec :: plugin_binding_spec

record plugin_raw_body =
  rb_encoding :: string
  rb_value :: jval

record plugin_raw_response =
  rr_status :: int
  rr_content_type :: string
  rr_body :: plugin_raw_body

record plugin_invocation =
  pi_protocol_version :: string
  pi_invocation_id :: string
  pi_tool :: resource_ref
  pi_result :: jval
  pi_raw_response :: "plugin_raw_response option"
  pi_config :: jargs

subsection \<open>Validation\<close>

definition canonicalize_type :: "plugin \<Rightarrow> plugin" where
  "canonicalize_type p =
     (if pm_type (pl_metadata p) = []
      then p\<lparr> pl_metadata := (pl_metadata p)\<lparr> pm_type := ''api'' \<rparr> \<rparr> else p)"

definition valid_plugin_credential_ref :: "string \<Rightarrow> bool" where
  "valid_plugin_credential_ref ref \<longleftrightarrow>
     has_prefix ref ''PLUGIN_'' \<and> length ref \<noteq> 7 \<and>
     list_all (\<lambda>(i, c). is_upper c \<or> c = CHR ''_'' \<or> (i > 0 \<and> is_digit c)) (zip [0..<length ref] ref)"

definition reserved_plugin_auth_headers :: "string list" where
  "reserved_plugin_auth_headers = [''accept'', ''authorization'', ''connection'', ''content-type'', ''cookie'',
     ''host'', ''keep-alive'', ''proxy-authenticate'', ''proxy-authorization'', ''proxy-connection'', ''te'',
     ''trailer'', ''transfer-encoding'', ''upgrade'']"

definition is_header_token :: "char \<Rightarrow> bool" where
  "is_header_token c \<longleftrightarrow> is_letter c \<or> is_digit c \<or> c \<in> set ''!#$%&*+-.^_|~'' \<or> c \<in> {CHR 0x27, CHR 0x60}"

definition valid_plugin_auth_header :: "string \<Rightarrow> bool" where
  "valid_plugin_auth_header header \<longleftrightarrow>
     header \<noteq> [] \<and> to_lower header \<notin> set reserved_plugin_auth_headers \<and> list_all is_header_token header"

definition plugin_auth_validate :: "plugin_auth option \<Rightarrow> string + unit" where
  "plugin_auth_validate auth = (case auth of None \<Rightarrow> Inr () | Some a \<Rightarrow>
     if \<not> validate_credential_source (pa_credential_source a) then Inl ''spec.auth.credentialSource: invalid credential source''
     else if pa_credential_source a = ''file'' \<and> pa_credential_ref a = []
       then Inl ''spec.auth.credentialRef is required for file credentials''
     else if pa_type a \<noteq> ''bearer'' \<and> pa_type a \<noteq> ''api-key'' then Inl ''spec.auth.type must be bearer or api-key''
     else if \<not> valid_plugin_credential_ref (pa_credential_ref a)
       then Inl ''spec.auth.credentialRef must be a PLUGIN_ logical reference''
     else if pa_type a = ''bearer'' \<and> pa_header a \<noteq> [] then Inl ''spec.auth.header is only supported for api-key authentication''
     else if pa_type a = ''api-key'' \<and> pa_header a \<noteq> [] \<and> \<not> valid_plugin_auth_header (pa_header a)
       then Inl ''spec.auth.header is not a permitted HTTP header''
     else Inr ())"

definition validate_plugin_endpoint :: "url \<Rightarrow> string + unit" where
  "validate_plugin_endpoint u =
     (if u_scheme u = [] \<or> u_host u = [] then Inl ''must be an absolute http or https URL''
      else if u_scheme u \<noteq> ''http'' \<and> u_scheme u \<noteq> ''https'' then Inl ''must use http or https''
      else if u_user u \<noteq> None then Inl ''userinfo is not allowed''
      else if u_raw_query u \<noteq> [] then Inl ''query parameters are not allowed''
      else if u_fragment u \<noteq> [] then Inl ''fragments are not allowed''
      else Inr ())"

definition plugin_max_timeout_milliseconds :: int where "plugin_max_timeout_milliseconds = 5 * 60 * 1000"

text \<open>Validation canonicalizes the type in place, so it returns the plugin as well.\<close>

definition plugin_validate :: "('v, 'c) semver \<Rightarrow> plugin \<Rightarrow> (string + unit) \<times> plugin" where
  "plugin_validate sv p =
     (if pl_api_version p \<noteq> ''erpbridge.io/v1'' then (Inl ''apiVersion must be erpbridge.io/v1'', p)
      else if pl_kind p \<noteq> ''Plugin'' then (Inl ''kind must be Plugin'', p)
      else if trim_space (pm_name (pl_metadata p)) = [] then (Inl ''metadata.name is required'', p)
      else if trim_space (pm_version (pl_metadata p)) = [] then (Inl ''metadata.version is required'', p)
      else let p = canonicalize_type p in
        if pm_type (pl_metadata p) \<noteq> ''api'' \<and> pm_type (pl_metadata p) \<noteq> ''docker''
          then (Inl ''metadata.type must be api or docker'', p)
        else if sv_new sv (pm_version (pl_metadata p)) = None then (Inl ''metadata.version must be a valid semver version'', p)
        else if ps_timeout_milliseconds (pl_spec p) \<le> 0 \<or>
                ps_timeout_milliseconds (pl_spec p) > plugin_max_timeout_milliseconds
          then (Inl ''spec.timeoutMilliseconds must be between 1 and 300000'', p)
        else (case url_parse (trim_space (ps_endpoint (pl_spec p))) of
            None \<Rightarrow> (Inl ''spec.endpoint is invalid'', p)
          | Some u \<Rightarrow> (case validate_plugin_endpoint u of
                Inl e \<Rightarrow> (Inl (''spec.endpoint: '' @ e), p)
              | Inr _ \<Rightarrow> (plugin_auth_validate (ps_auth (pl_spec p)), p))))"

definition plugin_binding_validate :: "('v, 'c) semver \<Rightarrow> plugin_binding \<Rightarrow> string + unit" where
  "plugin_binding_validate sv b =
     (let spec = pb_spec b in
      if pb_api_version b \<noteq> ''erpbridge.io/v1'' then Inl ''apiVersion must be erpbridge.io/v1''
      else if pb_kind b \<noteq> ''PluginBinding'' then Inl ''kind must be PluginBinding''
      else if trim_space (bm_name (pb_metadata b)) = [] then Inl ''metadata.name is required''
      else if trim_space (rf_name (bs_plugin_ref spec)) = [] then Inl ''spec.pluginRef.name is required''
      else if trim_space (rf_version (bs_plugin_ref spec)) = [] then Inl ''spec.pluginRef.version is required''
      else if sv_new sv (rf_version (bs_plugin_ref spec)) = None
        then Inl ''spec.pluginRef.version must be a valid semver version''
      else if trim_space (rf_name (bs_tool_ref spec)) = [] then Inl ''spec.toolRef.name is required''
      else if trim_space (rf_version (bs_tool_ref spec)) = [] then Inl ''spec.toolRef.version is required''
      else if sv_new sv (rf_version (bs_tool_ref spec)) = None
        then Inl ''spec.toolRef.version must be a valid semver version''
      else if bs_phase spec \<noteq> ''raw_response'' \<and> bs_phase spec \<noteq> ''after_response''
        then Inl ''spec.phase must be raw_response or after_response''
      else if bs_priority spec < 0 then Inl ''spec.priority must not be negative''
      else if bs_failure_policy spec \<noteq> [] \<and> bs_failure_policy spec \<noteq> ''continue'' \<and> bs_failure_policy spec \<noteq> ''fail''
        then Inl ''spec.failurePolicy must be continue or fail''
      else Inr ())"

definition effective_failure_policy :: "plugin_binding option \<Rightarrow> string" where
  "effective_failure_policy b = (case b of
       None \<Rightarrow> ''continue''
     | Some b \<Rightarrow> if bs_failure_policy (pb_spec b) = [] then ''continue'' else bs_failure_policy (pb_spec b))"

definition ref_key :: "resource_ref \<Rightarrow> string" where
  "ref_key r = rf_name r @ ''@'' @ rf_version r"

definition binding_tool_key :: "plugin_binding \<Rightarrow> string" where
  "binding_tool_key b = ref_key (bs_tool_ref (pb_spec b))"

definition join_host_port :: "string \<Rightarrow> string \<Rightarrow> string" where
  "join_host_port host port =
     (if CHR '':'' \<in> set host then ''['' @ host @ '']:'' @ port else host @ '':'' @ port)"

definition plugin_endpoint_host_port :: "string \<Rightarrow> string + string" where
  "plugin_endpoint_host_port raw = (case url_parse (trim_space raw) of
       None \<Rightarrow> Inl ''invalid URL''
     | Some u \<Rightarrow> (case validate_plugin_endpoint u of
           Inl e \<Rightarrow> Inl e
         | Inr _ \<Rightarrow>
             let port = (if url_port u \<noteq> [] then url_port u
                         else if u_scheme u = ''https'' then ''443'' else if u_scheme u = ''http'' then ''80'' else [])
             in Inr (to_lower (join_host_port (url_hostname u) port))))"

definition trim_right_slash :: "string \<Rightarrow> string" where
  "trim_right_slash s = rev (dropWhile (\<lambda>c. c = CHR ''/'') (rev s))"

definition plugin_process_url :: "('v, 'c) semver \<Rightarrow> plugin \<Rightarrow> (string + url)" where
  "plugin_process_url sv p0 = (case plugin_validate sv p0 of
       (Inl e, _) \<Rightarrow> Inl e
     | (Inr _, p) \<Rightarrow> (case url_parse (trim_space (ps_endpoint (pl_spec p))) of
           None \<Rightarrow> Inl ''invalid plugin endpoint''
         | Some u \<Rightarrow>
             let path = trim_right_slash (u_path u);
                 path = (if has_suffix path ''/v1/process'' then path else path @ ''/v1/process'')
             in Inr (u\<lparr> u_path := path, u_raw_path := [] \<rparr>)))"

text \<open>\<open>base64.StdEncoding\<close>: the padded alphabet with plus and slash.\<close>

definition b64_std_char :: "char \<Rightarrow> char" where
  "b64_std_char c = (if c = CHR ''-'' then CHR ''+'' else if c = CHR ''_'' then CHR ''/'' else c)"

definition b64_pad :: "string \<Rightarrow> string" where
  "b64_pad s = s @ (if length s mod 4 = 2 then ''=='' else if length s mod 4 = 3 then ''='' else [])"

definition b64_std_encode :: "string \<Rightarrow> string" where
  "b64_std_encode s = b64_pad (map b64_std_char (b64_encode s))"

definition b64_url_char :: "char \<Rightarrow> char option" where
  "b64_url_char c = (if c = CHR ''+'' then Some (CHR ''-'') else if c = CHR ''/'' then Some (CHR ''_'')
     else if c = CHR ''-'' \<or> c = CHR ''_'' then None else Some c)"

definition b64_std_decode :: "string \<Rightarrow> string option" where
  "b64_std_decode s =
     (let clean = filter (\<lambda>c. c \<noteq> CHR 0x0A \<and> c \<noteq> CHR 0x0D) s;
          body = takeWhile (\<lambda>c. c \<noteq> CHR ''='') clean
      in if b64_pad body \<noteq> clean \<or> length clean mod 4 \<noteq> 0 then None
         else if list_ex (\<lambda>c. b64_url_char c = None) body then None
         else b64_decode (map (\<lambda>c. the (b64_url_char c)) body))"

text \<open>
  A media type is normalized when \<open>mime.ParseMediaType\<close> returns it unchanged: the
  parser is the parameter \<open>media\<close>.
\<close>

definition raw_response_validate :: "(string \<Rightarrow> string option) \<Rightarrow> plugin_raw_response \<Rightarrow> string + unit" where
  "raw_response_validate media r =
     (let contentType = trim_space (rr_content_type r) in
      if rr_status r < 100 \<or> rr_status r > 599 then Inl ''rawResponse.status must be a valid HTTP status''
      else if contentType = [] then Inl ''rawResponse.contentType is required''
      else if media contentType \<noteq> Some contentType then Inl ''rawResponse.contentType must be a normalized media type''
      else if rb_encoding (rr_body r) = ''json'' then Inr ()
      else if rb_encoding (rr_body r) = ''base64'' then
        (case rb_value (rr_body r) of
           JStr v \<Rightarrow> if b64_std_decode v = None then Inl ''rawResponse.body.value must be valid base64'' else Inr ()
         | _ \<Rightarrow> Inl ''rawResponse.body.value must be base64 text'')
      else Inl ''rawResponse.body.encoding must be json or base64'')"

definition plugin_invocation_validate ::
  "('v, 'c) semver \<Rightarrow> (string \<Rightarrow> string option) \<Rightarrow> plugin_invocation \<Rightarrow> string + unit" where
  "plugin_invocation_validate sv media i =
     (if trim_space (rf_name (pi_tool i)) = [] then Inl ''tool.name is required''
      else if trim_space (rf_version (pi_tool i)) = [] then Inl ''tool.version is required''
      else if sv_new sv (rf_version (pi_tool i)) = None then Inl ''tool.version must be a valid semver version''
      else (case pi_raw_response i of
          None \<Rightarrow> Inr ()
        | Some raw \<Rightarrow>
            if pi_result i \<noteq> JNull then Inl ''result must be omitted when rawResponse is present''
            else raw_response_validate media raw))"

text \<open>
  \<open>MarshalJSON\<close>: the members of the request body, in field order. An empty
  configuration is omitted.
\<close>

definition ref_json :: "resource_ref \<Rightarrow> jval" where
  "ref_json r = JObj [(''name'', JStr (rf_name r)), (''version'', JStr (rf_version r))]"

definition raw_response_json :: "plugin_raw_response \<Rightarrow> jval" where
  "raw_response_json r = JObj [(''status'', JNum (itoa (rr_status r))), (''contentType'', JStr (rr_content_type r)),
     (''body'', JObj [(''encoding'', JStr (rb_encoding (rr_body r))), (''value'', rb_value (rr_body r))])]"

definition plugin_invocation_json :: "plugin_invocation \<Rightarrow> (string \<times> jval) list" where
  "plugin_invocation_json i =
     [(''protocolVersion'', JStr (pi_protocol_version i)), (''invocationId'', JStr (pi_invocation_id i)),
      (''tool'', ref_json (pi_tool i))] @
     (case pi_raw_response i of
        Some raw \<Rightarrow> [(''rawResponse'', raw_response_json raw)]
      | None \<Rightarrow> [(''result'', pi_result i)]) @
     (if pi_config i = [] then [] else [(''config'', JObj (pi_config i))])"

end
