(* ===== verification/Endpoint.thy ===== *)
theory Endpoint
  imports Plugin_Types Faults
begin

text \<open>
  How a call reaches the ERP: internal/mcp/tool.go (\<open>prepareERPCall\<close>,
  \<open>resolveEffectiveEndpoint\<close>), internal/mcp/authority.go (origins) and
  internal/security/transport.go (which endpoints may carry a credential).
\<close>

subsection \<open>Endpoints\<close>

record auth_config =
  ac_type :: string
  ac_key :: string
  ac_header :: string

record endpoint_config =
  ep_method :: string
  ep_path :: string
  ep_base_url :: string
  ep_headers :: "(string \<times> string) list"
  ep_auth :: auth_config

definition is_local_endpoint :: "url \<Rightarrow> bool" where
  "is_local_endpoint u = (let hostname = to_lower (url_hostname u) in
     hostname = ''localhost'' \<or> ip_is_loopback hostname)"

definition resolve_effective_endpoint :: "string \<Rightarrow> string \<Rightarrow> string" where
  "resolve_effective_endpoint endpoint envBaseURL =
     (if envBaseURL \<noteq> [] then
        (case url_parse endpoint of
           None \<Rightarrow> endpoint
         | Some u \<Rightarrow>
             if url_is_abs u then
               (if is_local_endpoint u then
                  (case url_parse envBaseURL of
                     Some base \<Rightarrow> url_string (u\<lparr> u_scheme := u_scheme base, u_host := u_host base \<rparr>)
                   | None \<Rightarrow> endpoint)
                else endpoint)
             else trim_suffix envBaseURL ''/'' @ ''/'' @ trim_prefix endpoint ''/'')
      else if \<not> has_prefix endpoint ''http''
      then ''http://localhost:8081'' @ ''/'' @ trim_prefix endpoint ''/''
      else endpoint)"

definition normalized_origin :: "string \<Rightarrow> string + string" where
  "normalized_origin raw = (case url_parse raw of
       None \<Rightarrow> Inl ''absolute HTTP origin is required''
     | Some parsed \<Rightarrow>
         if \<not> url_is_abs parsed \<or> u_host parsed = [] then Inl ''absolute HTTP origin is required''
         else if u_scheme parsed \<noteq> ''http'' \<and> u_scheme parsed \<noteq> ''https'' then Inl ''unsupported origin scheme''
         else if u_user parsed \<noteq> None then Inl ''userinfo is not allowed in an origin''
         else Inr (to_lower (u_scheme parsed) @ ''://'' @ to_lower (u_host parsed)))"

fun normalize_origins :: "string list \<Rightarrow> string list \<Rightarrow> string + string list" where
  "normalize_origins [] acc = Inr acc"
| "normalize_origins (raw # rest) acc = (case normalized_origin raw of
       Inl e \<Rightarrow> Inl (''invalid approved origin: '' @ e)
     | Inr origin \<Rightarrow> normalize_origins rest (if origin \<in> set acc then acc else acc @ [origin]))"

definition tool_endpoint :: "tool \<Rightarrow> string" where
  "tool_endpoint t = ex_endpoint (ts_execution (tl_spec t))"

definition tool_origins :: "tool \<Rightarrow> string list" where
  "tool_origins t = ex_approved_origins (ts_execution (tl_spec t))"

definition set_tool_origins :: "string list \<Rightarrow> tool \<Rightarrow> tool" where
  "set_tool_origins origins t = t\<lparr> tl_spec := (tl_spec t)\<lparr> ts_execution :=
     (ts_execution (tl_spec t))\<lparr> ex_approved_origins := origins \<rparr> \<rparr> \<rparr>"

text \<open>\<open>bindApprovedOrigins\<close> with the value of \<open>ERP_BASE_URL\<close>; on an error the tool is unchanged.\<close>

definition bind_approved_origins :: "string \<Rightarrow> tool \<Rightarrow> string + tool" where
  "bind_approved_origins envBaseURL t =
     (if tool_endpoint t = [] then Inr t
      else
        let derived = (if tool_origins t = []
              then (case normalized_origin (resolve_effective_endpoint (tool_endpoint t) envBaseURL) of
                      Inl e \<Rightarrow> Inl (''derive approved origin: '' @ e)
                    | Inr origin \<Rightarrow> Inr [origin])
              else Inr (tool_origins t))
        in case derived of
             Inl e \<Rightarrow> Inl e
           | Inr origins \<Rightarrow> (case normalize_origins origins [] of
                 Inl e \<Rightarrow> Inl e
               | Inr normalized \<Rightarrow> Inr (set_tool_origins (sort_strings normalized) t)))"

definition effective_url :: "endpoint_config \<Rightarrow> string" where
  "effective_url ep =
     (if ep_base_url ep \<noteq> [] then trim_suffix (ep_base_url ep) ''/'' @ ''/'' @ trim_prefix (ep_path ep) ''/''
      else ep_path ep)"

definition validate_effective_origin :: "tool \<Rightarrow> endpoint_config \<Rightarrow> gerr option" where
  "validate_effective_origin t ep = (case normalized_origin (effective_url ep) of
       Inl e \<Rightarrow> Some (EWrap [] ErrOriginDenied ('': '' @ e))
     | Inr origin \<Rightarrow>
         if list_ex (\<lambda>approved. normalized_origin approved = Inr origin) (tool_origins t) then None
         else Some (EWrap [] ErrOriginDenied []))"

subsection \<open>Mapping arguments to a request\<close>

text \<open>\<open>strings.ReplaceAll\<close> with a non-empty pattern.\<close>

fun replace_all :: "nat \<Rightarrow> string \<Rightarrow> string \<Rightarrow> string \<Rightarrow> string" where
  "replace_all skip [] old new = []"
| "replace_all (Suc n) (c # s) old new = replace_all n s old new"
| "replace_all 0 (c # s) old new =
     (if has_prefix (c # s) old then new @ replace_all (length old - 1) s old new
      else c # replace_all 0 s old new)"

text \<open>What the argument loop accumulates.\<close>

record call_parts =
  cp_url :: string
  cp_query :: "(string \<times> string) list"
  cp_headers :: "(string \<times> string) list"
  cp_fields :: jargs
  cp_body :: "jval option"

datatype prepare_error =
    NoEndpoint string
  | PathParameterMissing string
  | UnsupportedLocation string
  | CredentialFailed credential_error

definition prepare_argument ::
  "execution \<Rightarrow> string \<Rightarrow> string \<times> jval \<Rightarrow> call_parts \<Rightarrow> prepare_error + call_parts" where
  "prepare_argument ex method arg p =
     (let (name, value) = arg;
          mappedName = (case map_of (ex_mapping ex) name of
             Some mapped \<Rightarrow> if mapped \<noteq> [] then mapped else name | None \<Rightarrow> name);
          location = (case map_of (ex_parameter_locations ex) name of
             Some l \<Rightarrow> to_lower (trim_space l) | None \<Rightarrow> []);
          placeholder = ''{'' @ mappedName @ ''}'';
          text = go_sprint value
      in if location = [] then
           Inr (if str_contains (cp_url p) placeholder
                then p\<lparr> cp_url := replace_all 0 (cp_url p) placeholder (path_escape text) \<rparr>
                else if method = ''GET'' then p\<lparr> cp_query := amap_put mappedName text (cp_query p) \<rparr>
                else p\<lparr> cp_fields := amap_put mappedName value (cp_fields p) \<rparr>)
         else if location = ''path'' then
           (if \<not> str_contains (cp_url p) placeholder then Inl (PathParameterMissing mappedName)
            else Inr (p\<lparr> cp_url := replace_all 0 (cp_url p) placeholder (path_escape text) \<rparr>))
         else if location = ''query'' then Inr (p\<lparr> cp_query := amap_put mappedName text (cp_query p) \<rparr>)
         else if location = ''header'' then Inr (p\<lparr> cp_headers := amap_put mappedName text (cp_headers p) \<rparr>)
         else if location = ''body'' then
           Inr (if ex_body_argument ex = name then p\<lparr> cp_body := Some value \<rparr>
                else p\<lparr> cp_fields := amap_put mappedName value (cp_fields p) \<rparr>)
         else Inl (UnsupportedLocation location))"

fun prepare_arguments ::
  "execution \<Rightarrow> string \<Rightarrow> jargs \<Rightarrow> call_parts \<Rightarrow> prepare_error + call_parts" where
  "prepare_arguments ex method [] p = Inr p"
| "prepare_arguments ex method (arg # rest) p = (case prepare_argument ex method arg p of
       Inl e \<Rightarrow> Inl e
     | Inr p' \<Rightarrow> prepare_arguments ex method rest p')"

text \<open>The environment of a call: \<open>ERP_BASE_URL\<close> and the credentials.\<close>

definition sorted_arguments :: "jargs \<Rightarrow> jargs" where
  "sorted_arguments args =
     map (\<lambda>k. (k, case map_of args k of Some v \<Rightarrow> v | None \<Rightarrow> JNull)) (sort_strings (map fst args))"

definition prepare_erp_call ::
  "string \<Rightarrow> credential_env \<Rightarrow> tool \<Rightarrow> jargs \<Rightarrow>
     prepare_error + (endpoint_config \<times> (string \<times> string) list \<times> string option)" where
  "prepare_erp_call envBaseURL env t args =
     (let ex = ts_execution (tl_spec t); sec = ts_security (tl_spec t) in
      if ex_endpoint ex = [] then Inl (NoEndpoint (tool_name t))
      else
        let method = to_upper (trim_space (ex_method ex)) in
        case prepare_arguments ex method (sorted_arguments args)
               \<lparr> cp_url = ex_endpoint ex, cp_query = [], cp_headers = [], cp_fields = [], cp_body = None \<rparr> of
          Inl e \<Rightarrow> Inl e
        | Inr p \<Rightarrow>
            let body = (case cp_body p of
                  Some v \<Rightarrow> Some (json_text v)
                | None \<Rightarrow> if cp_fields p \<noteq> [] then Some (json_text (JObj (cp_fields p))) else None);
                fullURL = resolve_effective_endpoint (cp_url p) envBaseURL
            in case resolve_credential env (se_credential_ref sec) [se_credential_source sec] of
                 Inl e \<Rightarrow> Inl (CredentialFailed e)
               | Inr cred \<Rightarrow> Inr (\<lparr> ep_method = method, ep_path = fullURL, ep_base_url = [],
                     ep_headers = cp_headers p,
                     ep_auth = \<lparr> ac_type = se_auth_type sec, ac_key = cred, ac_header = se_auth_header sec \<rparr> \<rparr>,
                   cp_query p, body))"

subsection \<open>Endpoints that may carry a credential\<close>

definition valid_port :: "string \<Rightarrow> bool" where
  "valid_port port = (case parse_int64 port of Some v \<Rightarrow> 0 < v \<and> v \<le> 65535 | None \<Rightarrow> False)"

definition normalized_endpoint_host_port :: "url \<Rightarrow> string \<Rightarrow> string option" where
  "normalized_endpoint_host_port u scheme =
     (let host = to_lower (url_hostname u);
          port = (if url_port u = [] then (if scheme = ''https'' then ''443'' else ''80'') else url_port u)
      in if host = [] then None else if \<not> valid_port port then None else Some (join_host_port host port))"

text \<open>\<open>net.SplitHostPort\<close>: the last colon outside brackets separates the port.\<close>

definition net_split_host_port :: "string \<Rightarrow> (string \<times> string) option" where
  "net_split_host_port hostport = (case cut_last (CHR '':'') hostport of
       None \<Rightarrow> None
     | Some (h, p) \<Rightarrow>
         if has_prefix hostport ''['' then
           (case str_cut (CHR '']'') hostport of
              None \<Rightarrow> None
            | Some (inside, after) \<Rightarrow>
                if after \<noteq> CHR '':'' # p \<or> CHR ''['' \<in> set (tl inside) \<or> CHR ''['' \<in> set after \<or> CHR '']'' \<in> set after
                then None else Some (tl inside, p))
         else if CHR '':'' \<in> set h \<or> CHR ''['' \<in> set hostport \<or> CHR '']'' \<in> set hostport then None
         else Some (h, p))"

definition normalize_allowed_host_port :: "string \<Rightarrow> string option" where
  "normalize_allowed_host_port value = (case net_split_host_port value of
       None \<Rightarrow> None
     | Some (host, port) \<Rightarrow>
         if host = [] \<or> \<not> valid_port port then None else Some (join_host_port (to_lower host) port))"

definition allowed_insecure_host :: "string \<Rightarrow> string \<Rightarrow> bool" where
  "allowed_insecure_host allowList hostPort =
     list_ex (\<lambda>entry. normalize_allowed_host_port (trim_space entry) = Some hostPort)
       (split_at_char (CHR '','') allowList)"

text \<open>\<open>ValidateOutboundTransport\<close> under the value of \<open>INSECURE_AUTH_ALLOWED_HOSTS\<close>.\<close>

definition validate_outbound_transport :: "string \<Rightarrow> url \<Rightarrow> bool \<Rightarrow> (string \<times> bool) option" where
  "validate_outbound_transport allowList u credentialPresent =
     (if u_user u \<noteq> None then None
      else if \<not> credentialPresent then Some ([], False)
      else let scheme = to_lower (u_scheme u) in
        if scheme \<noteq> ''http'' \<and> scheme \<noteq> ''https'' then None
        else (case normalized_endpoint_host_port u scheme of
            None \<Rightarrow> None
          | Some hostPort \<Rightarrow>
              if scheme = ''https'' then Some (hostPort, False)
              else if allowed_insecure_host allowList hostPort then Some (hostPort, True)
              else None))"

end
