(* ===== verification/Store.thy ===== *)
theory Store
  imports Endpoint
begin

text \<open>
  internal/mcp/store.go and plugin_store.go: the SQLite tables of tools, plugins and
  bindings. A table is its list of rows; a statement or transaction is atomic and the
  write mutex serializes writers, so an operation is one state transition. \<open>st_down\<close>
  says that the database currently fails every statement, \<open>st_now\<close> is the clock
  \<open>updated_at\<close> records. The stored JSON of a resource is its decoded value.
\<close>

record tool_row =
  row_name :: string
  row_version :: string
  row_module :: string
  row_active :: bool
  row_data :: tool
  row_updated :: timestamp

record plugin_row =
  prow_name :: string
  prow_version :: string
  prow_active :: bool
  prow_data :: plugin
  prow_updated :: timestamp

record binding_row =
  brow_name :: string
  brow_plugin :: resource_ref
  brow_tool :: resource_ref
  brow_priority :: int
  brow_active :: bool
  brow_data :: plugin_binding
  brow_updated :: timestamp

record store =
  st_tools :: "tool_row list"
  st_plugins :: "plugin_row list"
  st_bindings :: "binding_row list"
  st_down :: bool
  st_now :: timestamp

datatype store_err =
    StoreUnavailable
  | AdmissionConflict
  | ToolMissing string string
  | PluginMissing string string
  | BindingMissing string
  | PluginHasActiveBindings string string
  | MigrationFailed string

definition empty_store :: "timestamp \<Rightarrow> store" where
  "empty_store now = \<lparr> st_tools = [], st_plugins = [], st_bindings = [], st_down = False, st_now = now \<rparr>"

subsection \<open>Tables\<close>

text \<open>INSERT \<dots> ON CONFLICT DO UPDATE: replaces the row with the key, or appends one.\<close>

definition upsert :: "('r \<Rightarrow> 'k) \<Rightarrow> 'r \<Rightarrow> 'r list \<Rightarrow> 'r list" where
  "upsert key r rows = (if list_ex (\<lambda>x. key x = key r) rows
     then map (\<lambda>x. if key x = key r then r else x) rows else rows @ [r])"

definition tool_key :: "tool_row \<Rightarrow> string \<times> string" where "tool_key r = (row_name r, row_version r)"
definition plugin_key :: "plugin_row \<Rightarrow> string \<times> string" where "plugin_key r = (prow_name r, prow_version r)"

lemma upsert_keys: "map key (upsert key r rows) =
    (if key r \<in> key ` set rows then map key rows else map key rows @ [key r])"
proof -
  have "list_ex (\<lambda>x. key x = key r) rows \<longleftrightarrow> key r \<in> key ` set rows"
    by (auto simp: list_ex_iff intro: rev_image_eqI)
  then show ?thesis by (auto simp: upsert_def)
qed

lemma upsert_distinct: "distinct (map key rows) \<Longrightarrow> distinct (map key (upsert key r rows))"
  by (simp add: upsert_keys)

lemma upsert_set:
  "set (upsert key r rows) = insert r {x \<in> set rows. key x \<noteq> key r}"
proof (cases "list_ex (\<lambda>x. key x = key r) rows")
  case True
  then obtain y where "y \<in> set rows" "key y = key r" by (auto simp: list_ex_iff)
  then show ?thesis by (force simp: upsert_def list_ex_iff image_iff)
next
  case False
  then show ?thesis by (auto simp: upsert_def list_ex_iff)
qed

subsection \<open>Tools\<close>

text \<open>What comes back when the stored JSON is decoded: a copy without the native handler.\<close>

definition stored_form :: "tool \<Rightarrow> tool" where
  "stored_form t = (clone_tool t)\<lparr> tl_handler := None \<rparr>"

lemma stored_form_meta [simp]:
  "tl_metadata (stored_form t) = tl_metadata t"
  "tool_name (stored_form t) = tool_name t" "tool_version (stored_form t) = tool_version t"
  "tool_digest (stored_form t) = tool_digest t" "tool_active (stored_form t) = tool_active t"
  "tool_serving (stored_form t) = tool_serving t"
  by (simp_all add: stored_form_def tool_selectors clone_tool_def)

lemma canonical_stored_form [simp]: "canonical_tool (stored_form t) = canonical_tool t"
  by (simp add: canonical_tool_def stored_form_def clone_tool_def split: option.splits jval.splits)

definition save_tool_with :: "tool \<Rightarrow> store \<Rightarrow> store" where
  "save_tool_with t s = s\<lparr> st_tools := upsert tool_key
     \<lparr> row_name = tool_name t, row_version = tool_version t, row_module = md_module (tl_metadata t),
       row_active = tool_active t, row_data = stored_form t, row_updated = st_now s \<rparr> (st_tools s) \<rparr>"

definition save_tool :: "tool \<Rightarrow> store \<Rightarrow> store_err option \<times> store" where
  "save_tool t s = (if st_down s then (Some StoreUnavailable, s) else (None, save_tool_with t s))"

definition set_admission :: "string \<Rightarrow> admission_record option \<Rightarrow> tool \<Rightarrow> tool" where
  "set_admission digest adm =
     map_metadata (\<lambda>m. m\<lparr> md_resource_digest := digest, md_admission := adm \<rparr>)"

lemma set_admission_meta [simp]:
  "tool_name (set_admission d a t) = tool_name t" "tool_version (set_admission d a t) = tool_version t"
  "tool_active (set_admission d a t) = tool_active t" "tool_serving (set_admission d a t) = tool_serving t"
  "tool_digest (set_admission d a t) = d"
  by (simp_all add: set_admission_def tool_selectors)

lemma canonical_set_admission [simp]: "canonical_tool (set_admission d a t) = canonical_tool t"
  unfolding set_admission_def by (simp add: canonical_map_metadata lifecycle_update_def)

definition tool_admission :: "tool \<Rightarrow> admission_record option" where
  "tool_admission t = md_admission (tl_metadata t)"

text \<open>
  \<open>Admit\<close> writes the bookkeeping into the caller's tool as well, so it returns it. The
  existing revision is the last row of that version; (name, version) is a primary key.
\<close>

definition admit_siblings :: "tool \<Rightarrow> store \<Rightarrow> tool list" where
  "admit_siblings t s = map row_data (filter (\<lambda>r. row_name r = tool_name t) (st_tools s))"

fun clear_siblings :: "tool \<Rightarrow> tool list \<Rightarrow> store \<Rightarrow> store" where
  "clear_siblings t [] s = s"
| "clear_siblings t (sibling # rest) s =
     (if tool_version sibling = tool_version t \<or> \<not> tool_serving sibling then clear_siblings t rest s
      else clear_siblings t rest (save_tool_with (set_serving_flag False sibling) s))"

definition admit ::
  "(tool \<Rightarrow> string) \<Rightarrow> tool \<Rightarrow> string \<Rightarrow> store \<Rightarrow> (store_err + tool) \<times> store" where
  "admit sha t actor s =
     (let requestedServing = tool_serving t;
          digest = canonical_tool_digest sha t
      in if st_down s then (Inl StoreUnavailable, s)
         else
           let siblings = admit_siblings t s;
               existing = find (\<lambda>x. tool_version x = tool_version t) (rev siblings);
               bookkept = (case existing of
                  Some e \<Rightarrow>
                    if canonical_tool_digest sha e \<noteq> digest then Inl AdmissionConflict
                    else Inr (set_serving_flag (requestedServing \<or> tool_serving e)
                           (set_admission (canonical_tool_digest sha e)
                              (case tool_admission e of
                                 None \<Rightarrow> Some (new_admission_record actor (st_now s)) | a \<Rightarrow> a) t))
                | None \<Rightarrow> Inr (set_admission digest (Some (new_admission_record actor (st_now s))) t))
           in case bookkept of
                Inl e \<Rightarrow> (Inl e, s)
              | Inr t1 \<Rightarrow>
                  let hasServing = list_ex (\<lambda>x. tool_active x \<and> tool_serving x \<and>
                                       tool_version x \<noteq> tool_version t) siblings;
                      t2 = (if \<not> hasServing \<and> (case existing of None \<Rightarrow> True | Some e \<Rightarrow> \<not> tool_serving e)
                            then set_serving_flag True t1 else t1);
                      s1 = (if tool_serving t2 then clear_siblings t2 siblings s else s)
                  in (Inr t2, save_tool_with t2 s1))"

definition sort_rows :: "('r \<Rightarrow> string) \<Rightarrow> ('r \<Rightarrow> string) \<Rightarrow> 'r list \<Rightarrow> 'r list" where
  "sort_rows name version rows = sort_key name (rev (sort_key version rows))"

definition list_tools :: "store \<Rightarrow> store_err + tool list" where
  "list_tools s = (if st_down s then Inl StoreUnavailable
     else Inr (map row_data (sort_rows row_name row_version (st_tools s))))"

definition list_tools_by_module :: "string \<Rightarrow> store \<Rightarrow> store_err + tool list" where
  "list_tools_by_module moduleName s = (if st_down s then Inl StoreUnavailable
     else Inr (map row_data (sort_rows row_name row_version
                 (filter (\<lambda>r. row_module r = moduleName) (st_tools s)))))"

definition get_tool :: "string \<Rightarrow> string \<Rightarrow> store \<Rightarrow> store_err + tool" where
  "get_tool name version s = (if st_down s then Inl StoreUnavailable
     else case find (\<lambda>r. tool_key r = (name, version)) (st_tools s) of
       None \<Rightarrow> Inl (ToolMissing name version)
     | Some r \<Rightarrow> Inr (row_data r))"

definition delete_tool :: "string \<Rightarrow> string \<Rightarrow> store \<Rightarrow> store_err option \<times> store" where
  "delete_tool name version s = (case get_tool name version s of
       Inl e \<Rightarrow> (Some e, s)
     | Inr t \<Rightarrow> save_tool (set_serving_flag False (set_active_flag False t)) s)"

definition hard_delete_tool :: "string \<Rightarrow> string \<Rightarrow> store \<Rightarrow> store_err option \<times> store" where
  "hard_delete_tool name version s = (if st_down s then (Some StoreUnavailable, s)
     else (None, s\<lparr> st_tools := filter (\<lambda>r. tool_key r \<noteq> (name, version)) (st_tools s) \<rparr>))"

subsection \<open>Migration of resources stored by earlier releases\<close>

definition legacy_tool_of_row :: "tool_row \<Rightarrow> tool" where
  "legacy_tool_of_row r = map_metadata (\<lambda>m. m\<lparr>
       md_name := (if md_name m = [] then row_name r else md_name m),
       md_version := (if md_version m = [] then row_version r else md_version m),
       md_module := (if md_module m = [] then row_module r else md_module m),
       md_is_active := row_active r \<rparr>) (row_data r)"

text \<open>One tool of the loop: its migrated form and whether anything changed.\<close>

definition is_legacy :: "tool \<Rightarrow> bool" where
  "is_legacy t \<longleftrightarrow> tool_digest t = [] \<or> tool_admission t = None"

definition migrate_tool ::
  "(tool \<Rightarrow> string) \<Rightarrow> string \<Rightarrow> timestamp \<Rightarrow> tool \<Rightarrow> store_err + (tool \<times> bool)" where
  "migrate_tool sha envBaseURL now t =
     (let bound = (if tool_endpoint t \<noteq> [] \<and> tool_origins t = []
            then (case bind_approved_origins envBaseURL t of
                    Inl e \<Rightarrow> Inl (MigrationFailed e) | Inr t' \<Rightarrow> Inr (t', True))
            else Inr (t, False))
      in case bound of
           Inl e \<Rightarrow> Inl e
         | Inr (t1, changed) \<Rightarrow>
             if is_legacy t1
             then Inr (set_admission (canonical_tool_digest sha t1)
                         (case tool_admission t1 of
                            None \<Rightarrow> Some (new_admission_record ''legacy-migration'' now) | a \<Rightarrow> a) t1, True)
             else Inr (t1, changed))"

fun migrate_tools ::
  "(tool \<Rightarrow> string) \<Rightarrow> string \<Rightarrow> timestamp \<Rightarrow> tool list \<Rightarrow> store_err + (tool list \<times> bool)" where
  "migrate_tools sha envBaseURL now [] = Inr ([], False)"
| "migrate_tools sha envBaseURL now (t # ts) = (case migrate_tool sha envBaseURL now t of
       Inl e \<Rightarrow> Inl e
     | Inr (t', c) \<Rightarrow> (case migrate_tools sha envBaseURL now ts of
           Inl e \<Rightarrow> Inl e
         | Inr (ts', c') \<Rightarrow> Inr (t' # ts', c \<or> c')))"

text \<open>
  \<open>latestLegacyRevision\<close>: the greatest stable version, or the greatest prerelease when
  there is none. A revision is named by its version, which is unique below one name.
\<close>

fun latest_of :: "('v, 'c) semver \<Rightarrow> ('v \<Rightarrow> bool) \<Rightarrow> tool list \<Rightarrow> ('v \<times> tool) option \<Rightarrow> tool option" where
  "latest_of sv ok [] best = map_option snd best"
| "latest_of sv ok (t # ts) best = (case sv_new sv (tool_version t) of
       None \<Rightarrow> latest_of sv ok ts best
     | Some v \<Rightarrow>
         if ok v \<and> (case best of None \<Rightarrow> True | Some (b, _) \<Rightarrow> sv_greater sv v b)
         then latest_of sv ok ts (Some (v, t)) else latest_of sv ok ts best)"

definition latest_legacy_revision :: "('v, 'c) semver \<Rightarrow> tool list \<Rightarrow> tool option" where
  "latest_legacy_revision sv ts =
     (case latest_of sv (\<lambda>v. sv_prerelease sv v = []) ts None of
        Some t \<Rightarrow> Some t
      | None \<Rightarrow> latest_of sv (\<lambda>v. True) ts None)"

text \<open>The pass over the active revisions of one legacy name.\<close>

definition select_serving ::
  "('v, 'c) semver \<Rightarrow> string list \<Rightarrow> tool list \<Rightarrow> tool list" where
  "select_serving sv legacyNames ts = map (\<lambda>t.
     let active = filter (\<lambda>u. tool_active u \<and> tool_name u = tool_name t) ts in
     if tool_active t \<and> tool_name t \<in> set legacyNames \<and> length (filter tool_serving active) \<noteq> 1
     then set_serving_flag (map_option tool_version (latest_legacy_revision sv active) = Some (tool_version t)) t
     else t) ts"

definition migrate_legacy_tools ::
  "('v, 'c) semver \<Rightarrow> (tool \<Rightarrow> string) \<Rightarrow> string \<Rightarrow> store \<Rightarrow> store_err option \<times> store" where
  "migrate_legacy_tools sv sha envBaseURL s =
     (if st_down s then (Some StoreUnavailable, s)
      else
        let tools = map legacy_tool_of_row (sort_key row_name (sort_key row_version (st_tools s)));
            legacyNames = map tool_name (filter is_legacy tools)
        in if tools = [] then (None, s)
           else (case migrate_tools sha envBaseURL (st_now s) tools of
               Inl e \<Rightarrow> (Some e, s)
             | Inr (migrated, changed) \<Rightarrow>
                 let final = select_serving sv legacyNames migrated in
                 if \<not> changed \<and> final = migrated then (None, s)
                 else (None, foldl (\<lambda>s t. save_tool_with t s) s final)))"

subsection \<open>Plugins and bindings\<close>

definition save_plugin :: "plugin \<Rightarrow> store \<Rightarrow> store_err option \<times> store" where
  "save_plugin p s = (if st_down s then (Some StoreUnavailable, s)
     else let p = canonicalize_type p in
       (None, s\<lparr> st_plugins := upsert plugin_key
          \<lparr> prow_name = pm_name (pl_metadata p), prow_version = pm_version (pl_metadata p),
            prow_active = pm_is_active (pl_metadata p), prow_data = p, prow_updated = st_now s \<rparr> (st_plugins s) \<rparr>))"

definition list_plugins :: "store \<Rightarrow> store_err + plugin list" where
  "list_plugins s = (if st_down s then Inl StoreUnavailable
     else Inr (map (\<lambda>r. canonicalize_type (prow_data r)) (sort_rows prow_name prow_version (st_plugins s))))"

definition get_plugin :: "string \<Rightarrow> string \<Rightarrow> store \<Rightarrow> store_err + plugin" where
  "get_plugin name version s = (if st_down s then Inl StoreUnavailable
     else case find (\<lambda>r. plugin_key r = (name, version)) (st_plugins s) of
       None \<Rightarrow> Inl (PluginMissing name version)
     | Some r \<Rightarrow> Inr (canonicalize_type (prow_data r)))"

definition delete_plugin :: "string \<Rightarrow> string \<Rightarrow> store \<Rightarrow> store_err option \<times> store" where
  "delete_plugin name version s = (case get_plugin name version s of
       Inl e \<Rightarrow> (Some e, s)
     | Inr p \<Rightarrow> save_plugin (p\<lparr> pl_metadata := (pl_metadata p)\<lparr> pm_is_active := False \<rparr> \<rparr>) s)"

definition active_bindings_of :: "string \<Rightarrow> string \<Rightarrow> store \<Rightarrow> binding_row list" where
  "active_bindings_of name version s = filter (\<lambda>b. rf_name (brow_plugin b) = name \<and>
     rf_version (brow_plugin b) = version \<and> brow_active b) (st_bindings s)"

definition hard_delete_plugin :: "string \<Rightarrow> string \<Rightarrow> store \<Rightarrow> store_err option \<times> store" where
  "hard_delete_plugin name version s = (if st_down s then (Some StoreUnavailable, s)
     else
       let doomed = (\<lambda>r. plugin_key r = (name, version) \<and> active_bindings_of name version s = []);
           affected = length (filter doomed (st_plugins s));
           s' = s\<lparr> st_plugins := filter (\<lambda>r. \<not> doomed r) (st_plugins s) \<rparr>
       in if affected = 0 \<and> length (active_bindings_of name version s') > 0
          then (Some (PluginHasActiveBindings name version), s')
          else (None, s'))"

definition save_plugin_binding :: "plugin_binding \<Rightarrow> store \<Rightarrow> store_err option \<times> store" where
  "save_plugin_binding b s = (if st_down s then (Some StoreUnavailable, s)
     else (None, s\<lparr> st_bindings := upsert brow_name
        \<lparr> brow_name = bm_name (pb_metadata b), brow_plugin = bs_plugin_ref (pb_spec b),
          brow_tool = bs_tool_ref (pb_spec b), brow_priority = bs_priority (pb_spec b),
          brow_active = bm_is_active (pb_metadata b), brow_data = b, brow_updated = st_now s \<rparr>
        (st_bindings s) \<rparr>))"

definition list_plugin_bindings :: "store \<Rightarrow> store_err + plugin_binding list" where
  "list_plugin_bindings s = (if st_down s then Inl StoreUnavailable
     else Inr (map brow_data (sort_key brow_name (st_bindings s))))"

definition get_plugin_binding :: "string \<Rightarrow> store \<Rightarrow> store_err + plugin_binding" where
  "get_plugin_binding name s = (if st_down s then Inl StoreUnavailable
     else case find (\<lambda>r. brow_name r = name) (st_bindings s) of
       None \<Rightarrow> Inl (BindingMissing name)
     | Some r \<Rightarrow> Inr (brow_data r))"

text \<open>ORDER BY priority, name.\<close>

definition order_bindings :: "binding_row list \<Rightarrow> binding_row list" where
  "order_bindings rows = sort_key brow_priority (sort_key brow_name rows)"

definition list_plugin_bindings_for_tool :: "string \<Rightarrow> string \<Rightarrow> store \<Rightarrow> store_err + plugin_binding list" where
  "list_plugin_bindings_for_tool name version s = (if st_down s then Inl StoreUnavailable
     else Inr (map brow_data (order_bindings (filter (\<lambda>b. rf_name (brow_tool b) = name \<and>
                 rf_version (brow_tool b) = version) (st_bindings s)))))"

definition list_active_plugin_bindings_for_tool ::
  "string \<Rightarrow> string \<Rightarrow> store \<Rightarrow> store_err + plugin_binding list" where
  "list_active_plugin_bindings_for_tool name version s = (if st_down s then Inl StoreUnavailable
     else Inr (map brow_data (order_bindings (filter (\<lambda>b. rf_name (brow_tool b) = name \<and>
                 rf_version (brow_tool b) = version \<and> brow_active b \<and>
                 list_ex (\<lambda>p. plugin_key p = (rf_name (brow_plugin b), rf_version (brow_plugin b)) \<and> prow_active p)
                   (st_plugins s)) (st_bindings s)))))"

definition delete_plugin_binding :: "string \<Rightarrow> store \<Rightarrow> store_err option \<times> store" where
  "delete_plugin_binding name s = (case get_plugin_binding name s of
       Inl e \<Rightarrow> (Some e, s)
     | Inr b \<Rightarrow> save_plugin_binding (b\<lparr> pb_metadata := (pb_metadata b)\<lparr> bm_is_active := False \<rparr> \<rparr>) s)"

definition hard_delete_plugin_binding :: "string \<Rightarrow> store \<Rightarrow> store_err option \<times> store" where
  "hard_delete_plugin_binding name s = (if st_down s then (Some StoreUnavailable, s)
     else (None, s\<lparr> st_bindings := filter (\<lambda>r. brow_name r \<noteq> name) (st_bindings s) \<rparr>))"

subsection \<open>The state hash\<close>

text \<open>
  The rows that \<open>GetStateHash\<close> feeds to SHA-256, in the query's order: kind, name,
  version, active flag, update time and data.
\<close>

datatype row_content = ToolContent tool | PluginContent plugin | BindingContent plugin_binding

type_synonym state_row = "string \<times> string \<times> string \<times> bool \<times> timestamp \<times> row_content"

definition state_rows :: "store \<Rightarrow> state_row list" where
  "state_rows s =
     map (\<lambda>r. (''binding'', brow_name r, ref_key (brow_plugin r) @ ''|'' @ ref_key (brow_tool r),
                brow_active r, brow_updated r, BindingContent (brow_data r)))
         (sort_key brow_name (st_bindings s)) @
     map (\<lambda>r. (''plugin'', prow_name r, prow_version r, prow_active r, prow_updated r, PluginContent (prow_data r)))
         (sort_key prow_name (sort_key prow_version (st_plugins s))) @
     map (\<lambda>r. (''tool'', row_name r, row_version r, row_active r, row_updated r, ToolContent (row_data r)))
         (sort_key row_name (sort_key row_version (st_tools s)))"

definition get_state_hash :: "(state_row list \<Rightarrow> string) \<Rightarrow> store \<Rightarrow> store_err + string" where
  "get_state_hash sha s = (if st_down s then Inl StoreUnavailable else Inr (sha (state_rows s)))"


subsection \<open>Lookups and the store invariant\<close>

lemma find_replace:
  "find (\<lambda>x. key x = k) (map (\<lambda>x. if key x = key r then r else x) rows) =
     (if key r = k then (if list_ex (\<lambda>x. key x = k) rows then Some r else None)
      else find (\<lambda>x. key x = k) rows)"
  by (induction rows) auto

lemma find_snoc:
  "find P (rows @ [r]) = (case find P rows of None \<Rightarrow> if P r then Some r else None | Some x \<Rightarrow> Some x)"
  by (induction rows) auto

lemma find_upsert:
  "find (\<lambda>x. key x = k) (upsert key r rows) = (if key r = k then Some r else find (\<lambda>x. key x = k) rows)"
proof (cases "list_ex (\<lambda>x. key x = key r) rows")
  case True
  then show ?thesis by (auto simp: upsert_def find_replace)
next
  case False
  then have "find (\<lambda>x. key x = key r) rows = None" by (auto simp: find_None_iff list_ex_iff)
  with False show ?thesis by (auto simp: upsert_def find_snoc split: option.splits)
qed

definition tool_at :: "store \<Rightarrow> string \<Rightarrow> string \<Rightarrow> tool option" where
  "tool_at s n v = map_option row_data (find (\<lambda>r. tool_key r = (n, v)) (st_tools s))"

lemma tool_at_save:
  "tool_at (save_tool_with t s) n v =
     (if tool_name t = n \<and> tool_version t = v then Some (stored_form t) else tool_at s n v)"
  by (simp add: tool_at_def save_tool_with_def find_upsert) (simp add: tool_key_def)

lemma get_tool_at: "\<not> st_down s \<Longrightarrow> get_tool n v s = (case tool_at s n v of None \<Rightarrow> Inl (ToolMissing n v) | Some t \<Rightarrow> Inr t)"
  by (auto simp: get_tool_def tool_at_def split: option.splits)

lemma save_tool_fields [simp]:
  "st_down (save_tool_with t s) = st_down s" "st_now (save_tool_with t s) = st_now s"
  "st_plugins (save_tool_with t s) = st_plugins s" "st_bindings (save_tool_with t s) = st_bindings s"
  by (simp_all add: save_tool_with_def)

text \<open>
  Rows are unique and agree with the resource they hold, and at most one revision of a name
  carries the serving flag.
\<close>

definition row_ok :: "tool_row \<Rightarrow> bool" where
  "row_ok r \<longleftrightarrow> tool_name (row_data r) = row_name r \<and> tool_version (row_data r) = row_version r \<and>
     tool_active (row_data r) = row_active r \<and> stored_form (row_data r) = row_data r"

definition tool_rows_wf :: "store \<Rightarrow> bool" where
  "tool_rows_wf s \<longleftrightarrow> distinct (map tool_key (st_tools s)) \<and> list_all row_ok (st_tools s)"

definition store_inv :: "store \<Rightarrow> bool" where
  "store_inv s \<longleftrightarrow> tool_rows_wf s \<and>
     (\<forall>n v w t u. tool_at s n v = Some t \<and> tool_at s n w = Some u \<and> tool_serving t \<and> tool_serving u \<longrightarrow> v = w)"

lemma stored_form_idem [simp]: "stored_form (stored_form t) = stored_form t"
  by (simp add: stored_form_def clone_tool_def split: option.splits jval.splits)

lemma stored_form_flag [simp]: "stored_form (set_serving_flag b t) = set_serving_flag b (stored_form t)"
  by (simp add: stored_form_def tool_selectors clone_tool_def)

lemma save_rows_wf: "tool_rows_wf s \<Longrightarrow> tool_rows_wf (save_tool_with t s)"
  unfolding tool_rows_wf_def save_tool_with_def
  by (auto simp: upsert_distinct list_all_iff upsert_set row_ok_def)

lemma find_distinct:
  "distinct (map key rows) \<Longrightarrow> find (\<lambda>x. key x = k) rows = Some r \<longleftrightarrow> r \<in> set rows \<and> key r = k"
  by (induction rows) auto

lemma tool_at_row:
  assumes "tool_rows_wf s"
  shows "tool_at s n v = Some t \<longleftrightarrow> (\<exists>r \<in> set (st_tools s). row_name r = n \<and> row_version r = v \<and> row_data r = t)"
proof -
  have "find (\<lambda>r. tool_key r = (n, v)) (st_tools s) = Some r \<longleftrightarrow>
      r \<in> set (st_tools s) \<and> row_name r = n \<and> row_version r = v" for r
    using assms find_distinct [of tool_key "st_tools s" "(n, v)" r]
    by (simp add: tool_rows_wf_def) (simp add: tool_key_def)
  then show ?thesis by (auto simp: tool_at_def)
qed

lemma tool_at_key:
  assumes "tool_rows_wf s" and "tool_at s n v = Some t"
  shows "tool_name t = n" "tool_version t = v" "stored_form t = t"
  using assms by (auto simp: tool_at_row tool_rows_wf_def list_all_iff row_ok_def)

lemma siblings_at:
  assumes "tool_rows_wf s"
  shows "x \<in> set (admit_siblings t s) \<longleftrightarrow> tool_at s (tool_name t) (tool_version x) = Some x"
proof
  assume "x \<in> set (admit_siblings t s)"
  then obtain r where r: "r \<in> set (st_tools s)" "row_name r = tool_name t" "x = row_data r"
    by (auto simp: admit_siblings_def)
  moreover from r(1) assms have "row_ok r" by (auto simp: tool_rows_wf_def list_all_iff)
  ultimately show "tool_at s (tool_name t) (tool_version x) = Some x"
    unfolding tool_at_row [OF assms] by (auto simp: row_ok_def)
next
  assume "tool_at s (tool_name t) (tool_version x) = Some x"
  then show "x \<in> set (admit_siblings t s)"
    unfolding tool_at_row [OF assms] by (auto simp: admit_siblings_def)
qed

lemma existing_at:
  assumes "tool_rows_wf s"
  shows "find (\<lambda>x. tool_version x = tool_version t) (rev (admit_siblings t s)) =
           tool_at s (tool_name t) (tool_version t)"
proof (cases "find (\<lambda>x. tool_version x = tool_version t) (rev (admit_siblings t s))")
  case None
  then have "\<forall>x \<in> set (admit_siblings t s). tool_version x \<noteq> tool_version t"
    by (simp add: find_None_iff)
  have "tool_at s (tool_name t) (tool_version t) = None"
  proof (rule ccontr)
    assume "tool_at s (tool_name t) (tool_version t) \<noteq> None"
    then obtain u where u: "tool_at s (tool_name t) (tool_version t) = Some u" by blast
    then have v: "tool_version u = tool_version t" by (rule tool_at_key(2) [OF assms])
    with u have "u \<in> set (admit_siblings t s)" by (simp add: siblings_at [OF assms])
    with v \<open>\<forall>x \<in> set (admit_siblings t s). tool_version x \<noteq> tool_version t\<close> show False by simp
  qed
  with None show ?thesis by simp
next
  case (Some x)
  then have x: "x \<in> set (admit_siblings t s)" "tool_version x = tool_version t"
    using find_SomeD [OF Some] by (simp_all only: set_rev)
  from x(1) have "tool_at s (tool_name t) (tool_version x) = Some x" unfolding siblings_at [OF assms] .
  with x(2) Some show ?thesis by simp
qed

text \<open>Clearing unflags exactly the other flagged revisions among the given siblings.\<close>

lemma clear_siblings_at:
  assumes "\<And>x. x \<in> set xs \<Longrightarrow> tool_name x = n \<and> stored_form x = x"
    and "distinct (map tool_version xs)"
    and "\<And>x. x \<in> set xs \<Longrightarrow> tool_at s n (tool_version x) = Some x"
  shows "tool_at (clear_siblings t xs s) m w =
     (case tool_at s m w of None \<Rightarrow> None
      | Some u \<Rightarrow> Some (if m = n \<and> u \<in> set xs \<and> tool_version u = w \<and> w \<noteq> tool_version t
                        then set_serving_flag False u else u))"
  using assms
proof (induction xs arbitrary: s)
  case Nil
  then show ?case by (simp split: option.splits)
next
  case (Cons x xs)
  let ?s = "if tool_version x = tool_version t \<or> \<not> tool_serving x then s
            else save_tool_with (set_serving_flag False x) s"
  have at: "tool_at ?s m w = (if \<not> (tool_version x = tool_version t \<or> \<not> tool_serving x) \<and> m = n \<and> w = tool_version x
      then Some (set_serving_flag False x) else tool_at s m w)" for m w
    using Cons.prems(1) [of x] by (auto simp: tool_at_save)
  have rest: "tool_at ?s n (tool_version y) = Some y" if "y \<in> set xs" for y
    using Cons.prems(2,3) that at [of n "tool_version y"] by (auto simp: image_iff)
  have eq: "clear_siblings t (x # xs) s = clear_siblings t xs ?s" by simp
  have IH: "tool_at (clear_siblings t xs ?s) m w =
     (case tool_at ?s m w of None \<Rightarrow> None
      | Some u \<Rightarrow> Some (if m = n \<and> u \<in> set xs \<and> tool_version u = w \<and> w \<noteq> tool_version t
                        then set_serving_flag False u else u))"
    using Cons.prems(1,2) rest by (intro Cons.IH) auto
  have x_at: "tool_at s n (tool_version x) = Some x" using Cons.prems(3) by simp
  have notin: "x \<notin> set xs" "set_serving_flag False x \<notin> set xs" using Cons.prems(2) by (force simp: image_iff)+
  have same: "set_serving_flag False x = x" if "\<not> tool_serving x"
    using that by (simp add: tool_selectors)
  show ?case
  proof (cases "m = n \<and> w = tool_version x")
    case True
    then show ?thesis unfolding eq IH using at [of m w] x_at notin same by auto
  next
    case False
    then have "tool_at ?s m w = tool_at s m w" using at by auto
    moreover have "u \<in> set (x # xs) \<and> tool_version u = w \<longleftrightarrow> u \<in> set xs \<and> tool_version u = w" if "m = n" for u
      using False that by auto
    ultimately show ?thesis unfolding eq IH by (auto split: option.splits)
  qed
qed


lemma clear_siblings_wf: "tool_rows_wf s \<Longrightarrow> tool_rows_wf (clear_siblings t xs s)"
  by (induction xs arbitrary: s) (auto intro: save_rows_wf)

lemma clear_siblings_fields [simp]:
  "st_down (clear_siblings t xs s) = st_down s" "st_now (clear_siblings t xs s) = st_now s"
  "st_plugins (clear_siblings t xs s) = st_plugins s" "st_bindings (clear_siblings t xs s) = st_bindings s"
  by (induction xs arbitrary: s) auto

lemma sibling_versions_distinct:
  assumes "tool_rows_wf s"
  shows "distinct (map tool_version (admit_siblings t s))"
proof -
  have "map tool_version (admit_siblings t s) = map row_version (filter (\<lambda>r. row_name r = tool_name t) (st_tools s))"
    using assms by (auto simp: admit_siblings_def tool_rows_wf_def list_all_iff row_ok_def)
  moreover have "distinct (map row_version (filter (\<lambda>r. row_name r = n) rows))"
    if "distinct (map tool_key rows)" for rows n
    using that by (induction rows) (auto simp: tool_key_def image_iff)
  ultimately show ?thesis using assms by (simp add: tool_rows_wf_def)
qed

text \<open>The other revisions of the name lose the serving flag; nothing else changes.\<close>

lemma clear_all_siblings:
  assumes "tool_rows_wf s" and "tool_name t = n"
  shows "tool_at (clear_siblings t (admit_siblings t s) s) m w =
     (if m = n \<and> w \<noteq> tool_version t then map_option (set_serving_flag False) (tool_at s m w) else tool_at s m w)"
proof -
  note key = tool_at_key [OF assms(1)] and sib = siblings_at [OF assms(1), of _ t, unfolded assms(2)]
  have "tool_at (clear_siblings t (admit_siblings t s) s) m w =
     (case tool_at s m w of None \<Rightarrow> None
      | Some u \<Rightarrow> Some (if m = n \<and> u \<in> set (admit_siblings t s) \<and> tool_version u = w \<and> w \<noteq> tool_version t
                        then set_serving_flag False u else u))"
  proof (rule clear_siblings_at)
    fix x assume "x \<in> set (admit_siblings t s)"
    then have at: "tool_at s n (tool_version x) = Some x" by (simp only: sib)
    then show "tool_at s n (tool_version x) = Some x" .
    show "tool_name x = n \<and> stored_form x = x" using key(1,3) [OF at] by blast
  qed (rule sibling_versions_distinct [OF assms(1)])
  also have "\<dots> = (if m = n \<and> w \<noteq> tool_version t then map_option (set_serving_flag False) (tool_at s m w) else tool_at s m w)"
  proof (cases "tool_at s m w")
    case (Some u)
    have "u \<in> set (admit_siblings t s) \<and> tool_version u = w" if "m = n"
    proof -
      have "tool_version u = w" by (rule key(2) [OF Some])
      moreover from this Some that have "tool_at s n (tool_version u) = Some u" by simp
      ultimately show ?thesis by (simp only: sib)
    qed
    with Some show ?thesis by (cases "m = n \<and> w \<noteq> tool_version t") auto
  qed auto
  finally show ?thesis .
qed

text \<open>What \<open>Admit\<close> does to every revision, on success.\<close>

lemma admit_ok:
  assumes wf: "tool_rows_wf s" and adm: "admit sha t actor s = (Inr t', s')"
  shows "tool_rows_wf s'" "st_down s' = st_down s" "\<not> st_down s"
    "tool_name t' = tool_name t" "tool_version t' = tool_version t" "tool_active t' = tool_active t"
    "canonical_tool t' = canonical_tool t" "tool_digest t' = canonical_tool_digest sha t"
    "tool_at s (tool_name t) (tool_version t) = Some e \<Longrightarrow>
       canonical_tool_digest sha e = canonical_tool_digest sha t \<and> (tool_serving e \<longrightarrow> tool_serving t')"
    "tool_at s' m w =
       (if m = tool_name t \<and> w = tool_version t then Some (stored_form t')
        else if m = tool_name t \<and> tool_serving t' then map_option (set_serving_flag False) (tool_at s m w)
        else tool_at s m w)"
    "\<not> tool_serving t' \<Longrightarrow>
       \<exists>v u. tool_at s (tool_name t) v = Some u \<and> tool_active u \<and> tool_serving u \<and> v \<noteq> tool_version t"
proof -
  let ?sib = "admit_siblings t s" and ?ex = "tool_at s (tool_name t) (tool_version t)"
  let ?has = "list_ex (\<lambda>x. tool_active x \<and> tool_serving x \<and> tool_version x \<noteq> tool_version t) ?sib"
  have up: "\<not> st_down s" using adm by (auto simp: admit_def Let_def split: if_splits)
  obtain t1 where t1: "tool_name t1 = tool_name t" "tool_version t1 = tool_version t" "tool_active t1 = tool_active t"
      "canonical_tool t1 = canonical_tool t" "tool_digest t1 = canonical_tool_digest sha t"
      "\<And>e. ?ex = Some e \<Longrightarrow> canonical_tool_digest sha e = canonical_tool_digest sha t \<and> (tool_serving e \<longrightarrow> tool_serving t1)"
    and t': "t' = (if \<not> ?has \<and> (case ?ex of None \<Rightarrow> True | Some e \<Rightarrow> \<not> tool_serving e)
                   then set_serving_flag True t1 else t1)"
    and s': "s' = save_tool_with t' (if tool_serving t' then clear_siblings t' ?sib s else s)"
  proof (cases ?ex)
    case None
    with that [of "set_admission (canonical_tool_digest sha t) (Some (new_admission_record actor (st_now s))) t"] adm up
    show thesis
      by (auto simp: admit_def existing_at [OF wf] Let_def split: if_splits)
  next
    case (Some e)
    with adm up have dig: "canonical_tool_digest sha e = canonical_tool_digest sha t"
      by (auto simp: admit_def existing_at [OF wf] Let_def split: if_splits)
    let ?t1 = "set_serving_flag (tool_serving t \<or> tool_serving e)
       (set_admission (canonical_tool_digest sha e)
          (case tool_admission e of None \<Rightarrow> Some (new_admission_record actor (st_now s)) | a \<Rightarrow> a) t)"
    from that [of ?t1] adm up Some dig show thesis
      by (auto simp: admit_def existing_at [OF wf] Let_def split: if_splits)
  qed
  have T: "tool_name t' = tool_name t" "tool_version t' = tool_version t"
    using t' t1 by auto
  show "tool_rows_wf s'" using s' wf by (auto intro: save_rows_wf clear_siblings_wf)
  show "st_down s' = st_down s" using s' by simp
  show "\<not> st_down s" by (fact up)
  show "tool_name t' = tool_name t" "tool_version t' = tool_version t" by (fact T)+
  show "tool_active t' = tool_active t" "canonical_tool t' = canonical_tool t"
    "tool_digest t' = canonical_tool_digest sha t" using t' t1 by auto
  show "?ex = Some e \<Longrightarrow> canonical_tool_digest sha e = canonical_tool_digest sha t \<and> (tool_serving e \<longrightarrow> tool_serving t')"
    using t' t1(6) by auto
  have clr: "clear_siblings t' ?sib s = clear_siblings t' (admit_siblings t' s) s"
    using T by (simp add: admit_siblings_def)
  show "tool_at s' m w =
       (if m = tool_name t \<and> w = tool_version t then Some (stored_form t')
        else if m = tool_name t \<and> tool_serving t' then map_option (set_serving_flag False) (tool_at s m w)
        else tool_at s m w)"
    unfolding s' clr using T clear_all_siblings [OF wf T(1), of m w] by (auto simp: tool_at_save)
  show "\<exists>v u. tool_at s (tool_name t) v = Some u \<and> tool_active u \<and> tool_serving u \<and> v \<noteq> tool_version t"
    if ns: "\<not> tool_serving t'"
  proof -
    have ?has
    proof (rule ccontr)
      assume "\<not> ?has"
      with ns t' obtain e where "?ex = Some e" "tool_serving e" by (auto split: if_splits option.splits)
      with t1(6) [of e] ns t' show False by auto
    qed
    then obtain x where "x \<in> set ?sib" "tool_active x" "tool_serving x" "tool_version x \<noteq> tool_version t"
      by (auto simp: list_ex_iff)
    then show ?thesis using siblings_at [OF wf, of x t] by blast
  qed
qed


lemma admit_error: "admit sha t actor s = (Inl e, s') \<Longrightarrow> s' = s"
  by (auto simp: admit_def Let_def split: if_splits option.splits sum.splits)

lemma store_invD:
  "store_inv s \<Longrightarrow> tool_rows_wf s"
  "store_inv s \<Longrightarrow> tool_at s n v = Some t \<Longrightarrow> tool_at s n w = Some u \<Longrightarrow> tool_serving t \<Longrightarrow> tool_serving u \<Longrightarrow> v = w"
  unfolding store_inv_def by blast+

lemma store_invI:
  "tool_rows_wf s \<Longrightarrow>
   (\<And>n v w t u. tool_at s n v = Some t \<Longrightarrow> tool_at s n w = Some u \<Longrightarrow> tool_serving t \<Longrightarrow> tool_serving u \<Longrightarrow> v = w) \<Longrightarrow>
   store_inv s"
  unfolding store_inv_def by blast

lemma admit_inv [component_inv]:
  assumes inv: "store_inv s" and adm: "admit sha t actor s = (res, s')"
  shows "store_inv s'"
proof (cases res)
  case (Inl e)
  with adm admit_error inv show ?thesis by blast
next
  case (Inr t')
  note A = admit_ok [OF store_invD(1) [OF inv] adm [unfolded Inr]]
  have serving: "tool_at s n x = Some y \<Longrightarrow> tool_serving y \<Longrightarrow> tool_at s n z = Some y' \<Longrightarrow> tool_serving y' \<Longrightarrow> x = z" for n x y z y'
    using store_invD(2) [OF inv] by blast
  show ?thesis
  proof (rule store_invI [OF A(1)])
    fix n v w a b
    assume a: "tool_at s' n v = Some a" "tool_serving a" and b: "tool_at s' n w = Some b" "tool_serving b"
    have old: "(x = tool_version t \<and> tool_serving t') \<or>
        (x \<noteq> tool_version t \<and> \<not> tool_serving t' \<and> (\<exists>y. tool_at s (tool_name t) x = Some y \<and> tool_serving y))"
      if "tool_at s' (tool_name t) x = Some c" "tool_serving c" for x c
      using that A(10) [of "tool_name t" x]
      by (cases "x = tool_version t"; cases "tool_serving t'") (auto simp: map_option_case split: option.splits)
    show "v = w"
    proof (cases "n = tool_name t")
      case True
      with old [of v a] old [of w b] a b serving [of "tool_name t"] show ?thesis by blast
    next
      case False
      then have "tool_at s n v = Some a" "tool_at s n w = Some b" using a(1) b(1) A(10) by simp_all
      with a(2) b(2) serving show ?thesis by blast
    qed
  qed
qed

lemma save_unflagged_inv:
  assumes "store_inv s" and "\<not> tool_serving t"
  shows "store_inv (save_tool_with t s)"
proof (rule store_invI)
  show "tool_rows_wf (save_tool_with t s)" using assms(1) by (intro save_rows_wf store_invD)
  fix n v w a b
  assume "tool_at (save_tool_with t s) n v = Some a" "tool_at (save_tool_with t s) n w = Some b"
    "tool_serving a" "tool_serving b"
  then have "tool_at s n v = Some a" "tool_at s n w = Some b"
    using assms(2) by (auto simp: tool_at_save split: if_splits)
  with \<open>tool_serving a\<close> \<open>tool_serving b\<close> store_invD(2) [OF assms(1)] show "v = w" by blast
qed

lemma delete_tool_inv [component_inv]: "store_inv s \<Longrightarrow> delete_tool n v s = (res, s') \<Longrightarrow> store_inv s'"
  by (auto simp: delete_tool_def save_tool_def intro: save_unflagged_inv split: sum.splits if_splits)

lemma hard_delete_at:
  "\<not> st_down s \<Longrightarrow> hard_delete_tool n v s = (res, s') \<Longrightarrow>
     tool_at s' m w = (if m = n \<and> w = v then None else tool_at s m w)"
proof -
  assume h: "\<not> st_down s" "hard_delete_tool n v s = (res, s')"
  have "find (\<lambda>r. key r = k) (filter (\<lambda>r. key r \<noteq> k') rows) = (if k = k' then None else find (\<lambda>r. key r = k) rows)"
    for key :: "tool_row \<Rightarrow> string \<times> string" and k k' rows
    by (induction rows) auto
  with h show ?thesis by (auto simp: hard_delete_tool_def tool_at_def)
qed

lemma hard_delete_tool_inv [component_inv]:
  assumes "store_inv s" and "hard_delete_tool n v s = (res, s')"
  shows "store_inv s'"
proof (cases "st_down s")
  case True
  with assms show ?thesis by (simp add: hard_delete_tool_def)
next
  case False
  show ?thesis
  proof (rule store_invI)
    show "tool_rows_wf s'"
      using assms(2) False store_invD(1) [OF assms(1)]
      by (auto simp: hard_delete_tool_def tool_rows_wf_def distinct_map_filter list_all_iff)
    show "tool_at s' m x = Some a \<Longrightarrow> tool_at s' m y = Some b \<Longrightarrow> tool_serving a \<Longrightarrow> tool_serving b \<Longrightarrow> x = y"
      for m x y a b
      using hard_delete_at [OF False assms(2)] store_invD(2) [OF assms(1)] by (auto split: if_splits)
  qed
qed

text \<open>The lifecycle operations of the control plane on stored tools.\<close>

datatype store_op =
    SAdmit tool string
  | SDelete string string
  | SHardDelete string string
  | SOutage bool
  | SClock duration

fun store_step :: "(tool \<Rightarrow> string) \<Rightarrow> store_op \<Rightarrow> store \<Rightarrow> store" where
  "store_step sha (SAdmit t actor) s = snd (admit sha t actor s)"
| "store_step sha (SDelete n v) s = snd (delete_tool n v s)"
| "store_step sha (SHardDelete n v) s = snd (hard_delete_tool n v s)"
| "store_step sha (SOutage down) s = s\<lparr> st_down := down \<rparr>"
| "store_step sha (SClock d) s = s\<lparr> st_now := st_now s + d \<rparr>"

definition store_run :: "(tool \<Rightarrow> string) \<Rightarrow> store_op list \<Rightarrow> store \<Rightarrow> store" where
  "store_run sha ops s = foldl (\<lambda>s op. store_step sha op s) s ops"

lemma store_inv_fields [simp]:
  "store_inv (s\<lparr> st_down := x \<rparr>) = store_inv s" "store_inv (s\<lparr> st_now := y \<rparr>) = store_inv s"
  by (simp_all add: store_inv_def tool_rows_wf_def tool_at_def)

lemma store_step_inv [component_inv]: "store_inv s \<Longrightarrow> store_inv (store_step sha op s)"
  by (cases op)
    (simp_all add: admit_inv [OF _ surjective_pairing] delete_tool_inv [OF _ surjective_pairing]
      hard_delete_tool_inv [OF _ surjective_pairing])

lemma store_run_inv: "store_inv s \<Longrightarrow> store_inv (store_run sha ops s)"
  unfolding store_run_def by (rule foldl_invariant [where P = store_inv]) (simp_all add: store_step_inv)

lemma empty_store_inv: "store_inv (empty_store now)"
  by (simp add: store_inv_def tool_rows_wf_def tool_at_def empty_store_def)

subsection \<open>Properties\<close>

text \<open>
  In every state that admissions, deletions and database outages lead to, at most one
  stored revision of a tool carries the serving flag; and a successful admission leaves
  exactly one revision of that tool flagged.
\<close>

theorem store_single_serving:
  assumes "s = store_run sha ops (empty_store now)"
  shows "(\<forall>n v w t u. tool_at s n v = Some t \<and> tool_at s n w = Some u \<and> tool_serving t \<and> tool_serving u \<longrightarrow> v = w) \<and>
     (\<forall>t actor t' s'. admit sha t actor s = (Inr t', s') \<longrightarrow>
        (\<exists>!v. \<exists>u. tool_at s' (tool_name t) v = Some u \<and> tool_serving u))"
proof (intro conjI allI impI)
  have inv: "store_inv s" using assms store_run_inv [OF empty_store_inv] by simp
  show "v = w" if "tool_at s n v = Some t \<and> tool_at s n w = Some u \<and> tool_serving t \<and> tool_serving u" for n v w t u
    using that store_invD(2) [OF inv] by blast
  fix t actor t' s'
  assume adm: "admit sha t actor s = (Inr t', s')"
  note A = admit_ok [OF store_invD(1) [OF inv] adm] and inv' = admit_inv [OF inv adm]
  have "\<exists>v u. tool_at s' (tool_name t) v = Some u \<and> tool_serving u"
  proof (cases "tool_serving t'")
    case True
    with A(10) [of "tool_name t" "tool_version t"] show ?thesis by (intro exI) auto
  next
    case False
    with A(11) obtain v u where "tool_at s (tool_name t) v = Some u" "tool_serving u" "v \<noteq> tool_version t" by blast
    with A(10) [of "tool_name t" v] False show ?thesis by auto
  qed
  with store_invD(2) [OF inv'] show "\<exists>!v. \<exists>u. tool_at s' (tool_name t) v = Some u \<and> tool_serving u" by blast
qed

theorem store_single_serving_witness:
  "\<exists>!v. \<exists>u. tool_at (snd (admit (\<lambda>t. tool_version t) (blank_tool ''t'' ''2'') ''op''
       (store_run (\<lambda>t. tool_version t) [SAdmit (blank_tool ''t'' ''1'') ''op''] (empty_store 0)))) ''t'' v = Some u \<and> tool_serving u"
proof -
  let ?s = "store_run (\<lambda>t. tool_version t) [SAdmit (blank_tool ''t'' ''1'') ''op''] (empty_store 0)"
  obtain t' s' where adm: "admit (\<lambda>t. tool_version t) (blank_tool ''t'' ''2'') ''op'' ?s = (Inr t', s')"
    by (simp add: store_run_def admit_def Let_def empty_store_def admit_siblings_def save_tool_with_def upsert_def)
  with store_single_serving [OF refl, of "\<lambda>t. tool_version t" "[SAdmit (blank_tool ''t'' ''1'') ''op'']" 0]
  show ?thesis by fastforce
qed

definition store_contents :: "store \<Rightarrow> tool set" where
  "store_contents s = {canonical_tool t | t n v. tool_at s n v = Some t}"

fun op_contents :: "store_op \<Rightarrow> tool set" where
  "op_contents (SAdmit t actor) = {canonical_tool t}"
| "op_contents _ = {}"

lemma tool_at_fields [simp]:
  "tool_at (s\<lparr> st_down := x \<rparr>) = tool_at s" "tool_at (s\<lparr> st_now := y \<rparr>) = tool_at s"
  by (simp_all add: tool_at_def fun_eq_iff)

lemma step_keeps_content:
  assumes inv: "store_inv s" and inj: "inj_on sha (store_contents s \<union> op_contents op)"
    and at: "tool_at s n v = Some t"
    and keep: "op \<noteq> SHardDelete n v"
  shows "\<exists>u. tool_at (store_step sha op s) n v = Some u \<and> canonical_tool u = canonical_tool t"
proof (cases op)
  case (SAdmit x actor)
  show ?thesis
  proof (cases "admit sha x actor s")
    case (Pair res s')
    show ?thesis
    proof (cases res)
      case (Inl e)
      with Pair admit_error at SAdmit show ?thesis by fastforce
    next
      case (Inr x')
      note A = admit_ok [OF store_invD(1) [OF inv] Pair [unfolded Inr]]
      show ?thesis
      proof (cases "n = tool_name x \<and> v = tool_version x")
        case True
        with A(9) at have "sha (canonical_tool t) = sha (canonical_tool x)"
          by (simp add: canonical_tool_digest_def)
        moreover have "canonical_tool t \<in> store_contents s" using at by (auto simp: store_contents_def)
        moreover have "canonical_tool x \<in> op_contents op" using SAdmit by simp
        ultimately have "canonical_tool t = canonical_tool x" using inj by (auto dest: inj_onD)
        with A(7) A(10) [of n v] True SAdmit Pair show ?thesis by simp
      next
        case False
        with A(10) [of n v] at SAdmit Pair show ?thesis by auto
      qed
    qed
  qed
next
  case (SDelete m w)
  show ?thesis
  proof (cases "get_tool m w s")
    case (Inl e)
    with SDelete at show ?thesis by (simp add: delete_tool_def)
  next
    case (Inr y)
    have up: "\<not> st_down s" using Inr by (auto simp: get_tool_def split: if_splits)
    then have y: "tool_at s m w = Some y" using Inr by (simp add: get_tool_at split: option.splits)
    note key = tool_at_key [OF store_invD(1) [OF inv] y]
    have "store_step sha op s = save_tool_with (set_serving_flag False (set_active_flag False y)) s"
      using SDelete Inr up by (simp add: delete_tool_def save_tool_def)
    with at y key show ?thesis by (auto simp: tool_at_save)
  qed
next
  case (SHardDelete m w)
  show ?thesis
  proof (cases "st_down s")
    case True
    with SHardDelete at show ?thesis by (simp add: hard_delete_tool_def)
  next
    case False
    from hard_delete_at [OF False surjective_pairing, of m w n v] keep SHardDelete at show ?thesis by auto
  qed
qed (use at in simp_all)

lemma step_contents:
  assumes inv: "store_inv s"
  shows "store_contents (store_step sha op s) \<subseteq> store_contents s \<union> op_contents op"
proof
  fix c assume "c \<in> store_contents (store_step sha op s)"
  then obtain n v t where t: "tool_at (store_step sha op s) n v = Some t" "c = canonical_tool t"
    by (auto simp: store_contents_def)
  show "c \<in> store_contents s \<union> op_contents op"
  proof (cases op)
    case (SAdmit x actor)
    obtain res s' where r: "admit sha x actor s = (res, s')" by (cases "admit sha x actor s")
    show ?thesis
    proof (cases res)
      case (Inl e)
      with r have "s' = s" using admit_error by blast
      with r t SAdmit show ?thesis by (auto simp: store_contents_def)
    next
      case (Inr x')
      note A = admit_ok [OF store_invD(1) [OF inv] r [unfolded Inr]]
      show ?thesis
      proof (cases "n = tool_name x \<and> v = tool_version x")
        case True
        with A(10) [of n v] t SAdmit r A(7) show ?thesis by auto
      next
        case False
        with A(10) [of n v] t SAdmit r
        have "\<exists>y. tool_at s n v = Some y \<and> canonical_tool y = c" by (auto split: if_splits)
        then show ?thesis by (auto simp: store_contents_def)
      qed
    qed
  next
    case (SDelete m w)
    show ?thesis
    proof (cases "get_tool m w s")
      case (Inl e)
      with SDelete t show ?thesis by (auto simp: delete_tool_def store_contents_def)
    next
      case (Inr y)
      have up: "\<not> st_down s" using Inr by (auto simp: get_tool_def split: if_splits)
      then have y: "tool_at s m w = Some y" using Inr by (simp add: get_tool_at split: option.splits)
      have "store_step sha op s = save_tool_with (set_serving_flag False (set_active_flag False y)) s"
        using SDelete Inr up by (simp add: delete_tool_def save_tool_def)
      then have "tool_at s n v = Some t \<or> c = canonical_tool y"
        using t by (auto simp: tool_at_save split: if_splits)
      with y t(2) show ?thesis by (auto simp: store_contents_def)
    qed
  next
    case (SHardDelete m w)
    show ?thesis
    proof (cases "st_down s")
      case True
      with SHardDelete t show ?thesis by (auto simp: hard_delete_tool_def store_contents_def)
    next
      case False
      from hard_delete_at [OF False surjective_pairing, of m w n v] SHardDelete t
      show ?thesis by (auto simp: store_contents_def split: if_splits)
    qed
  qed (use t in \<open>auto simp: store_contents_def\<close>)
qed

lemma run_keeps_content:
  assumes "inj_on sha (store_contents s \<union> \<Union> (op_contents ` set ops))"
    and "store_inv s" and "tool_at s n v = Some t" and "SHardDelete n v \<notin> set ops"
  shows "\<exists>u. tool_at (store_run sha ops s) n v = Some u \<and> canonical_tool u = canonical_tool t"
  using assms
proof (induction ops arbitrary: s t)
  case (Cons op ops)
  let ?s = "store_step sha op s"
  have "inj_on sha (store_contents s \<union> op_contents op)"
    using Cons.prems(1) by (rule inj_on_subset) auto
  then obtain u where u: "tool_at ?s n v = Some u" "canonical_tool u = canonical_tool t"
    using step_keeps_content [OF Cons.prems(2) _ Cons.prems(3), of sha op] Cons.prems(4) by auto
  have "inj_on sha (store_contents ?s \<union> \<Union> (op_contents ` set ops))"
    using Cons.prems(1) by (rule inj_on_subset) (use step_contents [OF Cons.prems(2), of sha op] in auto)
  from Cons.IH [OF this store_step_inv [OF Cons.prems(2)] u(1)] Cons.prems(4) u(2)
  show ?case by (simp add: store_run_def)
qed (simp add: store_run_def)

lemma admit_other_content:
  assumes "store_inv s" and "tool_at s (tool_name x) (tool_version x) = Some u"
    and "sha (canonical_tool u) \<noteq> sha (canonical_tool x)"
  shows "admit sha x actor s = (Inl (if st_down s then StoreUnavailable else AdmissionConflict), s)"
  using assms(2,3) by (simp add: admit_def Let_def existing_at [OF store_invD(1) [OF assms(1)]] canonical_tool_digest_def)

text \<open>
  C10: admitted revisions are immutable. Whatever sequence of control-plane operations runs,
  short of deleting the revision permanently, the reviewed content stored for a name and
  version never changes; and an admission of other content under that name and version fails,
  with a conflict unless the store is down, and leaves the store exactly as it was. The hash
  is assumed to be collision free on the contents that are stored or presented.
\<close>

theorem admitted_content_immutable:
  assumes "inj_on sha (insert (canonical_tool x) (store_contents s \<union> \<Union> (op_contents ` set ops)))"
    and "store_inv s" and "tool_at s n v = Some t" and "SHardDelete n v \<notin> set ops"
    and "s' = store_run sha ops s"
  shows "(\<exists>u. tool_at s' n v = Some u \<and> canonical_tool u = canonical_tool t) \<and>
     (tool_name x = n \<and> tool_version x = v \<and> canonical_tool x \<noteq> canonical_tool t \<longrightarrow>
        admit sha x actor s' = (Inl (if st_down s' then StoreUnavailable else AdmissionConflict), s'))"
proof -
  have "inj_on sha (store_contents s \<union> \<Union> (op_contents ` set ops))"
    using assms(1) by (rule inj_on_subset) auto
  from run_keeps_content [OF this assms(2-4)] obtain u where
    u: "tool_at s' n v = Some u" "canonical_tool u = canonical_tool t" by (auto simp: assms(5))
  have "canonical_tool t \<in> store_contents s" using assms(3) by (auto simp: store_contents_def)
  then have "sha (canonical_tool u) \<noteq> sha (canonical_tool x)" if "canonical_tool x \<noteq> canonical_tool t"
    using inj_onD [OF assms(1), of "canonical_tool t" "canonical_tool x"] that u(2) by auto
  moreover have "store_inv s'" unfolding assms(5) by (rule store_run_inv [OF assms(2)])
  ultimately show ?thesis using u admit_other_content by blast
qed

theorem admitted_content_immutable_witness:
  "let s = store_run tl_kind [SAdmit (blank_tool ''t'' ''1'') ''op''] (empty_store 0);
       other = (blank_tool ''t'' ''1'')\<lparr> tl_kind := ''Other'' \<rparr>
   in admit tl_kind other ''op'' s = (Inl AdmissionConflict, s) \<and>
      (\<exists>u. tool_at s ''t'' ''1'' = Some u \<and> canonical_tool u = canonical_tool (blank_tool ''t'' ''1''))"
proof -
  let ?s = "store_run tl_kind [SAdmit (blank_tool ''t'' ''1'') ''op''] (empty_store 0)"
  let ?other = "(blank_tool ''t'' ''1'')\<lparr> tl_kind := ''Other'' \<rparr>"
  have inv: "store_inv ?s" by (rule store_run_inv [OF empty_store_inv])
  obtain t' s' where adm: "admit tl_kind (blank_tool ''t'' ''1'') ''op'' (empty_store 0) = (Inr t', s')"
    by (simp add: admit_def Let_def empty_store_def admit_siblings_def)
  note A = admit_ok [OF store_invD(1) [OF empty_store_inv] adm]
  have s: "?s = s'" using adm by (simp add: store_run_def)
  have at: "tool_at ?s n v = (if n = ''t'' \<and> v = ''1'' then Some (stored_form t') else None)" for n v
    using A(10) [of n v] s by (simp add: tool_at_def empty_store_def)
  have c: "canonical_tool (stored_form t') = canonical_tool (blank_tool ''t'' ''1'')" using A(7) by simp
  have "store_contents ?s \<subseteq> {canonical_tool (blank_tool ''t'' ''1'')}"
    using at c by (auto simp: store_contents_def split: if_splits)
  moreover have other: "tl_kind (canonical_tool ?other) \<noteq> tl_kind (canonical_tool (blank_tool ''t'' ''1''))"
    by (simp add: canonical_tool_def clone_tool_def blank_tool_def)
  ultimately have "inj_on tl_kind (insert (canonical_tool ?other) (store_contents ?s \<union> \<Union> (op_contents ` set [])))"
    by (auto simp: inj_on_def)
  moreover have "tool_at ?s ''t'' ''1'' = Some (stored_form t')" by (simp only: at) simp
  moreover have "?s = store_run tl_kind [] ?s" by (simp add: store_run_def)
  moreover have "tool_name ?other = ''t''" "tool_version ?other = ''1''" by (simp_all add: blank_tool_def tool_name_def tool_version_def)
  moreover have "canonical_tool ?other \<noteq> canonical_tool (stored_form t')" using other c by auto
  ultimately have "admit tl_kind ?other ''op'' ?s = (Inl (if st_down ?s then StoreUnavailable else AdmissionConflict), ?s)"
    using admitted_content_immutable [where x = ?other and sha = tl_kind and ops = "[]" and n = "''t''" and v = "''1''"
      and t = "stored_form t'" and s = ?s and s' = ?s and actor = "''op''"] inv by simp
  moreover have "\<not> st_down ?s" using A(2,3) by (simp add: s)
  ultimately show ?thesis using at c by (simp add: Let_def)
qed

text \<open>
  A tool that an earlier release stored with its digest and admission but without approved
  origins gets origins bound by the migration, which is a change of its content, while its
  recorded digest stays the old one.
\<close>

lemma migration_keeps_stale_digest:
  assumes "tool_endpoint t \<noteq> []" and "tool_origins t = []" and "bind_approved_origins base t = Inr t'"
    and "\<not> is_legacy t"
  shows "migrate_tool sha base now t = Inr (t', True) \<and> tool_digest t' = tool_digest t \<and>
         tool_origins t' \<noteq> [] \<and> canonical_tool t' \<noteq> canonical_tool t"
proof -
  obtain origins where t': "t' = set_tool_origins origins t" "origins \<noteq> []"
    using assms(1-3)
    by (auto simp: bind_approved_origins_def Let_def sort_strings_def split: sum.splits)
  have meta: "tl_metadata t' = tl_metadata t" "tool_origins t' = origins"
    using t' by (simp_all add: set_tool_origins_def tool_origins_def)
  have "tool_origins (canonical_tool u) = tool_origins u" for u
    by (simp add: canonical_tool_def clone_tool_def tool_origins_def)
  with meta(2) t'(2) assms(2) have "canonical_tool t' \<noteq> canonical_tool t" by metis
  with assms meta t'(2) show ?thesis
    by (auto simp: migrate_tool_def is_legacy_def tool_admission_def tool_digest_def)
qed

end
