(* ===== verification/Access.thy ===== *)
theory Access
  imports Store
begin

text \<open>
  Who may call what: internal/mcp/tokens.go (opaque API tokens), auth.go (HTTP
  authentication and CORS) and authz.go (roles of guarded tools). SHA-256 is the parameter
  \<open>sha\<close>; random bytes and the clock are arguments.
\<close>

subsection \<open>Identities and roles\<close>

record caller_identity =
  id_principal :: string
  id_roles :: "string list"
  id_is_admin :: bool

text \<open>The values the code keeps in a request context.\<close>

record ctx =
  cx_identity :: "caller_identity option"
  cx_role :: string
  cx_rate_principal :: string
  cx_session :: "string option"

definition background_ctx :: ctx where
  "background_ctx = \<lparr> cx_identity = None, cx_role = [], cx_rate_principal = [], cx_session = None \<rparr>"

definition with_caller_identity :: "caller_identity \<Rightarrow> ctx \<Rightarrow> ctx" where
  "with_caller_identity identity c = c\<lparr> cx_identity := Some identity \<rparr>"

definition with_caller_role :: "string \<Rightarrow> ctx \<Rightarrow> ctx" where
  "with_caller_role role c = c\<lparr> cx_role := role \<rparr>"

definition caller_role :: "ctx \<Rightarrow> string option" where
  "caller_role c = (if cx_role c = [] then None else Some (cx_role c))"

definition with_rate_limit_principal :: "string \<Rightarrow> ctx \<Rightarrow> ctx" where
  "with_rate_limit_principal p c = c\<lparr> cx_rate_principal := p \<rparr>"

text \<open>The pattern \<open>^[a-z][a-z0-9_-]{0,63}$\<close>.\<close>

definition role_pattern :: "string \<Rightarrow> bool" where
  "role_pattern role = (case role of
       [] \<Rightarrow> False
     | c # cs \<Rightarrow> is_lower c \<and> length cs \<le> 63 \<and>
         list_all (\<lambda>c. is_lower c \<or> is_digit c \<or> c = CHR ''_'' \<or> c = CHR ''-'') cs)"

definition max_roles :: nat where "max_roles = 32"

fun check_roles :: "string list \<Rightarrow> string list \<Rightarrow> string + unit" where
  "check_roles seen [] = Inr ()"
| "check_roles seen (role # rest) =
     (if \<not> role_pattern role then Inl (''invalid role '' @ role)
      else if role \<in> set seen then Inl (''duplicate role '' @ role)
      else check_roles (role # seen) rest)"

definition normalize_roles :: "string list \<Rightarrow> string + string list" where
  "normalize_roles roles =
     (if length roles > max_roles then Inl ''roles must contain at most 32 entries''
      else case check_roles [] roles of
        Inl e \<Rightarrow> Inl e
      | Inr _ \<Rightarrow> Inr (sort_strings roles))"

fun check_scopes :: "string list \<Rightarrow> string list \<Rightarrow> string + unit" where
  "check_scopes seen [] = Inr ()"
| "check_scopes seen (scope # rest) =
     (if scope \<noteq> ''mcp'' \<and> scope \<noteq> ''metrics'' \<and> scope \<noteq> ''logs'' then Inl (''invalid token scope '' @ scope)
      else if scope \<in> set seen then Inl (''duplicate token scope '' @ scope)
      else check_scopes (scope # seen) rest)"

definition normalize_scopes :: "string list \<Rightarrow> string + string list" where
  "normalize_scopes scopes = (case check_scopes [] scopes of
       Inl e \<Rightarrow> Inl e
     | Inr _ \<Rightarrow> Inr (sort_strings scopes))"

lemma check_roles_ok:
  "check_roles seen roles = Inr () \<longleftrightarrow>
     distinct roles \<and> set roles \<inter> set seen = {} \<and> list_all role_pattern roles"
  by (induction roles arbitrary: seen) auto

lemma normalize_roles_ok:
  "normalize_roles roles = Inr rs \<longleftrightarrow>
     length roles \<le> max_roles \<and> distinct roles \<and> list_all role_pattern roles \<and> rs = sort_strings roles"
  using check_roles_ok [of "[]" roles]
  by (auto simp: normalize_roles_def not_less split: sum.splits)

subsection \<open>Tokens\<close>

datatype stored_time = TimeOk timestamp | TimeUnparsable

text \<open>A row of \<open>api_tokens\<close>; the JSON columns may hold text that does not decode.\<close>

record token_row =
  tk_id :: string
  tk_name :: string
  tk_hash :: string
  tk_scopes :: "string list option"
  tk_roles :: "string list option"
  tk_expires :: "stored_time option"
  tk_revoked :: "timestamp option"
  tk_created :: stored_time

record token_store =
  ts_rows :: "token_row list"
  ts_down :: bool

record token_record =
  tr_id :: string
  tr_token_name :: string
  tr_scopes :: "string list"
  tr_roles :: "string list"
  tr_expires_at :: "timestamp option"
  tr_revoked_at :: "timestamp option"
  tr_created_at :: timestamp

record token_create_request =
  tq_name :: string
  tq_scopes :: "string list"
  tq_roles :: "string list"
  tq_expires_at :: "timestamp option"

datatype token_err =
    TokenInvalid string
  | TokenNotFound
  | TokenRevoked
  | TokenExpired
  | TokenStorage string

definition hex_encode :: "string \<Rightarrow> string" where
  "hex_encode s = concat (map (\<lambda>c. [hex_digit (of_char c div 16), hex_digit (of_char c mod 16)]) s)"

definition token_prefix :: string where "token_prefix = ''erpbt_''"

definition hash_token :: "(string \<Rightarrow> string) \<Rightarrow> string \<Rightarrow> string" where
  "hash_token sha raw = hex_encode (sha raw)"

text \<open>\<open>CreateToken\<close>: the inserted row breaks no key, or the insert fails.\<close>

definition create_token ::
  "(string \<Rightarrow> string) \<Rightarrow> timestamp \<Rightarrow> string \<Rightarrow> string \<Rightarrow> token_create_request \<Rightarrow> token_store \<Rightarrow>
     (token_err + token_record \<times> string) \<times> token_store" where
  "create_token sha now rawBytes idBytes request s =
     (if trim_space (tq_name request) = [] then (Inl (TokenInvalid ''token name is required''), s)
      else if length (tq_name request) > 128 then (Inl (TokenInvalid ''token name is too long''), s)
      else case normalize_roles (tq_roles request) of
        Inl e \<Rightarrow> (Inl (TokenInvalid e), s)
      | Inr roles \<Rightarrow> (case normalize_scopes (tq_scopes request) of
          Inl e \<Rightarrow> (Inl (TokenInvalid e), s)
        | Inr scopes \<Rightarrow>
            if (case tq_expires_at request of None \<Rightarrow> False | Some t \<Rightarrow> \<not> now < t)
            then (Inl (TokenInvalid ''token expiry must be in the future''), s)
            else
              let rawToken = token_prefix @ hex_encode rawBytes;
                  tokenID = token_prefix @ hex_encode idBytes;
                  row = \<lparr> tk_id = tokenID, tk_name = tq_name request, tk_hash = hash_token sha rawToken,
                          tk_scopes = Some scopes, tk_roles = Some roles,
                          tk_expires = map_option TimeOk (tq_expires_at request),
                          tk_revoked = None, tk_created = TimeOk now \<rparr>
              in if ts_down s \<or> list_ex (\<lambda>r. tk_id r = tokenID \<or> tk_hash r = tk_hash row) (ts_rows s)
                 then (Inl (TokenStorage ''save token''), s)
                 else (Inr (\<lparr> tr_id = tokenID, tr_token_name = tq_name request, tr_scopes = scopes,
                              tr_roles = roles, tr_expires_at = tq_expires_at request, tr_revoked_at = None,
                              tr_created_at = now \<rparr>, rawToken),
                       s\<lparr> ts_rows := ts_rows s @ [row] \<rparr>)))"

definition lookup_token ::
  "(string \<Rightarrow> string) \<Rightarrow> timestamp \<Rightarrow> token_store \<Rightarrow> string \<Rightarrow> token_err + token_record" where
  "lookup_token sha now s rawToken =
     (if ts_down s then Inl (TokenStorage ''lookup token'')
      else case find (\<lambda>r. tk_hash r = hash_token sha rawToken) (ts_rows s) of
        None \<Rightarrow> Inl TokenNotFound
      | Some r \<Rightarrow>
          if tk_revoked r \<noteq> None then Inl TokenRevoked
          else
            let checked = (case tk_expires r of
                  None \<Rightarrow> Inr None
                | Some TimeUnparsable \<Rightarrow> Inl (TokenStorage ''parse token expiry'')
                | Some (TimeOk expires) \<Rightarrow> if \<not> now < expires then Inl TokenExpired else Inr (Some expires))
            in case checked of
                 Inl e \<Rightarrow> Inl e
               | Inr expires \<Rightarrow> (case tk_scopes r of
                     None \<Rightarrow> Inl (TokenStorage ''decode token scopes'')
                   | Some scopes \<Rightarrow> (case tk_roles r of
                         None \<Rightarrow> Inl (TokenStorage ''decode token roles'')
                       | Some roles \<Rightarrow> (case tk_created r of
                             TimeUnparsable \<Rightarrow> Inl (TokenStorage ''parse token creation time'')
                           | TimeOk created \<Rightarrow>
                               Inr \<lparr> tr_id = tk_id r, tr_token_name = tk_name r, tr_scopes = scopes,
                                     tr_roles = roles, tr_expires_at = expires, tr_revoked_at = None,
                                     tr_created_at = created \<rparr>))))"

definition parse_optional_time :: "stored_time option \<Rightarrow> timestamp option" where
  "parse_optional_time v = (case v of Some (TimeOk t) \<Rightarrow> Some t | _ \<Rightarrow> None)"

definition decode_token_record :: "token_row \<Rightarrow> token_err + token_record" where
  "decode_token_record r = (case tk_scopes r of
       None \<Rightarrow> Inl (TokenStorage ''decode token scopes'')
     | Some scopes \<Rightarrow> (case tk_roles r of
           None \<Rightarrow> Inl (TokenStorage ''decode token roles'')
         | Some roles \<Rightarrow> (case tk_created r of
               TimeUnparsable \<Rightarrow> Inl (TokenStorage ''parse token creation time'')
             | TimeOk created \<Rightarrow>
                 Inr \<lparr> tr_id = tk_id r, tr_token_name = tk_name r, tr_scopes = scopes, tr_roles = roles,
                       tr_expires_at = parse_optional_time (tk_expires r), tr_revoked_at = tk_revoked r,
                       tr_created_at = created \<rparr>)))"

fun decode_all :: "token_row list \<Rightarrow> token_err + token_record list" where
  "decode_all [] = Inr []"
| "decode_all (r # rs) = (case decode_token_record r of
       Inl e \<Rightarrow> Inl e
     | Inr x \<Rightarrow> (case decode_all rs of Inl e \<Rightarrow> Inl e | Inr xs \<Rightarrow> Inr (x # xs)))"

text \<open>The rows in the order of the query: newest first, then by identifier.\<close>

definition created_order :: "token_row \<Rightarrow> int" where
  "created_order r = (case tk_created r of TimeOk t \<Rightarrow> - t | TimeUnparsable \<Rightarrow> 0)"

definition list_tokens :: "token_store \<Rightarrow> token_err + token_record list" where
  "list_tokens s = (if ts_down s then Inl (TokenStorage ''list tokens'')
     else decode_all (sort_key created_order (sort_key tk_id (ts_rows s))))"

definition revoke_token :: "timestamp \<Rightarrow> string \<Rightarrow> token_store \<Rightarrow> token_err option \<times> token_store" where
  "revoke_token now ident s =
     (if ts_down s then (Some (TokenStorage ''revoke token''), s)
      else
        let hit = (\<lambda>r. tk_id r = ident \<and> tk_revoked r = None) in
        if list_ex hit (ts_rows s)
        then (None, s\<lparr> ts_rows := map (\<lambda>r. if hit r then r\<lparr> tk_revoked := Some now \<rparr> else r) (ts_rows s) \<rparr>)
        else if list_ex (\<lambda>r. tk_id r = ident) (ts_rows s) then (None, s)
        else (Some TokenNotFound, s))"

subsection \<open>HTTP authentication\<close>

definition bearer_token :: "string \<Rightarrow> string option" where
  "bearer_token value = (case str_fields value of
       [scheme, token] \<Rightarrow> if equal_fold scheme ''Bearer'' \<and> token \<noteq> [] then Some token else None
     | _ \<Rightarrow> None)"

definition secure_token_equal :: "(string \<Rightarrow> string) \<Rightarrow> string \<Rightarrow> string \<Rightarrow> bool" where
  "secure_token_equal sha left right \<longleftrightarrow> sha left = sha right"

definition configured_admin_roles :: "string \<Rightarrow> string + string list" where
  "configured_admin_roles env =
     (let value = trim_space env in
      if value = [] then Inr []
      else normalize_roles (map trim_space (split_at_char (CHR '','') value)))"

text \<open>The outcome: a context, a status to answer with, or a broken configuration.\<close>

datatype auth_result = Authenticated ctx | AuthStatus int | AuthMisconfigured string

record auth_env =
  ae_token :: "string option"
  ae_admin_roles :: string
  ae_cors_origins :: string

definition auth_enabled :: "auth_env \<Rightarrow> bool" where
  "auth_enabled env \<longleftrightarrow> (case ae_token env of None \<Rightarrow> False | Some t \<Rightarrow> t \<noteq> [])"

text \<open>\<open>lookup\<close> is the token store of the server, \<^const>\<open>None\<close> when it has none.\<close>

definition authenticate_http ::
  "(string \<Rightarrow> string) \<Rightarrow> auth_env \<Rightarrow> (string \<Rightarrow> 'e + token_record) option \<Rightarrow> string \<Rightarrow> string \<Rightarrow> bool \<Rightarrow>
     ctx \<Rightarrow> auth_result" where
  "authenticate_http sha env lookup authorization scope adminOnly c = (case ae_token env of
       None \<Rightarrow> Authenticated c
     | Some adminToken \<Rightarrow>
         if adminToken = [] then Authenticated c
         else (case configured_admin_roles (ae_admin_roles env) of
             Inl e \<Rightarrow> AuthMisconfigured e
           | Inr adminRoles \<Rightarrow> (case bearer_token authorization of
                 None \<Rightarrow> AuthStatus 401
               | Some presented \<Rightarrow>
                   let accept = (\<lambda>identity. Authenticated
                         (with_rate_limit_principal (id_principal identity) (with_caller_identity identity c)))
                   in if secure_token_equal sha presented adminToken
                      then accept \<lparr> id_principal = ''admin'', id_roles = adminRoles, id_is_admin = True \<rparr>
                      else (case lookup of
                          None \<Rightarrow> AuthStatus 401
                        | Some look \<Rightarrow> (case look presented of
                              Inl _ \<Rightarrow> AuthStatus 401
                            | Inr record \<Rightarrow>
                                if adminOnly then AuthStatus 403
                                else if scope \<noteq> [] \<and> scope \<notin> set (tr_scopes record) then AuthStatus 403
                                else accept \<lparr> id_principal = tr_id record, id_roles = tr_roles record,
                                              id_is_admin = False \<rparr>)))))"

definition write_http_auth_error :: "int \<Rightarrow> http_error" where
  "write_http_auth_error status =
     (if status = 403
      then write_control_plane_error status ''AUTHORIZATION_DENIED'' ''the caller is not authorized for this operation''
             ''use a token with the required scope or administrator permission''
      else write_control_plane_error 401 ''AUTHENTICATION_FAILED'' ''the server rejected the authentication credentials''
             ''set a valid token in the Authorization header'')"

text \<open>\<open>AuthHandler\<close>: the protected handler runs only in an authenticated context.\<close>

definition auth_handler ::
  "auth_result \<Rightarrow> (ctx \<Rightarrow> 's \<Rightarrow> 'r \<times> 's) \<Rightarrow> (http_error \<Rightarrow> 'r) \<Rightarrow> 's \<Rightarrow> 'r \<times> 's" where
  "auth_handler result next deny s = (case result of
       Authenticated c \<Rightarrow> next c s
     | AuthStatus status \<Rightarrow> (deny (write_http_auth_error status), s)
     | AuthMisconfigured _ \<Rightarrow> (deny (write_control_plane_internal_error 500 ''HEALTH_CHECK_FAILED''
                                     ''check authentication configuration''), s))"

definition configured_cors_origins :: "auth_env \<Rightarrow> string list" where
  "configured_cors_origins env =
     (let value = trim_space (ae_cors_origins env) in
      if value = [] then (if auth_enabled env then [] else [''*''])
      else filter (\<lambda>origin. origin \<noteq> []) (map trim_space (split_at_char (CHR '','') value)))"

definition allowed_cors_origin :: "auth_env \<Rightarrow> string \<Rightarrow> bool" where
  "allowed_cors_origin env origin \<longleftrightarrow> origin \<noteq> [] \<and>
     list_ex (\<lambda>allowed. allowed = ''*'' \<or> allowed = origin) (configured_cors_origins env)"

definition is_allowed_mcp_preflight :: "auth_env \<Rightarrow> string \<Rightarrow> string \<Rightarrow> string \<Rightarrow> bool" where
  "is_allowed_mcp_preflight env method requestMethod origin \<longleftrightarrow>
     method = ''OPTIONS'' \<and> requestMethod \<noteq> [] \<and> allowed_cors_origin env origin"

subsection \<open>Tool handlers\<close>

text \<open>
  An MCP tool call. The arguments are the \<open>any\<close> of the request, \<open>JNull\<close> for nil;
  \<open>rq_digest\<close> is the reviewed digest of the request metadata. A handler returns a
  result (possibly nil), an error, or panics, and acts on the state \<open>'s\<close>, which other
  requests change as well while it runs.
\<close>

record call_request =
  rq_name :: string
  rq_arguments :: jval
  rq_digest :: string

datatype outcome = Returned "call_result option" | Failed gerr | Panicked string

type_synonym 's handler = "ctx \<Rightarrow> call_request \<Rightarrow> 's \<Rightarrow> outcome \<times> 's"

subsection \<open>Roles of guarded tools\<close>

datatype role_error = RoleError int string

definition role_denied :: "string \<Rightarrow> role_error" where "role_denied reason = RoleError 403 reason"
definition role_bad_request :: "string \<Rightarrow> role_error" where "role_bad_request reason = RoleError 400 reason"

fun role_gerr :: "role_error \<Rightarrow> gerr" where "role_gerr (RoleError status reason) = ERole status reason"

definition role_error_result :: "role_error \<Rightarrow> call_result" where
  "role_error_result err = (case err of RoleError status reason \<Rightarrow>
     new_tool_execution_result (EFault (new_fault
       (if status = 403 then KindPermissionDenied else KindInvalidInput)
       (''role authorization denied: '' @ reason) False 0 (Some (role_gerr err)))))"

definition call_arguments :: "call_request \<Rightarrow> role_error + jargs" where
  "call_arguments req = (case rq_arguments req of
       JNull \<Rightarrow> Inr []
     | JObj ms \<Rightarrow> Inr ms
     | _ \<Rightarrow> Inl (role_bad_request ''tool arguments must be an object''))"

definition role_selector :: "jargs \<Rightarrow> role_error + string option" where
  "role_selector args = (case map_of args ''role'' of
       None \<Rightarrow> Inr None
     | Some (JStr role) \<Rightarrow>
         if is_ok (normalize_roles [role]) then Inr (Some role)
         else Inl (role_denied ''role selector is invalid'')
     | Some _ \<Rightarrow> Inl (role_bad_request ''role selector must be a string''))"

definition authorize_role :: "ctx \<Rightarrow> tool \<Rightarrow> string \<Rightarrow> role_error + ctx" where
  "authorize_role c t role = (case cx_identity c of
       None \<Rightarrow> Inl (role_denied ''a verified identity is required'')
     | Some identity \<Rightarrow>
         if id_principal identity = [] then Inl (role_denied ''a verified identity is required'')
         else if role \<notin> set (id_roles identity)
           then Inl (role_denied ''role is not assigned to the authenticated identity'')
         else if role \<notin> set (tool_roles t) then Inl (role_denied ''role is not allowed for this tool'')
         else Inr (with_caller_role role c))"

definition role_authz_middleware :: "tool \<Rightarrow> 's handler \<Rightarrow> 's handler" where
  "role_authz_middleware t next c req s =
     (if tool_roles t = [] then next c req s
      else
        let refuse = (\<lambda>e. (Returned (Some (role_error_result e)), s)) in
        case call_arguments req of
          Inl e \<Rightarrow> refuse e
        | Inr args \<Rightarrow> (case role_selector args of
            Inl e \<Rightarrow> refuse e
          | Inr selected \<Rightarrow> (case (case selected of None \<Rightarrow> caller_role c | Some r \<Rightarrow> Some r) of
              None \<Rightarrow> refuse (role_denied ''a verified identity and role selector are required'')
            | Some role \<Rightarrow> (case authorize_role c t role of
                Inl e \<Rightarrow> refuse e
              | Inr authorized \<Rightarrow>
                  next authorized
                    (if map_of args ''role'' \<noteq> None
                     then req\<lparr> rq_arguments := JObj (filter (\<lambda>p. fst p \<noteq> ''role'') args) \<rparr> else req) s))))"

definition authorize_direct_invoke ::
  "ctx \<Rightarrow> tool \<Rightarrow> jargs \<Rightarrow> string \<Rightarrow> role_error + (ctx \<times> jargs)" where
  "authorize_direct_invoke c t args selector =
     (if tool_roles t = [] then Inr (c, args)
      else if map_of args ''role'' \<noteq> None
        then Inl (role_bad_request ''guarded direct invokes select role with X-ERPBridge-Role'')
      else if selector = [] then Inl (role_denied ''X-ERPBridge-Role is required for guarded direct invokes'')
      else if \<not> is_ok (normalize_roles [selector]) then Inl (role_denied ''role selector is invalid'')
      else (case authorize_role c t selector of
          Inl e \<Rightarrow> Inl e
        | Inr authorized \<Rightarrow> Inr (authorized, args)))"

definition write_role_authorization_error :: "role_error \<Rightarrow> http_error" where
  "write_role_authorization_error err = (case err of RoleError status _ \<Rightarrow>
     write_control_plane_error (if status = 0 then 403 else status) ''AUTHORIZATION_DENIED''
       ''the caller is not authorized to invoke this tool'' ''use a token with the required role'')"


subsection \<open>What a token lookup promises\<close>

text \<open>
  The interface authentication relies on: a successful lookup vouches for the token it was
  given. \<open>good\<close> is what the store means by a usable token.
\<close>

locale token_lookup =
  fixes lookup :: "'db \<Rightarrow> string \<Rightarrow> 'e + token_record"
    and good :: "'db \<Rightarrow> string \<Rightarrow> token_record \<Rightarrow> bool"
  assumes lookup_sound: "lookup db raw = Inr r \<Longrightarrow> good db raw r"
begin

lemma authenticate_sound:
  assumes "auth_enabled env"
    and "authenticate_http sha env (map_option lookup db) authorization scope adminOnly c = Authenticated c'"
  shows "\<exists>raw. bearer_token authorization = Some raw \<and>
     ((\<exists>adminToken roles. ae_token env = Some adminToken \<and> sha raw = sha adminToken \<and>
         configured_admin_roles (ae_admin_roles env) = Inr roles \<and>
         cx_identity c' = Some \<lparr> id_principal = ''admin'', id_roles = roles, id_is_admin = True \<rparr>) \<or>
      (\<exists>d r. db = Some d \<and> good d raw r \<and> \<not> adminOnly \<and> (scope = [] \<or> scope \<in> set (tr_scopes r)) \<and>
         cx_identity c' = Some \<lparr> id_principal = tr_id r, id_roles = tr_roles r, id_is_admin = False \<rparr>))"
proof -
  obtain adminToken where t: "ae_token env = Some adminToken" "adminToken \<noteq> []"
    using assms(1) by (auto simp: auth_enabled_def split: option.splits)
  obtain roles raw where r: "configured_admin_roles (ae_admin_roles env) = Inr roles"
      "bearer_token authorization = Some raw"
    using assms(2) t by (auto simp: authenticate_http_def split: sum.splits option.splits)
  show ?thesis
  proof (cases "sha raw = sha adminToken")
    case True
    then have "c' = with_rate_limit_principal ''admin'' (with_caller_identity
        \<lparr> id_principal = ''admin'', id_roles = roles, id_is_admin = True \<rparr> c)"
      using assms(2) t r by (simp add: authenticate_http_def secure_token_equal_def)
    with True t r show ?thesis by (simp add: with_rate_limit_principal_def with_caller_identity_def)
  next
    case False
    then obtain d tok where d: "db = Some d" "lookup d raw = Inr tok" "\<not> adminOnly"
        "scope = [] \<or> scope \<in> set (tr_scopes tok)"
        "c' = with_rate_limit_principal (tr_id tok) (with_caller_identity
          \<lparr> id_principal = tr_id tok, id_roles = tr_roles tok, id_is_admin = False \<rparr> c)"
      using assms(2) t r
      by (auto simp: authenticate_http_def secure_token_equal_def split: option.splits sum.splits if_splits)
    then show ?thesis using r lookup_sound [OF d(2)]
      by (auto simp: with_rate_limit_principal_def with_caller_identity_def)
  qed
qed

lemma revoked_refused:
  assumes "auth_enabled env" and "\<And>r. \<not> good db raw r" and "bearer_token authorization = Some raw"
    and "\<And>adminToken. ae_token env = Some adminToken \<Longrightarrow> sha raw \<noteq> sha adminToken"
  shows "\<not> (\<exists>c'. authenticate_http sha env (Some (lookup db)) authorization scope adminOnly c = Authenticated c')"
proof
  assume "\<exists>c'. authenticate_http sha env (Some (lookup db)) authorization scope adminOnly c = Authenticated c'"
  then obtain c' where "authenticate_http sha env (map_option lookup (Some db)) authorization scope adminOnly c = Authenticated c'"
    by auto
  from authenticate_sound [OF assms(1) this] assms(2-4) show False by auto
qed

end

text \<open>What the stored rows say: an unrevoked, unexpired row with the hash of the presented value.\<close>

definition live_token ::
  "(string \<Rightarrow> string) \<Rightarrow> timestamp \<Rightarrow> token_store \<Rightarrow> string \<Rightarrow> token_record \<Rightarrow> bool" where
  "live_token sha now s raw r \<longleftrightarrow> (\<exists>row \<in> set (ts_rows s).
     tk_hash row = hash_token sha raw \<and> tk_id row = tr_id r \<and> tk_revoked row = None \<and>
     tk_scopes row = Some (tr_scopes r) \<and> tk_roles row = Some (tr_roles r) \<and>
     (case tk_expires row of None \<Rightarrow> True | Some (TimeOk t) \<Rightarrow> now < t | Some TimeUnparsable \<Rightarrow> False))"

lemma lookup_token_sound:
  assumes "lookup_token sha now s raw = Inr r"
  shows "live_token sha now s raw r"
proof -
  obtain row where row: "find (\<lambda>x. tk_hash x = hash_token sha raw) (ts_rows s) = Some row"
    using assms by (auto simp: lookup_token_def split: if_splits option.splits)
  have "row \<in> set (ts_rows s)" "tk_hash row = hash_token sha raw" using find_SomeD [OF row] by auto
  moreover have "tk_id row = tr_id r" "tk_revoked row = None" "tk_scopes row = Some (tr_scopes r)"
    "tk_roles row = Some (tr_roles r)"
    "case tk_expires row of None \<Rightarrow> True | Some (TimeOk t) \<Rightarrow> now < t | Some TimeUnparsable \<Rightarrow> False"
    using assms row
    by (auto simp: lookup_token_def Let_def split: if_splits option.splits stored_time.splits sum.splits)
  ultimately show ?thesis by (auto simp: live_token_def)
qed

interpretation stored_tokens: token_lookup "\<lambda>s. lookup_token sha now s" "live_token sha now" for sha now
  by unfold_locales (rule lookup_token_sound)

subsection \<open>Properties\<close>

text \<open>
  C6: authentication is sound. When a token is configured, a request passes only with a
  bearer credential that either hashes like the administrator token, and then carries
  exactly the configured administrator roles, or is the value of a stored token that is
  neither revoked nor expired and has the scope of the route; a stored token never passes an
  administrator-only route and never yields an administrator identity.
\<close>

theorem http_authentication_sound:
  assumes "auth_enabled env"
    and "authenticate_http sha env (map_option (lookup_token sha now) store) authorization scope adminOnly c = Authenticated c'"
  shows "\<exists>raw. bearer_token authorization = Some raw \<and>
     ((\<exists>adminToken roles. ae_token env = Some adminToken \<and> sha raw = sha adminToken \<and>
         configured_admin_roles (ae_admin_roles env) = Inr roles \<and>
         cx_identity c' = Some \<lparr> id_principal = ''admin'', id_roles = roles, id_is_admin = True \<rparr>) \<or>
      (\<exists>s r. store = Some s \<and> live_token sha now s raw r \<and> \<not> adminOnly \<and>
         (scope = [] \<or> scope \<in> set (tr_scopes r)) \<and>
         cx_identity c' = Some \<lparr> id_principal = tr_id r, id_roles = tr_roles r, id_is_admin = False \<rparr>))"
  by (rule stored_tokens.authenticate_sound [OF assms])

theorem http_authentication_sound_witness:
  "\<exists>c'. authenticate_http id \<lparr> ae_token = Some ''s3cret'', ae_admin_roles = ''hr'', ae_cors_origins = [] \<rparr>
      (map_option (lookup_token id 0) None) ''Bearer s3cret'' [] True background_ctx = Authenticated c' \<and>
    cx_identity c' = Some \<lparr> id_principal = ''admin'', id_roles = [''hr''], id_is_admin = True \<rparr>"
proof -
  let ?env = "\<lparr> ae_token = Some ''s3cret'', ae_admin_roles = ''hr'', ae_cors_origins = [] \<rparr>"
  have roles: "configured_admin_roles ''hr'' = Inr [''hr'']" by code_simp
  have bearer: "bearer_token ''Bearer s3cret'' = Some ''s3cret''" by code_simp
  obtain c' where c': "authenticate_http id ?env (map_option (lookup_token id 0) None) ''Bearer s3cret'' [] True
      background_ctx = Authenticated c'"
    by (simp add: authenticate_http_def roles bearer secure_token_equal_def Let_def)
  have "auth_enabled ?env" by (simp add: auth_enabled_def)
  from http_authentication_sound [OF this c'] c' roles show ?thesis by auto
qed

text \<open>
  C8: a created token works until it expires or is revoked. The raw value returned by
  \<open>CreateToken\<close> looks up to exactly the created record, with the normalized scopes and
  roles, at every time before its expiry, and the store keeps only its hash.
\<close>

theorem create_lookup_roundtrip:
  assumes "create_token sha now rawBytes idBytes request s = (Inr (record, raw), s')"
    and "case tr_expires_at record of None \<Rightarrow> True | Some t \<Rightarrow> later < t"
  shows "lookup_token sha later s' raw = Inr record \<and>
     normalize_roles (tq_roles request) = Inr (tr_roles record) \<and>
     normalize_scopes (tq_scopes request) = Inr (tr_scopes record) \<and>
     (\<exists>row. ts_rows s' = ts_rows s @ [row] \<and> tk_hash row = hash_token sha raw)"
proof -
  obtain roles scopes where rs: "normalize_roles (tq_roles request) = Inr roles"
      "normalize_scopes (tq_scopes request) = Inr scopes"
    using assms(1) by (auto simp: create_token_def split: if_splits sum.splits)
  define row where "row = \<lparr> tk_id = token_prefix @ hex_encode idBytes, tk_name = tq_name request,
      tk_hash = hash_token sha (token_prefix @ hex_encode rawBytes), tk_scopes = Some scopes, tk_roles = Some roles,
      tk_expires = map_option TimeOk (tq_expires_at request), tk_revoked = None, tk_created = TimeOk now \<rparr>"
  have ok: "\<not> ts_down s" "\<not> list_ex (\<lambda>r. tk_hash r = tk_hash row) (ts_rows s)"
    and s': "s' = s\<lparr> ts_rows := ts_rows s @ [row] \<rparr>"
    and raw: "raw = token_prefix @ hex_encode rawBytes"
    and rec: "record = \<lparr> tr_id = token_prefix @ hex_encode idBytes, tr_token_name = tq_name request, tr_scopes = scopes,
        tr_roles = roles, tr_expires_at = tq_expires_at request, tr_revoked_at = None, tr_created_at = now \<rparr>"
    using assms(1) rs by (auto simp: create_token_def Let_def row_def list_ex_iff split: if_splits)
  have "find (\<lambda>r. tk_hash r = hash_token sha raw) (ts_rows s') = Some row"
    using ok(2) by (auto simp: s' find_snoc row_def raw list_ex_iff find_None_iff split: option.splits
        dest: find_SomeD)
  then have "lookup_token sha later s' raw = Inr record"
    using ok(1) assms(2) by (simp add: lookup_token_def s' row_def rec Let_def split: option.splits)
  moreover have "tk_hash row = hash_token sha raw" by (simp add: row_def raw)
  ultimately show ?thesis using rs s' rec by auto
qed

theorem create_lookup_roundtrip_witness:
  "let (res, s') = create_token id 5 ''r'' ''i'' \<lparr> tq_name = ''ci'', tq_scopes = [''mcp''], tq_roles = [''hr''],
         tq_expires_at = Some 10 \<rparr> \<lparr> ts_rows = [], ts_down = False \<rparr>
   in \<exists>record raw. res = Inr (record, raw) \<and> lookup_token id 9 s' raw = Inr record"
proof -
  let ?req = "\<lparr> tq_name = ''ci'', tq_scopes = [''mcp''], tq_roles = [''hr''], tq_expires_at = Some 10 \<rparr>"
  let ?s = "\<lparr> ts_rows = [], ts_down = False \<rparr>"
  have "is_ok (fst (create_token id 5 ''r'' ''i'' ?req ?s)) \<and>
        (\<forall>x. fst (create_token id 5 ''r'' ''i'' ?req ?s) = Inr x \<longrightarrow> tr_expires_at (fst x) = Some 10)"
  proof -
    have "normalize_roles [''hr''] = Inr [''hr'']" "normalize_scopes [''mcp''] = Inr [''mcp'']" "trim_space ''ci'' \<noteq> []"
      by code_simp+
    then show ?thesis by (simp add: create_token_def Let_def)
  qed
  then obtain tok raw s' where c: "create_token id 5 ''r'' ''i'' ?req ?s = (Inr (tok, raw), s')"
      "tr_expires_at tok = Some 10"
    by (cases "create_token id 5 ''r'' ''i'' ?req ?s") (auto simp: is_ok_iff)
  from create_lookup_roundtrip [OF c(1), of 9] c show ?thesis by simp
qed

text \<open>Token operations over time.\<close>

datatype token_op =
    TkCreate timestamp string string token_create_request
  | TkRevoke timestamp string
  | TkOutage bool

fun token_step :: "(string \<Rightarrow> string) \<Rightarrow> token_op \<Rightarrow> token_store \<Rightarrow> token_store" where
  "token_step sha (TkCreate now raw i req) s = snd (create_token sha now raw i req s)"
| "token_step sha (TkRevoke now i) s = snd (revoke_token now i s)"
| "token_step sha (TkOutage down) s = s\<lparr> ts_down := down \<rparr>"

definition hash_revoked :: "string \<Rightarrow> token_store \<Rightarrow> bool" where
  "hash_revoked h s \<longleftrightarrow> (\<exists>r \<in> set (ts_rows s). tk_hash r = h) \<and>
     (\<forall>r \<in> set (ts_rows s). tk_hash r = h \<longrightarrow> tk_revoked r \<noteq> None)"

lemma token_step_revoked:
  assumes "hash_revoked h s"
  shows "hash_revoked h (token_step sha op s)"
proof (cases op)
  case (TkCreate now raw i req)
  have "ts_rows (token_step sha op s) = ts_rows s \<or>
      (\<exists>row. ts_rows (token_step sha op s) = ts_rows s @ [row] \<and> (\<forall>r \<in> set (ts_rows s). tk_hash r \<noteq> tk_hash row))"
    unfolding TkCreate token_step.simps
    by (auto simp: create_token_def Let_def list_ex_iff split: if_splits sum.splits option.splits)
  then show ?thesis
  proof
    assume "ts_rows (token_step sha op s) = ts_rows s"
    with assms show ?thesis by (simp add: hash_revoked_def)
  next
    assume "\<exists>row. ts_rows (token_step sha op s) = ts_rows s @ [row] \<and> (\<forall>r \<in> set (ts_rows s). tk_hash r \<noteq> tk_hash row)"
    then obtain row where row: "ts_rows (token_step sha op s) = ts_rows s @ [row]"
        "\<And>r. r \<in> set (ts_rows s) \<Longrightarrow> tk_hash r \<noteq> tk_hash row" by blast
    then have "tk_hash row \<noteq> h" using assms unfolding hash_revoked_def by metis
    with row(1) assms show ?thesis by (auto simp: hash_revoked_def)
  qed
next
  case (TkRevoke now i)
  then show ?thesis using assms by (auto simp: revoke_token_def hash_revoked_def Let_def)
next
  case (TkOutage d)
  then show ?thesis using assms by (simp add: hash_revoked_def)
qed

lemma token_run_revoked:
  "hash_revoked h s \<Longrightarrow> hash_revoked h (foldl (\<lambda>s op. token_step sha op s) s ops)"
  by (rule foldl_invariant [where P = "hash_revoked h"]) (simp_all add: token_step_revoked)

text \<open>
  C7: revocation is permanent. Once the token behind a presented value is revoked, no
  sequence of token creations, revocations and database outages makes that value
  authenticate again, on any route, unless it is the administrator token itself.
\<close>

theorem revoked_token_refused:
  assumes "auth_enabled env" and "bearer_token authorization = Some raw"
    and "\<forall>adminToken. ae_token env = Some adminToken \<longrightarrow> sha raw \<noteq> sha adminToken"
    and "tk_hash row = hash_token sha raw" and "row \<in> set (ts_rows s)"
    and "distinct (map tk_hash (ts_rows s))" and "distinct (map tk_id (ts_rows s))"
    and "revoke_token now (tk_id row) s = (None, s1)"
  shows "\<not> (\<exists>c'. authenticate_http sha env
     (Some (lookup_token sha later (foldl (\<lambda>s op. token_step sha op s) s1 ops))) authorization scope adminOnly c
       = Authenticated c')"
proof -
  have uniq: "r = row" if "r \<in> set (ts_rows s)" "tk_hash r = tk_hash row" for r
    using that assms(5,6) by (metis distinct_map inj_onD)
  have "hash_revoked (hash_token sha raw) s1"
  proof (cases "tk_revoked row")
    case None
    then have "s1 = s\<lparr> ts_rows := map (\<lambda>r. if tk_id r = tk_id row \<and> tk_revoked r = None
        then r\<lparr> tk_revoked := Some now \<rparr> else r) (ts_rows s) \<rparr>"
      using assms(5,8) by (auto simp: revoke_token_def Let_def list_ex_iff split: if_splits)
    then have rows: "ts_rows s1 = map (\<lambda>r. if tk_id r = tk_id row \<and> tk_revoked r = None
        then r\<lparr> tk_revoked := Some now \<rparr> else r) (ts_rows s)" by simp
    let ?mark = "\<lambda>r. if tk_id r = tk_id row \<and> tk_revoked r = None then r\<lparr> tk_revoked := Some now \<rparr> else r"
    have "tk_revoked (?mark r) \<noteq> None" if "r \<in> set (ts_rows s)" "tk_hash (?mark r) = tk_hash row" for r
    proof -
      have "tk_hash r = tk_hash row" using that(2) by (simp split: if_splits)
      with uniq [OF that(1)] None show ?thesis by simp
    qed
    then have "\<forall>r \<in> set (ts_rows s1). tk_hash r = tk_hash row \<longrightarrow> tk_revoked r \<noteq> None"
      unfolding rows set_map ball_simps by blast
    moreover have "?mark row \<in> set (ts_rows s1)" unfolding rows set_map by (rule imageI [OF assms(5)])
    moreover have "tk_hash (?mark row) = tk_hash row" by simp
    ultimately show ?thesis unfolding hash_revoked_def assms(4) [symmetric] by blast
  next
    case (Some x)
    have "s1 = s"
    proof -
      have "\<not> (\<exists>r \<in> set (ts_rows s). tk_id r = tk_id row \<and> tk_revoked r = None)"
        using assms(5,7) Some by (metis distinct_map inj_onD option.distinct(1))
      with assms(8) show ?thesis by (auto simp: revoke_token_def Let_def list_ex_iff split: if_splits)
    qed
    have "tk_revoked r \<noteq> None" if "r \<in> set (ts_rows s)" "tk_hash r = tk_hash row" for r
      using uniq [OF that] Some by simp
    with assms(5) \<open>s1 = s\<close> show ?thesis unfolding hash_revoked_def assms(4) [symmetric] by blast
  qed
  then have "hash_revoked (hash_token sha raw) (foldl (\<lambda>s op. token_step sha op s) s1 ops)"
    by (rule token_run_revoked)
  then have "\<not> live_token sha later (foldl (\<lambda>s op. token_step sha op s) s1 ops) raw r" for r
    by (auto simp: live_token_def hash_revoked_def)
  from stored_tokens.revoked_refused [OF assms(1) this assms(2)] assms(3) show ?thesis by blast
qed

theorem revoked_token_refused_witness:
  "let env = \<lparr> ae_token = Some ''s3cret'', ae_admin_roles = [], ae_cors_origins = [] \<rparr>;
       row = \<lparr> tk_id = ''t1'', tk_name = ''ci'', tk_hash = hash_token id ''tok'', tk_scopes = Some [''mcp''],
               tk_roles = Some [], tk_expires = None, tk_revoked = None, tk_created = TimeOk 1 \<rparr>;
       s1 = snd (revoke_token 5 ''t1'' \<lparr> ts_rows = [row], ts_down = False \<rparr>)
   in \<not> (\<exists>c'. authenticate_http id env (Some (lookup_token id 6 s1)) ''Bearer tok'' [] False background_ctx
        = Authenticated c')"
proof -
  let ?env = "\<lparr> ae_token = Some ''s3cret'', ae_admin_roles = [], ae_cors_origins = [] \<rparr>"
  let ?row = "\<lparr> tk_id = ''t1'', tk_name = ''ci'', tk_hash = hash_token id ''tok'', tk_scopes = Some [''mcp''],
     tk_roles = Some [], tk_expires = None, tk_revoked = None, tk_created = TimeOk 1 \<rparr>"
  let ?s = "\<lparr> ts_rows = [?row], ts_down = False \<rparr>"
  have e: "auth_enabled ?env" by (simp add: auth_enabled_def)
  have b: "bearer_token ''Bearer tok'' = Some ''tok''" by code_simp
  have n: "\<forall>t. ae_token ?env = Some t \<longrightarrow> id ''tok'' \<noteq> id t" by simp
  have r: "revoke_token 5 (tk_id ?row) ?s = (None, snd (revoke_token 5 ''t1'' ?s))"
    by (simp add: revoke_token_def)
  have h: "tk_hash ?row = hash_token id ''tok''" "?row \<in> set (ts_rows ?s)" "distinct (map tk_hash (ts_rows ?s))"
    "distinct (map tk_id (ts_rows ?s))" by simp_all
  from revoked_token_refused [OF e b n h r, where ops = "[]" and later = 6 and scope = "[]" and
      adminOnly = False and c = background_ctx]
  show ?thesis unfolding Let_def foldl.simps .
qed

subsection \<open>Role authorization\<close>

lemma authorize_role_ok:
  "authorize_role c t role = Inr c' \<longleftrightarrow>
     (\<exists>identity. cx_identity c = Some identity \<and> id_principal identity \<noteq> [] \<and>
        role \<in> set (id_roles identity) \<and> role \<in> set (tool_roles t) \<and> c' = with_caller_role role c)"
  by (auto simp: authorize_role_def split: option.splits)

lemma role_authz_runs_or_refuses:
  assumes "tool_roles t \<noteq> []"
  shows "(\<exists>e. role_authz_middleware t next c req s = (Returned (Some (role_error_result e)), s)) \<or>
     (\<exists>role c' req'. role \<noteq> [] \<and> authorize_role c t role = Inr c' \<and> role_authz_middleware t next c req s = next c' req' s \<and>
        rq_name req' = rq_name req \<and> rq_digest req' = rq_digest req \<and>
        (\<exists>args. call_arguments req = Inr args \<and>
           call_arguments req' = Inr (filter (\<lambda>p. fst p \<noteq> ''role'') args)))"
proof (cases "call_arguments req")
  case (Inl e)
  with assms show ?thesis by (auto simp: role_authz_middleware_def Let_def)
next
  case args: (Inr args)
  show ?thesis
  proof (cases "role_selector args")
    case (Inl e)
    with assms args show ?thesis by (auto simp: role_authz_middleware_def Let_def)
  next
    case sel: (Inr selected)
    show ?thesis
    proof (cases "case selected of None \<Rightarrow> caller_role c | Some r \<Rightarrow> Some r")
      case None
      with assms args sel show ?thesis by (auto simp: role_authz_middleware_def Let_def)
    next
      case role: (Some role)
      show ?thesis
      proof (cases "authorize_role c t role")
        case (Inl e)
        with assms args sel role show ?thesis by (auto simp: role_authz_middleware_def Let_def)
      next
        case c': (Inr c')
        define req' where "req' = (if map_of args ''role'' \<noteq> None
            then req\<lparr> rq_arguments := JObj (filter (\<lambda>p. fst p \<noteq> ''role'') args) \<rparr> else req)"
        have "role \<noteq> []"
          using sel role by (auto simp: role_selector_def caller_role_def is_ok_iff normalize_roles_ok role_pattern_def
              split: option.splits jval.splits if_splits)
        have "filter (\<lambda>p. fst p \<noteq> ''role'') args = args" if "map_of args ''role'' = None"
          using that by (force simp: map_of_eq_None_iff filter_id_conv)
        then have "call_arguments req' = Inr (filter (\<lambda>p. fst p \<noteq> ''role'') args)"
          using args by (auto simp: req'_def call_arguments_def)
        moreover have "role_authz_middleware t next c req s = next c' req' s"
          using assms args sel role c' by (simp add: role_authz_middleware_def Let_def req'_def)
        moreover have "rq_name req' = rq_name req" "rq_digest req' = rq_digest req" by (simp_all add: req'_def)
        ultimately show ?thesis using c' args \<open>role \<noteq> []\<close> by blast
      qed
    qed
  qed
qed

text \<open>
  A guarded tool runs only for an authorized role. Either the call is answered with an
  error result and nothing has run, or the inner handler runs once, with the same name and
  reviewed digest, without the \<open>role\<close> argument, and in a context whose role is both assigned
  to the verified identity of the caller and allowed by the tool.
\<close>

theorem guarded_tool_needs_role:
  assumes "tool_roles t \<noteq> []"
  shows "(\<exists>res. role_authz_middleware t next c req s = (Returned (Some res), s) \<and> cr_is_error res) \<or>
     (\<exists>identity role c' req'. cx_identity c = Some identity \<and> id_principal identity \<noteq> [] \<and>
        role \<in> set (id_roles identity) \<inter> set (tool_roles t) \<and>
        caller_role c' = Some role \<and> cx_identity c' = Some identity \<and>
        role_authz_middleware t next c req s = next c' req' s \<and>
        rq_name req' = rq_name req \<and> rq_digest req' = rq_digest req \<and>
        (\<exists>args. call_arguments req = Inr args \<and>
           call_arguments req' = Inr (filter (\<lambda>p. fst p \<noteq> ''role'') args)))"
proof -
  from role_authz_runs_or_refuses [OF assms, of "next" c req s] show ?thesis
  proof (elim disjE exE conjE)
    fix e assume "role_authz_middleware t next c req s = (Returned (Some (role_error_result e)), s)"
    moreover have "cr_is_error (role_error_result e)"
      by (cases e) (simp add: role_error_result_def new_tool_execution_result_def Let_def)
    ultimately show ?thesis by blast
  next
    fix role c' req' args
    assume h: "role \<noteq> []" "authorize_role c t role = Inr c'"
      "role_authz_middleware t next c req s = next c' req' s" "rq_name req' = rq_name req"
      "rq_digest req' = rq_digest req" "call_arguments req = Inr args"
      "call_arguments req' = Inr (filter (\<lambda>p. fst p \<noteq> ''role'') args)"
    from h(2) obtain identity where i: "cx_identity c = Some identity" "id_principal identity \<noteq> []"
        "role \<in> set (id_roles identity) \<inter> set (tool_roles t)" "c' = with_caller_role role c"
      by (auto simp: authorize_role_ok)
    have "caller_role c' = Some role" "cx_identity c' = Some identity"
      using i h(1) by (simp_all add: with_caller_role_def caller_role_def)
    with i h(3-) show ?thesis by blast
  qed
qed

definition with_allowed_roles :: "string list \<Rightarrow> tool \<Rightarrow> tool" where
  "with_allowed_roles roles t =
     t\<lparr> tl_spec := (tl_spec t)\<lparr> ts_security := (ts_security (tl_spec t))\<lparr> se_allowed_roles := roles \<rparr> \<rparr> \<rparr>"

lemma tool_roles_with_allowed [simp]: "tool_roles (with_allowed_roles roles t) = roles"
  by (simp add: with_allowed_roles_def tool_roles_def)

theorem guarded_tool_needs_role_witness:
  "let t = with_allowed_roles [''hr''] (blank_tool ''payroll'' ''1'')
   in tool_roles t \<noteq> [] \<and> (\<exists>res. role_authz_middleware t (\<lambda>_ _ s. (Returned None, s + 1)) background_ctx
        \<lparr> rq_name = ''payroll'', rq_arguments = JNull, rq_digest = [] \<rparr> (0 :: nat) = (Returned (Some res), 0) \<and> cr_is_error res)"
proof -
  let ?t = "with_allowed_roles [''hr''] (blank_tool ''payroll'' ''1'')"
  have t: "tool_roles ?t \<noteq> []" by simp
  from guarded_tool_needs_role [OF t, of "\<lambda>_ _ s. (Returned None, s + 1)" background_ctx
      "\<lparr> rq_name = ''payroll'', rq_arguments = JNull, rq_digest = [] \<rparr>" "0 :: nat"]
  show ?thesis unfolding Let_def using t by (simp add: background_ctx_def)
qed

end
