(* ===== verification/Call_Limits.thy ===== *)
theory Call_Limits
  imports Access
begin

text \<open>
  The limits of internal/mcp/middleware.go: the per-tool concurrency limiter, the
  per-principal rate limiters and the Retry-After text. The clock is an argument. The
  token bucket of golang.org/x/time/rate is a parameter (\<open>rate_ops\<close>).
\<close>

subsection \<open>Who is limited\<close>

definition anonymous_principal :: string where "anonymous_principal = ''anonymous''"
definition max_limiter_entries :: nat where "max_limiter_entries = 10000"
definition limiter_idle_ttl :: duration where "limiter_idle_ttl = 15 * 60 * second"

definition execution_principal :: "ctx \<Rightarrow> string" where
  "execution_principal c =
     (if cx_rate_principal c \<noteq> [] then cx_rate_principal c
      else case cx_session c of Some session \<Rightarrow> session | None \<Rightarrow> anonymous_principal)"

definition rate_limit_scope :: "ctx \<Rightarrow> string" where
  "rate_limit_scope c =
     (if cx_rate_principal c \<noteq> [] then ''principal''
      else if cx_session c \<noteq> None then ''session'' else anonymous_principal)"

subsection \<open>Concurrency\<close>

text \<open>
  An entry of the map is a pointer, compared by identity in the release function:
  \<open>cn_id\<close> is its address. \<open>cn_slots\<close> is the number of values in the channel, whose
  capacity is the limit.
\<close>

record conc_entry =
  cn_id :: nat
  cn_slots :: nat
  cn_last_seen :: timestamp
  cn_active :: nat
  cn_limit :: int
  cn_per_principal :: bool

record conc_limiter =
  cl_entries :: "(string \<times> conc_entry) list"
  cl_next :: nat

definition new_tool_concurrency_limiter :: conc_limiter where
  "new_tool_concurrency_limiter = \<lparr> cl_entries = [], cl_next = 0 \<rparr>"

text \<open>What \<open>acquire\<close> returns to be called on completion.\<close>

datatype conc_release = NoRelease | Release string nat

definition conc_key :: "string \<Rightarrow> string \<Rightarrow> tool_concurrency \<Rightarrow> string" where
  "conc_key toolName who config =
     (if tc_per_principal config then toolName @ [CHR 0x00] @ who else toolName)"

definition conc_idle :: "timestamp \<Rightarrow> conc_entry \<Rightarrow> bool" where
  "conc_idle now e \<longleftrightarrow> cn_active e = 0 \<and> now - cn_last_seen e > limiter_idle_ttl"

definition conc_insert ::
  "timestamp \<Rightarrow> string \<Rightarrow> tool_concurrency \<Rightarrow> conc_limiter \<Rightarrow> conc_release option \<times> conc_limiter" where
  "conc_insert now key config m =
     (let m1 = (if length (cl_entries m) \<ge> max_limiter_entries
                then m\<lparr> cl_entries := filter (\<lambda>p. \<not> conc_idle now (snd p)) (cl_entries m) \<rparr> else m)
      in if length (cl_entries m1) \<ge> max_limiter_entries then (None, m1)
         else
           let entry = \<lparr> cn_id = cl_next m1, cn_slots = 1, cn_last_seen = now, cn_active = 1,
                         cn_limit = tc_limit config, cn_per_principal = tc_per_principal config \<rparr>
           in (Some (Release key (cl_next m1)),
               \<lparr> cl_entries = amap_put key entry (cl_entries m1), cl_next = Suc (cl_next m1) \<rparr>))"

definition acquire_slot ::
  "timestamp \<Rightarrow> string \<Rightarrow> string \<Rightarrow> tool_concurrency \<Rightarrow> conc_limiter \<Rightarrow> conc_release option \<times> conc_limiter" where
  "acquire_slot now toolName who config m =
     (if tc_limit config \<le> 0 then (Some NoRelease, m)
      else
        let key = conc_key toolName who config in
        case map_of (cl_entries m) key of
          None \<Rightarrow> conc_insert now key config m
        | Some entry \<Rightarrow>
            if cn_limit entry \<noteq> tc_limit config \<or> cn_per_principal entry \<noteq> tc_per_principal config then
              (if cn_active entry > 0 then (None, m)
               else conc_insert now key config (m\<lparr> cl_entries := amap_del key (cl_entries m) \<rparr>))
            else if int (cn_slots entry) < cn_limit entry then
              (Some (Release key (cn_id entry)),
               m\<lparr> cl_entries := amap_put key
                   (entry\<lparr> cn_slots := Suc (cn_slots entry), cn_active := Suc (cn_active entry) \<rparr>) (cl_entries m) \<rparr>)
            else (None, m))"

fun release_slot :: "timestamp \<Rightarrow> conc_release \<Rightarrow> conc_limiter \<Rightarrow> conc_limiter" where
  "release_slot now NoRelease m = m"
| "release_slot now (Release key i) m = (case map_of (cl_entries m) key of
       None \<Rightarrow> m
     | Some entry \<Rightarrow>
         if cn_id entry \<noteq> i then m
         else if cn_slots entry = 0 then m
         else m\<lparr> cl_entries := amap_put key
                (entry\<lparr> cn_slots := cn_slots entry - 1, cn_active := cn_active entry - 1, cn_last_seen := now \<rparr>)
                (cl_entries m) \<rparr>)"

text \<open>The nil limiter grants every call.\<close>

definition acquire ::
  "timestamp \<Rightarrow> string \<Rightarrow> string \<Rightarrow> tool_concurrency \<Rightarrow> conc_limiter option \<Rightarrow>
     conc_release option \<times> conc_limiter option" where
  "acquire now toolName who config mo = (case mo of
       None \<Rightarrow> (Some NoRelease, None)
     | Some m \<Rightarrow> (case acquire_slot now toolName who config m of (r, m') \<Rightarrow> (r, Some m')))"

definition release_func :: "timestamp \<Rightarrow> conc_release \<Rightarrow> conc_limiter option \<Rightarrow> conc_limiter option" where
  "release_func now r mo = map_option (release_slot now r) mo"

subsection \<open>Calls over time\<close>

text \<open>
  The calls that hold a slot are a list of release functions; a call acquires, is refused,
  or completes and runs its release function once.
\<close>

inductive conc_step :: "conc_limiter \<times> conc_release list \<Rightarrow> conc_limiter \<times> conc_release list \<Rightarrow> bool" where
  Acquired: "acquire_slot now toolName who config m = (Some r, m') \<Longrightarrow>
     conc_step (m, running) (m', r # running)"
| Refused: "acquire_slot now toolName who config m = (None, m') \<Longrightarrow>
     conc_step (m, running) (m', running)"
| Completed: "r \<in> set running \<Longrightarrow> conc_step (m, running) (release_slot now r m, remove1 r running)"

inductive_cases conc_stepE: "conc_step (m, running) st'"

inductive conc_reachable :: "conc_limiter \<times> conc_release list \<Rightarrow> bool" where
  Start: "conc_reachable (new_tool_concurrency_limiter, [])"
| Step: "conc_reachable st \<Longrightarrow> conc_step st st' \<Longrightarrow> conc_reachable st'"

fun holds :: "string \<Rightarrow> conc_release \<Rightarrow> bool" where
  "holds key NoRelease = False"
| "holds key (Release k i) = (k = key)"

definition running_calls :: "string \<Rightarrow> conc_release list \<Rightarrow> nat" where
  "running_calls key running = length (filter (holds key) running)"

definition entry_ok :: "conc_release list \<Rightarrow> string \<Rightarrow> conc_entry \<Rightarrow> bool" where
  "entry_ok running key e \<longleftrightarrow> 1 \<le> cn_limit e \<and> cn_slots e = cn_active e \<and> int (cn_active e) \<le> cn_limit e \<and>
     cn_active e = running_calls key running"

definition conc_inv :: "conc_limiter \<Rightarrow> conc_release list \<Rightarrow> bool" where
  "conc_inv m running \<longleftrightarrow> amap_wf (cl_entries m) \<and> length (cl_entries m) \<le> max_limiter_entries \<and>
     (\<forall>key e. map_of (cl_entries m) key = Some e \<longrightarrow> entry_ok running key e) \<and>
     (\<forall>key i. Release key i \<in> set running \<longrightarrow>
        (\<exists>e. map_of (cl_entries m) key = Some e \<and> cn_id e = i))"

lemma conc_invD:
  assumes "conc_inv m running"
  shows "amap_wf (cl_entries m)" "length (cl_entries m) \<le> max_limiter_entries"
    "map_of (cl_entries m) key = Some e \<Longrightarrow> entry_ok running key e"
    "Release key i \<in> set running \<Longrightarrow> \<exists>e. map_of (cl_entries m) key = Some e \<and> cn_id e = i"
  using assms by (auto simp: conc_inv_def)

lemma running_calls_Cons [simp]:
  "running_calls key (r # running) = (if holds key r then Suc (running_calls key running) else running_calls key running)"
  by (simp add: running_calls_def)

lemma running_calls_zero:
  assumes "conc_inv m running" and "map_of (cl_entries m) key = None"
  shows "running_calls key running = 0"
proof -
  have "\<not> holds key r" if r: "r \<in> set running" for r
    using conc_invD(4) [OF assms(1)] assms(2) r by (cases r) fastforce+
  then show ?thesis by (simp add: running_calls_def filter_empty_conv)
qed

lemma running_calls_remove1:
  assumes "Release key i \<in> set running"
  shows "running_calls k (remove1 (Release key i) running) =
     (if k = key then running_calls k running - 1 else running_calls k running)"
proof -
  have "filter (holds k) (remove1 (Release key i) running) =
      (if k = key then remove1 (Release key i) (filter (holds k) running) else filter (holds k) running)"
    by (induction running) auto
  moreover have "Release key i \<in> set (filter (holds key) running)" using assms by simp
  ultimately show ?thesis by (auto simp: running_calls_def length_remove1)
qed

lemma length_amap_put: "amap_wf m \<Longrightarrow>
  length (amap_put k v m) = (if k \<in> fst ` set m then length m else Suc (length m))"
proof (induction m)
  case (Cons p m)
  then show ?case
    by (cases "fst p = k") (auto simp: amap_put_def filter_id_conv rev_image_eqI)
qed (simp add: amap_put_def)

lemma map_of_filter_wf:
  "amap_wf m \<Longrightarrow> map_of (filter (\<lambda>p. P (snd p)) m) k = (case map_of m k of None \<Rightarrow> None | Some v \<Rightarrow> if P v then Some v else None)"
  by (induction m) (auto split: option.splits simp: map_of_eq_None_iff image_iff)

lemma running_positive:
  "Release key i \<in> set running \<Longrightarrow> 0 < running_calls key running"
  by (auto simp: running_calls_def length_greater_0_conv filter_empty_conv intro: bexI [of _ "Release key i"])

lemma conc_inv_drop:
  assumes inv: "conc_inv m running" and idle: "\<And>p. \<not> P p \<Longrightarrow> p \<in> set (cl_entries m) \<Longrightarrow> cn_active (snd p) = 0"
  shows "conc_inv (m\<lparr> cl_entries := filter P (cl_entries m) \<rparr>) running"
proof -
  have wf: "amap_wf (filter P (cl_entries m))" using conc_invD(1) [OF inv] by (rule amap_wf_filter)
  have sub: "map_of (cl_entries m) key = Some e" if "map_of (filter P (cl_entries m)) key = Some e" for key e
    using that wf conc_invD(1) [OF inv] by (auto simp: amap_mem_iff [symmetric] simp del: map_of_eq_Some_iff
        dest: map_of_SomeD)
  have keep: "map_of (filter P (cl_entries m)) key = Some e"
    if r: "Release key i \<in> set running" and e: "map_of (cl_entries m) key = Some e" for key i e
  proof -
    have "0 < cn_active e" using conc_invD(3) [OF inv e] running_positive [OF r] by (simp add: entry_ok_def)
    moreover have "(key, e) \<in> set (cl_entries m)" using e by (rule map_of_SomeD)
    ultimately have "(key, e) \<in> set (filter P (cl_entries m))" using idle [of "(key, e)"] by auto
    then show ?thesis using wf by simp
  qed
  have "\<exists>e. map_of (filter P (cl_entries m)) key = Some e \<and> cn_id e = i"
    if r: "Release key i \<in> set running" for key i
    using conc_invD(4) [OF inv r] keep [OF r] by blast
  moreover have "length (filter P (cl_entries m)) \<le> max_limiter_entries"
    using conc_invD(2) [OF inv] length_filter_le le_trans by blast
  ultimately show ?thesis using wf sub conc_invD(3) [OF inv] by (simp add: conc_inv_def)
qed

lemma conc_inv_put:
  assumes inv: "conc_inv m running" and room: "length (amap_put key e (cl_entries m)) \<le> max_limiter_entries"
    and e: "entry_ok running' key e"
    and ids: "\<And>i. Release key i \<in> set running' \<Longrightarrow> i = cn_id e"
    and others: "\<And>k i. k \<noteq> key \<Longrightarrow> Release k i \<in> set running' \<Longrightarrow> Release k i \<in> set running"
    and counts: "\<And>k. k \<noteq> key \<Longrightarrow> running_calls k running' = running_calls k running"
  shows "conc_inv \<lparr> cl_entries = amap_put key e (cl_entries m), cl_next = n \<rparr> running'"
  unfolding conc_inv_def
proof (intro conjI allI impI)
  show "amap_wf (cl_entries \<lparr> cl_entries = amap_put key e (cl_entries m), cl_next = n \<rparr>)"
    using conc_invD(1) [OF inv] by simp
  show "length (cl_entries \<lparr> cl_entries = amap_put key e (cl_entries m), cl_next = n \<rparr>) \<le> max_limiter_entries"
    using room by simp
next
  fix k e'
  assume "map_of (cl_entries \<lparr> cl_entries = amap_put key e (cl_entries m), cl_next = n \<rparr>) k = Some e'"
  then show "entry_ok running' k e'"
    using e conc_invD(3) [OF inv, of k e'] counts [of k] by (auto simp: entry_ok_def split: if_splits)
next
  fix k i
  assume r: "Release k i \<in> set running'"
  show "\<exists>e'. map_of (cl_entries \<lparr> cl_entries = amap_put key e (cl_entries m), cl_next = n \<rparr>) k = Some e' \<and> cn_id e' = i"
  proof (cases "k = key")
    case True
    with ids r show ?thesis by auto
  next
    case False
    with conc_invD(4) [OF inv others [OF False r]] show ?thesis by simp
  qed
qed

lemma conc_insert_inv:
  assumes inv: "conc_inv m running" and none: "map_of (cl_entries m) key = None" and lim: "1 \<le> tc_limit config"
    and step: "conc_insert now key config m = (res, m')"
  shows "case res of None \<Rightarrow> conc_inv m' running | Some r \<Rightarrow> conc_inv m' (r # running)"
proof -
  define m1 where "m1 = (if length (cl_entries m) \<ge> max_limiter_entries
      then m\<lparr> cl_entries := filter (\<lambda>p. \<not> conc_idle now (snd p)) (cl_entries m) \<rparr> else m)"
  have inv1: "conc_inv m1 running"
    using inv conc_inv_drop [OF inv, of "\<lambda>p. \<not> conc_idle now (snd p)"] by (auto simp: m1_def conc_idle_def)
  have none1: "map_of (cl_entries m1) key = None"
    using none by (auto simp: m1_def map_of_eq_None_iff)
  show ?thesis
  proof (cases "length (cl_entries m1) \<ge> max_limiter_entries")
    case True
    with step inv1 show ?thesis by (auto simp: conc_insert_def Let_def m1_def [symmetric])
  next
    case False
    define entry where "entry = \<lparr> cn_id = cl_next m1, cn_slots = 1, cn_last_seen = now, cn_active = 1,
        cn_limit = tc_limit config, cn_per_principal = tc_per_principal config \<rparr>"
    have r: "res = Some (Release key (cl_next m1))"
      and m': "m' = \<lparr> cl_entries = amap_put key entry (cl_entries m1), cl_next = Suc (cl_next m1) \<rparr>"
      using step False by (auto simp: conc_insert_def Let_def m1_def [symmetric] entry_def)
    have zero: "running_calls key running = 0" by (rule running_calls_zero [OF inv1 none1])
    have fresh: "Release key i \<notin> set running" for i using running_positive [of key i running] zero by auto
    have "length (amap_put key entry (cl_entries m1)) \<le> max_limiter_entries"
      using False length_amap_put [OF conc_invD(1) [OF inv1], of key entry] by (auto split: if_splits)
    moreover have "entry_ok (Release key (cl_next m1) # running) key entry"
      using zero lim by (simp add: entry_ok_def entry_def)
    ultimately have "conc_inv m' (Release key (cl_next m1) # running)"
      unfolding m' using fresh by (intro conc_inv_put [OF inv1]) (auto simp: entry_def)
    with r show ?thesis by simp
  qed
qed

lemma entry_ok_bound:
  "entry_ok running key e \<Longrightarrow>
     cn_active e = running_calls key running \<and> int (running_calls key running) \<le> cn_limit e"
  by (auto simp: entry_ok_def)

lemma conc_inv_cong:
  assumes "conc_inv m running" and "\<And>k. running_calls k running' = running_calls k running"
    and "\<And>k i. Release k i \<in> set running' \<Longrightarrow> Release k i \<in> set running"
  shows "conc_inv m running'"
proof -
  have "entry_ok running' k e = entry_ok running k e" for k e by (simp add: entry_ok_def assms(2))
  then show ?thesis using assms(1,3) unfolding conc_inv_def by metis
qed

lemma limiter_update: "m\<lparr> cl_entries := xs \<rparr> = \<lparr> cl_entries = xs, cl_next = cl_next m \<rparr>"
  by (cases m) simp

lemma acquire_slot_inv:
  assumes inv: "conc_inv m running" and step: "acquire_slot now toolName who config m = (res, m')"
  shows "case res of None \<Rightarrow> conc_inv m' running | Some r \<Rightarrow> conc_inv m' (r # running)"
proof (cases "tc_limit config \<le> 0")
  case True
  then have "res = Some NoRelease" "m' = m" using step by (simp_all add: acquire_slot_def)
  moreover have "conc_inv m (NoRelease # running)" by (rule conc_inv_cong [OF inv]) auto
  ultimately show ?thesis by simp
next
  case lim: False
  let ?key = "conc_key toolName who config"
  show ?thesis
  proof (cases "map_of (cl_entries m) ?key")
    case None
    with step lim have "conc_insert now ?key config m = (res, m')" by (simp add: acquire_slot_def Let_def)
    from conc_insert_inv [OF inv None _ this] lim show ?thesis by simp
  next
    case (Some e)
    note ok = conc_invD(3) [OF inv Some]
    show ?thesis
    proof (cases "cn_limit e \<noteq> tc_limit config \<or> cn_per_principal e \<noteq> tc_per_principal config")
      case differs: True
      show ?thesis
      proof (cases "cn_active e > 0")
        case True
        with step lim Some differs inv show ?thesis by (auto simp: acquire_slot_def Let_def)
      next
        case idle: False
        let ?m = "m\<lparr> cl_entries := amap_del ?key (cl_entries m) \<rparr>"
        have "conc_inv ?m running"
          unfolding amap_del_def
          by (rule conc_inv_drop [OF inv])
             (use idle Some conc_invD(1) [OF inv] in \<open>auto simp: amap_mem_iff [symmetric] dest: eq_key_imp_eq_value\<close>)
        moreover have "map_of (cl_entries ?m) ?key = None" by simp
        moreover have "conc_insert now ?key config ?m = (res, m')"
          using step lim Some differs idle by (simp add: acquire_slot_def Let_def)
        ultimately show ?thesis using conc_insert_inv [of ?m running ?key config now res m'] lim by simp
      qed
    next
      case same: False
      show ?thesis
      proof (cases "int (cn_slots e) < cn_limit e")
        case full: False
        with step lim Some same inv show ?thesis by (auto simp: acquire_slot_def Let_def)
      next
        case room: True
        let ?e = "e\<lparr> cn_slots := Suc (cn_slots e), cn_active := Suc (cn_active e) \<rparr>"
        let ?r = "Release ?key (cn_id e)"
        have out: "res = Some ?r" "m' = \<lparr> cl_entries = amap_put ?key ?e (cl_entries m), cl_next = cl_next m \<rparr>"
          using step lim Some same room by (auto simp: acquire_slot_def Let_def limiter_update)
        have "?key \<in> fst ` set (cl_entries m)" using Some by (metis weak_map_of_SomeI map_of_eq_None_iff option.distinct(1))
        then have "length (amap_put ?key ?e (cl_entries m)) \<le> max_limiter_entries"
          using conc_invD(1,2) [OF inv] by (simp add: length_amap_put)
        moreover have "entry_ok (?r # running) ?key ?e" using ok room by (simp add: entry_ok_def)
        moreover have "i = cn_id ?e" if "Release ?key i \<in> set (?r # running)" for i
          using that conc_invD(4) [OF inv, of ?key i] Some by auto
        ultimately have "conc_inv m' (?r # running)"
          unfolding out(2) by (intro conc_inv_put [OF inv]) auto
        with out(1) show ?thesis by simp
      qed
    qed
  qed
qed

lemma release_slot_inv:
  assumes inv: "conc_inv m running" and r: "r \<in> set running"
  shows "conc_inv (release_slot now r m) (remove1 r running)"
proof (cases r)
  case NoRelease
  have "running_calls k (remove1 NoRelease running) = running_calls k running" for k
    by (induction running) (auto simp: running_calls_def)
  then have "conc_inv m (remove1 NoRelease running)"
    by (rule conc_inv_cong [OF inv]) (use set_remove1_subset in fastforce)
  with NoRelease show ?thesis by simp
next
  case (Release key i)
  note r' = r [unfolded Release]
  obtain e where e: "map_of (cl_entries m) key = Some e" "cn_id e = i" using conc_invD(4) [OF inv r'] by auto
  note ok = conc_invD(3) [OF inv e(1)]
  have pos: "0 < running_calls key running" by (rule running_positive [OF r'])
  let ?e = "e\<lparr> cn_slots := cn_slots e - 1, cn_active := cn_active e - 1, cn_last_seen := now \<rparr>"
  have out: "release_slot now r m = \<lparr> cl_entries = amap_put key ?e (cl_entries m), cl_next = cl_next m \<rparr>"
    using e ok pos by (simp add: Release entry_ok_def limiter_update)
  have "key \<in> fst ` set (cl_entries m)" using e(1) by (metis map_of_eq_None_iff option.distinct(1))
  then have "length (amap_put key ?e (cl_entries m)) \<le> max_limiter_entries"
    using conc_invD(1,2) [OF inv] by (simp add: length_amap_put)
  moreover have "entry_ok (remove1 r running) key ?e"
    using ok pos running_calls_remove1 [OF r', of key] by (auto simp: entry_ok_def Release)
  moreover have "j = cn_id ?e" if "Release key j \<in> set (remove1 r running)" for j
    using conc_invD(4) [OF inv set_remove1_subset [THEN subsetD, OF that]] e by auto
  moreover have "Release k j \<in> set running" if "Release k j \<in> set (remove1 r running)" for k j
    using that by (metis notin_set_remove1)
  ultimately show ?thesis
    unfolding out using running_calls_remove1 [OF r'] by (intro conc_inv_put [OF inv]) (auto simp: Release)
qed

lemma conc_step_inv: "conc_step (m, running) (m', running') \<Longrightarrow> conc_inv m running \<Longrightarrow> conc_inv m' running'"
  by (erule conc_stepE) (auto dest: acquire_slot_inv release_slot_inv)

lemma conc_reachable_inv: "conc_reachable st \<Longrightarrow> conc_inv (fst st) (snd st)"
proof (induction rule: conc_reachable.induct)
  case Start
  show ?case by (simp add: conc_inv_def new_tool_concurrency_limiter_def)
next
  case (Step st st')
  then show ?case using conc_step_inv [of "fst st" "snd st" "fst st'" "snd st'"] by simp
qed

text \<open>
  C26: the concurrency limit is enforced. In every state that acquisitions, refusals and
  completions can reach, the calls that hold a slot of an entry are exactly the active
  calls it counts and at most its limit, every call that holds a slot has its entry, and
  the table has at most 10000 entries.
\<close>

theorem concurrency_limit_enforced:
  assumes "conc_reachable (m, running)"
  shows "(\<forall>key e. map_of (cl_entries m) key = Some e \<longrightarrow>
        cn_active e = running_calls key running \<and> int (running_calls key running) \<le> cn_limit e) \<and>
     (\<forall>key. 0 < running_calls key running \<longrightarrow> map_of (cl_entries m) key \<noteq> None) \<and>
     length (cl_entries m) \<le> 10000"
proof -
  have inv: "conc_inv m running" using conc_reachable_inv [OF assms] by simp
  have "map_of (cl_entries m) key \<noteq> None" if "0 < running_calls key running" for key
    using that running_calls_zero [OF inv, of key] by auto
  then show ?thesis
    using conc_invD(2) [OF inv] entry_ok_bound [OF conc_invD(3) [OF inv]]
    by (simp add: max_limiter_entries_def)
qed

theorem concurrency_limit_enforced_witness:
  "let config = \<lparr> tc_limit = 1, tc_per_principal = True \<rparr>;
       (r, m) = acquire_slot 0 ''t'' ''p'' config new_tool_concurrency_limiter
   in running_calls (conc_key ''t'' ''p'' config) [the r] = 1 \<and>
      (\<forall>key e. map_of (cl_entries m) key = Some e \<longrightarrow> int (running_calls key [the r]) \<le> cn_limit e)"
proof -
  let ?config = "\<lparr> tc_limit = 1, tc_per_principal = True \<rparr>"
  obtain r m where a: "acquire_slot 0 ''t'' ''p'' ?config new_tool_concurrency_limiter = (Some r, m)"
      "holds (conc_key ''t'' ''p'' ?config) r"
    by (simp add: acquire_slot_def conc_insert_def new_tool_concurrency_limiter_def max_limiter_entries_def Let_def)
  have "conc_reachable (m, [r])" by (rule conc_reachable.Step [OF conc_reachable.Start conc_step.Acquired [OF a(1)]])
  from concurrency_limit_enforced [OF this]
  have "\<forall>key e. map_of (cl_entries m) key = Some e \<longrightarrow> int (running_calls key [r]) \<le> cn_limit e" by metis
  moreover have "running_calls (conc_key ''t'' ''p'' ?config) [r] = 1" using a(2) by (simp add: running_calls_def)
  ultimately show ?thesis using a(1) by simp
qed

lemma conc_insert_refused:
  assumes "conc_insert now key config m = (None, m')"
  shows "max_limiter_entries \<le> length (filter (\<lambda>p. \<not> conc_idle now (snd p)) (cl_entries m))"
  using assms by (auto simp: conc_insert_def Let_def split: if_splits)

text \<open>
  A call is refused only for a reason. In a reachable state, a call is turned away
  exactly because as many calls as its limit already run under its key, or because calls
  admitted under another configuration of the tool still run, or because the table is full
  of entries that are busy or were used within the idle time.
\<close>

theorem concurrency_refusal_justified:
  assumes "conc_reachable (m, running)"
    and "acquire_slot now toolName who config m = (None, m')"
  shows "let n = int (running_calls (conc_key toolName who config) running) in
     n = tc_limit config \<or>
     (0 < n \<and> (\<exists>e. map_of (cl_entries m) (conc_key toolName who config) = Some e \<and>
        (cn_limit e, cn_per_principal e) \<noteq> (tc_limit config, tc_per_principal config))) \<or>
     10000 \<le> length (filter (\<lambda>p. \<not> conc_idle now (snd p)) (cl_entries m))"
proof -
  have inv: "conc_inv m running" using conc_reachable_inv [OF assms(1)] by simp
  let ?key = "conc_key toolName who config"
  have lim: "0 < tc_limit config" using assms(2) by (simp add: acquire_slot_def split: if_splits)
  show ?thesis
  proof (cases "map_of (cl_entries m) ?key")
    case None
    then have "conc_insert now ?key config m = (None, m')"
      using assms(2) lim by (simp add: acquire_slot_def Let_def)
    from conc_insert_refused [OF this] show ?thesis by (simp add: Let_def max_limiter_entries_def)
  next
    case (Some e)
    note ok = conc_invD(3) [OF inv Some, unfolded entry_ok_def]
    show ?thesis
    proof (cases "cn_limit e \<noteq> tc_limit config \<or> cn_per_principal e \<noteq> tc_per_principal config")
      case False
      then have "\<not> int (cn_slots e) < cn_limit e"
        using assms(2) lim Some by (auto simp: acquire_slot_def Let_def split: if_splits)
      with ok False show ?thesis by (simp add: Let_def)
    next
      case differs: True
      show ?thesis
      proof (cases "0 < cn_active e")
        case True
        with ok differs Some show ?thesis by (simp add: Let_def)
      next
        case False
        then have "conc_insert now ?key config (m\<lparr> cl_entries := amap_del ?key (cl_entries m) \<rparr>) = (None, m')"
          using assms(2) lim Some differs by (simp add: acquire_slot_def Let_def)
        from conc_insert_refused [OF this]
        have "max_limiter_entries \<le> length (filter (\<lambda>p. \<not> conc_idle now (snd p)) (amap_del ?key (cl_entries m)))"
          by simp
        also have "\<dots> \<le> length (filter (\<lambda>p. \<not> conc_idle now (snd p)) (cl_entries m))"
          by (simp add: amap_del_def length_filter_conv_card filter_filter conj_commute)
             (rule card_mono, auto)
        finally show ?thesis by (simp add: Let_def max_limiter_entries_def)
      qed
    qed
  qed
qed

theorem concurrency_refusal_justified_witness:
  "let config = \<lparr> tc_limit = 1, tc_per_principal = True \<rparr>;
       (r, m) = acquire_slot 0 ''t'' ''p'' config new_tool_concurrency_limiter
   in fst (acquire_slot 1 ''t'' ''p'' config m) = None \<and>
      int (running_calls (conc_key ''t'' ''p'' config) [the r]) = tc_limit config"
proof -
  let ?config = "\<lparr> tc_limit = 1, tc_per_principal = True \<rparr>"
  obtain r m where a: "acquire_slot 0 ''t'' ''p'' ?config new_tool_concurrency_limiter = (Some r, m)"
      "fst (acquire_slot 1 ''t'' ''p'' ?config m) = None"
      "\<exists>e. map_of (cl_entries m) (conc_key ''t'' ''p'' ?config) = Some e \<and> cn_limit e = 1 \<and> cn_per_principal e"
      "length (cl_entries m) = 1"
    by (simp add: acquire_slot_def conc_insert_def new_tool_concurrency_limiter_def max_limiter_entries_def Let_def
        amap_put_def)
  have r: "conc_reachable (m, [r])" by (rule conc_reachable.Step [OF conc_reachable.Start conc_step.Acquired [OF a(1)]])
  have "length (filter (\<lambda>p. \<not> conc_idle 1 (snd p)) (cl_entries m)) \<le> 1"
    using a(4) length_filter_le [of "\<lambda>p. \<not> conc_idle 1 (snd p)" "cl_entries m"] by simp
  with concurrency_refusal_justified [OF r, of 1 "''t''" "''p''" ?config "snd (acquire_slot 1 ''t'' ''p'' ?config m)"] a
  show ?thesis by (auto simp: Let_def prod_eq_iff)
qed

subsection \<open>Rate limits\<close>

text \<open>
  The token bucket of golang.org/x/time/rate: \<open>NewLimiter\<close>, \<open>ReserveN\<close> (whether
  the reservation is granted, and the reservation), \<open>DelayFrom\<close> and \<open>CancelAt\<close>.
\<close>

record ('l, 'r) rate_ops =
  rt_new :: "go_float \<Rightarrow> int \<Rightarrow> 'l"
  rt_reserve :: "timestamp \<Rightarrow> 'l \<Rightarrow> (bool \<times> 'r) \<times> 'l"
  rt_delay :: "timestamp \<Rightarrow> 'r \<Rightarrow> duration"
  rt_cancel :: "timestamp \<Rightarrow> 'r \<Rightarrow> 'l \<Rightarrow> 'l"

record 'l limiter_entry =
  le_limiter :: 'l
  le_last_seen :: timestamp

record 'l rate_middleware =
  rm_limiters :: "(string \<times> 'l limiter_entry) list"
  rm_rate :: go_float
  rm_burst :: int

definition new_rate_limit_middleware :: "go_float \<Rightarrow> int \<Rightarrow> 'l rate_middleware" where
  "new_rate_limit_middleware rps burst = \<lparr> rm_limiters = [], rm_rate = rps, rm_burst = burst \<rparr>"

text \<open>
  \<open>getLimiter\<close> returns a pointer: to the limiter of the map entry \<open>key\<close>, or to a fresh
  limiter that admits nothing and is in no map, when the table is full.
\<close>

datatype 'l limiter_ref = InMap string | Detached 'l

definition limiter_key :: "string \<Rightarrow> string" where
  "limiter_key sessionID = (if sessionID = [] then anonymous_principal else sessionID)"

definition limiter_idle :: "timestamp \<Rightarrow> 'l limiter_entry \<Rightarrow> bool" where
  "limiter_idle now e \<longleftrightarrow> now - le_last_seen e > limiter_idle_ttl"

definition get_limiter ::
  "('l, 'r) rate_ops \<Rightarrow> timestamp \<Rightarrow> string \<Rightarrow> 'l rate_middleware \<Rightarrow> 'l limiter_ref \<times> 'l rate_middleware" where
  "get_limiter ops now sessionID m =
     (let key = limiter_key sessionID in
      case map_of (rm_limiters m) key of
        Some entry \<Rightarrow>
          (InMap key, m\<lparr> rm_limiters := amap_put key (entry\<lparr> le_last_seen := now \<rparr>) (rm_limiters m) \<rparr>)
      | None \<Rightarrow>
          let m1 = (if length (rm_limiters m) \<ge> max_limiter_entries
                then m\<lparr> rm_limiters := filter (\<lambda>p. \<not> limiter_idle now (snd p)) (rm_limiters m) \<rparr> else m)
          in if length (rm_limiters m1) \<ge> max_limiter_entries then (Detached (rt_new ops (Finite 0) 0), m1)
             else (InMap key, m1\<lparr> rm_limiters := amap_put key
                     \<lparr> le_limiter = rt_new ops (rm_rate m1) (rm_burst m1), le_last_seen = now \<rparr> (rm_limiters m1) \<rparr>))"

text \<open>
  The decision of \<open>Handle\<close>: \<^const>\<open>None\<close> admits the call, \<open>Some delay\<close> turns it away. A
  reservation that would have to wait is cancelled.
\<close>

definition reserve_on ::
  "('l, 'r) rate_ops \<Rightarrow> timestamp \<Rightarrow> 'l \<Rightarrow> duration option \<times> 'l" where
  "reserve_on ops now l = (case rt_reserve ops now l of
       ((ok, reservation), l1) \<Rightarrow>
         if \<not> ok then (Some second, l1)
         else let delay = rt_delay ops now reservation in
              if delay > 0 then (Some delay, rt_cancel ops now reservation l1) else (None, l1))"

definition rate_decision ::
  "('l, 'r) rate_ops \<Rightarrow> timestamp \<Rightarrow> string \<Rightarrow> 'l rate_middleware \<Rightarrow> duration option \<times> 'l rate_middleware" where
  "rate_decision ops now sessionID m = (case get_limiter ops now sessionID m of
       (Detached l, m1) \<Rightarrow> (fst (reserve_on ops now l), m1)
     | (InMap key, m1) \<Rightarrow> (case map_of (rm_limiters m1) key of
           None \<Rightarrow> (None, m1)
         | Some entry \<Rightarrow> (case reserve_on ops now (le_limiter entry) of
               (d, l') \<Rightarrow> (d, m1\<lparr> rm_limiters := amap_put key (entry\<lparr> le_limiter := l' \<rparr>) (rm_limiters m1) \<rparr>))))"

definition rate_limited_result :: "duration \<Rightarrow> call_result" where
  "rate_limited_result delay = new_tool_execution_result (EFault (new_fault KindRateLimited
     (''the service is temporarily rate limited; retry after '' @ retry_after_text delay) True delay None))"

text \<open>\<open>rate.InfDuration\<close> is the largest int64.\<close>

definition inf_duration :: duration where "inf_duration = 2 ^ 63 - 1"

definition rate_limit_retry_after_seconds :: "duration \<Rightarrow> int" where
  "rate_limit_retry_after_seconds delay =
     (if delay \<le> 0 \<or> delay \<ge> inf_duration then 1
      else let s = go_div delay second;
               s' = (if go_mod delay second \<noteq> 0 then s + 1 else s)
           in if s' < 1 then 1 else s')"

definition limiters_wf :: "'l rate_middleware \<Rightarrow> bool" where
  "limiters_wf m \<longleftrightarrow> amap_wf (rm_limiters m) \<and> length (rm_limiters m) \<le> max_limiter_entries"

lemma get_limiter_wf:
  assumes "limiters_wf m" and "get_limiter ops now sid m = (ref, m')"
  shows "limiters_wf m'" "ref = InMap key \<Longrightarrow> key = limiter_key sid \<and> map_of (rm_limiters m') key \<noteq> None"
    "k \<noteq> limiter_key sid \<Longrightarrow> map_of (rm_limiters m) k = Some e \<Longrightarrow>
       map_of (rm_limiters m') k = Some e \<or> limiter_idle now e \<and> length (rm_limiters m) = max_limiter_entries"
proof -
  let ?key = "limiter_key sid"
  have wf: "amap_wf (rm_limiters m)" "length (rm_limiters m) \<le> max_limiter_entries"
    using assms(1) by (auto simp: limiters_wf_def)
  have "limiters_wf m' \<and> (\<forall>key. ref = InMap key \<longrightarrow> key = ?key \<and> map_of (rm_limiters m') key \<noteq> None) \<and>
    (\<forall>k e. k \<noteq> ?key \<longrightarrow> map_of (rm_limiters m) k = Some e \<longrightarrow>
       map_of (rm_limiters m') k = Some e \<or> limiter_idle now e \<and> length (rm_limiters m) = max_limiter_entries)"
  proof (cases "map_of (rm_limiters m) ?key")
    case (Some entry)
    then have "?key \<in> fst ` set (rm_limiters m)" by (metis map_of_eq_None_iff option.distinct(1))
    then have "length (amap_put ?key e (rm_limiters m)) \<le> max_limiter_entries" for e
      using wf by (simp add: length_amap_put)
    moreover have "ref = InMap ?key" "m' = m\<lparr> rm_limiters :=
        amap_put ?key (entry\<lparr> le_last_seen := now \<rparr>) (rm_limiters m) \<rparr>"
      using assms(2) Some by (auto simp: get_limiter_def Let_def)
    ultimately show ?thesis using wf(1) by (simp add: limiters_wf_def)
  next
    case None
    define m1 where "m1 = (if length (rm_limiters m) \<ge> max_limiter_entries
        then m\<lparr> rm_limiters := filter (\<lambda>p. \<not> limiter_idle now (snd p)) (rm_limiters m) \<rparr> else m)"
    have wf1: "amap_wf (rm_limiters m1)" "length (rm_limiters m1) \<le> max_limiter_entries"
      using wf amap_wf_filter [OF wf(1)]
        le_trans [OF length_filter_le [of "\<lambda>p. \<not> limiter_idle now (snd p)" "rm_limiters m"] wf(2)]
      by (simp_all add: m1_def)
    have keep: "map_of (rm_limiters m1) k = Some e \<or> limiter_idle now e \<and> length (rm_limiters m) = max_limiter_entries"
      if "map_of (rm_limiters m) k = Some e" for k e
      using that wf map_of_filter_wf [OF wf(1), of "\<lambda>e. \<not> limiter_idle now e" k]
      by (auto simp: m1_def simp del: map_of_eq_Some_iff)
    show ?thesis
    proof (cases "length (rm_limiters m1) \<ge> max_limiter_entries")
      case True
      then have "m' = m1" "\<And>key. ref \<noteq> InMap key"
        using assms(2) None by (auto simp: get_limiter_def Let_def m1_def [symmetric])
      with wf1 keep show ?thesis by (auto simp: limiters_wf_def simp del: map_of_eq_Some_iff)
    next
      case False
      then obtain e0 where "ref = InMap ?key" "m' = m1\<lparr> rm_limiters := amap_put ?key e0 (rm_limiters m1) \<rparr>"
        using assms(2) None by (auto simp: get_limiter_def Let_def m1_def [symmetric])
      moreover have "length (amap_put ?key e0 (rm_limiters m1)) \<le> max_limiter_entries"
        using False wf1 by (auto simp: length_amap_put)
      ultimately show ?thesis using wf1 keep by (auto simp: limiters_wf_def simp del: map_of_eq_Some_iff)
    qed
  qed
  then show "limiters_wf m'" "ref = InMap key \<Longrightarrow> key = limiter_key sid \<and> map_of (rm_limiters m') key \<noteq> None"
    "k \<noteq> limiter_key sid \<Longrightarrow> map_of (rm_limiters m) k = Some e \<Longrightarrow>
       map_of (rm_limiters m') k = Some e \<or> limiter_idle now e \<and> length (rm_limiters m) = max_limiter_entries"
    by blast+
qed

text \<open>
  Rate limits are per principal and bounded. Deciding a call touches only the
  bucket of its own principal: the bucket of any other principal is unchanged, unless the
  table was full and that principal idle for more than 15 minutes; the table never exceeds
  10000 entries.
\<close>

theorem rate_limit_isolation:
  assumes "limiters_wf m" and "rate_decision ops now sid m = (d, m')"
  shows "limiters_wf m' \<and> (\<forall>k e. k \<noteq> limiter_key sid \<longrightarrow> map_of (rm_limiters m) k = Some e \<longrightarrow>
     map_of (rm_limiters m') k = Some e \<or>
     now - le_last_seen e > 15 * 60 * second \<and> length (rm_limiters m) = 10000)"
proof -
  obtain ref m1 where g: "get_limiter ops now sid m = (ref, m1)" by (cases "get_limiter ops now sid m")
  note law = get_limiter_wf [OF assms(1) g]
  have "limiters_wf m' \<and> (\<forall>k. k \<noteq> limiter_key sid \<longrightarrow> map_of (rm_limiters m') k = map_of (rm_limiters m1) k)"
  proof (cases ref)
    case (Detached l)
    with assms(2) g law(1) show ?thesis by (auto simp: rate_decision_def)
  next
    case (InMap key)
    from law(2) [OF this] obtain entry where e: "key = limiter_key sid" "map_of (rm_limiters m1) key = Some entry"
      by auto
    obtain d' l' where "reserve_on ops now (le_limiter entry) = (d', l')"
      by (cases "reserve_on ops now (le_limiter entry)")
    with assms(2) g InMap e have m': "m' = m1\<lparr> rm_limiters := amap_put key (entry\<lparr> le_limiter := l' \<rparr>) (rm_limiters m1) \<rparr>"
      by (simp add: rate_decision_def)
    have "key \<in> fst ` set (rm_limiters m1)" using e(2) by (metis map_of_eq_None_iff option.distinct(1))
    with m' law(1) e(1) show ?thesis by (auto simp: limiters_wf_def length_amap_put)
  qed
  then show ?thesis using law(3) by (auto simp: limiter_idle_def limiter_idle_ttl_def max_limiter_entries_def
      simp del: map_of_eq_Some_iff)
qed

text \<open>A bucket of one event, refilled when the clock reaches the stored time.\<close>

definition one_shot_ops :: "(timestamp, duration) rate_ops" where
  "one_shot_ops = \<lparr> rt_new = (\<lambda>_ _. 0), rt_reserve = (\<lambda>now l. ((True, l - now), max now l + second)),
     rt_delay = (\<lambda>_ r. r), rt_cancel = (\<lambda>_ _ l. l - second) \<rparr>"

theorem rate_limit_isolation_witness:
  "let m = \<lparr> rm_limiters = [(''bob'', \<lparr> le_limiter = 7, le_last_seen = 3 \<rparr>)], rm_rate = Finite 1, rm_burst = 1 \<rparr>
   in limiters_wf m \<and> map_of (rm_limiters (snd (rate_decision one_shot_ops 5 ''ada'' m))) ''bob''
        = Some \<lparr> le_limiter = 7, le_last_seen = 3 \<rparr>"
proof -
  let ?m = "\<lparr> rm_limiters = [(''bob'', \<lparr> le_limiter = 7, le_last_seen = 3 \<rparr>)], rm_rate = Finite 1, rm_burst = 1 \<rparr>"
  have wf: "limiters_wf ?m" by (simp add: limiters_wf_def max_limiter_entries_def)
  have k: "''bob'' \<noteq> limiter_key ''ada''" by (simp add: limiter_key_def)
  from rate_limit_isolation [OF wf surjective_pairing, of one_shot_ops 5 "''ada''"] k wf
  show ?thesis by (simp add: Let_def)
qed

text \<open>
  The retry hint is the exact ceiling. A caller turned away with a finite positive
  delay is told the least whole number of seconds that is not before the bucket admits it,
  and always at least one second.
\<close>

theorem retry_after_is_ceiling:
  assumes "0 < d" and "d < inf_duration"
  shows "(rate_limit_retry_after_seconds d - 1) * second < d \<and> d \<le> rate_limit_retry_after_seconds d * second \<and>
     1 \<le> rate_limit_retry_after_seconds d \<and> rate_limit_retry_after_seconds d = retry_after_seconds d"
proof -
  have "rate_limit_retry_after_seconds d = retry_after_seconds d"
    using assms by (simp add: rate_limit_retry_after_seconds_def retry_after_seconds_def)
  with retry_after_seconds_ceiling [OF assms(1)] retry_after_seconds_pos [of d] show ?thesis by simp
qed

theorem retry_after_is_ceiling_witness:
  "rate_limit_retry_after_seconds 1500000000 = 2"
proof -
  have "0 < (1500000000 :: int)" "1500000000 < inf_duration" by (simp_all add: inf_duration_def)
  from retry_after_is_ceiling [OF this]
  have "(rate_limit_retry_after_seconds 1500000000 - 1) * second < 1500000000"
    "1500000000 \<le> rate_limit_retry_after_seconds 1500000000 * second" by blast+
  then have "rate_limit_retry_after_seconds 1500000000 * second < 2500000000"
    "1500000000 \<le> rate_limit_retry_after_seconds 1500000000 * second" by (simp_all add: left_diff_distrib)
  then show ?thesis by linarith
qed

end
