(* ===== verification/Connector.thy ===== *)
theory Connector
  imports Endpoint
begin

text \<open>
  internal/connector/client.go: the HTTP client for the ERP. The transport, the retry
  library (avast/retry-go), the circuit breaker (sony/gobreaker) and \<open>http.ParseTime\<close> are
  parameters; the clock and the jitter are arguments. What leaves the process is recorded
  as a list of requests.
\<close>

subsection \<open>Retry hints\<close>

definition max_retry_attempts :: nat where "max_retry_attempts = 3"
definition retry_delay_base :: duration where "retry_delay_base = 500 * nanosecond_per_ms"
definition retry_delay_jitter :: duration where "retry_delay_jitter = 100 * nanosecond_per_ms"
definition max_retry_after :: duration where "max_retry_after = 30 * second"

definition retry_safe_method :: "string \<Rightarrow> bool" where
  "retry_safe_method method \<longleftrightarrow> to_upper (trim_space method) \<in> {''GET'', ''HEAD'', ''OPTIONS''}"

definition bounded_retry_after :: "duration \<Rightarrow> duration" where
  "bounded_retry_after delay =
     (if delay < 0 then 0 else if delay > max_retry_after then max_retry_after else delay)"

text \<open>The delay and whether the header was usable; \<open>parseTime\<close> is \<open>http.ParseTime\<close>.\<close>

definition parse_retry_after ::
  "(string \<Rightarrow> timestamp option) \<Rightarrow> string \<Rightarrow> timestamp \<Rightarrow> duration \<times> bool" where
  "parse_retry_after parseTime header now =
     (let value = trim_space header in
      if value = [] then (0, False)
      else
        let byDate = (case parseTime value of
              None \<Rightarrow> (0, False)
            | Some t \<Rightarrow> if t < now then (0, True) else (bounded_retry_after (t - now), True))
        in (case parse_int64 value of
             Some seconds \<Rightarrow>
               if seconds \<ge> 0 then
                 (if seconds > go_div max_retry_after second then (max_retry_after, True)
                  else (seconds * second, True))
               else byDate
           | None \<Rightarrow> byDate))"

fun attempt_of :: "gerr \<Rightarrow> (gerr \<times> int \<times> duration \<times> bool) option" where
  "attempt_of (ERetryAttempt e status after has) = Some (e, status, after, has)"
| "attempt_of _ = None"

text \<open>\<open>errors.As\<close> into \<open>retryAttemptError\<close>: the first one of the chain.\<close>

definition attempt_as :: "gerr \<Rightarrow> (gerr \<times> int \<times> duration \<times> bool) option" where
  "attempt_as e = (case find (\<lambda>x. attempt_of x \<noteq> None) (err_chain e) of None \<Rightarrow> None | Some x \<Rightarrow> attempt_of x)"

text \<open>\<open>jitter\<close> is the random number in \<open>0..retryDelayJitter\<close>, \<^const>\<open>None\<close> when reading it fails.\<close>

definition retry_delay :: "int option \<Rightarrow> gerr \<Rightarrow> duration" where
  "retry_delay jitter err = (case attempt_as err of
       Some (_, _, after, True) \<Rightarrow> bounded_retry_after after
     | _ \<Rightarrow> (case jitter of None \<Rightarrow> retry_delay_base | Some j \<Rightarrow> retry_delay_base + j))"

subsection \<open>Classification of failures\<close>

definition call_fault_kind :: "gerr \<Rightarrow> fault_kind" where
  "call_fault_kind err = (case faults_as err of Some f \<Rightarrow> f_kind f | None \<Rightarrow> KindInternal)"

fun net_timeout :: "gerr \<Rightarrow> bool option" where
  "net_timeout (ENet t) = Some t"
| "net_timeout _ = None"

definition is_net_timeout :: "gerr \<Rightarrow> bool" where
  "is_net_timeout e \<longleftrightarrow> (case find (\<lambda>x. net_timeout x \<noteq> None) (err_chain e) of
     None \<Rightarrow> False | Some x \<Rightarrow> net_timeout x = Some True)"

definition classify_cause :: "gerr \<Rightarrow> fault" where
  "classify_cause cause =
     (if errors_is cause ErrDeadlineExceeded then
        new_fault KindDependencyTimeout ''the ERP service timed out; retry later'' True 0 (Some cause)
      else if errors_is cause ErrCanceled then
        new_fault KindDependencyTimeout ''the ERP request was canceled'' False 0 (Some cause)
      else if is_net_timeout cause then
        new_fault KindDependencyTimeout ''the ERP service timed out; retry later'' True 0 (Some cause)
      else if errors_is cause ErrOpenState then
        new_fault KindDependencyUnavailable ''the ERP dependency circuit breaker is open; retry later'' True 0 (Some cause)
      else if errors_is cause ErrTooManyRequests then
        new_fault KindDependencyUnavailable ''the ERP dependency is busy; retry later'' True 0 (Some cause)
      else
        new_fault KindDependencyUnavailable ''the ERP service is unavailable; retry later'' True 0 (Some cause))"

definition classify_call_error :: "gerr \<Rightarrow> gerr" where
  "classify_call_error err = EFault (case attempt_as err of
       None \<Rightarrow> classify_cause err
     | Some (cause, status, after, has) \<Rightarrow>
         let retryAfter = (if has then bounded_retry_after after else 0)
         in if status = 429 then
              new_fault KindRateLimited
                (if retryAfter > 0
                 then ''the ERP service is temporarily rate limited; retry after '' @
                      itoa (go_div (retryAfter + second - 1) second) @ '' seconds''
                 else ''the ERP service is temporarily rate limited; retry later'')
                True retryAfter (Some cause)
            else classify_cause cause)"

subsection \<open>Headers\<close>

text \<open>
  \<open>http.Header\<close> is a map whose keys are canonical header names. \<open>canonical_header\<close> is
  \<open>textproto.CanonicalMIMEHeaderKey\<close>: a name with a byte that is no token is kept.
\<close>

fun canonical_from :: "bool \<Rightarrow> string \<Rightarrow> string" where
  "canonical_from upper [] = []"
| "canonical_from upper (c # s) =
     (if upper then upper_char c else lower_char c) # canonical_from (c = CHR ''-'') s"

definition canonical_header :: "string \<Rightarrow> string" where
  "canonical_header name = (if list_all is_header_token name then canonical_from True name else name)"

type_synonym headers = "(string \<times> string) list"

definition header_set :: "string \<Rightarrow> string \<Rightarrow> headers \<Rightarrow> headers" where
  "header_set name value h = amap_put (canonical_header name) value h"

definition header_get :: "headers \<Rightarrow> string \<Rightarrow> string option" where
  "header_get h name = map_of h (canonical_header name)"

definition protected_headers :: "string list" where
  "protected_headers = [''authorization'', ''proxy-authorization'', ''cookie'', ''host'', ''connection'',
     ''keep-alive'', ''proxy-connection'', ''te'', ''trailer'', ''transfer-encoding'', ''upgrade'',
     ''content-length'', ''content-type'']"

definition is_protected_generated_header :: "string \<Rightarrow> bool" where
  "is_protected_generated_header name \<longleftrightarrow> to_lower (trim_space name) \<in> set protected_headers"

text \<open>The map of generated headers in the order the runtime iterates it.\<close>

fun apply_generated_headers :: "(string \<times> string) list \<Rightarrow> headers \<Rightarrow> headers" where
  "apply_generated_headers [] h = h"
| "apply_generated_headers ((name, value) # rest) h =
     apply_generated_headers rest
       (if name = [] \<or> is_protected_generated_header name then h else header_set name value h)"

definition auth_header_name :: "auth_config \<Rightarrow> string" where
  "auth_header_name a = (if ac_header a = [] then ''Authorization'' else ac_header a)"

definition auth_header_value :: "auth_config \<Rightarrow> string" where
  "auth_header_value a =
     (if ac_type a = ''basic'' then ''Basic '' @ ac_key a
      else if ac_type a = ''bearer'' then ''Bearer '' @ ac_key a
      else ac_key a)"

definition apply_auth :: "endpoint_config \<Rightarrow> headers \<Rightarrow> headers" where
  "apply_auth ep h =
     (if ac_key (ep_auth ep) = [] then h
      else header_set (auth_header_name (ep_auth ep)) (auth_header_value (ep_auth ep)) h)"

definition request_headers :: "endpoint_config \<Rightarrow> headers" where
  "request_headers ep =
     header_set ''Content-Type'' ''application/json'' (apply_auth ep (apply_generated_headers (ep_headers ep) []))"

subsection \<open>Calls\<close>

definition endpoint_identity :: "string \<Rightarrow> string" where
  "endpoint_identity target = (case url_parse target of
       None \<Rightarrow> ''unknown''
     | Some u \<Rightarrow> if u_host u = [] then ''unknown'' else u_host u)"

record call_options =
  co_preserve_error_responses :: bool
  co_disable_redirects :: bool

definition no_options :: call_options where
  "no_options = \<lparr> co_preserve_error_responses = False, co_disable_redirects = False \<rparr>"

text \<open>\<open>url.Values.Encode\<close>.\<close>

definition query_escape :: "string \<Rightarrow> string" where
  "query_escape s = concat (map (\<lambda>c.
     if is_letter c \<or> is_digit c \<or> c \<in> set ''-_.~'' then [c]
     else if c = CHR '' '' then ''+''
     else [CHR ''%'', upper_hex (of_char c div 16), upper_hex (of_char c mod 16)]) s)"

definition query_encode :: "(string \<times> string) list \<Rightarrow> string" where
  "query_encode q = join_with ''&'' (map (\<lambda>(k, v). query_escape k @ ''='' @ query_escape v) (sort_members q))"

definition call_target :: "endpoint_config \<Rightarrow> (string \<times> string) list \<Rightarrow> string" where
  "call_target ep query = ep_base_url ep @ ep_path ep @ (if query = [] then [] else ''?'' @ query_encode query)"

record http_request =
  rq_method :: string
  rq_url :: string
  rq_headers :: headers
  rq_body :: "string option"
  rq_follow_redirects :: bool

definition client_follows_redirects :: "bool \<Rightarrow> bool" where
  "client_follows_redirects credentialPresent \<longleftrightarrow> \<not> credentialPresent"

text \<open>\<open>http.NewRequest\<close> refuses a method that is not a token; the empty method is GET.\<close>

definition build_request ::
  "endpoint_config \<Rightarrow> string \<Rightarrow> string option \<Rightarrow> bool \<Rightarrow> http_request option" where
  "build_request ep target body follow =
     (if ep_method ep \<noteq> [] \<and> \<not> list_all is_header_token (ep_method ep) then None
      else Some \<lparr> rq_method = (if ep_method ep = [] then ''GET'' else ep_method ep), rq_url = target,
                  rq_headers = request_headers ep, rq_body = body, rq_follow_redirects = follow \<rparr>)"

text \<open>
  The state the attempts of one call share: the requests sent so far, the variables of the
  closure and the world behind the transport. A nil error of an attempt ends the loop; an
  error is marked when no further attempt may follow.
\<close>

record 'w call_state =
  as_sent :: "http_request list"
  as_last :: "http_response option"
  as_transient :: "http_response option"
  as_world :: 'w

datatype attempt_result = AttemptDone | AttemptRetry gerr | AttemptStop gerr

type_synonym 'w transport = "http_request \<Rightarrow> 'w \<Rightarrow> (gerr + http_response) \<times> 'w"

definition is_transient_status :: "int \<Rightarrow> bool" where
  "is_transient_status status \<longleftrightarrow> status = 429 \<or> status \<ge> 500"

definition attempt ::
  "'w transport \<Rightarrow> (string \<Rightarrow> timestamp option) \<Rightarrow> timestamp \<Rightarrow> http_request option \<Rightarrow>
     'w call_state \<Rightarrow> attempt_result \<times> 'w call_state" where
  "attempt transport parseTime now req s = (case req of
       None \<Rightarrow> (AttemptStop (EWrap ''build request: '' (EText ''invalid method'') []), s)
     | Some r \<Rightarrow>
         let s1 = s\<lparr> as_sent := as_sent s @ [r] \<rparr> in
         (case transport r (as_world s1) of
            (Inl e, w) \<Rightarrow> (AttemptRetry (ERetryAttempt e 0 0 False), s1\<lparr> as_world := w \<rparr>)
          | (Inr resp, w) \<Rightarrow>
              if is_transient_status (resp_status resp) then
                let (after, has) = parse_retry_after parseTime (resp_retry_after resp) now
                in (AttemptRetry (ERetryAttempt (EText (''transient erp error: '' @ itoa (resp_status resp)))
                                   (resp_status resp) after has),
                    s1\<lparr> as_world := w, as_transient := Some resp \<rparr>)
              else (AttemptDone, s1\<lparr> as_world := w, as_transient := None, as_last := Some resp \<rparr>)))"

text \<open>
  \<open>retry.Do\<close> with \<open>Attempts\<close>, and the breaker's \<open>Execute\<close>: they run what they are given.
\<close>

type_synonym 'w retrier =
  "nat \<Rightarrow> ('w call_state \<Rightarrow> attempt_result \<times> 'w call_state) \<Rightarrow> 'w call_state \<Rightarrow> gerr option \<times> 'w call_state"

type_synonym 'w breaker =
  "('w call_state \<Rightarrow> (gerr + http_response option) \<times> 'w call_state) \<Rightarrow> 'w call_state \<Rightarrow>
     (gerr + http_response option) \<times> 'w call_state"

record 'w http_env =
  hv_transport :: "'w transport"
  hv_retry :: "'w retrier"
  hv_breaker :: "'w breaker"
  hv_parse_time :: "string \<Rightarrow> timestamp option"
  hv_allow_list :: string

definition call_attempts :: "endpoint_config \<Rightarrow> nat" where
  "call_attempts ep = (if retry_safe_method (ep_method ep) then max_retry_attempts else 1)"

text \<open>The closure run inside the breaker.\<close>

definition breaker_body ::
  "'w http_env \<Rightarrow> timestamp \<Rightarrow> endpoint_config \<Rightarrow> call_options \<Rightarrow> http_request option \<Rightarrow> 'w call_state \<Rightarrow>
     (gerr + http_response option) \<times> 'w call_state" where
  "breaker_body env now ep options req s =
     (case hv_retry env (call_attempts ep) (attempt (hv_transport env) (hv_parse_time env) now req)
             (s\<lparr> as_last := None, as_transient := None \<rparr>) of
        (Some err, s1) \<Rightarrow>
          (case (co_preserve_error_responses options, as_transient s1) of
             (True, Some resp) \<Rightarrow> (Inl (EPreserved resp err), s1)
           | _ \<Rightarrow> (Inl err, s1))
      | (None, s1) \<Rightarrow> (Inr (as_last s1), s1))"

fun preserved_of :: "gerr \<Rightarrow> http_response option" where
  "preserved_of (EPreserved r e) = Some r"
| "preserved_of _ = None"

definition preserved_as :: "gerr \<Rightarrow> http_response option" where
  "preserved_as e = (case find (\<lambda>x. preserved_of x \<noteq> None) (err_chain e) of None \<Rightarrow> None | Some x \<Rightarrow> preserved_of x)"

definition endpoint_refused :: gerr where "endpoint_refused = EText ''ERP endpoint is not allowed''"

definition client_call ::
  "'w http_env \<Rightarrow> timestamp \<Rightarrow> endpoint_config \<Rightarrow> (string \<times> string) list \<Rightarrow> string option \<Rightarrow> call_options \<Rightarrow>
     'w call_state \<Rightarrow> (gerr + http_response option) \<times> 'w call_state" where
  "client_call env now ep query body options s =
     (let target = call_target ep query;
          credentialPresent = (ac_key (ep_auth ep) \<noteq> [])
      in case url_parse target of
           None \<Rightarrow> (Inl endpoint_refused, s)
         | Some u \<Rightarrow> (case validate_outbound_transport (hv_allow_list env) u credentialPresent of
               None \<Rightarrow> (Inl endpoint_refused, s)
             | Some _ \<Rightarrow>
                 let follow = client_follows_redirects (credentialPresent \<or> co_disable_redirects options);
                     req = build_request ep target body follow
                 in (case hv_breaker env (breaker_body env now ep options req) s of
                       (Inr resp, s1) \<Rightarrow> (Inr resp, s1)
                     | (Inl err, s1) \<Rightarrow>
                         (case (if co_preserve_error_responses options then preserved_as err else None) of
                            Some resp \<Rightarrow> (Inr (Some resp), s1)
                          | None \<Rightarrow> (Inl (classify_call_error err), s1)))))"

subsection \<open>What the retry library and the breaker promise\<close>

text \<open>
  The retrier runs its body at most the given number of times, one run after the other, and
  reports success only after a run that was done. The breaker runs its body once, or
  rejects the call without running it.
\<close>

locale outbound_runner =
  fixes retry :: "'w retrier" and breaker :: "'w breaker"
  assumes retry_law: "retry n body s = (r, s') \<Longrightarrow>
      \<exists>k \<le> n. s' = ((\<lambda>s. snd (body s)) ^^ k) s \<and>
        (r = None \<longrightarrow> (\<exists>j. k = Suc j \<and> fst (body (((\<lambda>s. snd (body s)) ^^ j) s)) = AttemptDone))"
    and breaker_law: "breaker run s = (res, s') \<Longrightarrow>
      run s = (res, s') \<or> (s' = s \<and> (res = Inl ErrOpenState \<or> res = Inl ErrTooManyRequests))"
begin

lemma breaker_cases:
  assumes "breaker run s = (res, s')"
  obtains (Ran) "run s = (res, s')" | (Rejected) e where "res = Inl e" "s' = s" "e = ErrOpenState \<or> e = ErrTooManyRequests"
  using breaker_law [OF assms] by blast

lemma attempts_sent:
  "as_sent (((\<lambda>s. snd (attempt transport parseTime now req s)) ^^ k) s) =
     as_sent s @ (case req of None \<Rightarrow> [] | Some r \<Rightarrow> replicate k r)"
proof (induction k)
  case 0
  show ?case by (cases req) simp_all
next
  case (Suc k)
  have step: "as_sent (snd (attempt transport parseTime now req s)) = as_sent s @ (case req of None \<Rightarrow> [] | Some r \<Rightarrow> [r])" for s
    by (auto simp: attempt_def Let_def split: option.splits prod.splits sum.splits)
  show ?case using Suc step
    by (cases req) (simp_all add: replicate_append_same)
qed

lemma breaker_body_sent:
  assumes "hv_retry env = retry" and "breaker_body env now ep options req s = (res, s')"
  shows "\<exists>k \<le> call_attempts ep. as_sent s' = as_sent s @ (case req of None \<Rightarrow> [] | Some r \<Rightarrow> replicate k r)"
proof -
  let ?s0 = "s\<lparr> as_last := None, as_transient := None \<rparr>"
  obtain r s1 where r: "retry (call_attempts ep) (attempt (hv_transport env) (hv_parse_time env) now req) ?s0 = (r, s1)"
    by (cases "retry (call_attempts ep) (attempt (hv_transport env) (hv_parse_time env) now req) ?s0")
  have "s' = s1" using assms r by (auto simp: breaker_body_def split: option.splits bool.splits)
  with retry_law [OF r] attempts_sent [where transport = "hv_transport env" and parseTime = "hv_parse_time env" and now = now and
        req = req and s = ?s0]
  show ?thesis by auto
qed

text \<open>Every call either sends nothing, or copies of the one request it built, under the guard.\<close>

lemma client_call_sent:
  assumes env: "hv_retry env = retry" "hv_breaker env = breaker"
    and call: "client_call env now ep query body options s = (res, s')"
  shows "as_sent s' = as_sent s \<or>
     (\<exists>u r k. url_parse (call_target ep query) = Some u \<and>
        validate_outbound_transport (hv_allow_list env) u (ac_key (ep_auth ep) \<noteq> []) \<noteq> None \<and>
        build_request ep (call_target ep query) body
          (client_follows_redirects (ac_key (ep_auth ep) \<noteq> [] \<or> co_disable_redirects options)) = Some r \<and>
        k \<le> call_attempts ep \<and> as_sent s' = as_sent s @ replicate k r)"
proof (cases "url_parse (call_target ep query)")
  case None
  with call show ?thesis by (simp add: client_call_def Let_def)
next
  case u: (Some u)
  let ?cred = "ac_key (ep_auth ep) \<noteq> []"
  show ?thesis
  proof (cases "validate_outbound_transport (hv_allow_list env) u ?cred")
    case None
    with call u show ?thesis by (simp add: client_call_def Let_def)
  next
    case v: (Some v)
    let ?req = "build_request ep (call_target ep query) body (client_follows_redirects (?cred \<or> co_disable_redirects options))"
    obtain res1 s1 where b: "breaker (breaker_body env now ep options ?req) s = (res1, s1)"
      by (cases "breaker (breaker_body env now ep options ?req) s")
    have s': "s' = s1" using call u v b env by (auto simp: client_call_def Let_def split: sum.splits option.splits)
    from b show ?thesis
    proof (cases rule: breaker_cases)
      case Ran
      from breaker_body_sent [OF env(1) this] s' u v show ?thesis by (cases ?req) auto
    next
      case (Rejected e)
      with s' show ?thesis by simp
    qed
  qed
qed

end

text \<open>
  The documented behaviour of the two libraries: attempts in order until one is done, one
  forbids another, or the budget is spent; a breaker that consults a gate.
\<close>

fun retry_loop :: "'w retrier" where
  "retry_loop 0 body s = (Some (EText ''no attempts''), s)"
| "retry_loop (Suc n) body s = (case body s of
       (AttemptDone, s1) \<Rightarrow> (None, s1)
     | (AttemptStop e, s1) \<Rightarrow> (Some e, s1)
     | (AttemptRetry e, s1) \<Rightarrow> if n = 0 then (Some e, s1) else retry_loop n body s1)"

definition gated_breaker :: "(nat \<Rightarrow> bool) \<Rightarrow> 'w breaker" where
  "gated_breaker allows run s = (if allows (length (as_sent s)) then run s else (Inl ErrOpenState, s))"

lemma retry_loop_law:
  "retry_loop n body s = (r, s') \<Longrightarrow>
     \<exists>k \<le> n. s' = ((\<lambda>s. snd (body s)) ^^ k) s \<and>
       (r = None \<longrightarrow> (\<exists>j. k = Suc j \<and> fst (body (((\<lambda>s. snd (body s)) ^^ j) s)) = AttemptDone))"
proof (induction n arbitrary: s)
  case 0
  then show ?case by (intro exI [of _ 0]) auto
next
  case (Suc n)
  obtain a s1 where b: "body s = (a, s1)" by (cases "body s")
  show ?case
  proof (cases a)
    case AttemptDone
    with Suc.prems b show ?thesis by (intro exI [of _ "Suc 0"]) auto
  next
    case (AttemptStop e)
    with Suc.prems b show ?thesis by (intro exI [of _ "Suc 0"]) auto
  next
    case (AttemptRetry e)
    show ?thesis
    proof (cases "n = 0")
      case True
      with Suc.prems b AttemptRetry show ?thesis by (intro exI [of _ "Suc 0"]) auto
    next
      case False
      then have "retry_loop n body s1 = (r, s')" using Suc.prems b AttemptRetry by simp
      from Suc.IH [OF this] obtain k where k: "k \<le> n" "s' = ((\<lambda>s. snd (body s)) ^^ k) s1"
        "r = None \<longrightarrow> (\<exists>j. k = Suc j \<and> fst (body (((\<lambda>s. snd (body s)) ^^ j) s1)) = AttemptDone)" by auto
      have shift: "((\<lambda>s. snd (body s)) ^^ j) s1 = ((\<lambda>s. snd (body s)) ^^ Suc j) s" for j
        unfolding funpow_Suc_right using b by simp
      show ?thesis using k b unfolding shift by (intro exI [of _ "Suc k"]) auto
    qed
  qed
qed

interpretation documented: outbound_runner retry_loop "gated_breaker allows" for allows
  by unfold_locales (rule retry_loop_law, auto simp: gated_breaker_def split: if_splits)

subsection \<open>Properties\<close>

lemma upper_char_lower: "lower_char (upper_char c) = lower_char c"
  by (auto simp: lower_char_def upper_char_def Let_def)

lemma to_lower_canonical: "to_lower (canonical_header x) = to_lower x"
proof -
  have "to_lower (canonical_from b x) = to_lower x" for b
    by (induction x arbitrary: b) (simp_all add: to_lower_def upper_char_lower)
  then show ?thesis by (simp add: canonical_header_def)
qed

lemma trim_no_space: "list_all (\<lambda>c. \<not> is_space c) x \<Longrightarrow> trim_space x = x"
proof -
  assume x: "list_all (\<lambda>c. \<not> is_space c) x"
  have "dropWhile is_space y = y" if "list_all (\<lambda>c. \<not> is_space c) y" for y
    using that by (cases y) auto
  from this [OF x] this [of "rev x"] x show ?thesis by (simp add: trim_space_def trim_left_def list_all_iff)
qed

lemma protected_no_space: "n \<in> set protected_headers \<Longrightarrow> list_all (\<lambda>c. \<not> is_space c) n"
proof -
  have "list_all (list_all (\<lambda>c. \<not> is_space c)) protected_headers" by code_simp
  then show "n \<in> set protected_headers \<Longrightarrow> ?thesis" by (simp add: list_all_iff)
qed

lemma protected_by_fold:
  assumes "to_lower x \<in> set protected_headers"
  shows "is_protected_generated_header x"
proof -
  have "is_space (lower_char c) = is_space c" for c by (auto simp: char_class_defs)
  then have "list_all (\<lambda>c. \<not> is_space c) x"
    using protected_no_space [OF assms] by (simp add: to_lower_def list_all_iff)
  with assms show ?thesis by (simp add: is_protected_generated_header_def trim_no_space)
qed

lemma generated_not_protected:
  "\<forall>k \<in> fst ` set h. to_lower k \<notin> set protected_headers \<Longrightarrow>
   \<forall>k \<in> fst ` set (apply_generated_headers hs h). to_lower k \<notin> set protected_headers"
proof (induction hs h rule: apply_generated_headers.induct)
  case (2 name val rest h)
  let ?h = "if name = [] \<or> is_protected_generated_header name then h else header_set name val h"
  have "\<forall>k \<in> fst ` set ?h. to_lower k \<notin> set protected_headers"
    using "2.prems" protected_by_fold [of name] by (auto simp: header_set_def amap_put_def to_lower_canonical)
  from "2.IH" [OF this] show ?case by simp
qed simp

text \<open>
  Generated headers are contained. Whatever the tool maps into headers, the request says
  its content is JSON and carries the credential in its header exactly when the endpoint has
  one; every other security-relevant header (authorization, cookies, host, connection and
  framing headers) is absent.
\<close>

theorem generated_headers_contained:
  assumes "h = request_headers ep"
  shows "header_get h ''Content-Type'' = Some ''application/json'' \<and>
     (ac_key (ep_auth ep) \<noteq> [] \<and> to_lower (auth_header_name (ep_auth ep)) \<noteq> ''content-type'' \<longrightarrow>
        header_get h (auth_header_name (ep_auth ep)) = Some (auth_header_value (ep_auth ep))) \<and>
     (\<forall>k v. (k, v) \<in> set h \<and> to_lower k \<in> set protected_headers \<longrightarrow>
        to_lower k = ''content-type'' \<or>
        (ac_key (ep_auth ep) \<noteq> [] \<and> to_lower k = to_lower (auth_header_name (ep_auth ep)) \<and>
         v = auth_header_value (ep_auth ep)))"
proof -
  let ?g = "apply_generated_headers (ep_headers ep) []"
  let ?name = "auth_header_name (ep_auth ep)" and ?val = "auth_header_value (ep_auth ep)"
  have g: "\<forall>k \<in> fst ` set ?g. to_lower k \<notin> set protected_headers" by (rule generated_not_protected) simp
  have ct: "to_lower (canonical_header ''Content-Type'') = ''content-type''" by code_simp
  have "canonical_header ?name \<noteq> canonical_header ''Content-Type''" if "to_lower ?name \<noteq> ''content-type''"
    using that ct to_lower_canonical [of ?name] by metis
  then have "header_get h ?name = Some ?val" if "ac_key (ep_auth ep) \<noteq> []" "to_lower ?name \<noteq> ''content-type''"
    using that assms by (simp add: request_headers_def header_get_def header_set_def apply_auth_def)
  moreover have "header_get h ''Content-Type'' = Some ''application/json''"
    by (simp add: assms request_headers_def header_get_def header_set_def)
  moreover have "to_lower k = ''content-type'' \<or>
      (ac_key (ep_auth ep) \<noteq> [] \<and> to_lower k = to_lower ?name \<and> v = ?val)"
    if "(k, v) \<in> set h" "to_lower k \<in> set protected_headers" for k v
  proof -
    have "(k, v) \<in> set ?g \<or> k = canonical_header ''Content-Type'' \<or>
        (ac_key (ep_auth ep) \<noteq> [] \<and> k = canonical_header ?name \<and> v = ?val)"
      using that(1) by (auto simp: assms request_headers_def header_set_def apply_auth_def amap_put_def split: if_splits)
    then show ?thesis using g that(2) ct to_lower_canonical [of ?name] by force
  qed
  ultimately show ?thesis by blast
qed

definition sample_endpoint :: "string \<Rightarrow> string \<Rightarrow> endpoint_config" where
  "sample_endpoint method key = \<lparr> ep_method = method, ep_path = ''https://erp.example/api'', ep_base_url = [],
     ep_headers = [(''Authorization'', ''forged''), (''X-Trace'', ''1'')],
     ep_auth = \<lparr> ac_type = ''bearer'', ac_key = key, ac_header = [] \<rparr> \<rparr>"

theorem generated_headers_contained_witness:
  "header_get (request_headers (sample_endpoint ''GET'' ''k'')) ''Authorization'' = Some ''Bearer k'' \<and>
   header_get (request_headers (sample_endpoint ''GET'' ''k'')) ''Content-Type'' = Some ''application/json''"
proof -
  have "auth_header_name (ep_auth (sample_endpoint ''GET'' ''k'')) = ''Authorization''"
    "auth_header_value (ep_auth (sample_endpoint ''GET'' ''k'')) = ''Bearer k''"
    "ac_key (ep_auth (sample_endpoint ''GET'' ''k'')) \<noteq> []" "to_lower ''Authorization'' \<noteq> ''content-type''"
    by code_simp+
  with generated_headers_contained [OF refl, of "sample_endpoint ''GET'' ''k''"] show ?thesis by metis
qed

text \<open>
  C18: only methods without side effects are retried. Under the documented behaviour of the
  retry library and the breaker, a call sends copies of one request: at most three for GET,
  HEAD and OPTIONS, at most one for any other method.
\<close>

theorem unsafe_call_sent_at_most_once:
  assumes "outbound_runner (hv_retry env) (hv_breaker env)"
    and "client_call env now ep query body options s = (res, s')"
  shows "\<exists>r k. as_sent s' = as_sent s @ replicate k r \<and>
     k \<le> (if to_upper (trim_space (ep_method ep)) \<in> {''GET'', ''HEAD'', ''OPTIONS''} then 3 else 1)"
proof -
  have le: "call_attempts ep \<le> (if to_upper (trim_space (ep_method ep)) \<in> {''GET'', ''HEAD'', ''OPTIONS''} then 3 else 1)"
    by (simp add: call_attempts_def retry_safe_method_def max_retry_attempts_def)
  from outbound_runner.client_call_sent [OF assms(1) refl refl assms(2)] show ?thesis
  proof
    assume "as_sent s' = as_sent s"
    then show ?thesis by (intro exI [of _ undefined] exI [of _ 0]) simp
  next
    assume "\<exists>u r k. url_parse (call_target ep query) = Some u \<and>
        validate_outbound_transport (hv_allow_list env) u (ac_key (ep_auth ep) \<noteq> []) \<noteq> None \<and>
        build_request ep (call_target ep query) body
          (client_follows_redirects (ac_key (ep_auth ep) \<noteq> [] \<or> co_disable_redirects options)) = Some r \<and>
        k \<le> call_attempts ep \<and> as_sent s' = as_sent s @ replicate k r"
    with le show ?thesis using le_trans by blast
  qed
qed

text \<open>A transport that refuses every connection, and an environment around it.\<close>

definition refusing_env :: "unit http_env" where
  "refusing_env = \<lparr> hv_transport = (\<lambda>_ w. (Inl (ENet False), w)), hv_retry = retry_loop,
     hv_breaker = gated_breaker (\<lambda>_. True), hv_parse_time = (\<lambda>_. None), hv_allow_list = [] \<rparr>"

definition fresh_call :: "'w \<Rightarrow> 'w call_state" where
  "fresh_call w = \<lparr> as_sent = [], as_last = None, as_transient = None, as_world = w \<rparr>"

lemma refusing_runner: "outbound_runner (hv_retry refusing_env) (hv_breaker refusing_env)"
  using documented.outbound_runner_axioms by (simp add: refusing_env_def)

theorem unsafe_call_sent_at_most_once_witness:
  "length (as_sent (snd (client_call refusing_env 0 (sample_endpoint ''POST'' ''k'') [] None no_options (fresh_call ())))) \<le> 1"
proof -
  have "\<not> to_upper (trim_space (ep_method (sample_endpoint ''POST'' ''k''))) \<in> {''GET'', ''HEAD'', ''OPTIONS''}" by code_simp
  with unsafe_call_sent_at_most_once [OF refusing_runner surjective_pairing, of 0 "sample_endpoint ''POST'' ''k''" "[]" None
      no_options "fresh_call ()"]
  show ?thesis by (auto simp: fresh_call_def)
qed

text \<open>
  C11: a credential leaves only over an approved transport. Every request a call sends goes to
  the URL that was checked: it has no user information, and when the endpoint carries a
  credential it is https, or http to a host and port on the development allowlist; such a
  request is never redirected.
\<close>

theorem credential_only_over_approved_transport:
  assumes "outbound_runner (hv_retry env) (hv_breaker env)"
    and "client_call env now ep query body options s = (res, s')"
    and "r \<in> set (as_sent s')" and "r \<notin> set (as_sent s)"
  shows "\<exists>u. url_parse (rq_url r) = Some u \<and> u_user u = None \<and> rq_headers r = request_headers ep \<and>
     (ac_key (ep_auth ep) \<noteq> [] \<longrightarrow>
        \<not> rq_follow_redirects r \<and>
        (to_lower (u_scheme u) = ''https'' \<or>
         (to_lower (u_scheme u) = ''http'' \<and>
          (\<exists>hostPort. normalized_endpoint_host_port u ''http'' = Some hostPort \<and>
             allowed_insecure_host (hv_allow_list env) hostPort))))"
proof -
  let ?cred = "ac_key (ep_auth ep) \<noteq> []"
  from outbound_runner.client_call_sent [OF assms(1) refl refl assms(2)] assms(3,4)
  obtain u r' k where u: "url_parse (call_target ep query) = Some u"
      "validate_outbound_transport (hv_allow_list env) u ?cred \<noteq> None"
      "build_request ep (call_target ep query) body (client_follows_redirects (?cred \<or> co_disable_redirects options)) = Some r'"
      "as_sent s' = as_sent s @ replicate k r'" by fastforce
  have "r = r'" using u(4) assms(3,4) by auto
  with u(3) have r: "rq_url r = call_target ep query" "rq_headers r = request_headers ep"
      "?cred \<Longrightarrow> \<not> rq_follow_redirects r"
    by (auto simp: build_request_def client_follows_redirects_def split: if_splits)
  have "u_user u = None" using u(2) by (auto simp: validate_outbound_transport_def split: if_splits)
  moreover have "to_lower (u_scheme u) = ''https'' \<or>
      (to_lower (u_scheme u) = ''http'' \<and>
       (\<exists>hostPort. normalized_endpoint_host_port u ''http'' = Some hostPort \<and>
          allowed_insecure_host (hv_allow_list env) hostPort))" if c: ?cred
    using u(2) c by (auto simp: validate_outbound_transport_def Let_def split: if_splits option.splits)
  ultimately show ?thesis using u(1) r by metis
qed

theorem credential_only_over_approved_transport_witness:
  "\<exists>r u. r \<in> set (as_sent (snd (client_call refusing_env 0 (sample_endpoint ''POST'' ''k'') [] None no_options (fresh_call ())))) \<and>
     url_parse (rq_url r) = Some u \<and> \<not> rq_follow_redirects r \<and> u_user u = None"
proof -
  let ?ep = "sample_endpoint ''POST'' ''k''"
  let ?out = "client_call refusing_env 0 ?ep [] None no_options (fresh_call ())"
  have "as_sent (snd ?out) \<noteq> []" by code_simp
  then obtain r where r: "r \<in> set (as_sent (snd ?out))" by (cases "as_sent (snd ?out)") auto
  have "ac_key (ep_auth ?ep) \<noteq> []" "r \<notin> set (as_sent (fresh_call ()))" by (simp_all add: sample_endpoint_def fresh_call_def)
  with credential_only_over_approved_transport [OF refusing_runner surjective_pairing r] r show ?thesis by metis
qed

subsection \<open>Failures\<close>

lemma bounded_retry_after_range: "0 \<le> bounded_retry_after d \<and> bounded_retry_after d \<le> max_retry_after"
  by (simp add: bounded_retry_after_def max_retry_after_def)

lemma parse_retry_after_range:
  "0 \<le> fst (parse_retry_after pt v now) \<and> fst (parse_retry_after pt v now) \<le> max_retry_after"
  using bounded_retry_after_range
  by (auto simp: parse_retry_after_def Let_def max_retry_after_def split: option.splits)

text \<open>
  C23: a failed call is reported in fixed words. Whatever went wrong on the wire, the error is
  a fault of the taxonomy that blames the dependency, its hint is between zero and thirty
  seconds, its text is one of six fixed messages or the rate-limit message with the hint's
  ceiling in seconds, and only a cancelled request is not retryable. No text of the cause
  appears in it.
\<close>

theorem call_failure_sanitized:
  "\<exists>f. classify_call_error err = EFault f \<and>
     f_kind f \<in> {KindRateLimited, KindDependencyTimeout, KindDependencyUnavailable} \<and>
     0 \<le> f_retry_after f \<and> f_retry_after f \<le> 30 * second \<and>
     (f_retryable f = (f_message f \<noteq> ''the ERP request was canceled'')) \<and>
     (f_message f \<in> {''the ERP service is temporarily rate limited; retry later'',
         ''the ERP service timed out; retry later'', ''the ERP request was canceled'',
         ''the ERP dependency circuit breaker is open; retry later'',
         ''the ERP dependency is busy; retry later'', ''the ERP service is unavailable; retry later''} \<or>
      (0 < f_retry_after f \<and>
       f_message f = ''the ERP service is temporarily rate limited; retry after '' @
         itoa ((f_retry_after f + second - 1) div second) @ '' seconds''))"
proof -
  have cause: "f_kind (classify_cause c) \<in> {KindRateLimited, KindDependencyTimeout, KindDependencyUnavailable} \<and>
      f_retry_after (classify_cause c) = 0 \<and>
      (f_retryable (classify_cause c) = (f_message (classify_cause c) \<noteq> ''the ERP request was canceled'')) \<and>
      f_message (classify_cause c) \<in> {''the ERP service is temporarily rate limited; retry later'',
         ''the ERP service timed out; retry later'', ''the ERP request was canceled'',
         ''the ERP dependency circuit breaker is open; retry later'',
         ''the ERP dependency is busy; retry later'', ''the ERP service is unavailable; retry later''}" for c
    by (simp add: classify_cause_def)
  show ?thesis
  proof (cases "attempt_as err")
    case None
    with cause [of err] show ?thesis by (simp add: classify_call_error_def)
  next
    case (Some a)
    obtain c status after has where a: "a = (c, status, after, has)" by (cases a) auto
    let ?d = "if has then bounded_retry_after after else 0"
    have d: "0 \<le> ?d" "?d \<le> 30 * second" using bounded_retry_after_range [of after] by (simp_all add: max_retry_after_def)
    show ?thesis
    proof (cases "status = 429")
      case False
      with Some a cause [of c] show ?thesis by (simp add: classify_call_error_def Let_def)
    next
      case True
      let ?f = "new_fault KindRateLimited (if ?d > 0 then ''the ERP service is temporarily rate limited; retry after '' @
          itoa (go_div (?d + second - 1) second) @ '' seconds''
          else ''the ERP service is temporarily rate limited; retry later'') True ?d (Some c)"
      have "classify_call_error err = EFault ?f"
        using Some a True by (simp add: classify_call_error_def Let_def)
      moreover have "f_message ?f \<noteq> ''the ERP request was canceled''" by simp
      moreover have "go_div (?d + second - 1) second = (?d + second - 1) div second" using d(1) by (intro go_div_nonneg) auto
      ultimately show ?thesis using d by (intro exI [of _ ?f]) auto
    qed
  qed
qed

end
