(* ===== verification/Json_Decode.thy ===== *)
theory Json_Decode
  imports Json
begin

text \<open>
  encoding/json as the source uses it to read: \<open>json.Unmarshal\<close> into \<open>any\<close> (the whole text
  is one value) and \<open>Decoder.Decode\<close> (the first value of a stream). Decoding recurses on
  fuel; the length of the text is always enough. A number keeps its literal and strings
  are taken to be valid UTF-8.
\<close>

definition is_json_space :: "char \<Rightarrow> bool" where
  "is_json_space c \<longleftrightarrow> c = CHR 0x20 \<or> c = CHR 0x09 \<or> c = CHR 0x0A \<or> c = CHR 0x0D"

definition skip_ws :: "string \<Rightarrow> string" where "skip_ws s = dropWhile is_json_space s"

definition hex_value :: "char \<Rightarrow> nat option" where
  "hex_value c = (if is_digit c then Some (of_char c - 48)
     else let l = lower_char c in
       if CHR ''a'' \<le> l \<and> l \<le> CHR ''f'' then Some (of_char l - 87) else None)"

text \<open>The four hexadecimal digits of a \<open>u\<close> escape.\<close>

fun hex4 :: "string \<Rightarrow> (nat \<times> string) option" where
  "hex4 (a # b # c # d # r) = (case (hex_value a, hex_value b, hex_value c, hex_value d) of
       (Some w, Some x, Some y, Some z) \<Rightarrow> Some (((w * 16 + x) * 16 + y) * 16 + z, r)
     | _ \<Rightarrow> None)"
| "hex4 _ = None"

definition utf8_encode :: "nat \<Rightarrow> string" where
  "utf8_encode n =
     (if n < 128 then [char_of n]
      else if n < 2048 then [char_of (192 + n div 64), char_of (128 + n mod 64)]
      else if n < 65536 then
        [char_of (224 + n div 4096), char_of (128 + (n div 64) mod 64), char_of (128 + n mod 64)]
      else [char_of (240 + n div 262144), char_of (128 + (n div 4096) mod 64),
            char_of (128 + (n div 64) mod 64), char_of (128 + n mod 64)])"

text \<open>A \<open>u\<close> escape: a surrogate pair is one rune, a lone surrogate the replacement character.\<close>

definition unicode_unescape :: "string \<Rightarrow> (string \<times> string) option" where
  "unicode_unescape s = (case hex4 s of
       None \<Rightarrow> None
     | Some (n, r) \<Rightarrow>
         if 0xD800 \<le> n \<and> n < 0xE000 then
           (case (if n < 0xDC00 \<and> has_prefix r [CHR 0x5C, CHR ''u''] then hex4 (drop 2 r) else None) of
              Some (m, r2) \<Rightarrow>
                if 0xDC00 \<le> m \<and> m < 0xE000
                then Some (utf8_encode (0x10000 + (n - 0xD800) * 1024 + (m - 0xDC00)), r2)
                else Some (utf8_encode 0xFFFD, r)
            | None \<Rightarrow> Some (utf8_encode 0xFFFD, r))
         else Some (utf8_encode n, r))"

definition simple_escape :: "char \<Rightarrow> char option" where
  "simple_escape c =
     (if c = CHR 0x22 \<or> c = CHR 0x5C \<or> c = CHR ''/'' then Some c
      else if c = CHR ''b'' then Some (CHR 0x08) else if c = CHR ''f'' then Some (CHR 0x0C)
      else if c = CHR ''n'' then Some (CHR 0x0A) else if c = CHR ''r'' then Some (CHR 0x0D)
      else if c = CHR ''t'' then Some (CHR 0x09) else None)"

lemma hex4_shorter: "hex4 s = Some (n, r) \<Longrightarrow> length r < length s"
  by (cases s rule: hex4.cases) (auto split: option.splits)

lemma unicode_unescape_shorter: "unicode_unescape s = Some (x, r) \<Longrightarrow> length r < length s"
  by (auto simp: unicode_unescape_def dest!: hex4_shorter split: option.splits if_splits)

text \<open>The body of a string literal after its opening quote.\<close>

function string_body :: "string \<Rightarrow> (string \<times> string) option" where
  "string_body [] = None"
| "string_body (c # s) =
     (if c = CHR 0x22 then Some ([], s)
      else if c = CHR 0x5C then
        (case s of
           [] \<Rightarrow> None
         | e # r \<Rightarrow>
             if e = CHR ''u'' then
               (case unicode_unescape r of
                  None \<Rightarrow> None
                | Some (x, r') \<Rightarrow> map_option (\<lambda>(y, z). (x @ y, z)) (string_body r'))
             else (case simple_escape e of
                 None \<Rightarrow> None
               | Some x \<Rightarrow> map_option (\<lambda>(y, z). (x # y, z)) (string_body r)))
      else if of_char c < (32 :: nat) then None
      else map_option (\<lambda>(y, z). (c # y, z)) (string_body s))"
  by pat_completeness auto
termination
  by (relation "measure length") (auto dest!: unicode_unescape_shorter)

text \<open>A number literal: sign, integer part without leading zeros, fraction, exponent.\<close>

definition span_digits :: "string \<Rightarrow> string \<times> string" where
  "span_digits s = (takeWhile is_digit s, dropWhile is_digit s)"

definition number_fraction :: "string \<Rightarrow> (string \<times> string) option" where
  "number_fraction s = (case s of
       [] \<Rightarrow> Some ([], [])
     | c # r \<Rightarrow>
         if c = CHR ''.'' then (case span_digits r of (ds, r') \<Rightarrow> if ds = [] then None else Some (c # ds, r'))
         else Some ([], s))"

definition number_exponent :: "string \<Rightarrow> (string \<times> string) option" where
  "number_exponent s = (case s of
       [] \<Rightarrow> Some ([], [])
     | c # r \<Rightarrow>
         if c = CHR ''e'' \<or> c = CHR ''E'' then
           (let (sign, r1) = (case r of d # r2 \<Rightarrow> if d = CHR ''+'' \<or> d = CHR ''-'' then ([d], r2) else ([], r) | [] \<Rightarrow> ([], r))
            in case span_digits r1 of (ds, r') \<Rightarrow> if ds = [] then None else Some (c # sign @ ds, r'))
         else Some ([], s))"

definition number_literal :: "string \<Rightarrow> (string \<times> string) option" where
  "number_literal s =
     (let (sign, r0) = (case s of c # r \<Rightarrow> if c = CHR ''-'' then ([c], r) else ([], s) | [] \<Rightarrow> ([], s));
          (ds, r1) = (case r0 of c # r \<Rightarrow> if c = CHR ''0'' then ([c], r) else span_digits r0 | [] \<Rightarrow> ([], r0))
      in if ds = [] then None
         else (case number_fraction r1 of
             None \<Rightarrow> None
           | Some (frac, r2) \<Rightarrow> (case number_exponent r2 of
               None \<Rightarrow> None
             | Some (ex, r3) \<Rightarrow> Some (sign @ ds @ frac @ ex, r3))))"

text \<open>A repeated member name of an object keeps the last value.\<close>

definition member_put :: "string \<Rightarrow> 'a \<Rightarrow> (string \<times> 'a) list \<Rightarrow> (string \<times> 'a) list" where
  "member_put k v m = filter (\<lambda>p. fst p \<noteq> k) m @ [(k, v)]"

fun decode_value :: "nat \<Rightarrow> string \<Rightarrow> (jval \<times> string) option"
and decode_members :: "nat \<Rightarrow> (string \<times> jval) list \<Rightarrow> string \<Rightarrow> (jval \<times> string) option"
and decode_elements :: "nat \<Rightarrow> jval list \<Rightarrow> string \<Rightarrow> (jval \<times> string) option" where
  "decode_value 0 s = None"
| "decode_value (Suc n) s = (case skip_ws s of
       [] \<Rightarrow> None
     | c # r \<Rightarrow>
         if c = CHR 0x22 then map_option (\<lambda>(x, r'). (JStr x, r')) (string_body r)
         else if c = CHR ''{'' then
           (case skip_ws r of
              [] \<Rightarrow> None
            | d # r' \<Rightarrow> if d = CHR ''}'' then Some (JObj [], r') else decode_members n [] r)
         else if c = CHR ''['' then
           (case skip_ws r of
              [] \<Rightarrow> None
            | d # r' \<Rightarrow> if d = CHR '']'' then Some (JArr [], r') else decode_elements n [] r)
         else if c = CHR ''-'' \<or> is_digit c then map_option (\<lambda>(x, r'). (JNum x, r')) (number_literal (c # r))
         else if has_prefix (c # r) ''null'' then Some (JNull, drop 4 (c # r))
         else if has_prefix (c # r) ''true'' then Some (JBool True, drop 4 (c # r))
         else if has_prefix (c # r) ''false'' then Some (JBool False, drop 5 (c # r))
         else None)"
| "decode_members 0 acc s = None"
| "decode_members (Suc n) acc s = (case skip_ws s of
       [] \<Rightarrow> None
     | q # r \<Rightarrow>
         if q \<noteq> CHR 0x22 then None
         else (case string_body r of
             None \<Rightarrow> None
           | Some (k, r1) \<Rightarrow> (case skip_ws r1 of
               [] \<Rightarrow> None
             | c # r2 \<Rightarrow>
                 if c \<noteq> CHR '':'' then None
                 else (case decode_value n r2 of
                     None \<Rightarrow> None
                   | Some (v, r3) \<Rightarrow> (case skip_ws r3 of
                       [] \<Rightarrow> None
                     | d # r4 \<Rightarrow>
                         if d = CHR '','' then decode_members n (member_put k v acc) r4
                         else if d = CHR ''}'' then Some (JObj (member_put k v acc), r4)
                         else None)))))"
| "decode_elements 0 acc s = None"
| "decode_elements (Suc n) acc s = (case decode_value n s of
       None \<Rightarrow> None
     | Some (v, r) \<Rightarrow> (case skip_ws r of
         [] \<Rightarrow> None
       | d # r1 \<Rightarrow>
           if d = CHR '','' then decode_elements n (acc @ [v]) r1
           else if d = CHR '']'' then Some (JArr (acc @ [v]), r1)
           else None))"

text \<open>\<open>Decoder.Decode\<close> of the first value, and \<open>json.Unmarshal\<close> of a whole text.\<close>

definition decode_first :: "string \<Rightarrow> jval option" where
  "decode_first s = map_option fst (decode_value (Suc (length s)) s)"

definition json_unmarshal :: "string \<Rightarrow> jval option" where
  "json_unmarshal s = (case decode_value (Suc (length s)) s of
       Some (v, r) \<Rightarrow> if skip_ws r = [] then Some v else None
     | None \<Rightarrow> None)"

end
