(* ===== verification/Json_Roundtrip.thy ===== *)
theory Json_Roundtrip
  imports Json_Decode
begin

text \<open>
  Decoding inverts encoding: what the gateway writes with Marshal, Unmarshal reads back.
\<close>

subsection \<open>String literals\<close>

lemma hex_value_digit: "d < 16 \<Longrightarrow> hex_value (hex_digit d) = Some d"
proof -
  assume "d < 16"
  then have "d \<in> {0, 1, 2, 3, 4, 5, 6, 7, 8, 9, 10, 11, 12, 13, 14, 15}" unfolding insert_iff empty_iff by presburger
  then show ?thesis by (elim insertE) (simp_all, simp_all add: hex_value_def hex_digit_def is_digit_def lower_char_def Let_def less_eq_char_def)
qed

lemma unicode_escape_read:
  assumes "of_char c < (128 :: nat)"
  shows "unicode_unescape (drop 2 (unicode_escape (of_char c)) @ s) = Some ([c], s)"
proof -
  let ?n = "of_char c :: nat"
  have "hex_value (CHR ''0'') = Some 0" by code_simp
  moreover have "hex_value (hex_digit (?n div 16)) = Some (?n div 16)"
    "hex_value (hex_digit (?n mod 16)) = Some (?n mod 16)"
    using assms by (simp_all add: hex_value_digit)
  ultimately have "hex4 (drop 2 (unicode_escape ?n) @ s) = Some (?n div 16 * 16 + ?n mod 16, s)"
    by (simp add: unicode_escape_def)
  then show ?thesis using assms by (simp add: unicode_unescape_def utf8_encode_def)
qed

lemma string_body_char:
  "string_body (json_char c @ s) = map_option (\<lambda>(y, z). (c # y, z)) (string_body s)"
proof (cases "of_char c < (32 :: nat) \<or> c = CHR ''<'' \<or> c = CHR ''>'' \<or> c = CHR ''&''")
  case plain: False
  then show ?thesis by (auto simp: json_char_def Let_def simple_escape_def option.map_comp)
next
  case True
  show ?thesis
  proof (cases "of_char c \<in> {8, 12, 10, 13, 9 :: nat}")
    case short: True
    then have "c \<in> {CHR 0x08, CHR 0x0C, CHR 0x0A, CHR 0x0D, CHR 0x09}"
      by (auto simp: of_char_eq_iff [symmetric, where 'a = nat] simp del: of_char_eq_iff)
    then show ?thesis by (auto simp: json_char_def simple_escape_def)
  next
    case False
    have small: "of_char c < (128 :: nat)" using True by auto
    have "c \<noteq> CHR 0x22" "c \<noteq> CHR 0x5C" using True by auto
    then have "json_char c = [CHR 0x5C, CHR ''u''] @ drop 2 (unicode_escape (of_char c))"
      using True False by (auto simp: json_char_def Let_def unicode_escape_def)
    then show ?thesis using unicode_escape_read [OF small, of s] by (simp add: case_prod_beta)
  qed
qed

lemma string_body_text: "string_body (concat (map json_char s) @ CHR 0x22 # r) = Some (s, r)"
  by (induction s) (simp_all add: string_body_char del: string_body.simps(2), simp)

subsection \<open>Numbers\<close>

text \<open>What may follow a value inside a text: nothing, or a delimiter.\<close>

definition delimited :: "string \<Rightarrow> bool" where
  "delimited r \<longleftrightarrow> (case r of [] \<Rightarrow> True | c # _ \<Rightarrow> c \<in> {CHR '','', CHR '']'', CHR ''}'', CHR 0x0A})"

lemma delimitedI [simp]: "delimited []" "delimited (CHR '','' # r)" "delimited (CHR '']'' # r)" "delimited (CHR ''}'' # r)" "delimited (CHR 0x0A # r)"
  by (simp_all add: delimited_def)

lemma delimited_not_digit: "delimited (c # r) \<Longrightarrow> \<not> is_digit c \<and> c \<noteq> CHR ''.'' \<and> c \<noteq> CHR ''e'' \<and> c \<noteq> CHR ''E''"
  by (auto simp: delimited_def is_digit_def Let_def)

lemma span_digits_append:
  "delimited r \<Longrightarrow> span_digits (s @ r) = (fst (span_digits s), snd (span_digits s) @ r)"
proof (induction s)
  case Nil
  then show ?case by (cases r) (auto simp: span_digits_def dest: delimited_not_digit)
qed (simp add: span_digits_def)

lemma number_exponent_append:
  assumes "delimited r" and "number_exponent s = Some (x, y)"
  shows "number_exponent (s @ r) = Some (x, y @ r)"
proof (cases s)
  case Nil
  with assms show ?thesis by (cases r) (auto simp: number_exponent_def dest: delimited_not_digit)
next
  case (Cons c t)
  show ?thesis
  proof (cases t)
    case Nil
    with assms(2) Cons show ?thesis by (auto simp: number_exponent_def span_digits_def split: if_splits)
  next
    case (Cons d u)
    with \<open>s = c # t\<close> assms show ?thesis
      using span_digits_append [OF assms(1), of u] span_digits_append [OF assms(1), of "d # u"]
      by (auto simp: number_exponent_def Let_def split: if_splits prod.splits)
  qed
qed

lemma number_fraction_append:
  assumes "delimited r" and "number_fraction s = Some (x, y)"
  shows "number_fraction (s @ r) = Some (x, y @ r)"
proof (cases s)
  case Nil
  with assms show ?thesis by (cases r) (auto simp: number_fraction_def dest: delimited_not_digit)
next
  case (Cons c t)
  with assms show ?thesis
    using span_digits_append [OF assms(1), of t]
    by (auto simp: number_fraction_def split: if_splits prod.splits)
qed

lemma number_unsigned_append:
  assumes "delimited r" and "s \<noteq> []"
    and "(case s of c # t \<Rightarrow> if c = CHR ''0'' then ([c], t) else span_digits s | [] \<Rightarrow> ([], s)) = (ds, u)"
  shows "(case s @ r of c # t \<Rightarrow> if c = CHR ''0'' then ([c], t) else span_digits (s @ r) | [] \<Rightarrow> ([], s @ r)) = (ds, u @ r)"
  using assms span_digits_append [OF assms(1), of s] by (cases s) auto

lemma number_literal_append:
  assumes r: "delimited r" and n: "number_literal n = Some (x, y)"
  shows "number_literal (n @ r) = Some (x, y @ r)"
proof -
  obtain sign r0 where s: "(case n of c # r \<Rightarrow> if c = CHR ''-'' then ([c], r) else ([], n) | [] \<Rightarrow> ([], n)) = (sign, r0)"
    by (cases "(case n of c # r \<Rightarrow> if c = CHR ''-'' then ([c], r) else ([], n) | [] \<Rightarrow> ([], n))")
  obtain ds r1 where d: "(case r0 of c # r \<Rightarrow> if c = CHR ''0'' then ([c], r) else span_digits r0 | [] \<Rightarrow> ([], r0)) = (ds, r1)"
    by (cases "(case r0 of c # r \<Rightarrow> if c = CHR ''0'' then ([c], r) else span_digits r0 | [] \<Rightarrow> ([], r0))")
  have ne: "ds \<noteq> []" using n s d by (auto simp: number_literal_def)
  then have r0: "r0 \<noteq> []" using d by auto
  have sr: "(case n @ r of c # t \<Rightarrow> if c = CHR ''-'' then ([c], t) else ([], n @ r) | [] \<Rightarrow> ([], n @ r)) = (sign, r0 @ r)"
    using s r0 by (cases n) (auto split: if_splits)
  obtain frac r2 where f: "number_fraction r1 = Some (frac, r2)" using n s d ne
    by (auto simp: number_literal_def split: option.splits)
  obtain ex r3 where e: "number_exponent r2 = Some (ex, r3)" using n s d ne f
    by (auto simp: number_literal_def split: option.splits)
  have "x = sign @ ds @ frac @ ex" "y = r3" using n s d ne f e by (auto simp: number_literal_def)
  moreover note number_unsigned_append [OF r r0 d] number_fraction_append [OF r f] number_exponent_append [OF r e]
  ultimately show ?thesis using sr ne by (simp add: number_literal_def)
qed

lemma number_literal_head:
  assumes "number_literal n = Some (n, [])"
  shows "\<exists>c t. n = c # t \<and> (c = CHR ''-'' \<or> is_digit c)"
proof (cases n)
  case Nil
  with assms show ?thesis by (simp add: number_literal_def)
next
  case (Cons c t)
  have "is_digit c" if "c \<noteq> CHR ''-''"
  proof (rule ccontr)
    assume "\<not> is_digit c"
    then have "c \<noteq> CHR ''0''" by (auto simp: is_digit_def Let_def)
    with \<open>\<not> is_digit c\<close> that assms Cons show False by (simp add: number_literal_def span_digits_def)
  qed
  with Cons show ?thesis by auto
qed

subsection \<open>Values\<close>

text \<open>
  A value in the form decoding produces: number literals are well formed and an object
  lists its members once each, in key order.
\<close>

fun canonical_json :: "jval \<Rightarrow> bool" where
  "canonical_json (JNum n) = (number_literal n = Some (n, []))"
| "canonical_json (JArr vs) = (\<forall>v \<in> set vs. canonical_json v)"
| "canonical_json (JObj ms) = (sorted (map fst ms) \<and> distinct (map fst ms) \<and> (\<forall>p \<in> set ms. canonical_json (snd p)))"
| "canonical_json _ = True"

lemma skip_ws_id [simp]: "\<not> is_json_space c \<Longrightarrow> skip_ws (c # s) = c # s"
  by (simp add: skip_ws_def)

lemma json_spaces [simp]: "\<not> is_json_space (CHR 0x22)" "\<not> is_json_space (CHR ''{'')" "\<not> is_json_space (CHR ''['')"
  "\<not> is_json_space (CHR ''}'')" "\<not> is_json_space (CHR '']'')" "\<not> is_json_space (CHR '','')"
  "\<not> is_json_space (CHR '':'')" "\<not> is_json_space (CHR ''n'')" "\<not> is_json_space (CHR ''t'')" "\<not> is_json_space (CHR ''f'')"
  "\<not> is_json_space (CHR ''-'')"
  by (simp_all add: is_json_space_def)

lemma digit_not_space: "is_digit c \<Longrightarrow> \<not> is_json_space c"
  by (auto simp: is_digit_def is_json_space_def Let_def)

lemma json_text_head:
  assumes "canonical_json v"
  shows "\<exists>c t. json_text v = c # t \<and> \<not> is_json_space c \<and> c \<noteq> CHR '']''"
proof (cases v)
  case (JNum n)
  with assms number_literal_head [of n] obtain c t where c: "n = c # t" "c = CHR ''-'' \<or> is_digit c" by auto
  then have "\<not> is_json_space c" "c \<noteq> CHR '']''" by (auto simp: digit_not_space, auto simp: is_digit_def Let_def)
  with c(1) JNum show ?thesis by simp
qed (auto simp: json_string_def)

text \<open>The decoder reads a written value and leaves what follows, for every sufficient fuel.\<close>

definition reads_back :: "jval \<Rightarrow> bool" where
  "reads_back v \<longleftrightarrow> (\<forall>n r. length (json_text v) < n \<longrightarrow> delimited r \<longrightarrow>
     decode_value n (json_text v @ r) = Some (v, r))"

lemma reads_backD:
  "reads_back v \<Longrightarrow> length (json_text v) < n \<Longrightarrow> delimited r \<Longrightarrow> decode_value n (json_text v @ r) = Some (v, r)"
  by (simp add: reads_back_def)

lemma decode_elements_text:
  assumes "vs \<noteq> []" and "\<forall>v \<in> set vs. reads_back v"
    and "length (join_with '','' (map json_text vs)) + 1 < n"
  shows "decode_elements n acc (join_with '','' (map json_text vs) @ CHR '']'' # r) = Some (JArr (acc @ vs), r)"
  using assms
proof (induction vs arbitrary: acc n rule: list_nonempty_induct)
  case (single v)
  obtain m where n: "n = Suc m" using single.prems(2) by (cases n) auto
  have "decode_value m (json_text v @ CHR '']'' # r) = Some (v, CHR '']'' # r)"
    using single.prems n by (intro reads_backD) auto
  with n show ?case by simp
next
  case (cons v vs)
  obtain m where n: "n = Suc m" using cons.prems(2) by (cases n) auto
  have j: "join_with '','' (map json_text (v # vs)) = json_text v @ CHR '','' # join_with '','' (map json_text vs)"
    using cons.hyps(1) by (cases vs) auto
  let ?rest = "join_with '','' (map json_text vs) @ CHR '']'' # r"
  have "decode_value m (json_text v @ CHR '','' # ?rest) = Some (v, CHR '','' # ?rest)"
    using cons.prems n j by (intro reads_backD) auto
  moreover have "decode_elements m (acc @ [v]) ?rest = Some (JArr ((acc @ [v]) @ vs), r)"
    using cons.prems n j by (intro cons.IH) auto
  ultimately show ?case using n j by simp
qed

lemma member_put_new: "k \<notin> fst ` set acc \<Longrightarrow> member_put k v acc = acc @ [(k, v)]"
  by (force simp: member_put_def filter_id_conv)

definition member_text :: "string \<times> jval \<Rightarrow> string" where
  "member_text p = json_string (fst p) @ '':'' @ json_text (snd p)"

lemma decode_member_step:
  assumes "reads_back (snd p)" and "length (json_text (snd p)) < m" and "d = CHR '','' \<or> d = CHR ''}''"
  shows "decode_members (Suc m) acc (member_text p @ d # r) =
     (if d = CHR '','' then decode_members m (member_put (fst p) (snd p) acc) r
      else Some (JObj (member_put (fst p) (snd p) acc), r))"
proof -
  have "string_body (concat (map json_char (fst p)) @ CHR 0x22 # CHR '':'' # json_text (snd p) @ d # r)
      = Some (fst p, CHR '':'' # json_text (snd p) @ d # r)" by (rule string_body_text)
  moreover have "decode_value m (json_text (snd p) @ d # r) = Some (snd p, d # r)"
    using assms by (intro reads_backD) auto
  ultimately show ?thesis using assms(3) by (auto simp: member_text_def json_string_def)
qed

lemma decode_members_text:
  assumes "ms \<noteq> []" and "\<forall>p \<in> set ms. reads_back (snd p)"
    and "length (join_with '','' (map member_text ms)) + 1 < n"
    and "distinct (map fst (acc @ ms))"
  shows "decode_members n acc (join_with '','' (map member_text ms) @ CHR ''}'' # r) = Some (JObj (acc @ ms), r)"
  using assms
proof (induction ms arbitrary: acc n rule: list_nonempty_induct)
  case (single p)
  obtain m where n: "n = Suc m" using single.prems(2) by (cases n) auto
  have "length (json_text (snd p)) < m" using single.prems(2) n by (simp add: member_text_def)
  moreover have "member_put (fst p) (snd p) acc = acc @ [p]"
    using single.prems(3) by (simp add: member_put_new)
  ultimately show ?case
    using single.prems(1) n by (simp add: decode_member_step del: decode_members.simps)
next
  case (cons p ms)
  obtain m where n: "n = Suc m" using cons.prems(2) by (cases n) auto
  have j: "join_with '','' (map member_text (p # ms)) = member_text p @ CHR '','' # join_with '','' (map member_text ms)"
    using cons.hyps(1) by (cases ms) auto
  have "length (json_text (snd p)) < length (member_text p)" by (simp add: member_text_def)
  then have "length (json_text (snd p)) < m" using cons.prems(2) n j by simp
  moreover have put: "member_put (fst p) (snd p) acc = acc @ [p]"
    using cons.prems(3) by (simp add: member_put_new)
  moreover have "decode_members m (acc @ [p]) (join_with '','' (map member_text ms) @ CHR ''}'' # r) = Some (JObj ((acc @ [p]) @ ms), r)"
    using cons.prems n j by (intro cons.IH) auto
  ultimately show ?case
    using cons.prems(1) n j by (simp add: decode_member_step del: decode_members.simps)
qed

lemma json_text_object:
  assumes "sorted (map fst ms)"
  shows "json_text (JObj ms) = ''{'' @ join_with '','' (map member_text ms) @ ''}''"
proof -
  have "sort_members (map (\<lambda>(k, v). (k, json_text v)) ms) = map (\<lambda>(k, v). (k, json_text v)) ms"
    unfolding sort_members_def by (rule sort_key_id_if_sorted) (simp add: assms o_def case_prod_beta)
  moreover have "member_text = (\<lambda>p. json_string (fst p) @ '':'' @ json_text (snd p))"
    by (simp add: member_text_def fun_eq_iff)
  ultimately show ?thesis by (simp add: o_def case_prod_beta)
qed

lemma scalars_read_back:
  "reads_back JNull" "reads_back (JBool b)" "reads_back (JStr s)"
proof -
  have c: "\<not> is_digit (CHR ''n'')" "\<not> is_digit (CHR ''t'')" "\<not> is_digit (CHR ''f'')" by code_simp+
  show "reads_back JNull" using c(1) unfolding reads_back_def by (auto simp: has_prefix_def elim!: less_natE)
  show "reads_back (JBool b)" using c(2,3) unfolding reads_back_def by (auto simp: has_prefix_def elim!: less_natE)
  have "decode_value k (json_text (JStr s) @ r) = Some (JStr s, r)" if k: "length (json_text (JStr s)) < k" for k r
  proof -
    obtain m where "k = Suc m" using k by (cases k) auto
    then show ?thesis using string_body_text [of s r] by (simp add: json_string_def)
  qed
  then show "reads_back (JStr s)" by (simp add: reads_back_def)
qed

lemma canonical_reads_back: "canonical_json v \<Longrightarrow> reads_back v"
proof (induction v rule: canonical_json.induct)
  case (1 n)
  then have n: "number_literal n = Some (n, [])" by simp
  obtain c t where c: "n = c # t" "c = CHR ''-'' \<or> is_digit c" using number_literal_head [OF n] by blast
  have "decode_value k (n @ r) = Some (JNum n, r)" if k: "length n < k" and r: "delimited r" for k r
  proof -
    obtain m where "k = Suc m" using k by (cases k) auto
    moreover have "\<not> is_json_space c" using c(2) digit_not_space by auto
    moreover have "c \<noteq> CHR 0x22 \<and> c \<noteq> CHR ''{'' \<and> c \<noteq> CHR ''[''" using c(2) by (auto simp: is_digit_def Let_def)
    ultimately show ?thesis using c number_literal_append [OF r n] by auto
  qed
  then show ?case by (simp add: reads_back_def)
next
  case (2 vs)
  then have vs: "\<forall>v \<in> set vs. reads_back v" "\<forall>v \<in> set vs. canonical_json v" by auto
  have "decode_value k (json_text (JArr vs) @ r) = Some (JArr vs, r)" if k: "length (json_text (JArr vs)) < k" for k r
  proof -
    obtain m where m: "k = Suc m" using k by (cases k) auto
    show ?thesis
    proof (cases vs)
      case Nil
      with m show ?thesis by simp
    next
      case (Cons v ws)
      obtain c t where c: "json_text v = c # t" "\<not> is_json_space c" "c \<noteq> CHR '']''"
        using json_text_head vs(2) Cons by (metis list.set_intros(1))
      then have "\<exists>u. join_with '','' (map json_text vs) @ CHR '']'' # r = c # u" using Cons by (cases ws) auto
      moreover have "decode_elements m [] (join_with '','' (map json_text vs) @ CHR '']'' # r) = Some (JArr ([] @ vs), r)"
        using k m vs(1) Cons by (intro decode_elements_text) auto
      ultimately show ?thesis using m c by auto
    qed
  qed
  then show ?case by (simp add: reads_back_def)
next
  case (3 ms)
  then have ms: "\<forall>p \<in> set ms. reads_back (snd p)" "sorted (map fst ms)" "distinct (map fst ms)" by auto
  have "decode_value k (json_text (JObj ms) @ r) = Some (JObj ms, r)" if k: "length (json_text (JObj ms)) < k" for k r
  proof -
    obtain m where m: "k = Suc m" using k by (cases k) auto
    show ?thesis
    proof (cases ms)
      case Nil
      with m show ?thesis by (simp add: sort_members_def)
    next
      case (Cons p ps)
      have "\<exists>u. join_with '','' (map member_text ms) @ CHR ''}'' # r = CHR 0x22 # u"
        using Cons by (cases ps) (auto simp: member_text_def json_string_def)
      moreover have "decode_members m [] (join_with '','' (map member_text ms) @ CHR ''}'' # r) = Some (JObj ([] @ ms), r)"
        using k m ms Cons unfolding json_text_object [OF ms(2)] by (intro decode_members_text) auto
      ultimately show ?thesis unfolding json_text_object [OF ms(2)] using m by auto
    qed
  qed
  then show ?case by (simp add: reads_back_def)
qed (rule scalars_read_back)+

text \<open>The fuel that \<open>json_unmarshal\<close> and \<open>decode_first\<close> start with is enough.\<close>

lemma json_unmarshal_text:
  assumes "canonical_json v"
  shows "json_unmarshal (json_text v) = Some v" "decode_first (json_text v) = Some v"
proof -
  have "decode_value (Suc (length (json_text v))) (json_text v @ []) = Some (v, [])"
    by (rule reads_backD [OF canonical_reads_back [OF assms]]) simp_all
  then show "json_unmarshal (json_text v) = Some v" "decode_first (json_text v) = Some v"
    by (simp_all add: json_unmarshal_def decode_first_def skip_ws_def)
qed

end
