(* ===== verification/Request_Map.thy ===== *)
theory Request_Map
  imports Endpoint Json_Roundtrip
begin

text \<open>
  What argument mapping (\<open>prepareERPCall\<close>) promises of the request: a path argument stays
  inside its segment, and the body is the JSON text of exactly the mapped arguments.
\<close>

subsection \<open>Path arguments\<close>

text \<open>The bytes that would leave the segment or form a placeholder.\<close>

definition segment_breakers :: "char list" where "segment_breakers = ''/?#{}''"

lemma segment_breaker_code: "c \<in> set segment_breakers \<Longrightarrow> of_char c \<in> {47, 63, 35, 123, 125 :: nat}"
  by (auto simp: segment_breakers_def)

lemma upper_hex_read:
  assumes "d < 16"
  shows "is_hex (upper_hex d) \<and> unhex (upper_hex d) = d \<and> upper_hex d \<notin> set segment_breakers"
proof -
  have "d \<in> {0, 1, 2, 3, 4, 5, 6, 7, 8, 9, 10, 11, 12, 13, 14, 15}"
    using assms unfolding insert_iff empty_iff by presburger
  then have "is_hex (upper_hex d) \<and> unhex (upper_hex d) = d \<and> of_char (upper_hex d) \<notin> {47, 63, 35, 123, 125 :: nat}"
    by (elim insertE) (simp_all, simp_all add: is_hex_def unhex_def upper_hex_def Let_def)
  then show ?thesis using segment_breaker_code by blast
qed

lemma char_div_16: "of_char (c :: char) div 16 < (16 :: nat)"
  using nat_of_char_less_256 [of c] by linarith

lemma path_escape_unescape: "url_unescape EncodePathSegment (path_escape s) = Some s"
proof (induction s)
  case Nil
  show ?case by (simp add: path_escape_def url_escape_def)
next
  case (Cons c s)
  have small: "of_char c div 16 < (16 :: nat)" using char_div_16 [of c] by simp
  have pct: "should_escape EncodePathSegment (CHR ''%'')" by code_simp
  show ?case
  proof (cases "should_escape EncodePathSegment c")
    case True
    have "char_of (16 * (of_char c div 16) + of_char c mod 16) = c" by simp
    then show ?thesis
      using True Cons upper_hex_read [OF small] upper_hex_read [of "of_char c mod 16"]
      by (simp add: path_escape_def url_escape_def)
  next
    case False
    with pct have "c \<noteq> CHR ''%''" by auto
    with False Cons show ?thesis by (simp add: path_escape_def url_escape_def)
  qed
qed

lemma path_escape_chars: "c \<in> set (path_escape s) \<Longrightarrow> c \<notin> set segment_breakers"
proof (induction s)
  case (Cons a s)
  have small: "of_char a div 16 < (16 :: nat)" using char_div_16 [of a] by simp
  have "list_all (should_escape EncodePathSegment) segment_breakers" by code_simp
  then have "a \<notin> set segment_breakers" if "\<not> should_escape EncodePathSegment a" using that by (auto simp: list_all_iff)
  moreover have "CHR ''%'' \<notin> set segment_breakers" by (simp add: segment_breakers_def)
  ultimately show ?case
    using Cons upper_hex_read [OF small] upper_hex_read [of "of_char a mod 16"]
    by (auto simp: path_escape_def url_escape_def split: if_splits)
qed (simp add: path_escape_def url_escape_def)

text \<open>The name an argument is mapped to, and where it goes.\<close>

definition mapped_name :: "execution \<Rightarrow> string \<Rightarrow> string" where
  "mapped_name ex name = (case map_of (ex_mapping ex) name of
     Some mapped \<Rightarrow> if mapped \<noteq> [] then mapped else name | None \<Rightarrow> name)"

definition argument_location :: "execution \<Rightarrow> string \<Rightarrow> string" where
  "argument_location ex name = (case map_of (ex_parameter_locations ex) name of
     Some l \<Rightarrow> to_lower (trim_space l) | None \<Rightarrow> [])"

text \<open>
  A path argument stays inside its segment. An argument located in the path replaces its
  placeholder by a text that decodes to exactly the argument and contains no slash, query,
  fragment or placeholder character, so it can neither add a segment nor capture the
  placeholder of another argument; nothing else of the request changes.
\<close>

theorem path_argument_contained:
  assumes "argument_location ex name = ''path''" and "prepare_argument ex method (name, v) p = Inr p'"
  shows "\<exists>e. p' = p\<lparr> cp_url := replace_all 0 (cp_url p) (''{'' @ mapped_name ex name @ ''}'') e \<rparr> \<and>
     url_unescape EncodePathSegment e = Some (go_sprint v) \<and> (\<forall>c \<in> set e. c \<notin> set segment_breakers)"
proof -
  have "p' = p\<lparr> cp_url := replace_all 0 (cp_url p) (''{'' @ mapped_name ex name @ ''}'') (path_escape (go_sprint v)) \<rparr>"
    using assms by (auto simp: prepare_argument_def argument_location_def mapped_name_def Let_def split: if_splits)
  then show ?thesis using path_escape_unescape path_escape_chars by blast
qed

definition start_parts :: "string \<Rightarrow> call_parts" where
  "start_parts url = \<lparr> cp_url = url, cp_query = [], cp_headers = [], cp_fields = [], cp_body = None \<rparr>"

definition sample_execution :: execution where
  "sample_execution = \<lparr> ex_type = ''http'', ex_method = ''POST'', ex_endpoint = ''/api/{id}'', ex_approved_origins = [],
     ex_mapping = [], ex_parameter_locations = [(''id'', ''path'')], ex_body_argument = [], ex_response_path = [] \<rparr>"

theorem path_argument_contained_witness:
  "\<exists>e. prepare_argument sample_execution ''POST'' (''id'', JStr ''a/b?x'') (start_parts ''/api/{id}'')
        = Inr ((start_parts ''/api/{id}'')\<lparr> cp_url := ''/api/'' @ e \<rparr>) \<and> url_unescape EncodePathSegment e = Some ''a/b?x''"
proof -
  let ?arg = "(''id'', JStr ''a/b?x'')" and ?p = "start_parts ''/api/{id}''"
  have loc: "argument_location sample_execution ''id'' = ''path''" by code_simp
  obtain p' where p': "prepare_argument sample_execution ''POST'' ?arg ?p = Inr p'"
    by (simp add: prepare_argument_def sample_execution_def start_parts_def to_lower_def trim_space_def trim_left_def
        has_prefix_def is_space_def lower_char_def Let_def)
  have nm: "mapped_name sample_execution ''id'' = ''id''" by (simp add: mapped_name_def sample_execution_def)
  from path_argument_contained [OF loc p'] obtain e where e:
    "p' = ?p\<lparr> cp_url := replace_all 0 (cp_url ?p) (''{'' @ ''id'' @ ''}'') e \<rparr>"
    "url_unescape EncodePathSegment e = Some ''a/b?x''" unfolding nm by auto
  have "replace_all 0 (cp_url ?p) (''{'' @ ''id'' @ ''}'') e = ''/api/'' @ e" by (simp add: start_parts_def has_prefix_def eval_nat_numeral)
  with e p' show ?thesis by auto
qed

text \<open>
  The escaping does not touch dots, so an argument can be the dot segment that a server may
  resolve against the path.
\<close>

lemma dot_segment_passes: "path_escape ''..'' = ''..''"
  by code_simp

subsection \<open>The body\<close>

definition parts_from :: "jval set \<Rightarrow> call_parts \<Rightarrow> bool" where
  "parts_from vals p \<longleftrightarrow> amap_wf (cp_fields p) \<and> snd ` set (cp_fields p) \<subseteq> vals \<and> (\<forall>v. cp_body p = Some v \<longrightarrow> v \<in> vals)"

lemma prepare_argument_parts:
  assumes "parts_from vals p" and "snd arg \<in> vals" and "prepare_argument ex method arg p = Inr p'"
  shows "parts_from vals p'"
proof -
  have put: "parts_from vals (p\<lparr> cp_fields := amap_put k (snd arg) (cp_fields p) \<rparr>)" for k
    using assms(1,2) by (auto simp: parts_from_def amap_put_def distinct_map_filter image_iff)
  have put': "parts_from vals (p\<lparr> cp_body := Some (snd arg) \<rparr>)"
    using assms(1,2) by (auto simp: parts_from_def)
  have keep: "parts_from vals (p\<lparr> cp_url := x \<rparr>)" "parts_from vals (p\<lparr> cp_query := y \<rparr>)" "parts_from vals (p\<lparr> cp_headers := z \<rparr>)" for x y z
    using assms(1) by (simp_all add: parts_from_def)
  show ?thesis using assms(3) put put' keep by (auto simp: prepare_argument_def Let_def split: prod.splits if_splits)
qed

lemma prepare_arguments_parts:
  "parts_from vals p \<Longrightarrow> snd ` set args \<subseteq> vals \<Longrightarrow> prepare_arguments ex method args p = Inr p' \<Longrightarrow> parts_from vals p'"
proof (induction args arbitrary: p)
  case (Cons arg args)
  obtain p1 where p1: "prepare_argument ex method arg p = Inr p1" "prepare_arguments ex method args p1 = Inr p'"
    using Cons.prems(3) by (auto split: sum.splits)
  have "parts_from vals p1" using Cons.prems p1(1) by (auto intro: prepare_argument_parts)
  from Cons.IH [OF this _ p1(2)] Cons.prems show ?case by auto
qed simp

lemma sorted_arguments_values:
  assumes "\<forall>v \<in> snd ` set args. canonical_json v"
  shows "\<forall>v \<in> snd ` set (sorted_arguments args). canonical_json v"
  using assms by (auto simp: sorted_arguments_def split: option.splits dest!: map_of_SomeD)

lemma json_text_sorted: "json_text (JObj ms) = json_text (JObj (sort_members ms))" if "amap_wf ms"
proof (rule json_text_members [OF that])
  show wf: "amap_wf (sort_members ms)" using that by (simp add: sort_members_def distinct_map inj_on_def)
  show "map_of ms = map_of (sort_members ms)"
    using that wf by (simp add: map_of_inject_set)
qed

text \<open>
  The ERP receives exactly the mapped arguments. When a call has a body, decoding it
  gives the complete body argument, or the object of all body fields under their mapped
  names, with every value unchanged.
\<close>

theorem erp_body_decodes:
  assumes "\<forall>v \<in> snd ` set args. canonical_json v"
    and "prepare_erp_call base env t args = Inr (ep, query, Some body)"
  shows "\<exists>p. prepare_arguments (ts_execution (tl_spec t)) (ep_method ep) (sorted_arguments args)
        (start_parts (ex_endpoint (ts_execution (tl_spec t)))) = Inr p \<and>
     json_unmarshal body = Some (case cp_body p of Some v \<Rightarrow> v | None \<Rightarrow> JObj (sort_members (cp_fields p)))"
proof -
  let ?vals = "snd ` set (sorted_arguments args)"
  obtain p where p: "prepare_arguments (ts_execution (tl_spec t)) (ep_method ep) (sorted_arguments args)
        (start_parts (ex_endpoint (ts_execution (tl_spec t)))) = Inr p"
      and body: "Some body = (case cp_body p of Some v \<Rightarrow> Some (json_text v)
        | None \<Rightarrow> if cp_fields p \<noteq> [] then Some (json_text (JObj (cp_fields p))) else None)"
    using assms(2) by (auto simp: prepare_erp_call_def start_parts_def Let_def split: if_splits sum.splits)
  have "parts_from ?vals p" by (rule prepare_arguments_parts [OF _ subset_refl p]) (simp add: parts_from_def start_parts_def)
  then have parts: "amap_wf (cp_fields p)" "snd ` set (cp_fields p) \<subseteq> ?vals" "\<And>v. cp_body p = Some v \<Longrightarrow> v \<in> ?vals"
    unfolding parts_from_def by blast+
  note vals = sorted_arguments_values [OF assms(1)]
  have wf: "amap_wf (cp_fields p)" "\<forall>v \<in> snd ` set (cp_fields p). canonical_json v"
      "\<And>v. cp_body p = Some v \<Longrightarrow> canonical_json v"
    using parts(1) vals subsetD [OF parts(2)] parts(3) by metis+
  have "canonical_json (JObj (sort_members (cp_fields p)))"
    using wf(1,2) by (auto simp: sort_members_def distinct_map inj_on_def)
  note fields = json_unmarshal_text(1) [OF this, folded json_text_sorted [OF wf(1)]]
  have "json_unmarshal body = Some (case cp_body p of Some v \<Rightarrow> v | None \<Rightarrow> JObj (sort_members (cp_fields p)))"
  proof (cases "cp_body p")
    case None
    then have "body = json_text (JObj (cp_fields p))" using body by (simp split: if_splits)
    with fields None show ?thesis by simp
  next
    case (Some v)
    with body json_unmarshal_text(1) [OF wf(3) [OF Some]] show ?thesis by simp
  qed
  with p show ?thesis by blast
qed

definition post_tool :: tool where
  "post_tool = (let t = blank_tool ''t'' ''1''; sp = tl_spec t in
     t\<lparr> tl_spec := sp\<lparr> ts_execution := (ts_execution sp)\<lparr> ex_method := ''POST'', ex_endpoint := ''https://erp.example/x'' \<rparr> \<rparr> \<rparr>)"

definition empty_credentials :: credential_env where
  "empty_credentials = \<lparr> env_lookup = (\<lambda>_. None), env_file = (\<lambda>_. FileReadError) \<rparr>"

theorem erp_body_decodes_witness:
  "\<exists>ep body. prepare_erp_call [] empty_credentials post_tool [(''a'', JStr ''x<y'')] = Inr (ep, [], Some body) \<and>
     json_unmarshal body = Some (JObj [(''a'', JStr ''x<y'')])"
proof -
  let ?args = "[(''a'', JStr ''x<y'')]" and ?url = "''https://erp.example/x''"
  have shape: "(case prepare_erp_call [] empty_credentials post_tool ?args of Inl _ \<Rightarrow> None
      | Inr (ep, q, b) \<Rightarrow> Some (ep_method ep, q, b \<noteq> None)) = Some (''POST'', [], True)" by code_simp
  then obtain ep body where call: "prepare_erp_call [] empty_credentials post_tool ?args = Inr (ep, [], Some body)"
      and m: "ep_method ep = ''POST''" by (auto split: sum.splits)
  have parts: "prepare_arguments (ts_execution (tl_spec post_tool)) ''POST'' (sorted_arguments ?args)
      (start_parts (ex_endpoint (ts_execution (tl_spec post_tool)))) = Inr ((start_parts ?url)\<lparr> cp_fields := ?args \<rparr>)"
    by code_simp
  have "\<forall>v \<in> snd ` set ?args. canonical_json v" by simp
  from erp_body_decodes [OF this call] parts have "json_unmarshal body = Some (JObj ?args)"
    by (simp add: m start_parts_def sort_members_def)
  with call show ?thesis by blast
qed

end
