(* ===== verification/Tool_Exec.thy ===== *)
theory Tool_Exec
  imports Access Connector Request_Map
begin

text \<open>
  internal/mcp/tool.go: response paths, the call of the ERP and \<open>Execute\<close>. The ERP
  connector, native handlers, the JSON-schema validator and \<open>mime.ParseMediaType\<close> are
  parameters. The state \<open>'s\<close> is whatever a connector or a handler acts on.
\<close>

subsection \<open>Response paths\<close>

datatype path_token = PathKey string | PathIndex int

definition key_char :: "char \<Rightarrow> bool" where
  "key_char c \<longleftrightarrow> c \<noteq> CHR ''.'' \<and> c \<noteq> CHR ''[''"

text \<open>The inner loop: the indices that follow a segment.\<close>

function path_indices :: "string \<Rightarrow> string + path_token list \<times> string" where
  "path_indices [] = Inr ([], [])"
| "path_indices (c # s) =
     (if c \<noteq> CHR ''['' then Inr ([], c # s)
      else (case str_cut (CHR '']'') s of
          None \<Rightarrow> Inl ''unterminated array index''
        | Some (inside, rest) \<Rightarrow> (case parse_int64 inside of
            None \<Rightarrow> Inl ''invalid array index''
          | Some index \<Rightarrow>
              if index < 0 then Inl ''invalid array index''
              else (case path_indices rest of
                  Inl e \<Rightarrow> Inl e
                | Inr (tokens, r) \<Rightarrow> Inr (PathIndex index # tokens, r)))))"
  by pat_completeness auto
termination by (relation "measure length") (auto dest: str_cut_shorter)

lemma path_indices_shorter: "path_indices s = Inr (ts, r) \<Longrightarrow> length r \<le> length s"
proof (induction s arbitrary: ts r rule: path_indices.induct)
  case (2 c s)
  show ?case
  proof (cases "c = CHR ''[''")
    case False
    with "2.prems" show ?thesis by simp
  next
    case True
    then obtain inside rest i ts' where st: "str_cut (CHR '']'') s = Some (inside, rest)" "parse_int64 inside = Some i"
        "\<not> i < 0" "path_indices rest = Inr (ts', r)"
      using "2.prems" by (auto split: option.splits if_splits sum.splits)
    from "2.IH" [OF _ st(1) refl st(2,3,4)] True have "length r \<le> length rest" by simp
    with str_cut_shorter [OF st(1)] show ?thesis by simp
  qed
qed simp

text \<open>The outer loop, one segment per turn.\<close>

function path_segments :: "string \<Rightarrow> string + path_token list" where
  "path_segments [] = Inr []"
| "path_segments (c # s) =
     (if c = CHR ''.'' then Inl ''empty object segment''
      else
        let key = takeWhile key_char (c # s); rest = dropWhile key_char (c # s) in
        (case path_indices rest of
           Inl e \<Rightarrow> Inl e
         | Inr (indices, r) \<Rightarrow>
             let tokens = (if key = [] then [] else [PathKey key]) @ indices in
             (case r of
                [] \<Rightarrow> Inr tokens
              | d # r' \<Rightarrow>
                  if d \<noteq> CHR ''.'' then Inl ''unexpected character''
                  else if r' = [] then Inl ''path ends with a separator''
                  else (case path_segments r' of
                      Inl e \<Rightarrow> Inl e
                    | Inr others \<Rightarrow> Inr (tokens @ others)))))"
  by pat_completeness auto
termination
proof (relation "measure length")
  fix c s x key rest y z indices r tokens d r'
  assume "x = takeWhile key_char (c # s)" "rest = dropWhile key_char (c # s)"
    "path_indices rest = Inr z" "(indices, r) = z" "r = d # r'"
  then have "Suc (length r') \<le> length rest" using path_indices_shorter [of rest indices r] by auto
  moreover have "length rest \<le> length (c # s)" using \<open>rest = _\<close> by (simp only: length_dropWhile_le)
  ultimately show "(r', c # s) \<in> measure length" by simp
qed (auto)

declare path_indices.simps [simp del] path_segments.simps [simp del]

definition parse_response_path :: "string \<Rightarrow> string + path_token list" where
  "parse_response_path path = (if path = [] then Inl ''path is empty'' else path_segments path)"

definition resolve_token :: "path_token \<Rightarrow> jval \<Rightarrow> string + jval" where
  "resolve_token token current = (case token of
       PathKey key \<Rightarrow> (case current of
           JObj ms \<Rightarrow> (case map_of ms key of Some v \<Rightarrow> Inr v | None \<Rightarrow> Inl ''response path not found'')
         | _ \<Rightarrow> Inl (''response path not found: expected object for '' @ key))
     | PathIndex i \<Rightarrow> (case current of
           JArr items \<Rightarrow>
             if i < 0 \<or> int (length items) \<le> i then Inl ''response path not found: array index is out of bounds''
             else Inr (items ! nat i)
         | _ \<Rightarrow> Inl ''response path not found: array index is out of bounds''))"

fun resolve_tokens :: "path_token list \<Rightarrow> jval \<Rightarrow> string + jval" where
  "resolve_tokens [] current = Inr current"
| "resolve_tokens (t # ts) current = (case resolve_token t current of
       Inl e \<Rightarrow> Inl e
     | Inr v \<Rightarrow> resolve_tokens ts v)"

definition resolve_response_path :: "jval \<Rightarrow> string \<Rightarrow> string + jval" where
  "resolve_response_path document path = (case parse_response_path path of
       Inl e \<Rightarrow> Inl (''invalid response path: '' @ e)
     | Inr tokens \<Rightarrow> resolve_tokens tokens document)"

subsection \<open>Calling the ERP\<close>

type_synonym query = "(string \<times> string) list"

text \<open>
  \<open>ERPConnector\<close>, and the optional \<open>ERPResponseConnector\<close> capability. A response pointer
  may be nil.
\<close>

record 's erp_connector =
  cn_call :: "endpoint_config \<Rightarrow> query \<Rightarrow> string option \<Rightarrow> 's \<Rightarrow> (gerr + http_response option) \<times> 's"
  cn_call_with_options ::
    "(endpoint_config \<Rightarrow> query \<Rightarrow> string option \<Rightarrow> call_options \<Rightarrow> 's \<Rightarrow> (gerr + http_response option) \<times> 's) option"

record tool_result =
  tv_result :: jval
  tv_error :: "tool_error option"
  tv_is_error :: bool

definition ok_result :: "jval \<Rightarrow> tool_result" where
  "ok_result v = \<lparr> tv_result = v, tv_error = None, tv_is_error = False \<rparr>"

definition error_result :: "tool_error \<Rightarrow> tool_result" where
  "error_result e = \<lparr> tv_result = JNull, tv_error = Some e, tv_is_error = True \<rparr>"

record erp_response =
  er_status :: int
  er_content_type :: string
  er_body :: string
  er_retry_after :: duration

text \<open>
  What a call depends on: the environment, the clock, the JSON-schema validator (the error
  it reports, if any), \<open>mime.ParseMediaType\<close>, \<open>http.ParseTime\<close> and the native handlers.
\<close>

record 's exec_env =
  xe_base_url :: string
  xe_credentials :: credential_env
  xe_now :: timestamp
  xe_schema :: "jval \<Rightarrow> jval \<Rightarrow> string option"
  xe_media_type :: "string \<Rightarrow> string option"
  xe_parse_time :: "string \<Rightarrow> timestamp option"
  xe_native :: "nat \<Rightarrow> ctx \<Rightarrow> jargs \<Rightarrow> 's \<Rightarrow> (gerr + tool_result option) \<times> 's"

fun prepare_error_text :: "prepare_error \<Rightarrow> gerr" where
  "prepare_error_text (NoEndpoint n) = EText (''tool '' @ n @ '' has no endpoint configuration'')"
| "prepare_error_text (PathParameterMissing n) = EText (''path parameter '' @ n @ '' is not present in endpoint'')"
| "prepare_error_text (UnsupportedLocation l) = EText (''unsupported parameter location '' @ l)"
| "prepare_error_text (CredentialFailed c) = EText ''credential could not be resolved''"

definition call_erp_response ::
  "'s exec_env \<Rightarrow> tool \<Rightarrow> jargs \<Rightarrow> 's erp_connector \<Rightarrow> call_options \<Rightarrow> 's \<Rightarrow>
     (gerr + http_response option) \<times> 's" where
  "call_erp_response xe t args conn options s =
     (case prepare_erp_call (xe_base_url xe) (xe_credentials xe) t args of
        Inl e \<Rightarrow> (Inl (prepare_error_text e), s)
      | Inr (ep, query, body) \<Rightarrow>
          if co_preserve_error_responses options then
            (case cn_call_with_options conn of
               None \<Rightarrow> (Inl (EText ''ERP connector does not support raw response capture''), s)
             | Some f \<Rightarrow> f ep query body options s)
          else cn_call conn ep query body s)"

definition max_plugin_json_bytes :: nat where "max_plugin_json_bytes = 1048576"

definition call_erp ::
  "'s exec_env \<Rightarrow> tool \<Rightarrow> jargs \<Rightarrow> 's erp_connector \<Rightarrow> call_options \<Rightarrow> 's \<Rightarrow> (gerr + erp_response) \<times> 's" where
  "call_erp xe t args conn options s = (case call_erp_response xe t args conn options s of
       (Inl e, s1) \<Rightarrow> (Inl (EWrap ''erp call failed: '' e []), s1)
     | (Inr None, s1) \<Rightarrow> (Inl (EText ''erp response body is unavailable''), s1)
     | (Inr (Some resp), s1) \<Rightarrow> (case resp_body resp of
           None \<Rightarrow> (Inl (EText ''erp response body is unavailable''), s1)
         | Some body \<Rightarrow>
             if length (take (max_plugin_json_bytes + 1) body) > max_plugin_json_bytes
             then (Inl (EText ''ERP response exceeds maximum size''), s1)
             else (Inr \<lparr> er_status = resp_status resp,
                     er_content_type = (case xe_media_type xe (trim_space (resp_content_type resp)) of
                        Some m \<Rightarrow> to_lower m | None \<Rightarrow> ''application/octet-stream''),
                     er_body = body,
                     er_retry_after = fst (parse_retry_after (xe_parse_time xe) (resp_retry_after resp) (xe_now xe)) \<rparr>, s1)))"

definition validate_result :: "'s exec_env \<Rightarrow> tool \<Rightarrow> jval \<Rightarrow> string option" where
  "validate_result xe t data = (case ts_output_schema (tl_spec t) of
     None \<Rightarrow> None | Some schema \<Rightarrow> xe_schema xe schema data)"

definition fault_for_http_response :: "'s exec_env \<Rightarrow> http_response \<Rightarrow> fault" where
  "fault_for_http_response xe resp =
     fault_for_http_status (resp_status resp)
       (fst (parse_retry_after (xe_parse_time xe) (resp_retry_after resp) (xe_now xe)))"

definition contract_fault :: "string \<Rightarrow> fault" where
  "contract_fault cause =
     new_fault KindInternal ''the ERP response did not match the tool contract'' False 0 (Some (EText cause))"

definition revision_inactive_fault :: "gerr \<Rightarrow> fault" where
  "revision_inactive_fault err =
     new_fault KindConflict ''the selected tool revision is no longer active; rediscover tools'' False 0 (Some err)"

definition origin_denied_fault :: "gerr \<Rightarrow> fault" where
  "origin_denied_fault err =
     new_fault KindPermissionDenied ''the effective ERP origin is not approved'' False 0 (Some err)"

text \<open>The fault of a call that returned an error.\<close>

definition call_failure :: "gerr \<Rightarrow> fault" where
  "call_failure err =
     (if errors_is err ErrRevisionInactive then revision_inactive_fault err
      else if errors_is err ErrOriginDenied then origin_denied_fault err
      else case faults_as err of
          Some f \<Rightarrow> f
        | None \<Rightarrow> new_fault KindInternal ''the tool could not prepare the ERP request; check server logs'' False 0 (Some err))"

definition is_success :: "int \<Rightarrow> bool" where "is_success status \<longleftrightarrow> 200 \<le> status \<and> status < 300"

definition tool_method :: "tool \<Rightarrow> string" where "tool_method t = ex_method (ts_execution (tl_spec t))"
definition tool_response_path :: "tool \<Rightarrow> string" where "tool_response_path t = ex_response_path (ts_execution (tl_spec t))"

text \<open>The handling of a response, once it is there.\<close>

definition execute_response :: "'s exec_env \<Rightarrow> tool \<Rightarrow> http_response option \<Rightarrow> gerr + tool_result" where
  "execute_response xe t response = (case response of
       None \<Rightarrow> Inl (EFault (new_fault KindDependencyUnavailable ''the ERP response was unavailable; retry later'' True 0
                 (Some (EText ''nil ERP response''))))
     | Some resp \<Rightarrow>
         if \<not> is_success (resp_status resp) then Inr (error_result (TEErr (EFault (fault_for_http_response xe resp))))
         else if equal_fold (tool_method t) ''HEAD'' \<or> resp_status resp = 204 then Inr (ok_result JNull)
         else (case resp_body resp of
             None \<Rightarrow> Inl (EFault (new_fault KindDependencyUnavailable
                       ''the ERP response body was unavailable; retry later'' True 0 (Some (EText ''nil ERP response body''))))
           | Some body \<Rightarrow> (case decode_first body of
               None \<Rightarrow> Inl (EFault (new_fault KindDependencyUnavailable
                         ''the ERP response was invalid; retry later'' True 0 (Some (EText ''decode''))))
             | Some resultData \<Rightarrow>
                 let extracted = (if tool_response_path t \<noteq> []
                       then resolve_response_path resultData (tool_response_path t) else Inr resultData)
                 in case extracted of
                      Inl e \<Rightarrow> Inl (EFault (contract_fault e))
                    | Inr v \<Rightarrow> (case validate_result xe t v of
                          Some e \<Rightarrow> Inr (error_result (TEErr (EFault (contract_fault e))))
                        | None \<Rightarrow> Inr (ok_result v)))))"

definition execute ::
  "'s exec_env \<Rightarrow> ctx \<Rightarrow> tool \<Rightarrow> jargs \<Rightarrow> 's erp_connector \<Rightarrow> 's \<Rightarrow> (gerr + tool_result option) \<times> 's" where
  "execute xe c t args conn s = (case tl_handler t of
       Some h \<Rightarrow> xe_native xe h c args s
     | None \<Rightarrow>
         let options = no_options\<lparr> co_preserve_error_responses := (cn_call_with_options conn \<noteq> None) \<rparr> in
         (case call_erp_response xe t args conn options s of
            (Inl err, s1) \<Rightarrow> (Inl (EFault (call_failure err)), s1)
          | (Inr response, s1) \<Rightarrow> (map_sum id Some (execute_response xe t response), s1)))"

subsection \<open>Printing a response path\<close>

definition render_token :: "path_token \<Rightarrow> string" where
  "render_token t = (case t of PathKey k \<Rightarrow> ''.'' @ k | PathIndex i \<Rightarrow> ''['' @ itoa i @ '']'')"

definition render_path :: "path_token list \<Rightarrow> string" where
  "render_path ts = (case ts of
     PathKey k # rest \<Rightarrow> k @ concat (map render_token rest)
   | _ \<Rightarrow> concat (map render_token ts))"

fun token_ok :: "path_token \<Rightarrow> bool" where
  "token_ok (PathKey k) = (k \<noteq> [] \<and> list_all key_char k)"
| "token_ok (PathIndex i) = (0 \<le> i \<and> i < 2 ^ 63)"

lemma parse_itoa: "0 \<le> i \<Longrightarrow> i < 2 ^ 63 \<Longrightarrow> parse_int64 (itoa i) = Some i"
proof -
  assume i: "0 \<le> i" "i < 2 ^ 63"
  obtain c r where d: "digits_of (nat i) = c # r" using digits_of_digit [of "nat i"] by (cases "digits_of (nat i)") auto
  have "is_digit c" using digits_of_digit [of "nat i"] d by simp
  then have "c \<noteq> CHR ''-''" "c \<noteq> CHR ''+''" by (auto simp: is_digit_def Let_def)
  with d i digits_of_digit [of "nat i"] digits_value_digits [of "nat i"] show ?thesis
    by (simp add: parse_int64_def itoa_def)
qed

lemma itoa_no_bracket: "0 \<le> i \<Longrightarrow> CHR '']'' \<notin> set (itoa i)"
proof -
  assume "0 \<le> i"
  moreover have "\<not> is_digit (CHR '']'')" by code_simp
  ultimately show ?thesis using digits_of_digit [of "nat i"] by (auto simp: itoa_def list_all_iff)
qed

fun is_index :: "path_token \<Rightarrow> bool" where
  "is_index (PathIndex i) = True" | "is_index (PathKey k) = False"

lemma render_key_start: "ts = [] \<or> (\<exists>k us. ts = PathKey k # us) \<Longrightarrow>
  path_indices (concat (map render_token ts)) = Inr ([], concat (map render_token ts))"
  by (auto simp: path_indices.simps render_token_def)

lemma path_indices_render:
  "list_all token_ok ts \<Longrightarrow> path_indices (concat (map render_token ts)) =
     Inr (takeWhile is_index ts, concat (map render_token (dropWhile is_index ts)))"
proof (induction ts)
  case Nil
  show ?case by (simp add: path_indices.simps)
next
  case (Cons t ts)
  show ?case
  proof (cases t)
    case (PathKey k)
    then show ?thesis using render_key_start [of "t # ts"] by simp
  next
    case (PathIndex i)
    have i: "0 \<le> i" "i < 2 ^ 63" using Cons.prems PathIndex by auto
    have "str_cut (CHR '']'') (itoa i @ CHR '']'' # r) = Some (itoa i, r)" for r
      using itoa_no_bracket [OF i(1)] by (simp add: str_cut_def takeWhile_append dropWhile_append)
    with Cons PathIndex parse_itoa [OF i] i show ?thesis
      by (simp add: render_token_def path_indices.simps(2))
  qed
qed

lemma key_run:
  assumes "list_all key_char k"
  shows "takeWhile key_char (k @ concat (map render_token ts)) = k"
    "dropWhile key_char (k @ concat (map render_token ts)) = concat (map render_token ts)"
proof -
  have r: "takeWhile key_char (concat (map render_token ts)) = []"
    "dropWhile key_char (concat (map render_token ts)) = concat (map render_token ts)"
    by (cases ts; cases "hd ts"; simp add: render_token_def key_char_def)+
  show "takeWhile key_char (k @ concat (map render_token ts)) = k"
    "dropWhile key_char (k @ concat (map render_token ts)) = concat (map render_token ts)"
    using assms r by (induction k) auto
qed

text \<open>One turn of the outer loop on a printed path.\<close>

lemma path_segments_turn:
  assumes "list_all key_char k" and "list_all token_ok ts" and "k @ concat (map render_token ts) \<noteq> []"
    and "k = [] \<Longrightarrow> is_index (hd ts)"
    and next_key: "\<And>k2 us. dropWhile is_index ts = PathKey k2 # us \<Longrightarrow>
       path_segments (k2 @ concat (map render_token us)) = Inr (PathKey k2 # us)"
  shows "path_segments (k @ concat (map render_token ts)) = Inr ((if k = [] then [] else [PathKey k]) @ ts)"
proof -
  obtain c s where cs: "k @ concat (map render_token ts) = c # s" using assms(3) by (cases "k @ concat (map render_token ts)") auto
  have dot: "c \<noteq> CHR ''.''"
  proof (cases k)
    case Nil
    have "ts \<noteq> []" using assms(3) Nil by auto
    with Nil assms(4) cs show ?thesis by (cases ts; cases "hd ts") (auto simp: render_token_def)
  next
    case (Cons a k')
    with cs assms(1) show ?thesis by (auto simp: key_char_def)
  qed
  note run = key_run [OF assms(1), of ts, unfolded cs]
  have step: "path_segments (c # s) = (case concat (map render_token (dropWhile is_index ts)) of
      [] \<Rightarrow> Inr ((if k = [] then [] else [PathKey k]) @ takeWhile is_index ts)
    | d # r' \<Rightarrow>
        if d \<noteq> CHR ''.'' then Inl ''unexpected character''
        else if r' = [] then Inl ''path ends with a separator''
        else (case path_segments r' of
            Inl e \<Rightarrow> Inl e
          | Inr others \<Rightarrow> Inr (((if k = [] then [] else [PathKey k]) @ takeWhile is_index ts) @ others)))"
    by (subst path_segments.simps(2)) (simp add: run dot path_indices_render [OF assms(2)] Let_def del: takeWhile.simps dropWhile.simps)
  show ?thesis
  proof (cases "dropWhile is_index ts")
    case Nil
    then have "takeWhile is_index ts = ts" by (metis append_Nil2 takeWhile_dropWhile_id)
    with step Nil cs show ?thesis by simp
  next
    case (Cons t us)
    have "\<not> is_index t" using Cons by (metis hd_dropWhile list.distinct(1) list.sel(1))
    then obtain k2 where t: "t = PathKey k2" by (cases t) auto
    have "t \<in> set ts" using Cons by (metis list.set_intros(1) set_dropWhileD)
    then have "k2 \<noteq> []" using assms(2) t by (auto simp: list_all_iff)
    have "takeWhile is_index ts @ PathKey k2 # us = ts" using Cons t by (metis takeWhile_dropWhile_id)
    with step Cons t next_key [of k2 us] cs \<open>k2 \<noteq> []\<close> show ?thesis by (simp add: render_token_def)
  qed
qed

lemma path_segments_key:
  "k \<noteq> [] \<Longrightarrow> list_all key_char k \<Longrightarrow> list_all token_ok ts \<Longrightarrow>
   path_segments (k @ concat (map render_token ts)) = Inr (PathKey k # ts)"
proof (induction ts arbitrary: k rule: measure_induct_rule [where f = length])
  case (less ts)
  have "path_segments (k2 @ concat (map render_token us)) = Inr (PathKey k2 # us)"
    if d: "dropWhile is_index ts = PathKey k2 # us" for k2 us
  proof -
    have "set (PathKey k2 # us) \<subseteq> set ts" using d by (metis set_dropWhileD subsetI)
    then have "list_all token_ok (PathKey k2 # us)" using less.prems(3) by (auto simp: list_all_iff)
    moreover have "length us < length ts" using d length_dropWhile_le [of is_index ts] by simp
    ultimately show ?thesis using less.IH by simp
  qed
  from path_segments_turn [OF less.prems(2,3) _ _ this] less.prems(1) show ?case by simp
qed

text \<open>
  C25: response paths round-trip. Every sequence of object keys (without dots and brackets)
  and in-range array indices, printed in the documented syntax, is parsed back to itself.
\<close>

theorem response_path_roundtrip:
  assumes "ts \<noteq> []" and "list_all token_ok ts"
  shows "parse_response_path (render_path ts) = Inr ts"
proof (cases "hd ts")
  case (PathKey k)
  then obtain us where ts: "ts = PathKey k # us" using assms(1) by (cases ts) auto
  with assms(2) path_segments_key [of k us] show ?thesis
    by (auto simp: parse_response_path_def render_path_def)
next
  case (PathIndex i)
  then obtain us where ts: "ts = PathIndex i # us" using assms(1) by (cases ts) auto
  have "path_segments (k2 @ concat (map render_token vs)) = Inr (PathKey k2 # vs)"
    if d: "dropWhile is_index ts = PathKey k2 # vs" for k2 vs
  proof -
    have "set (PathKey k2 # vs) \<subseteq> set ts" using d by (metis set_dropWhileD subsetI)
    then have "list_all token_ok (PathKey k2 # vs)" using assms(2) by (auto simp: list_all_iff)
    then show ?thesis using path_segments_key by simp
  qed
  from path_segments_turn [of "[]" ts, OF _ assms(2) _ _ this] ts
  have "path_segments (concat (map render_token ts)) = Inr ts" by (simp add: render_token_def)
  with ts show ?thesis by (simp add: parse_response_path_def render_path_def render_token_def)
qed

theorem response_path_roundtrip_witness:
  "parse_response_path (render_path [PathKey ''data'', PathIndex 0, PathKey ''name'']) =
     Inr [PathKey ''data'', PathIndex 0, PathKey ''name'']"
  by (rule response_path_roundtrip) (simp_all add: key_char_def)

subsection \<open>What a success means\<close>

text \<open>
  A successful result of an HTTP tool is checked. When \<open>Execute\<close> returns a result without
  error, the connector delivered a 2xx response, and the result is its body decoded and
  followed along the response path, accepted by the output schema; only a HEAD call or a
  204 response gives the null result without a body. Every other outcome is a fault of the
  taxonomy, never a bare error.
\<close>

theorem execute_success_checked:
  assumes "tl_handler t = None" and "execute xe c t args conn s = (out, s')"
  shows "(\<exists>f. out = Inl (EFault f)) \<or> (\<exists>f. out = Inr (Some (error_result (TEErr (EFault f))))) \<or>
     (\<exists>resp v. call_erp_response xe t args conn
          (no_options\<lparr> co_preserve_error_responses := (cn_call_with_options conn \<noteq> None) \<rparr>) s = (Inr (Some resp), s') \<and>
        200 \<le> resp_status resp \<and> resp_status resp < 300 \<and> out = Inr (Some (ok_result v)) \<and>
        ((equal_fold (tool_method t) ''HEAD'' \<or> resp_status resp = 204) \<and> v = JNull \<or>
         (\<exists>body decoded. resp_body resp = Some body \<and> decode_first body = Some decoded \<and>
            (if tool_response_path t = [] then v = decoded
             else resolve_response_path decoded (tool_response_path t) = Inr v) \<and>
            validate_result xe t v = None)))"
proof -
  let ?options = "no_options\<lparr> co_preserve_error_responses := (cn_call_with_options conn \<noteq> None) \<rparr>"
  obtain r s1 where r: "call_erp_response xe t args conn ?options s = (r, s1)"
    by (cases "call_erp_response xe t args conn ?options s")
  show ?thesis
  proof (cases r)
    case (Inl err)
    with assms r have "out = Inl (EFault (call_failure err))" by (simp add: execute_def Let_def)
    then show ?thesis by blast
  next
    case (Inr response)
    then have out: "out = map_sum id Some (execute_response xe t response)" "s' = s1"
      using assms r by (simp_all add: execute_def Let_def)
    show ?thesis
    proof (cases response)
      case None
      with out show ?thesis by (simp add: execute_response_def)
    next
      case (Some resp)
      note call = r [unfolded Inr Some, folded out(2)]
      show ?thesis
      proof (cases "is_success (resp_status resp)")
        case False
        with out Some have "out = Inr (Some (error_result (TEErr (EFault (fault_for_http_response xe resp)))))"
          by (simp add: execute_response_def)
        then show ?thesis by blast
      next
        case ok: True
        then have range: "200 \<le> resp_status resp" "resp_status resp < 300" by (simp_all add: is_success_def)
        show ?thesis
        proof (cases "equal_fold (tool_method t) ''HEAD'' \<or> resp_status resp = 204")
          case True
          with out Some ok have "out = Inr (Some (ok_result JNull))" by (auto simp: execute_response_def)
          with True call range show ?thesis by blast
        next
          case no_head: False
          show ?thesis
          proof (cases "\<exists>f. out = Inl (EFault f) \<or> out = Inr (Some (error_result (TEErr (EFault f))))")
            case True
            then show ?thesis by blast
          next
            case good: False
            have "\<exists>body decoded v. resp_body resp = Some body \<and> decode_first body = Some decoded \<and>
              (if tool_response_path t = [] then v = decoded
               else resolve_response_path decoded (tool_response_path t) = Inr v) \<and>
              validate_result xe t v = None \<and> out = Inr (Some (ok_result v))"
              using out Some ok no_head good
              by (auto simp: execute_response_def Let_def split: option.splits sum.splits if_splits)
            with call range show ?thesis by blast
          qed
        qed
      qed
    qed
  qed
qed

definition fixed_connector :: "http_response \<Rightarrow> 's erp_connector" where
  "fixed_connector resp = \<lparr> cn_call = (\<lambda>_ _ _ s. (Inr (Some resp), s)), cn_call_with_options = None \<rparr>"

definition plain_env :: "'s exec_env" where
  "plain_env = \<lparr> xe_base_url = [], xe_credentials = empty_credentials, xe_now = 0, xe_schema = (\<lambda>_ _. None),
     xe_media_type = (\<lambda>_. None), xe_parse_time = (\<lambda>_. None), xe_native = (\<lambda>_ _ _ s. (Inr None, s)) \<rparr>"

definition json_response :: "string \<Rightarrow> http_response" where
  "json_response body = \<lparr> resp_status = 200, resp_retry_after = [], resp_content_type = ''application/json'',
     resp_body = Some body \<rparr>"

theorem execute_success_checked_witness:
  "\<exists>decoded. decode_first ''[true]'' = Some decoded \<and>
     fst (execute plain_env background_ctx post_tool [] (fixed_connector (json_response ''[true]'')) ())
       = Inr (Some (ok_result decoded))"
proof -
  let ?conn = "fixed_connector (json_response ''[true]'') :: unit erp_connector"
  have h: "tl_handler post_tool = None" by code_simp
  have run: "fst (execute plain_env background_ctx post_tool [] ?conn ()) = Inr (Some (ok_result (JArr [JBool True])))"
    by code_simp
  have call: "call_erp_response plain_env post_tool [] ?conn
      (no_options\<lparr> co_preserve_error_responses := (cn_call_with_options ?conn \<noteq> None) \<rparr>) () =
      (Inr (Some (json_response ''[true]'')), ())" by code_simp
  have head: "\<not> (equal_fold (tool_method post_tool) ''HEAD'' \<or> resp_status (json_response ''[true]'') = 204)" by code_simp
  have path: "tool_response_path post_tool = []" by code_simp
  have body: "resp_body (json_response ''[true]'') = Some ''[true]''" by (simp add: json_response_def)
  from execute_success_checked [OF h surjective_pairing, of plain_env background_ctx "[]" ?conn "()"] run
  obtain decoded where "decode_first ''[true]'' = Some decoded" "JArr [JBool True] = decoded"
    unfolding call using head path body
    by (auto simp: ok_result_def error_result_def)
  with run show ?thesis by blast
qed

end
