(* ===== verification/Plugin_Bindings.thy ===== *)
theory Plugin_Bindings
  imports Store
begin

text \<open>
  internal/mcp/plugin_registry.go, with the runtime admission of raw-response bindings from
  plugin_api.go: which plugins run for which tool, and in which order. A registry holds an
  immutable snapshot that reconciliation replaces as one unit. Copies through encoding/json
  are the identity on the modelled resources; nil pointers stay visible as \<^const>\<open>None\<close>.
\<close>

subsection \<open>Active bindings and their order\<close>

record active_binding =
  ab_binding :: "plugin_binding option"
  ab_plugin :: "plugin option"

type_synonym binding_snapshot = "(string \<times> active_binding option list) list"

text \<open>
  The comparison of the snapshot's sort, priority first and then the binding's name, is a
  linear order on ranks, so the library's stable sort applies.
\<close>

datatype binding_rank = BindingRank (rank_priority: int) (rank_name: string)

definition rank_before :: "binding_rank \<Rightarrow> binding_rank \<Rightarrow> bool" where
  "rank_before a b \<longleftrightarrow>
     (if rank_priority a \<noteq> rank_priority b then rank_priority a < rank_priority b
      else rank_name a < rank_name b)"

instantiation binding_rank :: linorder
begin

definition less_binding_rank :: "binding_rank \<Rightarrow> binding_rank \<Rightarrow> bool" where
  "less_binding_rank a b \<longleftrightarrow> rank_before a b"

definition less_eq_binding_rank :: "binding_rank \<Rightarrow> binding_rank \<Rightarrow> bool" where
  "less_eq_binding_rank a b \<longleftrightarrow> \<not> rank_before b a"

instance
proof
  fix a b c :: binding_rank
  show "a < b \<longleftrightarrow> a \<le> b \<and> \<not> b \<le> a"
    by (auto simp: less_eq_binding_rank_def less_binding_rank_def rank_before_def)
  show "a \<le> a" by (simp add: less_eq_binding_rank_def rank_before_def)
  show "a \<le> b \<Longrightarrow> b \<le> c \<Longrightarrow> a \<le> c"
    by (auto simp: less_eq_binding_rank_def rank_before_def split: if_splits)
  show "a \<le> b \<Longrightarrow> b \<le> a \<Longrightarrow> a = b"
    by (cases a; cases b) (auto simp: less_eq_binding_rank_def rank_before_def split: if_splits)
  show "a \<le> b \<or> b \<le> a" by (auto simp: less_eq_binding_rank_def rank_before_def)
qed

end

definition binding_rank_of :: "plugin_binding \<Rightarrow> binding_rank" where
  "binding_rank_of b = BindingRank (bs_priority (pb_spec b)) (bm_name (pb_metadata b))"

text \<open>The key the sort reads; the builder only sorts bindings that are present.\<close>

fun active_rank :: "active_binding option \<Rightarrow> binding_rank" where
  "active_rank None = BindingRank 0 []"
| "active_rank (Some ab) = (case ab_binding ab of None \<Rightarrow> BindingRank 0 [] | Some b \<Rightarrow> binding_rank_of b)"

definition binding_phase :: "plugin_binding \<Rightarrow> string" where "binding_phase b = bs_phase (pb_spec b)"

definition phase_raw_response :: string where "phase_raw_response = ''raw_response''"
definition phase_after_response :: string where "phase_after_response = ''after_response''"

subsection \<open>Admission of raw-response bindings\<close>

text \<open>The two environment variables that admission reads.\<close>

record admission_env =
  pe_auth_token :: string
  pe_allow_list :: string

definition plugin_endpoint_allowlisted :: "admission_env \<Rightarrow> string \<Rightarrow> bool" where
  "plugin_endpoint_allowlisted penv endpoint \<longleftrightarrow>
     list_ex (\<lambda>allowed. equal_fold (trim_space allowed) endpoint) (split_at_char (CHR '','') (pe_allow_list penv))"

definition has_object_output_schema :: "tool \<Rightarrow> bool" where
  "has_object_output_schema t \<longleftrightarrow> (case ts_output_schema (tl_spec t) of
       Some (JObj ms) \<Rightarrow> map_of ms ''type'' = Some (JStr ''object'')
     | _ \<Rightarrow> False)"

definition raw_binding_runtime_admission :: "admission_env \<Rightarrow> plugin \<Rightarrow> tool \<Rightarrow> string + unit" where
  "raw_binding_runtime_admission penv p t =
     (if trim_space (pe_auth_token penv) = [] then Inl ''raw response bindings require authentication to be configured''
      else if tl_handler t \<noteq> None \<or> ex_type (ts_execution (tl_spec t)) \<noteq> ''http'' \<or> trim_space (tool_endpoint t) = []
        then Inl ''raw response bindings require an active HTTP tool''
      else if \<not> has_object_output_schema t then Inl ''raw response bindings require an object output schema''
      else (case plugin_endpoint_host_port (ps_endpoint (pl_spec p)) of
          Inl e \<Rightarrow> Inl (''normalize plugin endpoint: '' @ e)
        | Inr endpoint \<Rightarrow>
            if plugin_endpoint_allowlisted penv endpoint then Inr ()
            else Inl (''plugin endpoint '' @ endpoint @ '' is not in PLUGIN_ENDPOINT_ALLOWLIST'')))"

subsection \<open>Building a snapshot\<close>

definition plugin_resource_key :: "plugin \<Rightarrow> string" where
  "plugin_resource_key p = pm_name (pl_metadata p) @ ''@'' @ pm_version (pl_metadata p)"

definition tool_resource_key :: "tool \<Rightarrow> string" where
  "tool_resource_key t = tool_name t @ ''@'' @ tool_version t"

definition active_plugins :: "plugin list \<Rightarrow> (string \<times> plugin) list" where
  "active_plugins ps = foldl (\<lambda>m p. if pm_is_active (pl_metadata p) then amap_put (plugin_resource_key p) p m else m) [] ps"

definition find_active_tool :: "tool list \<Rightarrow> string \<Rightarrow> tool option" where
  "find_active_tool ts key = find (\<lambda>t. tool_active t \<and> tool_resource_key t = key) ts"

text \<open>The plugin a binding runs with, when the loop of \<open>buildPluginBindingSnapshot\<close> admits it.\<close>

definition admit_binding ::
  "admission_env \<Rightarrow> (string \<times> plugin) list \<Rightarrow> tool list \<Rightarrow> plugin_binding \<Rightarrow> plugin option" where
  "admit_binding penv plugins ts b =
     (if \<not> bm_is_active (pb_metadata b) then None
      else case map_of plugins (ref_key (bs_plugin_ref (pb_spec b))) of
        None \<Rightarrow> None
      | Some p \<Rightarrow> (case find_active_tool ts (binding_tool_key b) of
          None \<Rightarrow> None
        | Some t \<Rightarrow>
            if binding_phase b = phase_raw_response \<and> \<not> is_ok (raw_binding_runtime_admission penv p t) then None
            else Some p))"

type_synonym binding_pairs = "(string \<times> (plugin_binding \<times> plugin) list) list"

fun collect_bindings ::
  "admission_env \<Rightarrow> (string \<times> plugin) list \<Rightarrow> tool list \<Rightarrow> plugin_binding list \<Rightarrow> binding_pairs \<Rightarrow> binding_pairs" where
  "collect_bindings penv plugins ts [] snap = snap"
| "collect_bindings penv plugins ts (b # bs) snap =
     collect_bindings penv plugins ts bs (case admit_binding penv plugins ts b of
         None \<Rightarrow> snap
       | Some p \<Rightarrow> amap_put (binding_tool_key b)
             ((case map_of snap (binding_tool_key b) of None \<Rightarrow> [] | Some xs \<Rightarrow> xs) @ [(b, p)]) snap)"

definition activate :: "plugin_binding \<times> plugin \<Rightarrow> active_binding option" where
  "activate bp = Some \<lparr> ab_binding = Some (fst bp), ab_plugin = Some (snd bp) \<rparr>"

definition build_plugin_binding_snapshot ::
  "admission_env \<Rightarrow> plugin list \<Rightarrow> plugin_binding list \<Rightarrow> tool list \<Rightarrow> binding_snapshot" where
  "build_plugin_binding_snapshot penv ps bs ts =
     map (\<lambda>(key, pairs). (key, map activate (sort_key (\<lambda>bp. binding_rank_of (fst bp)) pairs)))
       (collect_bindings penv (active_plugins ps) ts bs [])"

subsection \<open>The registry\<close>

text \<open>A nil registry is \<^const>\<open>None\<close>; every method accepts it.\<close>

type_synonym plugin_registry = "binding_snapshot option"

definition new_plugin_registry :: plugin_registry where "new_plugin_registry = Some []"

definition plugin_registry_replace :: "binding_snapshot \<Rightarrow> plugin_registry \<Rightarrow> plugin_registry" where
  "plugin_registry_replace bindings r = (case r of None \<Rightarrow> None | Some _ \<Rightarrow> Some bindings)"

definition runtime_bindings_for_tool :: "plugin_registry \<Rightarrow> string \<Rightarrow> string \<Rightarrow> active_binding option list" where
  "runtime_bindings_for_tool r name version = (case r of
       None \<Rightarrow> []
     | Some snap \<Rightarrow> (case map_of snap (name @ ''@'' @ version) of None \<Rightarrow> [] | Some xs \<Rightarrow> xs))"

definition bindings_for_tool :: "plugin_registry \<Rightarrow> string \<Rightarrow> string \<Rightarrow> plugin_binding option list" where
  "bindings_for_tool r name version =
     concat (map (\<lambda>v. case v of None \<Rightarrow> [] | Some ab \<Rightarrow> [ab_binding ab]) (runtime_bindings_for_tool r name version))"

fun in_phase :: "string \<Rightarrow> active_binding option \<Rightarrow> bool" where
  "in_phase phase None = False"
| "in_phase phase (Some ab) = (case ab_binding ab of None \<Rightarrow> False | Some b \<Rightarrow> binding_phase b = phase)"

definition runtime_bindings_for_tool_phase ::
  "plugin_registry \<Rightarrow> string \<Rightarrow> string \<Rightarrow> string \<Rightarrow> active_binding option list" where
  "runtime_bindings_for_tool_phase r name version phase =
     filter (in_phase phase) (runtime_bindings_for_tool r name version)"

definition snapshot_bindings :: "plugin_registry \<Rightarrow> plugin_binding option list" where
  "snapshot_bindings r = (case r of
       None \<Rightarrow> []
     | Some snap \<Rightarrow> concat (map (\<lambda>(key, values).
           concat (map (\<lambda>v. case v of None \<Rightarrow> [] | Some ab \<Rightarrow> [ab_binding ab]) values)) snap))"

subsection \<open>What a snapshot contains\<close>

lemma active_plugins_mem:
  "map_of (active_plugins ps) key = Some p \<Longrightarrow> p \<in> set ps \<and> pm_is_active (pl_metadata p) \<and> plugin_resource_key p = key"
  by (induction ps rule: rev_induct) (auto simp: active_plugins_def split: if_splits)

lemma collect_bindings_at:
  "(case map_of (collect_bindings penv plugins ts bs snap) key of None \<Rightarrow> [] | Some xs \<Rightarrow> xs) =
   (case map_of snap key of None \<Rightarrow> [] | Some xs \<Rightarrow> xs) @
   List.map_filter (\<lambda>b. if binding_tool_key b = key then map_option (Pair b) (admit_binding penv plugins ts b) else None) bs"
  by (induction bs arbitrary: snap) (auto simp: List.map_filter_simps split: option.splits)

text \<open>The pairs that a snapshot holds for a key: the admitted bindings of that tool.\<close>

definition admitted_pairs ::
  "admission_env \<Rightarrow> plugin list \<Rightarrow> plugin_binding list \<Rightarrow> tool list \<Rightarrow> string \<Rightarrow> (plugin_binding \<times> plugin) list" where
  "admitted_pairs penv ps bs ts key =
     List.map_filter (\<lambda>b. if binding_tool_key b = key
        then map_option (Pair b) (admit_binding penv (active_plugins ps) ts b) else None) bs"

lemma snapshot_at:
  "runtime_bindings_for_tool (Some (build_plugin_binding_snapshot penv ps bs ts)) name version =
     map activate (sort_key (\<lambda>bp. binding_rank_of (fst bp)) (admitted_pairs penv ps bs ts (name @ ''@'' @ version)))"
proof -
  have "map_of (build_plugin_binding_snapshot penv ps bs ts) key =
      map_option (\<lambda>pairs. map activate (sort_key (\<lambda>bp. binding_rank_of (fst bp)) pairs))
        (map_of (collect_bindings penv (active_plugins ps) ts bs []) key)" for key
    unfolding build_plugin_binding_snapshot_def by (rule map_of_map_upd)
  then show ?thesis
    using collect_bindings_at [of penv "active_plugins ps" ts bs "[]" "name @ ''@'' @ version"]
    by (auto simp: runtime_bindings_for_tool_def admitted_pairs_def split: option.splits)
qed

lemma admitted_pairs_mem:
  "(b, p) \<in> set (admitted_pairs penv ps bs ts key) \<longleftrightarrow>
     b \<in> set bs \<and> binding_tool_key b = key \<and> admit_binding penv (active_plugins ps) ts b = Some p"
  unfolding admitted_pairs_def by (induction bs) (auto simp: List.map_filter_simps split: option.splits)

text \<open>A binding that is admitted, and what that means for its plugin and its tool.\<close>

lemma admit_binding_sound:
  assumes "admit_binding penv (active_plugins ps) ts b = Some p"
  shows "bm_is_active (pb_metadata b) \<and> p \<in> set ps \<and> pm_is_active (pl_metadata p) \<and>
     plugin_resource_key p = ref_key (bs_plugin_ref (pb_spec b)) \<and>
     (\<exists>t \<in> set ts. tool_active t \<and> tool_resource_key t = binding_tool_key b \<and>
        (binding_phase b = phase_raw_response \<longrightarrow> raw_binding_runtime_admission penv p t = Inr ()))"
proof -
  obtain t where t: "bm_is_active (pb_metadata b)" "find_active_tool ts (binding_tool_key b) = Some t"
      "map_of (active_plugins ps) (ref_key (bs_plugin_ref (pb_spec b))) = Some p"
      "binding_phase b = phase_raw_response \<Longrightarrow> is_ok (raw_binding_runtime_admission penv p t)"
    using assms by (auto simp: admit_binding_def split: if_splits option.splits)
  have "t \<in> set ts \<and> tool_active t \<and> tool_resource_key t = binding_tool_key b"
    using find_SomeD [OF t(2) [unfolded find_active_tool_def]] by auto
  moreover have "binding_phase b = phase_raw_response \<longrightarrow> raw_binding_runtime_admission penv p t = Inr ()"
    using t(4) by (auto simp: is_ok_iff)
  ultimately show ?thesis using t(1) active_plugins_mem [OF t(3)] by blast
qed

lemma raw_admission_sound:
  "raw_binding_runtime_admission penv p t = Inr () \<Longrightarrow>
     trim_space (pe_auth_token penv) \<noteq> [] \<and> tl_handler t = None \<and> has_object_output_schema t \<and>
     (\<exists>endpoint. plugin_endpoint_host_port (ps_endpoint (pl_spec p)) = Inr endpoint \<and>
        plugin_endpoint_allowlisted penv endpoint)"
  by (auto simp: raw_binding_runtime_admission_def split: if_splits sum.splits)

lemma runtime_count:
  "length (runtime_bindings_for_tool_phase (Some (build_plugin_binding_snapshot penv ps bs ts)) name version phase) =
     length (filter (\<lambda>bp. binding_phase (fst bp) = phase) (admitted_pairs penv ps bs ts (name @ ''@'' @ version)))"
  unfolding runtime_bindings_for_tool_phase_def snapshot_at
  by (simp add: filter_map o_def activate_def filter_sort)

text \<open>
  What may run for a tool in a phase: an active stored binding of exactly that tool and
  phase, with the active stored plugin of the version it references, for an active tool.
  A plugin that is shown raw ERP responses must also be on the endpoint allow list of a
  server with authentication.
\<close>

definition may_run ::
  "admission_env \<Rightarrow> plugin list \<Rightarrow> plugin_binding list \<Rightarrow> tool list \<Rightarrow> string \<Rightarrow> string \<Rightarrow> string \<Rightarrow>
     plugin_binding \<Rightarrow> plugin \<Rightarrow> tool \<Rightarrow> bool" where
  "may_run penv ps bs ts name version phase b p t \<longleftrightarrow>
     b \<in> set bs \<and> bm_is_active (pb_metadata b) \<and> binding_phase b = phase \<and>
     ref_key (bs_tool_ref (pb_spec b)) = name @ ''@'' @ version \<and>
     p \<in> set ps \<and> pm_is_active (pl_metadata p) \<and> plugin_resource_key p = ref_key (bs_plugin_ref (pb_spec b)) \<and>
     t \<in> set ts \<and> tool_active t \<and> tool_resource_key t = name @ ''@'' @ version \<and>
     (phase = phase_raw_response \<longrightarrow> trim_space (pe_auth_token penv) \<noteq> [] \<and> tl_handler t = None \<and>
        has_object_output_schema t \<and>
        (\<exists>endpoint. plugin_endpoint_host_port (ps_endpoint (pl_spec p)) = Inr endpoint \<and>
           plugin_endpoint_allowlisted penv endpoint))"

lemma admitted_may_run:
  assumes "(b, p) \<in> set (admitted_pairs penv ps bs ts (name @ ''@'' @ version))"
  shows "\<exists>t. may_run penv ps bs ts name version (binding_phase b) b p t"
proof -
  have b: "b \<in> set bs" "binding_tool_key b = name @ ''@'' @ version"
      "admit_binding penv (active_plugins ps) ts b = Some p" using assms by (auto simp: admitted_pairs_mem)
  from admit_binding_sound [OF b(3)] b(1,2) show ?thesis
    unfolding may_run_def by (auto simp: binding_tool_key_def dest!: raw_admission_sound)
qed

text \<open>
  The bindings that run for a tool. After reconciliation builds a snapshot, the bindings
  looked up for a tool and a phase come in the order of priority and name; each one is an
  active stored binding of exactly that tool and phase, paired with an active stored plugin
  of the version it references, for a tool that is active itself. A plugin that is shown raw
  ERP responses is, in addition, on the endpoint allow list of a server with authentication.
\<close>

theorem runtime_bindings_sound:
  assumes "snap = build_plugin_binding_snapshot penv ps bs ts"
    and "runtime = runtime_bindings_for_tool_phase (Some snap) name version phase"
  shows "sorted (map active_rank runtime) \<and>
     (\<forall>v \<in> set runtime. \<exists>b p t. v = Some \<lparr> ab_binding = Some b, ab_plugin = Some p \<rparr> \<and>
        may_run penv ps bs ts name version phase b p t)"
proof -
  let ?pairs = "sort_key (\<lambda>bp. binding_rank_of (fst bp)) (admitted_pairs penv ps bs ts (name @ ''@'' @ version))"
  let ?kept = "filter (\<lambda>bp. binding_phase (fst bp) = phase) ?pairs"
  have runtime: "runtime = map activate ?kept"
    unfolding assms runtime_bindings_for_tool_phase_def snapshot_at by (simp add: filter_map o_def activate_def)
  have "sorted (map (\<lambda>bp. binding_rank_of (fst bp)) ?kept)" by (rule sorted_filter) simp
  then have "sorted (map active_rank runtime)" by (simp add: runtime o_def activate_def)
  moreover have "\<exists>b p t. v = Some \<lparr> ab_binding = Some b, ab_plugin = Some p \<rparr> \<and>
      may_run penv ps bs ts name version phase b p t" if v: "v \<in> set runtime" for v
  proof -
    obtain b p where "v = activate (b, p)" "binding_phase b = phase"
        "(b, p) \<in> set (admitted_pairs penv ps bs ts (name @ ''@'' @ version))"
      using v by (auto simp: runtime)
    with admitted_may_run show ?thesis by (fastforce simp: activate_def)
  qed
  ultimately show ?thesis by blast
qed

definition sample_plugin :: "string \<Rightarrow> plugin" where
  "sample_plugin name = \<lparr> pl_api_version = ''erpbridge.io/v1'', pl_kind = ''Plugin'',
     pl_metadata = \<lparr> pm_name = name, pm_version = ''1.0.0'', pm_type = ''api'', pm_is_active = True \<rparr>,
     pl_spec = \<lparr> ps_endpoint = ''https://plugin.example'', ps_timeout_milliseconds = 1000, ps_auth = None \<rparr> \<rparr>"

definition sample_binding :: "string \<Rightarrow> string \<Rightarrow> int \<Rightarrow> string \<Rightarrow> plugin_binding" where
  "sample_binding name phase priority policy = \<lparr> pb_api_version = ''erpbridge.io/v1'', pb_kind = ''PluginBinding'',
     pb_metadata = \<lparr> bm_name = name, bm_is_active = True \<rparr>,
     pb_spec = \<lparr> bs_plugin_ref = \<lparr> rf_name = ''mask'', rf_version = ''1.0.0'' \<rparr>,
       bs_tool_ref = \<lparr> rf_name = ''orders'', rf_version = ''1.0.0'' \<rparr>,
       bs_phase = phase, bs_priority = priority, bs_failure_policy = policy, bs_config = [] \<rparr> \<rparr>"

lemma sample_resources [simp]:
  "bm_is_active (pb_metadata (sample_binding n ph pr po))" "binding_phase (sample_binding n ph pr po) = ph"
  "binding_tool_key (sample_binding n ph pr po) = ''orders@1.0.0''"
  "ref_key (bs_plugin_ref (pb_spec (sample_binding n ph pr po))) = ''mask@1.0.0''"
  "pm_is_active (pl_metadata (sample_plugin m))" "plugin_resource_key (sample_plugin m) = m @ ''@1.0.0''"
  by (simp_all add: sample_binding_def sample_plugin_def plugin_resource_key_def binding_tool_key_def ref_key_def
      binding_phase_def)

text \<open>Two bindings of one tool: the one stored last has the lower priority number and runs first.\<close>

theorem runtime_bindings_sound_witness:
  "\<exists>snap runtime.
     snap = build_plugin_binding_snapshot \<lparr> pe_auth_token = [], pe_allow_list = [] \<rparr> [sample_plugin ''mask'']
       [sample_binding ''b'' phase_after_response 2 [], sample_binding ''a'' phase_after_response 1 []]
       [blank_tool ''orders'' ''1.0.0''] \<and>
     runtime = runtime_bindings_for_tool_phase (Some snap) ''orders'' ''1.0.0'' phase_after_response \<and>
     length runtime = 2 \<and> sorted (map active_rank runtime)"
proof -
  let ?snap = "build_plugin_binding_snapshot \<lparr> pe_auth_token = [], pe_allow_list = [] \<rparr> [sample_plugin ''mask'']
       [sample_binding ''b'' phase_after_response 2 [], sample_binding ''a'' phase_after_response 1 []]
       [blank_tool ''orders'' ''1.0.0'']"
  let ?runtime = "runtime_bindings_for_tool_phase (Some ?snap) ''orders'' ''1.0.0'' phase_after_response"
  have plugins: "map_of (active_plugins [sample_plugin ''mask'']) ''mask@1.0.0'' = Some (sample_plugin ''mask'')"
    by (simp add: active_plugins_def)
  have tools: "find_active_tool [blank_tool ''orders'' ''1.0.0''] ''orders@1.0.0'' = Some (blank_tool ''orders'' ''1.0.0'')"
    by (simp add: find_active_tool_def tool_resource_key_def)
  have pairs: "admitted_pairs penv [sample_plugin ''mask'']
      [sample_binding ''b'' phase_after_response 2 [], sample_binding ''a'' phase_after_response 1 []]
      [blank_tool ''orders'' ''1.0.0''] ''orders@1.0.0'' =
      [(sample_binding ''b'' phase_after_response 2 [], sample_plugin ''mask''),
       (sample_binding ''a'' phase_after_response 1 [], sample_plugin ''mask'')]" for penv
    using plugins tools
    by (simp add: admitted_pairs_def List.map_filter_simps admit_binding_def phase_after_response_def phase_raw_response_def)
  have "length ?runtime = 2" unfolding runtime_count by (simp add: pairs)
  moreover have "sorted (map active_rank ?runtime)" by (rule runtime_bindings_sound [OF refl refl, THEN conjunct1])
  ultimately show ?thesis by (intro exI conjI) (rule refl | assumption)+
qed

end
