(* ===== verification/Plugin_Client.thy ===== *)
theory Plugin_Client
  imports Tool_Exec Plugin_Bindings
begin

text \<open>
  internal/mcp/plugin_client.go: one invocation of an external plugin over HTTP. The
  transport, the random source, \<open>mime.ParseMediaType\<close> and the semver library are
  parameters; \<open>'w\<close> is the world the transport acts on. The client follows no redirect
  and has no cookie jar. The request's deadline is part of the transport, which reports
  whether it failed by time-out.
\<close>

subsection \<open>The client\<close>

record ('w, 'v, 'c) plugin_client =
  pv_transport :: "http_request \<Rightarrow> 'w \<Rightarrow> (bool + http_response) \<times> 'w"
  pv_random :: "'w \<Rightarrow> string option \<times> 'w"
  pv_credentials :: credential_env
  pv_insecure_hosts :: string
  pv_media_type :: "string \<Rightarrow> string option"
  pv_semver :: "('v, 'c) semver"

definition plugin_protocol_version :: string where "plugin_protocol_version = ''v1''"

definition plugin_authentication_header ::
  "credential_env \<Rightarrow> plugin_auth option \<Rightarrow> string + (string \<times> string)" where
  "plugin_authentication_header env auth = (case auth of
       None \<Rightarrow> Inr ([], [])
     | Some a \<Rightarrow> (case resolve_credential env (pa_credential_ref a) [pa_credential_source a] of
           Inl _ \<Rightarrow> Inl ''plugin credential is not configured''
         | Inr credential \<Rightarrow>
             if pa_type a = ''bearer'' then Inr (''Authorization'', ''Bearer '' @ credential)
             else if pa_type a = ''api-key'' then
               Inr (if pa_header a = [] then ''X-API-Key'' else pa_header a, credential)
             else Inl ''invalid plugin configuration''))"

text \<open>Where the request goes and the credential it carries, checked before anything else.\<close>

definition plugin_target ::
  "('w, 'v, 'c) plugin_client \<Rightarrow> plugin \<Rightarrow> string + (url \<times> string \<times> string)" where
  "plugin_target cl p = (case plugin_process_url (pv_semver cl) p of
       Inl _ \<Rightarrow> Inl ''invalid plugin configuration''
     | Inr endpoint \<Rightarrow> (case plugin_authentication_header (pv_credentials cl) (ps_auth (pl_spec p)) of
           Inl e \<Rightarrow> Inl e
         | Inr (header, value) \<Rightarrow>
             if validate_outbound_transport (pv_insecure_hosts cl) endpoint (value \<noteq> []) = None
             then Inl ''credentialed plugin endpoint is not allowed''
             else Inr (endpoint, header, value)))"

text \<open>\<open>MarshalJSON\<close>: the fields in their declared order.\<close>

definition struct_text :: "(string \<times> string) list \<Rightarrow> string" where
  "struct_text members = ''{'' @ join_with '','' (map (\<lambda>(k, t). json_string k @ '':'' @ t) members) @ ''}''"

definition ref_text :: "resource_ref \<Rightarrow> string" where
  "ref_text r = struct_text [(''name'', json_string (rf_name r)), (''version'', json_string (rf_version r))]"

definition raw_response_text :: "plugin_raw_response \<Rightarrow> string" where
  "raw_response_text r = struct_text [(''status'', itoa (rr_status r)), (''contentType'', json_string (rr_content_type r)),
     (''body'', struct_text [(''encoding'', json_string (rb_encoding (rr_body r))), (''value'', json_text (rb_value (rr_body r)))])]"

definition plugin_invocation_text :: "plugin_invocation \<Rightarrow> string" where
  "plugin_invocation_text i = struct_text
     ([(''protocolVersion'', json_string (pi_protocol_version i)), (''invocationId'', json_string (pi_invocation_id i)),
       (''tool'', ref_text (pi_tool i))] @
      (case pi_raw_response i of
         Some raw \<Rightarrow> [(''rawResponse'', raw_response_text raw)]
       | None \<Rightarrow> [(''result'', json_text (pi_result i))]) @
      (if pi_config i = [] then [] else [(''config'', json_text (JObj (pi_config i)))]))"

definition plugin_request_headers :: "string \<Rightarrow> string \<Rightarrow> headers" where
  "plugin_request_headers header value =
     (let h = header_set ''Accept'' ''application/json'' (header_set ''Content-Type'' ''application/json'' []) in
      if header \<noteq> [] then header_set header value h else h)"

definition plugin_request ::
  "('w, 'v, 'c) plugin_client \<Rightarrow> url \<Rightarrow> string \<Rightarrow> string \<Rightarrow> plugin_invocation \<Rightarrow> string + http_request" where
  "plugin_request cl endpoint header value i =
     (if plugin_invocation_validate (pv_semver cl) (pv_media_type cl) i \<noteq> Inr () then Inl ''invalid plugin invocation''
      else
        let body = plugin_invocation_text i in
        if length body > max_plugin_json_bytes then Inl ''plugin request exceeds maximum size''
        else Inr \<lparr> rq_method = ''POST'', rq_url = url_string endpoint, rq_headers = plugin_request_headers header value,
                   rq_body = Some body, rq_follow_redirects = False \<rparr>)"

text \<open>
  The member of the response envelope. encoding/json matches field names case-insensitively;
  its folding also takes the long s and the Kelvin sign for their letters. The last match wins.
\<close>

fun fold_json_name :: "string \<Rightarrow> string" where
  "fold_json_name (c # d # s) =
     (if c = CHR 0xC5 \<and> d = CHR 0xBF then CHR ''s'' # fold_json_name s
      else if c = CHR 0xE2 \<and> d = CHR 0x84 \<and> s \<noteq> [] \<and> hd s = CHR 0xAA then CHR ''k'' # fold_json_name (tl s)
      else lower_char c # fold_json_name (d # s))"
| "fold_json_name [c] = [lower_char c]"
| "fold_json_name [] = []"

definition envelope_result :: "jval \<Rightarrow> string + jval option" where
  "envelope_result document = (case document of
       JNull \<Rightarrow> Inr None
     | JObj ms \<Rightarrow> Inr (map_option snd (find (\<lambda>m. fold_json_name (fst m) = ''result'') (rev ms)))
     | _ \<Rightarrow> Inl ''decode plugin response'')"

definition plugin_response :: "http_response \<Rightarrow> string + jval" where
  "plugin_response resp =
     (if resp_status resp < 200 \<or> 300 \<le> resp_status resp then Inl (''plugin returned status '' @ itoa (resp_status resp))
      else case resp_body resp of
        None \<Rightarrow> Inl ''read plugin response''
      | Some body \<Rightarrow>
          if length (take (max_plugin_json_bytes + 1) body) > max_plugin_json_bytes
          then Inl ''plugin response exceeds maximum size''
          else (case json_unmarshal body of
              None \<Rightarrow> Inl ''decode plugin response''
            | Some document \<Rightarrow> (case envelope_result document of
                Inl e \<Rightarrow> Inl e
              | Inr None \<Rightarrow> Inl ''plugin response is missing result''
              | Inr (Some result) \<Rightarrow> Inr result)))"

definition plugin_send ::
  "('w, 'v, 'c) plugin_client \<Rightarrow> http_request \<Rightarrow> 'w \<Rightarrow> (string + jval) \<times> 'w" where
  "plugin_send cl req w = (case pv_transport cl req w of
       (Inl timedOut, w') \<Rightarrow> (Inl (if timedOut then ''plugin request timed out'' else ''plugin request failed''), w')
     | (Inr resp, w') \<Rightarrow> (plugin_response resp, w'))"

definition invocation_identified ::
  "('w, 'v, 'c) plugin_client \<Rightarrow> plugin_invocation \<Rightarrow> 'w \<Rightarrow> plugin_invocation option \<times> 'w" where
  "invocation_identified cl i w =
     (if pi_invocation_id i \<noteq> [] then (Some i, w)
      else case pv_random cl w of
        (None, w') \<Rightarrow> (None, w')
      | (Some raw, w') \<Rightarrow> (Some (i\<lparr> pi_invocation_id := hex_encode raw \<rparr>), w'))"

definition plugin_process ::
  "('w, 'v, 'c) plugin_client option \<Rightarrow> plugin option \<Rightarrow> plugin_invocation \<Rightarrow> 'w \<Rightarrow> (string + jval) \<times> 'w" where
  "plugin_process clo po i w = (case clo of
       None \<Rightarrow> (Inl ''plugin client is required'', w)
     | Some cl \<Rightarrow> (case po of
         None \<Rightarrow> (Inl ''plugin is required'', w)
       | Some p \<Rightarrow> (case plugin_target cl p of
           Inl e \<Rightarrow> (Inl e, w)
         | Inr (endpoint, header, value) \<Rightarrow>
             if pi_protocol_version i \<noteq> [] \<and> pi_protocol_version i \<noteq> plugin_protocol_version
             then (Inl ''unsupported plugin protocol version'', w)
             else (case invocation_identified cl (i\<lparr> pi_protocol_version := plugin_protocol_version \<rparr>) w of
                 (None, w1) \<Rightarrow> (Inl ''generate plugin invocation id'', w1)
               | (Some inv1, w1) \<Rightarrow> (case plugin_request cl endpoint header value inv1 of
                   Inl e \<Rightarrow> (Inl e, w1)
                 | Inr req \<Rightarrow> plugin_send cl req w1)))))"

subsection \<open>What leaves the process\<close>

text \<open>The same client with a record of the requests handed to its transport.\<close>

definition recording :: "('w, 'v, 'c) plugin_client \<Rightarrow> ('w \<times> http_request list, 'v, 'c) plugin_client" where
  "recording cl = \<lparr>
     pv_transport = (\<lambda>req (w, sent). case pv_transport cl req w of (r, w') \<Rightarrow> (r, (w', sent @ [req]))),
     pv_random = (\<lambda>(w, sent). case pv_random cl w of (r, w') \<Rightarrow> (r, (w', sent))),
     pv_credentials = pv_credentials cl, pv_insecure_hosts = pv_insecure_hosts cl,
     pv_media_type = pv_media_type cl, pv_semver = pv_semver cl \<rparr>"

lemma recording_simps [simp]:
  "pv_credentials (recording cl) = pv_credentials cl" "pv_insecure_hosts (recording cl) = pv_insecure_hosts cl"
  "pv_media_type (recording cl) = pv_media_type cl" "pv_semver (recording cl) = pv_semver cl"
  by (simp_all add: recording_def)

lemma recording_prepares [simp]:
  "plugin_target (recording cl) p = plugin_target cl p"
  "plugin_request (recording cl) u h v i = plugin_request cl u h v i"
  by (simp_all add: plugin_target_def plugin_request_def cong: sum.case_cong)

lemma recording_identified:
  "invocation_identified (recording cl) i (w, sent) =
     (case invocation_identified cl i w of (r, w') \<Rightarrow> (r, (w', sent)))"
  by (simp add: invocation_identified_def recording_def split: prod.splits option.splits)

lemma recording_send:
  "plugin_send (recording cl) req (w, sent) = (case plugin_send cl req w of (r, w') \<Rightarrow> (r, (w', sent @ [req])))"
  by (simp add: plugin_send_def recording_def split: prod.splits sum.splits)

lemma resolved_credential_nonempty:
  "resolve_credential env ref [source] = Inr c \<Longrightarrow> ref \<noteq> [] \<Longrightarrow> c \<noteq> []"
  by (auto simp: resolve_credential_def Let_def split: if_splits option.splits file_outcome.splits)

lemma process_url_validated:
  "plugin_process_url sv p = Inr u \<Longrightarrow> plugin_auth_validate (ps_auth (pl_spec p)) = Inr ()"
  by (auto simp: plugin_process_url_def plugin_validate_def canonicalize_type_def Let_def
      split: if_splits prod.splits sum.splits option.splits)

text \<open>
  The credential of a request: present exactly when the plugin has authentication, and then
  only on a transport that may carry one.
\<close>

lemma plugin_target_credential:
  assumes "plugin_target cl p = Inr (u, header, v)"
  shows "plugin_process_url (pv_semver cl) p = Inr u \<and>
     (ps_auth (pl_spec p) = None \<and> header = [] \<or>
      (\<exists>a cred. ps_auth (pl_spec p) = Some a \<and>
         resolve_credential (pv_credentials cl) (pa_credential_ref a) [pa_credential_source a] = Inr cred \<and>
         (v = cred \<or> v = ''Bearer '' @ cred) \<and>
         validate_outbound_transport (pv_insecure_hosts cl) u True \<noteq> None))"
proof -
  have u: "plugin_process_url (pv_semver cl) p = Inr u"
      "plugin_authentication_header (pv_credentials cl) (ps_auth (pl_spec p)) = Inr (header, v)"
      "validate_outbound_transport (pv_insecure_hosts cl) u (v \<noteq> []) \<noteq> None"
    using assms by (auto simp: plugin_target_def split: sum.splits if_splits)
  show ?thesis
  proof (cases "ps_auth (pl_spec p)")
    case None
    with u show ?thesis by (simp add: plugin_authentication_header_def)
  next
    case (Some a)
    have "pa_credential_ref a \<noteq> []"
      using process_url_validated [OF u(1)] Some
      by (auto simp: plugin_auth_validate_def valid_plugin_credential_ref_def has_prefix_def split: if_splits)
    then obtain cred where "resolve_credential (pv_credentials cl) (pa_credential_ref a) [pa_credential_source a] = Inr cred"
        "cred \<noteq> []" "v = cred \<or> v = ''Bearer '' @ cred"
      using u(2) Some resolved_credential_nonempty
      by (auto simp: plugin_authentication_header_def split: sum.splits if_splits)
    with u Some show ?thesis by auto
  qed
qed

definition contained_plugin_request :: "('w, 'v, 'c) plugin_client \<Rightarrow> plugin \<Rightarrow> http_request \<Rightarrow> bool" where
  "contained_plugin_request cl p req \<longleftrightarrow>
     rq_method req = ''POST'' \<and> \<not> rq_follow_redirects req \<and>
     (\<exists>body. rq_body req = Some body \<and> length body \<le> max_plugin_json_bytes) \<and>
     (\<exists>u. plugin_process_url (pv_semver cl) p = Inr u \<and> rq_url req = url_string u \<and>
        (\<forall>(k, v) \<in> set (rq_headers req).
           k \<in> {''Content-Type'', ''Accept''} \<and> v = ''application/json'' \<or>
           (\<exists>a cred. ps_auth (pl_spec p) = Some a \<and>
              resolve_credential (pv_credentials cl) (pa_credential_ref a) [pa_credential_source a] = Inr cred \<and>
              (v = cred \<or> v = ''Bearer '' @ cred) \<and>
              validate_outbound_transport (pv_insecure_hosts cl) u True \<noteq> None)))"

lemma plugin_base_headers:
  "header_set ''Accept'' ''application/json'' (header_set ''Content-Type'' ''application/json'' []) =
     [(''Accept'', ''application/json''), (''Content-Type'', ''application/json'')]"
  by code_simp

lemma plugin_request_contained:
  assumes "plugin_target cl p = Inr (u, header, v)" and "plugin_request cl u header v i = Inr req"
  shows "contained_plugin_request cl p req"
proof -
  have req: "req = \<lparr> rq_method = ''POST'', rq_url = url_string u, rq_headers = plugin_request_headers header v,
      rq_body = Some (plugin_invocation_text i), rq_follow_redirects = False \<rparr>"
      "length (plugin_invocation_text i) \<le> max_plugin_json_bytes"
    using assms(2) by (auto simp: plugin_request_def Let_def split: if_splits)
  have "(k, x) \<in> set (plugin_request_headers header v) \<Longrightarrow>
      k \<in> {''Content-Type'', ''Accept''} \<and> x = ''application/json'' \<or> header \<noteq> [] \<and> x = v" for k x
    unfolding plugin_request_headers_def plugin_base_headers Let_def
    by (auto simp: header_set_def amap_put_def split: if_splits)
  with plugin_target_credential [OF assms(1)] req show ?thesis
    unfolding contained_plugin_request_def by fastforce
qed

text \<open>
  What a plugin invocation sends. It hands the transport at most one request, and that is
  a POST without redirects to the process URL of the validated plugin, with a body of at most
  1 MiB; besides the two media type headers it carries only the credential configured for
  this plugin, and that only over https or to a host allowed for plain http. Without a
  request the invocation is an error.
\<close>

theorem plugin_invocation_contained:
  assumes "plugin_process (Some (recording cl)) (Some p) i (w, []) = (r, (w', sent))"
  shows "plugin_process (Some cl) (Some p) i w = (r, w') \<and> length sent \<le> 1 \<and>
     (\<forall>req \<in> set sent. contained_plugin_request cl p req) \<and> (sent = [] \<longrightarrow> (\<exists>e. r = Inl e))"
proof (cases "plugin_target cl p")
  case (Inl e)
  with assms show ?thesis by (auto simp: plugin_process_def)
next
  case (Inr target)
  obtain u header v where target: "plugin_target cl p = Inr (u, header, v)" using Inr by (cases target) auto
  show ?thesis
  proof (cases "pi_protocol_version i \<noteq> [] \<and> pi_protocol_version i \<noteq> plugin_protocol_version")
    case True
    with assms target show ?thesis by (auto simp: plugin_process_def)
  next
    case version: False
    obtain io w1 where io: "invocation_identified cl (i\<lparr> pi_protocol_version := plugin_protocol_version \<rparr>) w = (io, w1)"
      by (cases "invocation_identified cl (i\<lparr> pi_protocol_version := plugin_protocol_version \<rparr>) w")
    show ?thesis
    proof (cases "\<exists>i1 req. io = Some i1 \<and> plugin_request cl u header v i1 = Inr req")
      case False
      with assms target version io show ?thesis
        by (auto simp: plugin_process_def recording_identified split: option.splits sum.splits)
    next
      case True
      then obtain i1 req where req: "io = Some i1" "plugin_request cl u header v i1 = Inr req" by blast
      obtain r1 w2 where "plugin_send cl req w1 = (r1, w2)" by (cases "plugin_send cl req w1")
      with assms target version io req plugin_request_contained [OF target req(2)] show ?thesis
        by (auto simp: plugin_process_def recording_identified recording_send)
    qed
  qed
qed

text \<open>A plugin that answers every invocation with the same result.\<close>

definition echo_body :: string where
  "echo_body = [CHR ''{'', CHR 0x22, CHR ''r'', CHR ''e'', CHR ''s'', CHR ''u'', CHR ''l'', CHR ''t'', CHR 0x22,
     CHR '':'', CHR ''1'', CHR ''}'']"

definition echo_client :: "(unit, string, string) plugin_client" where
  "echo_client = \<lparr> pv_transport = (\<lambda>_ w. (Inr \<lparr> resp_status = 200, resp_retry_after = [],
       resp_content_type = ''application/json'', resp_body = Some echo_body \<rparr>, w)),
     pv_random = (\<lambda>w. (Some ''seed'', w)), pv_credentials = empty_credentials, pv_insecure_hosts = [],
     pv_media_type = Some, pv_semver = any_semver \<rparr>"

definition sample_invocation :: plugin_invocation where
  "sample_invocation = \<lparr> pi_protocol_version = plugin_protocol_version, pi_invocation_id = ''1'',
     pi_tool = \<lparr> rf_name = ''orders'', rf_version = ''1.0.0'' \<rparr>, pi_result = JNull, pi_raw_response = None, pi_config = [] \<rparr>"

theorem plugin_invocation_contained_witness:
  "\<exists>req. plugin_process (Some (recording echo_client)) (Some (sample_plugin ''mask'')) sample_invocation ((), []) =
       (Inr (JNum ''1''), ((), [req])) \<and> contained_plugin_request echo_client (sample_plugin ''mask'') req"
proof -
  have "is_ok (plugin_target echo_client (sample_plugin ''mask''))" by code_simp
  then obtain u h v where target: "plugin_target echo_client (sample_plugin ''mask'') = Inr (u, h, v)"
    by (auto simp: is_ok_iff)
  have valid: "plugin_invocation_validate (pv_semver echo_client) (pv_media_type echo_client) sample_invocation = Inr ()"
    by code_simp
  have "length (plugin_invocation_text sample_invocation) < 200" by code_simp
  then obtain req where req: "plugin_request echo_client u h v sample_invocation = Inr req"
    using valid by (simp add: plugin_request_def max_plugin_json_bytes_def)
  have "json_unmarshal echo_body = Some (JObj [(''result'', JNum ''1'')])" by code_simp
  moreover have "fold_json_name ''result'' = ''result''" "length echo_body = 12" by code_simp+
  ultimately have answer: "plugin_send echo_client req () = (Inr (JNum ''1''), ())"
    by (simp add: plugin_send_def plugin_response_def echo_client_def max_plugin_json_bytes_def envelope_result_def)
  have "invocation_identified echo_client (sample_invocation\<lparr> pi_protocol_version := plugin_protocol_version \<rparr>) ()
      = (Some sample_invocation, ())" "pi_protocol_version sample_invocation = plugin_protocol_version"
    by (simp_all add: invocation_identified_def sample_invocation_def)
  then have run: "plugin_process (Some (recording echo_client)) (Some (sample_plugin ''mask'')) sample_invocation ((), []) =
      (Inr (JNum ''1''), ((), [req]))"
    using target req answer by (simp add: plugin_process_def recording_identified recording_send)
  with plugin_invocation_contained [OF run] show ?thesis by auto
qed

end
