(* ===== verification/Plugin_Pipeline.thy ===== *)
theory Plugin_Pipeline
  imports Plugin_Client
begin

text \<open>
  internal/mcp/plugin_pipeline.go: how a tool runs with the plugins bound to it. Raw-response
  plugins see the captured ERP response, after-response plugins see the validated result; the
  failure policy of a binding decides between the unmodified result and a generic failure.
  The processor is a parameter of the state \<open>'s\<close>; a response pointer may be nil.
\<close>

type_synonym 's processor = "plugin \<Rightarrow> plugin_invocation \<Rightarrow> 's \<Rightarrow> (string + jval option) \<times> 's"

record 's pipeline_env =
  pp_exec :: "'s exec_env"
  pp_processor :: "'s processor option"

subsection \<open>Failure policy\<close>

definition handle_plugin_failure :: "active_binding option \<Rightarrow> gerr option" where
  "handle_plugin_failure active = (case active of
       None \<Rightarrow> Some ErrPluginProcessingFailed
     | Some ab \<Rightarrow> (case ab_binding ab of
         None \<Rightarrow> Some ErrPluginProcessingFailed
       | Some b \<Rightarrow> if effective_failure_policy (Some b) = ''fail'' then Some ErrPluginProcessingFailed else None))"

subsection \<open>After-response bindings\<close>

definition tool_identity :: "tool \<Rightarrow> resource_ref" where
  "tool_identity t = \<lparr> rf_name = tool_name t, rf_version = tool_version t \<rparr>"

definition result_invocation :: "tool \<Rightarrow> plugin_binding \<Rightarrow> jval \<Rightarrow> plugin_invocation" where
  "result_invocation t b v = \<lparr> pi_protocol_version = plugin_protocol_version, pi_invocation_id = [],
     pi_tool = tool_identity t, pi_result = v, pi_raw_response = None, pi_config = bs_config (pb_spec b) \<rparr>"

text \<open>
  One plugin of a chain. \<^const>\<open>None\<close> is every failure the loop tests for: a binding with a
  nil part, no plugin client, an error of the client or a nil response.
\<close>

definition run_plugin ::
  "'s processor option \<Rightarrow> (plugin_binding \<Rightarrow> plugin_invocation) \<Rightarrow> active_binding option \<Rightarrow> 's \<Rightarrow> jval option \<times> 's" where
  "run_plugin proc invocation active s = (case active of
       None \<Rightarrow> (None, s)
     | Some ab \<Rightarrow> (case (ab_binding ab, ab_plugin ab) of
         (Some b, Some p) \<Rightarrow> (case proc of
             None \<Rightarrow> (None, s)
           | Some f \<Rightarrow> (case f p (invocation b) s of
                 (Inr (Some v), s') \<Rightarrow> (Some v, s')
               | (_, s') \<Rightarrow> (None, s')))
       | _ \<Rightarrow> (None, s)))"

text \<open>The loop: the failing binding, or the last value with the last successful binding.\<close>

fun run_after ::
  "'s processor option \<Rightarrow> tool \<Rightarrow> active_binding option list \<Rightarrow> jval \<Rightarrow> active_binding option \<Rightarrow> 's \<Rightarrow>
     (active_binding option + jval \<times> active_binding option) \<times> 's" where
  "run_after proc t [] v last_ok s = (Inr (v, last_ok), s)"
| "run_after proc t (active # rest) v last_ok s =
     (case run_plugin proc (\<lambda>b. result_invocation t b v) active s of
        (None, s') \<Rightarrow> (Inl active, s')
      | (Some v', s') \<Rightarrow> run_after proc t rest v' active s')"

definition process_after_response_bindings ::
  "'s pipeline_env \<Rightarrow> tool \<Rightarrow> tool_result \<Rightarrow> active_binding option list \<Rightarrow> 's \<Rightarrow> (gerr + tool_result) \<times> 's" where
  "process_after_response_bindings pe t result bindings s =
     (if bindings = [] then (Inr result, s)
      else
        let keep = (\<lambda>active. case handle_plugin_failure active of Some e \<Rightarrow> Inl e | None \<Rightarrow> Inr result)
        in case run_after (pp_processor pe) t bindings (tv_result result) None s of
             (Inl active, s') \<Rightarrow> (keep active, s')
           | (Inr (v, last_ok), s') \<Rightarrow>
               if validate_result (pp_exec pe) t v \<noteq> None then (keep last_ok, s')
               else (Inr (result\<lparr> tv_result := v \<rparr>), s'))"

subsection \<open>Raw-response bindings\<close>

definition is_json_content_type :: "string \<Rightarrow> bool" where
  "is_json_content_type contentType \<longleftrightarrow>
     equal_fold contentType ''application/json'' \<or> has_suffix (to_lower contentType) ''+json'' \<or>
     equal_fold contentType ''text/json''"

definition raw_response_from_erp :: "erp_response \<Rightarrow> plugin_raw_response" where
  "raw_response_from_erp r =
     (let decoded = (if is_json_content_type (er_content_type r) \<and> er_body r \<noteq> [] then json_unmarshal (er_body r) else None)
      in \<lparr> rr_status = er_status r, rr_content_type = er_content_type r,
           rr_body = (case decoded of
              Some v \<Rightarrow> \<lparr> rb_encoding = ''json'', rb_value = v \<rparr>
            | None \<Rightarrow> \<lparr> rb_encoding = ''base64'', rb_value = JStr (b64_std_encode (er_body r)) \<rparr>) \<rparr>)"

definition raw_invocation :: "tool \<Rightarrow> plugin_raw_response \<Rightarrow> plugin_binding \<Rightarrow> plugin_invocation" where
  "raw_invocation t raw b = \<lparr> pi_protocol_version = plugin_protocol_version, pi_invocation_id = [],
     pi_tool = tool_identity t, pi_result = JNull, pi_raw_response = Some raw, pi_config = bs_config (pb_spec b) \<rparr>"

definition json_raw :: "int \<Rightarrow> jval \<Rightarrow> plugin_raw_response" where
  "json_raw status v = \<lparr> rr_status = status, rr_content_type = ''application/json'',
     rr_body = \<lparr> rb_encoding = ''json'', rb_value = v \<rparr> \<rparr>"

fun run_raw ::
  "'s processor option \<Rightarrow> tool \<Rightarrow> int \<Rightarrow> active_binding option list \<Rightarrow> plugin_raw_response \<Rightarrow> jval \<Rightarrow>
     active_binding option \<Rightarrow> 's \<Rightarrow> (active_binding option + jval \<times> active_binding option) \<times> 's" where
  "run_raw proc t status [] raw v last_ok s = (Inr (v, last_ok), s)"
| "run_raw proc t status (active # rest) raw v last_ok s =
     (case run_plugin proc (raw_invocation t raw) active s of
        (None, s') \<Rightarrow> (Inl active, s')
      | (Some v', s') \<Rightarrow> run_raw proc t status rest (json_raw status v') v' active s')"

definition normalize_captured_erp_response :: "'s exec_env \<Rightarrow> tool \<Rightarrow> erp_response \<Rightarrow> string + tool_result" where
  "normalize_captured_erp_response xe t captured = (case json_unmarshal (er_body captured) of
       None \<Rightarrow> Inl ''decode''
     | Some document \<Rightarrow>
         let extracted = (if tool_response_path t \<noteq> [] then resolve_response_path document (tool_response_path t)
                          else Inr document)
         in case extracted of
              Inl e \<Rightarrow> Inl e
            | Inr v \<Rightarrow> (case validate_result xe t v of
                  Some e \<Rightarrow> Inr \<lparr> tv_result = v, tv_error = Some (TEText (''response validation failed: '' @ e)), tv_is_error = True \<rparr>
                | None \<Rightarrow> Inr (ok_result v)))"

definition raw_processing_failure ::
  "'s pipeline_env \<Rightarrow> tool \<Rightarrow> active_binding option \<Rightarrow> erp_response option \<Rightarrow> active_binding option list \<Rightarrow> 's \<Rightarrow>
     (gerr + tool_result) \<times> 's" where
  "raw_processing_failure pe t active captured afterBindings s = (case handle_plugin_failure active of
       Some e \<Rightarrow> (Inl e, s)
     | None \<Rightarrow>
         let unprocessed = Inr (error_result (TEText ''ERP response could not be processed''))
         in case captured of
              None \<Rightarrow> (unprocessed, s)
            | Some r \<Rightarrow>
                if \<not> is_success (er_status r)
                then (Inr (error_result (TEErr (EFault (fault_for_http_status (er_status r) (er_retry_after r))))), s)
                else (case normalize_captured_erp_response (pp_exec pe) t r of
                    Inr fallback \<Rightarrow>
                      if tv_is_error fallback then (unprocessed, s)
                      else process_after_response_bindings pe t fallback afterBindings s
                  | Inl _ \<Rightarrow> (unprocessed, s)))"

text \<open>The errors of the ERP call that keep their own fault; the others count as processing failures.\<close>

definition capture_fault :: "gerr \<Rightarrow> fault option" where
  "capture_fault err =
     (if errors_is err ErrRevisionInactive then Some (revision_inactive_fault err)
      else if errors_is err ErrOriginDenied then Some (origin_denied_fault err)
      else faults_as err)"

definition finish_raw ::
  "'s pipeline_env \<Rightarrow> tool \<Rightarrow> erp_response \<Rightarrow> jval \<Rightarrow> active_binding option \<Rightarrow> active_binding option list \<Rightarrow> 's \<Rightarrow>
     (gerr + tool_result) \<times> 's" where
  "finish_raw pe t captured v last_ok afterBindings s =
     (if \<not> is_success (er_status captured)
      then (Inr \<lparr> tv_result = v, tv_error = Some (TEErr (EFault (fault_for_http_status (er_status captured) (er_retry_after captured)))),
                  tv_is_error = True \<rparr>, s)
      else
        let extracted = (if tool_response_path t \<noteq> [] then resolve_response_path v (tool_response_path t) else Inr v)
        in case extracted of
             Inl _ \<Rightarrow> raw_processing_failure pe t last_ok (Some captured) afterBindings s
           | Inr v' \<Rightarrow>
               if validate_result (pp_exec pe) t v' \<noteq> None
               then raw_processing_failure pe t last_ok (Some captured) afterBindings s
               else process_after_response_bindings pe t (ok_result v') afterBindings s)"

definition raw_call_options :: call_options where
  "raw_call_options = \<lparr> co_preserve_error_responses = True, co_disable_redirects = True \<rparr>"

definition execute_raw_tool ::
  "'s pipeline_env \<Rightarrow> tool \<Rightarrow> jargs \<Rightarrow> 's erp_connector \<Rightarrow> active_binding option list \<Rightarrow> active_binding option list \<Rightarrow>
     's \<Rightarrow> (gerr + tool_result) \<times> 's" where
  "execute_raw_tool pe t args conn rawBindings afterBindings s =
     (let first = hd rawBindings in
      if tl_handler t \<noteq> None \<or> ex_type (ts_execution (tl_spec t)) \<noteq> ''http'' \<or> \<not> has_object_output_schema t
      then raw_processing_failure pe t first None afterBindings s
      else case call_erp (pp_exec pe) t args conn raw_call_options s of
        (Inl err, s1) \<Rightarrow> (case capture_fault err of
            Some f \<Rightarrow> (Inr (error_result (TEErr (EFault f))), s1)
          | None \<Rightarrow> raw_processing_failure pe t first None afterBindings s1)
      | (Inr captured, s1) \<Rightarrow>
          (case run_raw (pp_processor pe) t (er_status captured) rawBindings (raw_response_from_erp captured) JNull None s1 of
             (Inl active, s2) \<Rightarrow> raw_processing_failure pe t active (Some captured) afterBindings s2
           | (Inr (v, last_ok), s2) \<Rightarrow> finish_raw pe t captured v last_ok afterBindings s2))"

subsection \<open>Executing a tool\<close>

definition execute_tool_with ::
  "'s pipeline_env \<Rightarrow> ctx \<Rightarrow> tool \<Rightarrow> jargs \<Rightarrow> 's erp_connector \<Rightarrow> active_binding option list \<Rightarrow> active_binding option list \<Rightarrow>
     's \<Rightarrow> (gerr + tool_result) \<times> 's" where
  "execute_tool_with pe c t args conn rawBindings afterBindings s =
     (if rawBindings \<noteq> [] then execute_raw_tool pe t args conn rawBindings afterBindings s
      else case execute (pp_exec pe) c t args conn s of
        (Inl err, s1) \<Rightarrow> (Inl err, s1)
      | (Inr None, s1) \<Rightarrow> (Inl (EText ''tool returned no result''), s1)
      | (Inr (Some result), s1) \<Rightarrow>
          if tv_is_error result then (Inr result, s1)
          else (case validate_result (pp_exec pe) t (tv_result result) of
              Some e \<Rightarrow> (Inr (result\<lparr> tv_error := Some (TEErr (EFault (contract_fault e))), tv_is_error := True \<rparr>), s1)
            | None \<Rightarrow> process_after_response_bindings pe t result afterBindings s1))"

definition tool_call_result :: "tool \<Rightarrow> jval \<Rightarrow> call_result" where
  "tool_call_result t v =
     \<lparr> cr_is_error = False,
       cr_text = (case v of
           JObj ms \<Rightarrow> (case map_of ms ''text'' of Some (JStr outputText) \<Rightarrow> outputText | _ \<Rightarrow> json_text v)
         | _ \<Rightarrow> json_text v),
       cr_structured = (if ts_output_schema (tl_spec t) \<noteq> None then (case v of JObj ms \<Rightarrow> Some v | _ \<Rightarrow> None) else None),
       cr_meta = None \<rparr>"

text \<open>
  \<open>toolResultError\<close> accepts any error value; a failed result without one falls to the
  default message.
\<close>

definition failed_call_result :: "tool_result \<Rightarrow> call_result" where
  "failed_call_result result = new_tool_execution_result
     (tool_result_error (case tv_error result of Some e \<Rightarrow> e | None \<Rightarrow> TEText []))"

definition execute_tool_call_with ::
  "'s pipeline_env \<Rightarrow> ctx \<Rightarrow> tool \<Rightarrow> jargs \<Rightarrow> 's erp_connector \<Rightarrow> active_binding option list \<Rightarrow> active_binding option list \<Rightarrow>
     's \<Rightarrow> (gerr + call_result) \<times> 's" where
  "execute_tool_call_with pe c t args conn rawBindings afterBindings s =
     (case execute_tool_with pe c t args conn rawBindings afterBindings s of
        (Inl err, s1) \<Rightarrow> (Inl err, s1)
      | (Inr result, s1) \<Rightarrow>
          (Inr (if tv_is_error result then failed_call_result result else tool_call_result t (tv_result result)), s1))"

subsection \<open>Chains of plugins\<close>

text \<open>
  The specification of a chain: every plugin answered, each one on the answer of the one
  before it.
\<close>

inductive plugin_chain ::
  "'s processor option \<Rightarrow> tool \<Rightarrow> active_binding option list \<Rightarrow> jval \<Rightarrow> 's \<Rightarrow> jval \<Rightarrow> 's \<Rightarrow> bool"
  for proc t where
  Chain_Nil: "plugin_chain proc t [] v s v s"
| Chain_Cons: "run_plugin proc (\<lambda>b. result_invocation t b v) active s = (Some u, s1) \<Longrightarrow>
     plugin_chain proc t rest u s1 v' s' \<Longrightarrow> plugin_chain proc t (active # rest) v s v' s'"

inductive_simps plugin_chain_simps:
  "plugin_chain proc t [] v s v' s'"
  "plugin_chain proc t (active # rest) v s v' s'"

lemma run_after_complete:
  "run_after proc t bindings v last_ok s = (Inr (v', last'), s') \<Longrightarrow>
     plugin_chain proc t bindings v s v' s' \<and> last' = (if bindings = [] then last_ok else last bindings)"
  by (induction bindings arbitrary: v last_ok s)
    (auto simp: plugin_chain_simps split: prod.splits option.splits)

lemma run_after_failed:
  "run_after proc t bindings v last_ok s = (Inl active, s') \<Longrightarrow> active \<in> set bindings"
  by (induction bindings arbitrary: v last_ok s) (auto split: prod.splits option.splits)

lemma handle_plugin_failure_error: "handle_plugin_failure active = Some e \<Longrightarrow> e = ErrPluginProcessingFailed"
  by (auto simp: handle_plugin_failure_def split: option.splits if_splits)

text \<open>
  After-response plugins are all or nothing. The client sees the value after the whole
  chain, and then only if it satisfies the tool's output schema; otherwise one binding
  failed, and its failure policy decides between the unmodified result and the generic
  plugin failure. A partially transformed result is never returned.
\<close>

theorem after_response_all_or_original:
  assumes "process_after_response_bindings pe t result bindings s = (out, s')"
  shows "bindings = [] \<and> out = Inr result \<or>
     (\<exists>v. plugin_chain (pp_processor pe) t bindings (tv_result result) s v s' \<and>
        validate_result (pp_exec pe) t v = None \<and> out = Inr (result\<lparr> tv_result := v \<rparr>)) \<or>
     (\<exists>active \<in> set bindings. handle_plugin_failure active = None \<and> out = Inr result) \<or>
     (\<exists>active \<in> set bindings. handle_plugin_failure active \<noteq> None \<and> out = Inl ErrPluginProcessingFailed)"
proof (cases "bindings = []")
  case True
  with assms show ?thesis by (simp add: process_after_response_bindings_def)
next
  case False
  have kept: "?thesis" if "active \<in> set bindings"
      "out = (case handle_plugin_failure active of Some e \<Rightarrow> Inl e | None \<Rightarrow> Inr result)" for active
    using that by (cases "handle_plugin_failure active") (auto dest: handle_plugin_failure_error)
  obtain r s1 where r: "run_after (pp_processor pe) t bindings (tv_result result) None s = (r, s1)"
    by (cases "run_after (pp_processor pe) t bindings (tv_result result) None s")
  show ?thesis
  proof (cases r)
    case (Inl active)
    with r run_after_failed have "active \<in> set bindings" by metis
    moreover have "out = (case handle_plugin_failure active of Some e \<Rightarrow> Inl e | None \<Rightarrow> Inr result)"
      using assms False r Inl by (simp add: process_after_response_bindings_def Let_def)
    ultimately show ?thesis by (rule kept)
  next
    case (Inr final)
    obtain v last' where v: "final = (v, last')" by (cases final)
    have chain: "plugin_chain (pp_processor pe) t bindings (tv_result result) s v s1" "last' = last bindings"
      using run_after_complete r Inr v False by fastforce+
    show ?thesis
    proof (cases "validate_result (pp_exec pe) t v")
      case None
      with assms False r Inr v chain show ?thesis by (auto simp: process_after_response_bindings_def Let_def)
    next
      case (Some e)
      have "last bindings \<in> set bindings" using False by simp
      moreover have "out = (case handle_plugin_failure (last bindings) of Some e \<Rightarrow> Inl e | None \<Rightarrow> Inr result)"
        using assms False r Inr v chain Some by (simp add: process_after_response_bindings_def Let_def)
      ultimately show ?thesis by (rule kept)
    qed
  qed
qed

subsection \<open>Results conform to the output schema\<close>

lemma process_after_conforms:
  assumes "process_after_response_bindings pe t result bindings s = (Inr r, s')"
    and "validate_result (pp_exec pe) t (tv_result result) = None"
  shows "validate_result (pp_exec pe) t (tv_result r) = None"
  using assms
  by (auto simp: process_after_response_bindings_def Let_def split: if_splits prod.splits sum.splits option.splits)

lemma normalized_conforms:
  "normalize_captured_erp_response xe t captured = Inr r \<Longrightarrow> \<not> tv_is_error r \<Longrightarrow>
     validate_result xe t (tv_result r) = None"
  by (auto simp: normalize_captured_erp_response_def Let_def ok_result_def split: option.splits sum.splits)

lemma raw_failure_conforms:
  assumes "raw_processing_failure pe t active captured bindings s = (Inr r, s')" and "\<not> tv_is_error r"
  shows "validate_result (pp_exec pe) t (tv_result r) = None"
  using assms
  by (auto simp: raw_processing_failure_def Let_def error_result_def
      dest: normalized_conforms process_after_conforms split: option.splits if_splits sum.splits)

lemma finish_raw_conforms:
  assumes "finish_raw pe t captured v last_ok bindings s = (Inr r, s')" and "\<not> tv_is_error r"
  shows "validate_result (pp_exec pe) t (tv_result r) = None"
  using assms
  by (auto simp: finish_raw_def Let_def ok_result_def
      dest: raw_failure_conforms process_after_conforms split: if_splits sum.splits)

lemmas conforming = raw_failure_conforms finish_raw_conforms process_after_conforms

text \<open>
  Whatever path a call takes - native handler or ERP, raw plugins or none, plugins that
  succeed or fail - a result that is not an error satisfies the tool's output schema.
\<close>

theorem executed_result_conforms:
  assumes "execute_tool_with pe c t args conn rawBindings afterBindings s = (Inr r, s')" and "\<not> tv_is_error r"
  shows "validate_result (pp_exec pe) t (tv_result r) = None"
proof (cases "rawBindings = []")
  case True
  with assms show ?thesis
    by (auto simp: execute_tool_with_def dest: process_after_conforms split: prod.splits sum.splits option.splits if_splits)
next
  case False
  with assms(1) have "execute_raw_tool pe t args conn rawBindings afterBindings s = (Inr r, s')"
    by (simp add: execute_tool_with_def)
  with assms(2) show ?thesis
    by (auto simp: execute_raw_tool_def Let_def error_result_def dest: conforming
        split: if_splits prod.splits sum.splits option.splits)
qed

subsection \<open>Concrete runs\<close>

text \<open>
  A schema that accepts objects only, a processor that wraps what it gets, and one binding
  of the sample plugin.
\<close>

definition objects_only :: "jval \<Rightarrow> jval \<Rightarrow> string option" where
  "objects_only schema v = (case v of JObj _ \<Rightarrow> None | _ \<Rightarrow> Some ''not an object'')"

definition sample_pipeline :: "unit pipeline_env" where
  "sample_pipeline = \<lparr> pp_exec = plain_env\<lparr> xe_schema := objects_only \<rparr>,
     pp_processor = Some (\<lambda>p i s. (Inr (Some (JObj [(''masked'', pi_result i)])), s)) \<rparr>"

definition object_tool :: tool where
  "object_tool = post_tool\<lparr> tl_spec := (tl_spec post_tool)\<lparr> ts_output_schema := Some (JObj [(''type'', JStr ''object'')]) \<rparr> \<rparr>"

definition sample_active :: "string \<Rightarrow> active_binding option" where
  "sample_active policy = Some \<lparr> ab_binding = Some (sample_binding ''b'' phase_after_response 1 policy),
     ab_plugin = Some (sample_plugin ''mask'') \<rparr>"

lemma ok_result_sel [simp]: "tv_result (ok_result v) = v" "tv_error (ok_result v) = None" "\<not> tv_is_error (ok_result v)"
  by (simp_all add: ok_result_def)

lemma sample_after_run:
  "process_after_response_bindings sample_pipeline object_tool (ok_result v) [sample_active policy] () =
     (Inr (ok_result (JObj [(''masked'', v)])), ())"
  by (simp add: process_after_response_bindings_def sample_pipeline_def sample_active_def run_plugin_def
      result_invocation_def validate_result_def object_tool_def objects_only_def)

theorem after_response_all_or_original_witness:
  "\<exists>v. plugin_chain (pp_processor sample_pipeline) object_tool [sample_active ''fail''] (JBool True) () v () \<and>
     v = JObj [(''masked'', JBool True)]"
proof -
  have "handle_plugin_failure (sample_active ''fail'') \<noteq> None"
    by (simp add: handle_plugin_failure_def sample_active_def effective_failure_policy_def sample_binding_def)
  with after_response_all_or_original [OF sample_after_run [of "JBool True" "''fail''"]]
  show ?thesis by (auto simp: ok_result_def)
qed

theorem executed_result_conforms_witness:
  "\<exists>r. execute_tool_with sample_pipeline background_ctx object_tool [] (fixed_connector (json_response ''{}'')) []
        [sample_active []] () = (Inr r, ()) \<and> tv_result r \<noteq> JNull \<and>
     validate_result (pp_exec sample_pipeline) object_tool (tv_result r) = None"
proof -
  have "fst (execute (pp_exec sample_pipeline) background_ctx object_tool [] (fixed_connector (json_response ''{}'')) ()) =
      Inr (Some (ok_result (JObj [])))" by code_simp
  then have "execute (pp_exec sample_pipeline) background_ctx object_tool [] (fixed_connector (json_response ''{}'')) () =
      (Inr (Some (ok_result (JObj []))), ())" by (simp add: prod_eq_iff)
  moreover have "validate_result (pp_exec sample_pipeline) object_tool (JObj []) = None"
    by (simp add: validate_result_def object_tool_def sample_pipeline_def objects_only_def)
  ultimately have run: "execute_tool_with sample_pipeline background_ctx object_tool [] (fixed_connector (json_response ''{}'')) []
      [sample_active []] () = (Inr (ok_result (JObj [(''masked'', JObj [])])), ())"
    by (simp add: execute_tool_with_def sample_after_run)
  show ?thesis using executed_result_conforms [OF run] run by auto
qed

end
