(* ===== verification/Server_State.thy ===== *)
theory Server_State
  imports Call_Limits Plugin_Pipeline "HOL-Library.Word"
begin

text \<open>
  internal/mcp/server.go: the state of the gateway, admission of tools, registration,
  withdrawal and the published tool list; with the event records of authority.go. The locks
  of the source make each operation below one step. The MCP library is modelled by what the
  source does with it, the table of published tools by name; notifications are output.
\<close>

subsection \<open>State\<close>

record authority_event =
  av_sequence :: "64 word"
  av_type :: string
  av_tool_name :: string
  av_tool_version :: string
  av_resource_digest :: string
  av_at :: timestamp

text \<open>A published tool: its descriptor and the revision its handler is bound to.\<close>

record mcp_tool =
  mt_name :: string
  mt_title :: string
  mt_description :: string
  mt_input_schema :: input_schema
  mt_output_schema :: "jval option"
  mt_annotations :: "tool_annotations option"
  mt_meta :: "(string \<times> jval) list"
  mt_bound_to :: "string \<times> string"

record reconciliation_status =
  rs_attempt_count :: "64 word"
  rs_last_attempt :: timestamp
  rs_last_success :: timestamp
  rs_last_error :: string
  rs_desired_state_hash :: string
  rs_observed_generation :: "64 word"
  rs_converged :: bool

text \<open>
  The server: \<open>'w\<close> is the world its connector and its plugins act on, \<open>'b\<close> the state of the
  cache backend, \<open>'l\<close> a token bucket. \<open>sr_events\<close> is a history: the authority events so
  far, oldest first, in the order of the mutex that numbers them. \<open>sr_rate\<close> is the
  rate-limit outcome recorded for the call that is running.
\<close>

record ('w, 'b, 'l) server =
  sr_store :: "store option"
  sr_registry :: registry
  sr_plugins :: plugin_registry
  sr_cache :: 'b
  sr_concurrency :: "conc_limiter option"
  sr_tool_limiters :: "(string \<times> 'l rate_middleware) list"
  sr_global_limiter :: "'l rate_middleware"
  sr_generation :: "64 word"
  sr_last_hash :: string
  sr_sequence :: "64 word"
  sr_events :: "authority_event list"
  sr_tools :: "(string \<times> mcp_tool) list"
  sr_status :: reconciliation_status
  sr_rate :: "duration option"
  sr_now :: timestamp
  sr_world :: 'w

text \<open>
  What the server is configured with. The test hooks of authority.go and
  reconciliation_status.go are absent in production and are not part of it. The encoding of
  a call result is that of the MCP library.
\<close>

record ('w, 'b, 'l, 'r, 'v, 'c) server_env =
  ne_semver :: "('v, 'c) semver"
  ne_connector :: "'w erp_connector"
  ne_cache :: "'b backend option"
  ne_args_sha :: "string \<Rightarrow> string"
  ne_digest :: "tool \<Rightarrow> string"
  ne_state_hash :: "state_row list \<Rightarrow> string"
  ne_rate_ops :: "('l, 'r) rate_ops"
  ne_base_url :: string
  ne_credentials :: credential_env
  ne_schema :: "jval \<Rightarrow> jval \<Rightarrow> string option"
  ne_args_schema :: "input_schema \<Rightarrow> jargs \<Rightarrow> string option"
  ne_media_type :: "string \<Rightarrow> string option"
  ne_parse_time :: "string \<Rightarrow> timestamp option"
  ne_native :: "nat \<Rightarrow> ctx \<Rightarrow> jargs \<Rightarrow> 'w \<Rightarrow> (gerr + tool_result option) \<times> 'w"
  ne_processor :: "'w processor option"
  ne_admission :: admission_env
  ne_encode_result :: "call_result \<Rightarrow> raw_message option"
  ne_decode_result :: "raw_message \<Rightarrow> call_result option"

subsection \<open>Events\<close>

definition next_authority_event :: "string \<Rightarrow> tool \<Rightarrow> ('w, 'b, 'l) server \<Rightarrow> ('w, 'b, 'l) server" where
  "next_authority_event eventType t s = s\<lparr>
     sr_sequence := sr_sequence s + 1,
     sr_events := sr_events s @ [\<lparr> av_sequence = sr_sequence s + 1, av_type = eventType,
        av_tool_name = tool_name t, av_tool_version = tool_version t, av_resource_digest = tool_digest t,
        av_at = sr_now s \<rparr>] \<rparr>"

subsection \<open>Admission of a tool\<close>

definition names_http_verb :: "string \<Rightarrow> bool" where
  "names_http_verb name \<longleftrightarrow> str_contains (to_lower name) ''get-'' \<or> str_contains (to_lower name) ''post-''"

definition embeds_secret :: "string \<Rightarrow> bool" where
  "embeds_secret endpoint \<longleftrightarrow> str_contains endpoint ''token '' \<or> str_contains endpoint ''key=''"

definition set_tool_roles :: "string list \<Rightarrow> tool \<Rightarrow> tool" where
  "set_tool_roles roles t = t\<lparr> tl_spec := (tl_spec t)\<lparr> ts_security := (ts_security (tl_spec t))\<lparr> se_allowed_roles := roles \<rparr> \<rparr> \<rparr>"

definition validate_limits :: "tool \<Rightarrow> string + unit" where
  "validate_limits t =
     (case (case ts_rate_limit (tl_spec t) of None \<Rightarrow> Inr () | Some c \<Rightarrow> rate_limit_validate c) of
        Inl e \<Rightarrow> Inl (''invalid spec.rateLimit: '' @ e)
      | Inr _ \<Rightarrow> (case (case ts_concurrency (tl_spec t) of None \<Rightarrow> Inr () | Some c \<Rightarrow> tool_concurrency_validate c) of
          Inl e \<Rightarrow> Inl (''invalid spec.concurrency: '' @ e)
        | Inr _ \<Rightarrow> Inr ()))"

definition validate_credential_fields :: "security \<Rightarrow> string + unit" where
  "validate_credential_fields sec =
     (if \<not> validate_credential_source (se_credential_source sec) then Inl ''invalid security.credentialSource''
      else if is_file_backed (se_credential_source sec) \<and> se_credential_ref sec = []
        then Inl ''security.credentialRef is required for file credentials''
      else if se_credential_ref sec \<noteq> [] \<and> \<not> validate_reference (se_credential_ref sec)
        then Inl ''invalid security.credentialRef''
      else Inr ())"

definition validate_identity :: "tool \<Rightarrow> string + unit" where
  "validate_identity t =
     (if tool_name t = [] then Inl ''metadata.name is required''
      else if tool_version t = [] then Inl ''metadata.version is required''
      else if str_contains (tool_name t) ''.rev_'' then Inl ''metadata.name uses the reserved exact-revision namespace''
      else if names_http_verb (tool_name t) then Inl ''tool name should be intent-based, not include HTTP verbs''
      else if embeds_secret (tool_endpoint t)
        then Inl ''endpoint should not contain raw secrets, use credentialRef instead''
      else Inr ())"

definition validate_data_class :: "security \<Rightarrow> string + unit" where
  "validate_data_class sec =
     (if se_data_class sec \<in> {[], ''public'', ''internal''} then Inr ()
      else if se_data_class sec \<in> {''pii'', ''restricted''} then
        (if se_allowed_roles sec = [] then Inl ''security.allowedRoles is required for the data class'' else Inr ())
      else Inl ''invalid security.dataClass'')"

definition validate_roles :: "tool \<Rightarrow> string + tool" where
  "validate_roles t = (case normalize_roles (tool_roles t) of
       Inl e \<Rightarrow> Inl (''invalid security.allowedRoles: '' @ e)
     | Inr roles \<Rightarrow>
         if roles = [] then Inr t
         else if map_of (is_properties (ts_input_schema (tl_spec t))) ''role'' \<noteq> None \<or>
                 ''role'' \<in> set (is_required (ts_input_schema (tl_spec t)))
         then Inl ''guarded tools must reserve role selector input for authorization''
         else Inr (set_tool_roles roles t))"

text \<open>\<open>validateTool\<close> binds the approved origins and sorts the roles in the tool it accepts.\<close>

definition validate_tool :: "string \<Rightarrow> tool \<Rightarrow> string + tool" where
  "validate_tool envBaseURL t =
     (case validate_limits t of Inl e \<Rightarrow> Inl e | Inr _ \<Rightarrow>
      (case validate_credential_fields (ts_security (tl_spec t)) of Inl e \<Rightarrow> Inl e | Inr _ \<Rightarrow>
       (case validate_identity t of Inl e \<Rightarrow> Inl e | Inr _ \<Rightarrow>
        (case bind_approved_origins envBaseURL t of
           Inl e \<Rightarrow> Inl (''invalid execution.approvedOrigins: '' @ e)
         | Inr t1 \<Rightarrow> (case validate_data_class (ts_security (tl_spec t1)) of Inl e \<Rightarrow> Inl e | Inr _ \<Rightarrow>
             validate_roles t1)))))"

subsection \<open>The published descriptor\<close>

definition schema_for_mcp :: "tool \<Rightarrow> string + input_schema" where
  "schema_for_mcp t =
     (let schema = ts_input_schema (tl_spec t) in
      if tool_roles t = [] then Inr schema
      else case normalize_roles (tool_roles t) of
        Inl e \<Rightarrow> Inl (''prepare role selector: '' @ e)
      | Inr roles \<Rightarrow> Inr (schema\<lparr> is_properties := amap_put ''role''
            (MkProperty JNull ''string'' ''Authorization role used for this tool call'' (map JStr roles) JNull [] None [])
            (is_properties schema) \<rparr>))"

definition project_tool_meta :: "tool \<Rightarrow> (string \<times> jval) list" where
  "project_tool_meta t =
     (let add = (\<lambda>key values m. if values = [] then m else amap_put key (JArr (map JStr values)) m);
          d = ts_description (tl_spec t);
          m1 = add ''io.erpbridge/allowedRoles'' (tool_roles t)
                (add ''io.erpbridge/examples'' (ds_examples d)
                  (add ''io.erpbridge/whenNotToUse'' (ds_when_not_to_use d)
                    (add ''io.erpbridge/whenToUse'' (ds_when_to_use d) [])))
      in if tool_digest t \<noteq> []
         then amap_put ''toolplane.serving'' (JBool (tool_serving t))
               (amap_put ''toolplane.resourceVersion'' (JStr (tool_version t))
                 (amap_put ''toolplane.resourceDigest'' (JStr (tool_digest t)) m1))
         else m1)"

definition mcp_tool_for_revision :: "tool \<Rightarrow> string + mcp_tool" where
  "mcp_tool_for_revision t = (case schema_for_mcp t of
       Inl e \<Rightarrow> Inl (''prepare input schema: '' @ e)
     | Inr schema \<Rightarrow> Inr \<lparr>
         mt_name = tool_name t,
         mt_title = (case ts_annotations (tl_spec t) of None \<Rightarrow> [] | Some a \<Rightarrow> an_title a),
         mt_description = ds_short (ts_description (tl_spec t)),
         mt_input_schema = schema,
         mt_output_schema = (if has_concrete_output_schema (ts_output_schema (tl_spec t))
            then ts_output_schema (tl_spec t) else None),
         mt_annotations = ts_annotations (tl_spec t),
         mt_meta = project_tool_meta t,
         mt_bound_to = (tool_name t, []) \<rparr>)"

type_synonym tool_table = "(string \<times> mcp_tool) list"

text \<open>The exact-revision names, one per active revision, each bound to its version.\<close>

fun publish_revisions :: "string \<Rightarrow> tool list \<Rightarrow> tool_table \<Rightarrow> string option \<times> tool_table" where
  "publish_revisions name [] tools = (None, tools)"
| "publish_revisions name (revision # rest) tools =
     (if tool_name revision \<noteq> name then publish_revisions name rest tools
      else case mcp_tool_for_revision revision of
        Inl e \<Rightarrow> (Some e, tools)
      | Inr definition \<Rightarrow>
          let alias = qualified_tool_name name (tool_version revision) in
          publish_revisions name rest
            (amap_put alias (definition\<lparr> mt_name := alias, mt_bound_to := (name, tool_version revision) \<rparr>) tools))"

definition refresh_mcp_tools ::
  "('v, 'c) semver \<Rightarrow> string \<Rightarrow> registry \<Rightarrow> tool_table \<Rightarrow> string option \<times> tool_table" where
  "refresh_mcp_tools sv name r tools = (case publish_revisions name (list_active r) tools of
       (Some e, tools1) \<Rightarrow> (Some e, tools1)
     | (None, tools1) \<Rightarrow> (case resolve sv name [] r of
           Inl _ \<Rightarrow> (None, amap_del name tools1)
         | Inr serving \<Rightarrow> (case mcp_tool_for_revision serving of
               Inl e \<Rightarrow> (Some e, tools1)
             | Inr alias \<Rightarrow> (None, amap_put name (alias\<lparr> mt_bound_to := (name, []) \<rparr>) tools1))))"

subsection \<open>Registration and withdrawal\<close>

datatype register_err = ToolRejected string | RegistryRefused registry_err | PublishFailed string

definition register_tool ::
  "('w, 'b, 'l, 'r, 'v, 'c) server_env \<Rightarrow> bool \<Rightarrow> tool \<Rightarrow> ('w, 'b, 'l) server \<Rightarrow>
     register_err option \<times> ('w, 'b, 'l) server" where
  "register_tool env allowServingDefault t s = (case validate_tool (ne_base_url env) t of
       Inl e \<Rightarrow> (Some (ToolRejected e), s)
     | Inr t1 \<Rightarrow>
         let t2 = set_active_flag True t1 in
         (case mcp_tool_for_revision t2 of
            Inl e \<Rightarrow> (Some (PublishFailed e), s)
          | Inr _ \<Rightarrow> (case registry_add (ne_semver env) allowServingDefault t2 (sr_registry s) of
                (Some e, r) \<Rightarrow> (Some (RegistryRefused e), s\<lparr> sr_registry := r \<rparr>)
              | (None, r) \<Rightarrow> (case refresh_mcp_tools (ne_semver env) (tool_name t2) r (sr_tools s) of
                    (err, tools) \<Rightarrow> (map_option PublishFailed err, s\<lparr> sr_registry := r, sr_tools := tools \<rparr>)))))"

definition deregister_tool ::
  "('w, 'b, 'l, 'r, 'v, 'c) server_env \<Rightarrow> string \<Rightarrow> string \<Rightarrow> ('w, 'b, 'l) server \<Rightarrow> ('w, 'b, 'l) server" where
  "deregister_tool env name version s =
     (let selected = resolve (ne_semver env) name version (sr_registry s);
          r = registry_remove name version (sr_registry s);
          s1 = s\<lparr> sr_registry := r, sr_tools := snd (refresh_mcp_tools (ne_semver env) name r (sr_tools s)) \<rparr>
      in case selected of Inl _ \<Rightarrow> s1 | Inr t \<Rightarrow> next_authority_event ''withdrawal_committed'' t s1)"

subsection \<open>Listing\<close>

definition listed_target :: "string \<Rightarrow> string \<times> string" where
  "listed_target name = (case parse_qualified_tool_name name of Some nv \<Rightarrow> nv | None \<Rightarrow> (name, []))"

definition filter_tools_list ::
  "('v, 'c) semver \<Rightarrow> ('w, 'b, 'l) server \<Rightarrow> string list \<Rightarrow> string list" where
  "filter_tools_list sv s names = filter (\<lambda>name.
     has_prefix name ''system.'' \<or>
     (case resolve sv (fst (listed_target name)) (snd (listed_target name)) (sr_registry s) of
        Inl _ \<Rightarrow> False | Inr entry \<Rightarrow> tool_active entry)) names"

definition hide_revision_aliases :: "string list \<Rightarrow> string list" where
  "hide_revision_aliases names = filter (\<lambda>name. parse_qualified_tool_name name = None) names"

subsection \<open>What the operations keep\<close>

lemma next_event_fields [simp]:
  "sr_registry (next_authority_event k t s) = sr_registry s" "sr_world (next_authority_event k t s) = sr_world s"
  "sr_tools (next_authority_event k t s) = sr_tools s" "sr_store (next_authority_event k t s) = sr_store s"
  "sr_plugins (next_authority_event k t s) = sr_plugins s" "sr_cache (next_authority_event k t s) = sr_cache s"
  "sr_generation (next_authority_event k t s) = sr_generation s" "sr_now (next_authority_event k t s) = sr_now s"
  "sr_last_hash (next_authority_event k t s) = sr_last_hash s"
  by (simp_all add: next_authority_event_def)

lemma register_tool_registry:
  assumes "register_tool env dflt t s = (res, s')"
  shows "sr_registry s' = sr_registry s \<or>
    (\<exists>t1 r e. validate_tool (ne_base_url env) t = Inr t1 \<and>
       registry_add (ne_semver env) dflt (set_active_flag True t1) (sr_registry s) = (e, sr_registry s'))"
  using assms by (auto simp: register_tool_def Let_def split: sum.splits prod.splits option.splits)

lemma register_tool_keeps:
  assumes "register_tool env dflt t s = (res, s')"
  shows "sr_store s' = sr_store s \<and> sr_plugins s' = sr_plugins s \<and> sr_cache s' = sr_cache s \<and>
    sr_generation s' = sr_generation s \<and> sr_last_hash s' = sr_last_hash s \<and> sr_events s' = sr_events s \<and>
    sr_sequence s' = sr_sequence s \<and> sr_world s' = sr_world s \<and> sr_now s' = sr_now s"
  using assms by (auto simp: register_tool_def Let_def split: sum.splits prod.splits option.splits)

lemma deregister_tool_registry [simp]:
  "sr_registry (deregister_tool env n v s) = registry_remove n v (sr_registry s)"
  by (simp add: deregister_tool_def Let_def split: sum.split)

lemma deregister_tool_keeps [simp]:
  "sr_store (deregister_tool env n v s) = sr_store s" "sr_plugins (deregister_tool env n v s) = sr_plugins s"
  "sr_cache (deregister_tool env n v s) = sr_cache s" "sr_generation (deregister_tool env n v s) = sr_generation s"
  "sr_last_hash (deregister_tool env n v s) = sr_last_hash s" "sr_world (deregister_tool env n v s) = sr_world s"
  by (simp_all add: deregister_tool_def Let_def split: sum.split)

text \<open>Admission keeps the identity of a tool.\<close>

lemma bind_origins_keeps:
  "bind_approved_origins base t = Inr t' \<Longrightarrow>
     tl_metadata t' = tl_metadata t \<and> ts_security (tl_spec t') = ts_security (tl_spec t) \<and> tl_handler t' = tl_handler t"
  by (auto simp: bind_approved_origins_def set_tool_origins_def Let_def split: if_splits sum.splits)

lemma validate_tool_keeps:
  "validate_tool base t = Inr t' \<Longrightarrow> tl_metadata t' = tl_metadata t \<and> tl_handler t' = tl_handler t"
  by (auto simp: validate_tool_def validate_roles_def set_tool_roles_def Let_def
      dest: bind_origins_keeps split: sum.splits if_splits)

lemma validate_tool_name [simp]:
  "validate_tool base t = Inr t' \<Longrightarrow> tool_name t' = tool_name t"
  "validate_tool base t = Inr t' \<Longrightarrow> tool_version t' = tool_version t"
  "validate_tool base t = Inr t' \<Longrightarrow> tool_digest t' = tool_digest t"
  "validate_tool base t = Inr t' \<Longrightarrow> tool_serving t' = tool_serving t"
  by (auto dest!: validate_tool_keeps simp: tool_selectors)

subsection \<open>A concrete server\<close>

text \<open>
  A server over a world that counts the calls that reach the ERP, which answers each one
  with an empty object; its cache is the in-memory backend.
\<close>

definition ping_erp :: "nat erp_connector" where
  "ping_erp = \<lparr> cn_call = (\<lambda>ep q body w. (Inr (Some \<lparr> resp_status = 200, resp_retry_after = [],
       resp_content_type = ''application/json'', resp_body = Some ''{}'' \<rparr>), Suc w)), cn_call_with_options = None \<rparr>"

definition sample_env :: "(nat, payload memory_backend, timestamp, duration, string, string) server_env" where
  "sample_env = \<lparr> ne_semver = any_semver, ne_connector = ping_erp, ne_cache = Some memory_ops,
     ne_args_sha = id, ne_digest = (\<lambda>t. tool_name t @ ''@'' @ tool_version t), ne_state_hash = (\<lambda>rows. ''h''),
     ne_rate_ops = one_shot_ops, ne_base_url = [], ne_credentials = empty_credentials, ne_schema = (\<lambda>_ _. None),
     ne_args_schema = (\<lambda>_ _. None), ne_media_type = Some, ne_parse_time = (\<lambda>_. None),
     ne_native = (\<lambda>_ _ _ w. (Inr None, w)), ne_processor = None,
     ne_admission = \<lparr> pe_auth_token = [], pe_allow_list = [] \<rparr>,
     ne_encode_result = (\<lambda>r. Some (RawJSON (JStr (cr_text r)))),
     ne_decode_result = (\<lambda>m. case m of RawJSON (JStr text) \<Rightarrow>
         Some \<lparr> cr_is_error = False, cr_text = text, cr_structured = None, cr_meta = None \<rparr> | _ \<Rightarrow> None) \<rparr>"

definition fresh_status :: reconciliation_status where
  "fresh_status = \<lparr> rs_attempt_count = 0, rs_last_attempt = 0, rs_last_success = 0, rs_last_error = [],
     rs_desired_state_hash = [], rs_observed_generation = 0, rs_converged = False \<rparr>"

definition sample_server :: "registry \<Rightarrow> (nat, payload memory_backend, timestamp) server" where
  "sample_server r = \<lparr> sr_store = Some (empty_store 0), sr_registry = r, sr_plugins = new_plugin_registry,
     sr_cache = new_memory_backend 8 0, sr_concurrency = Some new_tool_concurrency_limiter, sr_tool_limiters = [],
     sr_global_limiter = new_rate_limit_middleware (Finite 1) 1, sr_generation = 0, sr_last_hash = [],
     sr_sequence = 0, sr_events = [], sr_tools = [], sr_status = fresh_status, sr_rate = None, sr_now = 0,
     sr_world = 0 \<rparr>"

definition approved_tool :: tool where
  "approved_tool = set_tool_origins [''https://erp.example''] post_tool"

definition approved_server :: "(nat, payload memory_backend, timestamp) server" where
  "approved_server = sample_server (snd (registry_add any_semver True approved_tool new_tool_registry))"

end
