(* ===== verification/Authority.thy ===== *)
theory Authority
  imports Server_State
begin

text \<open>
  internal/mcp/authority.go: the connector that every ERP call of a tool goes through. It
  approves the origin of the final endpoint, then commits the call while it holds the
  authority lock, under which no revision is withdrawn. Preparing and committing are two
  steps, so that a withdrawal can come in between.
\<close>

subsection \<open>The authorized connector\<close>

definition revision_active :: "('v, 'c) semver \<Rightarrow> tool \<Rightarrow> registry \<Rightarrow> bool" where
  "revision_active sv t r \<longleftrightarrow> (case resolve sv (tool_name t) (tool_version t) r of
       Inl _ \<Rightarrow> False
     | Inr active \<Rightarrow> tool_digest t = [] \<or> tool_digest active = tool_digest t)"

definition authority_prepare ::
  "tool \<Rightarrow> endpoint_config \<Rightarrow> ('w, 'b, 'l) server \<Rightarrow> gerr option \<times> ('w, 'b, 'l) server" where
  "authority_prepare t ep s = (case validate_effective_origin t ep of
       Some err \<Rightarrow> (Some err, next_authority_event ''origin_denied'' t s)
     | None \<Rightarrow> (None, next_authority_event ''before_commit'' t s))"

text \<open>
  The options are present when the call came through \<open>CallWithOptions\<close>, which exists only if
  the server's connector has that capability.
\<close>

definition authority_commit ::
  "('w, 'b, 'l, 'r, 'v, 'c) server_env \<Rightarrow> tool \<Rightarrow> endpoint_config \<Rightarrow> query \<Rightarrow> string option \<Rightarrow> call_options option \<Rightarrow>
     ('w, 'b, 'l) server \<Rightarrow> (gerr + http_response option) \<times> ('w, 'b, 'l) server" where
  "authority_commit env t ep q body options s =
     (if \<not> revision_active (ne_semver env) t (sr_registry s)
      then (Inl ErrRevisionInactive, next_authority_event ''commit_denied'' t s)
      else
        let s1 = next_authority_event ''dispatch_committed'' t s;
            (r, w) = (case (options, cn_call_with_options (ne_connector env)) of
                (Some opts, Some call) \<Rightarrow> call ep q body (opts\<lparr> co_disable_redirects := True \<rparr>) (sr_world s1)
              | _ \<Rightarrow> cn_call (ne_connector env) ep q body (sr_world s1))
        in (r, s1\<lparr> sr_world := w \<rparr>))"

definition authority_call ::
  "('w, 'b, 'l, 'r, 'v, 'c) server_env \<Rightarrow> tool \<Rightarrow> endpoint_config \<Rightarrow> query \<Rightarrow> string option \<Rightarrow> call_options option \<Rightarrow>
     ('w, 'b, 'l) server \<Rightarrow> (gerr + http_response option) \<times> ('w, 'b, 'l) server" where
  "authority_call env t ep q body options s = (case authority_prepare t ep s of
       (Some err, s1) \<Rightarrow> (Inl err, s1)
     | (None, s1) \<Rightarrow> authority_commit env t ep q body options s1)"

definition authorized_erp_connector ::
  "('w, 'b, 'l, 'r, 'v, 'c) server_env \<Rightarrow> tool \<Rightarrow> ('w, 'b, 'l) server erp_connector" where
  "authorized_erp_connector env t = \<lparr>
     cn_call = (\<lambda>ep q body s. authority_call env t ep q body None s),
     cn_call_with_options = (case cn_call_with_options (ne_connector env) of
         None \<Rightarrow> None
       | Some _ \<Rightarrow> Some (\<lambda>ep q body options s. authority_call env t ep q body (Some options) s)) \<rparr>"

subsection \<open>No dispatch without authority\<close>

lemma origin_approved:
  "validate_effective_origin t ep = None \<Longrightarrow>
     \<exists>origin. normalized_origin (effective_url ep) = Inr origin \<and>
       (\<exists>approved \<in> set (tool_origins t). normalized_origin approved = Inr origin)"
  by (auto simp: validate_effective_origin_def list_ex_iff split: sum.splits if_splits)

lemma revision_active_resolves:
  "revision_active sv t r \<Longrightarrow> \<exists>active. resolve sv (tool_name t) (tool_version t) r = Inr active \<and>
     (tool_digest t \<noteq> [] \<longrightarrow> tool_digest active = tool_digest t)"
  by (auto simp: revision_active_def split: sum.splits)

lemma authority_call_dispatched:
  assumes "authority_call env t ep q body options s = (r, s')" and "sr_world s' \<noteq> sr_world s"
  shows "validate_effective_origin t ep = None \<and> revision_active (ne_semver env) t (sr_registry s)"
  using assms
  by (auto simp: authority_call_def authority_prepare_def authority_commit_def Let_def
      split: option.splits if_splits prod.splits)

text \<open>
  C2: the world of the ERP changes only with authority. When any call of a tool through the
  server's connector has an effect, the endpoint prepared from its arguments has an origin
  approved for exactly this tool, and the tool's own revision was active in the registry,
  with the digest the call was resolved with.
\<close>

theorem dispatch_needs_authority:
  assumes "call_erp_response xe t args (authorized_erp_connector env t) options s = (r, s')"
    and "sr_world s' \<noteq> sr_world s"
  shows "\<exists>ep q body origin active.
     prepare_erp_call (xe_base_url xe) (xe_credentials xe) t args = Inr (ep, q, body) \<and>
     normalized_origin (effective_url ep) = Inr origin \<and>
     (\<exists>approved \<in> set (tool_origins t). normalized_origin approved = Inr origin) \<and>
     resolve (ne_semver env) (tool_name t) (tool_version t) (sr_registry s) = Inr active \<and>
     (tool_digest t \<noteq> [] \<longrightarrow> tool_digest active = tool_digest t)"
proof -
  obtain ep q body where prepared: "prepare_erp_call (xe_base_url xe) (xe_credentials xe) t args = Inr (ep, q, body)"
    using assms by (auto simp: call_erp_response_def split: sum.splits)
  then obtain o' where call: "authority_call env t ep q body o' s = (r, s')"
    using assms by (auto simp: call_erp_response_def authorized_erp_connector_def split: if_splits option.splits)
  from authority_call_dispatched [OF call assms(2)] have "validate_effective_origin t ep = None"
    "revision_active (ne_semver env) t (sr_registry s)" by simp_all
  with prepared show ?thesis using origin_approved revision_active_resolves by blast
qed

subsection \<open>Withdrawal against commitment\<close>

text \<open>
  The operations that interleave, for a fixed revision: calls of any tool prepare and commit
  as separate steps, tools other than revision \<open>n\<close>, \<open>v\<close> are registered, any revision is
  withdrawn, and everything else leaves registry and events alone.
\<close>

inductive authority_step ::
  "('w, 'b, 'l, 'r, 'v, 'c) server_env \<Rightarrow> string \<Rightarrow> string \<Rightarrow> ('w, 'b, 'l) server \<Rightarrow> ('w, 'b, 'l) server \<Rightarrow> bool"
  for env n v where
  Step_Prepare: "authority_prepare t ep s = (e, s') \<Longrightarrow> authority_step env n v s s'"
| Step_Commit: "authority_commit env t ep q body options s = (r, s') \<Longrightarrow> authority_step env n v s s'"
| Step_Register: "register_tool env dflt t s = (e, s') \<Longrightarrow> (tool_name t, tool_version t) \<noteq> (n, v) \<Longrightarrow>
     authority_step env n v s s'"
| Step_Withdraw: "authority_step env n v s (deregister_tool env m w s)"
| Step_Other: "sr_registry s' = sr_registry s \<Longrightarrow> sr_events s' = sr_events s \<Longrightarrow> sr_sequence s' = sr_sequence s \<Longrightarrow>
     authority_step env n v s s'"

inductive authority_run ::
  "('w, 'b, 'l, 'r, 'v, 'c) server_env \<Rightarrow> string \<Rightarrow> string \<Rightarrow> ('w, 'b, 'l) server \<Rightarrow> ('w, 'b, 'l) server \<Rightarrow> bool"
  for env n v where
  Run_Start: "authority_run env n v s s"
| Run_Step: "authority_run env n v s s1 \<Longrightarrow> authority_step env n v s1 s2 \<Longrightarrow> authority_run env n v s s2"

definition withdrawn :: "registry \<Rightarrow> string \<Rightarrow> string \<Rightarrow> bool" where
  "withdrawn r n v \<longleftrightarrow> (\<exists>u. revision_at r n v = Some u \<and> \<not> tool_active u)"

definition dispatch_of :: "string \<Rightarrow> string \<Rightarrow> authority_event \<Rightarrow> bool" where
  "dispatch_of n v e \<longleftrightarrow> av_type e = ''dispatch_committed'' \<and> av_tool_name e = n \<and> av_tool_version e = v"

lemma withdrawn_remove: "withdrawn r n v \<Longrightarrow> withdrawn (registry_remove m w r) n v"
  using registry_remove_revision(1) [of r m w] registry_remove_absent [of r m w]
  by (cases "revision_at r m w") (auto simp: withdrawn_def)

lemma withdrawn_by_remove: "revision_at r n v \<noteq> None \<Longrightarrow> withdrawn (registry_remove n v r) n v"
  using registry_remove_revision(1) [of r n v] by (auto simp: withdrawn_def)

lemma withdrawn_set_serving: "withdrawn r n v \<Longrightarrow> set_serving m w r = (e, r') \<Longrightarrow> withdrawn r' n v"
  using set_serving_revision(1) [of m w r r'] set_serving_error [of m w r _ r']
  by (cases e) (auto simp: withdrawn_def)

lemma withdrawn_add:
  assumes "withdrawn r n v" and "registry_add sv dflt t r = (e, r')" and "(tool_name t, tool_version t) \<noteq> (n, v)"
  shows "withdrawn r' n v"
proof (cases "sv_new sv (tool_version t)")
  case None
  with assms show ?thesis by (simp add: registry_add_def)
next
  case (Some x)
  have put: "withdrawn (put_revision t r) n v" using assms(1,3) by (auto simp: withdrawn_def revision_at_put)
  moreover have "revision_at ((put_revision t r)\<lparr> reg_serving := m \<rparr>) n v = revision_at (put_revision t r) n v" for m
    by (simp add: revision_at_def)
  ultimately show ?thesis
    using assms(2) Some withdrawn_set_serving [OF put]
    by (auto simp: registry_add_put withdrawn_def split: if_splits)
qed

lemma withdrawn_inactive: "withdrawn r (tool_name t) (tool_version t) \<Longrightarrow> tool_version t \<noteq> [] \<Longrightarrow> \<not> revision_active sv t r"
  by (auto simp: withdrawn_def revision_at_def revision_active_def resolve_def split: option.splits)

lemma step_keeps_withdrawn:
  assumes "authority_step env n v s s'" and "withdrawn (sr_registry s) n v"
  shows "withdrawn (sr_registry s') n v"
  using assms(1)
proof (cases rule: authority_step.cases)
  case (Step_Prepare t ep e)
  with assms(2) show ?thesis by (auto simp: authority_prepare_def split: option.splits)
next
  case (Step_Commit t ep q body options r)
  with assms(2) show ?thesis
    by (auto simp: authority_commit_def Let_def split: if_splits prod.splits option.splits)
next
  case (Step_Register dflt t e)
  from register_tool_registry [OF Step_Register(1)] show ?thesis
  proof
    assume "sr_registry s' = sr_registry s"
    with assms(2) show ?thesis by simp
  next
    assume "\<exists>t1 r e. validate_tool (ne_base_url env) t = Inr t1 \<and>
       registry_add (ne_semver env) dflt (set_active_flag True t1) (sr_registry s) = (e, sr_registry s')"
    then obtain t1 e' where t1: "validate_tool (ne_base_url env) t = Inr t1"
        "registry_add (ne_semver env) dflt (set_active_flag True t1) (sr_registry s) = (e', sr_registry s')" by blast
    moreover have "(tool_name (set_active_flag True t1), tool_version (set_active_flag True t1)) \<noteq> (n, v)"
      using Step_Register(2) t1(1) by auto
    ultimately show ?thesis using withdrawn_add [OF assms(2)] by blast
  qed
next
  case (Step_Withdraw m w)
  with assms(2) withdrawn_remove show ?thesis by simp
next
  case Step_Other
  with assms(2) show ?thesis by simp
qed

text \<open>The events that a step adds.\<close>

lemma step_events:
  assumes "authority_step env n v s s'" and "withdrawn (sr_registry s) n v" and "v \<noteq> []"
  shows "\<exists>new. sr_events s' = sr_events s @ new \<and> (\<forall>e \<in> set new. \<not> dispatch_of n v e)"
  using assms(1)
proof (cases rule: authority_step.cases)
  case (Step_Prepare t ep e)
  then show ?thesis
    by (auto simp: authority_prepare_def next_authority_event_def dispatch_of_def split: option.splits)
next
  case (Step_Commit t ep q body options r)
  show ?thesis
  proof (cases "revision_active (ne_semver env) t (sr_registry s)")
    case True
    then have "(tool_name t, tool_version t) \<noteq> (n, v)"
      using withdrawn_inactive [of "sr_registry s" t "ne_semver env"] assms(2,3) by auto
    with Step_Commit True show ?thesis
      by (auto simp: authority_commit_def Let_def next_authority_event_def dispatch_of_def split: prod.splits)
  next
    case False
    with Step_Commit show ?thesis by (auto simp: authority_commit_def next_authority_event_def dispatch_of_def)
  qed
next
  case (Step_Register dflt t e)
  with register_tool_keeps show ?thesis by fastforce
next
  case (Step_Withdraw m w)
  then show ?thesis
    by (auto simp: deregister_tool_def Let_def next_authority_event_def dispatch_of_def split: sum.splits)
next
  case Step_Other
  then show ?thesis by simp
qed

text \<open>
  C3: withdrawal wins every race it is ordered before. Once a stored revision has been
  deregistered, no interleaving of calls, of registrations of other revisions and of further
  withdrawals ever commits a dispatch for it - not even a call that was resolved and prepared
  before the withdrawal - until that revision itself is registered again. The events that
  were there stay as they are.
\<close>

theorem withdrawal_is_final:
  assumes "revision_at (sr_registry s) n v \<noteq> None" and "v \<noteq> []"
    and "authority_run env n v (deregister_tool env n v s) s'"
  shows "\<exists>new. sr_events s' = sr_events (deregister_tool env n v s) @ new \<and> (\<forall>e \<in> set new. \<not> dispatch_of n v e)"
proof -
  have start: "withdrawn (sr_registry (deregister_tool env n v s)) n v" using withdrawn_by_remove [OF assms(1)] by simp
  have "withdrawn (sr_registry s') n v \<and>
      (\<exists>new. sr_events s' = sr_events s0 @ new \<and> (\<forall>e \<in> set new. \<not> dispatch_of n v e))"
    if "authority_run env n v s0 s'" "withdrawn (sr_registry s0) n v" for s0 s'
    using that
  proof (induction rule: authority_run.induct)
    case (Run_Start s0)
    then show ?case by simp
  next
    case (Run_Step s0 s1 s2)
    then obtain new where new: "withdrawn (sr_registry s1) n v" "sr_events s1 = sr_events s0 @ new"
        "\<forall>e \<in> set new. \<not> dispatch_of n v e" by blast
    from step_events [OF Run_Step.hyps(2) new(1) assms(2)] obtain more where
      "sr_events s2 = sr_events s1 @ more" "\<forall>e \<in> set more. \<not> dispatch_of n v e" by blast
    with new have "sr_events s2 = sr_events s0 @ (new @ more)" "\<forall>e \<in> set (new @ more). \<not> dispatch_of n v e" by auto
    with step_keeps_withdrawn [OF Run_Step.hyps(2) new(1)] show ?case by blast
  qed
  from this [OF assms(3) start] show ?thesis by blast
qed

text \<open>The sequence numbers are the positions of the events, modulo the width of the counter.\<close>

definition events_numbered :: "('w, 'b, 'l) server \<Rightarrow> bool" where
  "events_numbered s \<longleftrightarrow> sr_sequence s = of_nat (length (sr_events s)) \<and>
     (\<forall>i < length (sr_events s). av_sequence (sr_events s ! i) = of_nat (Suc i))"

lemma next_event_numbered [component_inv]: "events_numbered s \<Longrightarrow> events_numbered (next_authority_event k t s)"
  by (auto simp: events_numbered_def next_authority_event_def nth_append less_Suc_eq)

subsection \<open>Concrete runs\<close>

lemma approved_call:
  "fst (call_erp_response plain_env approved_tool [] (authorized_erp_connector sample_env approved_tool) no_options approved_server)
     = Inr (Some (json_response ''{}''))"
  "sr_world (snd (call_erp_response plain_env approved_tool [] (authorized_erp_connector sample_env approved_tool)
     no_options approved_server)) = 1"
  by code_simp+

theorem dispatch_needs_authority_witness:
  "\<exists>ep q body. prepare_erp_call [] empty_credentials approved_tool [] = Inr (ep, q, body) \<and>
     normalized_origin (effective_url ep) = normalized_origin ''https://erp.example''"
proof -
  let ?out = "call_erp_response plain_env approved_tool [] (authorized_erp_connector sample_env approved_tool) no_options approved_server"
  have "sr_world (snd ?out) \<noteq> sr_world approved_server"
    using approved_call(2) by (simp add: approved_server_def sample_server_def)
  from dispatch_needs_authority [OF surjective_pairing this] show ?thesis
    by (auto simp: plain_env_def approved_tool_def tool_origins_def set_tool_origins_def)
qed

text \<open>A call prepared before the withdrawal is refused when it commits.\<close>

theorem withdrawal_is_final_witness:
  "\<exists>s1 s2. s1 = deregister_tool sample_env ''t'' ''1'' approved_server \<and>
     s2 = snd (authority_commit sample_env approved_tool (sample_endpoint ''POST'' []) [] None None s1) \<and>
     authority_run sample_env ''t'' ''1'' s1 s2 \<and> length (sr_events s2) = 2 \<and> sr_world s2 = 0 \<and>
     (\<exists>new. sr_events s2 = sr_events s1 @ new \<and> \<not> (\<exists>e \<in> set new. dispatch_of ''t'' ''1'' e))"
proof -
  let ?s1 = "deregister_tool sample_env ''t'' ''1'' approved_server"
  let ?s2 = "snd (authority_commit sample_env approved_tool (sample_endpoint ''POST'' []) [] None None ?s1)"
  have at: "revision_at (sr_registry approved_server) ''t'' ''1'' \<noteq> None" by code_simp
  have run: "authority_run sample_env ''t'' ''1'' ?s1 ?s2"
    by (rule Run_Step [OF Run_Start Step_Commit [OF surjective_pairing]])
  have "length (sr_events ?s2) = 2" "sr_world ?s2 = 0" by code_simp+
  moreover obtain new where "sr_events ?s2 = sr_events ?s1 @ new" "\<forall>e \<in> set new. \<not> dispatch_of ''t'' ''1'' e"
    using withdrawal_is_final [OF at _ run] by auto
  ultimately show ?thesis using run by blast
qed

text \<open>
  The event of a withdrawal names the revision that the given version resolves to, also when
  that version is a constraint and nothing is withdrawn.
\<close>

lemma withdrawal_event_without_withdrawal:
  "map av_type (sr_events (deregister_tool sample_env ''t'' ''>0'' approved_server)) = [''withdrawal_committed'']"
  "revision_active any_semver approved_tool (sr_registry (deregister_tool sample_env ''t'' ''>0'' approved_server))"
  by code_simp+

end
