(* ===== verification/Middleware.thy ===== *)
theory Middleware
  imports Authority
begin

text \<open>
  internal/mcp/middleware.go and the call path of server.go: the middlewares around a tool
  handler, their composition, and the handler of MCP \<open>tools/call\<close>. Logging and metrics
  middlewares pass arguments and results through and are not part of the composition. A
  handler acts on the whole server, so whatever happens while it runs - other calls, changes
  of the plugins, reconciliation - is part of its effect.
\<close>

type_synonym ('w, 'b, 'l) server_handler = "('w, 'b, 'l) server handler"

subsection \<open>Recovery and concurrency\<close>

definition recovery_middleware :: "'s handler \<Rightarrow> 's handler" where
  "recovery_middleware handler c req s = (case handler c req s of
       (Panicked kind, s') \<Rightarrow> (Failed (EFault (new_protocol_fault KindInternal ''internal server error''
            (Some (EText (''tool handler panic: '' @ kind))))), s')
     | (result, s') \<Rightarrow> (result, s'))"

definition concurrency_limited_result :: call_result where
  "concurrency_limited_result = new_tool_execution_result (EFault (new_fault KindConcurrencyLimited
     ''the tool is at its concurrency limit; retry later'' True second None))"

text \<open>The slot is released however the handler ends, also when it panics.\<close>

definition concurrency_middleware :: "tool \<Rightarrow> ('w, 'b, 'l) server_handler \<Rightarrow> ('w, 'b, 'l) server_handler" where
  "concurrency_middleware t handler c req s = (case ts_concurrency (tl_spec t) of
       None \<Rightarrow> handler c req s
     | Some config \<Rightarrow> (case acquire (sr_now s) (tool_name t) (execution_principal c) config (sr_concurrency s) of
           (None, m) \<Rightarrow> (Returned (Some concurrency_limited_result), s\<lparr> sr_concurrency := m \<rparr>)
         | (Some release, m) \<Rightarrow> (case handler c req (s\<lparr> sr_concurrency := m \<rparr>) of
               (out, s') \<Rightarrow> (out, s'\<lparr> sr_concurrency := release_func (sr_now s') release (sr_concurrency s') \<rparr>))))"

subsection \<open>Rate limits\<close>

definition rate_limit_handle ::
  "('l, 'r) rate_ops \<Rightarrow> (('w, 'b, 'l) server \<Rightarrow> 'l rate_middleware) \<Rightarrow>
     ('l rate_middleware \<Rightarrow> ('w, 'b, 'l) server \<Rightarrow> ('w, 'b, 'l) server) \<Rightarrow>
     ('w, 'b, 'l) server_handler \<Rightarrow> ('w, 'b, 'l) server_handler" where
  "rate_limit_handle ops get put handler c req s =
     (case rate_decision ops (sr_now s) (execution_principal c) (get s) of
        (Some delay, m) \<Rightarrow> (Returned (Some (rate_limited_result delay)), (put m s)\<lparr> sr_rate := Some delay \<rparr>)
      | (None, m) \<Rightarrow> handler c req (put m s))"

definition global_rate_limit ::
  "('w, 'b, 'l, 'r, 'v, 'c) server_env \<Rightarrow> ('w, 'b, 'l) server_handler \<Rightarrow> ('w, 'b, 'l) server_handler" where
  "global_rate_limit env =
     rate_limit_handle (ne_rate_ops env) sr_global_limiter (\<lambda>m s. s\<lparr> sr_global_limiter := m \<rparr>)"

definition tool_limiter_key :: "tool \<Rightarrow> string" where
  "tool_limiter_key t = tool_name t @ [CHR 0x00] @ tool_version t"

text \<open>
  The tool's limiter: kept while its configuration is unchanged, otherwise new. The source
  looks it up when it composes the middlewares, so a call that the global limit refuses may
  already have stored a fresh limiter; a fresh limiter is what a later call would store.
\<close>

definition tool_limiter :: "tool \<Rightarrow> rate_limit_config \<Rightarrow> ('w, 'b, 'l) server \<Rightarrow> 'l rate_middleware" where
  "tool_limiter t config s =
     (let fresh = new_rate_limit_middleware (rl_requests_per_second config) (rl_burst config) in
      case map_of (sr_tool_limiters s) (tool_limiter_key t) of
        None \<Rightarrow> fresh
      | Some m \<Rightarrow> if rm_rate m \<noteq> rl_requests_per_second config \<or> rm_burst m \<noteq> rl_burst config then fresh else m)"

definition tool_rate_limit_middleware ::
  "('w, 'b, 'l, 'r, 'v, 'c) server_env \<Rightarrow> tool \<Rightarrow> ('w, 'b, 'l) server_handler \<Rightarrow> ('w, 'b, 'l) server_handler" where
  "tool_rate_limit_middleware env t handler = (case ts_rate_limit (tl_spec t) of
       None \<Rightarrow> handler
     | Some config \<Rightarrow> rate_limit_handle (ne_rate_ops env) (tool_limiter t config)
           (\<lambda>m s. s\<lparr> sr_tool_limiters := amap_put (tool_limiter_key t) m (sr_tool_limiters s) \<rparr>) handler)"

subsection \<open>The result cache\<close>

definition tool_cache_revision :: "tool \<Rightarrow> string" where
  "tool_cache_revision t = (if tool_digest t \<noteq> [] then tool_digest t else tool_version t)"

fun file_backed_binding :: "active_binding option \<Rightarrow> bool" where
  "file_backed_binding None = False"
| "file_backed_binding (Some ab) = (case ab_plugin ab of
       None \<Rightarrow> False
     | Some p \<Rightarrow> (case ps_auth (pl_spec p) of None \<Rightarrow> False | Some a \<Rightarrow> is_file_backed (pa_credential_source a)))"

definition cache_bypassed_for_credential :: "tool \<Rightarrow> plugin_registry \<Rightarrow> bool" where
  "cache_bypassed_for_credential t plugins \<longleftrightarrow>
     is_file_backed (se_credential_source (ts_security (tl_spec t))) \<or>
     list_ex file_backed_binding (runtime_bindings_for_tool plugins (tool_name t) (tool_version t))"

definition cache_role :: "tool \<Rightarrow> ctx \<Rightarrow> string" where
  "cache_role t c = (if tool_roles t = [] then [] else case caller_role c of None \<Rightarrow> [] | Some role \<Rightarrow> role)"

definition request_args :: "call_request \<Rightarrow> jargs" where
  "request_args req = (case rq_arguments req of JObj ms \<Rightarrow> ms | _ \<Rightarrow> [])"

definition cache_lookup ::
  "('w, 'b, 'l, 'r, 'v, 'c) server_env \<Rightarrow> 'b backend \<Rightarrow> cache_config \<Rightarrow> tool \<Rightarrow> ctx \<Rightarrow> call_request \<Rightarrow>
     ('w, 'b, 'l) server \<Rightarrow> call_result option \<times> ('w, 'b, 'l) server" where
  "cache_lookup env be cfg t c req s =
     (if \<not> cc_enabled cfg then (None, s)
      else case get_revision be (ne_args_sha env) (tool_name t) (tool_cache_revision t) (cache_role t c)
                  (request_args req) cfg (sr_cache s) of
        (entry, b) \<Rightarrow> (if ce_hit_type entry = ''miss'' then None else ne_decode_result env (ce_response entry),
                      s\<lparr> sr_cache := b \<rparr>))"

text \<open>The write after the call, only under the generation the call started with.\<close>

definition cache_store ::
  "('w, 'b, 'l, 'r, 'v, 'c) server_env \<Rightarrow> 'b backend \<Rightarrow> cache_config \<Rightarrow> 64 word \<Rightarrow> tool \<Rightarrow> ctx \<Rightarrow> call_request \<Rightarrow>
     call_result \<Rightarrow> ('w, 'b, 'l) server \<Rightarrow> ('w, 'b, 'l) server" where
  "cache_store env be cfg generation t c req result s =
     (if \<not> cc_enabled cfg then s
      else case ne_encode_result env result of
        None \<Rightarrow> s
      | Some response \<Rightarrow>
          if generation \<noteq> sr_generation s then s
          else s\<lparr> sr_cache := snd (set_revision be (ne_args_sha env) (sr_now s) (tool_name t) (tool_cache_revision t)
                 (cache_role t c) (request_args req) response cfg (sr_cache s)) \<rparr>)"

definition cache_auto_flush :: "'b backend \<Rightarrow> cache_config \<Rightarrow> ('w, 'b, 'l) server \<Rightarrow> ('w, 'b, 'l) server" where
  "cache_auto_flush be cfg s =
     (if cc_flush_on cfg = [] then s else s\<lparr> sr_cache := auto_flush be (cc_flush_on cfg) (sr_cache s) \<rparr>)"

definition cache_middleware ::
  "('w, 'b, 'l, 'r, 'v, 'c) server_env \<Rightarrow> tool \<Rightarrow> ('w, 'b, 'l) server_handler \<Rightarrow> ('w, 'b, 'l) server_handler" where
  "cache_middleware env t handler c req s = (case (ne_cache env, ts_cache (tl_spec t)) of
       (Some be, Some cfg) \<Rightarrow>
         if cache_bypassed_for_credential t (sr_plugins s) then handler c req s
         else
           let generation = (if cc_enabled cfg then sr_generation s else 0) in
           (case cache_lookup env be cfg t c req s of
              (Some cached, s1) \<Rightarrow> (Returned (Some cached), s1)
            | (None, s1) \<Rightarrow> (case handler c req s1 of
                (Returned (Some result), s2) \<Rightarrow>
                  if cr_is_error result then (Returned (Some result), s2)
                  else (Returned (Some result),
                        cache_auto_flush be cfg (cache_store env be cfg generation t c req result s2))
              | (out, s2) \<Rightarrow> (out, s2)))
     | _ \<Rightarrow> handler c req s)"

subsection \<open>The composition\<close>

definition apply_tool_middlewares ::
  "('w, 'b, 'l, 'r, 'v, 'c) server_env \<Rightarrow> tool \<Rightarrow> ('w, 'b, 'l) server_handler \<Rightarrow> ('w, 'b, 'l) server_handler" where
  "apply_tool_middlewares env t handler =
     recovery_middleware (global_rate_limit env (tool_rate_limit_middleware env t
       (role_authz_middleware t (cache_middleware env t (concurrency_middleware t handler)))))"

definition on_world :: "('w \<Rightarrow> 'a \<times> 'w) \<Rightarrow> ('w, 'b, 'l) server \<Rightarrow> 'a \<times> ('w, 'b, 'l) server" where
  "on_world f s = (case f (sr_world s) of (r, w) \<Rightarrow> (r, s\<lparr> sr_world := w \<rparr>))"

definition server_pipeline ::
  "('w, 'b, 'l, 'r, 'v, 'c) server_env \<Rightarrow> ('w, 'b, 'l) server \<Rightarrow> ('w, 'b, 'l) server pipeline_env" where
  "server_pipeline env s = \<lparr>
     pp_exec = \<lparr> xe_base_url = ne_base_url env, xe_credentials = ne_credentials env, xe_now = sr_now s,
       xe_schema = ne_schema env, xe_media_type = ne_media_type env, xe_parse_time = ne_parse_time env,
       xe_native = (\<lambda>h c args. on_world (ne_native env h c args)) \<rparr>,
     pp_processor = map_option (\<lambda>f p i. on_world (f p i)) (ne_processor env) \<rparr>"

definition execute_tool_call ::
  "('w, 'b, 'l, 'r, 'v, 'c) server_env \<Rightarrow> ctx \<Rightarrow> tool \<Rightarrow> jargs \<Rightarrow> ('w, 'b, 'l) server \<Rightarrow>
     (gerr + call_result) \<times> ('w, 'b, 'l) server" where
  "execute_tool_call env c t args s = execute_tool_call_with (server_pipeline env s) c t args
     (authorized_erp_connector env t)
     (runtime_bindings_for_tool_phase (sr_plugins s) (tool_name t) (tool_version t) phase_raw_response)
     (runtime_bindings_for_tool_phase (sr_plugins s) (tool_name t) (tool_version t) phase_after_response) s"

definition tool_arguments :: "call_request \<Rightarrow> string + jargs" where
  "tool_arguments req = (case rq_arguments req of
       JNull \<Rightarrow> Inr [] | JObj ms \<Rightarrow> Inr ms | _ \<Rightarrow> Inl ''invalid arguments format'')"

definition execute_tool_request ::
  "('w, 'b, 'l, 'r, 'v, 'c) server_env \<Rightarrow> tool \<Rightarrow> ('w, 'b, 'l) server_handler" where
  "execute_tool_request env t c req s = (case tool_arguments req of
       Inl e \<Rightarrow> (Failed (EText e), s)
     | Inr args \<Rightarrow> (case execute_tool_call env c t args s of
         (Inl e, s') \<Rightarrow> (Failed e, s')
       | (Inr r, s') \<Rightarrow> (Returned (Some r), s')))"

text \<open>A wholly empty schema accepts everything; otherwise an object schema is completed.\<close>

definition validate_tool_arguments ::
  "(input_schema \<Rightarrow> jargs \<Rightarrow> string option) \<Rightarrow> tool \<Rightarrow> jargs \<Rightarrow> string option" where
  "validate_tool_arguments validate t args = (case schema_for_mcp t of
       Inl e \<Rightarrow> Some e
     | Inr schema \<Rightarrow>
         if is_type schema = [] \<and> is_properties schema = [] \<and> is_required schema = [] \<and> is_additional schema = JNull
         then None
         else validate (if is_type schema = [] then schema\<lparr> is_type := ''object'' \<rparr> else schema) args)"

definition resolve_call ::
  "('v, 'c) semver \<Rightarrow> string \<Rightarrow> string \<Rightarrow> call_request \<Rightarrow> registry \<Rightarrow> registry_err + tool" where
  "resolve_call sv name version req r =
     (if version \<noteq> [] then resolve sv name version r
      else if rq_digest req \<noteq> [] then resolve_digest name (rq_digest req) r
      else resolve sv name [] r)"

definition finish_call :: "outcome \<Rightarrow> outcome" where
  "finish_call out = (case out of
       Failed e \<Rightarrow> if is_protocol e then Failed e else Returned (Some (new_tool_execution_result e))
     | _ \<Rightarrow> out)"

definition handle_mcp_tool_revision_call ::
  "('w, 'b, 'l, 'r, 'v, 'c) server_env \<Rightarrow> string \<Rightarrow> string \<Rightarrow> bool \<Rightarrow> ('w, 'b, 'l) server_handler" where
  "handle_mcp_tool_revision_call env name version withMiddleware c req s =
     (case resolve_call (ne_semver env) name version req (sr_registry s) of
        Inl e \<Rightarrow> (Failed (EFault (new_protocol_fault KindNotFound
                   ''the requested tool revision is unavailable; rediscover tools'' (Some (EText ''resolve'')))), s)
      | Inr t \<Rightarrow> (case tool_arguments req of
          Inl e \<Rightarrow> (Failed (EFault (new_protocol_fault KindInvalidInput ''tool arguments must be an object'' (Some (EText e)))), s)
        | Inr args \<Rightarrow> (case validate_tool_arguments (ne_args_schema env) t args of
            Some e \<Rightarrow> (Returned (Some (new_tool_execution_result (EFault (new_fault KindInvalidInput
                 ''the tool arguments did not match the selected revision'' False 0 (Some (EText e)))))), s)
          | None \<Rightarrow>
              let handler = (if withMiddleware then apply_tool_middlewares env t (execute_tool_request env t)
                             else execute_tool_request env t)
              in case handler c req s of (out, s') \<Rightarrow> (finish_call out, s'))))"

end
