(* ===== verification/Call_Safety.thy ===== *)
theory Call_Safety
  imports Middleware
begin

text \<open>
  What a tool call may do, over the whole middleware composition of \<^theory_text>\<open>Middleware\<close>: it always
  settles, it has an effect only when it was resolved, validated and authorized, and its
  result is not cached when it may be stale.
\<close>

subsection \<open>Every call settles\<close>

text \<open>
  A handler keeps the running calls when the limiter accounts for exactly the same calls
  afterwards.
\<close>

definition keeps_running :: "('w, 'b, 'l) server_handler \<Rightarrow> bool" where
  "keeps_running handler \<longleftrightarrow> (\<forall>c req s m running. sr_concurrency s = Some m \<and> conc_inv m running \<longrightarrow>
     (\<exists>m'. sr_concurrency (snd (handler c req s)) = Some m' \<and> conc_inv m' running))"

lemma keeps_runningD:
  "keeps_running h \<Longrightarrow> h c req s = (out, s') \<Longrightarrow> sr_concurrency s = Some m \<Longrightarrow> conc_inv m running \<Longrightarrow>
     \<exists>m'. sr_concurrency s' = Some m' \<and> conc_inv m' running"
  unfolding keeps_running_def by (metis snd_conv)

lemma keeps_runningI:
  assumes "\<And>c req s out s' m running. h c req s = (out, s') \<Longrightarrow> sr_concurrency s = Some m \<Longrightarrow> conc_inv m running \<Longrightarrow>
     \<exists>m'. sr_concurrency s' = Some m' \<and> conc_inv m' running"
  shows "keeps_running h"
  unfolding keeps_running_def using assms by (metis prod.collapse)

text \<open>The shape of a cached call: the handler runs at most once, and around it only the cache changes.\<close>

definition cache_only :: "('w, 'b, 'l) server \<Rightarrow> ('w, 'b, 'l) server \<Rightarrow> bool" where
  "cache_only s s' \<longleftrightarrow> (\<exists>b. s' = s\<lparr> sr_cache := b \<rparr>)"

lemma cache_onlyI [simp, intro]: "cache_only s s" "cache_only s (s\<lparr> sr_cache := b \<rparr>)"
  by (auto simp: cache_only_def intro: exI [of _ "sr_cache s"])

lemma cache_onlyD:
  "cache_only s s' \<Longrightarrow> sr_concurrency s' = sr_concurrency s \<and> sr_world s' = sr_world s \<and>
     sr_registry s' = sr_registry s \<and> sr_generation s' = sr_generation s"
  by (auto simp: cache_only_def)

lemma cache_only_trans: "cache_only s s1 \<Longrightarrow> cache_only s1 s2 \<Longrightarrow> cache_only s s2"
  by (auto simp: cache_only_def)

lemma cache_lookup_only: "cache_lookup env be cfg t c req s = (r, s') \<Longrightarrow> cache_only s s'"
  by (auto simp: cache_lookup_def split: if_splits prod.splits)

lemma cache_store_only: "cache_only s (cache_auto_flush be cfg (cache_store env be cfg g t c req r s))"
proof -
  have "cache_only s (cache_store env be cfg g t c req r s)" by (auto simp: cache_store_def split: option.split)
  moreover have "cache_only (cache_store env be cfg g t c req r s) (cache_auto_flush be cfg (cache_store env be cfg g t c req r s))"
    by (auto simp: cache_auto_flush_def)
  ultimately show ?thesis by (rule cache_only_trans)
qed

lemma cache_middleware_shape:
  assumes "cache_middleware env t h c req s = (out, s')"
  shows "cache_only s s' \<or> (\<exists>s1 s2. cache_only s s1 \<and> h c req s1 = (out, s2) \<and> cache_only s2 s')"
proof (cases "\<exists>be cfg. ne_cache env = Some be \<and> ts_cache (tl_spec t) = Some cfg \<and>
    \<not> cache_bypassed_for_credential t (sr_plugins s)")
  case False
  then have "h c req s = (out, s')" using assms by (auto simp: cache_middleware_def split: option.splits if_splits)
  then show ?thesis by blast
next
  case True
  then obtain be cfg where on: "ne_cache env = Some be" "ts_cache (tl_spec t) = Some cfg"
      "\<not> cache_bypassed_for_credential t (sr_plugins s)" by blast
  obtain cached s1 where look: "cache_lookup env be cfg t c req s = (cached, s1)" by (cases "cache_lookup env be cfg t c req s")
  obtain out1 s2 where h: "h c req s1 = (out1, s2)" by (cases "h c req s1")
  from assms on look h have "(\<exists>r. cached = Some r) \<and> s' = s1 \<or> out = out1 \<and>
      (s' = s2 \<or> (\<exists>g r. s' = cache_auto_flush be cfg (cache_store env be cfg g t c req r s2)))"
    by (auto simp: cache_middleware_def Let_def split: option.splits outcome.splits if_splits)
  with cache_lookup_only [OF look] h cache_store_only show ?thesis by blast
qed

lemma recovery_keeps [component_inv]: "keeps_running h \<Longrightarrow> keeps_running (recovery_middleware h)"
  by (rule keeps_runningI) (auto simp: recovery_middleware_def dest: keeps_runningD split: prod.splits outcome.splits)

lemma rate_limit_keeps [component_inv]:
  assumes "keeps_running h" and "\<And>m s. sr_concurrency (put m s) = sr_concurrency s"
  shows "keeps_running (rate_limit_handle ops get put h)"
proof (rule keeps_runningI)
  fix c req s out s' m running
  assume run: "rate_limit_handle ops get put h c req s = (out, s')" and m: "sr_concurrency s = Some m" "conc_inv m running"
  obtain d g where d: "rate_decision ops (sr_now s) (execution_principal c) (get s) = (d, g)"
    by (cases "rate_decision ops (sr_now s) (execution_principal c) (get s)")
  show "\<exists>m'. sr_concurrency s' = Some m' \<and> conc_inv m' running"
  proof (cases d)
    case None
    with run d have "h c req (put g s) = (out, s')" by (simp add: rate_limit_handle_def)
    from keeps_runningD [OF assms(1) this] m assms(2) show ?thesis by simp
  next
    case (Some delay)
    with run d m assms(2) show ?thesis by (auto simp: rate_limit_handle_def)
  qed
qed

lemma role_authz_keeps [component_inv]:
  assumes "keeps_running h" shows "keeps_running (role_authz_middleware t h)"
proof (rule keeps_runningI)
  fix c req s out s' m running
  assume run: "role_authz_middleware t h c req s = (out, s')" and m: "sr_concurrency s = Some m" "conc_inv m running"
  consider "s' = s" | c' req' where "h c' req' s = (out, s')"
  proof (cases "tool_roles t = []")
    case True
    with run that(2) show ?thesis by (simp add: role_authz_middleware_def)
  next
    case False
    from role_authz_runs_or_refuses [OF this, of h c req s] run that show ?thesis by auto
  qed
  then show "\<exists>m'. sr_concurrency s' = Some m' \<and> conc_inv m' running"
    using m keeps_runningD [OF assms] by cases blast+
qed

lemma cache_keeps [component_inv]:
  assumes "keeps_running h" shows "keeps_running (cache_middleware env t h)"
proof (rule keeps_runningI)
  fix c req s out s' m running
  assume run: "cache_middleware env t h c req s = (out, s')" and m: "sr_concurrency s = Some m" "conc_inv m running"
  from cache_middleware_shape [OF run] show "\<exists>m'. sr_concurrency s' = Some m' \<and> conc_inv m' running"
  proof (elim disjE exE conjE)
    assume "cache_only s s'"
    with m show ?thesis by (auto dest: cache_onlyD)
  next
    fix s1 s2
    assume c: "cache_only s s1" "h c req s1 = (out, s2)" "cache_only s2 s'"
    from c(1) m(1) have "sr_concurrency s1 = Some m" by (auto dest: cache_onlyD)
    from keeps_runningD [OF assms c(2) this m(2)] cache_onlyD [OF c(3)] show ?thesis by simp
  qed
qed

lemma concurrency_keeps [component_inv]:
  assumes "keeps_running h" shows "keeps_running (concurrency_middleware t h)"
proof (rule keeps_runningI)
  fix c req s out s' m running
  assume run: "concurrency_middleware t h c req s = (out, s')" and m: "sr_concurrency s = Some m" "conc_inv m running"
  show "\<exists>m'. sr_concurrency s' = Some m' \<and> conc_inv m' running"
  proof (cases "ts_concurrency (tl_spec t)")
    case None
    with run m keeps_runningD [OF assms] show ?thesis by (simp add: concurrency_middleware_def)
  next
    case (Some config)
    obtain r m1 where acq: "acquire_slot (sr_now s) (tool_name t) (execution_principal c) config m = (r, m1)"
      by (cases "acquire_slot (sr_now s) (tool_name t) (execution_principal c) config m")
    note inv1 = acquire_slot_inv [OF m(2) acq]
    show ?thesis
    proof (cases r)
      case None
      with run Some m acq inv1 show ?thesis by (auto simp: concurrency_middleware_def acquire_def)
    next
      case slot: (Some release)
      obtain out1 s2 where h: "h c req (s\<lparr> sr_concurrency := Some m1 \<rparr>) = (out1, s2)"
        by (cases "h c req (s\<lparr> sr_concurrency := Some m1 \<rparr>)")
      then obtain m2 where m2: "sr_concurrency s2 = Some m2" "conc_inv m2 (release # running)"
        using keeps_runningD [OF assms h, of m1 "release # running"] inv1 slot by auto
      have "s' = s2\<lparr> sr_concurrency := release_func (sr_now s2) release (sr_concurrency s2) \<rparr>"
        using run Some m acq slot h by (auto simp: concurrency_middleware_def acquire_def)
      moreover have "conc_inv (release_slot (sr_now s2) release m2) running"
        using release_slot_inv [OF m2(2), of release "sr_now s2"] by simp
      ultimately show ?thesis using m2(1) by (simp add: release_func_def)
    qed
  qed
qed

lemma apply_middlewares_keeps: "keeps_running h \<Longrightarrow> keeps_running (apply_tool_middlewares env t h)"
  unfolding apply_tool_middlewares_def global_rate_limit_def tool_rate_limit_middleware_def
  by (intro recovery_keeps rate_limit_keeps) (auto intro!: component_inv split: option.split)

text \<open>
  The execution of a tool itself leaves the limiter alone: what it runs, the connector, native
  handlers and plugins, changes the world, and the connector also the events. The steps of the
  pipeline keep whatever part of the state these keep.
\<close>

definition kept :: "('s \<Rightarrow> 'k) \<Rightarrow> ('s \<Rightarrow> 'r \<times> 's) \<Rightarrow> bool" where
  "kept part f \<longleftrightarrow> (\<forall>s. part (snd (f s)) = part s)"

lemma keptD: "kept part f \<Longrightarrow> f s = (r, s') \<Longrightarrow> part s' = part s"
  unfolding kept_def by (metis snd_conv)

lemma keptI: "(\<And>s r s'. f s = (r, s') \<Longrightarrow> part s' = part s) \<Longrightarrow> kept part f"
  unfolding kept_def by (metis prod.collapse)

definition plugins_keep :: "('s \<Rightarrow> 'k) \<Rightarrow> 's processor option \<Rightarrow> bool" where
  "plugins_keep part proc \<longleftrightarrow> (\<forall>f p i. proc = Some f \<longrightarrow> kept part (f p i))"

definition connector_keeps :: "('s \<Rightarrow> 'k) \<Rightarrow> 's erp_connector \<Rightarrow> bool" where
  "connector_keeps part conn \<longleftrightarrow> (\<forall>ep q b. kept part (cn_call conn ep q b)) \<and>
     (\<forall>f ep q b opts. cn_call_with_options conn = Some f \<longrightarrow> kept part (f ep q b opts))"

lemma run_plugin_kept:
  assumes "plugins_keep part proc" shows "kept part (run_plugin proc invocation active)"
  using assms by (intro keptI) (auto simp: run_plugin_def plugins_keep_def dest: keptD split: option.splits prod.splits sum.splits)

lemma run_after_kept:
  assumes "plugins_keep part proc" shows "run_after proc t bindings v last_ok s = (r, s') \<Longrightarrow> part s' = part s"
proof (induction bindings arbitrary: v last_ok s)
  case (Cons active rest)
  obtain u s1 where u: "run_plugin proc (\<lambda>b. result_invocation t b v) active s = (u, s1)" by (rule prod.exhaust)
  from keptD [OF run_plugin_kept [OF assms] u] Cons u show ?case by (cases u) auto
qed simp

lemma run_raw_kept:
  assumes "plugins_keep part proc" shows "run_raw proc t status bindings raw v last_ok s = (r, s') \<Longrightarrow> part s' = part s"
proof (induction bindings arbitrary: raw v last_ok s)
  case (Cons active rest)
  obtain u s1 where u: "run_plugin proc (raw_invocation t raw) active s = (u, s1)" by (rule prod.exhaust)
  from keptD [OF run_plugin_kept [OF assms] u] Cons u show ?case by (cases u) auto
qed simp

lemma after_bindings_kept:
  assumes "plugins_keep part (pp_processor pe)"
  shows "process_after_response_bindings pe t result bindings s = (r, s') \<Longrightarrow> part s' = part s"
  using run_after_kept [OF assms]
  by (auto simp: process_after_response_bindings_def Let_def split: if_splits prod.splits sum.splits)

lemma raw_failure_kept:
  assumes "plugins_keep part (pp_processor pe)"
  shows "raw_processing_failure pe t active captured bindings s = (r, s') \<Longrightarrow> part s' = part s"
  using after_bindings_kept [OF assms]
  by (auto simp: raw_processing_failure_def Let_def split: option.splits if_splits sum.splits)

lemma finish_raw_kept:
  assumes "plugins_keep part (pp_processor pe)"
  shows "finish_raw pe t captured v last_ok bindings s = (r, s') \<Longrightarrow> part s' = part s"
  using after_bindings_kept [OF assms] raw_failure_kept [OF assms]
  by (auto simp: finish_raw_def Let_def split: if_splits sum.splits)

lemma call_erp_response_kept:
  assumes "connector_keeps part conn" shows "call_erp_response xe t args conn options s = (r, s') \<Longrightarrow> part s' = part s"
  using assms
  by (auto simp: call_erp_response_def connector_keeps_def kept_def split: sum.splits option.splits if_splits) (metis snd_conv)+

lemma call_erp_kept:
  assumes "connector_keeps part conn" shows "call_erp xe t args conn options s = (r, s') \<Longrightarrow> part s' = part s"
  using call_erp_response_kept [OF assms]
  by (auto simp: call_erp_def split: sum.splits option.splits if_splits prod.splits)

lemma execute_raw_kept:
  assumes "plugins_keep part (pp_processor pe)" and "connector_keeps part conn"
  shows "execute_raw_tool pe t args conn rawBindings afterBindings s = (r, s') \<Longrightarrow> part s' = part s"
proof -
  assume run: "execute_raw_tool pe t args conn rawBindings afterBindings s = (r, s')"
  obtain c s1 where call: "call_erp (pp_exec pe) t args conn raw_call_options s = (c, s1)" by (rule prod.exhaust)
  have s1: "part s1 = part s" by (rule call_erp_kept [OF assms(2) call])
  show "part s' = part s"
  proof (cases "tl_handler t \<noteq> None \<or> ex_type (ts_execution (tl_spec t)) \<noteq> ''http'' \<or> \<not> has_object_output_schema t")
    case True
    with run raw_failure_kept [OF assms(1)] show ?thesis by (simp add: execute_raw_tool_def)
  next
    case False
    show ?thesis
    proof (cases c)
      case (Inl err)
      with run False call raw_failure_kept [OF assms(1)] s1 show ?thesis
        by (auto simp: execute_raw_tool_def Let_def split: option.splits)
    next
      case (Inr captured)
      obtain u s2 where u: "run_raw (pp_processor pe) t (er_status captured) rawBindings (raw_response_from_erp captured) JNull None s1 = (u, s2)"
        by (rule prod.exhaust)
      from run_raw_kept [OF assms(1) u] s1 have "part s2 = part s" by simp
      with run False call Inr u raw_failure_kept [OF assms(1)] finish_raw_kept [OF assms(1)] show ?thesis
        by (cases u) (auto simp: execute_raw_tool_def Let_def)
    qed
  qed
qed

lemma execute_tool_call_kept:
  assumes "plugins_keep part (pp_processor pe)" and "connector_keeps part conn" and "\<And>h c a. kept part (xe_native (pp_exec pe) h c a)"
  shows "kept part (execute_tool_call_with pe c t args conn rawBindings afterBindings)"
proof (rule keptI)
  fix s r s'
  assume run: "execute_tool_call_with pe c t args conn rawBindings afterBindings s = (r, s')"
  have exec: "part s1 = part s" if "execute (pp_exec pe) c t args conn s = (u, s1)" for u s1
    using that call_erp_response_kept [OF assms(2)] keptD [OF assms(3)]
    by (auto simp: execute_def Let_def split: option.splits prod.splits sum.splits)
  obtain u s1 where u: "execute_tool_with pe c t args conn rawBindings afterBindings s = (u, s1)" by (rule prod.exhaust)
  have "part s1 = part s"
  proof (cases "rawBindings = []")
    case False
    with u execute_raw_kept [OF assms(1,2)] show ?thesis by (simp add: execute_tool_with_def)
  next
    case True
    obtain v s2 where v: "execute (pp_exec pe) c t args conn s = (v, s2)" by (rule prod.exhaust)
    have "s1 = s2 \<or> (\<exists>result r. process_after_response_bindings pe t result afterBindings s2 = (r, s1))"
      using u True v by (auto simp: execute_tool_with_def split: sum.splits option.splits if_splits)
    with after_bindings_kept [OF assms(1)] exec [OF v] show ?thesis by metis
  qed
  with run u show "part s' = part s" by (cases u) (auto simp: execute_tool_call_with_def)
qed

lemma on_world_kept: "kept sr_concurrency (on_world f)"
  by (rule keptI) (auto simp: on_world_def split: prod.splits)

lemma authority_call_kept: "kept sr_concurrency (authority_call env t ep q body options)"
  by (rule keptI) (auto simp: authority_call_def authority_prepare_def authority_commit_def next_authority_event_def Let_def
      split: option.splits if_splits prod.splits)

lemma execute_tool_request_kept: "kept sr_concurrency (execute_tool_request env t c req)"
proof (rule keptI)
  fix s r s'
  assume run: "execute_tool_request env t c req s = (r, s')"
  have "kept sr_concurrency (\<lambda>s. authority_call env t ep q body options s)" for ep q body options by (rule authority_call_kept)
  then have conn: "connector_keeps sr_concurrency (authorized_erp_connector env t)"
    by (auto simp: connector_keeps_def authorized_erp_connector_def split: option.splits)
  have "plugins_keep sr_concurrency (pp_processor (server_pipeline env s))"
    by (auto simp: plugins_keep_def server_pipeline_def intro: on_world_kept)
  moreover have "kept sr_concurrency (xe_native (pp_exec (server_pipeline env s)) h c a)" for h c a
    by (simp add: server_pipeline_def on_world_kept)
  ultimately have call: "kept sr_concurrency (execute_tool_call_with (server_pipeline env s) c t args (authorized_erp_connector env t) rb ab)" for args rb ab
    by (intro execute_tool_call_kept conn)
  have "sr_concurrency s1 = sr_concurrency s" if "execute_tool_call env c t args s = (u, s1)" for args u s1
    by (rule keptD [OF call that [unfolded execute_tool_call_def]])
  with run show "sr_concurrency s' = sr_concurrency s"
    by (auto simp: execute_tool_request_def split: sum.splits prod.splits)
qed

text \<open>
  C37: every call settles. The middlewares of a tool around its execution return a result or an
  error and never panic, and the concurrency limiter accounts for exactly the calls it
  accounted for before: the slot of this call is given back. It is so however the execution
  ends: as the code has it, or with any other outcome in its place, such as a panic.
\<close>

theorem call_settles:
  assumes "apply_tool_middlewares env t (\<lambda>c req s. map_prod ends id (execute_tool_request env t c req s)) c req s = (out, s')"
    and "sr_concurrency s = Some m" and "conc_inv m running"
  shows "\<not> (\<exists>kind. out = Panicked kind) \<and> (\<exists>m'. sr_concurrency s' = Some m' \<and> conc_inv m' running)"
proof -
  let ?h = "\<lambda>c req s. map_prod ends id (execute_tool_request env t c req s)"
  have "keeps_running ?h"
    using execute_tool_request_kept [of env t] by (auto simp: keeps_running_def kept_def)
  from keeps_runningD [OF apply_middlewares_keeps [OF this] assms] 
  have "\<exists>m'. sr_concurrency s' = Some m' \<and> conc_inv m' running" .
  moreover have "\<not> (\<exists>kind. out = Panicked kind)"
    using assms(1) by (auto simp: apply_tool_middlewares_def recovery_middleware_def split: prod.splits outcome.splits)
  ultimately show ?thesis by blast
qed

definition limited_tool :: tool where
  "limited_tool = approved_tool\<lparr> tl_spec := (tl_spec approved_tool)\<lparr>
     ts_concurrency := Some \<lparr> tc_limit = 1, tc_per_principal = False \<rparr> \<rparr> \<rparr>"

text \<open>A call whose execution panics, with a limit of one.\<close>

theorem call_settles_witness:
  "\<exists>out s' m'. apply_tool_middlewares sample_env limited_tool
       (\<lambda>c req s. map_prod (\<lambda>_. Panicked ''runtime error'') id (execute_tool_request sample_env limited_tool c req s)) background_ctx
       \<lparr> rq_name = ''t'', rq_arguments = JNull, rq_digest = [] \<rparr> approved_server = (out, s') \<and>
     sr_concurrency s' = Some m' \<and> conc_inv m' [] \<and> \<not> (\<exists>kind. out = Panicked kind)"
proof -
  have m: "sr_concurrency approved_server = Some new_tool_concurrency_limiter"
    by (simp add: approved_server_def sample_server_def)
  have i: "conc_inv new_tool_concurrency_limiter []"
    by (simp add: conc_inv_def new_tool_concurrency_limiter_def max_limiter_entries_def)
  from call_settles [OF surjective_pairing m i] show ?thesis by (metis prod.collapse)
qed

subsection \<open>Effects only with authority\<close>

text \<open>
  A middleware passes effects through when it changes the world only by running the inner
  handler, for the same identity and on the same registry.
\<close>

definition passes_effects :: "('w, 'b, 'l) server_handler \<Rightarrow> ('w, 'b, 'l) server_handler \<Rightarrow> bool" where
  "passes_effects outer inner \<longleftrightarrow> (\<forall>c req s. sr_world (snd (outer c req s)) \<noteq> sr_world s \<longrightarrow>
     (\<exists>c' req' s1. cx_identity c' = cx_identity c \<and> sr_registry s1 = sr_registry s \<and> sr_world s1 = sr_world s \<and>
        sr_world (snd (inner c' req' s1)) \<noteq> sr_world s1))"

lemma passes_effectsI:
  assumes "\<And>c req s out s'. outer c req s = (out, s') \<Longrightarrow> sr_world s' = sr_world s \<or>
     (\<exists>c' req' s1 out1 s2. cx_identity c' = cx_identity c \<and> sr_registry s1 = sr_registry s \<and> sr_world s1 = sr_world s \<and>
        inner c' req' s1 = (out1, s2) \<and> sr_world s' = sr_world s2)"
  shows "passes_effects outer inner"
  unfolding passes_effects_def
proof (intro allI impI)
  fix c req s
  assume w: "sr_world (snd (outer c req s)) \<noteq> sr_world s"
  from assms [OF surjective_pairing] w obtain c' req' s1 out1 s2 where
    "cx_identity c' = cx_identity c" "sr_registry s1 = sr_registry s" "sr_world s1 = sr_world s"
    "inner c' req' s1 = (out1, s2)" "sr_world (snd (outer c req s)) = sr_world s2" by blast
  with w show "\<exists>c' req' s1. cx_identity c' = cx_identity c \<and> sr_registry s1 = sr_registry s \<and> sr_world s1 = sr_world s \<and>
      sr_world (snd (inner c' req' s1)) \<noteq> sr_world s1" by (metis snd_conv)
qed

lemma passes_effects_trans:
  assumes "passes_effects a b" and "passes_effects b c" shows "passes_effects a c"
  using assms unfolding passes_effects_def by metis

lemma recovery_passes: "passes_effects (recovery_middleware h) h"
  by (rule passes_effectsI) (fastforce simp: recovery_middleware_def split: prod.splits outcome.splits)

lemma rate_limit_passes:
  assumes "\<And>m s. sr_world (put m s) = sr_world s \<and> sr_registry (put m s) = sr_registry s"
  shows "passes_effects (rate_limit_handle ops get put h) h"
proof (rule passes_effectsI)
  fix c req s out s'
  assume run: "rate_limit_handle ops get put h c req s = (out, s')"
  obtain d g where d: "rate_decision ops (sr_now s) (execution_principal c) (get s) = (d, g)"
    by (cases "rate_decision ops (sr_now s) (execution_principal c) (get s)")
  show "sr_world s' = sr_world s \<or>
     (\<exists>c' req' s1 out1 s2. cx_identity c' = cx_identity c \<and> sr_registry s1 = sr_registry s \<and> sr_world s1 = sr_world s \<and>
        h c' req' s1 = (out1, s2) \<and> sr_world s' = sr_world s2)"
  proof (cases d)
    case None
    with run d have "h c req (put g s) = (out, s')" by (simp add: rate_limit_handle_def)
    with assms show ?thesis by blast
  next
    case (Some delay)
    with run d assms show ?thesis by (auto simp: rate_limit_handle_def)
  qed
qed

lemma cache_passes: "passes_effects (cache_middleware env t h) h"
proof (rule passes_effectsI)
  fix c req s out s'
  assume "cache_middleware env t h c req s = (out, s')"
  from cache_middleware_shape [OF this] show "sr_world s' = sr_world s \<or>
     (\<exists>c' req' s1 out1 s2. cx_identity c' = cx_identity c \<and> sr_registry s1 = sr_registry s \<and> sr_world s1 = sr_world s \<and>
        h c' req' s1 = (out1, s2) \<and> sr_world s' = sr_world s2)"
    by (elim disjE exE conjE) (metis cache_onlyD)+
qed

lemma concurrency_passes: "passes_effects (concurrency_middleware t h) h"
proof (rule passes_effectsI)
  fix c req s out s'
  assume run: "concurrency_middleware t h c req s = (out, s')"
  show "sr_world s' = sr_world s \<or>
     (\<exists>c' req' s1 out1 s2. cx_identity c' = cx_identity c \<and> sr_registry s1 = sr_registry s \<and> sr_world s1 = sr_world s \<and>
        h c' req' s1 = (out1, s2) \<and> sr_world s' = sr_world s2)"
  proof (cases "ts_concurrency (tl_spec t)")
    case None
    with run have "h c req s = (out, s')" by (simp add: concurrency_middleware_def)
    then show ?thesis by blast
  next
    case (Some config)
    obtain r m where acq: "acquire (sr_now s) (tool_name t) (execution_principal c) config (sr_concurrency s) = (r, m)"
      by (cases "acquire (sr_now s) (tool_name t) (execution_principal c) config (sr_concurrency s)")
    obtain out1 s2 where h: "h c req (s\<lparr> sr_concurrency := m \<rparr>) = (out1, s2)"
      by (cases "h c req (s\<lparr> sr_concurrency := m \<rparr>)")
    from run Some acq h have "sr_world s' = sr_world s \<or> sr_world s' = sr_world s2"
      by (cases r) (auto simp: concurrency_middleware_def)
    then show ?thesis
    proof
      assume "sr_world s' = sr_world s2"
      with h show ?thesis by (intro disjI2 exI [of _ c] exI [of _ req] exI [of _ "s\<lparr> sr_concurrency := m \<rparr>"]) auto
    qed simp
  qed
qed

lemmas middleware_passes = recovery_passes rate_limit_passes cache_passes concurrency_passes

lemma passes_refl: "passes_effects h h"
  by (rule passes_effectsI) blast

lemma outer_passes:
  "passes_effects (recovery_middleware (global_rate_limit env (tool_rate_limit_middleware env t h))) h"
proof -
  have "passes_effects (global_rate_limit env k) k" for k
    unfolding global_rate_limit_def by (rule rate_limit_passes) simp
  moreover have "passes_effects (tool_rate_limit_middleware env t h) h"
    unfolding tool_rate_limit_middleware_def
    by (cases "ts_rate_limit (tl_spec t)") (auto intro: passes_refl rate_limit_passes)
  ultimately show ?thesis using recovery_passes passes_effects_trans by blast
qed

definition role_authorized :: "tool \<Rightarrow> ctx \<Rightarrow> bool" where
  "role_authorized t c \<longleftrightarrow> tool_roles t = [] \<or>
     (\<exists>identity role. cx_identity c = Some identity \<and> id_principal identity \<noteq> [] \<and>
        role \<in> set (id_roles identity) \<inter> set (tool_roles t))"

lemma role_authz_effect:
  assumes "sr_world (snd (role_authz_middleware t h c req s)) \<noteq> sr_world s"
  shows "role_authorized t c"
proof (cases "tool_roles t = []")
  case False
  from role_authz_runs_or_refuses [OF False, of h c req s] assms
  obtain role c' where "authorize_role c t role = Inr c'" by auto
  then show ?thesis
    by (auto simp: role_authorized_def authorize_role_def split: option.splits if_splits)
qed (simp add: role_authorized_def)

lemma middlewares_effect:
  assumes "sr_world (snd (apply_tool_middlewares env t h c req s)) \<noteq> sr_world s"
  shows "role_authorized t c"
proof -
  let ?inner = "role_authz_middleware t (cache_middleware env t (concurrency_middleware t h))"
  obtain c' req' s1 where "cx_identity c' = cx_identity c" "sr_world (snd (?inner c' req' s1)) \<noteq> sr_world s1"
    using outer_passes [of env t ?inner] assms unfolding apply_tool_middlewares_def passes_effects_def by blast
  then have "role_authorized t c'" by (intro role_authz_effect)
  with \<open>cx_identity c' = cx_identity c\<close> show ?thesis by (simp add: role_authorized_def)
qed

lemma resolve_digest_digest: "resolve_digest name d r = Inr t \<Longrightarrow> tool_digest t = d \<and> tool_active t"
  by (auto simp: resolve_digest_def dest!: find_SomeD split: option.splits if_splits)

text \<open>
  C1: a tool call reaches the world only with authority. When a \<open>tools/call\<close> changes anything
  outside the server - through the ERP, a native handler or a plugin - it was resolved to a
  tool of the registry: by a handler of an exact revision to that revision; by the handler of
  an unqualified name to the active tool with exactly the digest that the call pinned, and to
  the serving one when it pinned none. Its arguments satisfied that revision's schema; and if
  the tool is guarded, the verified identity of the caller holds a role that the tool allows.
\<close>

theorem tool_call_effect_authorized:
  assumes "handle_mcp_tool_revision_call env name version True c req s = (out, s')"
    and "sr_world s' \<noteq> sr_world s"
  shows "\<exists>t args.
     (version \<noteq> [] \<longrightarrow> resolve (ne_semver env) name version (sr_registry s) = Inr t) \<and>
     (version = [] \<and> rq_digest req \<noteq> [] \<longrightarrow> resolve_digest name (rq_digest req) (sr_registry s) = Inr t \<and>
        tool_digest t = rq_digest req \<and> tool_active t) \<and>
     (version = [] \<and> rq_digest req = [] \<longrightarrow> resolve (ne_semver env) name [] (sr_registry s) = Inr t) \<and>
     tool_arguments req = Inr args \<and> validate_tool_arguments (ne_args_schema env) t args = None \<and>
     role_authorized t c"
proof -
  obtain t where t: "resolve_call (ne_semver env) name version req (sr_registry s) = Inr t"
    using assms by (auto simp: handle_mcp_tool_revision_call_def split: sum.splits)
  obtain args where args: "tool_arguments req = Inr args"
    using assms t by (auto simp: handle_mcp_tool_revision_call_def split: sum.splits)
  have valid: "validate_tool_arguments (ne_args_schema env) t args = None"
    using assms t args by (auto simp: handle_mcp_tool_revision_call_def split: option.splits)
  have "s' = snd (apply_tool_middlewares env t (execute_tool_request env t) c req s)"
    using assms(1) t args valid by (auto simp: handle_mcp_tool_revision_call_def split: prod.splits)
  with middlewares_effect assms(2) have "role_authorized t c" by blast
  moreover have "version \<noteq> [] \<Longrightarrow> resolve (ne_semver env) name version (sr_registry s) = Inr t"
    "version = [] \<Longrightarrow> rq_digest req \<noteq> [] \<Longrightarrow> resolve_digest name (rq_digest req) (sr_registry s) = Inr t"
    "version = [] \<Longrightarrow> rq_digest req = [] \<Longrightarrow> resolve (ne_semver env) name [] (sr_registry s) = Inr t"
    using t by (simp_all add: resolve_call_def)
  ultimately show ?thesis using args valid resolve_digest_digest by blast
qed

text \<open>A call that pins the digest.\<close>

definition pinned_server :: "(nat, payload memory_backend, timestamp) server" where
  "pinned_server = sample_server (snd (registry_add any_semver True (set_admission ''d'' None approved_tool) new_tool_registry))"

theorem tool_call_effect_authorized_witness:
  "\<exists>t. resolve_digest ''t'' ''d'' (sr_registry pinned_server) = Inr t \<and> tool_digest t = ''d'' \<and> role_authorized t background_ctx"
proof -
  let ?req = "\<lparr> rq_name = ''t'', rq_arguments = JNull, rq_digest = ''d'' \<rparr>"
  let ?run = "handle_mcp_tool_revision_call sample_env ''t'' [] True background_ctx ?req pinned_server"
  have "sr_world (snd ?run) = 1" by code_simp
  then have "sr_world (snd ?run) \<noteq> sr_world pinned_server" by (simp add: pinned_server_def sample_server_def)
  from tool_call_effect_authorized [OF surjective_pairing this] show ?thesis by (auto simp: sample_env_def)
qed

subsection \<open>Results that may be stale are not cached\<close>

text \<open>
  C38: no stale result is cached. When a plugin, a binding or a tool changed while a call was
  running, so that the lifecycle generation is another one, or when the call depends on a
  credential kept in a file, the result is not written to the cache: the cache is what the
  call itself left, except for entries that the tool's flush list removes.
\<close>

theorem stale_result_not_cached:
  assumes "cache_middleware env t handler c req s = (out, s')"
    and "cache_bypassed_for_credential t (sr_plugins s) \<or> sr_generation s' \<noteq> sr_generation s"
  shows "\<exists>s1 s2. cache_only s s1 \<and> handler c req s1 = (out, s2) \<and>
     (sr_cache s' = sr_cache s2 \<or>
      (\<exists>be cfg. ne_cache env = Some be \<and> ts_cache (tl_spec t) = Some cfg \<and>
         sr_cache s' = auto_flush be (cc_flush_on cfg) (sr_cache s2)))"
proof (cases "\<exists>be cfg. ne_cache env = Some be \<and> ts_cache (tl_spec t) = Some cfg \<and>
    \<not> cache_bypassed_for_credential t (sr_plugins s)")
  case False
  then have "handler c req s = (out, s')" using assms(1) by (auto simp: cache_middleware_def split: option.splits if_splits)
  then show ?thesis by blast
next
  case True
  then obtain be cfg where on: "ne_cache env = Some be" "ts_cache (tl_spec t) = Some cfg"
      "\<not> cache_bypassed_for_credential t (sr_plugins s)" by blast
  with assms(2) have gen: "sr_generation s' \<noteq> sr_generation s" by simp
  obtain cached s1 where look: "cache_lookup env be cfg t c req s = (cached, s1)" by (cases "cache_lookup env be cfg t c req s")
  obtain out1 s2 where h: "handler c req s1 = (out1, s2)" by (cases "handler c req s1")
  let ?g = "if cc_enabled cfg then sr_generation s else 0"
  have miss: "cached = None"
    using assms(1) on look gen cache_onlyD [OF cache_lookup_only [OF look]]
    by (cases cached) (auto simp: cache_middleware_def Let_def)
  have "out = out1 \<and> (s' = s2 \<or> (\<exists>r. s' = cache_auto_flush be cfg (cache_store env be cfg ?g t c req r s2)))"
    using assms(1) on look h miss
    by (auto simp: cache_middleware_def Let_def split: option.splits outcome.splits if_splits)
  moreover have "sr_cache s' = sr_cache s2 \<or> sr_cache s' = auto_flush be (cc_flush_on cfg) (sr_cache s2)"
    if "s' = cache_auto_flush be cfg (cache_store env be cfg ?g t c req r s2)" for r
  proof -
    have "sr_generation s2 = sr_generation s'" using cache_onlyD [OF cache_store_only] that by metis
    with gen have "cache_store env be cfg ?g t c req r s2 = s2"
      by (auto simp: cache_store_def split: option.split)
    with that show ?thesis by (simp add: cache_auto_flush_def)
  qed
  ultimately show ?thesis using cache_lookup_only [OF look] h on by blast
qed

definition cached_tool :: tool where
  "cached_tool = approved_tool\<lparr> tl_spec := (tl_spec approved_tool)\<lparr> ts_cache :=
     Some \<lparr> cc_enabled = True, cc_ttl_seconds = 60, cc_is_read_only = False, cc_flush_on = [] \<rparr> \<rparr> \<rparr>"

definition plain_result :: "string \<Rightarrow> call_result" where
  "plain_result text = \<lparr> cr_is_error = False, cr_text = text, cr_structured = None, cr_meta = None \<rparr>"

text \<open>The same call twice: with the generation unchanged its result is cached, otherwise not.\<close>

theorem stale_result_not_cached_witness:
  "\<exists>req out s1 s2 s3. length (mb_items (sr_cache (snd (cache_middleware sample_env cached_tool
         (\<lambda>c req s. (Returned (Some (plain_result ''r'')), s)) background_ctx req approved_server)))) = 1 \<and>
     cache_middleware sample_env cached_tool (\<lambda>c req s. (Returned (Some (plain_result ''r'')),
         s\<lparr> sr_generation := sr_generation s + 1 \<rparr>)) background_ctx req approved_server = (out, s1) \<and>
     mb_items (sr_cache s1) = [] \<and> cache_only approved_server s2 \<and> sr_cache s1 = sr_cache s3 \<and>
     s3 = s2\<lparr> sr_generation := sr_generation s2 + 1 \<rparr>"
proof -
  let ?req = "\<lparr> rq_name = ''t'', rq_arguments = JNull, rq_digest = [] \<rparr>"
  let ?fill = "\<lambda>c req s. (Returned (Some (plain_result ''r'')), s) :: outcome \<times> (nat, payload memory_backend, timestamp) server"
  let ?bump = "\<lambda>c req s. (Returned (Some (plain_result ''r'')), s\<lparr> sr_generation := sr_generation s + 1 \<rparr>)
     :: outcome \<times> (nat, payload memory_backend, timestamp) server"
  let ?run = "cache_middleware sample_env cached_tool ?bump background_ctx ?req approved_server"
  have one: "length (mb_items (sr_cache (snd (cache_middleware sample_env cached_tool ?fill background_ctx ?req approved_server)))) = 1"
    by code_simp
  have empty: "mb_items (sr_cache (snd ?run)) = []" by code_simp
  have "sr_generation (snd ?run) = 1" "sr_generation approved_server = 0" by code_simp+
  then have "sr_generation (snd ?run) \<noteq> sr_generation approved_server" by simp
  from stale_result_not_cached [OF surjective_pairing disjI2 [OF this]] obtain s2 s3 where
    only: "cache_only approved_server s2" and bump: "?bump background_ctx ?req s2 = (fst ?run, s3)"
    and "sr_cache (snd ?run) = sr_cache s3 \<or> (\<exists>be cfg. ne_cache sample_env = Some be \<and>
       ts_cache (tl_spec cached_tool) = Some cfg \<and> sr_cache (snd ?run) = auto_flush be (cc_flush_on cfg) (sr_cache s3))"
    by blast
  then have same: "sr_cache (snd ?run) = sr_cache s3" by (auto simp: cached_tool_def)
  from bump have s3: "s3 = s2\<lparr> sr_generation := sr_generation s2 + 1 \<rparr>" by simp
  show ?thesis
    by (intro exI conjI, rule one, rule surjective_pairing, rule empty, rule only, rule same, rule s3)
qed

end
