(* ===== verification/Reconcile.thy ===== *)
theory Reconcile
  imports Call_Safety
begin

text \<open>
  The reconciliation of internal/mcp/server.go and reconciliation_status.go: bringing the
  runtime registry, the published tools and the plugin bindings to the state that the store
  holds. A whole attempt runs under \<open>pluginLifecycleMu\<close>, so it is one step.
\<close>

subsection \<open>Invalidation of the tools that bindings target\<close>

text \<open>
  The distinct tool names of the given bindings. The source collects them in a map and
  visits it in no particular order; here they are visited in the order of first mention.
\<close>

definition binding_targets :: "plugin_binding option list \<Rightarrow> string list" where
  "binding_targets bs = remdups (List.map_filter (\<lambda>b. case b of
       None \<Rightarrow> None
     | Some b \<Rightarrow> if rf_name (bs_tool_ref (pb_spec b)) = [] then None else Some (rf_name (bs_tool_ref (pb_spec b)))) bs)"

text \<open>Every target is flushed; the first error is the result.\<close>

fun flush_targets :: "'b backend \<Rightarrow> string list \<Rightarrow> cache_err option \<Rightarrow> 'b \<Rightarrow> cache_err option \<times> 'b" where
  "flush_targets be [] first_err b = (first_err, b)"
| "flush_targets be (toolName # rest) first_err b = (case flush_tool_internal be toolName b of
       (Inr _, b') \<Rightarrow> flush_targets be rest first_err b'
     | (Inl e, b') \<Rightarrow> flush_targets be rest (case first_err of None \<Rightarrow> Some e | e0 \<Rightarrow> e0) b')"

definition flush_plugin_binding_targets ::
  "'b backend option \<Rightarrow> plugin_binding option list \<Rightarrow> ('w, 'b, 'l) server \<Rightarrow> cache_err option \<times> ('w, 'b, 'l) server" where
  "flush_plugin_binding_targets cache bindings s = (case cache of
       None \<Rightarrow> (None, s)
     | Some be \<Rightarrow> (case flush_targets be (binding_targets bindings) None (sr_cache s) of
           (err, b) \<Rightarrow> (err, s\<lparr> sr_cache := b \<rparr>)))"

subsection \<open>One attempt\<close>

datatype reconcile_err =
    StateHashFailed store_err
  | ListFailed store_err
  | InvalidateFailed cache_err
  | RegisterFailed string string register_err

text \<open>Whether the registry does not show the desired revision yet.\<close>

definition needs_registration :: "('v, 'c) semver \<Rightarrow> tool \<Rightarrow> registry \<Rightarrow> bool" where
  "needs_registration sv dt r = (case resolve sv (tool_name dt) (tool_version dt) r of
       Inl _ \<Rightarrow> True
     | Inr existing \<Rightarrow> tool_digest existing \<noteq> tool_digest dt \<or> tool_serving existing \<noteq> tool_serving dt)"

fun register_desired ::
  "('w, 'b, 'l, 'r, 'v, 'c) server_env \<Rightarrow> tool list \<Rightarrow> ('w, 'b, 'l) server \<Rightarrow> reconcile_err option \<times> ('w, 'b, 'l) server" where
  "register_desired env [] s = (None, s)"
| "register_desired env (dt # rest) s =
     (if \<not> tool_active dt \<or> \<not> needs_registration (ne_semver env) dt (sr_registry s) then register_desired env rest s
      else case register_tool env False dt s of
        (Some e, s') \<Rightarrow> (Some (RegisterFailed (tool_name dt) (tool_version dt) e), s')
      | (None, s') \<Rightarrow> register_desired env rest s')"

definition desired_keys :: "tool list \<Rightarrow> string list" where
  "desired_keys ts = map tool_resource_key (filter tool_active ts)"

fun deregister_stale ::
  "('w, 'b, 'l, 'r, 'v, 'c) server_env \<Rightarrow> string list \<Rightarrow> tool list \<Rightarrow> ('w, 'b, 'l) server \<Rightarrow> ('w, 'b, 'l) server" where
  "deregister_stale env keys [] s = s"
| "deregister_stale env keys (actual # rest) s =
     deregister_stale env keys rest
       (if md_module (tl_metadata actual) = ''system'' \<or> tool_resource_key actual \<in> set keys then s
        else deregister_tool env (tool_name actual) (tool_version actual) s)"

definition desired_state :: "store \<Rightarrow> store_err + tool list \<times> plugin list \<times> plugin_binding list" where
  "desired_state st = (case list_tools st of
       Inl e \<Rightarrow> Inl e
     | Inr ts \<Rightarrow> (case list_plugins st of
         Inl e \<Rightarrow> Inl e
       | Inr ps \<Rightarrow> (case list_plugin_bindings st of Inl e \<Rightarrow> Inl e | Inr bs \<Rightarrow> Inr (ts, ps, bs))))"

text \<open>
  The changes, once the desired state is read. A failure after the generation has been
  advanced leaves the hash as it was, so that the next attempt starts over.
\<close>

definition apply_desired_state ::
  "('w, 'b, 'l, 'r, 'v, 'c) server_env \<Rightarrow> string \<Rightarrow> tool list \<times> plugin list \<times> plugin_binding list \<Rightarrow>
     ('w, 'b, 'l) server \<Rightarrow> reconcile_err option \<times> ('w, 'b, 'l) server" where
  "apply_desired_state env currentHash desired s = (case desired of (ts, ps, bs) \<Rightarrow>
     let plugins = (case sr_plugins s of None \<Rightarrow> new_plugin_registry | p \<Rightarrow> p);
         snapshot = build_plugin_binding_snapshot (ne_admission env) ps bs ts;
         s1 = s\<lparr> sr_plugins := plugins, sr_generation := sr_generation s + 1 \<rparr>
     in case flush_plugin_binding_targets (ne_cache env)
            (snapshot_bindings plugins @ snapshot_bindings (Some snapshot)) s1 of
          (Some e, s2) \<Rightarrow> (Some (InvalidateFailed e), s2)
        | (None, s2) \<Rightarrow>
            (case register_desired env ts (s2\<lparr> sr_plugins := plugin_registry_replace snapshot plugins \<rparr>) of
               (Some e, s3) \<Rightarrow> (Some e, s3)
             | (None, s3) \<Rightarrow>
                 (None, (deregister_stale env (desired_keys ts) (list_active (sr_registry s3)) s3)
                    \<lparr> sr_last_hash := currentHash \<rparr>)))"

definition reconcile_locked ::
  "('w, 'b, 'l, 'r, 'v, 'c) server_env \<Rightarrow> ('w, 'b, 'l) server \<Rightarrow> reconcile_err option \<times> ('w, 'b, 'l) server" where
  "reconcile_locked env s = (case sr_store s of
       None \<Rightarrow> (None, s)
     | Some st \<Rightarrow> (case get_state_hash (ne_state_hash env) st of
         Inl e \<Rightarrow> (Some (StateHashFailed e), s)
       | Inr currentHash \<Rightarrow>
           if currentHash = sr_last_hash s then (None, s)
           else (case desired_state st of
               Inl e \<Rightarrow> (Some (ListFailed e), s)
             | Inr desired \<Rightarrow> apply_desired_state env currentHash desired s)))"

definition record_reconciliation_failure :: "reconciliation_status \<Rightarrow> reconciliation_status" where
  "record_reconciliation_failure st =
     st\<lparr> rs_last_error := ''reconciliation attempt failed'', rs_converged := False \<rparr>"

definition run_reconciliation_attempt ::
  "('w, 'b, 'l, 'r, 'v, 'c) server_env \<Rightarrow> ('w, 'b, 'l) server \<Rightarrow> reconcile_err option \<times> ('w, 'b, 'l) server" where
  "run_reconciliation_attempt env s =
     (let s0 = s\<lparr> sr_status := (sr_status s)\<lparr> rs_attempt_count := rs_attempt_count (sr_status s) + 1,
                                             rs_last_attempt := sr_now s \<rparr> \<rparr>
      in case reconcile_locked env s0 of
           (Some e, s1) \<Rightarrow> (Some e, s1\<lparr> sr_status := record_reconciliation_failure (sr_status s1) \<rparr>)
         | (None, s1) \<Rightarrow> (None, s1\<lparr> sr_status := (sr_status s1)\<lparr>
               rs_last_success := sr_now s1, rs_last_error := [], rs_desired_state_hash := sr_last_hash s1,
               rs_observed_generation := sr_generation s1, rs_converged := True \<rparr> \<rparr>))"

subsection \<open>What a registration does to the registry\<close>

text \<open>The registry shows the desired revision: active, with its digest and its serving flag.\<close>

definition mirrors :: "registry \<Rightarrow> tool \<Rightarrow> bool" where
  "mirrors r dt \<longleftrightarrow> (\<exists>u. revision_at r (tool_name dt) (tool_version dt) = Some u \<and> tool_active u \<and>
     tool_digest u = tool_digest dt \<and> tool_serving u = tool_serving dt)"

lemma revision_at_unset [simp]: "revision_at (r\<lparr> reg_serving := x \<rparr>) = revision_at r"
  by (simp add: revision_at_def fun_eq_iff)

lemma registry_add_explicit_effect:
  assumes "registry_add sv False t r = (None, r')"
  shows "\<exists>u. revision_at r' (tool_name t) (tool_version t) = Some u \<and> tool_active u = tool_active t \<and>
       tool_digest u = tool_digest t \<and> tool_serving u = tool_serving t"
    and "(m, w) \<noteq> (tool_name t, tool_version t) \<Longrightarrow> revision_at r' m w =
       (if m = tool_name t \<and> tool_serving t then map_option (set_serving_flag False) (revision_at r m w)
        else revision_at r m w)"
proof -
  have sv: "sv_new sv (tool_version t) \<noteq> None" using assms by (cases "sv_new sv (tool_version t)") (simp_all add: registry_add_def Let_def)
  note add = assms [unfolded registry_add_put [OF sv]]
  show "\<exists>u. revision_at r' (tool_name t) (tool_version t) = Some u \<and> tool_active u = tool_active t \<and>
       tool_digest u = tool_digest t \<and> tool_serving u = tool_serving t"
    using add by (auto simp: set_serving_revision(1) revision_at_put split: if_splits)
  show "revision_at r' m w =
       (if m = tool_name t \<and> tool_serving t then map_option (set_serving_flag False) (revision_at r m w)
        else revision_at r m w)" if "(m, w) \<noteq> (tool_name t, tool_version t)"
    using add that by (auto simp: set_serving_revision(1) revision_at_put split: if_splits)
qed

lemma register_tool_added:
  assumes "register_tool env dflt t s = (None, s')"
  shows "\<exists>t2. tool_name t2 = tool_name t \<and> tool_version t2 = tool_version t \<and> tool_digest t2 = tool_digest t \<and>
     tool_serving t2 = tool_serving t \<and> tool_active t2 \<and>
     registry_add (ne_semver env) dflt t2 (sr_registry s) = (None, sr_registry s')"
proof -
  obtain t1 where t1: "validate_tool (ne_base_url env) t = Inr t1"
    "registry_add (ne_semver env) dflt (set_active_flag True t1) (sr_registry s) = (None, sr_registry s')"
    using assms by (auto simp: register_tool_def Let_def split: sum.splits prod.splits option.splits)
  then show ?thesis by (intro exI [of _ "set_active_flag True t1"]) simp
qed

text \<open>Digests tell the revisions of a name apart, among the desired and the registered ones.\<close>

definition digests_separate :: "tool list \<Rightarrow> registry \<Rightarrow> bool" where
  "digests_separate ts r \<longleftrightarrow>
     (\<forall>dt \<in> set ts. tool_active dt \<longrightarrow> (\<forall>w u. revision_at r (tool_name dt) w = Some u \<and>
        tool_digest u = tool_digest dt \<longrightarrow> w = tool_version dt)) \<and>
     (\<forall>dt \<in> set ts. \<forall>dt' \<in> set ts. tool_active dt \<and> tool_active dt' \<and> tool_name dt = tool_name dt' \<and>
        tool_digest dt = tool_digest dt' \<longrightarrow> tool_version dt = tool_version dt')"

lemma digests_separateD:
  "digests_separate ts r \<Longrightarrow> dt \<in> set ts \<Longrightarrow> tool_active dt \<Longrightarrow> revision_at r (tool_name dt) w = Some u \<Longrightarrow>
     tool_digest u = tool_digest dt \<Longrightarrow> w = tool_version dt"
  "digests_separate ts r \<Longrightarrow> dt \<in> set ts \<Longrightarrow> dt' \<in> set ts \<Longrightarrow> tool_active dt \<Longrightarrow> tool_active dt' \<Longrightarrow>
     tool_name dt = tool_name dt' \<Longrightarrow> tool_digest dt = tool_digest dt' \<Longrightarrow> tool_version dt = tool_version dt'"
  unfolding digests_separate_def by blast+

text \<open>The desired tools: their keys are unique and one of a name serves.\<close>

definition desired_ok :: "tool list \<Rightarrow> bool" where
  "desired_ok ts \<longleftrightarrow> (\<forall>t \<in> set ts. \<forall>u \<in> set ts.
     (tool_name t = tool_name u \<and> tool_version t = tool_version u \<longrightarrow> t = u) \<and>
     (tool_name t = tool_name u \<and> tool_serving t \<and> tool_serving u \<longrightarrow> tool_version t = tool_version u))"

lemma desired_okD:
  "desired_ok ts \<Longrightarrow> t \<in> set ts \<Longrightarrow> u \<in> set ts \<Longrightarrow> tool_name t = tool_name u \<Longrightarrow> tool_version t = tool_version u \<Longrightarrow> t = u"
  "desired_ok ts \<Longrightarrow> t \<in> set ts \<Longrightarrow> u \<in> set ts \<Longrightarrow> tool_name t = tool_name u \<Longrightarrow> tool_serving t \<Longrightarrow> tool_serving u \<Longrightarrow>
     tool_version t = tool_version u"
  unfolding desired_ok_def by blast+

lemma mirrors_if_up_to_date:
  assumes "registry_inv sv r" and "digests_separate ts r" and "dt \<in> set ts" and "tool_active dt"
    and "\<not> needs_registration sv dt r"
  shows "mirrors r dt"
proof -
  obtain t where t: "resolve sv (tool_name dt) (tool_version dt) r = Inr t" "tool_digest t = tool_digest dt"
      "tool_serving t = tool_serving dt"
    using assms(5) by (auto simp: needs_registration_def split: sum.splits)
  from resolve_active [OF t(1)] registry_invD(3) [OF assms(1)] obtain v u where
    "tool_active t" "revision_at r (tool_name dt) v = Some u" "t = clone_tool u" by auto
  with t digests_separateD(1) [OF assms(2-4)] show ?thesis by (auto simp: mirrors_def)
qed

lemma registration_mirrors:
  assumes "registry_add sv False t r = (None, r')" and "tool_active t"
    and "tool_name t = tool_name dt" "tool_version t = tool_version dt" "tool_digest t = tool_digest dt"
      "tool_serving t = tool_serving dt"
  shows "mirrors r' dt"
  using registry_add_explicit_effect(1) [OF assms(1)] assms(2-6) by (auto simp: mirrors_def)

lemma registration_keeps_mirrors:
  assumes "registry_add sv False t r = (None, r')" and "mirrors r dt'"
    and "(tool_name dt', tool_version dt') \<noteq> (tool_name t, tool_version t)"
    and "tool_name dt' = tool_name t \<Longrightarrow> tool_serving t \<Longrightarrow> \<not> tool_serving dt'"
  shows "mirrors r' dt'"
  using registry_add_explicit_effect(2) [OF assms(1,3)] assms(2,4)
  by (auto simp: mirrors_def)

lemma registration_keeps_separate:
  assumes "registry_add sv False t r = (None, r')" and "digests_separate ts r" and "dt \<in> set ts" "tool_active dt"
    and "tool_name t = tool_name dt" "tool_version t = tool_version dt" "tool_digest t = tool_digest dt"
  shows "digests_separate ts r'"
proof -
  have "w = tool_version dt'" if dt': "dt' \<in> set ts" "tool_active dt'" and
    u: "revision_at r' (tool_name dt') w = Some u" "tool_digest u = tool_digest dt'" for dt' w u
  proof (cases "(tool_name dt', w) = (tool_name t, tool_version t)")
    case True
    with registry_add_explicit_effect(1) [OF assms(1)] u have "tool_digest dt = tool_digest dt'" using assms(7) by auto
    with True digests_separateD(2) [OF assms(2,3) dt'(1) assms(4) dt'(2)] assms(5,6) show ?thesis by simp
  next
    case False
    from registry_add_explicit_effect(2) [OF assms(1) False] u obtain u0 where
      "revision_at r (tool_name dt') w = Some u0" "tool_digest u0 = tool_digest dt'"
      by (cases "revision_at r (tool_name dt') w") (auto split: if_splits)
    with digests_separateD(1) [OF assms(2) dt'] show ?thesis by blast
  qed
  with assms(2) show ?thesis unfolding digests_separate_def by blast
qed

lemma register_desired_mirrors:
  assumes "register_desired env ts s = (None, s')" and "set ts \<subseteq> set all"
    and "registry_inv (ne_semver env) (sr_registry s)" and "digests_separate all (sr_registry s)" and "desired_ok all"
    and "\<And>dt. dt \<in> set all \<Longrightarrow> tool_active dt \<Longrightarrow> mirrors (sr_registry s) dt \<or> dt \<in> set ts"
  shows "registry_inv (ne_semver env) (sr_registry s') \<and> (\<forall>dt \<in> set all. tool_active dt \<longrightarrow> mirrors (sr_registry s') dt)"
  using assms
proof (induction ts arbitrary: s)
  case (Cons dt rest)
  have dt: "dt \<in> set all" and sub: "set rest \<subseteq> set all" using Cons.prems(2) by auto
  show ?case
  proof (cases "tool_active dt \<and> needs_registration (ne_semver env) dt (sr_registry s)")
    case False
    with Cons.prems(1) have run: "register_desired env rest s = (None, s')" by auto
    have "mirrors (sr_registry s) d \<or> d \<in> set rest" if "d \<in> set all" "tool_active d" for d
      using Cons.prems(6) [OF that] mirrors_if_up_to_date [OF Cons.prems(3,4) dt] False that(2) by auto
    from Cons.IH [OF run sub Cons.prems(3-5) this] show ?thesis .
  next
    case True
    then obtain s1 where reg: "register_tool env False dt s = (None, s1)" and run: "register_desired env rest s1 = (None, s')"
      using Cons.prems(1) by (auto split: prod.splits option.splits)
    from register_tool_added [OF reg] obtain t2 where t2: "tool_name t2 = tool_name dt" "tool_version t2 = tool_version dt"
      "tool_digest t2 = tool_digest dt" "tool_serving t2 = tool_serving dt" "tool_active t2"
      and add: "registry_add (ne_semver env) False t2 (sr_registry s) = (None, sr_registry s1)" by blast
    have inv: "registry_inv (ne_semver env) (sr_registry s1)" by (rule registry_add_inv [OF Cons.prems(3) add])
    have sep: "digests_separate all (sr_registry s1)"
      using registration_keeps_separate [OF add Cons.prems(4) dt] True t2 by blast
    have "mirrors (sr_registry s1) d \<or> d \<in> set rest" if d: "d \<in> set all" "tool_active d" for d
    proof (cases "(tool_name d, tool_version d) = (tool_name t2, tool_version t2)")
      case True
      with desired_okD(1) [OF Cons.prems(5) d(1) dt] t2 have "d = dt" by simp
      with registration_mirrors [OF add t2(5)] t2 show ?thesis by simp
    next
      case False
      have "\<not> tool_serving d" if "tool_name d = tool_name t2" "tool_serving t2"
        using desired_okD(2) [OF Cons.prems(5) d(1) dt] that False t2 by auto
      with registration_keeps_mirrors [OF add _ False] Cons.prems(6) [OF d] False t2 show ?thesis by auto
    qed
    from Cons.IH [OF run sub inv sep Cons.prems(5) this] show ?thesis .
  qed
qed simp

subsection \<open>What the withdrawal of stale revisions does\<close>

definition stale_cleared :: "('v, 'c) semver \<Rightarrow> string list \<Rightarrow> tool list \<Rightarrow> registry \<Rightarrow> registry \<Rightarrow> bool" where
  "stale_cleared sv keys ts r r' \<longleftrightarrow> registry_inv sv r' \<and>
     (\<forall>n v. n @ ''@'' @ v \<in> set keys \<longrightarrow> revision_at r' n v = revision_at r n v) \<and>
     (\<forall>n v u. revision_at r' n v = Some u \<and> tool_active u \<longrightarrow> revision_at r n v = Some u \<and>
        (\<forall>t \<in> set ts. (tool_name t, tool_version t) = (n, v) \<longrightarrow>
           md_module (tl_metadata t) = ''system'' \<or> n @ ''@'' @ v \<in> set keys))"

lemma stale_clearedD:
  "stale_cleared sv keys ts r r' \<Longrightarrow> registry_inv sv r'"
  "stale_cleared sv keys ts r r' \<Longrightarrow> n @ ''@'' @ v \<in> set keys \<Longrightarrow> revision_at r' n v = revision_at r n v"
  "stale_cleared sv keys ts r r' \<Longrightarrow> revision_at r' n v = Some u \<Longrightarrow> tool_active u \<Longrightarrow> revision_at r n v = Some u"
  "stale_cleared sv keys ts r r' \<Longrightarrow> revision_at r' n v = Some u \<Longrightarrow> tool_active u \<Longrightarrow> t \<in> set ts \<Longrightarrow>
     tool_name t = n \<Longrightarrow> tool_version t = v \<Longrightarrow> md_module (tl_metadata t) = ''system'' \<or> n @ ''@'' @ v \<in> set keys"
  unfolding stale_cleared_def by blast+

lemma stale_cleared_step:
  assumes "stale_cleared sv keys rest (registry_remove (tool_name a) (tool_version a) r) r'"
    and "tool_resource_key a \<notin> set keys"
  shows "stale_cleared sv keys (a # rest) r r'"
proof -
  have removed: "revision_at (registry_remove (tool_name a) (tool_version a) r) n v =
      (if n = tool_name a \<and> v = tool_version a
       then map_option (\<lambda>t. set_serving_flag False (set_active_flag False t)) (revision_at r n v)
       else revision_at r n v)" for n v
    using registry_remove_revision(1) [of r "tool_name a" "tool_version a" _ n v]
      registry_remove_absent [of r "tool_name a" "tool_version a"]
    by (cases "revision_at r (tool_name a) (tool_version a)") auto
  note D = stale_clearedD [OF assms(1)]
  have "revision_at r' n v = revision_at r n v" if "n @ ''@'' @ v \<in> set keys" for n v
    using D(2) [OF that] that assms(2) removed [of n v] by (auto simp: tool_resource_key_def)
  moreover have "revision_at r n v = Some u \<and> (n, v) \<noteq> (tool_name a, tool_version a)"
    if "revision_at r' n v = Some u" "tool_active u" for n v u
    using D(3) [OF that] that(2) removed [of n v] by (auto split: if_splits)
  moreover have "md_module (tl_metadata t) = ''system'' \<or> n @ ''@'' @ v \<in> set keys"
    if "revision_at r' n v = Some u" "tool_active u" "t \<in> set (a # rest)" "(tool_name t, tool_version t) = (n, v)" for n v u t
    using calculation(2) [OF that(1,2)] D(4) [OF that(1,2), of t] that(3,4) by auto
  ultimately show ?thesis using D(1) unfolding stale_cleared_def by blast
qed

lemma stale_cleared_skip:
  assumes "stale_cleared sv keys rest r r'" and "md_module (tl_metadata a) = ''system'' \<or> tool_resource_key a \<in> set keys"
  shows "stale_cleared sv keys (a # rest) r r'"
proof -
  note D = stale_clearedD [OF assms(1)]
  have "md_module (tl_metadata t) = ''system'' \<or> n @ ''@'' @ v \<in> set keys"
    if "revision_at r' n v = Some u" "tool_active u" "t \<in> set (a # rest)" "(tool_name t, tool_version t) = (n, v)" for n v u t
    using D(4) [OF that(1,2), of t] that(3,4) assms(2) by (auto simp: tool_resource_key_def)
  with D(1-3) show ?thesis unfolding stale_cleared_def by blast
qed

lemma deregister_stale_clears:
  "registry_inv sv (sr_registry s) \<Longrightarrow>
     stale_cleared sv keys ts (sr_registry s) (sr_registry (deregister_stale env keys ts s))"
proof (induction ts arbitrary: s)
  case Nil
  then show ?case by (simp add: stale_cleared_def)
next
  case (Cons a rest)
  show ?case
  proof (cases "md_module (tl_metadata a) = ''system'' \<or> tool_resource_key a \<in> set keys")
    case True
    with stale_cleared_skip [OF Cons.IH [OF Cons.prems] True] show ?thesis by simp
  next
    case False
    let ?s = "deregister_tool env (tool_name a) (tool_version a) s"
    have "registry_inv sv (sr_registry ?s)" using Cons.prems registry_remove_inv by simp
    from Cons.IH [OF this] have "stale_cleared sv keys rest
        (registry_remove (tool_name a) (tool_version a) (sr_registry s)) (sr_registry (deregister_stale env keys rest ?s))"
      by simp
    from stale_cleared_step [OF this] False show ?thesis by simp
  qed
qed

lemma list_active_at:
  assumes "registry_inv sv r" and "revision_at r n v = Some u" and "tool_active u"
  shows "clone_tool u \<in> set (list_active r)"
proof -
  obtain vs where "map_of (reg_tools r) n = Some vs" "map_of vs v = Some u"
    using assms(2) by (auto simp: revision_at_def split: option.splits)
  then have "(n, vs) \<in> set (reg_tools r)" "(v, u) \<in> set vs" by (auto dest: map_of_SomeD)
  with assms(3) show ?thesis by (fastforce simp: list_active_def)
qed

lemma desired_state_tools:
  assumes "desired_state st = Inr (ts, ps, bs)"
  shows "list_tools st = Inr ts" "list_plugins st = Inr ps" "list_plugin_bindings st = Inr bs"
  using assms by (auto simp: desired_state_def split: sum.splits)

lemma list_tools_desired:
  assumes "store_inv st" and "list_tools st = Inr ts"
  shows "desired_ok ts"
proof -
  note wf = store_invD(1) [OF assms(1)]
  have at: "tool_at st (tool_name t) (tool_version t) = Some t" if t: "t \<in> set ts" for t
  proof -
    have "set ts = row_data ` set (st_tools st)"
      using assms(2) by (auto simp: list_tools_def sort_rows_def split: if_splits)
    then obtain r where r: "r \<in> set (st_tools st)" "row_data r = t" using t by auto
    then have "row_ok r" using wf by (simp add: tool_rows_wf_def list_all_iff)
    with r show ?thesis using tool_at_row [OF wf] by (auto simp: row_ok_def)
  qed
  show ?thesis unfolding desired_ok_def
  proof (intro ballI conjI impI)
    fix t u
    assume tu: "t \<in> set ts" "u \<in> set ts"
    show "t = u" if "tool_name t = tool_name u \<and> tool_version t = tool_version u"
      using at [OF tu(1)] at [OF tu(2)] that by (metis option.inject)
    show "tool_version t = tool_version u" if "tool_name t = tool_name u \<and> tool_serving t \<and> tool_serving u"
      using store_invD(2) [OF assms(1)] at [OF tu(1)] at [OF tu(2)] that by metis
  qed
qed

lemma flush_bindings_keeps:
  assumes "flush_plugin_binding_targets cache bs s = (e, s')"
  shows "sr_registry s' = sr_registry s" "sr_plugins s' = sr_plugins s" "sr_store s' = sr_store s"
    "sr_generation s' = sr_generation s" "sr_last_hash s' = sr_last_hash s" "sr_world s' = sr_world s"
    "sr_status s' = sr_status s"
  using assms by (auto simp: flush_plugin_binding_targets_def split: option.splits prod.splits)

lemma register_desired_keeps:
  "register_desired env ts s = (e, s') \<Longrightarrow> sr_plugins s' = sr_plugins s \<and> sr_generation s' = sr_generation s \<and>
     sr_last_hash s' = sr_last_hash s \<and> sr_store s' = sr_store s \<and> sr_world s' = sr_world s"
proof (induction ts arbitrary: s)
  case (Cons dt rest)
  obtain e1 s1 where reg: "register_tool env False dt s = (e1, s1)" by (cases "register_tool env False dt s")
  with Cons.prems Cons.IH [of s] Cons.IH [of s1] register_tool_keeps [OF reg]
  show ?case by (auto split: if_splits option.splits)
qed simp

lemma deregister_stale_keeps [simp]:
  "sr_plugins (deregister_stale env keys ts s) = sr_plugins s"
  "sr_generation (deregister_stale env keys ts s) = sr_generation s"
  "sr_store (deregister_stale env keys ts s) = sr_store s"
  "sr_world (deregister_stale env keys ts s) = sr_world s"
  by (induction ts arbitrary: s) simp_all

lemma apply_desired_state_ok:
  assumes "apply_desired_state env h (ts, ps, bs) s = (None, s')"
  defines "plugins \<equiv> (case sr_plugins s of None \<Rightarrow> new_plugin_registry | p \<Rightarrow> p)"
    and "snapshot \<equiv> build_plugin_binding_snapshot (ne_admission env) ps bs ts"
  shows "\<exists>s2 s3. flush_plugin_binding_targets (ne_cache env)
        (snapshot_bindings plugins @ snapshot_bindings (Some snapshot))
        (s\<lparr> sr_plugins := plugins, sr_generation := sr_generation s + 1 \<rparr>) = (None, s2) \<and>
     register_desired env ts (s2\<lparr> sr_plugins := plugin_registry_replace snapshot plugins \<rparr>) = (None, s3) \<and>
     s' = (deregister_stale env (desired_keys ts) (list_active (sr_registry s3)) s3)\<lparr> sr_last_hash := h \<rparr>"
proof -
  obtain e2 s2 where flushed: "flush_plugin_binding_targets (ne_cache env)
        (snapshot_bindings plugins @ snapshot_bindings (Some snapshot))
        (s\<lparr> sr_plugins := plugins, sr_generation := sr_generation s + 1 \<rparr>) = (e2, s2)" by (rule prod.exhaust)
  obtain e3 s3 where registered:
    "register_desired env ts (s2\<lparr> sr_plugins := plugin_registry_replace snapshot plugins \<rparr>) = (e3, s3)" by (rule prod.exhaust)
  note applied = assms(1) [unfolded apply_desired_state_def Let_def prod.case,
      folded plugins_def snapshot_def, unfolded flushed prod.case]
  have e2: "e2 = None" using applied by (cases e2) simp_all
  note applied = applied [unfolded e2 option.case registered prod.case]
  have e3: "e3 = None" using applied by (cases e3) simp_all
  with applied have "s' = (deregister_stale env (desired_keys ts) (list_active (sr_registry s3)) s3)\<lparr> sr_last_hash := h \<rparr>"
    by simp
  with flushed registered e2 e3 show ?thesis by blast
qed

subsection \<open>Convergence\<close>

text \<open>
  C34: reconciliation converges. When an attempt that found a new desired state succeeds, the
  runtime mirrors the store: every active stored revision resolves by its exact version with
  its stored digest and serving flag, the stored serving revision is what an unqualified call
  gets, every other active revision of the registry is a built-in one, the plugin bindings are
  the snapshot of the stored ones under a new generation, and the state's hash is recorded.
  The semantic-version library is arbitrary; digests are assumed to tell the revisions of a
  name apart.
\<close>

theorem reconcile_converges:
  assumes "reconcile_locked env s = (None, s')" and "sr_store s = Some st" and "store_inv st"
    and "registry_inv (ne_semver env) (sr_registry s)"
    and "get_state_hash (ne_state_hash env) st = Inr h" and "h \<noteq> sr_last_hash s"
    and "list_tools st = Inr ts" and "digests_separate ts (sr_registry s)"
  shows "(\<forall>dt \<in> set ts. tool_active dt \<and> tool_version dt \<noteq> [] \<longrightarrow>
       (\<exists>t. resolve (ne_semver env) (tool_name dt) (tool_version dt) (sr_registry s') = Inr t \<and>
          tool_digest t = tool_digest dt \<and> tool_serving t = tool_serving dt \<and>
          (tool_serving dt \<longrightarrow> resolve (ne_semver env) (tool_name dt) [] (sr_registry s') = Inr t))) \<and>
     (\<forall>n v u. revision_at (sr_registry s') n v = Some u \<and> tool_active u \<longrightarrow>
        md_module (tl_metadata u) = ''system'' \<or>
        (\<exists>dt \<in> set ts. tool_active dt \<and> tool_resource_key dt = tool_resource_key u)) \<and>
     (\<exists>ps bs. list_plugins st = Inr ps \<and> list_plugin_bindings st = Inr bs \<and>
        sr_plugins s' = Some (build_plugin_binding_snapshot (ne_admission env) ps bs ts)) \<and>
     sr_generation s' = sr_generation s + 1 \<and> sr_last_hash s' = h"
proof -
  let ?sv = "ne_semver env"
  obtain ps bs where desired: "desired_state st = Inr (ts, ps, bs)"
    and applied: "apply_desired_state env h (ts, ps, bs) s = (None, s')"
  proof -
    from assms(1,2,5,6) obtain d where d: "desired_state st = Inr d" "apply_desired_state env h d s = (None, s')"
      by (cases "desired_state st") (simp_all add: reconcile_locked_def)
    moreover obtain ts' ps bs where "d = (ts', ps, bs)" by (cases d)
    moreover from d(1) this desired_state_tools(1) [of st ts' ps bs] assms(7) have "ts' = ts" by simp
    ultimately show ?thesis using that by simp
  qed
  define plugins where "plugins = (case sr_plugins s of None \<Rightarrow> new_plugin_registry | p \<Rightarrow> p)"
  define snapshot where "snapshot = build_plugin_binding_snapshot (ne_admission env) ps bs ts"
  have some: "plugin_registry_replace snapshot plugins = Some snapshot"
    by (auto simp: plugin_registry_replace_def plugins_def new_plugin_registry_def split: option.splits)
  obtain s2 s3 where flushed: "flush_plugin_binding_targets (ne_cache env)
        (snapshot_bindings plugins @ snapshot_bindings (Some snapshot))
        (s\<lparr> sr_plugins := plugins, sr_generation := sr_generation s + 1 \<rparr>) = (None, s2)"
    and registered: "register_desired env ts (s2\<lparr> sr_plugins := Some snapshot \<rparr>) = (None, s3)"
    and s': "s' = (deregister_stale env (desired_keys ts) (list_active (sr_registry s3)) s3)\<lparr> sr_last_hash := h \<rparr>"
    using apply_desired_state_ok [OF applied, folded plugins_def snapshot_def, unfolded some] by blast
  note s2 = flush_bindings_keeps [OF flushed] and s3 = register_desired_keeps [OF registered]
  have inv3: "registry_inv ?sv (sr_registry s3)"
    and mirror3: "\<And>dt. dt \<in> set ts \<Longrightarrow> tool_active dt \<Longrightarrow> mirrors (sr_registry s3) dt"
    using register_desired_mirrors [OF registered subset_refl] assms(4,8) list_tools_desired [OF assms(3,7)] s2(1) by auto
  note stale = stale_clearedD [OF deregister_stale_clears [OF inv3,
      where env = env and keys = "desired_keys ts" and ts = "list_active (sr_registry s3)"]]
  have reg: "sr_registry s' = sr_registry (deregister_stale env (desired_keys ts) (list_active (sr_registry s3)) s3)"
    by (simp add: s')
  have inv: "registry_inv ?sv (sr_registry s')" using stale(1) reg by simp
  have shown: "\<exists>t. resolve ?sv (tool_name dt) (tool_version dt) (sr_registry s') = Inr t \<and>
          tool_digest t = tool_digest dt \<and> tool_serving t = tool_serving dt \<and>
          (tool_serving dt \<longrightarrow> resolve ?sv (tool_name dt) [] (sr_registry s') = Inr t)"
    if dt: "dt \<in> set ts" "tool_active dt" "tool_version dt \<noteq> []" for dt
  proof -
    have "tool_name dt @ ''@'' @ tool_version dt \<in> set (desired_keys ts)"
      using dt by (force simp: desired_keys_def tool_resource_key_def)
    with mirror3 [OF dt(1,2)] obtain u where u: "revision_at (sr_registry s') (tool_name dt) (tool_version dt) = Some u"
      "tool_active u" "tool_digest u = tool_digest dt" "tool_serving u = tool_serving dt"
      using stale(2) reg by (auto simp: mirrors_def)
    have exact: "resolve ?sv (tool_name dt) (tool_version dt) (sr_registry s') = Inr (clone_tool u)"
      using u(1,2) dt(3) by (auto simp: resolve_def revision_at_def split: option.splits)
    have "resolve ?sv (tool_name dt) [] (sr_registry s') = Inr (clone_tool u)" if "tool_serving dt"
      using resolve_serving [OF inv u(1,2) _ dt(3)] registry_invD(5) [OF inv u(1)] u(2,4) that by simp
    with exact u show ?thesis by auto
  qed
  moreover have "md_module (tl_metadata u) = ''system'' \<or>
        (\<exists>dt \<in> set ts. tool_active dt \<and> tool_resource_key dt = tool_resource_key u)"
    if u: "revision_at (sr_registry s') n v = Some u" "tool_active u" for n v u
  proof -
    from registry_invD(4) [OF inv u(1)] have key: "tool_name u = n" "tool_version u = v" by simp_all
    note u' = u [unfolded reg]
    have "md_module (tl_metadata (clone_tool u)) = ''system'' \<or> n @ ''@'' @ v \<in> set (desired_keys ts)"
      using key by (intro stale(4) [OF u' list_active_at [OF inv3 stale(3) [OF u'] u(2)]]) simp_all
    with key show ?thesis by (auto simp: desired_keys_def tool_resource_key_def)
  qed
  moreover have "sr_plugins s' = Some snapshot" "sr_generation s' = sr_generation s + 1" "sr_last_hash s' = h"
    using s2 s3 by (simp_all add: s')
  ultimately show ?thesis using desired_state_tools(2,3) [OF desired] by (auto simp: snapshot_def)
qed

definition stored_sample :: store where
  "stored_sample = snd (admit (ne_digest sample_env) approved_tool ''admin'' (empty_store 0))"

definition fresh_server :: "(nat, payload memory_backend, timestamp) server" where
  "fresh_server = (sample_server new_tool_registry)\<lparr> sr_store := Some stored_sample \<rparr>"

theorem reconcile_converges_witness:
  "\<exists>s' t. reconcile_locked sample_env fresh_server = (None, s') \<and>
     resolve any_semver ''t'' ''1'' (sr_registry s') = Inr t \<and> resolve any_semver ''t'' [] (sr_registry s') = Inr t \<and>
     tool_digest t = ''t@1'' \<and> tool_serving t"
proof -
  have inv: "store_inv stored_sample"
    unfolding stored_sample_def by (rule admit_inv [OF empty_store_inv surjective_pairing])
  have "(case list_tools stored_sample of Inl _ \<Rightarrow> [] | Inr ts \<Rightarrow> map (\<lambda>t. (tool_name t, tool_version t, tool_digest t,
      tool_serving t, tool_active t)) ts) = [(''t'', ''1'', ''t@1'', True, True)]" by code_simp
  then obtain dt where ts: "list_tools stored_sample = Inr [dt]" and dt: "tool_name dt = ''t''" "tool_version dt = ''1''"
    "tool_digest dt = ''t@1''" "tool_serving dt" "tool_active dt"
    by (auto split: sum.splits)
  have ok: "fst (reconcile_locked sample_env fresh_server) = None" by code_simp
  then obtain s' where run: "reconcile_locked sample_env fresh_server = (None, s')" by (metis prod.collapse)
  have fresh: "sr_store fresh_server = Some stored_sample" "sr_registry fresh_server = new_tool_registry" "sr_last_hash fresh_server = []"
    by (simp_all add: fresh_server_def sample_server_def)
  have hash: "get_state_hash (ne_state_hash sample_env) stored_sample = Inr ''h''" by code_simp
  have sep: "digests_separate [dt] (sr_registry fresh_server)"
    by (simp add: digests_separate_def fresh new_tool_registry_def revision_at_def)
  have sv: "ne_semver sample_env = any_semver" by (simp add: sample_env_def)
  have "registry_inv (ne_semver sample_env) (sr_registry fresh_server)" by (simp add: fresh new_tool_registry_inv)
  from conjunct1 [OF reconcile_converges [OF run fresh(1) inv this hash _ ts sep]] dt fresh(3) sv run
  show ?thesis by auto
qed

subsection \<open>The reported status\<close>

lemma flush_bindings_keeps_rest:
  "flush_plugin_binding_targets cache bs s = (e, s') \<Longrightarrow> sr_now s' = sr_now s"
  by (auto simp: flush_plugin_binding_targets_def split: option.splits prod.splits)

lemma deregister_stale_hash [simp]: "sr_last_hash (deregister_stale env keys ts s) = sr_last_hash s"
  by (induction ts arbitrary: s) simp_all

lemma apply_desired_keeps:
  assumes "apply_desired_state env h d s = (e, s')"
  shows "sr_world s' = sr_world s \<and> sr_store s' = sr_store s \<and> sr_last_hash s' = (if e = None then h else sr_last_hash s)"
proof -
  obtain ts ps bs where d: "d = (ts, ps, bs)" by (cases d)
  let ?plugins = "case sr_plugins s of None \<Rightarrow> new_plugin_registry | p \<Rightarrow> p"
  let ?snapshot = "build_plugin_binding_snapshot (ne_admission env) ps bs ts"
  obtain e2 s2 where flushed: "flush_plugin_binding_targets (ne_cache env)
        (snapshot_bindings ?plugins @ snapshot_bindings (Some ?snapshot))
        (s\<lparr> sr_plugins := ?plugins, sr_generation := sr_generation s + 1 \<rparr>) = (e2, s2)" by (rule prod.exhaust)
  obtain e3 s3 where registered:
    "register_desired env ts (s2\<lparr> sr_plugins := plugin_registry_replace ?snapshot ?plugins \<rparr>) = (e3, s3)" by (rule prod.exhaust)
  note applied = assms [unfolded d apply_desired_state_def Let_def prod.case, unfolded flushed prod.case]
  from flush_bindings_keeps [OF flushed] register_desired_keeps [OF registered] applied registered
  show ?thesis by (cases e2; cases e3) auto
qed

lemma reconcile_locked_keeps:
  assumes "reconcile_locked env s = (e, s')"
  shows "sr_world s' = sr_world s \<and> sr_store s' = sr_store s \<and> (e \<noteq> None \<longrightarrow> sr_last_hash s' = sr_last_hash s) \<and>
     (e = None \<longrightarrow> (\<forall>st. sr_store s = Some st \<longrightarrow> get_state_hash (ne_state_hash env) st = Inr (sr_last_hash s')))"
proof (cases "sr_store s")
  case (Some st)
  show ?thesis
  proof (cases "get_state_hash (ne_state_hash env) st")
    case (Inr h)
    show ?thesis
    proof (cases "h = sr_last_hash s \<or> (\<exists>e. desired_state st = Inl e)")
      case True
      with assms Some Inr show ?thesis by (auto simp: reconcile_locked_def split: if_splits)
    next
      case False
      then obtain d where "desired_state st = Inr d" by (cases "desired_state st") auto
      with assms Some Inr False have "apply_desired_state env h d s = (e, s')" by (simp add: reconcile_locked_def)
      from apply_desired_keeps [OF this] Some Inr show ?thesis by auto
    qed
  qed (use assms Some in \<open>auto simp: reconcile_locked_def\<close>)
qed (use assms in \<open>auto simp: reconcile_locked_def\<close>)

text \<open>
  The reconciliation status tells the truth. After every attempt the status says
  converged exactly when the attempt succeeded; the desired-state hash it then reports is the
  hash of what the store holds; a failed attempt leaves the recorded hash alone, so the next
  one does the work again. No attempt touches the ERP, a plugin or the store.
\<close>

theorem reconciliation_status_truthful:
  assumes "run_reconciliation_attempt env s = (err, s')"
  shows "rs_converged (sr_status s') = (err = None) \<and>
     (err = None \<longrightarrow> rs_desired_state_hash (sr_status s') = sr_last_hash s' \<and>
        (\<forall>st. sr_store s = Some st \<longrightarrow> get_state_hash (ne_state_hash env) st = Inr (rs_desired_state_hash (sr_status s')))) \<and>
     (err \<noteq> None \<longrightarrow> sr_last_hash s' = sr_last_hash s) \<and>
     sr_world s' = sr_world s \<and> sr_store s' = sr_store s"
proof -
  let ?s0 = "s\<lparr> sr_status := (sr_status s)\<lparr> rs_attempt_count := rs_attempt_count (sr_status s) + 1,
                                             rs_last_attempt := sr_now s \<rparr> \<rparr>"
  obtain e s1 where run: "reconcile_locked env ?s0 = (e, s1)" by (cases "reconcile_locked env ?s0")
  from reconcile_locked_keeps [OF run] assms [unfolded run_reconciliation_attempt_def Let_def run prod.case]
  show ?thesis by (cases e) (auto simp: record_reconciliation_failure_def)
qed

theorem reconciliation_status_truthful_witness:
  "\<exists>s'. run_reconciliation_attempt sample_env fresh_server = (None, s') \<and> rs_converged (sr_status s') \<and>
     rs_desired_state_hash (sr_status s') = ''h'' \<and> sr_world s' = 0"
proof -
  have "fst (run_reconciliation_attempt sample_env fresh_server) = None" by code_simp
  then obtain s' where run: "run_reconciliation_attempt sample_env fresh_server = (None, s')" by (metis prod.collapse)
  have "get_state_hash (ne_state_hash sample_env) stored_sample = Inr ''h''" by code_simp
  moreover have "sr_store fresh_server = Some stored_sample" "sr_world fresh_server = 0"
    by (simp_all add: fresh_server_def sample_server_def)
  ultimately show ?thesis using reconciliation_status_truthful [OF run] run by auto
qed

end
