(* ===== verification/Tool_Api.thy ===== *)
theory Tool_Api
  imports Reconcile
begin

text \<open>
  The control-plane handlers of internal/mcp/server.go and info_api.go for tools, the cache
  and the server itself. A handler gets the decoded body of its request - encoding/json
  decodes into the resource structs, \<^const>\<open>None\<close> is a decoding error - and answers with a
  status and a payload. Each handler that changes desired state holds \<open>pluginLifecycleMu\<close>
  throughout, so it is one step.
\<close>

subsection \<open>Requests and answers\<close>

type_synonym url_query = "(string \<times> string) list"

text \<open>\<open>Query().Get\<close>: the first value, or the empty string.\<close>

definition query_get :: "url_query \<Rightarrow> string \<Rightarrow> string" where
  "query_get q key = (case map_of q key of None \<Rightarrow> [] | Some v \<Rightarrow> v)"

record server_info =
  si_version :: string
  si_commit :: string
  si_date :: string
  si_cache_backend :: string
  si_active_tool_count :: int
  si_reconciliation :: reconciliation_status
  si_observed_at :: timestamp

record probe_response =
  pr_status :: int
  pr_content_type :: string
  pr_latency :: int
  pr_success :: bool

datatype api_payload =
    PEmpty
  | PFields "(string \<times> jval) list"
  | PTools "tool list"
  | PPlugins "plugin list"
  | PBindings "plugin_binding list"
  | PTokens "token_record list"
  | PToken token_record string
  | PResult jval
  | PStats cache_stats
  | PInfo server_info
  | PProbe probe_response

text \<open>
  An answer, a refusal with the error envelope, or a panic, which net/http turns into a
  dropped connection.
\<close>

datatype api_response = Answer int api_payload | Refuse http_error | Aborted

definition refuse :: "int \<Rightarrow> string \<Rightarrow> string \<Rightarrow> string \<Rightarrow> api_response" where
  "refuse status code message suggestion = Refuse (write_control_plane_error status code message suggestion)"

definition refuse_internal :: "int \<Rightarrow> string \<Rightarrow> api_response" where
  "refuse_internal status suggestion = Refuse (write_control_plane_internal_error status ''HEALTH_CHECK_FAILED'' suggestion)"

abbreviation storage_failed :: api_response where
  "storage_failed \<equiv> refuse_internal 500 ''check ERPBridge storage and retry''"

abbreviation storage_missing :: api_response where
  "storage_missing \<equiv> refuse_internal 500 ''check ERPBridge storage configuration''"

abbreviation cache_failed :: api_response where
  "cache_failed \<equiv> refuse_internal 500 ''check cache health and retry''"

definition reconciliation_pending :: api_response where
  "reconciliation_pending = Answer 202 (PFields [(''status'', JStr ''pending''), (''code'', JStr ''RECONCILIATION_PENDING''),
     (''message'', JStr ''desired state is stored and awaits successful reconciliation'')])"

text \<open>The last step of every change: reconcile, and answer 202 when that has to wait.\<close>

definition reconcile_then ::
  "('w, 'b, 'l, 'r, 'v, 'c) server_env \<Rightarrow> api_response \<Rightarrow> ('w, 'b, 'l) server \<Rightarrow> api_response \<times> ('w, 'b, 'l) server" where
  "reconcile_then env answer s = (case reconcile_locked env s of
       (Some _, s') \<Rightarrow> (reconciliation_pending, s')
     | (None, s') \<Rightarrow> (answer, s'))"

subsection \<open>Tools\<close>

text \<open>
  \<open>handleToolApply\<close>: bookkeeping is server-authored, so the submitted digest and
  admission record are dropped before the tool is admitted.
\<close>

definition tool_applied :: "tool \<Rightarrow> api_response" where
  "tool_applied t = Answer 201 (PFields [(''status'', JStr ''applied''), (''name'', JStr (tool_name t)),
     (''version'', JStr (tool_version t)), (''resourceDigest'', JStr (tool_digest t))])"

definition register_admitted ::
  "('w, 'b, 'l, 'r, 'v, 'c) server_env \<Rightarrow> tool \<Rightarrow> ('w, 'b, 'l) server \<Rightarrow> api_response \<times> ('w, 'b, 'l) server" where
  "register_admitted env t s = (case register_tool env True t s of
       (Some _, s') \<Rightarrow> (reconciliation_pending, s')
     | (None, s') \<Rightarrow> reconcile_then env (tool_applied t) s')"

definition handle_tool_apply ::
  "('w, 'b, 'l, 'r, 'v, 'c) server_env \<Rightarrow> ctx \<Rightarrow> tool option \<Rightarrow> ('w, 'b, 'l) server \<Rightarrow> api_response \<times> ('w, 'b, 'l) server" where
  "handle_tool_apply env c body s = (case body of
       None \<Rightarrow> (refuse 400 ''VALIDATION_FAILED'' ''the tool resource is not valid JSON'' ''submit one valid tool resource'', s)
     | Some t0 \<Rightarrow> (case validate_tool (ne_base_url env) t0 of
         Inl _ \<Rightarrow> (refuse 422 ''VALIDATION_FAILED'' ''the tool resource failed validation''
                    ''review the tool metadata, execution, and security fields'', s)
       | Inr t \<Rightarrow> (case sr_store s of
           None \<Rightarrow> (refuse 500 ''HEALTH_CHECK_FAILED'' ''store not available'' ''check ERPBridge storage configuration'', s)
         | Some st \<Rightarrow> (case list_plugin_bindings_for_tool (tool_name t) (tool_version t) st of
             Inl _ \<Rightarrow> (storage_failed, s)
           | Inr affected \<Rightarrow> (case flush_plugin_binding_targets (ne_cache env) (map Some affected) s of
               (Some _, s1) \<Rightarrow> (cache_failed, s1)
             | (None, s1) \<Rightarrow>
                 (case admit (ne_digest env) (set_admission [] None (set_active_flag True t))
                    (case cx_identity c of None \<Rightarrow> [] | Some identity \<Rightarrow> id_principal identity) st of
                    (Inl AdmissionConflict, st') \<Rightarrow>
                      (refuse 409 ''REGISTRY_CONFLICT'' ''the admitted tool revision has different executable content''
                         ''create a new tool version and review it before applying'', s1\<lparr> sr_store := Some st' \<rparr>)
                  | (Inl _, st') \<Rightarrow> (storage_failed, s1\<lparr> sr_store := Some st' \<rparr>)
                  | (Inr admitted, st') \<Rightarrow> register_admitted env admitted (s1\<lparr> sr_store := Some st' \<rparr>)))))))"

definition matches_filter :: "string \<Rightarrow> string \<Rightarrow> bool" where
  "matches_filter wanted actual \<longleftrightarrow> wanted = [] \<or> actual = wanted"

definition handle_tool_list :: "url_query \<Rightarrow> ('w, 'b, 'l) server \<Rightarrow> api_response" where
  "handle_tool_list q s = (case sr_store s of
       None \<Rightarrow> storage_missing
     | Some st \<Rightarrow> (case list_tools st of
         Inl _ \<Rightarrow> storage_failed
       | Inr ts \<Rightarrow> Answer 200 (PTools (filter (\<lambda>t. matches_filter (query_get q ''name'') (tool_name t) \<and>
                                                    matches_filter (query_get q ''version'') (tool_version t)) ts))))"

definition handle_tool_delete ::
  "('w, 'b, 'l, 'r, 'v, 'c) server_env \<Rightarrow> url_query \<Rightarrow> ('w, 'b, 'l) server \<Rightarrow> api_response \<times> ('w, 'b, 'l) server" where
  "handle_tool_delete env q s =
     (let name = query_get q ''name''; version = query_get q ''version''; hard = (query_get q ''hard'' = ''true'') in
      if name = [] \<or> version = []
      then (refuse 400 ''VALIDATION_FAILED'' ''tool name and version are required'' ''provide both name and version'', s)
      else case sr_store s of
        None \<Rightarrow> (storage_missing, s)
      | Some st \<Rightarrow> (case list_plugin_bindings_for_tool name version st of
          Inl _ \<Rightarrow> (storage_failed, s)
        | Inr affected \<Rightarrow> (case flush_plugin_binding_targets (ne_cache env) (map Some affected) s of
            (Some _, s1) \<Rightarrow> (cache_failed, s1)
          | (None, s1) \<Rightarrow>
              let s2 = deregister_tool env name version s1 in
              (case (if hard then hard_delete_tool name version st else delete_tool name version st) of
                 (Some _, st') \<Rightarrow> (storage_failed, s2\<lparr> sr_store := Some st' \<rparr>)
               | (None, st') \<Rightarrow> reconcile_then env (Answer 204 PEmpty) (s2\<lparr> sr_store := Some st' \<rparr>)))))"

definition method_not_allowed :: "string \<Rightarrow> api_response" where
  "method_not_allowed suggestion =
     refuse 405 ''METHOD_NOT_ALLOWED'' ''the requested control-plane method is not supported'' suggestion"

definition handle_tool_api ::
  "('w, 'b, 'l, 'r, 'v, 'c) server_env \<Rightarrow> string \<Rightarrow> ctx \<Rightarrow> url_query \<Rightarrow> tool option \<Rightarrow> ('w, 'b, 'l) server \<Rightarrow>
     api_response \<times> ('w, 'b, 'l) server" where
  "handle_tool_api env method c q body s =
     (if method = ''POST'' then handle_tool_apply env c body s
      else if method = ''GET'' then (handle_tool_list q s, s)
      else if method = ''DELETE'' then handle_tool_delete env q s
      else (method_not_allowed ''use GET, POST, or DELETE for this resource'', s))"

subsection \<open>Direct invocation\<close>

text \<open>
  What the endpoint answers once the middlewares are done. The rate-limit outcome comes
  first; a nil result is dereferenced.
\<close>

definition invoke_answer :: "duration option \<Rightarrow> outcome \<Rightarrow> api_response" where
  "invoke_answer limited out = (case limited of
       Some delay \<Rightarrow> Refuse ((write_control_plane_error 429 ''RATE_LIMITED'' ''the tool request rate limit was exceeded''
            ''retry after the indicated delay'')\<lparr> he_retry_after := Some (itoa (rate_limit_retry_after_seconds delay)) \<rparr>)
     | None \<Rightarrow> (case out of
         Failed e \<Rightarrow>
           if errors_is e ErrPluginProcessingFailed
           then Answer 500 (PFields [(''error'', JStr plugin_failure_message)])
           else (case faults_as e of
               Some f \<Rightarrow> Refuse (write_tool_execution_http_error (new_tool_execution_result (EFault f)))
             | None \<Rightarrow> refuse_internal 500 ''check tool and plugin health, then retry'')
       | Returned None \<Rightarrow> Aborted
       | Panicked _ \<Rightarrow> Aborted
       | Returned (Some result) \<Rightarrow>
           if cr_is_error result then Refuse (write_tool_execution_http_error result)
           else Answer 200 (PResult (case cr_structured result of
               Some v \<Rightarrow> v
             | None \<Rightarrow> (case json_unmarshal (cr_text result) of Some v \<Rightarrow> v | None \<Rightarrow> JNull)))))"

definition handle_direct_invoke ::
  "('w, 'b, 'l, 'r, 'v, 'c) server_env \<Rightarrow> string \<Rightarrow> ctx \<Rightarrow> string \<Rightarrow> tool_call_request option \<Rightarrow> ('w, 'b, 'l) server \<Rightarrow>
     api_response \<times> ('w, 'b, 'l) server" where
  "handle_direct_invoke env method c roleHeader body s =
     (if method \<noteq> ''POST'' then (method_not_allowed ''use POST to invoke a tool'', s)
      else case body of
        None \<Rightarrow> (refuse 400 ''VALIDATION_FAILED'' ''the tool invocation is not valid JSON'' ''submit one valid invocation request'', s)
      | Some req \<Rightarrow>
          let (name, version) = parse_tool_identifier (tr_name req) in
          (case resolve (ne_semver env) name version (sr_registry s) of
             Inl _ \<Rightarrow> (refuse 404 ''RESOURCE_NOT_FOUND'' ''the requested tool was not found'' ''check the tool name and version'', s)
           | Inr t \<Rightarrow> (case authorize_direct_invoke c t (tr_arguments req) roleHeader of
               Inl e \<Rightarrow> (Refuse (write_role_authorization_error e), s)
             | Inr (c', args) \<Rightarrow> (case validate_tool_arguments (ne_args_schema env) t args of
                 Some e \<Rightarrow> (Refuse (write_tool_execution_http_error (new_tool_execution_result (EFault (new_fault KindInvalidInput
                    ''the tool arguments did not match the selected revision'' False 0 (Some (EText e)))))), s)
               | None \<Rightarrow> (case apply_tool_middlewares env t (execute_tool_request env t) c'
                     \<lparr> rq_name = tr_name req, rq_arguments = JObj args, rq_digest = [] \<rparr> (s\<lparr> sr_rate := None \<rparr>) of
                   (out, s') \<Rightarrow> (invoke_answer (sr_rate s') out, s'))))))"

subsection \<open>Cache and information\<close>

text \<open>The tools of a module, one after the other; the first error ends the loop.\<close>

fun flush_tools :: "'b backend \<Rightarrow> tool list \<Rightarrow> nat \<Rightarrow> 'b \<Rightarrow> (cache_err + nat) \<times> 'b" where
  "flush_tools be [] count b = (Inr count, b)"
| "flush_tools be (t # ts) count b = (case flush_tool_internal be (tool_name t) b of
       (Inl e, b') \<Rightarrow> (Inl e, b')
     | (Inr deleted, b') \<Rightarrow> flush_tools be ts (count + deleted) b')"

definition flush_answer :: "('e + nat) \<times> 'b \<Rightarrow> ('w, 'b, 'l) server \<Rightarrow> api_response \<times> ('w, 'b, 'l) server" where
  "flush_answer r s = (case r of
       (Inl _, b) \<Rightarrow> (cache_failed, s\<lparr> sr_cache := b \<rparr>)
     | (Inr count, b) \<Rightarrow> (Answer 200 (PFields [(''deleted'', JNum (itoa (int count))), (''status'', JStr ''ok'')]), s\<lparr> sr_cache := b \<rparr>))"

definition handle_cache_flush ::
  "('w, 'b, 'l, 'r, 'v, 'c) server_env \<Rightarrow> url_query \<Rightarrow> ('w, 'b, 'l) server \<Rightarrow> api_response \<times> ('w, 'b, 'l) server" where
  "handle_cache_flush env q s = (case ne_cache env of
       None \<Rightarrow> (refuse 503 ''HEALTH_CHECK_FAILED'' ''cache is not enabled'' ''check cache configuration before retrying'', s)
     | Some be \<Rightarrow>
         let tool = query_get q ''tool''; moduleName = query_get q ''module'' in
         if query_get q ''all'' = ''true'' then flush_answer (flush_module be [] (sr_cache s)) s
         else if tool \<noteq> [] then flush_answer (flush_tool be tool (sr_cache s)) s
         else if moduleName \<noteq> [] then (case sr_store s of
              None \<Rightarrow> (storage_missing, s)
            | Some st \<Rightarrow> (case list_tools_by_module moduleName st of
                Inl _ \<Rightarrow> (cache_failed, s)
              | Inr ts \<Rightarrow> flush_answer (flush_tools be ts 0 (sr_cache s)) s))
         else (refuse 400 ''VALIDATION_FAILED'' ''one of tool, module, or all is required'' ''provide exactly one cache flush selector'', s))"

definition handle_cache_stats ::
  "('w, 'b, 'l, 'r, 'v, 'c) server_env \<Rightarrow> ('w, 'b, 'l) server \<Rightarrow> api_response \<times> ('w, 'b, 'l) server" where
  "handle_cache_stats env s = (case ne_cache env of
       None \<Rightarrow> (refuse 503 ''HEALTH_CHECK_FAILED'' ''cache is not enabled'' ''check cache configuration before retrying'', s)
     | Some be \<Rightarrow> (case manager_stats be (sr_cache s) of
         (Inl _, b) \<Rightarrow> (refuse_internal 503 ''check cache health and retry'', s\<lparr> sr_cache := b \<rparr>)
       | (Inr stats, b) \<Rightarrow> (Answer 200 (PStats stats), s\<lparr> sr_cache := b \<rparr>)))"

text \<open>\<open>info\<close> is the build identity; its tool count is added to, not replaced.\<close>

definition current_server_info ::
  "('w, 'b, 'l, 'r, 'v, 'c) server_env \<Rightarrow> server_info \<Rightarrow> ('w, 'b, 'l) server \<Rightarrow> server_info" where
  "current_server_info env info s = info\<lparr>
     si_cache_backend := (if si_cache_backend info \<noteq> [] then si_cache_backend info
        else case ne_cache env of None \<Rightarrow> ''disabled'' | Some be \<Rightarrow> backend_name be),
     si_active_tool_count := si_active_tool_count info + (case sr_store s of
        None \<Rightarrow> 0
      | Some st \<Rightarrow> (case list_tools st of Inl _ \<Rightarrow> 0 | Inr ts \<Rightarrow> int (length (filter tool_active ts)))),
     si_reconciliation := sr_status s,
     si_observed_at := sr_now s \<rparr>"

definition handle_info ::
  "('w, 'b, 'l, 'r, 'v, 'c) server_env \<Rightarrow> server_info \<Rightarrow> string \<Rightarrow> ('w, 'b, 'l) server \<Rightarrow> api_response" where
  "handle_info env info method s =
     (if method \<noteq> ''GET'' then method_not_allowed ''use GET for this resource''
      else Answer 200 (PInfo (current_server_info env info s)))"

subsection \<open>Reconciliation and one revision\<close>

text \<open>
  What reconciliation does to the revision \<open>n\<close>, \<open>v\<close> alone, whatever else the store
  holds and however digests collide.
\<close>

definition shows_digest :: "registry \<Rightarrow> string \<Rightarrow> string \<Rightarrow> string \<Rightarrow> bool" where
  "shows_digest r n v d \<longleftrightarrow> (\<exists>u. revision_at r n v = Some u \<and> tool_active u \<and> tool_digest u = d)"

definition shows_nothing :: "registry \<Rightarrow> string \<Rightarrow> string \<Rightarrow> bool" where
  "shows_nothing r n v \<longleftrightarrow> (\<forall>u. revision_at r n v = Some u \<longrightarrow> \<not> tool_active u)"

lemma registration_keeps_shown:
  assumes "registry_add sv False t r = (None, r')" and "shows_digest r n v d"
    and "(tool_name t, tool_version t) = (n, v) \<Longrightarrow> tool_active t \<and> tool_digest t = d"
  shows "shows_digest r' n v d"
proof (cases "(tool_name t, tool_version t) = (n, v)")
  case True
  with registry_add_explicit_effect(1) [OF assms(1)] assms(3) show ?thesis by (auto simp: shows_digest_def)
next
  case False
  then have "(n, v) \<noteq> (tool_name t, tool_version t)" by auto
  from registry_add_explicit_effect(2) [OF assms(1) this] assms(2) show ?thesis by (auto simp: shows_digest_def)
qed

lemma registration_keeps_hidden:
  assumes "registry_add sv False t r = (None, r')" and "shows_nothing r n v"
    and "(n, v) \<noteq> (tool_name t, tool_version t)"
  shows "shows_nothing r' n v"
  using registry_add_explicit_effect(2) [OF assms(1,3)] assms(2) by (auto simp: shows_nothing_def)

lemma register_desired_induct:
  assumes "register_desired env ts s = (None, s')" and "P (sr_registry s)"
    and "\<And>dt t r r'. dt \<in> set ts \<Longrightarrow> tool_active dt \<Longrightarrow> tool_name t = tool_name dt \<Longrightarrow> tool_version t = tool_version dt \<Longrightarrow>
       tool_digest t = tool_digest dt \<Longrightarrow> tool_active t \<Longrightarrow> registry_add (ne_semver env) False t r = (None, r') \<Longrightarrow> P r \<Longrightarrow> P r'"
  shows "P (sr_registry s')"
  using assms
proof (induction ts arbitrary: s)
  case (Cons dt rest)
  have step: "P r'" if "d \<in> set rest" "tool_active d" "tool_name t = tool_name d" "tool_version t = tool_version d"
      "tool_digest t = tool_digest d" "tool_active t" "registry_add (ne_semver env) False t r = (None, r')" "P r" for d t r r'
    by (rule Cons.prems(3) [OF _ that(2-8)]) (use that(1) in simp)
  show ?case
  proof (cases "tool_active dt \<and> needs_registration (ne_semver env) dt (sr_registry s)")
    case False
    with Cons.prems(1) have "register_desired env rest s = (None, s')" by auto
    from Cons.IH [OF this Cons.prems(2) step] show ?thesis .
  next
    case True
    then obtain s1 where reg: "register_tool env False dt s = (None, s1)" and run: "register_desired env rest s1 = (None, s')"
      using Cons.prems(1) by (auto split: prod.splits option.splits)
    from register_tool_added [OF reg] obtain t2 where t2: "tool_name t2 = tool_name dt" "tool_version t2 = tool_version dt"
      "tool_digest t2 = tool_digest dt" "tool_serving t2 = tool_serving dt" "tool_active t2"
      "registry_add (ne_semver env) False t2 (sr_registry s) = (None, sr_registry s1)" by blast
    have "P (sr_registry s1)"
      by (rule Cons.prems(3) [OF _ _ t2(1-3,5,6) Cons.prems(2)]) (use True in simp_all)
    from Cons.IH [OF run this step] show ?thesis .
  qed
qed simp

lemma reconcile_registry:
  assumes "reconcile_locked env s = (None, s')"
  shows "sr_registry s' = sr_registry s \<or> (\<exists>st ts s2 s3. sr_store s = Some st \<and> list_tools st = Inr ts \<and>
     sr_registry s2 = sr_registry s \<and> register_desired env ts s2 = (None, s3) \<and>
     sr_registry s' = sr_registry (deregister_stale env (desired_keys ts) (list_active (sr_registry s3)) s3))"
proof (cases "sr_store s")
  case None
  with assms show ?thesis by (simp add: reconcile_locked_def)
next
  case (Some st)
  then obtain h where h: "get_state_hash (ne_state_hash env) st = Inr h"
    using assms by (cases "get_state_hash (ne_state_hash env) st") (simp_all add: reconcile_locked_def)
  show ?thesis
  proof (cases "h = sr_last_hash s")
    case True
    with assms Some h show ?thesis by (simp add: reconcile_locked_def)
  next
    case False
    with assms Some h obtain d where d: "desired_state st = Inr d" "apply_desired_state env h d s = (None, s')"
      by (cases "desired_state st") (simp_all add: reconcile_locked_def)
    obtain ts ps bs where tpb: "d = (ts, ps, bs)" by (cases d)
    from apply_desired_state_ok [OF d(2) [unfolded tpb]] obtain s2 s3 where
      f: "flush_plugin_binding_targets (ne_cache env) (snapshot_bindings (case sr_plugins s of None \<Rightarrow> new_plugin_registry | p \<Rightarrow> p) @
          snapshot_bindings (Some (build_plugin_binding_snapshot (ne_admission env) ps bs ts)))
        (s\<lparr> sr_plugins := (case sr_plugins s of None \<Rightarrow> new_plugin_registry | p \<Rightarrow> p),
            sr_generation := sr_generation s + 1 \<rparr>) = (None, s2)"
      and r: "register_desired env ts (s2\<lparr> sr_plugins := plugin_registry_replace
          (build_plugin_binding_snapshot (ne_admission env) ps bs ts)
          (case sr_plugins s of None \<Rightarrow> new_plugin_registry | p \<Rightarrow> p) \<rparr>) = (None, s3)"
      and s': "s' = (deregister_stale env (desired_keys ts) (list_active (sr_registry s3)) s3)\<lparr> sr_last_hash := h \<rparr>"
      by blast
    from flush_bindings_keeps(1) [OF f] have s2: "sr_registry s2 = sr_registry s" by simp
    let ?s2 = "s2\<lparr> sr_plugins := plugin_registry_replace (build_plugin_binding_snapshot (ne_admission env) ps bs ts)
          (case sr_plugins s of None \<Rightarrow> new_plugin_registry | p \<Rightarrow> p) \<rparr>"
    have "sr_registry ?s2 = sr_registry s" by (simp add: s2)
    moreover have "sr_registry s' = sr_registry (deregister_stale env (desired_keys ts) (list_active (sr_registry s3)) s3)"
      by (simp add: s')
    ultimately show ?thesis
      by (intro disjI2 exI [of _ st] exI [of _ ts] exI [of _ ?s2] exI [of _ s3] conjI Some r
          desired_state_tools(1) [OF d(1) [unfolded tpb]])
  qed
qed

lemma list_tools_at:
  assumes "store_inv st" and "list_tools st = Inr ts"
  shows "t \<in> set ts \<longleftrightarrow> tool_at st (tool_name t) (tool_version t) = Some t"
proof -
  note wf = store_invD(1) [OF assms(1)]
  have "set ts = row_data ` set (st_tools st)"
    using assms(2) by (auto simp: list_tools_def sort_rows_def split: if_splits)
  moreover have "row_name r = tool_name (row_data r) \<and> row_version r = tool_version (row_data r)" if "r \<in> set (st_tools st)" for r
    using wf that by (auto simp: tool_rows_wf_def list_all_iff row_ok_def)
  ultimately show ?thesis using tool_at_row [OF wf, of "tool_name t" "tool_version t" t] by auto
qed

lemma reconcile_keeps_shown:
  assumes "reconcile_locked env s = (None, s')" and "sr_store s = Some st" and "store_inv st"
    and "registry_inv (ne_semver env) (sr_registry s)"
    and "tool_at st n v = Some u" and "tool_active u" and "tool_digest u = d" and "shows_digest (sr_registry s) n v d"
  shows "registry_inv (ne_semver env) (sr_registry s') \<and> shows_digest (sr_registry s') n v d"
  using reconcile_registry [OF assms(1)]
proof (elim disjE exE conjE)
  assume "sr_registry s' = sr_registry s"
  with assms show ?thesis by simp
next
  fix st' ts s2 s3
  assume st': "sr_store s = Some st'" "list_tools st' = Inr ts" and s2: "sr_registry s2 = sr_registry s"
    and run: "register_desired env ts s2 = (None, s3)"
    and s': "sr_registry s' = sr_registry (deregister_stale env (desired_keys ts) (list_active (sr_registry s3)) s3)"
  from st' assms(2) have ts: "list_tools st = Inr ts" by simp
  note key = tool_at_key [OF store_invD(1) [OF assms(3)] assms(5)]
  have "registry_inv (ne_semver env) (sr_registry s3) \<and> shows_digest (sr_registry s3) n v d"
  proof (rule register_desired_induct [OF run])
    show "registry_inv (ne_semver env) (sr_registry s2) \<and> shows_digest (sr_registry s2) n v d" using s2 assms(4,8) by simp
    fix dt t r r'
    assume dt: "dt \<in> set ts" and t: "tool_name t = tool_name dt" "tool_version t = tool_version dt"
      "tool_digest t = tool_digest dt" "tool_active t"
      and add: "registry_add (ne_semver env) False t r = (None, r')"
      and P: "registry_inv (ne_semver env) r \<and> shows_digest r n v d"
    have "dt = u" if "(tool_name t, tool_version t) = (n, v)"
      using list_tools_at [OF assms(3) ts, of dt] dt t(1,2) that assms(5) by simp
    with registration_keeps_shown [OF add] P t(3,4) assms(7) registry_add_inv [OF _ add]
    show "registry_inv (ne_semver env) r' \<and> shows_digest r' n v d" by blast
  qed
  moreover have "n @ ''@'' @ v \<in> set (desired_keys ts)"
    using list_tools_at [OF assms(3) ts, of u] key assms(5,6) by (force simp: desired_keys_def tool_resource_key_def)
  ultimately show ?thesis
    using stale_clearedD(1,2) [OF deregister_stale_clears] unfolding s' shows_digest_def by metis
qed

lemma reconcile_keeps_hidden:
  assumes "reconcile_locked env s = (None, s')" and "sr_store s = Some st" and "store_inv st"
    and "registry_inv (ne_semver env) (sr_registry s)"
    and "\<And>u. tool_at st n v = Some u \<Longrightarrow> \<not> tool_active u" and "shows_nothing (sr_registry s) n v"
  shows "shows_nothing (sr_registry s') n v"
  using reconcile_registry [OF assms(1)]
proof (elim disjE exE conjE)
  assume "sr_registry s' = sr_registry s"
  with assms show ?thesis by simp
next
  fix st' ts s2 s3
  assume st': "sr_store s = Some st'" "list_tools st' = Inr ts" and s2: "sr_registry s2 = sr_registry s"
    and run: "register_desired env ts s2 = (None, s3)"
    and s': "sr_registry s' = sr_registry (deregister_stale env (desired_keys ts) (list_active (sr_registry s3)) s3)"
  from st' assms(2) have ts: "list_tools st = Inr ts" by simp
  have s3: "registry_inv (ne_semver env) (sr_registry s3) \<and> shows_nothing (sr_registry s3) n v"
  proof (rule register_desired_induct [OF run])
    show "registry_inv (ne_semver env) (sr_registry s2) \<and> shows_nothing (sr_registry s2) n v" using s2 assms(4,6) by simp
    fix dt t r r'
    assume dt: "dt \<in> set ts" "tool_active dt" and t: "tool_name t = tool_name dt" "tool_version t = tool_version dt"
      and add: "registry_add (ne_semver env) False t r = (None, r')"
      and P: "registry_inv (ne_semver env) r \<and> shows_nothing r n v"
    have "(n, v) \<noteq> (tool_name t, tool_version t)"
      using list_tools_at [OF assms(3) ts, of dt] dt t assms(5) by auto
    with registration_keeps_hidden [OF add] P registry_add_inv [OF _ add]
    show "registry_inv (ne_semver env) r' \<and> shows_nothing r' n v" by blast
  qed
  then have inv3: "registry_inv (ne_semver env) (sr_registry s3)" and hidden: "shows_nothing (sr_registry s3) n v" by blast+
  show ?thesis
    using stale_clearedD(3) [OF deregister_stale_clears [OF inv3, of "desired_keys ts" "list_active (sr_registry s3)" env]] hidden
    unfolding s' shows_nothing_def by blast
qed

subsection \<open>What an accepted change means\<close>

lemma refuse_not_answer [simp]: "refuse a b c d \<noteq> Answer n p" "refuse_internal a b \<noteq> Answer n p"
  by (simp_all add: refuse_def refuse_internal_def)

lemma pending_not_done [simp]: "reconciliation_pending = Answer n p \<longleftrightarrow> n = 202 \<and>
    p = PFields [(''status'', JStr ''pending''), (''code'', JStr ''RECONCILIATION_PENDING''),
     (''message'', JStr ''desired state is stored and awaits successful reconciliation'')]"
  by (auto simp: reconciliation_pending_def)

lemma reconcile_then_done:
  "reconcile_then env answer s = (Answer n p, s') \<Longrightarrow> n \<noteq> 202 \<Longrightarrow> reconcile_locked env s = (None, s') \<and> answer = Answer n p"
  by (auto simp: reconcile_then_def split: prod.splits option.splits)

lemma handle_tool_apply_created:
  assumes "handle_tool_apply env c body s = (Answer 201 payload, s')"
  shows "\<exists>t0 t st s1 actor admitted st' s2. body = Some t0 \<and> validate_tool (ne_base_url env) t0 = Inr t \<and>
     sr_store s = Some st \<and> sr_registry s1 = sr_registry s \<and> sr_world s1 = sr_world s \<and>
     admit (ne_digest env) (set_admission [] None (set_active_flag True t)) actor st = (Inr admitted, st') \<and>
     register_tool env True admitted (s1\<lparr> sr_store := Some st' \<rparr>) = (None, s2) \<and>
     reconcile_locked env s2 = (None, s') \<and> tool_applied admitted = Answer 201 payload"
proof -
  obtain t0 where t0: "body = Some t0" using assms by (cases body) (simp_all add: handle_tool_apply_def)
  obtain t where t: "validate_tool (ne_base_url env) t0 = Inr t"
    using assms t0 by (cases "validate_tool (ne_base_url env) t0") (simp_all add: handle_tool_apply_def)
  obtain st where st: "sr_store s = Some st" using assms t0 t by (cases "sr_store s") (simp_all add: handle_tool_apply_def)
  obtain affected where affected: "list_plugin_bindings_for_tool (tool_name t) (tool_version t) st = Inr affected"
    using assms t0 t st
    by (cases "list_plugin_bindings_for_tool (tool_name t) (tool_version t) st") (simp_all add: handle_tool_apply_def)
  obtain e s1 where flush: "flush_plugin_binding_targets (ne_cache env) (map Some affected) s = (e, s1)" by (rule prod.exhaust)
  have e: "e = None" using assms t0 t st affected flush by (cases e) (simp_all add: handle_tool_apply_def)
  let ?actor = "case cx_identity c of None \<Rightarrow> [] | Some identity \<Rightarrow> id_principal identity"
  obtain r st' where adm: "admit (ne_digest env) (set_admission [] None (set_active_flag True t)) ?actor st = (r, st')"
    by (rule prod.exhaust)
  note run = assms [unfolded t0 handle_tool_apply_def option.case t sum.case st affected flush prod.case e adm]
  obtain admitted where r: "r = Inr admitted"
  proof (cases r)
    case (Inl err)
    with run show ?thesis by (cases err) simp_all
  qed (use that in simp)
  obtain e2 s2 where reg: "register_tool env True admitted (s1\<lparr> sr_store := Some st' \<rparr>) = (e2, s2)" by (rule prod.exhaust)
  have "e2 = None" using run reg r by (cases e2) (simp_all add: register_admitted_def)
  with run reg r have "reconcile_locked env s2 = (None, s') \<and> tool_applied admitted = Answer 201 payload"
    by (intro reconcile_then_done) (simp_all add: register_admitted_def)
  with t0 t st adm r reg \<open>e2 = None\<close> flush_bindings_keeps(1,6) [OF flush] show ?thesis by blast
qed

lemma validate_tool_version: "validate_tool base t = Inr t' \<Longrightarrow> tool_version t' \<noteq> []"
proof -
  assume t': "validate_tool base t = Inr t'"
  then have "validate_identity t = Inr ()"
    by (cases "validate_limits t"; cases "validate_credential_fields (ts_security (tl_spec t))"; cases "validate_identity t")
      (simp_all add: validate_tool_def)
  then have "tool_version t \<noteq> []" by (auto simp: validate_identity_def split: if_splits)
  with validate_tool_name(2) [OF t'] show ?thesis by simp
qed

lemma register_default_shown:
  assumes "registry_add sv dflt t r = (None, r')" and "tool_active t"
  shows "shows_digest r' (tool_name t) (tool_version t) (tool_digest t)"
proof -
  have sv: "sv_new sv (tool_version t) \<noteq> None"
    using assms by (cases "sv_new sv (tool_version t)") (simp_all add: registry_add_def Let_def)
  with assms show ?thesis
    by (auto simp: registry_add_put [OF sv] shows_digest_def set_serving_revision(1) revision_at_put split: if_splits)
qed

lemma submitted_content: "canonical_tool (set_admission [] None (set_active_flag True t)) = canonical_tool t"
  by (simp add: canonical_tool_def clone_tool_def set_admission_def set_active_flag_def map_metadata_def)

text \<open>
  C35: an applied tool is callable, with the content that was submitted. When the apply endpoint
  answers 201, the submitted tool passed validation, the store holds under its name and version
  an active revision whose reviewed content is that of the validated tool and whose digest is
  the digest of that content, the one the answer reports; the registry resolves the exact
  version to that digest, both invariants hold, and neither the ERP nor a plugin was called.
\<close>

theorem applied_tool_callable:
  assumes "handle_tool_apply env c body s = (Answer 201 payload, s')" and "sr_store s = Some st" and "store_inv st"
    and "registry_inv (ne_semver env) (sr_registry s)"
  shows "\<exists>submitted r d st' u t. body = Some submitted \<and> validate_tool (ne_base_url env) submitted = Inr r \<and>
     d = canonical_tool_digest (ne_digest env) r \<and>
     payload = PFields [(''status'', JStr ''applied''), (''name'', JStr (tool_name submitted)),
       (''version'', JStr (tool_version submitted)), (''resourceDigest'', JStr d)] \<and>
     sr_store s' = Some st' \<and> store_inv st' \<and> registry_inv (ne_semver env) (sr_registry s') \<and>
     tool_at st' (tool_name submitted) (tool_version submitted) = Some u \<and> tool_active u \<and> tool_digest u = d \<and>
     canonical_tool u = canonical_tool r \<and>
     resolve (ne_semver env) (tool_name submitted) (tool_version submitted) (sr_registry s') = Inr t \<and> tool_digest t = d \<and>
     sr_world s' = sr_world s"
proof -
  from handle_tool_apply_created [OF assms(1)] obtain t0 t s1 actor a st' s2 where
    body: "body = Some t0" and t: "validate_tool (ne_base_url env) t0 = Inr t" and s1: "sr_registry s1 = sr_registry s" "sr_world s1 = sr_world s"
    and adm: "admit (ne_digest env) (set_admission [] None (set_active_flag True t)) actor st = (Inr a, st')"
    and reg: "register_tool env True a (s1\<lparr> sr_store := Some st' \<rparr>) = (None, s2)"
    and rec: "reconcile_locked env s2 = (None, s')" and payload: "tool_applied a = Answer 201 payload"
    using assms(2) by auto
  note A = admit_ok [OF store_invD(1) [OF assms(3)] adm]
  have inv': "store_inv st'" by (rule admit_inv [OF assms(3) adm])
  have at: "tool_at st' (tool_name a) (tool_version a) = Some (stored_form a)" and active: "tool_active a"
    and digest: "canonical_tool_digest (ne_digest env) (stored_form a) = tool_digest a"
    using A(4-8,10) by (simp_all add: canonical_tool_digest_def)
  from register_tool_added [OF reg] s1 obtain t2 where t2: "tool_name t2 = tool_name a" "tool_version t2 = tool_version a"
      "tool_digest t2 = tool_digest a" "tool_active t2"
    and add: "registry_add (ne_semver env) True t2 (sr_registry s) = (None, sr_registry s2)" by auto
  have store2: "sr_store s2 = Some st'" and world2: "sr_world s2 = sr_world s"
    using register_tool_keeps [OF reg] s1 by simp_all
  have shown: "registry_inv (ne_semver env) (sr_registry s') \<and>
      shows_digest (sr_registry s') (tool_name a) (tool_version a) (tool_digest a)"
    by (rule reconcile_keeps_shown [OF rec store2 inv' registry_add_inv [OF assms(4) add] at])
      (use register_default_shown [OF add t2(4)] t2 active in simp_all)
  have "tool_version a \<noteq> []" using A(5) validate_tool_version [OF t] by simp
  with shown obtain u where "resolve (ne_semver env) (tool_name a) (tool_version a) (sr_registry s') = Inr (clone_tool u)"
      "tool_digest u = tool_digest a"
    by (auto simp: shows_digest_def resolve_def revision_at_def split: option.splits)
  moreover have "tool_name a = tool_name t0" "tool_version a = tool_version t0" using A(4,5) t by simp_all
  moreover have "canonical_tool (stored_form a) = canonical_tool t" "tool_digest a = canonical_tool_digest (ne_digest env) t"
    using A(7,8) by (simp_all add: canonical_tool_digest_def submitted_content)
  ultimately show ?thesis using body t shown inv' at active digest payload reconcile_locked_keeps [OF rec] store2 world2
    by (intro exI [of _ t0] exI [of _ t] exI [of _ "tool_digest a"] exI [of _ st']
          exI [of _ "stored_form a"] exI [of _ "clone_tool u"]) (simp add: tool_applied_def)
qed

theorem applied_tool_callable_witness:
  "\<exists>s' st' t. handle_tool_apply sample_env background_ctx (Some approved_tool) (sample_server new_tool_registry) =
       (Answer 201 (PFields [(''status'', JStr ''applied''), (''name'', JStr ''t''), (''version'', JStr ''1''),
          (''resourceDigest'', JStr ''t@1'')]), s') \<and>
     sr_store s' = Some st' \<and> resolve any_semver ''t'' ''1'' (sr_registry s') = Inr t \<and> tool_digest t = ''t@1''"
proof -
  let ?s = "sample_server new_tool_registry"
  let ?answer = "Answer 201 (PFields [(''status'', JStr ''applied''), (''name'', JStr ''t''), (''version'', JStr ''1''),
          (''resourceDigest'', JStr ''t@1'')])"
  have "fst (handle_tool_apply sample_env background_ctx (Some approved_tool) ?s) = ?answer" by code_simp
  then obtain s' where run: "handle_tool_apply sample_env background_ctx (Some approved_tool) ?s = (?answer, s')"
    by (metis prod.collapse)
  have st: "sr_store ?s = Some (empty_store 0)" and sv: "ne_semver sample_env = any_semver"
    and inv: "registry_inv (ne_semver sample_env) (sr_registry ?s)"
    by (simp_all add: sample_server_def sample_env_def new_tool_registry_inv)
  from applied_tool_callable [OF run st empty_store_inv inv] obtain d st' t where
    *: "''t'' = tool_name approved_tool" "''1'' = tool_version approved_tool" "''t@1'' = d" "sr_store s' = Some st'"
      "resolve any_semver (tool_name approved_tool) (tool_version approved_tool) (sr_registry s') = Inr t" "tool_digest t = d"
    unfolding sv by auto
  from *(5) have "resolve any_semver ''t'' ''1'' (sr_registry s') = Inr t" unfolding *(1,2) .
  with run *(3,4,6) show ?thesis by blast
qed

lemma handle_tool_delete_done:
  assumes "handle_tool_delete env q s = (Answer 204 payload, s')"
  defines "n \<equiv> query_get q ''name''" and "v \<equiv> query_get q ''version''"
  shows "\<exists>st s1 st'. n \<noteq> [] \<and> v \<noteq> [] \<and> sr_store s = Some st \<and> sr_registry s1 = sr_registry s \<and> sr_world s1 = sr_world s \<and>
     (hard_delete_tool n v st = (None, st') \<or> delete_tool n v st = (None, st')) \<and>
     reconcile_locked env ((deregister_tool env n v s1)\<lparr> sr_store := Some st' \<rparr>) = (None, s')"
proof -
  note run = assms(1) [unfolded handle_tool_delete_def Let_def, folded n_def v_def]
  have nv: "n \<noteq> []" "v \<noteq> []" using run by (auto split: if_splits)
  then have nv': "(n = [] \<or> v = []) = False" by simp
  obtain st where st: "sr_store s = Some st" using run nv by (cases "sr_store s") simp_all
  obtain affected where affected: "list_plugin_bindings_for_tool n v st = Inr affected"
    using run nv st by (cases "list_plugin_bindings_for_tool n v st") simp_all
  obtain e s1 where flush: "flush_plugin_binding_targets (ne_cache env) (map Some affected) s = (e, s1)" by (rule prod.exhaust)
  note run1 = run [unfolded nv' if_False st option.case affected sum.case flush prod.case]
  have e: "e = None" using run1 by (cases e) simp_all
  obtain e2 st' where del: "(if query_get q ''hard'' = ''true'' then hard_delete_tool n v st else delete_tool n v st) = (e2, st')"
    by (rule prod.exhaust)
  note run2 = run1 [unfolded e option.case del prod.case]
  have e2: "e2 = None" using run2 by (cases e2) simp_all
  with run2 have "reconcile_locked env ((deregister_tool env n v s1)\<lparr> sr_store := Some st' \<rparr>) = (None, s')"
    using reconcile_then_done [of env "Answer 204 PEmpty" "(deregister_tool env n v s1)\<lparr> sr_store := Some st' \<rparr>" 204 payload s'] by simp
  with nv st del e2 flush_bindings_keeps(1,6) [OF flush] show ?thesis by (auto split: if_splits)
qed

lemma deleted_not_active:
  assumes "store_inv st" and "hard_delete_tool n v st = (None, st') \<or> delete_tool n v st = (None, st')"
  shows "store_inv st' \<and> (\<forall>u. tool_at st' n v = Some u \<longrightarrow> \<not> tool_active u)"
  using assms(2)
proof
  assume del: "hard_delete_tool n v st = (None, st')"
  then have "\<not> st_down st" by (auto simp: hard_delete_tool_def)
  from hard_delete_at [OF this del] hard_delete_tool_inv [OF assms(1) del] show ?thesis by simp
next
  assume del: "delete_tool n v st = (None, st')"
  then obtain t where t: "get_tool n v st = Inr t" "st' = save_tool_with (set_serving_flag False (set_active_flag False t)) st"
    by (auto simp: delete_tool_def save_tool_def split: sum.splits if_splits)
  then have "tool_at st n v = Some t" by (auto simp: get_tool_def tool_at_def split: if_splits option.splits)
  with t tool_at_key [OF store_invD(1) [OF assms(1)]] delete_tool_inv [OF assms(1) del] show ?thesis
    by (auto simp: tool_at_save)
qed

text \<open>
  C36: a deleted tool is gone. When the delete endpoint answers 204, the store holds no active
  revision of that name and version, neither does the registry, and if the registry keeps a
  record of it, every call of it - by whatever copy of the tool, prepared at whatever time -
  is refused its dispatch. The ERP was not called.
\<close>

theorem deleted_tool_gone:
  assumes "handle_tool_delete env q s = (Answer 204 payload, s')" and "sr_store s = Some st" and "store_inv st"
    and "registry_inv (ne_semver env) (sr_registry s)"
    and "query_get q ''name'' = n" and "query_get q ''version'' = v"
  shows "(\<forall>u. revision_at (sr_registry s') n v = Some u \<longrightarrow> \<not> tool_active u) \<and>
     (\<forall>st' u. sr_store s' = Some st' \<and> tool_at st' n v = Some u \<longrightarrow> \<not> tool_active u) \<and>
     (\<forall>t. revision_at (sr_registry s') n v \<noteq> None \<and> tool_name t = n \<and> tool_version t = v \<longrightarrow>
        \<not> revision_active (ne_semver env) t (sr_registry s')) \<and>
     sr_world s' = sr_world s"
proof -
  from handle_tool_delete_done [OF assms(1)] assms(2,5,6) obtain s1 st' where
    nv: "v \<noteq> []" and s1: "sr_registry s1 = sr_registry s" "sr_world s1 = sr_world s"
    and del: "hard_delete_tool n v st = (None, st') \<or> delete_tool n v st = (None, st')"
    and rec: "reconcile_locked env ((deregister_tool env n v s1)\<lparr> sr_store := Some st' \<rparr>) = (None, s')"
    by auto
  let ?s2 = "(deregister_tool env n v s1)\<lparr> sr_store := Some st' \<rparr>"
  note gone = deleted_not_active [OF assms(3) del]
  have reg2: "sr_registry ?s2 = registry_remove n v (sr_registry s)" using s1 by simp
  have inv2: "registry_inv (ne_semver env) (sr_registry ?s2)" unfolding reg2 by (rule registry_remove_inv [OF assms(4)])
  have "shows_nothing (sr_registry ?s2) n v"
    unfolding reg2 using registry_remove_revision(1) [of "sr_registry s" n v] registry_remove_absent [of "sr_registry s" n v]
    by (cases "revision_at (sr_registry s) n v") (auto simp: shows_nothing_def)
  then have hidden: "shows_nothing (sr_registry s') n v"
    using reconcile_keeps_hidden [OF rec _ conjunct1 [OF gone] inv2, of n v] gone by simp
  have store: "sr_store s' = Some st'" "sr_world s' = sr_world s" using reconcile_locked_keeps [OF rec] s1 by simp_all
  have "\<not> revision_active (ne_semver env) t (sr_registry s')"
    if "revision_at (sr_registry s') n v \<noteq> None" "tool_name t = n" "tool_version t = v" for t
    using withdrawn_inactive [of "sr_registry s'" t] that hidden nv by (auto simp: withdrawn_def shows_nothing_def)
  with hidden gone store show ?thesis by (auto simp: shows_nothing_def)
qed

definition served_server :: "(nat, payload memory_backend, timestamp) server" where
  "served_server = approved_server\<lparr> sr_store := Some stored_sample \<rparr>"

theorem deleted_tool_gone_witness:
  "\<exists>s'. handle_tool_delete sample_env [(''name'', ''t''), (''version'', ''1'')] served_server = (Answer 204 PEmpty, s') \<and>
     revision_active any_semver approved_tool (sr_registry served_server) \<and>
     revision_at (sr_registry s') ''t'' ''1'' \<noteq> None \<and> \<not> revision_active any_semver approved_tool (sr_registry s')"
proof -
  let ?q = "[(''name'', ''t''), (''version'', ''1'')]"
  have "fst (handle_tool_delete sample_env ?q served_server) = Answer 204 PEmpty" by code_simp
  then obtain s' where run: "handle_tool_delete sample_env ?q served_server = (Answer 204 PEmpty, s')" by (metis prod.collapse)
  have "revision_at (sr_registry (snd (handle_tool_delete sample_env ?q served_server))) ''t'' ''1'' \<noteq> None" by code_simp
  then have at: "revision_at (sr_registry s') ''t'' ''1'' \<noteq> None" using run by simp
  have inv: "store_inv stored_sample"
    unfolding stored_sample_def by (rule admit_inv [OF empty_store_inv surjective_pairing])
  have before: "revision_active any_semver approved_tool (sr_registry served_server)" by code_simp
  have name: "tool_name approved_tool = ''t''" "tool_version approved_tool = ''1''" by code_simp+
  have sv: "ne_semver sample_env = any_semver" by (simp add: sample_env_def)
  have reg: "registry_inv (ne_semver sample_env) (sr_registry served_server)"
    unfolding sv by (simp add: served_server_def approved_server_def sample_server_def
        registry_add_inv [OF new_tool_registry_inv surjective_pairing])
  have "sr_store served_server = Some stored_sample" by (simp add: served_server_def)
  from deleted_tool_gone [OF run this inv reg, of "''t''" "''1''"] at name sv
  have "\<not> revision_active any_semver approved_tool (sr_registry s')" by (simp add: query_get_def)
  with run before at show ?thesis by blast
qed

end
