(* ===== verification/Plugin_Api.thy ===== *)
theory Plugin_Api
  imports Tool_Api
begin

text \<open>
  internal/mcp/plugin_api.go: the control-plane handlers for plugins and plugin bindings.
  The strict decoder rejects unknown fields and trailing documents; its error is a message
  here. Every change is made in the same order: validate, invalidate the cached results of
  the tools it touches, store, reconcile.
\<close>

subsection \<open>Admission\<close>

text \<open>A plugin that carries a credential needs an administrator and an allowlisted endpoint.\<close>

definition credentialed_plugin_admission :: "admission_env \<Rightarrow> ctx \<Rightarrow> plugin \<Rightarrow> string + unit" where
  "credentialed_plugin_admission penv c p =
     (if ps_auth (pl_spec p) = None then Inr ()
      else if trim_space (pe_auth_token penv) = [] then Inl ''credentialed plugins require authentication to be configured''
      else case cx_identity c of
        None \<Rightarrow> Inl ''credentialed plugins require an authenticated admin''
      | Some identity \<Rightarrow>
          if \<not> id_is_admin identity then Inl ''credentialed plugins require an authenticated admin''
          else (case plugin_endpoint_host_port (ps_endpoint (pl_spec p)) of
              Inl e \<Rightarrow> Inl (''normalize plugin endpoint: '' @ e)
            | Inr endpoint \<Rightarrow>
                if plugin_endpoint_allowlisted penv endpoint then Inr ()
                else Inl (''plugin endpoint '' @ endpoint @ '' is not in PLUGIN_ENDPOINT_ALLOWLIST'')))"

definition validate_plugin_binding_references ::
  "admission_env \<Rightarrow> ctx \<Rightarrow> plugin_binding \<Rightarrow> store \<Rightarrow> string + unit" where
  "validate_plugin_binding_references penv c b st =
     (let pref = bs_plugin_ref (pb_spec b); tref = bs_tool_ref (pb_spec b) in
      case get_plugin (rf_name pref) (rf_version pref) st of
        Inl _ \<Rightarrow> Inl (''plugin '' @ ref_key pref @ '' is not active'')
      | Inr p \<Rightarrow>
          if \<not> pm_is_active (pl_metadata p) then Inl (''plugin '' @ ref_key pref @ '' is not active'')
          else (case get_tool (rf_name tref) (rf_version tref) st of
              Inl _ \<Rightarrow> Inl (''tool '' @ ref_key tref @ '' is not active'')
            | Inr t \<Rightarrow>
                if \<not> tool_active t then Inl (''tool '' @ ref_key tref @ '' is not active'')
                else if binding_phase b = phase_raw_response then
                  (case raw_binding_runtime_admission penv p t of
                     Inl e \<Rightarrow> Inl e
                   | Inr _ \<Rightarrow> (case cx_identity c of
                         Some identity \<Rightarrow> if id_is_admin identity then Inr ()
                           else Inl ''raw response bindings require an authenticated admin''
                       | None \<Rightarrow> Inl ''raw response bindings require an authenticated admin''))
                else Inr ()))"

definition bindings_referencing_plugin :: "string \<Rightarrow> string \<Rightarrow> store \<Rightarrow> store_err + plugin_binding list" where
  "bindings_referencing_plugin name version st = (case list_plugin_bindings st of
       Inl e \<Rightarrow> Inl e
     | Inr bs \<Rightarrow> Inr (filter (\<lambda>b. rf_name (bs_plugin_ref (pb_spec b)) = name \<and> rf_version (bs_plugin_ref (pb_spec b)) = version) bs))"

subsection \<open>Plugins\<close>

text \<open>
  The end of every change: the store's operation, then reconciliation. \<open>fail\<close> is the
  answer to an error of the store.
\<close>

definition store_then_reconcile ::
  "('w, 'b, 'l, 'r, 'v, 'c) server_env \<Rightarrow> (store \<Rightarrow> store_err option \<times> store) \<Rightarrow> (store_err \<Rightarrow> api_response) \<Rightarrow> api_response \<Rightarrow>
     store \<Rightarrow> ('w, 'b, 'l) server \<Rightarrow> api_response \<times> ('w, 'b, 'l) server" where
  "store_then_reconcile env change fail answer st s = (case change st of
       (Some e, st') \<Rightarrow> (fail e, s\<lparr> sr_store := Some st' \<rparr>)
     | (None, st') \<Rightarrow> reconcile_then env answer (s\<lparr> sr_store := Some st' \<rparr>))"

definition flush_then ::
  "('w, 'b, 'l, 'r, 'v, 'c) server_env \<Rightarrow> plugin_binding list \<Rightarrow> (('w, 'b, 'l) server \<Rightarrow> api_response \<times> ('w, 'b, 'l) server) \<Rightarrow>
     ('w, 'b, 'l) server \<Rightarrow> api_response \<times> ('w, 'b, 'l) server" where
  "flush_then env affected k s = (case flush_plugin_binding_targets (ne_cache env) (map Some affected) s of
       (Some _, s1) \<Rightarrow> (cache_failed, s1)
     | (None, s1) \<Rightarrow> k s1)"

definition set_plugin_active :: "bool \<Rightarrow> plugin \<Rightarrow> plugin" where
  "set_plugin_active b p = p\<lparr> pl_metadata := (pl_metadata p)\<lparr> pm_is_active := b \<rparr> \<rparr>"

definition set_binding_active :: "bool \<Rightarrow> plugin_binding \<Rightarrow> plugin_binding" where
  "set_binding_active a b = b\<lparr> pb_metadata := (pb_metadata b)\<lparr> bm_is_active := a \<rparr> \<rparr>"

definition handle_plugin_apply ::
  "('w, 'b, 'l, 'r, 'v, 'c) server_env \<Rightarrow> ctx \<Rightarrow> string + plugin \<Rightarrow> ('w, 'b, 'l) server \<Rightarrow> api_response \<times> ('w, 'b, 'l) server" where
  "handle_plugin_apply env c body s = (case body of
       Inl message \<Rightarrow> (refuse 400 ''VALIDATION_FAILED'' message ''submit one valid plugin resource'', s)
     | Inr p0 \<Rightarrow> (case plugin_validate (ne_semver env) p0 of
         (Inl _, _) \<Rightarrow> (refuse 422 ''VALIDATION_FAILED'' ''the plugin resource failed validation''
                          ''review the plugin metadata and specification'', s)
       | (Inr _, p) \<Rightarrow> (case credentialed_plugin_admission (ne_admission env) c p of
           Inl _ \<Rightarrow> (refuse 422 ''AUTHORIZATION_DENIED'' ''the plugin resource is not authorized''
                      ''use an authenticated administrator and an allowed endpoint'', s)
         | Inr _ \<Rightarrow> (case sr_store s of
             None \<Rightarrow> (storage_missing, s)
           | Some st \<Rightarrow> (case bindings_referencing_plugin (pm_name (pl_metadata p)) (pm_version (pl_metadata p)) st of
               Inl _ \<Rightarrow> (storage_failed, s)
             | Inr affected \<Rightarrow> flush_then env affected
                 (store_then_reconcile env (save_plugin (set_plugin_active True p)) (\<lambda>_. storage_failed)
                    (Answer 201 (PFields [(''status'', JStr ''applied''), (''name'', JStr (pm_name (pl_metadata p))),
                       (''version'', JStr (pm_version (pl_metadata p)))])) st) s)))))"

definition handle_plugin_list :: "url_query \<Rightarrow> ('w, 'b, 'l) server \<Rightarrow> api_response" where
  "handle_plugin_list q s = (case sr_store s of
       None \<Rightarrow> storage_missing
     | Some st \<Rightarrow> (case list_plugins st of
         Inl _ \<Rightarrow> storage_failed
       | Inr ps \<Rightarrow> Answer 200 (PPlugins (filter (\<lambda>p. matches_filter (query_get q ''name'') (pm_name (pl_metadata p)) \<and>
                       matches_filter (query_get q ''version'') (pm_version (pl_metadata p))) ps))))"

definition plugin_delete_failed :: "store_err \<Rightarrow> api_response" where
  "plugin_delete_failed e = (case e of
       PluginHasActiveBindings _ _ \<Rightarrow> refuse 409 ''REGISTRY_CONFLICT'' ''the plugin still has active bindings''
          ''remove the bindings before deleting the plugin''
     | _ \<Rightarrow> storage_failed)"

definition handle_plugin_delete ::
  "('w, 'b, 'l, 'r, 'v, 'c) server_env \<Rightarrow> url_query \<Rightarrow> ('w, 'b, 'l) server \<Rightarrow> api_response \<times> ('w, 'b, 'l) server" where
  "handle_plugin_delete env q s =
     (let name = query_get q ''name''; version = query_get q ''version'' in
      if name = [] \<or> version = []
      then (refuse 400 ''VALIDATION_FAILED'' ''plugin name and version are required'' ''provide both name and version'', s)
      else case sr_store s of
        None \<Rightarrow> (storage_missing, s)
      | Some st \<Rightarrow> (case bindings_referencing_plugin name version st of
          Inl _ \<Rightarrow> (storage_failed, s)
        | Inr affected \<Rightarrow> flush_then env affected
            (store_then_reconcile env
               (if query_get q ''hard'' = ''true'' then hard_delete_plugin name version else delete_plugin name version)
               plugin_delete_failed (Answer 204 PEmpty) st) s))"

definition handle_plugin_api ::
  "('w, 'b, 'l, 'r, 'v, 'c) server_env \<Rightarrow> string \<Rightarrow> ctx \<Rightarrow> url_query \<Rightarrow> string + plugin \<Rightarrow> ('w, 'b, 'l) server \<Rightarrow>
     api_response \<times> ('w, 'b, 'l) server" where
  "handle_plugin_api env method c q body s =
     (if method = ''POST'' then handle_plugin_apply env c body s
      else if method = ''GET'' then (handle_plugin_list q s, s)
      else if method = ''DELETE'' then handle_plugin_delete env q s
      else (method_not_allowed ''use GET, POST, or DELETE for this resource'', s))"

subsection \<open>Bindings\<close>

text \<open>The bindings whose targets change: the stored one of that name, if any, and the new one.\<close>

definition replaced_bindings :: "plugin_binding \<Rightarrow> store \<Rightarrow> store_err + plugin_binding list" where
  "replaced_bindings b st = (case get_plugin_binding (bm_name (pb_metadata b)) st of
       Inr existing \<Rightarrow> Inr [existing, b]
     | Inl (BindingMissing _) \<Rightarrow> Inr [b]
     | Inl e \<Rightarrow> Inl e)"

definition handle_plugin_binding_apply ::
  "('w, 'b, 'l, 'r, 'v, 'c) server_env \<Rightarrow> ctx \<Rightarrow> string + plugin_binding \<Rightarrow> ('w, 'b, 'l) server \<Rightarrow>
     api_response \<times> ('w, 'b, 'l) server" where
  "handle_plugin_binding_apply env c body s = (case body of
       Inl message \<Rightarrow> (refuse 400 ''VALIDATION_FAILED'' message ''submit one valid plugin binding resource'', s)
     | Inr b0 \<Rightarrow> (case plugin_binding_validate (ne_semver env) b0 of
         Inl _ \<Rightarrow> (refuse 422 ''VALIDATION_FAILED'' ''the plugin binding resource failed validation''
                    ''review the binding metadata and references'', s)
       | Inr _ \<Rightarrow> (case sr_store s of
           None \<Rightarrow> (storage_missing, s)
         | Some st \<Rightarrow> (case validate_plugin_binding_references (ne_admission env) c b0 st of
             Inl _ \<Rightarrow> (refuse 422 ''VALIDATION_FAILED'' ''the plugin binding references are invalid''
                        ''ensure the plugin and tool are active and compatible'', s)
           | Inr _ \<Rightarrow>
               let b = set_binding_active True b0 in
               (case replaced_bindings b st of
                  Inl _ \<Rightarrow> (storage_failed, s)
                | Inr affected \<Rightarrow> flush_then env affected
                    (store_then_reconcile env (save_plugin_binding b) (\<lambda>_. storage_failed)
                       (Answer 201 (PFields [(''status'', JStr ''applied''), (''name'', JStr (bm_name (pb_metadata b)))])) st) s)))))"

definition binding_matches :: "url_query \<Rightarrow> plugin_binding \<Rightarrow> bool" where
  "binding_matches q b \<longleftrightarrow>
     matches_filter (query_get q ''name'') (bm_name (pb_metadata b)) \<and>
     matches_filter (query_get q ''pluginName'') (rf_name (bs_plugin_ref (pb_spec b))) \<and>
     matches_filter (query_get q ''pluginVersion'') (rf_version (bs_plugin_ref (pb_spec b))) \<and>
     matches_filter (query_get q ''toolName'') (rf_name (bs_tool_ref (pb_spec b))) \<and>
     matches_filter (query_get q ''toolVersion'') (rf_version (bs_tool_ref (pb_spec b)))"

definition handle_plugin_binding_list :: "url_query \<Rightarrow> ('w, 'b, 'l) server \<Rightarrow> api_response" where
  "handle_plugin_binding_list q s = (case sr_store s of
       None \<Rightarrow> storage_missing
     | Some st \<Rightarrow> (case list_plugin_bindings st of
         Inl _ \<Rightarrow> storage_failed
       | Inr bs \<Rightarrow> Answer 200 (PBindings (filter (binding_matches q) bs))))"

definition handle_plugin_binding_delete ::
  "('w, 'b, 'l, 'r, 'v, 'c) server_env \<Rightarrow> url_query \<Rightarrow> ('w, 'b, 'l) server \<Rightarrow> api_response \<times> ('w, 'b, 'l) server" where
  "handle_plugin_binding_delete env q s =
     (let name = query_get q ''name'' in
      if name = [] then (refuse 400 ''VALIDATION_FAILED'' ''plugin binding name is required'' ''provide a binding name'', s)
      else case sr_store s of
        None \<Rightarrow> (storage_missing, s)
      | Some st \<Rightarrow> (case get_plugin_binding name st of
          Inl _ \<Rightarrow> (refuse 404 ''RESOURCE_NOT_FOUND'' ''the requested plugin binding was not found'' ''check the binding name'', s)
        | Inr b \<Rightarrow> flush_then env [b]
            (store_then_reconcile env
               (if query_get q ''hard'' = ''true'' then hard_delete_plugin_binding name else delete_plugin_binding name)
               (\<lambda>_. storage_failed) (Answer 204 PEmpty) st) s))"

definition handle_plugin_binding_api ::
  "('w, 'b, 'l, 'r, 'v, 'c) server_env \<Rightarrow> string \<Rightarrow> ctx \<Rightarrow> url_query \<Rightarrow> string + plugin_binding \<Rightarrow> ('w, 'b, 'l) server \<Rightarrow>
     api_response \<times> ('w, 'b, 'l) server" where
  "handle_plugin_binding_api env method c q body s =
     (if method = ''POST'' then handle_plugin_binding_apply env c body s
      else if method = ''GET'' then (handle_plugin_binding_list q s, s)
      else if method = ''DELETE'' then handle_plugin_binding_delete env q s
      else (method_not_allowed ''use GET, POST, or DELETE for this resource'', s))"

subsection \<open>A change invalidates what it affects\<close>

context lawful_backend begin

lemma flush_targets_law:
  "inv b \<Longrightarrow> flush_targets be names first_err b = (err, b') \<Longrightarrow> inv b' \<and> shrinks (view b') (view b) \<and>
     (err = None \<longrightarrow> first_err = None \<and> (\<forall>name \<in> set names. \<forall>k. matches (tool_pattern name) k \<longrightarrow> view b' k = None))"
proof (induction names arbitrary: first_err b)
  case (Cons name names)
  obtain r b1 where r: "flush_tool_internal be name b = (r, b1)" by (cases "flush_tool_internal be name b")
  note law = flush_tool_internal_law [OF Cons.prems(1) r]
  show ?case
  proof (cases r)
    case (Inr n)
    with Cons.prems(2) r have "flush_targets be names first_err b1 = (err, b')" by simp
    from Cons.IH [OF law(1) this] law(2) law(3) [OF Inr] show ?thesis by (auto intro: shrinks_trans shrinks_None)
  next
    case (Inl e)
    with Cons.prems(2) r have "flush_targets be names (case first_err of None \<Rightarrow> Some e | e0 \<Rightarrow> e0) b1 = (err, b')" by simp
    from Cons.IH [OF law(1) this] law(2) show ?thesis by (cases first_err) (auto intro: shrinks_trans)
  qed
qed simp

end

lemma apply_desired_cache:
  assumes "apply_desired_state env h d s = (None, s')" and "ne_cache env = Some memory_ops" and "mem_inv (sr_cache s)"
  shows "mem_inv (sr_cache s') \<and> shrinks (live (sr_cache s')) (live (sr_cache s))"
proof -
  obtain ts ps bs where d: "d = (ts, ps, bs)" by (cases d)
  have reg: "sr_cache s3 = sr_cache s2" if "register_desired env ts s2 = (e, s3)" for e s2 s3
    using that
  proof (induction ts arbitrary: s2)
    case (Cons dt rest)
    obtain e1 s1 where r: "register_tool env False dt s2 = (e1, s1)" by (cases "register_tool env False dt s2")
    with Cons.prems Cons.IH [of s2] Cons.IH [of s1] register_tool_keeps [OF r] show ?case by (auto split: if_splits option.splits)
  qed simp
  have stale: "sr_cache (deregister_stale env keys xs s2) = sr_cache s2" for keys xs s2
    by (induction xs arbitrary: s2) simp_all
  let ?plugins = "case sr_plugins s of None \<Rightarrow> new_plugin_registry | p \<Rightarrow> p"
  let ?snapshot = "build_plugin_binding_snapshot (ne_admission env) ps bs ts"
  from apply_desired_state_ok [OF assms(1) [unfolded d]] obtain s2 s3 where
    f: "flush_plugin_binding_targets (ne_cache env) (snapshot_bindings ?plugins @ snapshot_bindings (Some ?snapshot))
        (s\<lparr> sr_plugins := ?plugins, sr_generation := sr_generation s + 1 \<rparr>) = (None, s2)"
    and r: "register_desired env ts (s2\<lparr> sr_plugins := plugin_registry_replace ?snapshot ?plugins \<rparr>) = (None, s3)"
    and s': "s' = (deregister_stale env (desired_keys ts) (list_active (sr_registry s3)) s3)\<lparr> sr_last_hash := h \<rparr>"
    by blast
  have "sr_cache s' = sr_cache s2" using reg [OF r] stale by (simp add: s')
  moreover have "flush_targets memory_ops (binding_targets (snapshot_bindings ?plugins @ snapshot_bindings (Some ?snapshot)))
      None (sr_cache s) = (None, sr_cache s2)"
    using f by (auto simp: flush_plugin_binding_targets_def assms(2) split: prod.splits)
  ultimately show ?thesis using mem_cache.flush_targets_law [OF assms(3)] by simp
qed

lemma reconcile_cache:
  assumes "reconcile_locked env s = (None, s')" and "ne_cache env = Some memory_ops" and "mem_inv (sr_cache s)"
  shows "mem_inv (sr_cache s') \<and> shrinks (live (sr_cache s')) (live (sr_cache s))"
proof (cases "s' = s")
  case False
  then obtain st h d where "sr_store s = Some st" "get_state_hash (ne_state_hash env) st = Inr h" "desired_state st = Inr d"
      "apply_desired_state env h d s = (None, s')"
    using assms(1) by (auto simp: reconcile_locked_def split: option.splits sum.splits if_splits)
  with apply_desired_cache assms(2,3) show ?thesis by blast
qed (use assms(3) in simp)

lemma flush_then_done:
  assumes "flush_then env affected (store_then_reconcile env change fail answer st) s = (Answer n p, s')"
    and "n \<noteq> 202" and "\<And>e m q. fail e \<noteq> Answer m q"
  shows "\<exists>s1 st'. flush_plugin_binding_targets (ne_cache env) (map Some affected) s = (None, s1) \<and>
     change st = (None, st') \<and> reconcile_locked env (s1\<lparr> sr_store := Some st' \<rparr>) = (None, s') \<and> answer = Answer n p"
proof -
  obtain e s1 where f: "flush_plugin_binding_targets (ne_cache env) (map Some affected) s = (e, s1)" by (rule prod.exhaust)
  note run = assms(1) [unfolded flush_then_def f prod.case]
  have e: "e = None" using run by (cases e) simp_all
  obtain e2 st' where c: "change st = (e2, st')" by (rule prod.exhaust)
  have e2: "e2 = None" using run assms(3) by (cases e2) (simp_all add: e store_then_reconcile_def c)
  from run have "reconcile_then env answer (s1\<lparr> sr_store := Some st' \<rparr>) = (Answer n p, s')"
    by (simp add: e e2 store_then_reconcile_def c)
  from reconcile_then_done [OF this assms(2)] f c e e2 show ?thesis by blast
qed

lemma flush_then_invalidates:
  assumes "flush_then env affected (store_then_reconcile env change fail answer st) s = (Answer n p, s')"
    and "n \<noteq> 202" and "\<And>e m q. fail e \<noteq> Answer m q"
    and "ne_cache env = Some memory_ops" and "mem_inv (sr_cache s)"
    and "b \<in> set affected" and "rf_name (bs_tool_ref (pb_spec b)) = name" and "name \<noteq> []"
    and "path_match (tool_pattern name) k = Some True"
  shows "live (sr_cache s') k = None"
proof -
  from flush_then_done [OF assms(1-3)] obtain s1 st' where
    f: "flush_plugin_binding_targets (ne_cache env) (map Some affected) s = (None, s1)"
    and rec: "reconcile_locked env (s1\<lparr> sr_store := Some st' \<rparr>) = (None, s')" by blast
  from f have targets: "flush_targets memory_ops (binding_targets (map Some affected)) None (sr_cache s) = (None, sr_cache s1)"
    by (auto simp: flush_plugin_binding_targets_def assms(4) split: prod.splits)
  have "name \<in> set (binding_targets (map Some affected))"
    using assms(6-8) by (force simp: binding_targets_def List.map_filter_def)
  with mem_cache.flush_targets_law [OF assms(5) targets] assms(9)
  have "mem_inv (sr_cache s1)" "live (sr_cache s1) k = None" by blast+
  with reconcile_cache [OF rec assms(4)] show ?thesis using shrinks_None by fastforce
qed

text \<open>
  A changed binding leaves no cached result behind. When a plugin binding is applied, by
  then no cached result is left of the tool it targets, nor of the tool that the binding of
  that name targeted before; a raw-response binding was accepted only from an administrator.
\<close>

theorem binding_change_invalidates:
  assumes "handle_plugin_binding_apply env c (Inr b) s = (Answer 201 payload, s')"
    and "ne_cache env = Some memory_ops" and "mem_inv (sr_cache s)" and "sr_store s = Some st"
    and "rf_name (bs_tool_ref (pb_spec b)) = name \<or>
      (\<exists>old. get_plugin_binding (bm_name (pb_metadata b)) st = Inr old \<and> rf_name (bs_tool_ref (pb_spec old)) = name)"
    and "name \<noteq> []" and "path_match (tool_pattern name) k = Some True"
  shows "live (sr_cache s') k = None \<and>
     (binding_phase b = phase_raw_response \<longrightarrow> (\<exists>identity. cx_identity c = Some identity \<and> id_is_admin identity))"
proof -
  note run = assms(1) [unfolded handle_plugin_binding_apply_def sum.case Let_def]
  have "plugin_binding_validate (ne_semver env) b = Inr ()"
    using run by (cases "plugin_binding_validate (ne_semver env) b") simp_all
  note run1 = run [unfolded this sum.case assms(4) option.case]
  have refs: "validate_plugin_binding_references (ne_admission env) c b st = Inr ()"
    using run1 by (cases "validate_plugin_binding_references (ne_admission env) c b st") simp_all
  note run2 = run1 [unfolded refs sum.case]
  obtain affected where aff: "replaced_bindings (set_binding_active True b) st = Inr affected"
    using run2 by (cases "replaced_bindings (set_binding_active True b) st") simp_all
  have "\<exists>x \<in> set affected. rf_name (bs_tool_ref (pb_spec x)) = name"
    using aff assms(5)
    by (auto simp: replaced_bindings_def set_binding_active_def split: sum.splits store_err.splits)
  then obtain x where x: "x \<in> set affected" "rf_name (bs_tool_ref (pb_spec x)) = name" by blast
  have "live (sr_cache s') k = None"
    by (rule flush_then_invalidates [OF run2 [unfolded aff sum.case] _ _ assms(2,3) x assms(6,7)]) simp_all
  moreover have "\<exists>identity. cx_identity c = Some identity \<and> id_is_admin identity" if "binding_phase b = phase_raw_response"
    using refs that by (auto simp: validate_plugin_binding_references_def Let_def split: sum.splits if_splits option.splits)
  ultimately show ?thesis by blast
qed

definition mask_binding :: plugin_binding where
  "mask_binding = \<lparr> pb_api_version = ''erpbridge.io/v1'', pb_kind = ''PluginBinding'',
     pb_metadata = \<lparr> bm_name = ''mask-t'', bm_is_active = False \<rparr>,
     pb_spec = \<lparr> bs_plugin_ref = \<lparr> rf_name = ''mask'', rf_version = ''1.0.0'' \<rparr>, bs_tool_ref = \<lparr> rf_name = ''t'', rf_version = ''1'' \<rparr>,
       bs_phase = ''after_response'', bs_priority = 0, bs_failure_policy = [], bs_config = [] \<rparr> \<rparr>"

definition caching_server :: "(nat, payload memory_backend, timestamp) server" where
  "caching_server = approved_server\<lparr> sr_store := Some (snd (save_plugin (sample_plugin ''mask'') stored_sample)),
     sr_last_hash := ''h'',
     sr_cache := snd (set_revision memory_ops id 0 ''t'' ''d'' [] [] (RawJSON JNull)
       \<lparr> cc_enabled = True, cc_ttl_seconds = 60, cc_is_read_only = False, cc_flush_on = [] \<rparr> (new_memory_backend 8 0)) \<rparr>"

theorem binding_change_invalidates_witness:
  "\<exists>k s'. live (sr_cache caching_server) k \<noteq> None \<and>
     handle_plugin_binding_apply sample_env background_ctx (Inr mask_binding) caching_server =
       (Answer 201 (PFields [(''status'', JStr ''applied''), (''name'', JStr ''mask-t'')]), s') \<and> live (sr_cache s') k = None"
proof -
  let ?run = "handle_plugin_binding_apply sample_env background_ctx (Inr mask_binding) caching_server"
  let ?k = "''exact:t:d:anonymous:empty''"
  have "fst ?run = Answer 201 (PFields [(''status'', JStr ''applied''), (''name'', JStr ''mask-t'')])" by code_simp
  then obtain s' where run: "?run = (Answer 201 (PFields [(''status'', JStr ''applied''), (''name'', JStr ''mask-t'')]), s')"
    by (metis prod.collapse)
  have cached: "live (sr_cache caching_server) ?k \<noteq> None" by code_simp
  have inv: "mem_inv (sr_cache caching_server)"
    by (simp add: caching_server_def mem_cache.set_revision_law(1) [OF new_memory_backend_inv surjective_pairing])
  have cache: "ne_cache sample_env = Some memory_ops" by (simp add: sample_env_def)
  have store: "sr_store caching_server = Some (snd (save_plugin (sample_plugin ''mask'') stored_sample))"
    by (simp add: caching_server_def)
  have key: "path_match (tool_pattern ''t'') ?k = Some True" by code_simp
  have "rf_name (bs_tool_ref (pb_spec mask_binding)) = ''t''" by (simp add: mask_binding_def)
  from binding_change_invalidates [OF run cache inv store disjI1 [OF this] _ key]
  have "live (sr_cache s') ?k = None" by simp
  with run cached show ?thesis by blast
qed

end
