(* ===== verification/Control_Plane.thy ===== *)
theory Control_Plane
  imports Plugin_Api
begin

text \<open>
  The rest of the control plane: token administration (auth.go), the endpoint probe (api.go)
  and the routing of \<open>ServeHTTP\<close> with authentication in front of every handler. The MCP
  transport, the health text and the log streams are handlers of the environment: they
  answer without changing the modelled state, except through \<open>tools/call\<close>, which is
  \<^const>\<open>handle_mcp_tool_revision_call\<close>.
\<close>

subsection \<open>State and environment\<close>

text \<open>The server with the tokens, which live in the same database as its resources.\<close>

record ('w, 'b, 'l) gateway =
  gw_server :: "('w, 'b, 'l) server"
  gw_tokens :: token_store

record probe_request =
  pq_url :: string
  pq_method :: string
  pq_auth_type :: string
  pq_auth_header :: string
  pq_credential_ref :: string
  pq_credential_source :: string

text \<open>
  A request. The decoded bodies are what encoding/json makes of the body for each handler;
  \<open>hq_random\<close> are the bytes drawn for a new token and its identifier. \<open>ge_connected\<close> says
  that the server was built with a connector.
\<close>

record api_request =
  hq_method :: string
  hq_path :: string
  hq_query :: url_query
  hq_authorization :: string
  hq_role :: string
  hq_origin :: string
  hq_request_method :: string
  hq_tool :: "tool option"
  hq_plugin :: "string + plugin"
  hq_binding :: "string + plugin_binding"
  hq_call :: "tool_call_request option"
  hq_token :: "token_create_request option"
  hq_probe :: "string + probe_request"
  hq_random :: "string \<times> string"

record ('w, 'b, 'l, 'r, 'v, 'c) gateway_env =
  ge_server :: "('w, 'b, 'l, 'r, 'v, 'c) server_env"
  ge_auth :: auth_env
  ge_sha :: "string \<Rightarrow> string"
  ge_info :: server_info
  ge_connected :: bool
  ge_insecure_hosts :: string
  ge_latency :: int
  ge_mcp :: "api_request \<Rightarrow> ctx \<Rightarrow> ('w, 'b, 'l) server \<Rightarrow> api_response \<times> ('w, 'b, 'l) server"
  ge_logs :: "api_request \<Rightarrow> api_response"

subsection \<open>Token administration\<close>

definition authenticate_request ::
  "('w, 'b, 'l, 'r, 'v, 'c) gateway_env \<Rightarrow> string \<Rightarrow> bool \<Rightarrow> api_request \<Rightarrow> ('w, 'b, 'l) gateway \<Rightarrow> auth_result" where
  "authenticate_request env scope adminOnly req g = authenticate_http (ge_sha env) (ge_auth env)
     (map_option (\<lambda>_. lookup_token (ge_sha env) (sr_now (gw_server g)) (gw_tokens g)) (sr_store (gw_server g)))
     (hq_authorization req) scope adminOnly background_ctx"

definition token_invalid :: api_response where
  "token_invalid = refuse 422 ''VALIDATION_FAILED'' ''the token request failed validation''
     ''review the token name, scopes, roles, and expiry''"

definition handle_tokens ::
  "(string \<Rightarrow> string) \<Rightarrow> timestamp \<Rightarrow> api_request \<Rightarrow> token_store \<Rightarrow> api_response \<times> token_store" where
  "handle_tokens sha now req ts =
     (let path = trim_prefix (hq_path req) ''/api/auth/tokens'' in
      if hq_method req = ''POST'' \<and> path = [] then
        (case hq_token req of
           None \<Rightarrow> (refuse 400 ''VALIDATION_FAILED'' ''the token request is not valid JSON'' ''submit one valid token request'', ts)
         | Some request \<Rightarrow> (case create_token sha now (fst (hq_random req)) (snd (hq_random req)) request ts of
               (Inl _, ts') \<Rightarrow> (token_invalid, ts')
             | (Inr (r, raw), ts') \<Rightarrow> (Answer 201 (PToken r raw), ts')))
      else if hq_method req = ''GET'' \<and> path = [] then
        (case list_tokens ts of
           Inl _ \<Rightarrow> (refuse_internal 500 ''check token storage and retry'', ts)
         | Inr rs \<Rightarrow> (Answer 200 (PTokens rs), ts))
      else if hq_method req = ''DELETE'' \<and> has_prefix path ''/'' \<and> length path > 1 \<and> CHR ''/'' \<notin> set (tl path) then
        (case revoke_token now (trim_prefix path ''/'') ts of
           (Some TokenNotFound, ts') \<Rightarrow> (refuse 404 ''RESOURCE_NOT_FOUND'' ''the requested token was not found''
                ''check the token identifier'', ts')
         | (Some _, ts') \<Rightarrow> (refuse_internal 500 ''check token storage and retry'', ts')
         | (None, ts') \<Rightarrow> (Answer 204 PEmpty, ts'))
      else (refuse 405 ''METHOD_NOT_ALLOWED'' ''the requested token method is not supported''
              ''use GET, POST, or DELETE for this resource'', ts))"

definition denied :: "http_error \<Rightarrow> api_response" where "denied e = Refuse e"

definition handle_token_api ::
  "('w, 'b, 'l, 'r, 'v, 'c) gateway_env \<Rightarrow> api_request \<Rightarrow> ('w, 'b, 'l) gateway \<Rightarrow> api_response \<times> ('w, 'b, 'l) gateway" where
  "handle_token_api env req g = auth_handler (authenticate_request env [] True req g)
     (\<lambda>c g. if sr_store (gw_server g) = None then (refuse_internal 503 ''check ERPBridge storage configuration'', g)
            else case handle_tokens (ge_sha env) (sr_now (gw_server g)) req (gw_tokens g) of
              (r, ts) \<Rightarrow> (r, g\<lparr> gw_tokens := ts \<rparr>)) denied g"

subsection \<open>The endpoint probe\<close>

definition insecure_api_probe_request :: "string \<Rightarrow> probe_request \<Rightarrow> bool" where
  "insecure_api_probe_request hosts r \<longleftrightarrow> pq_credential_ref r \<noteq> [] \<and>
     (case url_parse (pq_url r) of
        None \<Rightarrow> False
      | Some u \<Rightarrow> u_scheme u = ''http'' \<and> validate_outbound_transport hosts u True = None)"

definition validate_api_probe_request :: "probe_request \<Rightarrow> string + unit" where
  "validate_api_probe_request r =
     (if pq_url r = [] \<or> length (pq_url r) > 2048 then Inl ''url is required and bounded''
      else if pq_method r = [] \<or> length (pq_method r) > 16 then Inl ''method is required and bounded''
      else if length (pq_auth_type r) > 32 \<or> length (pq_auth_header r) > 128 \<or> length (pq_credential_ref r) > 128
        then Inl ''authentication fields are bounded''
      else if \<not> validate_credential_source (pq_credential_source r) then Inl ''invalid credential source''
      else if pq_credential_ref r \<noteq> [] then
        (if validate_reference (pq_credential_ref r) then Inr () else Inl ''invalid credential reference'')
      else if is_file_backed (pq_credential_source r) then Inl ''file credential reference is required''
      else Inr ())"

definition probe_tool :: "probe_request \<Rightarrow> tool" where
  "probe_tool r = (let t = blank_tool [] [] in t\<lparr> tl_spec := (tl_spec t)\<lparr>
     ts_execution := (ts_execution (tl_spec t))\<lparr> ex_type := [], ex_method := pq_method r, ex_endpoint := pq_url r \<rparr>,
     ts_security := (ts_security (tl_spec t))\<lparr> se_auth_type := pq_auth_type r, se_auth_header := pq_auth_header r,
       se_credential_ref := pq_credential_ref r, se_credential_source := pq_credential_source r \<rparr> \<rparr> \<rparr>)"

definition safe_content_type :: "(string \<Rightarrow> string option) \<Rightarrow> string \<Rightarrow> string" where
  "safe_content_type mediaType raw = (case mediaType (trim_space raw) of
       Some m \<Rightarrow> to_lower m | None \<Rightarrow> ''application/octet-stream'')"

definition write_api_probe_error :: "int \<Rightarrow> string \<Rightarrow> api_response" where
  "write_api_probe_error status message =
     (let (code, suggestion) =
        (if status = 400 \<or> status = 422 then (''VALIDATION_FAILED'', ''submit a bounded URL, method, and credential reference'')
         else if status = 502 \<or> status = 504 then (''UPSTREAM_UNREACHABLE'', ''check the ERP endpoint and network connectivity'')
         else if status = 503 then (''HEALTH_CHECK_FAILED'', ''check ERPBridge connector health and retry'')
         else (''API_PROBE_FAILED'', ''review the API definition and retry''))
      in refuse status code message suggestion)"

definition insecure_transport :: api_response where
  "insecure_transport = refuse 422 ''INSECURE_TRANSPORT'' ''the API endpoint cannot receive credentials over this transport''
     ''use HTTPS or explicitly allow the local development host''"

definition probe_erp ::
  "'w erp_connector \<Rightarrow> endpoint_config \<Rightarrow> query \<Rightarrow> string option \<Rightarrow> 'w \<Rightarrow> (gerr + http_response option) \<times> 'w" where
  "probe_erp conn ep q body w = (case cn_call_with_options conn of
       Some call \<Rightarrow> call ep q body \<lparr> co_preserve_error_responses = True, co_disable_redirects = False \<rparr> w
     | None \<Rightarrow> cn_call conn ep q body w)"

definition probe_answer :: "(string \<Rightarrow> string option) \<Rightarrow> int \<Rightarrow> gerr + http_response option \<Rightarrow> api_response" where
  "probe_answer mediaType latency r = (case r of
       Inl _ \<Rightarrow> write_api_probe_error 502 ''ERP endpoint could not be reached''
     | Inr None \<Rightarrow> write_api_probe_error 502 ''ERP endpoint returned no response''
     | Inr (Some resp) \<Rightarrow> Answer 200 (PProbe \<lparr> pr_status = resp_status resp,
           pr_content_type = safe_content_type mediaType (resp_content_type resp), pr_latency = latency,
           pr_success = (200 \<le> resp_status resp \<and> resp_status resp < 300) \<rparr>))"

definition handle_api_probe ::
  "('w, 'b, 'l, 'r, 'v, 'c) gateway_env \<Rightarrow> string + probe_request \<Rightarrow> ('w, 'b, 'l) server \<Rightarrow> api_response \<times> ('w, 'b, 'l) server" where
  "handle_api_probe env body s = (case body of
       Inl message \<Rightarrow> (write_api_probe_error 400 message, s)
     | Inr r \<Rightarrow>
         if validate_api_probe_request r \<noteq> Inr () then (write_api_probe_error 422 ''invalid API probe request'', s)
         else if insecure_api_probe_request (ge_insecure_hosts env) r then (insecure_transport, s)
         else if \<not> ge_connected env then (write_api_probe_error 503 ''ERP connector is unavailable'', s)
         else (case prepare_erp_call (ne_base_url (ge_server env)) (ne_credentials (ge_server env)) (probe_tool r) [] of
             Inl _ \<Rightarrow> (if insecure_api_probe_request (ge_insecure_hosts env) r then insecure_transport
                       else write_api_probe_error 422 ''API credential or endpoint could not be prepared'', s)
           | Inr (ep, q, body) \<Rightarrow> (case probe_erp (ne_connector (ge_server env)) ep q body (sr_world s) of
               (out, w) \<Rightarrow> (probe_answer (ne_media_type (ge_server env)) (ge_latency env) out, s\<lparr> sr_world := w \<rparr>))))"

subsection \<open>Routing\<close>

datatype route =
    Route_Mcp
  | Route_Health
  | Route_Tokens
  | Route_Invoke
  | Route_Cache_Stats
  | Route_Info
  | Route_Cache_Flush
  | Route_Logs
  | Route_Tools
  | Route_Probe
  | Route_Plugins
  | Route_Bindings

text \<open>
  \<open>ServeMux\<close>: an exact pattern wins over the subtree that contains it; a pattern that
  ends in a slash matches its subtree. \<^const>\<open>None\<close> is every path that the multiplexer
  answers itself, with 404 or with a redirect to the clean path.
\<close>

definition route_of :: "string \<Rightarrow> route option" where
  "route_of path = (case map_of
       [(''/mcp/health'', Route_Health), (''/api/auth/tokens'', Route_Tokens), (''/api/tools/invoke'', Route_Invoke),
        (''/api/cache/stats'', Route_Cache_Stats), (''/api/info'', Route_Info), (''/api/cache/flush'', Route_Cache_Flush),
        (''/api/logs/stream'', Route_Logs), (''/api/logs/recent'', Route_Logs),
        (''/apis/erpbridge.io/v1/tools'', Route_Tools), (''/api/apis/test'', Route_Probe),
        (''/apis/erpbridge.io/v1/apis/test'', Route_Probe), (''/apis/erpbridge.io/v1/plugins'', Route_Plugins),
        (''/apis/erpbridge.io/v1/pluginbindings'', Route_Bindings)] path of
       Some r \<Rightarrow> Some r
     | None \<Rightarrow> if has_prefix path ''/mcp/'' then Some Route_Mcp
               else if has_prefix path ''/api/auth/tokens/'' then Some Route_Tokens
               else None)"

text \<open>The handler behind the authentication of an administrator's route.\<close>

fun admin_handler ::
  "('w, 'b, 'l, 'r, 'v, 'c) gateway_env \<Rightarrow> route \<Rightarrow> api_request \<Rightarrow> ctx \<Rightarrow> ('w, 'b, 'l) server \<Rightarrow> api_response \<times> ('w, 'b, 'l) server" where
  "admin_handler env Route_Invoke req c s = handle_direct_invoke (ge_server env) (hq_method req) c (hq_role req) (hq_call req) s"
| "admin_handler env Route_Cache_Stats req c s = handle_cache_stats (ge_server env) s"
| "admin_handler env Route_Info req c s = (handle_info (ge_server env) (ge_info env) (hq_method req) s, s)"
| "admin_handler env Route_Cache_Flush req c s = handle_cache_flush (ge_server env) (hq_query req) s"
| "admin_handler env Route_Tools req c s = handle_tool_api (ge_server env) (hq_method req) c (hq_query req) (hq_tool req) s"
| "admin_handler env Route_Probe req c s = handle_api_probe env (hq_probe req) s"
| "admin_handler env Route_Plugins req c s = handle_plugin_api (ge_server env) (hq_method req) c (hq_query req) (hq_plugin req) s"
| "admin_handler env Route_Bindings req c s =
     handle_plugin_binding_api (ge_server env) (hq_method req) c (hq_query req) (hq_binding req) s"
| "admin_handler env _ req c s = (Aborted, s)"

definition on_server :: "(('w, 'b, 'l) server \<Rightarrow> 'a \<times> ('w, 'b, 'l) server) \<Rightarrow> ('w, 'b, 'l) gateway \<Rightarrow> 'a \<times> ('w, 'b, 'l) gateway" where
  "on_server f g = (case f (gw_server g) of (r, s) \<Rightarrow> (r, g\<lparr> gw_server := s \<rparr>))"

definition guarded ::
  "('w, 'b, 'l, 'r, 'v, 'c) gateway_env \<Rightarrow> string \<Rightarrow> bool \<Rightarrow> (ctx \<Rightarrow> ('w, 'b, 'l) server \<Rightarrow> api_response \<times> ('w, 'b, 'l) server) \<Rightarrow>
     api_request \<Rightarrow> ('w, 'b, 'l) gateway \<Rightarrow> api_response \<times> ('w, 'b, 'l) gateway" where
  "guarded env scope adminOnly handler req g =
     auth_handler (authenticate_request env scope adminOnly req g) (\<lambda>c. on_server (handler c)) denied g"

definition not_found :: api_response where "not_found = Answer 404 PEmpty"

definition serve_http ::
  "('w, 'b, 'l, 'r, 'v, 'c) gateway_env \<Rightarrow> api_request \<Rightarrow> ('w, 'b, 'l) gateway \<Rightarrow> api_response \<times> ('w, 'b, 'l) gateway" where
  "serve_http env req g = (case route_of (hq_path req) of
       None \<Rightarrow> (not_found, g)
     | Some Route_Health \<Rightarrow> (Answer 200 (PFields [(''status'', JStr ''ok'')]), g)
     | Some Route_Mcp \<Rightarrow>
         if is_allowed_mcp_preflight (ge_auth env) (hq_method req) (hq_request_method req) (hq_origin req)
         then on_server (ge_mcp env req background_ctx) g
         else guarded env ''mcp'' False (ge_mcp env req) req g
     | Some Route_Logs \<Rightarrow> guarded env ''logs'' False (\<lambda>c s. (ge_logs env req, s)) req g
     | Some Route_Tokens \<Rightarrow> handle_token_api env req g
     | Some r \<Rightarrow> guarded env [] True (admin_handler env r req) req g)"

subsection \<open>The control plane is closed\<close>

lemma auth_handler_passed:
  assumes "auth_handler res next denied g = (r, g')" and "g' \<noteq> g \<or> (\<forall>e. r \<noteq> Refuse e)"
  shows "\<exists>c. res = Authenticated c"
  using assms by (cases res) (auto simp: auth_handler_def denied_def)

definition presents_token :: "('w, 'b, 'l, 'r, 'v, 'c) gateway_env \<Rightarrow> ('w, 'b, 'l) gateway \<Rightarrow> string \<Rightarrow> string \<Rightarrow> bool" where
  "presents_token env g raw scope \<longleftrightarrow>
     (\<exists>r. live_token (ge_sha env) (sr_now (gw_server g)) (gw_tokens g) raw r \<and> scope \<in> set (tr_scopes r))"

definition presents_admin :: "('w, 'b, 'l, 'r, 'v, 'c) gateway_env \<Rightarrow> string \<Rightarrow> bool" where
  "presents_admin env raw \<longleftrightarrow> (\<exists>adminToken. ae_token (ge_auth env) = Some adminToken \<and> ge_sha env raw = ge_sha env adminToken)"

lemma authenticate_request_sound:
  assumes "auth_enabled (ge_auth env)" and "authenticate_request env scope adminOnly req g = Authenticated c"
  shows "\<exists>raw. bearer_token (hq_authorization req) = Some raw \<and>
     (presents_admin env raw \<or> \<not> adminOnly \<and> (scope \<noteq> [] \<longrightarrow> presents_token env g raw scope))"
proof -
  let ?store = "map_option (\<lambda>_. gw_tokens g) (sr_store (gw_server g))"
  have "authenticate_http (ge_sha env) (ge_auth env) (map_option (lookup_token (ge_sha env) (sr_now (gw_server g))) ?store)
      (hq_authorization req) scope adminOnly background_ctx = Authenticated c"
    using assms(2) by (simp add: authenticate_request_def option.map_comp comp_def)
  from stored_tokens.authenticate_sound [OF assms(1) this] show ?thesis
    by (auto simp: presents_admin_def presents_token_def)
qed

text \<open>
  C28: the control plane is closed. With a token configured, a request to any route but the
  health check changes the gateway or gets an answer other than a refusal only if it is an
  allowed CORS preflight of the MCP route, or presents the administrator's token, or presents
  a live stored token with exactly the scope of that route, \<open>mcp\<close> or \<open>logs\<close>: no stored token
  administers tools, plugins, tokens or the cache, invokes a tool directly or probes an
  endpoint.
\<close>

theorem control_plane_closed:
  assumes "auth_enabled (ge_auth env)" and "serve_http env req g = (r, g')"
    and "route_of (hq_path req) = Some route" and "route \<noteq> Route_Health"
    and "g' \<noteq> g \<or> (\<forall>e. r \<noteq> Refuse e)"
  shows "(route = Route_Mcp \<and> is_allowed_mcp_preflight (ge_auth env) (hq_method req) (hq_request_method req) (hq_origin req)) \<or>
     (\<exists>raw. bearer_token (hq_authorization req) = Some raw \<and>
        (presents_admin env raw \<or> (route = Route_Mcp \<and> presents_token env g raw ''mcp'') \<or>
         (route = Route_Logs \<and> presents_token env g raw ''logs'')))"
proof -
  have guarded: "\<exists>raw. bearer_token (hq_authorization req) = Some raw \<and>
      (presents_admin env raw \<or> \<not> adminOnly \<and> (scope \<noteq> [] \<longrightarrow> presents_token env g raw scope))"
    if "guarded env scope adminOnly h req g = (r, g')" for scope adminOnly h
    using auth_handler_passed [OF that [unfolded guarded_def] assms(5)] authenticate_request_sound [OF assms(1)] by blast
  have tokens: "\<exists>raw. bearer_token (hq_authorization req) = Some raw \<and> presents_admin env raw"
    if "handle_token_api env req g = (r, g')"
    using auth_handler_passed [OF that [unfolded handle_token_api_def] assms(5)] authenticate_request_sound [OF assms(1)] by blast
  note run = assms(2) [unfolded serve_http_def assms(3) option.case]
  show ?thesis
  proof (cases route)
    case Route_Mcp
    with run guarded [of "''mcp''" False] show ?thesis by (auto split: if_splits)
  next
    case Route_Logs
    with run guarded [of "''logs''" False] show ?thesis by auto
  next
    case Route_Tokens
    with run tokens show ?thesis by auto
  next
    case Route_Health
    with assms(4) show ?thesis by simp
  qed (use run guarded [of "[]" True] in auto)
qed

definition sample_gateway_env :: "(nat, payload memory_backend, timestamp, duration, string, string) gateway_env" where
  "sample_gateway_env = \<lparr> ge_server = sample_env,
     ge_auth = \<lparr> ae_token = Some ''s3cret'', ae_admin_roles = [], ae_cors_origins = [] \<rparr>, ge_sha = id,
     ge_info = \<lparr> si_version = ''v'', si_commit = [], si_date = [], si_cache_backend = [], si_active_tool_count = 0,
       si_reconciliation = fresh_status, si_observed_at = 0 \<rparr>,
     ge_connected = True, ge_insecure_hosts = [], ge_latency = 1, ge_mcp = (\<lambda>_ _ s. (Aborted, s)), ge_logs = (\<lambda>_. Answer 200 PEmpty) \<rparr>"

definition sample_gateway :: "(nat, payload memory_backend, timestamp) gateway" where
  "sample_gateway = \<lparr> gw_server = approved_server, gw_tokens = \<lparr> ts_rows = [], ts_down = False \<rparr> \<rparr>"

definition flush_request :: "string \<Rightarrow> api_request" where
  "flush_request authorization = \<lparr> hq_method = ''POST'', hq_path = ''/api/cache/flush'', hq_query = [(''tool'', ''t'')],
     hq_authorization = authorization, hq_role = [], hq_origin = [], hq_request_method = [], hq_tool = None, hq_plugin = Inl [],
     hq_binding = Inl [], hq_call = None, hq_token = None, hq_probe = Inl [], hq_random = ([], []) \<rparr>"

theorem control_plane_closed_witness:
  "\<exists>n p e g'. serve_http sample_gateway_env (flush_request ''Bearer s3cret'') sample_gateway = (Answer n p, g') \<and>
     bearer_token ''Bearer s3cret'' = Some ''s3cret'' \<and> presents_admin sample_gateway_env ''s3cret'' \<and>
     serve_http sample_gateway_env (flush_request ''Bearer guess'') sample_gateway = (Refuse e, sample_gateway)"
proof -
  let ?req = "flush_request ''Bearer s3cret''"
  have "fst (serve_http sample_gateway_env ?req sample_gateway) =
      Answer 200 (PFields [(''deleted'', JNum ''0''), (''status'', JStr ''ok'')])" by code_simp
  then obtain g' where run: "serve_http sample_gateway_env ?req sample_gateway =
      (Answer 200 (PFields [(''deleted'', JNum ''0''), (''status'', JStr ''ok'')]), g')" by (metis prod.collapse)
  have route: "route_of (hq_path ?req) = Some Route_Cache_Flush" by code_simp
  have bearer: "bearer_token ''Bearer s3cret'' = Some ''s3cret''" "bearer_token ''Bearer guess'' = Some ''guess''" by code_simp+
  have enabled: "auth_enabled (ge_auth sample_gateway_env)" by (simp add: sample_gateway_env_def auth_enabled_def)
  have "hq_authorization ?req = ''Bearer s3cret''" by (simp add: flush_request_def)
  with control_plane_closed [OF enabled run route] bearer have admin: "presents_admin sample_gateway_env ''s3cret''" by simp
  have "\<exists>e. serve_http sample_gateway_env (flush_request ''Bearer guess'') sample_gateway = (Refuse e, sample_gateway)"
    using bearer(2) by (simp add: serve_http_def route [simplified flush_request_def, simplified] flush_request_def guarded_def
        auth_handler_def denied_def authenticate_request_def authenticate_http_def sample_gateway_env_def sample_gateway_def
        approved_server_def sample_server_def configured_admin_roles_def trim_space_def trim_left_def secure_token_equal_def
        lookup_token_def Let_def)
  with run bearer(1) admin show ?thesis by blast
qed

end
