(* ===== verification/Stdio_Filter.thy ===== *)
theory Stdio_Filter
  imports Prelude
begin

text \<open>
  internal/mcp/filter_writer.go: the writer in front of the standard output that filters the
  \<open>tools/list\<close> responses of a newline-delimited stream. The decoding and encoding of the
  protocol's messages is a codec, the writer behind it any function that reports how much of
  a payload it took and whether it failed.
\<close>

subsection \<open>One record\<close>

record 't list_codec =
  lc_object :: "string \<Rightarrow> (string \<times> string) list option"
  lc_tools :: "string \<Rightarrow> 't list option"
  lc_put_tools :: "'t list \<Rightarrow> string option"
  lc_put_object :: "(string \<times> string) list \<Rightarrow> string option"

definition replace_tools :: "'t list_codec \<Rightarrow> ('t list \<Rightarrow> 't list) \<Rightarrow> (string \<times> string) list \<Rightarrow> (string \<times> string) list option" where
  "replace_tools codec f message =
     Option.bind (map_of message ''result'') (\<lambda>resultRaw.
     Option.bind (lc_object codec resultRaw) (\<lambda>result.
     Option.bind (map_of result ''tools'') (\<lambda>toolsRaw.
     Option.bind (lc_tools codec toolsRaw) (\<lambda>tools.
     Option.bind (lc_put_tools codec (f tools)) (\<lambda>filteredRaw.
     Option.bind (lc_put_object codec (amap_put ''tools'' filteredRaw result)) (\<lambda>resultRaw'.
       Some (amap_put ''result'' resultRaw' message)))))))"

text \<open>Anything that is no tools/list response, or that fails to decode or encode, passes unchanged.\<close>

definition filter_tool_list_record :: "'t list_codec \<Rightarrow> ('t list \<Rightarrow> 't list) option \<Rightarrow> string \<Rightarrow> string" where
  "filter_tool_list_record codec keep line = (case keep of
       None \<Rightarrow> line
     | Some f \<Rightarrow>
         if trim_space line = [] then line
         else case Option.bind (Option.bind (lc_object codec line) (replace_tools codec f)) (lc_put_object codec) of
           None \<Rightarrow> line
         | Some filtered \<Rightarrow> filtered)"

subsection \<open>Writing\<close>

datatype write_end = Written | Write_Failed | No_Progress | Write_Panic

text \<open>
  \<open>writeAll\<close>. Slicing beyond the payload panics. A writer that keeps reporting a negative
  count without an error keeps the loop going for ever, which is \<^const>\<open>None\<close>.
\<close>

partial_function (option) write_all ::
  "('o \<Rightarrow> string \<Rightarrow> (int \<times> bool) \<times> 'o) \<Rightarrow> 'o \<Rightarrow> string \<Rightarrow> (write_end \<times> 'o) option" where
  "write_all out sink payload =
     (if payload = [] then Some (Written, sink)
      else case out sink payload of ((written, failed), sink') \<Rightarrow>
        if written > int (length payload) then Some (Write_Panic, sink')
        else if failed then Some (Write_Failed, sink')
        else if written = 0 then Some (No_Progress, sink')
        else write_all out sink' (if written > 0 then drop (nat written) payload else payload))"

definition newline :: char where "newline = CHR 0x0A"

record 'o filter_writer =
  fw_sink :: 'o
  fw_pending :: string

text \<open>The loop of \<open>Write\<close>: one complete line after the other, until an error.\<close>

function emit_lines ::
  "(string \<Rightarrow> string) \<Rightarrow> ('o \<Rightarrow> string \<Rightarrow> (int \<times> bool) \<times> 'o) \<Rightarrow> 'o filter_writer \<Rightarrow> (write_end \<times> 'o filter_writer) option" where
  "emit_lines f out w = (case str_cut newline (fw_pending w) of
       None \<Rightarrow> Some (Written, w)
     | Some (line, rest) \<Rightarrow> (case write_all out (fw_sink w) (f line @ [newline]) of
         None \<Rightarrow> None
       | Some (Written, sink) \<Rightarrow> emit_lines f out (w\<lparr> fw_sink := sink, fw_pending := rest \<rparr>)
       | Some (e, sink) \<Rightarrow> Some (e, w\<lparr> fw_sink := sink, fw_pending := rest \<rparr>)))"
  by pat_completeness auto

termination emit_lines
  by (relation "measure (\<lambda>(f, out, w). length (fw_pending w))") (auto dest: str_cut_shorter)

declare emit_lines.simps [simp del]

definition filter_write ::
  "'t list_codec \<Rightarrow> ('t list \<Rightarrow> 't list) option \<Rightarrow> ('o \<Rightarrow> string \<Rightarrow> (int \<times> bool) \<times> 'o) \<Rightarrow> string \<Rightarrow> 'o filter_writer \<Rightarrow>
     (write_end \<times> 'o filter_writer) option" where
  "filter_write codec keep out p w =
     emit_lines (filter_tool_list_record codec keep) out (w\<lparr> fw_pending := fw_pending w @ p \<rparr>)"

subsection \<open>Writing returns\<close>

text \<open>The contract of \<open>io.Writer\<close> on the count it returns.\<close>

definition counts_within :: "('o \<Rightarrow> string \<Rightarrow> (int \<times> bool) \<times> 'o) \<Rightarrow> bool" where
  "counts_within out \<longleftrightarrow> (\<forall>sink p. 0 \<le> fst (fst (out sink p)) \<and> fst (fst (out sink p)) \<le> int (length p))"

lemma write_all_returns:
  assumes "counts_within out"
  shows "\<exists>e sink'. write_all out sink payload = Some (e, sink') \<and> e \<noteq> Write_Panic"
proof (induction payload arbitrary: sink rule: length_induct)
  case (1 payload)
  obtain written failed sink' where o: "out sink payload = ((written, failed), sink')" by (metis prod.collapse)
  have range: "0 \<le> written" "written \<le> int (length payload)"
    using assms [unfolded counts_within_def, rule_format, of sink payload] o by simp_all
  show ?case
  proof (cases "payload = [] \<or> failed \<or> written = 0")
    case False
    with range have "length (drop (nat written) payload) < length payload" by auto
    with 1 [rule_format, OF this] False range o show ?thesis by (simp add: write_all.simps [of out sink])
  qed (use o range in \<open>auto simp: write_all.simps [of out sink]\<close>)
qed

text \<open>
  Writing to the filtered stream always returns. Over a writer that keeps the contract of
  \<open>io.Writer\<close> - a count between zero and the length - \<open>Write\<close> ends, without a panic, whatever
  bytes are written and wherever that writer fails or stalls.
\<close>

theorem filter_write_returns:
  assumes "counts_within out"
  shows "\<exists>e w'. filter_write codec keep out p w = Some (e, w') \<and> e \<noteq> Write_Panic"
proof -
  have "\<exists>e w'. emit_lines f out w = Some (e, w') \<and> e \<noteq> Write_Panic" for f w
  proof (induction "length (fw_pending w)" arbitrary: w rule: less_induct)
    case less
    show ?case
    proof (cases "str_cut newline (fw_pending w)")
      case (Some lr)
      obtain line rest where lr: "lr = (line, rest)" by (rule prod.exhaust)
      obtain e sink where w: "write_all out (fw_sink w) (f line @ [newline]) = Some (e, sink)" "e \<noteq> Write_Panic"
        using write_all_returns [OF assms] by blast
      from str_cut_shorter [OF Some [unfolded lr]] less
      have "\<exists>e w'. emit_lines f out (w\<lparr> fw_sink := sink, fw_pending := rest \<rparr>) = Some (e, w') \<and> e \<noteq> Write_Panic" by simp
      with Some lr w show ?thesis by (cases e) (simp_all add: emit_lines.simps [of f out w])
    qed (simp add: emit_lines.simps)
  qed
  then show ?thesis by (simp add: filter_write_def)
qed

definition appending :: "string \<Rightarrow> string \<Rightarrow> (int \<times> bool) \<times> string" where
  "appending sink p = (let n = min 3 (length p) in ((int n, False), sink @ take n p))"

definition no_codec :: "string list_codec" where
  "no_codec = \<lparr> lc_object = (\<lambda>_. None), lc_tools = (\<lambda>_. None), lc_put_tools = (\<lambda>_. None), lc_put_object = (\<lambda>_. None) \<rparr>"

theorem filter_write_returns_witness:
  "\<exists>e w'. filter_write no_codec (Some id) appending ''a'' \<lparr> fw_sink = [], fw_pending = [] \<rparr> = Some (e, w') \<and> e \<noteq> Write_Panic"
  by (rule filter_write_returns) (simp add: counts_within_def appending_def Let_def)

subsection \<open>The stream does not depend on how it is cut\<close>

lemma split_at_char_cut:
  "str_cut sep s = None \<Longrightarrow> split_at_char sep s = [s]"
  "str_cut sep s = Some (line, rest) \<Longrightarrow> split_at_char sep s = line # split_at_char sep rest"
proof -
  show "str_cut sep s = None \<Longrightarrow> split_at_char sep s = [s]"
    by (induction s) (auto simp: str_cut_def split: if_splits)
  show "str_cut sep s = Some (line, rest) \<Longrightarrow> split_at_char sep s = line # split_at_char sep rest"
    by (induction s arbitrary: line) (auto simp: str_cut_def split: if_splits)
qed

lemma split_at_char_append:
  "split_at_char sep (a @ b) = butlast (split_at_char sep a) @ split_at_char sep (last (split_at_char sep a) @ b)"
proof (induction a)
  case (Cons c a)
  obtain p ps where a: "split_at_char sep a = p # ps" by (cases "split_at_char sep a") auto
  show ?case
  proof (cases "c = sep")
    case False
    show ?thesis
    proof (cases ps)
      case Nil
      with a Cons.IH False show ?thesis by simp
    next
      case (Cons q qs)
      with a Cons.IH False show ?thesis by simp
    qed
  qed (use Cons.IH in simp)
qed simp

fun filter_writes ::
  "'t list_codec \<Rightarrow> ('t list \<Rightarrow> 't list) option \<Rightarrow> ('o \<Rightarrow> string \<Rightarrow> (int \<times> bool) \<times> 'o) \<Rightarrow> string list \<Rightarrow> 'o filter_writer \<Rightarrow>
     (write_end \<times> 'o filter_writer) option" where
  "filter_writes codec keep out [] w = Some (Written, w)"
| "filter_writes codec keep out (p # ps) w = (case filter_write codec keep out p w of
       Some (Written, w') \<Rightarrow> filter_writes codec keep out ps w'
     | r \<Rightarrow> r)"

text \<open>A writer that never fails and takes at least a byte of every payload.\<close>

definition accepting :: "('o \<Rightarrow> string \<Rightarrow> (int \<times> bool) \<times> 'o) \<Rightarrow> ('o \<Rightarrow> string) \<Rightarrow> bool" where
  "accepting out content \<longleftrightarrow> (\<forall>sink p. p \<noteq> [] \<longrightarrow> (\<exists>n sink'. out sink p = ((int n, False), sink') \<and>
     0 < n \<and> n \<le> length p \<and> content sink' = content sink @ take n p))"

lemma write_all_accepted:
  assumes "accepting out content"
  shows "\<exists>sink'. write_all out sink payload = Some (Written, sink') \<and> content sink' = content sink @ payload"
proof (induction payload arbitrary: sink rule: length_induct)
  case (1 payload)
  show ?case
  proof (cases "payload = []")
    case False
    from assms [unfolded accepting_def, rule_format, OF this] obtain n sink1
      where o: "out sink payload = ((int n, False), sink1)" and n: "0 < n" "n \<le> length payload"
      and content: "content sink1 = content sink @ take n payload" by blast
    from n have "length (drop n payload) < length payload" by simp
    with 1 obtain sink' where "write_all out sink1 (drop n payload) = Some (Written, sink')"
      "content sink' = content sink1 @ drop n payload" by blast
    with o n content False show ?thesis by (simp add: write_all.simps [of out sink])
  qed (simp add: write_all.simps)
qed

lemma emit_lines_accepted:
  assumes "accepting out content"
  shows "\<exists>w'. emit_lines f out w = Some (Written, w') \<and> fw_pending w' = last (split_at_char newline (fw_pending w)) \<and>
     content (fw_sink w') = content (fw_sink w) @ concat (map (\<lambda>l. f l @ [newline]) (butlast (split_at_char newline (fw_pending w))))"
proof (induction "length (fw_pending w)" arbitrary: w rule: less_induct)
  case less
  show ?case
  proof (cases "str_cut newline (fw_pending w)")
    case None
    then show ?thesis by (simp add: emit_lines.simps split_at_char_cut(1))
  next
    case (Some lr)
    obtain line rest where lr: "lr = (line, rest)" by (rule prod.exhaust)
    from write_all_accepted [OF assms] obtain sink where
      w: "write_all out (fw_sink w) (f line @ [newline]) = Some (Written, sink)"
        "content sink = content (fw_sink w) @ f line @ [newline]" by blast
    from less [of "w\<lparr> fw_sink := sink, fw_pending := rest \<rparr>"] str_cut_shorter [OF Some [unfolded lr]]
    obtain w' where "emit_lines f out (w\<lparr> fw_sink := sink, fw_pending := rest \<rparr>) = Some (Written, w')"
      "fw_pending w' = last (split_at_char newline rest)"
      "content (fw_sink w') = content sink @ concat (map (\<lambda>l. f l @ [newline]) (butlast (split_at_char newline rest)))"
      by auto
    with Some lr w show ?thesis
      by (simp add: emit_lines.simps [of f out w] split_at_char_cut(2))
  qed
qed

text \<open>
  C27: filtering does not depend on how the stream is cut. However the bytes are split into
  writes, what has reached the output is the filtered form of every complete line so far, in
  order and each followed by a newline, and the incomplete last line is held back.
\<close>

theorem filtered_stream_chunking:
  assumes "accepting out content" and "newline \<notin> set (fw_pending w)"
  shows "\<exists>w'. filter_writes codec keep out ps w = Some (Written, w') \<and>
     fw_pending w' = last (split_at_char newline (fw_pending w @ concat ps)) \<and>
     content (fw_sink w') = content (fw_sink w) @
       concat (map (\<lambda>l. filter_tool_list_record codec keep l @ [newline]) (butlast (split_at_char newline (fw_pending w @ concat ps))))"
  using assms(2)
proof (induction ps arbitrary: w)
  case Nil
  then have "str_cut newline (fw_pending w) = None" by (simp add: str_cut_def)
  from split_at_char_cut(1) [OF this] show ?case by simp
next
  case (Cons p ps)
  let ?split = "split_at_char newline (fw_pending w @ p)"
  let ?text = "\<lambda>ls. concat (map (\<lambda>l. filter_tool_list_record codec keep l @ [newline]) ls)"
  from emit_lines_accepted [OF assms(1), of "filter_tool_list_record codec keep" "w\<lparr> fw_pending := fw_pending w @ p \<rparr>"]
  obtain w1 where w1: "filter_write codec keep out p w = Some (Written, w1)" "fw_pending w1 = last ?split"
      "content (fw_sink w1) = content (fw_sink w) @ ?text (butlast ?split)"
    by (auto simp: filter_write_def)
  have "last ?split \<in> set ?split" by simp
  then have "newline \<notin> set (fw_pending w1)" unfolding w1(2) by (rule split_at_char_parts)
  from Cons.IH [OF this] obtain w' where w': "filter_writes codec keep out ps w1 = Some (Written, w')"
    "fw_pending w' = last (split_at_char newline (fw_pending w1 @ concat ps))"
    "content (fw_sink w') = content (fw_sink w1) @ ?text (butlast (split_at_char newline (fw_pending w1 @ concat ps)))" by blast
  have split: "split_at_char newline (fw_pending w @ concat (p # ps)) =
      butlast ?split @ split_at_char newline (fw_pending w1 @ concat ps)"
    using split_at_char_append [of newline "fw_pending w @ p" "concat ps"] by (simp add: w1(2))
  have "filter_writes codec keep out (p # ps) w = Some (Written, w')" by (simp add: w1(1) w'(1))
  moreover have "fw_pending w' = last (split_at_char newline (fw_pending w @ concat (p # ps)))"
    unfolding split by (simp add: w'(2))
  moreover have "content (fw_sink w') = content (fw_sink w) @ ?text (butlast (split_at_char newline (fw_pending w @ concat (p # ps))))"
    unfolding split by (simp add: w'(3) w1(3) butlast_append)
  ultimately show ?case by blast
qed

lemma no_codec_record [simp]: "filter_tool_list_record no_codec keep l = l"
  by (simp add: filter_tool_list_record_def no_codec_def split: option.split)

theorem filtered_stream_chunking_witness:
  "\<exists>w'. filter_writes no_codec (Some id) appending [''abcd'', [newline] @ ''e''] \<lparr> fw_sink = [], fw_pending = [] \<rparr> = Some (Written, w') \<and>
     fw_sink w' = ''abcd'' @ [newline] \<and> fw_pending w' = ''e''"
proof -
  have "accepting appending (\<lambda>sink. sink)"
    by (auto simp: accepting_def appending_def Let_def intro: exI [of _ "min 3 (length p)" for p])
  from filtered_stream_chunking [OF this, of "\<lparr> fw_sink = [], fw_pending = [] \<rparr>" no_codec "Some id" "[''abcd'', [newline] @ ''e'']"]
  obtain w' where "filter_writes no_codec (Some id) appending [''abcd'', [newline] @ ''e''] \<lparr> fw_sink = [], fw_pending = [] \<rparr> = Some (Written, w')"
    "fw_sink w' = ''abcd'' @ [newline]" "fw_pending w' = ''e''"
    by (auto simp: newline_def simp del: filter_writes.simps)
  then show ?thesis by blast
qed

end
