(* ===== verification/Resources.thy ===== *)
theory Resources
  imports Tool_Exec
begin

text \<open>
  Resources and prompts: internal/mcp/resource.go, prompt.go and their handlers in server.go.
  A resource is fetched from the ERP system for every read; a prompt is its template followed
  by the arguments it was asked with.
\<close>

subsection \<open>Resources\<close>

record mcp_resource =
  mr_name :: string
  mr_description :: string
  mr_uri_template :: string
  mr_mime_type :: string
  mr_execution :: execution
  mr_security :: security

text \<open>The address of a resource; anything that starts with http is taken as it is.\<close>

definition resource_address :: "string \<Rightarrow> string \<Rightarrow> string" where
  "resource_address envBaseURL endpoint =
     (if has_prefix endpoint ''http'' then endpoint
      else
        let base0 = trim_suffix envBaseURL ''/'';
            base = (if base0 = [] then ''http://localhost:8081'' else base0)
        in base @ ''/'' @ trim_prefix endpoint ''/'')"

definition resource_endpoint :: "string \<Rightarrow> mcp_resource \<Rightarrow> string \<Rightarrow> endpoint_config" where
  "resource_endpoint envBaseURL r cred =
     \<lparr> ep_method = ''GET'', ep_path = resource_address envBaseURL (ex_endpoint (mr_execution r)), ep_base_url = [], ep_headers = [],
       ep_auth = \<lparr> ac_type = se_auth_type (mr_security r), ac_key = cred, ac_header = [] \<rparr> \<rparr>"

text \<open>\<open>Execute\<close>; a body that cannot be read is a failure.\<close>

definition resource_execute :: "'s exec_env \<Rightarrow> mcp_resource \<Rightarrow> 's erp_connector \<Rightarrow> 's \<Rightarrow> (gerr + string) \<times> 's" where
  "resource_execute xe r conn s =
     (if ex_endpoint (mr_execution r) = [] then (Inl (EText (''resource '' @ mr_name r @ '' has no endpoint configuration'')), s)
      else (case resolve_credential (xe_credentials xe) (se_credential_ref (mr_security r)) [se_credential_source (mr_security r)] of
          Inl _ \<Rightarrow> (Inl (EText ''credential could not be resolved''), s)
        | Inr cred \<Rightarrow> (case cn_call conn (resource_endpoint (xe_base_url xe) r cred) [] None s of
            (Inl e, s') \<Rightarrow> (Inl e, s')
          | (Inr None, s') \<Rightarrow> (Inl (EText ''response is unavailable''), s')
          | (Inr (Some resp), s') \<Rightarrow> (case resp_body resp of None \<Rightarrow> (Inl (EText ''read''), s') | Some body \<Rightarrow> (Inr body, s')))))"

record resource_contents =
  rc_uri :: string
  rc_mime_type :: string
  rc_text :: string

type_synonym resource_table = "(string \<times> mcp_resource) list"

definition register_resource :: "mcp_resource \<Rightarrow> resource_table \<Rightarrow> resource_table" where
  "register_resource r table = amap_put (mr_uri_template r) r table"

definition handle_resource_read ::
  "'s exec_env \<Rightarrow> resource_table \<Rightarrow> 's erp_connector \<Rightarrow> string \<Rightarrow> 's \<Rightarrow> (gerr + resource_contents) \<times> 's" where
  "handle_resource_read xe table conn uri s = (case map_of table uri of
       None \<Rightarrow> (Inl (EText (''resource not found: '' @ uri)), s)
     | Some r \<Rightarrow> (case resource_execute xe r conn s of
         (Inl e, s') \<Rightarrow> (Inl e, s')
       | (Inr content, s') \<Rightarrow> (Inr \<lparr> rc_uri = uri, rc_mime_type = mr_mime_type r, rc_text = content \<rparr>, s')))"

text \<open>The resources that the warning at registration names.\<close>

definition unresolved_resources :: "credential_env \<Rightarrow> resource_table \<Rightarrow> string list" where
  "unresolved_resources env table =
     map mr_name (filter (\<lambda>r. \<not> credential_configured env (se_credential_ref (mr_security r)) (se_credential_source (mr_security r))) (map snd table))"

subsection \<open>Prompts\<close>

record prompt_argument =
  pg_name :: string
  pg_description :: string
  pg_required :: bool

record mcp_prompt =
  mq_name :: string
  mq_description :: string
  mq_arguments :: "prompt_argument list"
  mq_template :: string

definition register_prompt :: "mcp_prompt \<Rightarrow> (string \<times> mcp_prompt) list \<Rightarrow> (string \<times> mcp_prompt) list" where
  "register_prompt p table = amap_put (mq_name p) p table"

text \<open>The arguments come in the order in which the language iterates over the map, a parameter here.\<close>

definition add_prompt_argument :: "string \<times> string \<Rightarrow> string \<Rightarrow> string" where
  "add_prompt_argument kv t = (case kv of (k, v) \<Rightarrow> t @ [CHR 0x0A, CHR 0x0A] @ k @ '': '' @ v)"

definition prompt_text :: "mcp_prompt \<Rightarrow> (string \<times> string) list \<Rightarrow> string" where
  "prompt_text p arguments = fold add_prompt_argument arguments (mq_template p)"

definition handle_prompt_get :: "(string \<times> mcp_prompt) list \<Rightarrow> string \<Rightarrow> (string \<times> string) list \<Rightarrow> gerr + string \<times> string" where
  "handle_prompt_get table name arguments = (case map_of table name of
       None \<Rightarrow> Inl (EText (''prompt not found: '' @ name))
     | Some p \<Rightarrow> Inr (mq_description p, prompt_text p arguments))"

subsection \<open>What they do\<close>

lemma register_resource_found: "map_of (register_resource r table) (mr_uri_template r) = Some r"
  by (simp add: register_resource_def amap_put_def)

text \<open>A read calls the ERP system once, with the address and the credential of the resource, and hands its body out.\<close>

lemma resource_read_content:
  assumes "map_of table uri = Some r" and "handle_resource_read xe table conn uri s = (Inr c, s')"
  shows "\<exists>cred resp. resolve_credential (xe_credentials xe) (se_credential_ref (mr_security r)) [se_credential_source (mr_security r)] = Inr cred \<and>
    cn_call conn (resource_endpoint (xe_base_url xe) r cred) [] None s = (Inr (Some resp), s') \<and> resp_body resp = Some (rc_text c) \<and>
    rc_mime_type c = mr_mime_type r"
  using assms by (auto simp: handle_resource_read_def resource_execute_def split: if_splits sum.splits prod.splits option.splits)

text \<open>The text of a prompt keeps the template in front, but depends on the order of the arguments.\<close>

lemma prompt_keeps_template: "has_prefix (prompt_text p arguments) (mq_template p)"
proof -
  have "\<exists>r. fold add_prompt_argument arguments t = t @ r" for t
    by (induction arguments arbitrary: t) (auto simp: add_prompt_argument_def split: prod.split, metis append.assoc)
  then show ?thesis by (auto simp: prompt_text_def has_prefix_iff)
qed

lemma prompt_order_matters:
  "prompt_text \<lparr> mq_name = [], mq_description = [], mq_arguments = [], mq_template = ''T'' \<rparr> [(''a'', ''1''), (''b'', ''2'')] \<noteq>
   prompt_text \<lparr> mq_name = [], mq_description = [], mq_arguments = [], mq_template = ''T'' \<rparr> [(''b'', ''2''), (''a'', ''1'')]"
  by code_simp

text \<open>An address that only starts with the letters of the scheme is not put below the base address.\<close>

lemma http_name_taken_as_address: "resource_address ''http://erp'' ''httpd/status'' = ''httpd/status''"
  by code_simp

end
