(* ===== verification/Logging.thy ===== *)
theory Logging
  imports Connector "HOL-Library.Sublist"
begin

text \<open>
  internal/logger: what leaves the process through its logs. The redaction of arguments and
  headers, the two level scales, and the hub that keeps the recent lines and feeds the
  subscribers of \<open>/api/logs/stream\<close>. The rendering of a record - log/slog and the masq
  redactor - is the library's: a rendered line is a string, \<^const>\<open>None\<close> a record that
  could not be rendered.
\<close>

subsection \<open>Redaction\<close>

definition redaction_marker :: string where "redaction_marker = ''[REDACTED]''"

definition sensitive_arg_keys :: "string list" where
  "sensitive_arg_keys = [''password'', ''token'', ''api_key'', ''secret'', ''key'', ''ssn'', ''authorization'',
     ''credential'', ''private_key'', ''access_token'', ''refresh_token'', ''client_secret'',
     ''passwd'', ''apikey'', ''authkey'', ''authtoken'', ''credentialvalue'', ''clientsecret'', ''privatekey'', ''bearer'']"

definition is_sensitive_arg_key :: "string \<Rightarrow> bool" where
  "is_sensitive_arg_key key = (let k = to_lower (trim_space key) in
     list_ex (\<lambda>sensitive. k = sensitive \<or> has_suffix k (''_'' @ sensitive)) sensitive_arg_keys)"

fun redact_value :: "jval \<Rightarrow> jval" where
  "redact_value (JObj ms) = JObj (map (\<lambda>(k, v). (k, if is_sensitive_arg_key k then JStr redaction_marker else redact_value v)) ms)"
| "redact_value (JArr vs) = JArr (map redact_value vs)"
| "redact_value v = v"

definition sensitive_header_key :: "string \<Rightarrow> bool" where
  "sensitive_header_key key \<longleftrightarrow> to_lower (trim_space key) \<in>
     {''authorization'', ''proxy-authorization'', ''cookie'', ''set-cookie'', ''x-api-key'', ''api-key''}"

definition redact_header :: "string \<times> string list \<Rightarrow> (string \<times> string list) list \<Rightarrow> (string \<times> string list) list" where
  "redact_header h redacted =
     amap_put (canonical_header (fst h)) (if sensitive_header_key (fst h) then [redaction_marker] else snd h) redacted"

definition redact_headers :: "(string \<times> string list) list \<Rightarrow> (string \<times> string list) list" where
  "redact_headers hs = fold redact_header hs []"

text \<open>The scalars of a value with the object keys above each of them.\<close>

definition below :: "string \<Rightarrow> string list \<times> jval \<Rightarrow> string list \<times> jval" where
  "below k l = (k # fst l, snd l)"

fun leaves :: "jval \<Rightarrow> (string list \<times> jval) list" where
  "leaves (JObj ms) = (if ms = [] then [([], JObj [])] else concat (map (\<lambda>(k, v). map (below k) (leaves v)) ms))"
| "leaves (JArr vs) = (if vs = [] then [([], JArr [])] else concat (map leaves vs))"
| "leaves v = [([], v)]"

definition under_sensitive_key :: "string list \<times> jval \<Rightarrow> bool" where
  "under_sensitive_key l \<longleftrightarrow> list_ex is_sensitive_arg_key (fst l)"

lemma under_sensitive_below [simp]:
  "under_sensitive_key (below k l) \<longleftrightarrow> is_sensitive_arg_key k \<or> under_sensitive_key l"
  "\<not> under_sensitive_key ([], v)"
  by (simp_all add: under_sensitive_key_def below_def)

lemma snd_below [simp]: "snd (below k l) = snd l"
  by (simp add: below_def)

lemma filter_concat_map: "filter P (concat (map f xs)) = concat (map (\<lambda>x. filter P (f x)) xs)"
  by (induction xs) simp_all

lemma redacted_sensitive: "x \<in> set (leaves (redact_value v)) \<Longrightarrow> under_sensitive_key x \<Longrightarrow> snd x = JStr redaction_marker"
proof (induction v arbitrary: x rule: redact_value.induct)
  case (1 ms)
  show ?case
  proof (cases "ms = []")
    case False
    let ?r = "\<lambda>m. if is_sensitive_arg_key (fst m) then JStr redaction_marker else redact_value (snd m)"
    from 1(2) False have "x \<in> (\<Union>m \<in> set ms. below (fst m) ` set (leaves (?r m)))"
      by (simp add: case_prod_beta)
    then obtain m l where ml: "m \<in> set ms" "x = below (fst m) l" "l \<in> set (leaves (?r m))" by blast
    obtain k v where kv: "m = (k, v)" by (rule prod.exhaust)
    from ml have m: "(k, v) \<in> set ms" and x: "x = below k l"
      and l: "l \<in> set (leaves (if is_sensitive_arg_key k then JStr redaction_marker else redact_value v))"
      unfolding kv fst_conv snd_conv by blast+
    show ?thesis
    proof (cases "is_sensitive_arg_key k")
      case True
      with l x show ?thesis by simp
    next
      case False
      with l have "l \<in> set (leaves (redact_value v))" by simp
      from 1(1) [OF m refl False this] 1(3) x False show ?thesis by simp
    qed
  qed (use 1(2,3) in simp)
next
  case (2 vs)
  show ?case
  proof (cases "vs = []")
    case False
    with 2(2) obtain v where "v \<in> set vs" "x \<in> set (leaves (redact_value v))" by auto
    from 2(1) [OF this 2(3)] show ?thesis .
  qed (use 2(2,3) in simp)
qed simp_all

definition shown :: "string list \<times> jval \<Rightarrow> bool" where
  "shown l \<longleftrightarrow> \<not> under_sensitive_key l"

lemma shown_below: "shown (below k l) \<longleftrightarrow> \<not> is_sensitive_arg_key k \<and> shown l"
  by (simp add: shown_def)

lemma filter_shown_below: "filter shown (map (below k) ls) = (if is_sensitive_arg_key k then [] else map (below k) (filter shown ls))"
  by (induction ls) (simp_all add: shown_below)

lemma redacted_rest: "filter shown (leaves (redact_value v)) = filter shown (leaves v)"
proof (induction v rule: redact_value.induct)
  case (1 ms)
  have "filter shown (map (below k) (leaves (if is_sensitive_arg_key k then JStr redaction_marker else redact_value v))) =
      filter shown (map (below k) (leaves v))" if "(k, v) \<in> set ms" for k v
    using 1 [OF that refl] by (simp add: filter_shown_below)
  then show ?case by (auto simp: filter_concat_map o_def case_prod_beta intro!: arg_cong [of _ _ concat] map_cong)
next
  case (2 vs)
  then show ?case by (auto simp: filter_concat_map o_def intro!: arg_cong [of _ _ concat] map_cong)
qed simp_all

text \<open>
  C17: redaction is complete and changes nothing else. In a redacted argument value, whatever
  stands at any depth below a sensitive key is the marker, and the scalars below no sensitive
  key are those of the original, in the same places.
\<close>

theorem redaction_complete:
  "set (map snd (filter under_sensitive_key (leaves (redact_value v)))) \<subseteq> {JStr redaction_marker} \<and>
   filter (\<lambda>l. \<not> under_sensitive_key l) (leaves (redact_value v)) = filter (\<lambda>l. \<not> under_sensitive_key l) (leaves v)"
  using redacted_sensitive [of _ v] redacted_rest [of v] by (auto simp: shown_def [abs_def])

lemma sensitive_header_canonical [simp]: "sensitive_header_key (canonical_header k) = sensitive_header_key k"
proof -
  have "to_lower (trim_space x) = trim_space (to_lower x)" for x
  proof -
    have "dropWhile is_space (map lower_char y) = map lower_char (dropWhile is_space y)" for y
      by (induction y) (auto simp: char_class_defs)
    then show ?thesis by (simp add: to_lower_def trim_space_def trim_left_def rev_map)
  qed
  then show ?thesis by (simp add: sensitive_header_key_def to_lower_canonical)
qed

lemma redact_headers_sensitive:
  assumes "(k, vs) \<in> set (redact_headers hs)" and "sensitive_header_key k"
  shows "vs = [redaction_marker]"
proof -
  let ?safe = "\<lambda>acc. list_all (\<lambda>h. sensitive_header_key (fst h) \<longrightarrow> snd h = [redaction_marker]) acc"
  have step: "?safe (redact_header h acc)" if "?safe acc" for h acc
    using that by (auto simp: redact_header_def amap_put_def list_all_iff)
  have "?safe (fold redact_header hs acc)" if "?safe acc" for acc
    using that
  proof (induction hs arbitrary: acc)
    case (Cons h hs)
    from Cons.IH [OF step [OF Cons.prems]] show ?case by simp
  qed simp
  from this [of "[]"] assms show ?thesis by (auto simp: redact_headers_def list_all_iff)
qed

subsection \<open>Levels\<close>

definition level_debug :: int where "level_debug = -4"
definition level_info :: int where "level_info = 0"
definition level_notice :: int where "level_notice = 2"
definition level_warn :: int where "level_warn = 4"
definition level_error :: int where "level_error = 8"
definition level_critical :: int where "level_critical = 10"
definition level_alert :: int where "level_alert = 12"
definition level_emergency :: int where "level_emergency = 14"

lemmas levels = level_debug_def level_info_def level_notice_def level_warn_def level_error_def
  level_critical_def level_alert_def level_emergency_def

definition slog_to_mcp :: "int \<Rightarrow> string" where
  "slog_to_mcp level =
     (if level \<ge> level_emergency then ''emergency''
      else if level \<ge> level_alert then ''alert''
      else if level \<ge> level_critical then ''critical''
      else if level \<ge> level_error then ''error''
      else if level \<ge> level_warn then ''warning''
      else if level \<ge> level_notice then ''notice''
      else if level \<ge> level_info then ''info''
      else ''debug'')"

definition mcp_to_slog :: "string \<Rightarrow> int" where
  "mcp_to_slog level =
     (if level = ''emergency'' then level_emergency
      else if level = ''alert'' then level_alert
      else if level = ''critical'' then level_critical
      else if level = ''error'' then level_error
      else if level = ''warning'' then level_warn
      else if level = ''notice'' then level_notice
      else if level = ''info'' then level_info
      else level_debug)"

definition parse_level :: "string \<Rightarrow> int" where
  "parse_level s = (let l = to_lower s in
     if l = ''debug'' then level_debug else if l = ''warn'' then level_warn
     else if l = ''error'' then level_error else level_info)"

text \<open>A handler's threshold: the level of the session in the context, if there is one that sets it.\<close>

definition mcp_enabled :: "string option \<Rightarrow> int \<Rightarrow> bool" where
  "mcp_enabled sessionLevel level = (case sessionLevel of None \<Rightarrow> True | Some l \<Rightarrow> level \<ge> mcp_to_slog l)"

lemma mcp_level_roundtrip:
  assumes "l \<in> {''emergency'', ''alert'', ''critical'', ''error'', ''warning'', ''notice'', ''info'', ''debug''}"
  shows "slog_to_mcp (mcp_to_slog l) = l"
  using assms by (auto simp: slog_to_mcp_def mcp_to_slog_def levels)

text \<open>
  A record passes a session's threshold exactly when the level it is sent with does: what a
  client receives is never below what it asked for.
\<close>

lemma mcp_enabled_as_sent:
  assumes "level_debug \<le> level"
  shows "mcp_enabled (Some l) level \<longleftrightarrow> mcp_enabled (Some l) (mcp_to_slog (slog_to_mcp level))"
  using assms by (simp add: mcp_enabled_def slog_to_mcp_def mcp_to_slog_def levels)

subsection \<open>The log hub\<close>

definition log_buffer_size :: nat where "log_buffer_size = 1000"
definition listener_capacity :: nat where "listener_capacity = 100"

text \<open>The package's state: the recent lines and the channels of the subscribers.\<close>

record log_hub =
  lh_buffer :: "string list"
  lh_listeners :: "(nat \<times> string list) list"
  lh_channels :: nat

definition log_subscribe :: "log_hub \<Rightarrow> nat \<times> log_hub" where
  "log_subscribe h = (lh_channels h,
     h\<lparr> lh_listeners := lh_listeners h @ [(lh_channels h, [])], lh_channels := lh_channels h + 1 \<rparr>)"

fun remove_listener :: "nat \<Rightarrow> (nat \<times> string list) list \<Rightarrow> (nat \<times> string list) list" where
  "remove_listener ch [] = []"
| "remove_listener ch (l # ls) = (if fst l = ch then ls else l # remove_listener ch ls)"

definition log_unsubscribe :: "nat \<Rightarrow> log_hub \<Rightarrow> log_hub" where
  "log_unsubscribe ch h = h\<lparr> lh_listeners := remove_listener ch (lh_listeners h) \<rparr>"

definition get_recent_logs :: "log_hub \<Rightarrow> string list" where
  "get_recent_logs h = lh_buffer h"

text \<open>A subscriber whose channel is full loses the line.\<close>

definition offer :: "string \<Rightarrow> nat \<times> string list \<Rightarrow> nat \<times> string list" where
  "offer msg l = (fst l, if length (snd l) < listener_capacity then snd l @ [msg] else snd l)"

definition log_broadcast :: "string option \<Rightarrow> log_hub \<Rightarrow> log_hub" where
  "log_broadcast rendered h = (case rendered of
       None \<Rightarrow> h
     | Some msg \<Rightarrow>
         let b = lh_buffer h @ [msg] in
         h\<lparr> lh_buffer := (if length b > log_buffer_size then tl b else b),
            lh_listeners := map (offer msg) (lh_listeners h) \<rparr>)"

text \<open>The reader of a channel takes its oldest line.\<close>

definition log_receive :: "nat \<Rightarrow> log_hub \<Rightarrow> log_hub" where
  "log_receive ch h = h\<lparr> lh_listeners := map (\<lambda>l. if fst l = ch then (ch, tl (snd l)) else l) (lh_listeners h) \<rparr>"

datatype log_op = Log_Subscribe | Log_Unsubscribe nat | Log_Receive nat | Log_Emit "string option"

fun log_step :: "log_op \<Rightarrow> log_hub \<Rightarrow> log_hub" where
  "log_step Log_Subscribe h = snd (log_subscribe h)"
| "log_step (Log_Unsubscribe ch) h = log_unsubscribe ch h"
| "log_step (Log_Receive ch) h = log_receive ch h"
| "log_step (Log_Emit m) h = log_broadcast m h"

definition log_run :: "log_op list \<Rightarrow> log_hub" where
  "log_run ops = fold log_step ops \<lparr> lh_buffer = [], lh_listeners = [], lh_channels = 0 \<rparr>"

text \<open>The lines that were rendered, in order.\<close>

definition emitted :: "log_op list \<Rightarrow> string list" where
  "emitted ops = List.map_filter (\<lambda>op. case op of Log_Emit m \<Rightarrow> m | _ \<Rightarrow> None) ops"

definition hub_inv :: "string list \<Rightarrow> log_hub \<Rightarrow> bool" where
  "hub_inv hist h \<longleftrightarrow> lh_buffer h = drop (length hist - log_buffer_size) hist \<and>
     (\<forall>l \<in> set (lh_listeners h). length (snd l) \<le> listener_capacity \<and> subseq (snd l) hist)"

lemma hub_invI:
  assumes "hub_inv hist h" and "lh_buffer h' = lh_buffer h"
    and "\<And>l. l \<in> set (lh_listeners h') \<Longrightarrow> snd l = [] \<or> (\<exists>l0 \<in> set (lh_listeners h). snd l = snd l0 \<or> snd l = tl (snd l0))"
  shows "hub_inv hist h'"
proof -
  have "length (snd l) \<le> listener_capacity \<and> subseq (snd l) hist" if "l \<in> set (lh_listeners h')" for l
    using assms(3) [OF that]
  proof (elim disjE bexE)
    fix l0 assume "l0 \<in> set (lh_listeners h)" "snd l = tl (snd l0)"
    with assms(1) show ?thesis
      by (cases "snd l0") (force simp: hub_inv_def dest: subseq_Cons')+
  qed (use assms(1) in \<open>auto simp: hub_inv_def\<close>)
  with assms(1,2) show ?thesis by (simp add: hub_inv_def)
qed

lemma last_lines: "(let b = drop (length hist - n) hist @ [m] in if length b > n then tl b else b) =
    drop (length (hist @ [m]) - n) (hist @ [m])"
proof (cases "length hist < n")
  case False
  then have "drop (length hist - n) hist @ [m] = drop (length hist - n) (hist @ [m])" by simp
  moreover have "tl (drop k xs) = drop (Suc k) xs" for k and xs :: "'a list" by (simp add: drop_Suc tl_drop)
  ultimately show ?thesis using False by (simp add: Let_def Suc_diff_le del: drop_append)
qed (simp add: Let_def)

lemma broadcast_inv: "hub_inv hist h \<Longrightarrow> hub_inv (hist @ [m]) (log_broadcast (Some m) h)"
  using last_lines [of hist log_buffer_size m]
  by (auto simp: hub_inv_def log_broadcast_def Let_def offer_def intro: subseq_append' split: if_splits)

lemma remove_listener_subset: "set (remove_listener ch ls) \<subseteq> set ls"
  by (induction ls) auto

lemma log_step_inv: "hub_inv hist h \<Longrightarrow> hub_inv (hist @ emitted [op]) (log_step op h)"
proof (cases op)
  case Log_Subscribe
  assume "hub_inv hist h"
  then have "hub_inv hist (snd (log_subscribe h))" by (rule hub_invI) (auto simp: log_subscribe_def)
  with Log_Subscribe show ?thesis by (simp add: emitted_def map_filter_simps)
next
  case (Log_Unsubscribe ch)
  assume "hub_inv hist h"
  then have "hub_inv hist (log_unsubscribe ch h)"
    by (rule hub_invI) (use remove_listener_subset in \<open>fastforce simp: log_unsubscribe_def\<close>)+
  with Log_Unsubscribe show ?thesis by (simp add: emitted_def map_filter_simps)
next
  case (Log_Receive ch)
  assume "hub_inv hist h"
  then have "hub_inv hist (log_receive ch h)" by (rule hub_invI) (force simp: log_receive_def split: if_splits)+
  with Log_Receive show ?thesis by (simp add: emitted_def map_filter_simps)
next
  case (Log_Emit m)
  assume "hub_inv hist h"
  with Log_Emit show ?thesis
    by (cases m) (simp_all add: emitted_def map_filter_simps broadcast_inv, simp add: log_broadcast_def)
qed

lemma log_run_inv: "hub_inv (emitted ops) (log_run ops)"
proof (induction ops rule: rev_induct)
  case Nil
  show ?case by (simp add: hub_inv_def log_run_def emitted_def map_filter_simps)
next
  case (snoc op ops)
  have "emitted (ops @ [op]) = emitted ops @ emitted [op]"
    by (simp add: emitted_def List.map_filter_def)
  with log_step_inv [OF snoc, of op] show ?case by (simp add: log_run_def)
qed

text \<open>
  The recent log is a window. After any sequence of subscriptions, reads and log records,
  the recent lines are exactly the last 1000 rendered ones, and every subscriber holds at most
  100 lines, which are rendered lines in their order: a slow reader loses lines, but never
  sees one twice, out of order, or of another source.
\<close>

theorem recent_log_window:
  "get_recent_logs (log_run ops) = drop (length (emitted ops) - 1000) (emitted ops) \<and>
   list_all (\<lambda>l. length (snd l) \<le> 100 \<and> subseq (snd l) (emitted ops)) (lh_listeners (log_run ops))"
  using log_run_inv [of ops]
  by (simp add: hub_inv_def get_recent_logs_def log_buffer_size_def listener_capacity_def list_all_iff)

end
