(* ===== verification/Cli_Session.thy ===== *)
theory Cli_Session
  imports Access
begin

text \<open>
  The session of the management MCP adapter, internal/climcp: the launch-time snapshot
  (snapshot.go), the runner of one child process at a time with its bounded capture and the
  staging directory (exec.go), the write groups and the bounded input (server.go). The
  operating system is a parameter: what a child prints and how it ends, and whether a file
  can be written.
\<close>

subsection \<open>The snapshot\<close>

record snapshot =
  sn_context_name :: string
  sn_server :: string
  sn_mcp_server :: string
  sn_api_token :: string

definition child_snapshot_env :: string where "child_snapshot_env = ''BRIDGECTL_MCP_CHILD_SNAPSHOT''"

definition fingerprint_part :: "string \<Rightarrow> string" where
  "fingerprint_part p = itoa (int (length p)) @ '':'' @ p @ [CHR 0x0A]"

definition fingerprint_text :: "snapshot \<Rightarrow> string" where
  "fingerprint_text s = concat (map fingerprint_part [sn_context_name s, sn_server s, sn_mcp_server s, sn_api_token s])"

definition fingerprint :: "(string \<Rightarrow> string) \<Rightarrow> snapshot \<Rightarrow> string" where
  "fingerprint sha s = hex_encode (sha (fingerprint_text s))"

definition pinned_values :: "(string \<Rightarrow> string) \<Rightarrow> snapshot \<Rightarrow> (string \<times> string) list" where
  "pinned_values sha s =
     [(''BRIDGE_CONTEXT'', sn_context_name s), (''BRIDGE_SERVER'', sn_server s), (''BRIDGE_MCP_SERVER'', sn_mcp_server s),
      (''BRIDGE_API_TOKEN'', sn_api_token s), (child_snapshot_env, fingerprint sha s)]"

definition inherited :: "(string \<Rightarrow> string) \<Rightarrow> snapshot \<Rightarrow> string \<Rightarrow> bool" where
  "inherited sha s entry = (case str_cut (CHR ''='') entry of
       None \<Rightarrow> True
     | Some (key, _) \<Rightarrow> map_of (pinned_values sha s) key = None)"

definition child_environment :: "(string \<Rightarrow> string) \<Rightarrow> snapshot \<Rightarrow> string list \<Rightarrow> string list" where
  "child_environment sha s base = filter (inherited sha s) base @ map (\<lambda>(k, v). k @ ''='' @ v) (pinned_values sha s)"

text \<open>What the child reads: the entries of a key, whose last one counts.\<close>

definition entries_of :: "string \<Rightarrow> string list \<Rightarrow> string list" where
  "entries_of key entries = List.map_filter (\<lambda>e. case str_cut (CHR ''='') e of
       Some (k, v) \<Rightarrow> if k = key then Some v else None
     | None \<Rightarrow> None) entries"

lemma itoa_nat: "itoa (int n) = digits_of n"
  by (simp add: itoa_def)

lemma part_unique:
  assumes "fingerprint_part p @ r = fingerprint_part q @ r'"
  shows "p = q \<and> r = r'"
proof -
  have split: "digits_of (length p) @ CHR '':'' # x = digits_of (length q) @ CHR '':'' # y \<Longrightarrow>
      digits_of (length p) = digits_of (length q) \<and> x = y" for x y
  proof -
    assume eq: "digits_of (length p) @ CHR '':'' # x = digits_of (length q) @ CHR '':'' # y"
    have "\<not> is_digit (CHR '':'')" by (simp add: is_digit_def)
    then have t: "takeWhile is_digit (digits_of n @ CHR '':'' # z) = digits_of n" for n z
      using digits_of_digit [of n] by (simp add: takeWhile_append2 list_all_iff)
    from t [of "length p" x] t [of "length q" y] eq have "digits_of (length p) = digits_of (length q)" by simp
    with eq show ?thesis by simp
  qed
  from assms have "digits_of (length p) @ CHR '':'' # (p @ [CHR 0x0A] @ r) = digits_of (length q) @ CHR '':'' # (q @ [CHR 0x0A] @ r')"
    by (simp add: fingerprint_part_def itoa_nat)
  from split [OF this] have "length p = length q" "p @ [CHR 0x0A] @ r = q @ [CHR 0x0A] @ r'"
    using digits_of_inj by blast+
  then show ?thesis by simp
qed

lemma fingerprint_text_inj:
  assumes "fingerprint_text a = fingerprint_text b"
  shows "a = b"
proof -
  have parts: "xs = ys" if "length xs = length ys" and "concat (map fingerprint_part xs) = concat (map fingerprint_part ys)" for xs ys
    using that by (induction xs ys rule: list_induct2) (auto dest: part_unique)
  from parts [OF _ assms [unfolded fingerprint_text_def]] show ?thesis by (simp add: snapshot.equality)
qed

lemma str_cut_entry [simp]: "CHR ''='' \<notin> set k \<Longrightarrow> str_cut (CHR ''='') (k @ CHR ''='' # v) = Some (k, v)"
  by (induction k) (auto simp: str_cut_def)

lemma entries_of_pairs:
  "list_all (\<lambda>p. CHR ''='' \<notin> set (fst p)) ps \<Longrightarrow>
   entries_of key (map (\<lambda>(k, v). k @ ''='' @ v) ps) = map snd (filter (\<lambda>p. fst p = key) ps)"
  by (induction ps) (auto simp: entries_of_def map_filter_simps)

lemma entries_of_inherited: "entries_of key (filter (inherited sha s) base) =
    (if map_of (pinned_values sha s) key = None then entries_of key base else [])"
  by (induction base) (auto simp: entries_of_def map_filter_simps inherited_def split: option.splits)

lemma entries_of_child: "entries_of key (child_environment sha s base) =
    (case map_of (pinned_values sha s) key of Some v \<Rightarrow> [v] | None \<Rightarrow> entries_of key base)"
proof -
  have "list_all (\<lambda>p. CHR ''='' \<notin> set (fst p)) (pinned_values sha s)"
    by (simp add: pinned_values_def child_snapshot_env_def)
  from entries_of_pairs [OF this, of key]
  have "entries_of key (map (\<lambda>(k, v). k @ ''='' @ v) (pinned_values sha s)) =
      (case map_of (pinned_values sha s) key of Some v \<Rightarrow> [v] | None \<Rightarrow> [])"
    by (simp add: pinned_values_def child_snapshot_env_def)
  with entries_of_inherited [of key sha s base] show ?thesis
    by (simp add: child_environment_def entries_of_def List.map_filter_def split: option.split)
qed

text \<open>
  A child runs with the session's selection. Whatever environment the adapter was started
  with, a child reads for each pinned variable exactly the value of the snapshot and for every
  other variable what the adapter has; and the fingerprint is the digest of a text that no
  other selection has, empty values included.
\<close>

theorem child_selection_pinned:
  "entries_of key (child_environment sha s base) =
     (case map_of [(''BRIDGE_CONTEXT'', sn_context_name s), (''BRIDGE_SERVER'', sn_server s), (''BRIDGE_MCP_SERVER'', sn_mcp_server s),
        (''BRIDGE_API_TOKEN'', sn_api_token s), (child_snapshot_env, hex_encode (sha (fingerprint_text s)))] key of
      Some v \<Rightarrow> [v] | None \<Rightarrow> entries_of key base) \<and>
   (fingerprint_text s = fingerprint_text s' \<longleftrightarrow> s = s')"
  using entries_of_child [of key sha s base] fingerprint_text_inj [of s s']
  by (auto simp: pinned_values_def fingerprint_def)

subsection \<open>Bounded capture\<close>

record limited_buffer =
  lb_buf :: string
  lb_limit :: int

text \<open>\<open>Write\<close>: the buffer, and whether it overflowed. The full length is reported to the child.\<close>

definition buffer_write :: "string \<Rightarrow> limited_buffer \<Rightarrow> bool \<times> limited_buffer" where
  "buffer_write p b =
     (let remaining = lb_limit b - int (length (lb_buf b)) in
      if remaining \<le> 0 then (True, b)
      else if int (length p) > remaining then (True, b\<lparr> lb_buf := lb_buf b @ take (nat remaining) p \<rparr>)
      else (False, b\<lparr> lb_buf := lb_buf b @ p \<rparr>))"

fun buffer_writes :: "string list \<Rightarrow> limited_buffer \<Rightarrow> bool \<times> limited_buffer" where
  "buffer_writes [] b = (False, b)"
| "buffer_writes (p # ps) b = (case buffer_write p b of
     (over, b1) \<Rightarrow> (case buffer_writes ps b1 of (over', b2) \<Rightarrow> (over \<or> over', b2)))"

lemma buffer_writes_content:
  assumes "0 < lb_limit b" and "int (length (lb_buf b)) \<le> lb_limit b"
  shows "lb_buf (snd (buffer_writes ps b)) = take (nat (lb_limit b)) (lb_buf b @ concat ps)"
  using assms
proof (induction ps arbitrary: b)
  case (Cons p ps)
  let ?r = "lb_limit b - int (length (lb_buf b))"
  let ?b = "snd (buffer_write p b)"
  have b: "lb_limit ?b = lb_limit b" "int (length (lb_buf ?b)) \<le> lb_limit b"
    "take (nat (lb_limit b)) (lb_buf ?b @ concat ps) = take (nat (lb_limit b)) (lb_buf b @ p @ concat ps)"
    using Cons.prems by (auto simp: buffer_write_def Let_def nat_diff_distrib' min_def)
  from Cons.IH [of ?b] Cons.prems(1) b show ?case by (simp add: case_prod_beta)
qed simp

lemma buffer_writes_overflow:
  assumes "0 < lb_limit b" and "int (length (lb_buf b)) \<le> lb_limit b" and "[] \<notin> set ps"
  shows "fst (buffer_writes ps b) \<longleftrightarrow> lb_limit b < int (length (lb_buf b @ concat ps))"
  using assms
proof (induction ps arbitrary: b)
  case (Cons p ps)
  let ?b = "snd (buffer_write p b)"
  show ?case
  proof (cases "fst (buffer_write p b)")
    case True
    with Cons.prems have "lb_limit b < int (length (lb_buf b @ p))"
      by (cases p) (auto simp: buffer_write_def Let_def split: if_splits)
    with True show ?thesis by (simp add: case_prod_beta)
  next
    case False
    then have b: "?b = b\<lparr> lb_buf := lb_buf b @ p \<rparr>" "int (length (lb_buf b @ p)) \<le> lb_limit b"
      by (auto simp: buffer_write_def Let_def split: if_splits)
    from Cons.IH [of ?b] Cons.prems b False show ?thesis by (simp add: case_prod_beta)
  qed
qed simp

subsection \<open>One child at a time\<close>

datatype run_error = Run_Busy | Run_Output_Limit | Run_Timeout | Run_Cancelled | Run_Failed

record child_outcome =
  oc_stdout :: string
  oc_stderr :: string
  oc_exit_code :: int
  oc_timed_out :: bool
  oc_cancelled :: bool
  oc_output_limited :: bool

record runner =
  rn_prefix_args :: "string list"
  rn_env :: "string list"
  rn_timeout :: duration
  rn_max_output :: int
  rn_active :: bool

definition default_call_timeout :: duration where "default_call_timeout = 30 * second"
definition max_child_output_bytes :: int where "max_child_output_bytes = 1048576"
definition max_call_message_bytes :: nat where "max_call_message_bytes = 1048576"
definition max_manifest_bytes :: nat where "max_manifest_bytes = 262144"

text \<open>
  What the operating system reports of a child: what it wrote to either stream, piece by
  piece, its exit code if it ran, how \<open>Run\<close> ended, and the state of the two contexts.
\<close>

datatype child_end = Child_Ok | Child_Exit | Child_Error

record child_report =
  ch_stdout :: "string list"
  ch_stderr :: "string list"
  ch_exit_code :: "int option"
  ch_end :: child_end
  ch_deadline :: bool
  ch_cancelled :: bool

definition capture_limit :: "runner \<Rightarrow> int" where
  "capture_limit r = (if rn_max_output r \<le> 0 then max_child_output_bytes else rn_max_output r)"

definition call_timeout :: "runner \<Rightarrow> duration" where
  "call_timeout r = (if rn_timeout r \<le> 0 then default_call_timeout else rn_timeout r)"

definition run_result :: "int \<Rightarrow> child_report \<Rightarrow> child_outcome \<times> run_error option" where
  "run_result limit ch =
     (let (over1, out) = buffer_writes (ch_stdout ch) \<lparr> lb_buf = [], lb_limit = limit \<rparr>;
          (over2, err) = buffer_writes (ch_stderr ch) \<lparr> lb_buf = [], lb_limit = limit \<rparr>;
          outcome = \<lparr> oc_stdout = lb_buf out, oc_stderr = lb_buf err,
            oc_exit_code = (case ch_exit_code ch of None \<Rightarrow> -1 | Some n \<Rightarrow> n),
            oc_timed_out = False, oc_cancelled = False, oc_output_limited = over1 \<or> over2 \<rparr> in
      if oc_output_limited outcome then (outcome, Some Run_Output_Limit)
      else if ch_end ch = Child_Ok then (outcome, None)
      else if ch_deadline ch then (outcome\<lparr> oc_timed_out := True \<rparr>, Some Run_Timeout)
      else if ch_cancelled ch then (outcome\<lparr> oc_cancelled := True \<rparr>, Some Run_Cancelled)
      else if ch_end ch = Child_Exit then (outcome, None)
      else (outcome, Some Run_Failed))"

definition no_outcome :: child_outcome where
  "no_outcome = \<lparr> oc_stdout = [], oc_stderr = [], oc_exit_code = 0, oc_timed_out = False, oc_cancelled = False, oc_output_limited = False \<rparr>"

text \<open>
  \<open>Run\<close>. \<open>spawn\<close> is the operating system: it gets the arguments, the environment and the
  deadline, and may change the world; a busy runner spawns nothing.
\<close>

definition runner_run ::
  "(string list \<Rightarrow> string list \<Rightarrow> duration \<Rightarrow> 'w \<Rightarrow> child_report \<times> 'w) \<Rightarrow> runner \<Rightarrow> string list \<Rightarrow> 'w \<Rightarrow>
     (child_outcome \<times> run_error option) \<times> 'w" where
  "runner_run spawn r argv w =
     (if rn_active r then ((no_outcome, Some Run_Busy), w)
      else case spawn (rn_prefix_args r @ argv) (rn_env r) (call_timeout r) w of
        (ch, w') \<Rightarrow> (run_result (capture_limit r) ch, w'))"

text \<open>The slot under concurrent calls: each call takes it or is refused, and gives it back.\<close>

inductive runner_step :: "runner \<times> nat \<Rightarrow> runner \<times> nat \<Rightarrow> bool" where
  take: "\<not> rn_active r \<Longrightarrow> runner_step (r, n) (r\<lparr> rn_active := True \<rparr>, n + 1)"
| refuse: "rn_active r \<Longrightarrow> runner_step (r, n) (r, n)"
| release: "0 < n \<Longrightarrow> runner_step (r, n) (r\<lparr> rn_active := False \<rparr>, n - 1)"

inductive_cases runner_stepE: "runner_step (r, n) x"

lemma one_child_at_a_time:
  assumes "runner_step\<^sup>*\<^sup>* (r, 0) (r', n)" and "\<not> rn_active r"
  shows "n = (if rn_active r' then 1 else 0)"
  using assms(1)
proof (induction "(r', n)" arbitrary: r' n rule: rtranclp_induct)
  case base
  with assms(2) show ?case by simp
next
  case (step y)
  obtain r1 n1 where y: "y = (r1, n1)" by (rule prod.exhaust)
  from step.hyps(3) [OF y] have "n1 = (if rn_active r1 then 1 else 0)" .
  with step.hyps(2) show ?case unfolding y by (auto elim!: runner_stepE split: if_splits)
qed

text \<open>
  A child's output is bounded and judged as a whole. However the operating system cuts a
  child's streams into writes, the captured text is their first bytes up to the limit, the
  call is an output-limit failure exactly when one of them is longer, and a call that is no
  error ended by itself.
\<close>

theorem captured_output_bounded:
  assumes "[] \<notin> set (ch_stdout ch)" and "[] \<notin> set (ch_stderr ch)" and "run_result (capture_limit r) ch = (outcome, err)"
  shows "oc_stdout outcome = take (nat (capture_limit r)) (concat (ch_stdout ch)) \<and>
     oc_stderr outcome = take (nat (capture_limit r)) (concat (ch_stderr ch)) \<and>
     (err = Some Run_Output_Limit \<longleftrightarrow>
        capture_limit r < int (length (concat (ch_stdout ch))) \<or> capture_limit r < int (length (concat (ch_stderr ch)))) \<and>
     (err = None \<longrightarrow> ch_end ch \<noteq> Child_Error \<and> oc_stdout outcome = concat (ch_stdout ch))"
proof -
  let ?b = "\<lparr> lb_buf = [], lb_limit = capture_limit r \<rparr>"
  have pos: "0 < capture_limit r" by (simp add: capture_limit_def max_child_output_bytes_def)
  then have b: "0 < lb_limit ?b" "int (length (lb_buf ?b)) \<le> lb_limit ?b" by simp_all
  obtain o1 out o2 er where w: "buffer_writes (ch_stdout ch) ?b = (o1, out)" "buffer_writes (ch_stderr ch) ?b = (o2, er)"
    by (metis prod.collapse)
  have "lb_buf out = take (nat (capture_limit r)) (concat (ch_stdout ch))"
    "lb_buf er = take (nat (capture_limit r)) (concat (ch_stderr ch))"
    using buffer_writes_content [OF b, of "ch_stdout ch"] buffer_writes_content [OF b, of "ch_stderr ch"] w by simp_all
  moreover have "o1 \<longleftrightarrow> capture_limit r < int (length (concat (ch_stdout ch)))"
    "o2 \<longleftrightarrow> capture_limit r < int (length (concat (ch_stderr ch)))"
    using buffer_writes_overflow [OF b assms(1)] buffer_writes_overflow [OF b assms(2)] w by simp_all
  ultimately show ?thesis using assms(3) [unfolded run_result_def Let_def w prod.case]
    by (cases "ch_end ch") (auto split: if_splits)
qed

text \<open>A child that prints in two pieces, the second beyond the limit.\<close>

theorem captured_output_bounded_witness:
  "\<exists>outcome. run_result 4 \<lparr> ch_stdout = [''abc'', ''de''], ch_stderr = [], ch_exit_code = Some 0, ch_end = Child_Ok,
       ch_deadline = False, ch_cancelled = False \<rparr> = (outcome, Some Run_Output_Limit) \<and> oc_stdout outcome = ''abcd''"
proof -
  let ?ch = "\<lparr> ch_stdout = [''abc'', ''de''], ch_stderr = [], ch_exit_code = Some 0, ch_end = Child_Ok,
    ch_deadline = False, ch_cancelled = False \<rparr>"
  let ?r = "\<lparr> rn_prefix_args = [], rn_env = [], rn_timeout = 0, rn_max_output = 4, rn_active = False \<rparr>"
  obtain outcome err where run: "run_result (capture_limit ?r) ?ch = (outcome, err)" by (metis prod.collapse)
  from captured_output_bounded [OF _ _ run] have "oc_stdout outcome = ''abcd''" "err = Some Run_Output_Limit"
    by (simp_all add: capture_limit_def)
  with run show ?thesis by (simp add: capture_limit_def)
qed

subsection \<open>The staging directory\<close>

record stager =
  sg_dir :: "string option"
  sg_serial :: nat
  sg_files :: "(string \<times> string) list"

text \<open>\<open>filepath.Base\<close> and the four-digit \<open>%04d\<close>.\<close>

definition file_base :: "string \<Rightarrow> string" where
  "file_base path = (if path = [] then ''.''
     else let p = rev (dropWhile (\<lambda>c. c = CHR ''/'') (rev path)) in
       if p = [] then ''/'' else rev (takeWhile (\<lambda>c. c \<noteq> CHR ''/'') (rev p)))"

definition pad4 :: "string \<Rightarrow> string" where
  "pad4 d = replicate (4 - length d) (CHR ''0'') @ d"

definition staged_path :: "string \<Rightarrow> nat \<Rightarrow> string \<Rightarrow> string" where
  "staged_path dir serial name = dir @ ''/'' @ pad4 (digits_of serial) @ ''-'' @ name"

datatype stage_error = Manifest_Too_Large | Stager_Closed | Invalid_Staging_Name | Stage_Write_Failed

text \<open>\<open>Stage\<close>; \<open>writable\<close> says whether the file could be written. The serial counts up before that.\<close>

definition stage :: "bool \<Rightarrow> string \<Rightarrow> string \<Rightarrow> stager \<Rightarrow> (stage_error + string) \<times> stager" where
  "stage writable name contents s =
     (if length contents > max_manifest_bytes then (Inl Manifest_Too_Large, s)
      else case sg_dir s of
        None \<Rightarrow> (Inl Stager_Closed, s)
      | Some dir \<Rightarrow>
          if name = [] \<or> file_base name \<noteq> name \<or> name = ''.'' \<or> name = ''..'' then (Inl Invalid_Staging_Name, s)
          else let serial = sg_serial s + 1; path = staged_path dir serial name; s' = s\<lparr> sg_serial := serial \<rparr> in
            if \<not> writable then (Inl Stage_Write_Failed, s')
            else (Inr path, s'\<lparr> sg_files := amap_put path contents (sg_files s) \<rparr>))"

definition unstage :: "string \<Rightarrow> stager \<Rightarrow> stager" where
  "unstage path s = s\<lparr> sg_files := amap_del path (sg_files s) \<rparr>"

definition stager_cleanup :: "stager \<Rightarrow> stager" where
  "stager_cleanup s = s\<lparr> sg_dir := None, sg_files := (if sg_dir s = None then sg_files s else []) \<rparr>"

lemma staged_path_inj:
  assumes "staged_path dir m name = staged_path dir n name'"
  shows "m = n"
proof -
  have digits: "CHR ''-'' \<notin> set (pad4 (digits_of k))" for k
    using digits_of_digit [of k] by (auto simp: pad4_def list_all_iff is_digit_def)
  have cut: "takeWhile (\<lambda>c. c \<noteq> CHR ''-'') (pad4 (digits_of k) @ CHR ''-'' # x) = pad4 (digits_of k)" for k x
    using digits [of k] by (subst takeWhile_append2) auto
  from assms have "pad4 (digits_of m) @ CHR ''-'' # name = pad4 (digits_of n) @ CHR ''-'' # name'"
    by (simp add: staged_path_def)
  from arg_cong [OF this, of "takeWhile (\<lambda>c. c \<noteq> CHR ''-'')"] have eq: "pad4 (digits_of m) = pad4 (digits_of n)"
    unfolding cut .
  have "digits_value (replicate k (CHR ''0'') @ d) = digits_value d" for k d
    by (induction k) (simp_all add: digits_value_def)
  then have "digits_value (pad4 d) = digits_value d" for d by (simp add: pad4_def)
  with arg_cong [OF eq, of digits_value] show ?thesis by (simp add: digits_value_digits)
qed

text \<open>
  No staged file is ever overwritten by a later call: the paths of one session differ.
\<close>

lemma staged_paths_fresh:
  assumes "stage w1 name1 c1 s = (Inr p1, s1)" and "stage w2 name2 c2 s2 = (Inr p2, s3)"
    and "sg_serial s1 \<le> sg_serial s2" and "sg_dir s2 = sg_dir s"
  shows "p1 \<noteq> p2"
proof
  assume "p1 = p2"
  from assms(1) obtain dir where dir: "sg_dir s = Some dir" "p1 = staged_path dir (sg_serial s + 1) name1" "sg_serial s1 = sg_serial s + 1"
    by (auto simp: stage_def Let_def split: if_splits option.splits)
  with assms(2,4) have "p2 = staged_path dir (sg_serial s2 + 1) name2"
    by (auto simp: stage_def Let_def split: if_splits)
  with staged_path_inj dir(2) \<open>p1 = p2\<close> have "sg_serial s + 1 = sg_serial s2 + 1" by metis
  with dir(3) assms(3) show False by simp
qed

subsection \<open>Write groups and input\<close>

definition write_groups :: "string list" where
  "write_groups = [''context'', ''destructive'', ''probe'', ''registry'', ''resources'']"

text \<open>Unknown names are refused; the first one is reported.\<close>

definition parse_write_groups :: "string list \<Rightarrow> string + string list" where
  "parse_write_groups groups = (case find (\<lambda>g. g \<notin> set write_groups) groups of
       Some g \<Rightarrow> Inl g
     | None \<Rightarrow> Inr (remdups groups))"

lemma parse_write_groups_known: "parse_write_groups groups = Inr approved \<Longrightarrow> set approved = set groups \<and> set groups \<subseteq> set write_groups"
  by (auto simp: parse_write_groups_def find_None_iff split: option.splits)

text \<open>\<open>boundedLineReader.Read\<close> on the bytes one read returned: the count, and whether the message is too large.\<close>

fun count_line :: "nat \<Rightarrow> nat \<Rightarrow> string \<Rightarrow> bool \<times> nat" where
  "count_line limit pending [] = (False, pending)"
| "count_line limit pending (c # cs) =
     (if c = CHR 0x0A then count_line limit 0 cs
      else if pending + 1 > limit then (True, pending + 1)
      else count_line limit (pending + 1) cs)"

fun read_lines :: "nat \<Rightarrow> nat \<Rightarrow> string list \<Rightarrow> bool" where
  "read_lines limit pending [] = False"
| "read_lines limit pending (p # ps) = (case count_line limit pending p of
     (True, _) \<Rightarrow> True | (False, pending') \<Rightarrow> read_lines limit pending' ps)"

lemma count_line_split:
  "pending \<le> limit \<Longrightarrow>
   fst (count_line limit pending s) = (limit < pending + length (hd (split_at_char (CHR 0x0A) s)) \<or>
      list_ex (\<lambda>l. limit < length l) (tl (split_at_char (CHR 0x0A) s)))"
proof (induction limit pending s rule: count_line.induct)
  case (2 limit pending c cs)
  obtain l ls where ls: "split_at_char (CHR 0x0A) cs = l # ls" by (cases "split_at_char (CHR 0x0A) cs") auto
  with 2 show ?case by auto
qed simp

lemma read_lines_concat: "read_lines limit pending ps = fst (count_line limit pending (concat ps))"
proof (induction ps arbitrary: pending)
  case (Cons p ps)
  have "count_line limit pending (p @ q) = (case count_line limit pending p of
      (True, n) \<Rightarrow> (True, n) | (False, n) \<Rightarrow> count_line limit n q)" for q
    by (induction limit pending p rule: count_line.induct) auto
  with Cons.IH show ?case by (auto split: prod.splits bool.splits)
qed simp

text \<open>A session ends with an error exactly when some message of its input exceeds the limit.\<close>

lemma read_lines_limit:
  "read_lines limit 0 ps \<longleftrightarrow> list_ex (\<lambda>l. limit < length l) (split_at_char (CHR 0x0A) (concat ps))"
proof -
  obtain l ls where "split_at_char (CHR 0x0A) (concat ps) = l # ls" by (cases "split_at_char (CHR 0x0A) (concat ps)") auto
  with count_line_split [of 0 limit "concat ps"] show ?thesis by (simp add: read_lines_concat)
qed

end
