(* ===== verification/Cli_Result.thy ===== *)
theory Cli_Result
  imports Plugin_Client "HOL-Library.Monad_Syntax"
begin

text \<open>
  internal/climcp/result.go: the result envelope of the management adapter, the decoding of
  what a child prints into typed wire structs, the projection of those into the data a client
  sees, and the recognised failures. A projection lists what it shows; nothing else of a
  child's output has a place in the data.
\<close>

subsection \<open>Envelope\<close>

record probe_details =
  pd_api_name :: string
  pd_http_status :: int
  pd_content_type :: string
  pd_latency_ms :: int
  pd_succeeded :: bool

record context_item =
  ci_name :: string
  ci_selected :: bool

record api_item =
  ai_id :: string
  ai_name :: string
  ai_method :: string
  ai_module :: string
  ai_status :: string
  ai_description :: string
  ai_endpoint_label :: string
  ai_auth_type :: string
  ai_auth_header :: string
  ai_credential_ref :: string
  ai_credential_source :: string

record schema_property =
  sp_type :: string
  sp_items_type :: string
  sp_description :: string
  sp_enum :: "string list"
  sp_required :: bool

record reference_item =
  ri_name :: string
  ri_version :: string

record resource_item =
  rc_api_version :: string
  rc_kind :: string
  rc_name :: string
  rc_version :: string
  rc_module :: string
  rc_description :: string
  rc_when_to_use :: "string list"
  rc_status :: string
  rc_active :: "bool option"
  rc_serving :: "bool option"
  rc_type :: string
  rc_method :: string
  rc_endpoint_label :: string
  rc_auth_type :: string
  rc_auth_header :: string
  rc_credential_ref :: string
  rc_credential_source :: string
  rc_data_class :: string
  rc_allowed_roles :: "string list"
  rc_input_properties :: "(string \<times> schema_property) list"
  rc_required_inputs :: "string list"
  rc_phase :: string
  rc_priority :: "int option"
  rc_failure_policy :: string
  rc_plugin_ref :: "reference_item option"
  rc_tool_ref :: "reference_item option"

record token_item =
  ti_id :: string
  ti_name :: string
  ti_scopes :: "string list"
  ti_roles :: "string list"
  ti_expires_at :: "timestamp option"
  ti_revoked_at :: "timestamp option"
  ti_created_at :: timestamp

datatype cli_data =
    Contexts_Data "context_item list"
  | Apis_Data "api_item list"
  | Resource_Data resource_item
  | Resources_Data "resource_item list"
  | Tokens_Data "token_item list"
  | Cache_Stats_Data int string
  | Log_Stats_Data "(string \<times> int) list" "(string \<times> int) list"
  | Validation_Data string string string
  | Generated_Data string
  | Write_Data string "bool option"
  | Context_Select_Data string string
  | Probe_Data probe_details
  | Flush_Data string int string

record cli_error =
  ce_code :: string
  ce_message :: string
  ce_suggestion :: string
  ce_cause :: string
  ce_details :: "probe_details option"

record cli_result =
  rs_operation :: string
  rs_context :: string
  rs_success :: bool
  rs_data :: "cli_data option"
  rs_error :: "cli_error option"

definition new_success :: "string \<Rightarrow> string \<Rightarrow> cli_data \<Rightarrow> cli_result" where
  "new_success operation context_name d =
     \<lparr> rs_operation = operation, rs_context = context_name, rs_success = True, rs_data = Some d, rs_error = None \<rparr>"

definition new_failure :: "string \<Rightarrow> string \<Rightarrow> string \<Rightarrow> string \<Rightarrow> string \<Rightarrow> cli_result" where
  "new_failure operation context_name code message suggestion =
     \<lparr> rs_operation = operation, rs_context = context_name, rs_success = False, rs_data = None,
       rs_error = Some \<lparr> ce_code = code, ce_message = message, ce_suggestion = suggestion, ce_cause = [], ce_details = None \<rparr> \<rparr>"

text \<open>\<open>callToolResult\<close>: the structured envelope and the protocol's error flag.\<close>

definition cli_call_result :: "cli_result \<Rightarrow> cli_result \<times> bool" where
  "cli_call_result r = (r, \<not> rs_success r)"

subsection \<open>Decoding a child's output\<close>

text \<open>
  encoding/json into a struct: a member belongs to the field whose name it equals up to case,
  the last one counts, null leaves the zero value, and a value of another type is an error.
\<close>

definition wire_member :: "string \<Rightarrow> jargs \<Rightarrow> jval" where
  "wire_member name ms = (case find (\<lambda>m. fold_json_name (fst m) = fold_json_name name) (rev ms) of
       None \<Rightarrow> JNull | Some m \<Rightarrow> snd m)"

fun wire_object :: "jval \<Rightarrow> jargs option" where
  "wire_object JNull = Some []"
| "wire_object (JObj ms) = Some ms"
| "wire_object _ = None"

fun wire_string :: "jval \<Rightarrow> string option" where
  "wire_string JNull = Some []"
| "wire_string (JStr s) = Some s"
| "wire_string _ = None"

fun wire_bool :: "jval \<Rightarrow> bool option" where
  "wire_bool JNull = Some False"
| "wire_bool (JBool b) = Some b"
| "wire_bool _ = None"

fun wire_int :: "jval \<Rightarrow> int option" where
  "wire_int JNull = Some 0"
| "wire_int (JNum n) = parse_int64 n"
| "wire_int _ = None"

text \<open>A pointer to a slice tells a missing list, \<open>Some None\<close>, from an empty one.\<close>

fun wire_list :: "(jval \<Rightarrow> 'a option) \<Rightarrow> jval \<Rightarrow> 'a list option option" where
  "wire_list f JNull = Some None"
| "wire_list f (JArr vs) = map_option Some (those (map f vs))"
| "wire_list f _ = None"

definition wire_slice :: "(jval \<Rightarrow> 'a option) \<Rightarrow> jval \<Rightarrow> 'a list option" where
  "wire_slice f v = map_option (\<lambda>l. case l of None \<Rightarrow> [] | Some xs \<Rightarrow> xs) (wire_list f v)"

definition wire_map :: "(jval \<Rightarrow> 'a option) \<Rightarrow> jval \<Rightarrow> (string \<times> 'a) list option" where
  "wire_map f v = (do { ms \<leftarrow> wire_object v; those (map (\<lambda>(k, x). map_option (Pair k) (f x)) ms) })"

text \<open>\<open>decodeChildJSON\<close>: exactly one document.\<close>

definition decode_child_json :: "(jval \<Rightarrow> 'a option) \<Rightarrow> string \<Rightarrow> 'a option" where
  "decode_child_json f stdout = (if stdout = [] then None else Option.bind (json_unmarshal stdout) f)"

abbreviation field :: "jargs \<Rightarrow> string \<Rightarrow> (jval \<Rightarrow> 'a option) \<Rightarrow> 'a option" where
  "field ms name f \<equiv> f (wire_member name ms)"

definition wire_context_list :: "jval \<Rightarrow> (string \<times> bool) list option option" where
  "wire_context_list v = do {
     ms \<leftarrow> wire_object v;
     field ms ''items'' (wire_list (\<lambda>i. do {
       m \<leftarrow> wire_object i; name \<leftarrow> field m ''name'' wire_string; current \<leftarrow> field m ''current'' wire_bool; Some (name, current) })) }"

definition endpoint_label :: "string \<Rightarrow> string" where
  "endpoint_label raw = (if raw = [] then [] else case url_parse raw of None \<Rightarrow> [] | Some u \<Rightarrow> u_host u)"

text \<open>The registered API: decoding and projection differ only in the URL, of which the label stays.\<close>

definition wire_api :: "jval \<Rightarrow> api_item option" where
  "wire_api v = do {
     m \<leftarrow> wire_object v;
     id \<leftarrow> field m ''id'' wire_string; name \<leftarrow> field m ''name'' wire_string; url \<leftarrow> field m ''url'' wire_string;
     method \<leftarrow> field m ''method'' wire_string; moduleName \<leftarrow> field m ''module'' wire_string;
     description \<leftarrow> field m ''description'' wire_string; status \<leftarrow> field m ''status'' wire_string;
     authType \<leftarrow> field m ''authType'' wire_string; authHeader \<leftarrow> field m ''authHeader'' wire_string;
     ref \<leftarrow> field m ''credentialRef'' wire_string; source \<leftarrow> field m ''credentialSource'' wire_string;
     Some \<lparr> ai_id = id, ai_name = name, ai_method = method, ai_module = moduleName, ai_status = status,
       ai_description = description, ai_endpoint_label = endpoint_label url, ai_auth_type = authType,
       ai_auth_header = authHeader, ai_credential_ref = ref, ai_credential_source = source \<rparr> }"

record wire_metadata =
  wm_name :: string
  wm_version :: string
  wm_module :: string
  wm_status :: string
  wm_is_active :: bool
  wm_is_serving :: bool

definition wire_metadata_of :: "jval \<Rightarrow> wire_metadata option" where
  "wire_metadata_of v = do {
     m \<leftarrow> wire_object v;
     name \<leftarrow> field m ''name'' wire_string; version \<leftarrow> field m ''version'' wire_string;
     moduleName \<leftarrow> field m ''module'' wire_string; status \<leftarrow> field m ''status'' wire_string;
     active \<leftarrow> field m ''isActive'' wire_bool; serving \<leftarrow> field m ''isServing'' wire_bool;
     Some \<lparr> wm_name = name, wm_version = version, wm_module = moduleName, wm_status = status, wm_is_active = active, wm_is_serving = serving \<rparr> }"

record wire_property =
  wp_type :: string
  wp_description :: string
  wp_enum :: "jval list"
  wp_items_type :: string

definition wire_property_of :: "jval \<Rightarrow> wire_property option" where
  "wire_property_of v = do {
     m \<leftarrow> wire_object v;
     ty \<leftarrow> field m ''type'' wire_string; description \<leftarrow> field m ''description'' wire_string;
     enum \<leftarrow> field m ''enum'' (wire_slice Some);
     items \<leftarrow> field m ''items'' wire_object; itemsType \<leftarrow> field items ''type'' wire_string;
     Some \<lparr> wp_type = ty, wp_description = description, wp_enum = enum, wp_items_type = itemsType \<rparr> }"

definition max_identifier_bytes :: nat where "max_identifier_bytes = 128"

text \<open>Enum values as bounded strings; null and the empty string are left out.\<close>

definition enum_text :: "jval \<Rightarrow> string option" where
  "enum_text v = (case v of
       JStr s \<Rightarrow> if s = [] \<or> length s > 128 then None else Some s
     | JNull \<Rightarrow> None
     | _ \<Rightarrow> if length (go_sprint v) > 128 then None else Some (go_sprint v))"

definition normalize_enum :: "jval list \<Rightarrow> string list" where
  "normalize_enum vs = List.map_filter enum_text vs"

record wire_tool =
  wt_api_version :: string
  wt_kind :: string
  wt_metadata :: wire_metadata
  wt_short :: string
  wt_when_to_use :: "string list"
  wt_required :: "string list"
  wt_properties :: "(string \<times> wire_property) list"
  wt_method :: string
  wt_endpoint :: string
  wt_auth_type :: string
  wt_auth_header :: string
  wt_credential_ref :: string
  wt_credential_source :: string
  wt_data_class :: string
  wt_allowed_roles :: "string list"

definition wire_tool_of :: "jval \<Rightarrow> wire_tool option" where
  "wire_tool_of v = do {
     m \<leftarrow> wire_object v;
     apiVersion \<leftarrow> field m ''apiVersion'' wire_string; kind \<leftarrow> field m ''kind'' wire_string;
     metadata \<leftarrow> field m ''metadata'' wire_metadata_of;
     spec \<leftarrow> field m ''spec'' wire_object;
     description \<leftarrow> field spec ''description'' wire_object;
     short \<leftarrow> field description ''short'' wire_string;
     whenToUse \<leftarrow> field description ''whenToUse'' (wire_slice wire_string);
     inputSchema \<leftarrow> field spec ''inputSchema'' wire_object;
     ty \<leftarrow> field inputSchema ''type'' wire_string;
     required \<leftarrow> field inputSchema ''required'' (wire_slice wire_string);
     properties \<leftarrow> field inputSchema ''properties'' (wire_map wire_property_of);
     execution \<leftarrow> field spec ''execution'' wire_object;
     method \<leftarrow> field execution ''method'' wire_string; endpoint \<leftarrow> field execution ''endpoint'' wire_string;
     security \<leftarrow> field spec ''security'' wire_object;
     authType \<leftarrow> field security ''authType'' wire_string; authHeader \<leftarrow> field security ''authHeader'' wire_string;
     ref \<leftarrow> field security ''credentialRef'' wire_string; source \<leftarrow> field security ''credentialSource'' wire_string;
     dataClass \<leftarrow> field security ''dataClass'' wire_string;
     roles \<leftarrow> field security ''allowedRoles'' (wire_slice wire_string);
     Some \<lparr> wt_api_version = apiVersion, wt_kind = kind, wt_metadata = metadata, wt_short = short, wt_when_to_use = whenToUse,
       wt_required = required, wt_properties = properties, wt_method = method, wt_endpoint = endpoint, wt_auth_type = authType,
       wt_auth_header = authHeader, wt_credential_ref = ref, wt_credential_source = source, wt_data_class = dataClass,
       wt_allowed_roles = roles \<rparr> }"

record wire_plugin =
  wl_api_version :: string
  wl_kind :: string
  wl_metadata :: wire_metadata
  wl_type :: string
  wl_endpoint :: string

definition wire_plugin_of :: "jval \<Rightarrow> wire_plugin option" where
  "wire_plugin_of v = do {
     m \<leftarrow> wire_object v;
     apiVersion \<leftarrow> field m ''apiVersion'' wire_string; kind \<leftarrow> field m ''kind'' wire_string;
     metadata \<leftarrow> field m ''metadata'' wire_metadata_of;
     spec \<leftarrow> field m ''spec'' wire_object;
     ty \<leftarrow> field spec ''type'' wire_string; endpoint \<leftarrow> field spec ''endpoint'' wire_string;
     Some \<lparr> wl_api_version = apiVersion, wl_kind = kind, wl_metadata = metadata, wl_type = ty, wl_endpoint = endpoint \<rparr> }"

definition wire_reference :: "jval \<Rightarrow> reference_item option" where
  "wire_reference v = do {
     m \<leftarrow> wire_object v; name \<leftarrow> field m ''name'' wire_string; version \<leftarrow> field m ''version'' wire_string;
     Some \<lparr> ri_name = name, ri_version = version \<rparr> }"

record wire_binding =
  wb_api_version :: string
  wb_kind :: string
  wb_name :: string
  wb_is_active :: bool
  wb_plugin_ref :: reference_item
  wb_tool_ref :: reference_item
  wb_phase :: string
  wb_priority :: int
  wb_failure_policy :: string

definition wire_binding_of :: "jval \<Rightarrow> wire_binding option" where
  "wire_binding_of v = do {
     m \<leftarrow> wire_object v;
     apiVersion \<leftarrow> field m ''apiVersion'' wire_string; kind \<leftarrow> field m ''kind'' wire_string;
     metadata \<leftarrow> field m ''metadata'' wire_object;
     name \<leftarrow> field metadata ''name'' wire_string; active \<leftarrow> field metadata ''isActive'' wire_bool;
     spec \<leftarrow> field m ''spec'' wire_object;
     pluginRef \<leftarrow> field spec ''pluginRef'' wire_reference; toolRef \<leftarrow> field spec ''toolRef'' wire_reference;
     phase \<leftarrow> field spec ''phase'' wire_string; priority \<leftarrow> field spec ''priority'' wire_int;
     failurePolicy \<leftarrow> field spec ''failurePolicy'' wire_string;
     Some \<lparr> wb_api_version = apiVersion, wb_kind = kind, wb_name = name, wb_is_active = active, wb_plugin_ref = pluginRef,
       wb_tool_ref = toolRef, wb_phase = phase, wb_priority = priority, wb_failure_policy = failurePolicy \<rparr> }"

text \<open>A token's times are RFC 3339 texts; \<open>parseTime\<close> reads them.\<close>

definition wire_time :: "(string \<Rightarrow> timestamp option) \<Rightarrow> jval \<Rightarrow> timestamp option option" where
  "wire_time parseTime v = (case v of
       JNull \<Rightarrow> Some None
     | JStr s \<Rightarrow> map_option Some (parseTime s)
     | _ \<Rightarrow> None)"

definition zero_time :: timestamp where "zero_time = - 62135596800 * second"

definition wire_token :: "(string \<Rightarrow> timestamp option) \<Rightarrow> jval \<Rightarrow> token_item option" where
  "wire_token parseTime v = do {
     m \<leftarrow> wire_object v;
     id \<leftarrow> field m ''id'' wire_string; name \<leftarrow> field m ''name'' wire_string;
     scopes \<leftarrow> field m ''scopes'' (wire_slice wire_string); roles \<leftarrow> field m ''roles'' (wire_slice wire_string);
     expires \<leftarrow> field m ''expiresAt'' (wire_time parseTime); revoked \<leftarrow> field m ''revokedAt'' (wire_time parseTime);
     created \<leftarrow> field m ''createdAt'' (wire_time parseTime);
     Some \<lparr> ti_id = id, ti_name = name, ti_scopes = scopes, ti_roles = roles, ti_expires_at = expires, ti_revoked_at = revoked,
       ti_created_at = (case created of None \<Rightarrow> zero_time | Some t \<Rightarrow> t) \<rparr> }"

subsection \<open>Projections\<close>

text \<open>A projection fails because the output cannot be used, or reports a probe that failed.\<close>

datatype project_error = Unusable_Output | Probe_Failure probe_details

type_synonym projection = "string \<Rightarrow> project_error + cli_data"

definition usable :: "cli_data option \<Rightarrow> project_error + cli_data" where
  "usable r = (case r of None \<Rightarrow> Inl Unusable_Output | Some d \<Rightarrow> Inr d)"

definition list_items :: "jval \<Rightarrow> string \<Rightarrow> (jval \<Rightarrow> 'a option) \<Rightarrow> 'a list option" where
  "list_items v name f = do { m \<leftarrow> wire_object v; items \<leftarrow> field m name (wire_list f); items }"

definition project_context_list :: projection where
  "project_context_list stdout = usable (do {
     items \<leftarrow> decode_child_json wire_context_list stdout; items' \<leftarrow> items;
     if list_ex (\<lambda>i. fst i = []) items' then None
     else Some (Contexts_Data (map (\<lambda>(name, current). \<lparr> ci_name = name, ci_selected = current \<rparr>) items')) })"

definition project_api_list :: projection where
  "project_api_list stdout = usable (do {
     items \<leftarrow> decode_child_json (\<lambda>v. list_items v ''items'' wire_api) stdout;
     if list_ex (\<lambda>i. ai_name i = []) items then None else Some (Apis_Data items) })"

definition blank_resource :: "string \<Rightarrow> string \<Rightarrow> string \<Rightarrow> resource_item" where
  "blank_resource apiVersion kind name = \<lparr> rc_api_version = apiVersion, rc_kind = kind, rc_name = name, rc_version = [], rc_module = [],
     rc_description = [], rc_when_to_use = [], rc_status = [], rc_active = None, rc_serving = None, rc_type = [], rc_method = [],
     rc_endpoint_label = [], rc_auth_type = [], rc_auth_header = [], rc_credential_ref = [], rc_credential_source = [],
     rc_data_class = [], rc_allowed_roles = [], rc_input_properties = [], rc_required_inputs = [], rc_phase = [],
     rc_priority = None, rc_failure_policy = [], rc_plugin_ref = None, rc_tool_ref = None \<rparr>"

definition project_property :: "string list \<Rightarrow> string \<Rightarrow> wire_property \<Rightarrow> schema_property" where
  "project_property required name p = \<lparr> sp_type = wp_type p, sp_items_type = wp_items_type p, sp_description = wp_description p,
     sp_enum = normalize_enum (wp_enum p), sp_required = (name \<in> set required) \<rparr>"

definition project_tool_resource :: "wire_tool \<Rightarrow> resource_item option" where
  "project_tool_resource w = (let m = wt_metadata w in
     if wm_name m = [] then None
     else Some ((blank_resource (wt_api_version w) (wt_kind w) (wm_name m))\<lparr>
       rc_version := wm_version m, rc_module := wm_module m, rc_description := wt_short w, rc_when_to_use := wt_when_to_use w,
       rc_status := wm_status m, rc_active := Some (wm_is_active m), rc_serving := Some (wm_is_serving m),
       rc_method := to_upper (wt_method w), rc_endpoint_label := endpoint_label (wt_endpoint w),
       rc_auth_type := wt_auth_type w, rc_auth_header := wt_auth_header w, rc_credential_ref := wt_credential_ref w,
       rc_credential_source := wt_credential_source w, rc_data_class := wt_data_class w, rc_allowed_roles := wt_allowed_roles w,
       rc_required_inputs := wt_required w,
       rc_input_properties := map (\<lambda>(name, p). (name, project_property (wt_required w) name p)) (wt_properties w) \<rparr>))"

definition project_tool_list :: projection where
  "project_tool_list stdout = usable (do {
     tools \<leftarrow> decode_child_json (\<lambda>v. list_items v ''tools'' wire_tool_of) stdout;
     items \<leftarrow> those (map project_tool_resource tools); Some (Resources_Data items) })"

definition project_tool_item :: projection where
  "project_tool_item stdout = usable (do {
     w \<leftarrow> decode_child_json wire_tool_of stdout;
     if wt_kind w = [] then None else map_option Resource_Data (project_tool_resource w) })"

definition project_plugin_resource :: "wire_plugin \<Rightarrow> resource_item option" where
  "project_plugin_resource w = (let m = wl_metadata w in
     if wm_name m = [] then None
     else Some ((blank_resource (wl_api_version w) (wl_kind w) (wm_name m))\<lparr>
       rc_version := wm_version m, rc_type := wl_type w, rc_active := Some (wm_is_active m),
       rc_endpoint_label := endpoint_label (wl_endpoint w) \<rparr>))"

definition project_plugin_list :: projection where
  "project_plugin_list stdout = usable (do {
     plugins \<leftarrow> decode_child_json (\<lambda>v. list_items v ''plugins'' wire_plugin_of) stdout;
     items \<leftarrow> those (map project_plugin_resource plugins); Some (Resources_Data items) })"

definition project_plugin_item :: projection where
  "project_plugin_item stdout = usable (do {
     w \<leftarrow> decode_child_json wire_plugin_of stdout;
     if wl_kind w = [] \<or> wm_version (wl_metadata w) = [] then None
     else map_option Resource_Data (project_plugin_resource w) })"

definition project_binding_resource :: "wire_binding \<Rightarrow> resource_item option" where
  "project_binding_resource w =
     (if wb_name w = [] then None
      else Some ((blank_resource (wb_api_version w) (wb_kind w) (wb_name w))\<lparr>
        rc_active := Some (wb_is_active w), rc_phase := wb_phase w, rc_priority := Some (wb_priority w),
        rc_failure_policy := wb_failure_policy w, rc_plugin_ref := Some (wb_plugin_ref w), rc_tool_ref := Some (wb_tool_ref w) \<rparr>))"

definition project_binding_list :: projection where
  "project_binding_list stdout = usable (do {
     bindings \<leftarrow> decode_child_json (\<lambda>v. list_items v ''bindings'' wire_binding_of) stdout;
     items \<leftarrow> those (map project_binding_resource bindings); Some (Resources_Data items) })"

definition project_binding_item :: projection where
  "project_binding_item stdout = usable (do {
     w \<leftarrow> decode_child_json wire_binding_of stdout;
     if wb_kind w = [] then None else map_option Resource_Data (project_binding_resource w) })"

definition project_token_list :: "(string \<Rightarrow> timestamp option) \<Rightarrow> projection" where
  "project_token_list parseTime stdout = usable (do {
     items \<leftarrow> decode_child_json (\<lambda>v. list_items v ''items'' (wire_token parseTime)) stdout;
     if list_ex (\<lambda>i. ti_id i = []) items then None else Some (Tokens_Data items) })"

definition project_cache_stats :: projection where
  "project_cache_stats stdout = usable (do {
     w \<leftarrow> decode_child_json (\<lambda>v. do { m \<leftarrow> wire_object v;
        if wire_member ''stats'' m = JNull then Some None
        else do { stats \<leftarrow> field m ''stats'' wire_object; keys \<leftarrow> field stats ''exactKeys'' wire_int;
                  memory \<leftarrow> field stats ''redisMemory'' wire_string; Some (Some (keys, memory)) } }) stdout;
     stats \<leftarrow> w; Some (Cache_Stats_Data (fst stats) (snd stats)) })"

definition duration_to_milliseconds :: "int \<Rightarrow> int" where
  "duration_to_milliseconds ns = (if ns \<le> 0 then 0 else ns div 1000000)"

definition wire_api_test :: "jval \<Rightarrow> (string \<times> probe_details) option" where
  "wire_api_test v = do {
     m \<leftarrow> wire_object v;
     name \<leftarrow> field m ''api'' wire_string; status \<leftarrow> field m ''status'' wire_string; code \<leftarrow> field m ''code'' wire_int;
     latency \<leftarrow> field m ''latency'' wire_int; contentType \<leftarrow> field m ''contentType'' wire_string;
     success \<leftarrow> field m ''isSuccess'' wire_bool;
     Some (status, \<lparr> pd_api_name = name, pd_http_status = code, pd_content_type = contentType,
       pd_latency_ms = duration_to_milliseconds latency, pd_succeeded = success \<rparr>) }"

definition project_api_test :: projection where
  "project_api_test stdout = (case decode_child_json wire_api_test stdout of
       None \<Rightarrow> Inl Unusable_Output
     | Some (status, details) \<Rightarrow>
         if status = [] \<or> pd_http_status details = 0 then Inl Unusable_Output
         else if \<not> pd_succeeded details then Inl (Probe_Failure details)
         else Inr (Probe_Data details))"

definition known_log_levels :: "string list" where
  "known_log_levels = [''debug'', ''info'', ''warn'', ''warning'', ''error'', ''fatal'', ''panic'']"

definition unrecognized_label :: string where "unrecognized_label = ''unrecognized''"

definition is_control_byte :: "char \<Rightarrow> bool" where
  "is_control_byte c \<longleftrightarrow> (of_char c :: nat) < 32 \<or> (of_char c :: nat) = 127"

definition is_safe_label :: "string \<Rightarrow> bool" where
  "is_safe_label v \<longleftrightarrow> v \<noteq> [] \<and> length v \<le> max_identifier_bytes \<and> \<not> list_ex is_control_byte v"

definition add_count :: "string \<Rightarrow> int \<Rightarrow> (string \<times> int) list \<Rightarrow> (string \<times> int) list" where
  "add_count label n counts = amap_put label (wrap64 ((case map_of counts label of None \<Rightarrow> 0 | Some m \<Rightarrow> m) + n)) counts"

definition level_label :: "string \<Rightarrow> string" where
  "level_label label = (if to_lower label \<in> set known_log_levels then to_lower label else unrecognized_label)"

definition tool_label :: "string \<Rightarrow> string" where
  "tool_label label = (if is_safe_label label then label else unrecognized_label)"

definition count_labels :: "(string \<Rightarrow> string) \<Rightarrow> (string \<times> int) list \<Rightarrow> (string \<times> int) list" where
  "count_labels f counts = fold (\<lambda>(label, n). add_count (f label) n) counts []"

definition project_log_stats :: projection where
  "project_log_stats stdout = usable (do {
     w \<leftarrow> decode_child_json (\<lambda>v. do { m \<leftarrow> wire_object v;
        levels \<leftarrow> field m ''levelCounts'' (wire_map wire_int); tools \<leftarrow> field m ''toolCounts'' (wire_map wire_int);
        Some (levels, tools) }) stdout;
     Some (Log_Stats_Data (count_labels level_label (fst w)) (count_labels tool_label (snd w))) })"

subsection \<open>Recognised failures\<close>

definition child_failure_codes :: "(string \<times> string \<times> string \<times> string) list" where
  "child_failure_codes =
     [(''CONTEXT_NOT_FOUND'', ''not_found'', ''the selected context is not configured'',
         ''Run bridgectl context list to see the configured contexts.''),
      (''RESOURCE_NOT_FOUND'', ''not_found'', ''the requested resource was not found'', ''Inspect the resource identity and retry.''),
      (''API_NOT_FOUND'', ''not_found'', ''the requested API is not registered in this context'',
         ''List the registered APIs before requesting this one.''),
      (''AUTHENTICATION_FAILED'', ''authentication_required'', ''the ERPBridge deployment rejected the session credential'',
         ''Check the credential configured for the selected context.''),
      (''AUTHORIZATION_DENIED'', ''authorization_denied'', ''the ERPBridge deployment denied this operation'',
         ''Use a credential with the required scope or role.''),
      (''REGISTRY_CONFLICT'', ''conflict'', ''a resource with that name already exists'',
         ''Choose another name, or replace it explicitly when that is intended.''),
      (''UPSTREAM_UNREACHABLE'', ''upstream_unavailable'', ''the ERPBridge control plane could not be reached'',
         ''Check that ERPBridge is running and that the pinned endpoint is reachable.''),
      (''HEALTH_CHECK_FAILED'', ''upstream_unavailable'', ''the ERPBridge control plane reported an unhealthy state'',
         ''Check the deployment health before retrying.''),
      (''VALIDATION_FAILED'', ''invalid_arguments'', ''the submitted arguments or resource failed validation'',
         ''Correct the input and retry.''),
      (''INVALID_URL'', ''invalid_arguments'', ''a provided URL was rejected'',
         ''Provide an absolute http or https URL without credentials in the userinfo.''),
      (''CONTROL_PLANE_URL_INVALID'', ''invalid_arguments'', ''the configured control-plane URL is not usable'',
         ''Set the context endpoint to a host root such as https://host.''),
      (''INSECURE_TRANSPORT'', ''invalid_arguments'', ''the operation was refused over an insecure transport'',
         ''Use HTTPS, or explicitly allow the local development host.''),
      (''LEGACY_REGISTRY'', ''invalid_arguments'', ''the local registry requires a credential-safe migration'',
         ''Complete the registry migration before using this tool.''),
      (''MCP_CONTEXT_CHANGED'', ''context_changed'', ''the session selection no longer matches the saved configuration'',
         ''Restart the management MCP process to adopt the changed context, endpoint, or credential.''),
      (''NO_CONTEXT'', ''context_changed'', ''no context is available for this session'',
         ''Select a configured context and restart the management MCP process.''),
      (''MISCONFIGURED_CONTEXT'', ''context_changed'', ''the selected context is incomplete'',
         ''Provide the missing endpoint in the context configuration.'')]"

definition exit_code_failures :: "(int \<times> string \<times> string \<times> string) list" where
  "exit_code_failures =
     [(2, ''invalid_arguments'', ''the child rejected its arguments'', ''Correct the input and retry.''),
      (3, ''not_found'', ''the requested resource was not found'', ''Inspect the resource identity and retry.''),
      (4, ''authentication_required'', ''the ERPBridge deployment rejected the session credential'',
         ''Check the credential configured for the selected context.''),
      (5, ''conflict'', ''a resource with that name already exists'',
         ''Choose another name, or replace it explicitly when that is intended.''),
      (6, ''upstream_unavailable'', ''the ERPBridge control plane could not be reached'',
         ''Check that ERPBridge is running and that the pinned endpoint is reachable.''),
      (7, ''context_changed'', ''the session precondition is no longer satisfied'',
         ''Restart the management MCP process to adopt the changed configuration.'')]"

text \<open>From the last opening brace on, the envelope's code; the other members are not read.\<close>

definition from_last_brace :: "string \<Rightarrow> string" where
  "from_last_brace s = (if CHR ''{'' \<in> set s then CHR ''{'' # rev (takeWhile (\<lambda>c. c \<noteq> CHR ''{'') (rev s)) else s)"

definition stream_error_code :: "string \<Rightarrow> string option" where
  "stream_error_code stream =
     (let candidate = trim_space stream in
      if candidate = [] then None
      else case json_unmarshal (from_last_brace candidate) of
        None \<Rightarrow> None
      | Some v \<Rightarrow> (case Option.bind (wire_object v) (\<lambda>m. field m ''error'' wire_string) of
          None \<Rightarrow> None
        | Some code \<Rightarrow> if code = [] then None else Some code))"

definition child_error_code :: "string \<Rightarrow> string \<Rightarrow> string option" where
  "child_error_code stdout stderr = (case stream_error_code stdout of
       Some code \<Rightarrow> Some code
     | None \<Rightarrow> stream_error_code stderr)"

end
