(* ===== verification/Cli_Catalog.thy ===== *)
theory Cli_Catalog
  imports Logging Cli_Session Cli_Result
begin

text \<open>
  internal/climcp/catalog.go: the fixed catalogue of management tools. A descriptor validates
  the caller's arguments and builds the argument vector of one child call; the advertised
  input schemas are the MCP library's and left out. Texts that a message quotes are quoted as
  \<open>strconv.Quote\<close> does for printable text.
\<close>

subsection \<open>Contexts and results\<close>

text \<open>\<open>and_then\<close> is the \<open>if failure != nil { return failure }\<close> of the source.\<close>

definition and_then :: "'e + 'a \<Rightarrow> ('a \<Rightarrow> 'e + 'b) \<Rightarrow> 'e + 'b" where
  "and_then r k = (case r of Inl e \<Rightarrow> Inl e | Inr x \<Rightarrow> k x)"

lemma and_then_simps [simp]: "and_then (Inl e) k = Inl e" "and_then (Inr x) k = k x"
  by (simp_all add: and_then_def)

lemma and_then_Inr [simp]: "and_then r k = Inr y \<longleftrightarrow> (\<exists>x. r = Inr x \<and> k x = Inr y)"
  by (cases r) simp_all

record invocation_context =
  ic_operation :: string
  ic_context :: string
  ic_writable :: bool

record invocation =
  iv_argv :: "string list"
  iv_project :: projection

definition ic_fail :: "invocation_context \<Rightarrow> string \<Rightarrow> string \<Rightarrow> string \<Rightarrow> cli_result" where
  "ic_fail ic code message suggestion = new_failure (ic_operation ic) (ic_context ic) code message suggestion"

abbreviation invalid_arguments :: "invocation_context \<Rightarrow> string \<Rightarrow> string \<Rightarrow> cli_result" where
  "invalid_arguments ic message suggestion \<equiv> ic_fail ic ''invalid_arguments'' message suggestion"

subsection \<open>Argument validation\<close>

definition max_argument_key_bytes :: nat where "max_argument_key_bytes = 64"

definition strconv_quote :: "string \<Rightarrow> string" where
  "strconv_quote s = [CHR 0x22] @ concat (map (\<lambda>c. if c = CHR 0x22 \<or> c = CHR 0x5C then [CHR 0x5C, c] else [c]) s) @ [CHR 0x22]"

definition bounded_key :: "string \<Rightarrow> string" where
  "bounded_key key = filter (\<lambda>c. \<not> is_control_byte c) (take max_argument_key_bytes key)"

definition reject_unknown :: "invocation_context \<Rightarrow> jargs \<Rightarrow> string list \<Rightarrow> cli_result + unit" where
  "reject_unknown ic args allowed = (case find (\<lambda>a. fst a \<notin> set allowed) args of
       None \<Rightarrow> Inr ()
     | Some a \<Rightarrow> Inl (invalid_arguments ic (''unknown argument '' @ strconv_quote (bounded_key (fst a)))
         ''Send only the documented arguments for this tool.''))"

text \<open>The problem of a value, or the empty string.\<close>

definition identifier_problem :: "string \<Rightarrow> nat \<Rightarrow> string" where
  "identifier_problem v limit =
     (if v = [] then ''must not be empty''
      else if length v > limit then ''must be at most '' @ itoa (int limit) @ '' bytes''
      else if has_prefix v ''-'' then ''must not start with '' @ [CHR 0x27] @ ''-'' @ [CHR 0x27]
      else if list_ex is_control_byte v then ''must not contain control characters''
      else [])"

definition optional_string :: "invocation_context \<Rightarrow> jargs \<Rightarrow> string \<Rightarrow> nat \<Rightarrow> cli_result + string" where
  "optional_string ic args key limit = (case map_of args key of
       None \<Rightarrow> Inr []
     | Some JNull \<Rightarrow> Inr []
     | Some (JStr v) \<Rightarrow>
         if identifier_problem v limit \<noteq> []
         then Inl (invalid_arguments ic (key @ '' '' @ identifier_problem v limit) ''Correct the argument and retry.'')
         else Inr v
     | Some _ \<Rightarrow> Inl (invalid_arguments ic (key @ '' must be a string'') ''Correct the argument and retry.''))"

definition required_string :: "invocation_context \<Rightarrow> jargs \<Rightarrow> string \<Rightarrow> nat \<Rightarrow> cli_result + string" where
  "required_string ic args key limit = and_then (optional_string ic args key limit) (\<lambda>v.
     if v = [] then Inl (invalid_arguments ic (key @ '' is required'') ''Provide the argument and retry.'') else Inr v)"

definition optional_bool :: "invocation_context \<Rightarrow> jargs \<Rightarrow> string \<Rightarrow> cli_result + bool" where
  "optional_bool ic args key = (case map_of args key of
       None \<Rightarrow> Inr False
     | Some JNull \<Rightarrow> Inr False
     | Some (JBool b) \<Rightarrow> Inr b
     | Some _ \<Rightarrow> Inl (invalid_arguments ic (key @ '' must be a boolean'') ''Correct the argument and retry.''))"

definition versioned_identifier :: "invocation_context \<Rightarrow> jargs \<Rightarrow> cli_result + string" where
  "versioned_identifier ic args =
     and_then (optional_string ic args ''name'' max_identifier_bytes) (\<lambda>name.
     and_then (optional_string ic args ''version'' max_identifier_bytes) (\<lambda>version.
       if name = [] \<and> version \<noteq> []
       then Inl (invalid_arguments ic ''version requires name'' ''Provide name, or omit both for a list request.'')
       else if CHR ''@'' \<in> set name \<or> CHR ''@'' \<in> set version
       then Inl (invalid_arguments ic (''name and version must not contain '' @ [CHR 0x27] @ ''@'' @ [CHR 0x27])
              ''Provide the name and version as separate arguments.'')
       else if version = [] then Inr name
       else Inr (name @ ''@'' @ version)))"

definition target_of :: "string \<Rightarrow> string \<Rightarrow> string" where
  "target_of name version = (if version = [] then name else name @ ''@'' @ version)"

definition max_target_bytes :: nat where "max_target_bytes = 256"

definition confirmation_mismatch :: "invocation_context \<Rightarrow> string \<Rightarrow> string \<Rightarrow> cli_result" where
  "confirmation_mismatch ic message suggestion = ic_fail ic ''confirmation_mismatch'' message suggestion"

definition require_target :: "invocation_context \<Rightarrow> jargs \<Rightarrow> string \<Rightarrow> cli_result + unit" where
  "require_target ic args canonical =
     and_then (required_string ic args ''confirmContext'' max_identifier_bytes) (\<lambda>confirmContext.
       if confirmContext \<noteq> ic_context ic
       then Inl (confirmation_mismatch ic ''confirmContext does not match the context pinned to this session''
              ''Repeat the pinned context name exactly.'')
       else and_then (required_string ic args ''confirmTarget'' max_target_bytes) (\<lambda>target.
         if target \<noteq> canonical
         then Inl (confirmation_mismatch ic ''confirmTarget does not match the requested target''
                ''Send the canonical target exactly as documented for this tool.'')
         else Inr ()))"

definition is_header_token_byte :: "char \<Rightarrow> bool" where
  "is_header_token_byte c \<longleftrightarrow> is_letter c \<or> is_digit c \<or> c \<in> set (''!#$%&'' @ [CHR 0x27] @ ''*+-.^_`|~'')"

definition header_token_problem :: "string \<Rightarrow> string" where
  "header_token_problem v =
     (if v = [] then ''must not be empty''
      else if length v > max_identifier_bytes then ''must be at most 128 bytes''
      else if \<not> list_all is_header_token_byte v then ''must be a valid HTTP header name''
      else [])"

subsection \<open>Manifest validation\<close>

record validated_manifest =
  vm_encoded :: string
  vm_kind :: string
  vm_name :: string
  vm_version :: string

definition string_of :: "jval option \<Rightarrow> string" where
  "string_of v = (case v of Some (JStr s) \<Rightarrow> s | _ \<Rightarrow> [])"

definition manifest_identity :: "jargs \<Rightarrow> string \<times> string" where
  "manifest_identity document = (case map_of document ''metadata'' of
       Some (JObj m) \<Rightarrow> (string_of (map_of m ''name''), string_of (map_of m ''version''))
     | _ \<Rightarrow> ([], []))"

definition has_field_alias :: "jargs \<Rightarrow> string \<Rightarrow> bool" where
  "has_field_alias document canonical = list_ex (\<lambda>m. fst m \<noteq> canonical \<and> equal_fold (fst m) canonical) document"

definition endpoint_problem :: "string \<Rightarrow> string" where
  "endpoint_problem endpoint = (case url_parse endpoint of
       None \<Rightarrow> ''generated endpoint is not a valid URL''
     | Some u \<Rightarrow>
         if u_scheme u \<noteq> ''http'' \<and> u_scheme u \<noteq> ''https'' then ''generated endpoint must use http or https''
         else if u_host u = [] then ''generated endpoint must include a host''
         else if u_user u \<noteq> None then ''generated endpoint must not contain credentials in the userinfo''
         else if u_raw_query u \<noteq> [] \<or> u_fragment u \<noteq> [] then ''generated endpoint must not contain a query or fragment''
         else [])"

definition kind_tool :: string where "kind_tool = ''MCPTool''"
definition kind_plugin :: string where "kind_plugin = ''Plugin''"
definition kind_binding :: string where "kind_binding = ''PluginBinding''"

lemmas manifest_kinds = kind_tool_def kind_plugin_def kind_binding_def

definition alias_problem :: "string \<Rightarrow> string" where
  "alias_problem name = ''manifest must use the canonical '' @ name @ '' field spelling''"

definition manifest_endpoint :: "jargs \<Rightarrow> string \<Rightarrow> string + string" where
  "manifest_endpoint spec kind =
     (if kind = kind_tool then
        (if has_field_alias spec ''execution'' then Inl (alias_problem ''execution'')
         else case map_of spec ''execution'' of
           Some (JObj ex) \<Rightarrow> if has_field_alias ex ''endpoint'' then Inl (alias_problem ''endpoint'')
                             else Inr (string_of (map_of ex ''endpoint''))
         | _ \<Rightarrow> Inr [])
      else if kind = kind_plugin then
        (if has_field_alias spec ''endpoint'' then Inl (alias_problem ''endpoint'')
         else Inr (string_of (map_of spec ''endpoint'')))
      else Inr [])"

definition manifest_endpoint_problem :: "jargs \<Rightarrow> string \<Rightarrow> string" where
  "manifest_endpoint_problem document kind =
     (if has_field_alias document ''spec'' then alias_problem ''spec''
      else case map_of document ''spec'' of
        Some (JObj spec) \<Rightarrow> (case manifest_endpoint spec kind of
            Inl problem \<Rightarrow> problem
          | Inr endpoint \<Rightarrow>
              if endpoint = [] then []
              else if endpoint_problem endpoint \<noteq> [] then ''manifest endpoint '' @ endpoint_problem endpoint
              else [])
      | _ \<Rightarrow> [])"

definition schema_keys :: "string list" where "schema_keys = [''inputschema'', ''outputschema'']"
definition schema_value_keys :: "string list" where "schema_value_keys = [''default'', ''example'', ''examples'', ''const'']"

definition literal_credential :: "bool \<Rightarrow> string \<Rightarrow> string \<Rightarrow> jval \<Rightarrow> bool" where
  "literal_credential insideSchema propertyName key v = (case v of
       JStr text \<Rightarrow> text \<noteq> [] \<and>
         (if insideSchema then to_lower key \<in> set schema_value_keys \<and> is_sensitive_arg_key propertyName
          else is_sensitive_arg_key key)
     | _ \<Rightarrow> False)"

fun scan_credential_values :: "bool \<Rightarrow> string \<Rightarrow> jval \<Rightarrow> bool" where
  "scan_credential_values insideSchema propertyName (JObj ms) = list_ex (\<lambda>(key, v).
     if to_lower key = ''properties'' then
       (case v of JObj ps \<Rightarrow> list_ex (\<lambda>(name, schema). scan_credential_values True name schema) ps | _ \<Rightarrow> False)
     else if to_lower key \<in> set schema_keys then scan_credential_values True propertyName v
     else literal_credential insideSchema propertyName key v \<or> scan_credential_values insideSchema propertyName v) ms"
| "scan_credential_values insideSchema propertyName (JArr vs) =
     list_ex (scan_credential_values insideSchema propertyName) vs"
| "scan_credential_values insideSchema propertyName _ = False"

definition validate_manifest :: "invocation_context \<Rightarrow> jargs \<Rightarrow> string \<Rightarrow> cli_result + validated_manifest" where
  "validate_manifest ic args expectedKind = (case map_of args ''manifest'' of
       None \<Rightarrow> Inl (invalid_arguments ic ''manifest is required'' ''Provide one inline resource object.'')
     | Some JNull \<Rightarrow> Inl (invalid_arguments ic ''manifest is required'' ''Provide one inline resource object.'')
     | Some (JObj document) \<Rightarrow>
         let (name, version) = manifest_identity document in
         if string_of (map_of document ''kind'') \<noteq> expectedKind
         then Inl (invalid_arguments ic (''manifest kind must be '' @ expectedKind) ''Send the resource kind this tool accepts.'')
         else if name = []
         then Inl (invalid_arguments ic ''manifest.metadata.name is required'' ''Provide the resource name inside the manifest.'')
         else if identifier_problem name max_identifier_bytes \<noteq> []
         then Inl (invalid_arguments ic (''manifest.metadata.name '' @ identifier_problem name max_identifier_bytes)
                ''Correct the manifest and retry.'')
         else if scan_credential_values False [] (JObj document)
         then Inl (invalid_arguments ic ''the manifest contains a literal credential value''
                ''Reference credentials by logical name only; never send credential values.'')
         else if manifest_endpoint_problem document expectedKind \<noteq> []
         then Inl (invalid_arguments ic (manifest_endpoint_problem document expectedKind)
                ''Provide an endpoint without embedded credentials or credentials in a query.'')
         else if length (json_text (JObj document)) > max_manifest_bytes
         then Inl (invalid_arguments ic ''the manifest exceeds 262144 bytes'' ''Send a smaller resource definition.'')
         else Inr \<lparr> vm_encoded = json_text (JObj document), vm_kind = expectedKind, vm_name = name, vm_version = version \<rparr>
     | Some _ \<Rightarrow> Inl (invalid_arguments ic ''manifest must be a single JSON object''
           ''Provide one inline object, not a path, URL, array, or list.''))"

text \<open>The staging directory of a dispatch with the path it staged, if any.\<close>

type_synonym staging = "stager \<times> string option"

definition stage_manifest :: "invocation_context \<Rightarrow> validated_manifest \<Rightarrow> staging \<Rightarrow> (cli_result + string) \<times> staging" where
  "stage_manifest ic manifest st = (case stage (ic_writable ic) ''manifest.json'' (vm_encoded manifest) (fst st) of
       (Inl _, s) \<Rightarrow> (Inl (ic_fail ic ''internal_error'' ''the manifest could not be staged for validation''
           ''Check that the local temporary directory is writable.''), (s, snd st))
     | (Inr path, s) \<Rightarrow> (Inr path, (s, Some path)))"

subsection \<open>Invocations\<close>

datatype side_effect = Effect_Read | Effect_Local | Effect_Write | Effect_Probe

definition is_side_effecting :: "side_effect \<Rightarrow> bool" where
  "is_side_effecting e \<longleftrightarrow> e = Effect_Write \<or> e = Effect_Probe"

record descriptor =
  de_name :: string
  de_group :: string
  de_effect :: side_effect
  de_local_validation :: bool
  de_additional :: "jargs \<Rightarrow> string"
  de_invoke :: "invocation_context \<Rightarrow> jargs \<Rightarrow> staging \<Rightarrow> (cli_result + invocation) \<times> staging"

definition unstaged :: "(invocation_context \<Rightarrow> jargs \<Rightarrow> cli_result + invocation) \<Rightarrow>
    invocation_context \<Rightarrow> jargs \<Rightarrow> staging \<Rightarrow> (cli_result + invocation) \<times> staging" where
  "unstaged f ic args st = (f ic args, st)"

abbreviation json_output :: "string list" where "json_output \<equiv> [''-o'', ''json'']"

abbreviation invoke_with :: "string list \<Rightarrow> projection \<Rightarrow> cli_result + invocation" where
  "invoke_with argv project \<equiv> Inr \<lparr> iv_argv = argv, iv_project = project \<rparr>"

definition command_completed :: "string \<Rightarrow> projection" where
  "command_completed target = (\<lambda>_. Inr (Write_Data target None))"

definition no_argument_invocation :: "string list \<Rightarrow> projection \<Rightarrow> invocation_context \<Rightarrow> jargs \<Rightarrow> cli_result + invocation" where
  "no_argument_invocation argv project ic args = and_then (reject_unknown ic args []) (\<lambda>_. invoke_with argv project)"

definition tool_get_invoke :: "invocation_context \<Rightarrow> jargs \<Rightarrow> cli_result + invocation" where
  "tool_get_invoke ic args =
     and_then (reject_unknown ic args [''name'', ''version'']) (\<lambda>_.
     and_then (versioned_identifier ic args) (\<lambda>identifier.
       let argv = json_output @ [''tool'', ''get''] @ json_output in
       if identifier = [] then invoke_with argv project_tool_list
       else invoke_with (argv @ [''--'', identifier]) project_tool_item))"

definition generated_endpoint :: "jargs \<Rightarrow> string option" where
  "generated_endpoint document = (case map_of document ''spec'' of
       Some (JObj spec) \<Rightarrow> (case map_of spec ''execution'' of
           Some (JObj ex) \<Rightarrow> (case map_of ex ''endpoint'' of
               Some (JStr e) \<Rightarrow> if e = [] then None else Some e
             | _ \<Rightarrow> None)
         | _ \<Rightarrow> None)
     | _ \<Rightarrow> None)"

definition project_generated_tool :: projection where
  "project_generated_tool stdout =
     (let trimmed = trim_space stdout in
      if trimmed = [] \<or> \<not> has_prefix trimmed ''{'' then Inl Unusable_Output
      else case json_unmarshal trimmed of
        Some (JObj document) \<Rightarrow>
          if string_of (map_of document ''kind'') \<noteq> kind_tool \<or> fst (manifest_identity document) = [] then Inl Unusable_Output
          else (case generated_endpoint document of
              None \<Rightarrow> Inl Unusable_Output
            | Some endpoint \<Rightarrow>
                if endpoint_problem endpoint \<noteq> [] \<or> scan_credential_values False [] (JObj document) then Inl Unusable_Output
                else Inr (Generated_Data trimmed))
      | _ \<Rightarrow> Inl Unusable_Output)"

definition tool_generate_invoke :: "invocation_context \<Rightarrow> jargs \<Rightarrow> cli_result + invocation" where
  "tool_generate_invoke ic args =
     and_then (reject_unknown ic args [''api'']) (\<lambda>_.
     and_then (required_string ic args ''api'' max_identifier_bytes) (\<lambda>api.
       invoke_with (json_output @ [''tool'', ''generate'', ''--api'', api]) project_generated_tool))"

definition plugin_get_invoke :: "invocation_context \<Rightarrow> jargs \<Rightarrow> cli_result + invocation" where
  "plugin_get_invoke ic args =
     and_then (reject_unknown ic args [''name'', ''version'']) (\<lambda>_.
     and_then (versioned_identifier ic args) (\<lambda>identifier.
       let argv = json_output @ [''plugin'', ''get''] @ json_output in
       if identifier = [] then invoke_with argv project_plugin_list
       else if CHR ''@'' \<notin> set identifier
       then Inl (invalid_arguments ic ''version is required when reading one plugin'' ''Provide name@version as name and version.'')
       else invoke_with (argv @ [''--'', identifier]) project_plugin_item))"

definition binding_get_invoke :: "invocation_context \<Rightarrow> jargs \<Rightarrow> cli_result + invocation" where
  "binding_get_invoke ic args =
     and_then (reject_unknown ic args [''name'']) (\<lambda>_.
     and_then (optional_string ic args ''name'' max_identifier_bytes) (\<lambda>name.
       let argv = json_output @ [''plugin'', ''binding'', ''get''] @ json_output in
       if name = [] then invoke_with argv project_binding_list
       else invoke_with (argv @ [''--'', name]) project_binding_item))"

text \<open>A checked manifest is staged last; the child gets its path.\<close>

definition staged_invocation ::
  "cli_result + validated_manifest \<Rightarrow> (validated_manifest \<Rightarrow> string \<Rightarrow> invocation) \<Rightarrow> invocation_context \<Rightarrow> staging \<Rightarrow>
     (cli_result + invocation) \<times> staging" where
  "staged_invocation checked build ic st = (case checked of
       Inl e \<Rightarrow> (Inl e, st)
     | Inr manifest \<Rightarrow> (case stage_manifest ic manifest st of
         (Inl e, st') \<Rightarrow> (Inl e, st')
       | (Inr path, st') \<Rightarrow> (Inr (build manifest path), st')))"

definition manifest_validator ::
  "string list \<Rightarrow> string \<Rightarrow> invocation_context \<Rightarrow> jargs \<Rightarrow> staging \<Rightarrow> (cli_result + invocation) \<times> staging" where
  "manifest_validator argPrefix kind ic args st =
     staged_invocation (and_then (reject_unknown ic args [''manifest'']) (\<lambda>_. validate_manifest ic args kind))
       (\<lambda>manifest path. \<lparr> iv_argv = argPrefix @ [''-f'', path],
          iv_project = (\<lambda>_. Inr (Validation_Data (vm_kind manifest) (vm_name manifest) (vm_version manifest))) \<rparr>) ic st"

definition confirmed_manifest :: "string \<Rightarrow> invocation_context \<Rightarrow> jargs \<Rightarrow> cli_result + validated_manifest" where
  "confirmed_manifest kind ic args =
     and_then (reject_unknown ic args [''manifest'', ''confirmContext'', ''confirmTarget'']) (\<lambda>_.
     and_then (validate_manifest ic args kind) (\<lambda>manifest.
     and_then (require_target ic args (target_of (vm_name manifest) (vm_version manifest))) (\<lambda>_. Inr manifest)))"

definition apply_invocation ::
  "string list \<Rightarrow> string \<Rightarrow> invocation_context \<Rightarrow> jargs \<Rightarrow> staging \<Rightarrow> (cli_result + invocation) \<times> staging" where
  "apply_invocation argPrefix kind ic args st =
     staged_invocation (confirmed_manifest kind ic args)
       (\<lambda>manifest path. \<lparr> iv_argv = argPrefix @ [''-f'', path],
          iv_project = command_completed (target_of (vm_name manifest) (vm_version manifest)) \<rparr>) ic st"

definition register_methods :: "string list" where
  "register_methods = [''GET'', ''HEAD'', ''POST'', ''PUT'', ''PATCH'', ''DELETE'', ''OPTIONS'']"

definition register_auth_types :: "string list" where
  "register_auth_types = [[], ''api-key'', ''bearer'', ''basic'']"

definition register_method :: "invocation_context \<Rightarrow> jargs \<Rightarrow> cli_result + string" where
  "register_method ic args =
     and_then (optional_string ic args ''method'' max_identifier_bytes) (\<lambda>v.
       let method = (if v = [] then ''GET'' else to_upper v) in
       if method \<in> set register_methods then Inr method
       else Inl (invalid_arguments ic ''method is not one of the accepted HTTP methods''
              (''Use one of '' @ join_with '', '' register_methods @ ''.'')))"

definition register_auth_type :: "invocation_context \<Rightarrow> jargs \<Rightarrow> cli_result + string" where
  "register_auth_type ic args =
     and_then (case map_of args ''authType'' of
         None \<Rightarrow> Inr ''api-key''
       | Some JNull \<Rightarrow> Inr ''api-key''
       | Some (JStr v) \<Rightarrow> Inr v
       | Some _ \<Rightarrow> Inl (invalid_arguments ic ''authType must be a string'' ''Correct the argument and retry.'')) (\<lambda>authType.
       if authType \<in> set register_auth_types then Inr authType
       else Inl (invalid_arguments ic ''authType is not one of the accepted values''
              (''Use one of '' @ join_with '', '' register_auth_types @ ''.'')))"

definition register_auth_header :: "invocation_context \<Rightarrow> jargs \<Rightarrow> cli_result + string" where
  "register_auth_header ic args =
     and_then (optional_string ic args ''authHeader'' max_identifier_bytes) (\<lambda>v.
       let authHeader = (if v = [] then ''X-API-Key'' else v) in
       if header_token_problem authHeader \<noteq> []
       then Inl (invalid_arguments ic (''authHeader '' @ header_token_problem authHeader) ''Provide a header name, never a header value.'')
       else Inr authHeader)"

definition flag_value :: "string \<Rightarrow> string \<Rightarrow> string" where
  "flag_value flag v = ''--'' @ flag @ ''='' @ v"

definition project_registration :: "string \<Rightarrow> projection" where
  "project_registration name stdout =
     (case decode_child_json (\<lambda>v. Option.bind (wire_object v) (\<lambda>m. field m ''replaced'' wire_bool)) stdout of
        None \<Rightarrow> Inl Unusable_Output
      | Some replaced \<Rightarrow> Inr (Write_Data name (Some replaced)))"

definition api_register_invoke :: "invocation_context \<Rightarrow> jargs \<Rightarrow> cli_result + invocation" where
  "api_register_invoke ic args =
     and_then (reject_unknown ic args [''name'', ''url'', ''module'', ''description'', ''method'', ''authType'', ''authHeader'',
        ''credentialRef'', ''credentialSource'', ''force'', ''confirmContext'', ''confirmTarget'']) (\<lambda>_.
     and_then (required_string ic args ''name'' max_identifier_bytes) (\<lambda>name.
     and_then (require_target ic args name) (\<lambda>_.
     and_then (required_string ic args ''module'' 64) (\<lambda>moduleName.
     and_then (required_string ic args ''description'' 2048) (\<lambda>description.
     and_then (required_string ic args ''url'' 4096) (\<lambda>endpoint.
     and_then (if endpoint_problem endpoint \<noteq> []
               then Inl (invalid_arguments ic (''url '' @ endpoint_problem endpoint)
                      ''Provide an absolute ERP endpoint URL without embedded credentials.'')
               else Inr ()) (\<lambda>_.
     and_then (register_method ic args) (\<lambda>method.
     and_then (register_auth_type ic args) (\<lambda>authType.
     and_then (register_auth_header ic args) (\<lambda>authHeader.
     and_then (optional_string ic args ''credentialRef'' max_identifier_bytes) (\<lambda>ref.
     and_then (optional_string ic args ''credentialSource'' max_identifier_bytes) (\<lambda>source.
     and_then (optional_bool ic args ''force'') (\<lambda>force.
       invoke_with (json_output @ [''api'', ''register'', flag_value ''name'' name, flag_value ''url'' endpoint,
            flag_value ''method'' method, flag_value ''module'' moduleName, flag_value ''description'' description,
            flag_value ''auth-type'' authType, flag_value ''auth-header'' authHeader] @
          (if ref = [] then [] else [flag_value ''credential-ref'' ref]) @
          (if source = [] then [] else [flag_value ''credential-source'' source]) @
          (if force then [''--force''] else []))
        (project_registration name))))))))))))))"

definition force_group :: "jargs \<Rightarrow> string" where
  "force_group args = (if map_of args ''force'' = Some (JBool True) then ''destructive'' else [])"

definition api_set_credential_ref_invoke :: "invocation_context \<Rightarrow> jargs \<Rightarrow> cli_result + invocation" where
  "api_set_credential_ref_invoke ic args =
     and_then (reject_unknown ic args [''name'', ''credentialRef'', ''confirmContext'', ''confirmTarget'']) (\<lambda>_.
     and_then (required_string ic args ''name'' max_identifier_bytes) (\<lambda>name.
     and_then (require_target ic args name) (\<lambda>_.
     and_then (required_string ic args ''credentialRef'' max_identifier_bytes) (\<lambda>ref.
       invoke_with (json_output @ [''api'', ''set-credential-ref'', flag_value ''credential-ref'' ref, ''--'', name])
         (command_completed name)))))"

definition api_test_invoke :: "invocation_context \<Rightarrow> jargs \<Rightarrow> cli_result + invocation" where
  "api_test_invoke ic args =
     and_then (reject_unknown ic args [''name'', ''confirmContext'', ''confirmTarget'']) (\<lambda>_.
     and_then (required_string ic args ''name'' max_identifier_bytes) (\<lambda>name.
     and_then (require_target ic args name) (\<lambda>_.
       invoke_with (json_output @ [''api'', ''test'', ''--'', name]) project_api_test)))"

definition hard_flags :: "bool \<Rightarrow> string list" where
  "hard_flags hard = (if hard then [''--hard'', ''--yes''] else [])"

definition tool_delete_invoke :: "invocation_context \<Rightarrow> jargs \<Rightarrow> cli_result + invocation" where
  "tool_delete_invoke ic args =
     and_then (reject_unknown ic args [''name'', ''version'', ''hard'', ''confirmContext'', ''confirmTarget'']) (\<lambda>_.
     and_then (required_string ic args ''name'' max_identifier_bytes) (\<lambda>name.
     and_then (required_string ic args ''version'' max_identifier_bytes) (\<lambda>version.
     and_then (require_target ic args (target_of name version)) (\<lambda>_.
     and_then (optional_bool ic args ''hard'') (\<lambda>hard.
       invoke_with (json_output @ [''tool'', ''delete''] @ hard_flags hard @ [''--'', name, version])
         (command_completed (target_of name version)))))))"

definition plugin_delete_invoke :: "invocation_context \<Rightarrow> jargs \<Rightarrow> cli_result + invocation" where
  "plugin_delete_invoke ic args =
     and_then (reject_unknown ic args [''name'', ''version'', ''hard'', ''confirmContext'', ''confirmTarget'']) (\<lambda>_.
     and_then (required_string ic args ''name'' max_identifier_bytes) (\<lambda>name.
     and_then (required_string ic args ''version'' max_identifier_bytes) (\<lambda>version.
     and_then (if CHR ''@'' \<in> set name \<or> CHR ''@'' \<in> set version
               then Inl (invalid_arguments ic (''name and version must not contain '' @ [CHR 0x27] @ ''@'' @ [CHR 0x27])
                      ''Provide the name and version as separate arguments.'')
               else Inr ()) (\<lambda>_.
     and_then (require_target ic args (target_of name version)) (\<lambda>_.
     and_then (optional_bool ic args ''hard'') (\<lambda>hard.
       invoke_with (json_output @ [''plugin'', ''delete''] @ hard_flags hard @ [''--'', target_of name version])
         (command_completed (target_of name version))))))))"

definition binding_delete_invoke :: "invocation_context \<Rightarrow> jargs \<Rightarrow> cli_result + invocation" where
  "binding_delete_invoke ic args =
     and_then (reject_unknown ic args [''name'', ''hard'', ''confirmContext'', ''confirmTarget'']) (\<lambda>_.
     and_then (required_string ic args ''name'' max_identifier_bytes) (\<lambda>name.
     and_then (require_target ic args name) (\<lambda>_.
     and_then (optional_bool ic args ''hard'') (\<lambda>hard.
       invoke_with (json_output @ [''plugin'', ''binding'', ''delete''] @ hard_flags hard @ [''--'', name])
         (command_completed name)))))"

definition token_revoke_invoke :: "invocation_context \<Rightarrow> jargs \<Rightarrow> cli_result + invocation" where
  "token_revoke_invoke ic args =
     and_then (reject_unknown ic args [''id'', ''confirmContext'', ''confirmTarget'']) (\<lambda>_.
     and_then (required_string ic args ''id'' max_identifier_bytes) (\<lambda>tokenId.
     and_then (require_target ic args tokenId) (\<lambda>_.
       invoke_with (json_output @ [''token'', ''revoke'', ''--'', tokenId]) (command_completed tokenId))))"

definition cache_selectors :: "string list" where "cache_selectors = [''tool'', ''module'', ''all'']"

definition project_flush :: "string \<Rightarrow> projection" where
  "project_flush target stdout =
     (case decode_child_json (\<lambda>v. Option.bind (wire_object v) (\<lambda>m.
          if wire_member ''deleted'' m = JNull then None
          else Option.bind (field m ''deleted'' wire_int) (\<lambda>n. map_option (Pair n) (field m ''status'' wire_string)))) stdout of
        None \<Rightarrow> Inl Unusable_Output
      | Some (deleted, status) \<Rightarrow> Inr (Flush_Data target deleted status))"

definition cache_flush_invoke :: "invocation_context \<Rightarrow> jargs \<Rightarrow> cli_result + invocation" where
  "cache_flush_invoke ic args =
     and_then (reject_unknown ic args [''selector'', ''name'', ''confirmContext'', ''confirmTarget'']) (\<lambda>_.
     and_then (required_string ic args ''selector'' max_identifier_bytes) (\<lambda>selector.
     if selector \<notin> set cache_selectors
     then Inl (invalid_arguments ic ''selector must be tool, module, or all'' ''Choose exactly one selector.'')
     else and_then (optional_string ic args ''name'' max_identifier_bytes) (\<lambda>name.
       if selector = ''all'' \<and> name \<noteq> []
       then Inl (invalid_arguments ic ''name is forbidden with the all selector'' ''Omit name, or choose the tool or module selector.'')
       else if selector \<noteq> ''all'' \<and> name = []
       then Inl (invalid_arguments ic ''name is required for this selector'' ''Provide the tool or module name.'')
       else let target = (if name \<noteq> [] then selector @ '':'' @ name else selector) in
         and_then (require_target ic args target) (\<lambda>_.
           invoke_with (json_output @ [''cache'', ''flush''] @
               (if selector = ''tool'' then [''--'', name]
                else if selector = ''module'' then [flag_value ''module'' name] else [''--all'']))
             (project_flush target)))))"

definition context_set_invoke :: "invocation_context \<Rightarrow> jargs \<Rightarrow> cli_result + invocation" where
  "context_set_invoke ic args =
     and_then (reject_unknown ic args [''name'', ''confirmContext'', ''confirmTarget'']) (\<lambda>_.
     and_then (required_string ic args ''name'' max_identifier_bytes) (\<lambda>name.
     and_then (require_target ic args name) (\<lambda>_.
       invoke_with (json_output @ [''context'', ''set'', ''--'', name])
         (\<lambda>_. Inr (Context_Select_Data name (ic_context ic))))))"

subsection \<open>The catalogue\<close>

definition read_descriptor :: "string \<Rightarrow> side_effect \<Rightarrow> bool \<Rightarrow>
    (invocation_context \<Rightarrow> jargs \<Rightarrow> staging \<Rightarrow> (cli_result + invocation) \<times> staging) \<Rightarrow> descriptor" where
  "read_descriptor name effect validation invoke = \<lparr> de_name = name, de_group = [], de_effect = effect,
     de_local_validation = validation, de_additional = (\<lambda>_. []), de_invoke = invoke \<rparr>"

definition write_descriptor :: "string \<Rightarrow> string \<Rightarrow> side_effect \<Rightarrow>
    (invocation_context \<Rightarrow> jargs \<Rightarrow> staging \<Rightarrow> (cli_result + invocation) \<times> staging) \<Rightarrow> descriptor" where
  "write_descriptor name writeGroup effect invoke = \<lparr> de_name = name, de_group = writeGroup, de_effect = effect,
     de_local_validation = False, de_additional = (\<lambda>_. []), de_invoke = invoke \<rparr>"

definition read_descriptors :: "(string \<Rightarrow> timestamp option) \<Rightarrow> descriptor list" where
  "read_descriptors parseTime =
     [read_descriptor ''bridgectl_context_list'' Effect_Read False
        (unstaged (no_argument_invocation (json_output @ [''context'', ''list'']) project_context_list)),
      read_descriptor ''bridgectl_api_list'' Effect_Read False
        (unstaged (no_argument_invocation (json_output @ [''api'', ''list'']) project_api_list)),
      read_descriptor ''bridgectl_tool_get'' Effect_Read False (unstaged tool_get_invoke),
      read_descriptor ''bridgectl_tool_generate'' Effect_Local False (unstaged tool_generate_invoke),
      read_descriptor ''bridgectl_tool_validate'' Effect_Local True
        (manifest_validator (json_output @ [''tool'', ''validate'']) kind_tool),
      read_descriptor ''bridgectl_plugin_get'' Effect_Read False (unstaged plugin_get_invoke),
      read_descriptor ''bridgectl_plugin_validate'' Effect_Local True
        (manifest_validator (json_output @ [''plugin'', ''validate'']) kind_plugin),
      read_descriptor ''bridgectl_binding_get'' Effect_Read False (unstaged binding_get_invoke),
      read_descriptor ''bridgectl_binding_validate'' Effect_Local True
        (manifest_validator (json_output @ [''plugin'', ''binding'', ''validate'']) kind_binding),
      read_descriptor ''bridgectl_token_list'' Effect_Read False
        (unstaged (no_argument_invocation (json_output @ [''token'', ''list'']) (project_token_list parseTime))),
      read_descriptor ''bridgectl_cache_stats'' Effect_Read False
        (unstaged (no_argument_invocation (json_output @ [''cache'', ''stats'']) project_cache_stats)),
      read_descriptor ''bridgectl_log_stats'' Effect_Read False
        (unstaged (no_argument_invocation (json_output @ [''log'', ''stats'']) project_log_stats))]"

definition write_descriptors :: "descriptor list" where
  "write_descriptors =
     [(write_descriptor ''bridgectl_api_register'' ''registry'' Effect_Write (unstaged api_register_invoke))\<lparr> de_additional := force_group \<rparr>,
      write_descriptor ''bridgectl_api_set_credential_ref'' ''registry'' Effect_Write (unstaged api_set_credential_ref_invoke),
      write_descriptor ''bridgectl_api_test'' ''probe'' Effect_Probe (unstaged api_test_invoke),
      write_descriptor ''bridgectl_tool_apply'' ''resources'' Effect_Write
        (apply_invocation (json_output @ [''tool'', ''apply'']) kind_tool),
      write_descriptor ''bridgectl_tool_delete'' ''destructive'' Effect_Write (unstaged tool_delete_invoke),
      write_descriptor ''bridgectl_plugin_apply'' ''resources'' Effect_Write
        (apply_invocation (json_output @ [''plugin'', ''apply'']) kind_plugin),
      write_descriptor ''bridgectl_plugin_delete'' ''destructive'' Effect_Write (unstaged plugin_delete_invoke),
      write_descriptor ''bridgectl_binding_apply'' ''resources'' Effect_Write
        (apply_invocation (json_output @ [''plugin'', ''binding'', ''apply'']) kind_binding),
      write_descriptor ''bridgectl_binding_delete'' ''destructive'' Effect_Write (unstaged binding_delete_invoke),
      write_descriptor ''bridgectl_token_revoke'' ''destructive'' Effect_Write (unstaged token_revoke_invoke),
      write_descriptor ''bridgectl_cache_flush'' ''destructive'' Effect_Write (unstaged cache_flush_invoke),
      write_descriptor ''bridgectl_context_set'' ''context'' Effect_Write (unstaged context_set_invoke)]"

definition catalogue :: "(string \<Rightarrow> timestamp option) \<Rightarrow> descriptor list" where
  "catalogue parseTime = read_descriptors parseTime @ write_descriptors"

end
