(* ===== verification/Cli_Dispatch.thy ===== *)
theory Cli_Dispatch
  imports Cli_Catalog
begin

text \<open>
  The dispatch of a management call in internal/climcp/catalog.go: permissions, the fixed
  invocation, the child, and the classification of what became of it.
\<close>

subsection \<open>Classification\<close>

definition cli_fail :: "string \<Rightarrow> descriptor \<Rightarrow> string \<Rightarrow> string \<Rightarrow> string \<Rightarrow> cli_result" where
  "cli_fail contextName d code message suggestion = new_failure (de_name d) contextName code message suggestion"

definition busy_failure :: "string \<Rightarrow> descriptor \<Rightarrow> cli_result" where
  "busy_failure contextName d = cli_fail contextName d ''busy'' ''another management operation is already running''
     ''Retry after the current operation finishes.''"

definition not_started_failure :: "string \<Rightarrow> descriptor \<Rightarrow> cli_result" where
  "not_started_failure contextName d = cli_fail contextName d ''internal_error'' ''the management command could not be started''
     ''Run bridgectl directly to diagnose the local environment.''"

definition set_cause :: "string \<Rightarrow> cli_result \<Rightarrow> cli_result" where
  "set_cause cause r = r\<lparr> rs_error := map_option (\<lambda>e. e\<lparr> ce_cause := cause \<rparr>) (rs_error r) \<rparr>"

definition set_details :: "probe_details \<Rightarrow> cli_result \<Rightarrow> cli_result" where
  "set_details details r = r\<lparr> rs_error := map_option (\<lambda>e. e\<lparr> ce_details := Some details \<rparr>) (rs_error r) \<rparr>"

definition outcome_unknown :: "string \<Rightarrow> descriptor \<Rightarrow> string \<Rightarrow> cli_result" where
  "outcome_unknown contextName d cause = set_cause cause (cli_fail contextName d ''outcome_unknown''
     ''the operation ended without a confirmed result''
     ''Read the target resource before retrying; the change may already be applied.'')"

definition child_code_context_changed :: string where "child_code_context_changed = ''MCP_CONTEXT_CHANGED''"

definition exit_code_bad_arguments :: int where "exit_code_bad_arguments = 2"

definition classify_write_failure :: "string \<Rightarrow> descriptor \<Rightarrow> child_outcome \<Rightarrow> run_error option \<Rightarrow> cli_result" where
  "classify_write_failure contextName d outcome err = (case err of
       Some Run_Busy \<Rightarrow> busy_failure contextName d
     | Some Run_Timeout \<Rightarrow> outcome_unknown contextName d ''timeout''
     | Some Run_Cancelled \<Rightarrow> outcome_unknown contextName d ''cancelled''
     | Some Run_Output_Limit \<Rightarrow> outcome_unknown contextName d ''output_limit''
     | Some Run_Failed \<Rightarrow> not_started_failure contextName d
     | None \<Rightarrow> (case child_error_code (oc_stdout outcome) (oc_stderr outcome) of
         Some code \<Rightarrow>
           if code = child_code_context_changed
           then cli_fail contextName d ''context_changed'' ''the session selection no longer matches the saved configuration''
                  ''Restart the management MCP process to adopt the changed context, endpoint, or credential.''
           else outcome_unknown contextName d ''child_failed''
       | None \<Rightarrow>
           if oc_exit_code outcome = exit_code_bad_arguments
           then cli_fail contextName d ''invalid_arguments'' ''the child rejected its arguments'' ''Correct the input and retry.''
           else outcome_unknown contextName d ''child_failed''))"

definition classify_run_failure :: "string \<Rightarrow> descriptor \<Rightarrow> run_error \<Rightarrow> cli_result" where
  "classify_run_failure contextName d err = (case err of
       Run_Busy \<Rightarrow> busy_failure contextName d
     | Run_Output_Limit \<Rightarrow> cli_fail contextName d ''output_limit'' ''the command produced more output than the adapter accepts''
         ''Use the bridgectl CLI directly to inspect the full result.''
     | Run_Timeout \<Rightarrow> cli_fail contextName d ''timeout'' ''the command did not finish within the call deadline''
         ''Check that the pinned endpoint is reachable, then retry.''
     | Run_Cancelled \<Rightarrow> cli_fail contextName d ''cancelled'' ''the operation was cancelled before it finished''
         ''Retry when the caller is ready.''
     | Run_Failed \<Rightarrow> not_started_failure contextName d)"

definition mapped_failure :: "string \<Rightarrow> descriptor \<Rightarrow> string \<times> string \<times> string \<Rightarrow> cli_result" where
  "mapped_failure contextName d m = (case m of (code, message, suggestion) \<Rightarrow> cli_fail contextName d code message suggestion)"

definition classify_exit_failure :: "string \<Rightarrow> descriptor \<Rightarrow> child_outcome \<Rightarrow> cli_result" where
  "classify_exit_failure contextName d outcome =
     (case Option.bind (child_error_code (oc_stdout outcome) (oc_stderr outcome)) (map_of child_failure_codes) of
        Some m \<Rightarrow> mapped_failure contextName d m
      | None \<Rightarrow>
          if de_local_validation d \<and> oc_exit_code outcome \<noteq> 3
          then cli_fail contextName d ''invalid_arguments'' ''the submitted resource failed local validation''
                 ''Run bridgectl validate with the same file to see the exact reason.''
          else (case map_of exit_code_failures (oc_exit_code outcome) of
              Some m \<Rightarrow> mapped_failure contextName d m
            | None \<Rightarrow> cli_fail contextName d ''internal_error'' ''the management command failed''
                ''Run bridgectl directly to see the full diagnostic.''))"

definition finish :: "string \<Rightarrow> descriptor \<Rightarrow> invocation \<Rightarrow> child_outcome \<Rightarrow> run_error option \<Rightarrow> cli_result" where
  "finish contextName d iv outcome err =
     (case err of
        Some e \<Rightarrow> if is_side_effecting (de_effect d) then classify_write_failure contextName d outcome err
                  else classify_run_failure contextName d e
      | None \<Rightarrow>
          if oc_exit_code outcome \<noteq> 0 then
            (if is_side_effecting (de_effect d) then classify_write_failure contextName d outcome None
             else classify_exit_failure contextName d outcome)
          else (case iv_project iv (oc_stdout outcome) of
              Inr result \<Rightarrow> new_success (de_name d) contextName result
            | Inl (Probe_Failure details) \<Rightarrow> set_details details (cli_fail contextName d ''probe_failed''
                ''the API probe completed and reported a failed result''
                ''Check the registered endpoint and its credential before retrying.'')
            | Inl Unusable_Output \<Rightarrow>
                if is_side_effecting (de_effect d) then outcome_unknown contextName d ''unusable_output''
                else cli_fail contextName d ''invalid_child_output'' ''the command completed but its output could not be interpreted''
                       ''Use the bridgectl CLI directly to inspect the raw result.''))"

subsection \<open>Dispatch\<close>

text \<open>
  A session: its snapshot, the groups approved at startup, the runner and the staging
  directory. \<open>spawn\<close> is the operating system; a child sees the staged files.
\<close>

record cli_session =
  cs_snapshot :: snapshot
  cs_groups :: "string list"
  cs_runner :: runner
  cs_stager :: stager

type_synonym 'w spawner = "(string \<times> string) list \<Rightarrow> string list \<Rightarrow> string list \<Rightarrow> duration \<Rightarrow> 'w \<Rightarrow> child_report \<times> 'w"

definition allows :: "cli_session \<Rightarrow> string \<Rightarrow> bool" where
  "allows s writeGroup \<longleftrightarrow> writeGroup \<in> set (cs_groups s)"

definition not_approved :: "string \<Rightarrow> descriptor \<Rightarrow> cli_result" where
  "not_approved contextName d = cli_fail contextName d ''permission_denied'' ''this tool was not approved at startup''
     ''Restart the management MCP process with the required --allow-write group.''"

definition extra_group_missing :: "string \<Rightarrow> descriptor \<Rightarrow> string \<Rightarrow> cli_result" where
  "extra_group_missing contextName d extra = cli_fail contextName d ''permission_denied''
     (''this call also requires the '' @ strconv_quote extra @ '' write group'')
     ''Restart the management MCP process with every required --allow-write group.''"

definition drop_staged :: "staging \<Rightarrow> stager" where
  "drop_staged st = (case snd st of None \<Rightarrow> fst st | Some path \<Rightarrow> unstage path (fst st))"

definition dispatch ::
  "'w spawner \<Rightarrow> bool \<Rightarrow> descriptor \<Rightarrow> jargs \<Rightarrow> cli_session \<Rightarrow> 'w \<Rightarrow> cli_result \<times> cli_session \<times> 'w" where
  "dispatch spawn writable d args s w =
     (let contextName = sn_context_name (cs_snapshot s); extra = de_additional d args in
      if de_group d \<noteq> [] \<and> \<not> allows s (de_group d) then (not_approved contextName d, s, w)
      else if extra \<noteq> [] \<and> \<not> allows s extra then (extra_group_missing contextName d extra, s, w)
      else if rn_active (cs_runner s) then (busy_failure contextName d, s, w)
      else case de_invoke d \<lparr> ic_operation = de_name d, ic_context = contextName, ic_writable = writable \<rparr> args (cs_stager s, None) of
        (Inl failure, st) \<Rightarrow> (failure, s\<lparr> cs_stager := drop_staged st \<rparr>, w)
      | (Inr iv, st) \<Rightarrow> (case runner_run (spawn (sg_files (fst st))) (cs_runner s) (iv_argv iv) w of
          ((outcome, err), w') \<Rightarrow>
            (finish contextName d iv outcome err, s\<lparr> cs_stager := drop_staged st \<rparr>, w')))"

text \<open>\<open>registerCatalogue\<close>: what a session advertises.\<close>

definition registered_tools :: "(string \<Rightarrow> timestamp option) \<Rightarrow> cli_session \<Rightarrow> descriptor list" where
  "registered_tools parseTime s = filter (\<lambda>d. de_group d = [] \<or> allows s (de_group d)) (catalogue parseTime)"

subsection \<open>Confirmation\<close>

definition confirmed :: "string \<Rightarrow> jargs \<Rightarrow> string \<Rightarrow> bool" where
  "confirmed contextName args target \<longleftrightarrow>
     map_of args ''confirmContext'' = Some (JStr contextName) \<and> map_of args ''confirmTarget'' = Some (JStr target)"

text \<open>The target that a result reports.\<close>

definition data_target :: "cli_data \<Rightarrow> string option" where
  "data_target d = (case d of
       Write_Data t _ \<Rightarrow> Some t
     | Flush_Data t _ _ \<Rightarrow> Some t
     | Context_Select_Data t _ \<Rightarrow> Some t
     | _ \<Rightarrow> None)"

definition reports_target :: "projection \<Rightarrow> string \<Rightarrow> bool" where
  "reports_target project t \<longleftrightarrow> (\<forall>out d. project out = Inr d \<longrightarrow> data_target d = None \<or> data_target d = Some t)"

definition target_confirmed :: "(invocation_context \<Rightarrow> jargs \<Rightarrow> staging \<Rightarrow> (cli_result + invocation) \<times> staging) \<Rightarrow> bool" where
  "target_confirmed invoke \<longleftrightarrow> (\<forall>ic args st iv st'. invoke ic args st = (Inr iv, st') \<longrightarrow>
     (\<exists>t. confirmed (ic_context ic) args t \<and> reports_target (iv_project iv) t))"

lemma required_stringD:
  assumes "required_string ic args key limit = Inr v"
  shows "map_of args key = Some (JStr v) \<and> v \<noteq> [] \<and> identifier_problem v limit = []"
  using assms by (auto simp: required_string_def optional_string_def split: option.splits jval.splits if_splits)

lemma optional_stringD:
  assumes "optional_string ic args key limit = Inr v"
  shows "v = [] \<or> map_of args key = Some (JStr v) \<and> identifier_problem v limit = []"
  using assms by (auto simp: optional_string_def split: option.splits jval.splits if_splits)

lemma require_target_confirmed: "require_target ic args t = Inr () \<Longrightarrow> confirmed (ic_context ic) args t"
  by (auto simp: require_target_def confirmed_def dest!: required_stringD split: if_splits)

lemma usable_Inr [simp]: "usable r = Inr d \<longleftrightarrow> r = Some d"
  by (simp add: usable_def split: option.split)

lemma unstaged_confirmed:
  assumes "\<And>ic args iv. f ic args = Inr iv \<Longrightarrow> \<exists>t. require_target ic args t = Inr () \<and> reports_target (iv_project iv) t"
  shows "target_confirmed (unstaged f)"
  using assms require_target_confirmed by (fastforce simp: target_confirmed_def unstaged_def)

lemma reports_target_projections:
  "reports_target (command_completed t) t"
  "reports_target (project_registration t) t"
  "reports_target (project_flush t) t"
  "reports_target project_api_test t"
  "reports_target (\<lambda>_. Inr (Context_Select_Data t c)) t"
  by (auto simp: reports_target_def command_completed_def project_registration_def project_flush_def project_api_test_def
      data_target_def split: option.splits if_splits)

lemma api_register_confirmed: "target_confirmed (unstaged api_register_invoke)"
  by (rule unstaged_confirmed) (fastforce simp: api_register_invoke_def intro: reports_target_projections split: if_splits)

lemma api_set_credential_ref_confirmed: "target_confirmed (unstaged api_set_credential_ref_invoke)"
  by (rule unstaged_confirmed) (fastforce simp: api_set_credential_ref_invoke_def intro: reports_target_projections split: if_splits)

lemma api_test_confirmed: "target_confirmed (unstaged api_test_invoke)"
  by (rule unstaged_confirmed) (fastforce simp: api_test_invoke_def intro: reports_target_projections split: if_splits)

lemma tool_delete_confirmed: "target_confirmed (unstaged tool_delete_invoke)"
  by (rule unstaged_confirmed) (fastforce simp: tool_delete_invoke_def intro: reports_target_projections split: if_splits)

lemma plugin_delete_confirmed: "target_confirmed (unstaged plugin_delete_invoke)"
  by (rule unstaged_confirmed) (fastforce simp: plugin_delete_invoke_def intro: reports_target_projections split: if_splits)

lemma binding_delete_confirmed: "target_confirmed (unstaged binding_delete_invoke)"
  by (rule unstaged_confirmed) (fastforce simp: binding_delete_invoke_def intro: reports_target_projections split: if_splits)

lemma token_revoke_confirmed: "target_confirmed (unstaged token_revoke_invoke)"
  by (rule unstaged_confirmed) (fastforce simp: token_revoke_invoke_def intro: reports_target_projections split: if_splits)

lemma context_set_confirmed: "target_confirmed (unstaged context_set_invoke)"
  by (rule unstaged_confirmed) (fastforce simp: context_set_invoke_def intro: reports_target_projections split: if_splits)

lemma cache_flush_confirmed: "target_confirmed (unstaged cache_flush_invoke)"
  by (rule unstaged_confirmed)
    (fastforce simp: cache_flush_invoke_def Let_def intro: reports_target_projections split: if_splits)

lemma apply_confirmed: "target_confirmed (apply_invocation argPrefix kind)"
proof -
  have "\<exists>t. confirmed (ic_context ic) args t \<and> reports_target (iv_project iv) t"
    if "apply_invocation argPrefix kind ic args st = (Inr iv, st')" for ic args st iv st'
  proof -
    from that obtain m where m: "confirmed_manifest kind ic args = Inr m"
      and iv: "iv_project iv = command_completed (target_of (vm_name m) (vm_version m))"
      by (auto simp: apply_invocation_def staged_invocation_def split: sum.splits prod.splits)
    from m have "confirmed (ic_context ic) args (target_of (vm_name m) (vm_version m))"
      by (auto simp: confirmed_manifest_def intro: require_target_confirmed)
    with iv reports_target_projections(1) show ?thesis by metis
  qed
  then show ?thesis by (simp add: target_confirmed_def)
qed

lemma write_descriptors_confirmed: "list_all (\<lambda>d. target_confirmed (de_invoke d)) write_descriptors"
  by (simp add: write_descriptors_def write_descriptor_def api_register_confirmed api_set_credential_ref_confirmed api_test_confirmed
      tool_delete_confirmed plugin_delete_confirmed binding_delete_confirmed token_revoke_confirmed cache_flush_confirmed
      context_set_confirmed apply_confirmed)

lemma side_effecting_write:
  assumes "d \<in> set (catalogue parseTime)" and "is_side_effecting (de_effect d)"
  shows "d \<in> set write_descriptors"
proof -
  have "list_all (\<lambda>d. \<not> is_side_effecting (de_effect d)) (read_descriptors parseTime)"
    by (simp add: read_descriptors_def read_descriptor_def is_side_effecting_def)
  with assms show ?thesis by (auto simp: catalogue_def list_all_iff)
qed

lemma write_groups_known: "list_all (\<lambda>d. de_group d \<in> set write_groups) write_descriptors"
  by (simp add: write_descriptors_def write_descriptor_def write_groups_def)

text \<open>What a call needs beyond its confirmation: every removal, and a forced registration, is destructive.\<close>

definition destructive_call :: "string \<Rightarrow> jargs \<Rightarrow> bool" where
  "destructive_call name args \<longleftrightarrow>
     name \<in> {''bridgectl_tool_delete'', ''bridgectl_plugin_delete'', ''bridgectl_binding_delete'', ''bridgectl_token_revoke'',
       ''bridgectl_cache_flush''} \<or>
     name = ''bridgectl_api_register'' \<and> map_of args ''force'' = Some (JBool True)"

lemma destructive_groups:
  "list_all (\<lambda>d. destructive_call (de_name d) args \<longrightarrow> de_group d = ''destructive'' \<or> de_additional d args = ''destructive'') write_descriptors"
  by (simp add: write_descriptors_def write_descriptor_def destructive_call_def force_group_def)

lemma dispatch_ran:
  assumes "dispatch spawn writable d args s w = (r, s', w')" and "w' \<noteq> w"
  obtains iv st ch outcome err where
    "de_invoke d \<lparr> ic_operation = de_name d, ic_context = sn_context_name (cs_snapshot s), ic_writable = writable \<rparr> args (cs_stager s, None) = (Inr iv, st)"
    and "spawn (sg_files (fst st)) (rn_prefix_args (cs_runner s) @ iv_argv iv) (rn_env (cs_runner s)) (call_timeout (cs_runner s)) w = (ch, w')"
    and "run_result (capture_limit (cs_runner s)) ch = (outcome, err)"
    and "r = finish (sn_context_name (cs_snapshot s)) d iv outcome err"
    and "de_group d \<noteq> [] \<Longrightarrow> allows s (de_group d)"
    and "de_additional d args \<noteq> [] \<Longrightarrow> allows s (de_additional d args)"
    and "\<not> rn_active (cs_runner s)"
proof -
  note run = assms(1) [unfolded dispatch_def Let_def]
  have approved: "\<not> (de_group d \<noteq> [] \<and> \<not> allows s (de_group d))" and extra: "\<not> (de_additional d args \<noteq> [] \<and> \<not> allows s (de_additional d args))"
    and idle: "\<not> rn_active (cs_runner s)"
    using run assms(2) by (auto split: if_splits)
  note run1 = run [unfolded if_not_P [OF approved] if_not_P [OF extra] if_not_P [OF idle]]
  obtain ri st where ri: "de_invoke d \<lparr> ic_operation = de_name d, ic_context = sn_context_name (cs_snapshot s), ic_writable = writable \<rparr>
      args (cs_stager s, None) = (ri, st)" by (rule prod.exhaust)
  obtain iv where iv: "ri = Inr iv" using run1 assms(2) ri by (cases ri) auto
  obtain ch w1 where spawn: "spawn (sg_files (fst st)) (rn_prefix_args (cs_runner s) @ iv_argv iv) (rn_env (cs_runner s))
      (call_timeout (cs_runner s)) w = (ch, w1)" by (rule prod.exhaust)
  obtain outcome err where res: "run_result (capture_limit (cs_runner s)) ch = (outcome, err)" by (rule prod.exhaust)
  have "(r, s', w') = (finish (sn_context_name (cs_snapshot s)) d iv outcome err, s\<lparr> cs_stager := drop_staged st \<rparr>, w1)"
    using run1 by (simp add: ri iv runner_run_def idle spawn res)
  with that [OF ri [unfolded iv]] spawn res approved extra idle show thesis by auto
qed

lemma finish_data: "rs_data (finish contextName d iv outcome err) = Some x \<Longrightarrow> \<exists>out. iv_project iv out = Inr x"
  by (auto simp: finish_def new_success_def new_failure_def cli_fail_def classify_write_failure_def classify_run_failure_def
      classify_exit_failure_def mapped_failure_def busy_failure_def not_started_failure_def outcome_unknown_def set_cause_def
      set_details_def split: option.splits if_splits run_error.splits sum.splits project_error.splits prod.splits)

text \<open>
  C4: a management write is approved and confirmed. When a call of a side-effecting tool of the
  catalogue starts a child, its write group was approved at startup - and if it removes a
  resource, revokes a token, flushes the cache or registers with force, the destructive
  group -, no other child was running, the caller repeated the pinned context, and whatever
  target the result reports is the one the caller confirmed.
\<close>

theorem cli_write_confirmed:
  assumes "d \<in> set (catalogue parseTime)" and "is_side_effecting (de_effect d)"
    and "dispatch spawn writable d args s w = (r, s', w')" and "w' \<noteq> w"
  shows "allows s (de_group d) \<and> de_group d \<in> set write_groups \<and>
     (destructive_call (de_name d) args \<longrightarrow> allows s ''destructive'') \<and> \<not> rn_active (cs_runner s) \<and>
     (\<exists>t. confirmed (sn_context_name (cs_snapshot s)) args t \<and>
        (\<forall>x. rs_data r = Some x \<longrightarrow> data_target x = None \<or> data_target x = Some t))"
proof -
  note wd = side_effecting_write [OF assms(1,2)]
  from wd write_groups_known have known: "de_group d \<in> set write_groups" by (auto simp: list_all_iff)
  then have "de_group d \<noteq> []" by (auto simp: write_groups_def)
  from wd write_descriptors_confirmed have "target_confirmed (de_invoke d)" by (auto simp: list_all_iff)
  from assms(3,4) show ?thesis
  proof (rule dispatch_ran)
    fix iv st ch outcome err
    assume iv: "de_invoke d \<lparr> ic_operation = de_name d, ic_context = sn_context_name (cs_snapshot s), ic_writable = writable \<rparr> args (cs_stager s, None) = (Inr iv, st)"
      and r: "r = finish (sn_context_name (cs_snapshot s)) d iv outcome err"
      and approved: "de_group d \<noteq> [] \<Longrightarrow> allows s (de_group d)" "de_additional d args \<noteq> [] \<Longrightarrow> allows s (de_additional d args)"
        "\<not> rn_active (cs_runner s)"
    from \<open>target_confirmed (de_invoke d)\<close> [unfolded target_confirmed_def, rule_format, OF iv] obtain t where
      t: "confirmed (sn_context_name (cs_snapshot s)) args t" "reports_target (iv_project iv) t" by auto
    have "data_target x = None \<or> data_target x = Some t" if "rs_data r = Some x" for x
      using finish_data [OF that [unfolded r]] t(2) by (auto simp: reports_target_def)
    moreover have "allows s ''destructive''" if "destructive_call (de_name d) args"
      using destructive_groups [of args] wd that approved(1,2) by (auto simp: list_all_iff)
    ultimately show ?thesis using t(1) approved(1,3) known \<open>de_group d \<noteq> []\<close> by blast
  qed
qed

subsection \<open>Honest failures\<close>

lemma finish_honest:
  assumes "is_side_effecting (de_effect d)" and "finish contextName d iv outcome err = r"
  shows "(rs_success r \<longleftrightarrow> err = None \<and> oc_exit_code outcome = 0 \<and> (\<exists>x. iv_project iv (oc_stdout outcome) = Inr x \<and> rs_data r = Some x)) \<and>
     (\<not> rs_success r \<longrightarrow> (\<exists>e. rs_error r = Some e \<and> (ce_code e = ''outcome_unknown'' \<or>
        err \<in> {Some Run_Busy, Some Run_Failed} \<or>
        (err = None \<and> child_error_code (oc_stdout outcome) (oc_stderr outcome) = Some ''MCP_CONTEXT_CHANGED'') \<or>
        (err = None \<and> child_error_code (oc_stdout outcome) (oc_stderr outcome) = None \<and> oc_exit_code outcome = 2) \<or>
        (\<exists>details. iv_project iv (oc_stdout outcome) = Inl (Probe_Failure details) \<and> ce_code e = ''probe_failed''))))"
proof (cases err)
  case (Some e)
  with assms show ?thesis
    by (cases e) (auto simp: finish_def classify_write_failure_def busy_failure_def not_started_failure_def outcome_unknown_def
        set_cause_def cli_fail_def new_failure_def)
next
  case None
  show ?thesis
  proof (cases "oc_exit_code outcome = 0")
    case True
    show ?thesis
    proof (cases "iv_project iv (oc_stdout outcome)")
      case (Inl e)
      with assms None True show ?thesis
        by (cases e) (auto simp: finish_def outcome_unknown_def set_cause_def set_details_def cli_fail_def new_failure_def)
    qed (use assms None True in \<open>auto simp: finish_def new_success_def\<close>)
  next
    case False
    with assms None show ?thesis
      by (cases "child_error_code (oc_stdout outcome) (oc_stderr outcome)")
        (auto simp: finish_def classify_write_failure_def outcome_unknown_def set_cause_def cli_fail_def new_failure_def
          child_code_context_changed_def exit_code_bad_arguments_def split: if_splits)
  qed
qed

lemma run_result_ends:
  assumes "run_result limit ch = (outcome, err)"
  shows "err = None \<Longrightarrow> ch_end ch = Child_Ok \<or> ch_end ch = Child_Exit"
    and "err = Some Run_Failed \<Longrightarrow> ch_end ch = Child_Error" and "err \<noteq> Some Run_Busy"
    and "oc_exit_code outcome = (case ch_exit_code ch of None \<Rightarrow> -1 | Some n \<Rightarrow> n)"
  using assms by (cases "ch_end ch"; auto simp: run_result_def Let_def split: prod.splits if_splits)+

text \<open>
  C24: a write that may have been applied is reported as unknown. When a call of a
  side-effecting tool starts a child, its result is a success exactly when the child was
  waited for, its exit code is zero and its output was read as the data of the result. A
  failure has the code \<open>outcome_unknown\<close>, except in four cases: the operating system reported
  an error in place of the child's end, which the code takes for a child that was not
  started; the child refused before its handler ran, because the pinned selection had
  changed or because, with exit code 2 and no error of its own, its arguments did not parse;
  or a probe completed with a failed result.
\<close>

theorem cli_failure_honest:
  assumes "is_side_effecting (de_effect d)" and "dispatch spawn writable d args s w = (r, s', w')" and "w' \<noteq> w"
  shows "\<exists>iv st ch outcome err.
     de_invoke d \<lparr> ic_operation = de_name d, ic_context = sn_context_name (cs_snapshot s), ic_writable = writable \<rparr> args (cs_stager s, None) = (Inr iv, st) \<and>
     spawn (sg_files (fst st)) (rn_prefix_args (cs_runner s) @ iv_argv iv) (rn_env (cs_runner s)) (call_timeout (cs_runner s)) w = (ch, w') \<and>
     run_result (capture_limit (cs_runner s)) ch = (outcome, err) \<and>
     (rs_success r \<longleftrightarrow> ch_end ch \<noteq> Child_Error \<and> err = None \<and> ch_exit_code ch = Some 0 \<and>
        (\<exists>x. iv_project iv (oc_stdout outcome) = Inr x \<and> rs_data r = Some x)) \<and>
     (\<not> rs_success r \<longrightarrow> (\<exists>e. rs_error r = Some e \<and> (ce_code e = ''outcome_unknown'' \<or> ch_end ch = Child_Error \<or>
        child_error_code (oc_stdout outcome) (oc_stderr outcome) = Some ''MCP_CONTEXT_CHANGED'' \<or>
        (child_error_code (oc_stdout outcome) (oc_stderr outcome) = None \<and> ch_exit_code ch = Some 2) \<or>
        (\<exists>details. iv_project iv (oc_stdout outcome) = Inl (Probe_Failure details) \<and> ce_code e = ''probe_failed''))))"
  using assms(2,3)
proof (rule dispatch_ran)
  fix iv st ch outcome err
  assume iv: "de_invoke d \<lparr> ic_operation = de_name d, ic_context = sn_context_name (cs_snapshot s), ic_writable = writable \<rparr> args (cs_stager s, None) = (Inr iv, st)"
    and spawn: "spawn (sg_files (fst st)) (rn_prefix_args (cs_runner s) @ iv_argv iv) (rn_env (cs_runner s)) (call_timeout (cs_runner s)) w = (ch, w')"
    and run: "run_result (capture_limit (cs_runner s)) ch = (outcome, err)"
    and r: "r = finish (sn_context_name (cs_snapshot s)) d iv outcome err"
  note ends = run_result_ends [OF run]
  have code: "oc_exit_code outcome = 0 \<longleftrightarrow> ch_exit_code ch = Some 0" "oc_exit_code outcome = 2 \<longleftrightarrow> ch_exit_code ch = Some 2"
    using ends(4) by (auto split: option.splits)
  have "err = None \<Longrightarrow> ch_end ch \<noteq> Child_Error" using ends(1) by auto
  with finish_honest [OF assms(1) r [symmetric]] code ends(2,3)
  have "(rs_success r \<longleftrightarrow> ch_end ch \<noteq> Child_Error \<and> err = None \<and> ch_exit_code ch = Some 0 \<and>
        (\<exists>x. iv_project iv (oc_stdout outcome) = Inr x \<and> rs_data r = Some x))"
    and "\<not> rs_success r \<longrightarrow> (\<exists>e. rs_error r = Some e \<and> (ce_code e = ''outcome_unknown'' \<or> ch_end ch = Child_Error \<or>
        child_error_code (oc_stdout outcome) (oc_stderr outcome) = Some ''MCP_CONTEXT_CHANGED'' \<or>
        (child_error_code (oc_stdout outcome) (oc_stderr outcome) = None \<and> ch_exit_code ch = Some 2) \<or>
        (\<exists>details. iv_project iv (oc_stdout outcome) = Inl (Probe_Failure details) \<and> ce_code e = ''probe_failed'')))"
    by blast+
  with iv spawn run show ?thesis by (intro exI conjI)
qed

text \<open>
  Nothing of a child's output enters a failure but the choice among fixed texts: two outcomes
  with the same exit code and the same recognised code fail alike.
\<close>

lemma cli_failure_texts:
  assumes "oc_exit_code o1 \<noteq> 0" and "oc_exit_code o1 = oc_exit_code o2"
    and "child_error_code (oc_stdout o1) (oc_stderr o1) = child_error_code (oc_stdout o2) (oc_stderr o2)"
  shows "finish contextName d iv o1 err = finish contextName d iv o2 err"
  using assms(1) unfolding finish_def classify_write_failure_def classify_exit_failure_def assms(2,3) by simp

subsection \<open>What is staged\<close>

text \<open>The members of a document outside its schemas.\<close>

fun open_members :: "jval \<Rightarrow> (string \<times> jval) list" where
  "open_members (JObj ms) = concat (map (\<lambda>(k, v).
     if to_lower k = ''properties'' \<or> to_lower k \<in> set schema_keys then [] else (k, v) # open_members v) ms)"
| "open_members (JArr vs) = concat (map open_members vs)"
| "open_members _ = []"

lemma scan_open_members:
  "\<not> scan_credential_values False p v \<Longrightarrow> (k, JStr t) \<in> set (open_members v) \<Longrightarrow> is_sensitive_arg_key k \<Longrightarrow> t = []"
proof (induction v rule: open_members.induct)
  case (1 ms)
  from 1(3) obtain key v where m: "(key, v) \<in> set ms" and open_key: "\<not> (to_lower key = ''properties'' \<or> to_lower key \<in> set schema_keys)"
    and kt: "(k, JStr t) = (key, v) \<or> (k, JStr t) \<in> set (open_members v)" by (auto split: if_splits)
  from 1(2) m open_key have scan: "\<not> literal_credential False p key v" "\<not> scan_credential_values False p v"
    by (auto simp: list_ex_iff)
  from kt show ?case
  proof
    assume "(k, JStr t) = (key, v)"
    with scan(1) 1(4) show ?thesis by (auto simp: literal_credential_def)
  next
    assume "(k, JStr t) \<in> set (open_members v)"
    from 1(1) [OF m refl open_key scan(2) this 1(4)] show ?thesis .
  qed
next
  case (2 vs)
  then show ?case by (auto simp: list_ex_iff)
qed simp_all

definition clean_document :: "string \<Rightarrow> bool" where
  "clean_document enc \<longleftrightarrow> (\<exists>document. enc = json_text (JObj document) \<and> length enc \<le> max_manifest_bytes \<and>
     \<not> scan_credential_values False [] (JObj document))"

definition stages_clean :: "(invocation_context \<Rightarrow> jargs \<Rightarrow> staging \<Rightarrow> (cli_result + invocation) \<times> staging) \<Rightarrow> bool" where
  "stages_clean invoke \<longleftrightarrow> (\<forall>ic args sg res st. invoke ic args (sg, None) = (res, st) \<longrightarrow>
     (snd st = None \<and> sg_files (fst st) = sg_files sg) \<or>
     (\<exists>path enc. snd st = Some path \<and> sg_files (fst st) = amap_put path enc (sg_files sg) \<and> clean_document enc))"

lemma unstaged_clean: "stages_clean (unstaged f)"
  by (auto simp: stages_clean_def unstaged_def)

lemma validate_manifest_clean: "validate_manifest ic args kind = Inr m \<Longrightarrow> clean_document (vm_encoded m)"
  by (auto simp: validate_manifest_def clean_document_def Let_def not_less simp del: scan_credential_values.simps json_text.simps
      split: option.splits jval.splits prod.splits if_splits)

lemma stage_effect:
  "stage writable name contents sg = (r, sg') \<Longrightarrow>
     (case r of Inl _ \<Rightarrow> sg_files sg' = sg_files sg | Inr path \<Rightarrow> sg_files sg' = amap_put path contents (sg_files sg))"
  by (auto simp: stage_def Let_def split: if_splits option.splits)

lemma stage_manifest_clean:
  assumes "stage_manifest ic m (sg, None) = (res, st)" and "clean_document (vm_encoded m)"
  shows "(snd st = None \<and> sg_files (fst st) = sg_files sg) \<or>
     (\<exists>path enc. snd st = Some path \<and> sg_files (fst st) = amap_put path enc (sg_files sg) \<and> clean_document enc)"
proof -
  obtain r sg' where "stage (ic_writable ic) ''manifest.json'' (vm_encoded m) sg = (r, sg')" by (rule prod.exhaust)
  with stage_effect [OF this] assms show ?thesis by (cases r) (auto simp: stage_manifest_def)
qed

lemma staged_invocation_clean:
  assumes "staged_invocation checked build ic (sg, None) = (res, st)"
    and "\<And>m. checked = Inr m \<Longrightarrow> clean_document (vm_encoded m)"
  shows "(snd st = None \<and> sg_files (fst st) = sg_files sg) \<or>
     (\<exists>path enc. snd st = Some path \<and> sg_files (fst st) = amap_put path enc (sg_files sg) \<and> clean_document enc)"
proof (cases checked)
  case (Inr m)
  obtain r st1 where r: "stage_manifest ic m (sg, None) = (r, st1)" by (rule prod.exhaust)
  with assms(1) Inr have "st = st1" by (cases r) (auto simp: staged_invocation_def)
  with stage_manifest_clean [OF r assms(2) [OF Inr]] show ?thesis by simp
qed (use assms(1) in \<open>auto simp: staged_invocation_def\<close>)

lemma manifest_validator_clean: "stages_clean (manifest_validator argPrefix kind)"
  unfolding stages_clean_def manifest_validator_def
  by (intro allI impI) (erule staged_invocation_clean, auto intro: validate_manifest_clean)

lemma apply_invocation_clean: "stages_clean (apply_invocation argPrefix kind)"
  unfolding stages_clean_def apply_invocation_def
  by (intro allI impI) (erule staged_invocation_clean, auto simp: confirmed_manifest_def intro: validate_manifest_clean)

lemma catalogue_clean: "list_all (\<lambda>d. stages_clean (de_invoke d)) (catalogue parseTime)"
  by (simp add: catalogue_def read_descriptors_def write_descriptors_def read_descriptor_def write_descriptor_def
      unstaged_clean manifest_validator_clean apply_invocation_clean)

lemma amap_del_put [simp]: "amap_del k (amap_put k v []) = []"
  by (simp add: amap_put_def amap_del_def)

text \<open>
  No credential reaches the disk, and nothing stays there. If the staging directory is
  empty before a call, it is empty after it; and the child saw at most one staged file, the
  encoding of a manifest of at most 256 KiB in which no member outside a schema that is named
  like a credential carries a text.
\<close>

theorem cli_staging_clean:
  assumes "d \<in> set (catalogue parseTime)" and "sg_files (cs_stager s) = []"
    and "dispatch spawn writable d args s w = (r, s', w')"
  shows "sg_files (cs_stager s') = [] \<and>
     (w' = w \<or> (\<exists>files argv ch. spawn files argv (rn_env (cs_runner s)) (call_timeout (cs_runner s)) w = (ch, w') \<and> length files \<le> 1 \<and>
        list_all (\<lambda>f. \<exists>document. snd f = json_text (JObj document) \<and> length (snd f) \<le> 262144 \<and>
          (\<forall>k t. (k, JStr t) \<in> set (open_members (JObj document)) \<and> is_sensitive_arg_key k \<longrightarrow> t = [])) files))"
proof -
  from assms(1) catalogue_clean have clean: "stages_clean (de_invoke d)" by (auto simp: list_all_iff)
  have after: "sg_files (drop_staged st) = [] \<and> length (sg_files (fst st)) \<le> 1 \<and> list_all (\<lambda>f. clean_document (snd f)) (sg_files (fst st))"
    if "de_invoke d ic args (cs_stager s, None) = (res, st)" for ic res st
    using clean [unfolded stages_clean_def, rule_format, OF that] assms(2)
    by (auto simp: drop_staged_def unstage_def) (simp_all add: amap_put_def)
  have "sg_files (cs_stager s') = []"
    using assms(2,3) after
    by (auto simp: dispatch_def Let_def split: if_splits prod.splits sum.splits)
  moreover have "\<exists>files argv ch. spawn files argv (rn_env (cs_runner s)) (call_timeout (cs_runner s)) w = (ch, w') \<and> length files \<le> 1 \<and>
        list_all (\<lambda>f. clean_document (snd f)) files" if "w' \<noteq> w"
    using assms(3) that by (rule dispatch_ran) (use after in blast)
  moreover have "\<exists>document. enc = json_text (JObj document) \<and> length enc \<le> 262144 \<and>
      (\<forall>k t. (k, JStr t) \<in> set (open_members (JObj document)) \<and> is_sensitive_arg_key k \<longrightarrow> t = [])" if "clean_document enc" for enc
  proof -
    from that obtain document where doc: "enc = json_text (JObj document)" "length enc \<le> max_manifest_bytes"
      "\<not> scan_credential_values False [] (JObj document)" by (auto simp: clean_document_def)
    from doc(2) have "length enc \<le> 262144" by (simp add: max_manifest_bytes_def)
    with scan_open_members [OF doc(3)] doc(1) show ?thesis by blast
  qed
  ultimately show ?thesis unfolding list_all_iff by blast
qed

text \<open>
  The scan looks at texts that stand directly under a sensitive name. A credential in a list or
  in an object under such a name passes, although the logs would redact it.
\<close>

lemma nested_credential_passes:
  "\<not> scan_credential_values False [] (JObj [(''token'', JArr [JStr ''s3cret''])]) \<and>
   \<not> scan_credential_values False [] (JObj [(''password'', JObj [(''text'', JStr ''s3cret'')])]) \<and>
   redact_value (JObj [(''token'', JArr [JStr ''s3cret''])]) = JObj [(''token'', JStr redaction_marker)]"
  by code_simp

end
