(* ===== verification/Cli_Argv.thy ===== *)
theory Cli_Argv
  imports Cli_Dispatch
begin

text \<open>
  The argument vectors of the management catalogue. The vector of each tool has a fixed shape:
  fixed tokens, values attached to a fixed flag, and operands that cannot be read as a flag.
\<close>

subsection \<open>Shapes\<close>

datatype argv_token = Fixed string | Valued string | Operand | Staged_Path | Optional argv_token

fun fits :: "string option \<Rightarrow> argv_token \<Rightarrow> string \<Rightarrow> bool" where
  "fits staged (Fixed s) a = (a = s)"
| "fits staged (Valued flag) a = has_prefix a (flag_value flag [])"
| "fits staged Operand a = (a \<noteq> [] \<and> hd a \<noteq> CHR ''-'' \<and> \<not> list_ex is_control_byte a)"
| "fits staged Staged_Path a = (staged = Some a)"
| "fits staged (Optional t) a = fits staged t a"

fun shape_matches :: "string option \<Rightarrow> argv_token list \<Rightarrow> string list \<Rightarrow> bool" where
  "shape_matches staged [] as = (as = [])"
| "shape_matches staged (Optional t # ts) as = (shape_matches staged ts as \<or>
     (case as of [] \<Rightarrow> False | a # as' \<Rightarrow> fits staged t a \<and> shape_matches staged ts as'))"
| "shape_matches staged (t # ts) as = (case as of [] \<Rightarrow> False | a # as' \<Rightarrow> fits staged t a \<and> shape_matches staged ts as')"

abbreviation fixed :: "string list \<Rightarrow> argv_token list" where "fixed \<equiv> map Fixed"

abbreviation named_operand :: "string list \<Rightarrow> argv_token list" where
  "named_operand ws \<equiv> fixed ([''-o'', ''json''] @ ws @ [''--'']) @ [Operand]"

abbreviation hard_shape :: "argv_token list" where
  "hard_shape \<equiv> [Optional (Fixed ''--hard''), Optional (Fixed ''--yes''), Fixed ''--'', Operand]"

definition argv_shapes :: "(string \<times> argv_token list list) list" where
  "argv_shapes =
     [(''bridgectl_context_list'', [fixed [''-o'', ''json'', ''context'', ''list'']]),
      (''bridgectl_api_list'', [fixed [''-o'', ''json'', ''api'', ''list'']]),
      (''bridgectl_tool_get'', [fixed [''-o'', ''json'', ''tool'', ''get'', ''-o'', ''json''],
         named_operand [''tool'', ''get'', ''-o'', ''json'']]),
      (''bridgectl_tool_generate'', [fixed [''-o'', ''json'', ''tool'', ''generate'', ''--api''] @ [Operand]]),
      (''bridgectl_tool_validate'', [fixed [''-o'', ''json'', ''tool'', ''validate'', ''-f''] @ [Staged_Path]]),
      (''bridgectl_plugin_get'', [fixed [''-o'', ''json'', ''plugin'', ''get'', ''-o'', ''json''],
         named_operand [''plugin'', ''get'', ''-o'', ''json'']]),
      (''bridgectl_plugin_validate'', [fixed [''-o'', ''json'', ''plugin'', ''validate'', ''-f''] @ [Staged_Path]]),
      (''bridgectl_binding_get'', [fixed [''-o'', ''json'', ''plugin'', ''binding'', ''get'', ''-o'', ''json''],
         named_operand [''plugin'', ''binding'', ''get'', ''-o'', ''json'']]),
      (''bridgectl_binding_validate'', [fixed [''-o'', ''json'', ''plugin'', ''binding'', ''validate'', ''-f''] @ [Staged_Path]]),
      (''bridgectl_token_list'', [fixed [''-o'', ''json'', ''token'', ''list'']]),
      (''bridgectl_cache_stats'', [fixed [''-o'', ''json'', ''cache'', ''stats'']]),
      (''bridgectl_log_stats'', [fixed [''-o'', ''json'', ''log'', ''stats'']]),
      (''bridgectl_api_register'', [fixed [''-o'', ''json'', ''api'', ''register''] @
         map Valued [''name'', ''url'', ''method'', ''module'', ''description'', ''auth-type'', ''auth-header''] @
         [Optional (Valued ''credential-ref''), Optional (Valued ''credential-source''), Optional (Fixed ''--force'')]]),
      (''bridgectl_api_set_credential_ref'', [fixed [''-o'', ''json'', ''api'', ''set-credential-ref''] @
         [Valued ''credential-ref'', Fixed ''--'', Operand]]),
      (''bridgectl_api_test'', [named_operand [''api'', ''test'']]),
      (''bridgectl_tool_apply'', [fixed [''-o'', ''json'', ''tool'', ''apply'', ''-f''] @ [Staged_Path]]),
      (''bridgectl_tool_delete'', [fixed [''-o'', ''json'', ''tool'', ''delete''] @ hard_shape @ [Operand]]),
      (''bridgectl_plugin_apply'', [fixed [''-o'', ''json'', ''plugin'', ''apply'', ''-f''] @ [Staged_Path]]),
      (''bridgectl_plugin_delete'', [fixed [''-o'', ''json'', ''plugin'', ''delete''] @ hard_shape]),
      (''bridgectl_binding_apply'', [fixed [''-o'', ''json'', ''plugin'', ''binding'', ''apply'', ''-f''] @ [Staged_Path]]),
      (''bridgectl_binding_delete'', [fixed [''-o'', ''json'', ''plugin'', ''binding'', ''delete''] @ hard_shape]),
      (''bridgectl_token_revoke'', [named_operand [''token'', ''revoke'']]),
      (''bridgectl_cache_flush'', [named_operand [''cache'', ''flush''],
         fixed [''-o'', ''json'', ''cache'', ''flush''] @ [Valued ''module''],
         fixed [''-o'', ''json'', ''cache'', ''flush'', ''--all'']]),
      (''bridgectl_context_set'', [named_operand [''context'', ''set'']])]"

definition keeps_shape :: "argv_token list list \<Rightarrow> (invocation_context \<Rightarrow> jargs \<Rightarrow> staging \<Rightarrow> (cli_result + invocation) \<times> staging) \<Rightarrow> bool" where
  "keeps_shape shapes invoke \<longleftrightarrow> (\<forall>ic args sg iv st. invoke ic args (sg, None) = (Inr iv, st) \<longrightarrow>
     list_ex (\<lambda>sh. shape_matches (snd st) sh (iv_argv iv)) shapes)"

lemma identifier_operand: "identifier_problem v limit = [] \<Longrightarrow> v \<noteq> [] \<and> hd v \<noteq> CHR ''-'' \<and> \<not> list_ex is_control_byte v"
  by (cases v) (auto simp: identifier_problem_def has_prefix_def split: if_splits)

lemma required_operand: "required_string ic args key limit = Inr v \<Longrightarrow> v \<noteq> [] \<and> hd v \<noteq> CHR ''-'' \<and> \<not> list_ex is_control_byte v"
  using required_stringD identifier_operand by blast

lemma optional_operand: "optional_string ic args key limit = Inr v \<Longrightarrow> v = [] \<or> v \<noteq> [] \<and> hd v \<noteq> CHR ''-'' \<and> \<not> list_ex is_control_byte v"
  using optional_stringD identifier_operand by blast

lemma at_no_control: "\<not> is_control_byte (CHR ''@'')"
  by (simp add: is_control_byte_def)

lemma versioned_operand:
  assumes "versioned_identifier ic args = Inr v"
  shows "v = [] \<or> hd v \<noteq> CHR ''-'' \<and> \<not> list_ex is_control_byte v"
  using assms at_no_control
  by (auto simp: versioned_identifier_def hd_append dest!: optional_operand split: if_splits)

lemma target_operand:
  assumes "name \<noteq> []" and "hd name \<noteq> CHR ''-''" and "\<not> list_ex is_control_byte name" and "\<not> list_ex is_control_byte version"
  shows "target_of name version \<noteq> [] \<and> hd (target_of name version) \<noteq> CHR ''-'' \<and> \<not> list_ex is_control_byte (target_of name version)"
  using assms at_no_control by (simp add: target_of_def hd_append)

lemma flag_value_prefix [simp]: "has_prefix (flag_value flag v) (flag_value flag [])"
  by (simp add: flag_value_def has_prefix_def)

lemma unstaged_shape:
  assumes "\<And>ic args iv staged. f ic args = Inr iv \<Longrightarrow> list_ex (\<lambda>sh. shape_matches staged sh (iv_argv iv)) shapes"
  shows "keeps_shape shapes (unstaged f)"
  using assms by (auto simp: keeps_shape_def unstaged_def)

lemma staged_shape:
  assumes "\<And>m path. iv_argv (build m path) = pre @ [path]"
    and "staged_invocation checked build ic (sg, None) = (Inr iv, st)"
  shows "shape_matches (snd st) (fixed pre @ [Staged_Path]) (iv_argv iv)"
proof -
  have fixed: "shape_matches x (fixed ws @ ts) (ws @ as) = shape_matches x ts as" for x ws ts as
    by (induction ws) simp_all
  from assms(2) obtain m path sg' where "iv = build m path" "st = (sg', Some path)"
    by (auto simp: staged_invocation_def stage_manifest_def split: sum.splits prod.splits)
  with assms(1) fixed show ?thesis by simp
qed

lemma no_argument_shape:
  "keeps_shape [fixed argv] (unstaged (no_argument_invocation argv project))"
proof -
  have "shape_matches x (fixed ws) ws" for x ws by (induction ws) simp_all
  then show ?thesis by (intro unstaged_shape) (auto simp: no_argument_invocation_def)
qed

lemma validator_shape: "keeps_shape [fixed (argPrefix @ [''-f'']) @ [Staged_Path]] (manifest_validator argPrefix kind)"
  unfolding keeps_shape_def manifest_validator_def list_ex_iff list.set
  by (intro allI impI bexI [OF _ insertI1]) (erule staged_shape [rotated], simp)

lemma apply_shape: "keeps_shape [fixed (argPrefix @ [''-f'']) @ [Staged_Path]] (apply_invocation argPrefix kind)"
  unfolding keeps_shape_def apply_invocation_def list_ex_iff list.set
  by (intro allI impI bexI [OF _ insertI1]) (erule staged_shape [rotated], simp)

definition shape_of :: "string \<Rightarrow> argv_token list list" where
  "shape_of name = (case map_of argv_shapes name of None \<Rightarrow> [] | Some shapes \<Rightarrow> shapes)"

lemma tool_get_shape: "keeps_shape (shape_of ''bridgectl_tool_get'') (unstaged tool_get_invoke)"
  by (rule unstaged_shape)
    (auto simp: tool_get_invoke_def shape_of_def argv_shapes_def Let_def dest!: versioned_operand split: if_splits)

lemma tool_generate_shape: "keeps_shape (shape_of ''bridgectl_tool_generate'') (unstaged tool_generate_invoke)"
  by (rule unstaged_shape)
    (auto simp: tool_generate_invoke_def shape_of_def argv_shapes_def hard_flags_def Let_def dest!: required_operand optional_operand split: if_splits)

lemma plugin_get_shape: "keeps_shape (shape_of ''bridgectl_plugin_get'') (unstaged plugin_get_invoke)"
  by (rule unstaged_shape)
    (auto simp: plugin_get_invoke_def shape_of_def argv_shapes_def hard_flags_def Let_def dest!: versioned_operand split: if_splits)

lemma binding_get_shape: "keeps_shape (shape_of ''bridgectl_binding_get'') (unstaged binding_get_invoke)"
  by (rule unstaged_shape)
    (auto simp: binding_get_invoke_def shape_of_def argv_shapes_def hard_flags_def Let_def dest!: required_operand optional_operand split: if_splits)

lemma api_register_argv:
  assumes "api_register_invoke ic args = Inr iv"
  shows "\<exists>name url method moduleName description authType authHeader ref source force.
     iv_argv iv = [''-o'', ''json'', ''api'', ''register'', flag_value ''name'' name, flag_value ''url'' url,
            flag_value ''method'' method, flag_value ''module'' moduleName, flag_value ''description'' description,
            flag_value ''auth-type'' authType, flag_value ''auth-header'' authHeader] @
          (if ref = [] then [] else [flag_value ''credential-ref'' ref]) @
          (if source = [] then [] else [flag_value ''credential-source'' source]) @
          (if force then [''--force''] else [])"
  using assms unfolding api_register_invoke_def and_then_Inr
  by (elim exE conjE) (unfold sum.inject, drule sym, simp only: invocation.simps append.simps, blast)

lemma api_register_shape: "keeps_shape (shape_of ''bridgectl_api_register'') (unstaged api_register_invoke)"
proof (rule unstaged_shape)
  fix ic args iv staged
  assume "api_register_invoke ic args = Inr iv"
  from api_register_argv [OF this] obtain name url verb moduleName description authType authHeader ref source force where
    argv: "iv_argv iv = [''-o'', ''json'', ''api'', ''register'', flag_value ''name'' name, flag_value ''url'' url,
            flag_value ''method'' verb, flag_value ''module'' moduleName, flag_value ''description'' description,
            flag_value ''auth-type'' authType, flag_value ''auth-header'' authHeader] @
          (if ref = [] then [] else [flag_value ''credential-ref'' ref]) @
          (if source = [] then [] else [flag_value ''credential-source'' source]) @
          (if force then [''--force''] else [])" by blast
  show "list_ex (\<lambda>sh. shape_matches staged sh (iv_argv iv)) (shape_of ''bridgectl_api_register'')"
    unfolding argv by (cases "ref = []"; cases "source = []"; cases force) (simp_all add: shape_of_def argv_shapes_def)
qed

lemma api_set_credential_ref_shape: "keeps_shape (shape_of ''bridgectl_api_set_credential_ref'') (unstaged api_set_credential_ref_invoke)"
  by (rule unstaged_shape)
    (auto simp: api_set_credential_ref_invoke_def shape_of_def argv_shapes_def hard_flags_def Let_def dest!: required_operand optional_operand split: if_splits)

lemma api_test_shape: "keeps_shape (shape_of ''bridgectl_api_test'') (unstaged api_test_invoke)"
  by (rule unstaged_shape)
    (auto simp: api_test_invoke_def shape_of_def argv_shapes_def hard_flags_def Let_def dest!: required_operand optional_operand split: if_splits)

lemma tool_delete_shape: "keeps_shape (shape_of ''bridgectl_tool_delete'') (unstaged tool_delete_invoke)"
  by (rule unstaged_shape)
    (auto simp: tool_delete_invoke_def shape_of_def argv_shapes_def hard_flags_def Let_def dest!: required_operand optional_operand split: if_splits)

lemma plugin_delete_shape: "keeps_shape (shape_of ''bridgectl_plugin_delete'') (unstaged plugin_delete_invoke)"
  by (rule unstaged_shape)
    (auto simp: plugin_delete_invoke_def shape_of_def argv_shapes_def hard_flags_def target_operand Let_def dest!: required_operand optional_operand split: if_splits)

lemma binding_delete_shape: "keeps_shape (shape_of ''bridgectl_binding_delete'') (unstaged binding_delete_invoke)"
  by (rule unstaged_shape)
    (auto simp: binding_delete_invoke_def shape_of_def argv_shapes_def hard_flags_def Let_def dest!: required_operand optional_operand split: if_splits)

lemma token_revoke_shape: "keeps_shape (shape_of ''bridgectl_token_revoke'') (unstaged token_revoke_invoke)"
  by (rule unstaged_shape)
    (auto simp: token_revoke_invoke_def shape_of_def argv_shapes_def hard_flags_def Let_def dest!: required_operand optional_operand split: if_splits)

lemma cache_flush_shape: "keeps_shape (shape_of ''bridgectl_cache_flush'') (unstaged cache_flush_invoke)"
  by (rule unstaged_shape)
    (auto simp: cache_flush_invoke_def shape_of_def argv_shapes_def hard_flags_def Let_def dest!: required_operand optional_operand split: if_splits)

lemma context_set_shape: "keeps_shape (shape_of ''bridgectl_context_set'') (unstaged context_set_invoke)"
  by (rule unstaged_shape)
    (auto simp: context_set_invoke_def shape_of_def argv_shapes_def hard_flags_def Let_def dest!: required_operand optional_operand split: if_splits)

lemma no_argument_shapes:
  "keeps_shape (shape_of ''bridgectl_context_list'') (unstaged (no_argument_invocation (json_output @ [''context'', ''list'']) project))"
  "keeps_shape (shape_of ''bridgectl_api_list'') (unstaged (no_argument_invocation (json_output @ [''api'', ''list'']) project))"
  "keeps_shape (shape_of ''bridgectl_token_list'') (unstaged (no_argument_invocation (json_output @ [''token'', ''list'']) project))"
  "keeps_shape (shape_of ''bridgectl_cache_stats'') (unstaged (no_argument_invocation (json_output @ [''cache'', ''stats'']) project))"
  "keeps_shape (shape_of ''bridgectl_log_stats'') (unstaged (no_argument_invocation (json_output @ [''log'', ''stats'']) project))"
  using no_argument_shape [of "json_output @ [_, _]"] by (simp_all add: shape_of_def argv_shapes_def)

lemma manifest_shapes:
  "keeps_shape (shape_of ''bridgectl_tool_validate'') (manifest_validator (json_output @ [''tool'', ''validate'']) kind)"
  "keeps_shape (shape_of ''bridgectl_plugin_validate'') (manifest_validator (json_output @ [''plugin'', ''validate'']) kind)"
  "keeps_shape (shape_of ''bridgectl_binding_validate'') (manifest_validator (json_output @ [''plugin'', ''binding'', ''validate'']) kind)"
  "keeps_shape (shape_of ''bridgectl_tool_apply'') (apply_invocation (json_output @ [''tool'', ''apply'']) kind)"
  "keeps_shape (shape_of ''bridgectl_plugin_apply'') (apply_invocation (json_output @ [''plugin'', ''apply'']) kind)"
  "keeps_shape (shape_of ''bridgectl_binding_apply'') (apply_invocation (json_output @ [''plugin'', ''binding'', ''apply'']) kind)"
  using validator_shape [of "json_output @ [_, _]"] validator_shape [of "json_output @ [_, _, _]"]
    apply_shape [of "json_output @ [_, _]"] apply_shape [of "json_output @ [_, _, _]"]
  by (simp_all add: shape_of_def argv_shapes_def)

lemma catalogue_shapes: "list_all (\<lambda>d. keeps_shape (shape_of (de_name d)) (de_invoke d)) (catalogue parseTime)"
  unfolding catalogue_def read_descriptors_def write_descriptors_def read_descriptor_def write_descriptor_def
  by (simp add: no_argument_shapes manifest_shapes tool_get_shape tool_generate_shape plugin_get_shape binding_get_shape
      api_register_shape api_set_credential_ref_shape api_test_shape tool_delete_shape plugin_delete_shape binding_delete_shape
      token_revoke_shape cache_flush_shape context_set_shape del: append.simps)

text \<open>
  C12: no argument becomes a flag. Whatever a caller sends, the argument vector of a tool of the
  catalogue has that tool's fixed shape: the flags are the adapter's own, every value is
  attached to its flag or stands where it cannot be read as a flag, and the only file named is
  the one just staged.
\<close>

theorem cli_argv_contained:
  assumes "d \<in> set (catalogue parseTime)"
    and "de_invoke d ic args (sg, None) = (Inr iv, st)"
  shows "list_ex (\<lambda>sh. shape_matches (snd st) sh (iv_argv iv)) (shape_of (de_name d))"
  using assms catalogue_shapes [of parseTime] unfolding list_all_iff keeps_shape_def by blast

subsection \<open>A session at work\<close>

definition sample_cli_session :: cli_session where
  "sample_cli_session = \<lparr> cs_snapshot = \<lparr> sn_context_name = ''dev'', sn_server = [], sn_mcp_server = [], sn_api_token = [] \<rparr>,
     cs_groups = [''destructive''],
     cs_runner = \<lparr> rn_prefix_args = [], rn_env = [], rn_timeout = 0, rn_max_output = 0, rn_active = False \<rparr>,
     cs_stager = \<lparr> sg_dir = Some ''/tmp/s'', sg_serial = 0, sg_files = [] \<rparr> \<rparr>"

text \<open>A child that ends with the given code and prints nothing; it counts the children.\<close>

definition quiet_child :: "int \<Rightarrow> nat spawner" where
  "quiet_child code files argv env timeout w = (\<lparr> ch_stdout = [], ch_stderr = [], ch_exit_code = Some code,
     ch_end = (if code = 0 then Child_Ok else Child_Exit), ch_deadline = False, ch_cancelled = False \<rparr>, w + 1)"

definition revoke_args :: jargs where
  "revoke_args = [(''id'', JStr ''t1''), (''confirmContext'', JStr ''dev''), (''confirmTarget'', JStr ''t1'')]"

definition revoke_descriptor :: descriptor where
  "revoke_descriptor = write_descriptor ''bridgectl_token_revoke'' ''destructive'' Effect_Write (unstaged token_revoke_invoke)"

lemma revoke_in_catalogue: "revoke_descriptor \<in> set (catalogue parseTime)"
  by (simp add: catalogue_def write_descriptors_def revoke_descriptor_def)

theorem cli_write_confirmed_witness:
  "\<exists>r s'. dispatch (quiet_child 0) True revoke_descriptor revoke_args sample_cli_session 0 = (r, s', Suc 0) \<and>
     rs_data r = Some (Write_Data ''t1'' None) \<and> allows sample_cli_session ''destructive'' \<and> confirmed ''dev'' revoke_args ''t1''"
proof -
  obtain r s' w' where run: "dispatch (quiet_child 0) True revoke_descriptor revoke_args sample_cli_session 0 = (r, s', w')"
    by (metis prod.collapse)
  have "fst (dispatch (quiet_child 0) True revoke_descriptor revoke_args sample_cli_session 0) =
      new_success ''bridgectl_token_revoke'' ''dev'' (Write_Data ''t1'' None) \<and>
      snd (snd (dispatch (quiet_child 0) True revoke_descriptor revoke_args sample_cli_session 0)) = 1"
    by code_simp
  with run have r: "r = new_success ''bridgectl_token_revoke'' ''dev'' (Write_Data ''t1'' None)" and w': "w' = 1" by simp_all
  have "is_side_effecting (de_effect revoke_descriptor)" by code_simp
  from cli_write_confirmed [OF revoke_in_catalogue this run] w' r
  have "allows sample_cli_session ''destructive''" "confirmed ''dev'' revoke_args ''t1''"
    by (auto simp: revoke_descriptor_def write_descriptor_def new_success_def data_target_def sample_cli_session_def)
  with run r w' show ?thesis by (simp add: new_success_def)
qed

text \<open>A child that ends with exit code 1 and prints nothing.\<close>

theorem cli_failure_honest_witness:
  "\<exists>r s' e. dispatch (quiet_child 1) True revoke_descriptor revoke_args sample_cli_session 0 = (r, s', Suc 0) \<and>
     rs_error r = Some e \<and> ce_code e = ''outcome_unknown''"
proof -
  obtain r s' w' where run: "dispatch (quiet_child 1) True revoke_descriptor revoke_args sample_cli_session 0 = (r, s', w')"
    by (metis prod.collapse)
  have "snd (snd (dispatch (quiet_child 1) True revoke_descriptor revoke_args sample_cli_session 0)) = 1" by code_simp
  with run have w': "w' = Suc 0" by simp
  have effect: "is_side_effecting (de_effect revoke_descriptor)" by code_simp
  have no_code: "child_error_code (oc_stdout outcome) (oc_stderr outcome) = None"
    if "run_result limit \<lparr> ch_stdout = [], ch_stderr = [], ch_exit_code = Some 1, ch_end = Child_Exit, ch_deadline = False, ch_cancelled = False \<rparr> =
      (outcome, err)" for limit outcome err
    using that by (auto simp: run_result_def child_error_code_def stream_error_code_def trim_space_def trim_left_def)
  have probe: "iv_project iv out \<noteq> Inl (Probe_Failure details)"
    if "de_invoke revoke_descriptor ic revoke_args st = (Inr iv, st')" for ic st iv st' out details
    using that by (auto simp: revoke_descriptor_def write_descriptor_def unstaged_def token_revoke_invoke_def command_completed_def
        and_then_def split: sum.splits if_splits)
  from cli_failure_honest [OF effect run] w' no_code probe run show ?thesis
    by (fastforce simp: quiet_child_def)
qed

definition validate_descriptor :: descriptor where
  "validate_descriptor = read_descriptor ''bridgectl_binding_validate'' Effect_Local True
     (manifest_validator (json_output @ [''plugin'', ''binding'', ''validate'']) kind_binding)"

lemma validate_in_catalogue: "validate_descriptor \<in> set (catalogue parseTime)"
  by (simp add: catalogue_def read_descriptors_def validate_descriptor_def)

definition manifest_document :: jargs where
  "manifest_document = [(''kind'', JStr ''PluginBinding''), (''metadata'', JObj [(''name'', JStr ''b1'')])]"

definition manifest_args :: jargs where
  "manifest_args = [(''manifest'', JObj manifest_document)]"

lemma manifest_validated:
  "validate_manifest ic manifest_args kind_binding =
     Inr \<lparr> vm_encoded = json_text (JObj manifest_document), vm_kind = kind_binding, vm_name = ''b1'', vm_version = [] \<rparr>"
proof -
  have "length (json_text (JObj manifest_document)) = 49" by code_simp
  then have small: "\<not> max_manifest_bytes < length (json_text (JObj manifest_document))" by (simp add: max_manifest_bytes_def)
  have parts: "manifest_identity manifest_document = (''b1'', [])" "string_of (map_of manifest_document ''kind'') = kind_binding"
    "identifier_problem ''b1'' max_identifier_bytes = []" "\<not> scan_credential_values False [] (JObj manifest_document)"
    "manifest_endpoint_problem manifest_document kind_binding = []" by code_simp+
  have "map_of manifest_args ''manifest'' = Some (JObj manifest_document)"
    by (simp add: manifest_args_def)
  then show ?thesis using parts small
    by (simp add: validate_manifest_def del: scan_credential_values.simps json_text.simps)
qed

theorem cli_staging_clean_witness:
  "\<exists>r s'. dispatch (quiet_child 0) True validate_descriptor manifest_args sample_cli_session 0 = (r, s', Suc 0) \<and>
     rs_data r = Some (Validation_Data ''PluginBinding'' ''b1'' []) \<and> sg_files (cs_stager s') = []"
proof -
  obtain r s' w' where run: "dispatch (quiet_child 0) True validate_descriptor manifest_args sample_cli_session 0 = (r, s', w')"
    by (metis prod.collapse)
  have stage: "\<exists>path sg. stage True ''manifest.json'' (json_text (JObj manifest_document)) (cs_stager sample_cli_session) = (Inr path, sg)"
  proof -
    have "length (json_text (JObj manifest_document)) = 49" by code_simp
    then have "\<not> max_manifest_bytes < length (json_text (JObj manifest_document))" by (simp add: max_manifest_bytes_def)
    moreover have "file_base ''manifest.json'' = ''manifest.json''" by code_simp
    ultimately show ?thesis by (simp add: stage_def sample_cli_session_def Let_def del: json_text.simps)
  qed
  then obtain path sg where stage: "stage True ''manifest.json'' (json_text (JObj manifest_document)) (cs_stager sample_cli_session) = (Inr path, sg)"
    by blast
  have "reject_unknown ic manifest_args [''manifest''] = Inr ()" for ic by (simp add: reject_unknown_def manifest_args_def)
  then have invoke: "\<exists>argv. de_invoke validate_descriptor \<lparr> ic_operation = n, ic_context = c, ic_writable = True \<rparr> manifest_args
       (cs_stager sample_cli_session, None) = (Inr \<lparr> iv_argv = argv, iv_project = (\<lambda>_. Inr (Validation_Data kind_binding ''b1'' [])) \<rparr>, (sg, Some path))" for n c
    using stage by (simp add: validate_descriptor_def read_descriptor_def manifest_validator_def manifest_validated staged_invocation_def
        stage_manifest_def)
  obtain argv where "de_invoke validate_descriptor \<lparr> ic_operation = de_name validate_descriptor, ic_context = ''dev'', ic_writable = True \<rparr> manifest_args
       (cs_stager sample_cli_session, None) = (Inr \<lparr> iv_argv = argv, iv_project = (\<lambda>_. Inr (Validation_Data kind_binding ''b1'' [])) \<rparr>, (sg, Some path))"
    using invoke by blast
  moreover have "de_group validate_descriptor = []" "de_additional validate_descriptor manifest_args = []"
    "\<not> rn_active (cs_runner sample_cli_session)" "sn_context_name (cs_snapshot sample_cli_session) = ''dev''"
    by (simp_all add: validate_descriptor_def read_descriptor_def sample_cli_session_def)
  ultimately have "rs_data r = Some (Validation_Data ''PluginBinding'' ''b1'' [])" "w' = 1"
    using run by (auto simp: dispatch_def Let_def runner_run_def quiet_child_def run_result_def finish_def new_success_def kind_binding_def)
  moreover have "sg_files (cs_stager sample_cli_session) = []" by (simp add: sample_cli_session_def)
  from cli_staging_clean [OF validate_in_catalogue this run] have "sg_files (cs_stager s') = []" by simp
  ultimately show ?thesis using run by simp
qed

theorem cli_argv_contained_witness:
  "\<exists>iv. fst (de_invoke revoke_descriptor \<lparr> ic_operation = [], ic_context = ''dev'', ic_writable = True \<rparr> revoke_args
       (cs_stager sample_cli_session, None)) = Inr iv \<and>
     iv_argv iv = [''-o'', ''json'', ''token'', ''revoke'', ''--'', ''t1''] \<and>
     list_ex (\<lambda>sh. shape_matches None sh (iv_argv iv)) (shape_of ''bridgectl_token_revoke'')"
proof -
  let ?iv = "\<lparr> iv_argv = [''-o'', ''json'', ''token'', ''revoke'', ''--'', ''t1''], iv_project = command_completed ''t1'' \<rparr>"
  have run: "de_invoke revoke_descriptor \<lparr> ic_operation = [], ic_context = ''dev'', ic_writable = True \<rparr> revoke_args
       (cs_stager sample_cli_session, None) = (Inr ?iv, (cs_stager sample_cli_session, None))"
    by (simp add: revoke_descriptor_def write_descriptor_def unstaged_def token_revoke_invoke_def reject_unknown_def revoke_args_def
        required_string_def optional_string_def require_target_def identifier_problem_def max_identifier_bytes_def max_target_bytes_def
        has_prefix_def is_control_byte_def)
  from cli_argv_contained [OF revoke_in_catalogue run] run show ?thesis
    by (auto simp: revoke_descriptor_def write_descriptor_def)
qed

end
