(* ===== verification/Config.thy ===== *)
theory Config
  imports Access Json_Roundtrip
begin

text \<open>
  internal/config: contexts and their selection, the configuration file with its environment
  overrides (config.go), the rules of the platform (context_names_other.go and
  context_names_windows.go) and the update of the saved default (context_write.go). The YAML
  library is a parameter, and so is the digest; the file system is a state that other
  processes may change between the steps of an update.
\<close>

subsection \<open>Contexts\<close>

record context_auth =
  ac_type :: string
  ac_header :: string
  ac_key :: string
  ac_token :: string
  ac_username :: string

record bridge_context =
  bc_server :: string
  bc_mcp_server :: string
  bc_erp_base :: string
  bc_api_token :: string
  bc_auth :: context_auth

record bridge_config =
  bf_current :: string
  bf_contexts :: "(string \<times> bridge_context) list"

definition no_auth :: context_auth where
  "no_auth = \<lparr> ac_type = [], ac_header = [], ac_key = [], ac_token = [], ac_username = [] \<rparr>"

definition no_context :: bridge_context where
  "no_context = \<lparr> bc_server = [], bc_mcp_server = [], bc_erp_base = [], bc_api_token = [], bc_auth = no_auth \<rparr>"

definition default_context_name :: string where "default_context_name = ''local''"

definition default_context :: bridge_context where
  "default_context = \<lparr> bc_server = ''http://localhost:8082'', bc_mcp_server = ''http://localhost:8080'',
     bc_erp_base = ''http://localhost:8081'', bc_api_token = [],
     bc_auth = no_auth\<lparr> ac_type := ''api-key'', ac_header := ''X-API-Key'' \<rparr> \<rparr>"

definition default_config :: bridge_config where
  "default_config = \<lparr> bf_current = default_context_name, bf_contexts = [(default_context_name, default_context)] \<rparr>"

text \<open>The pattern \<open>^[A-Za-z0-9][A-Za-z0-9._-]{0,63}$\<close>.\<close>

definition validate_context_name :: "string \<Rightarrow> bool" where
  "validate_context_name name = (case name of
       [] \<Rightarrow> False
     | c # cs \<Rightarrow> (is_letter c \<or> is_digit c) \<and> length cs \<le> 63 \<and>
         list_all (\<lambda>c. is_letter c \<or> is_digit c \<or> c \<in> set ''._-'') cs)"

text \<open>\<open>ErrContextNotFound\<close> wraps the first three; the others are errors of their own.\<close>

datatype config_error =
    Config_Nil
  | Bad_Context_Name string
  | Context_Not_Configured string
  | Invalid_Context_Name string
  | Names_Differ_By_Case
  | Reserved_Device_Name string
  | Config_Unreadable
  | Config_Unparsable
  | Config_Symlink
  | Unknown_Saved_Context string
  | Config_Unencodable
  | Config_Write_Failed
  | Config_Changed

definition is_context_not_found :: "config_error \<Rightarrow> bool" where
  "is_context_not_found e = (case e of Config_Nil \<Rightarrow> True | Bad_Context_Name _ \<Rightarrow> True | Context_Not_Configured _ \<Rightarrow> True | _ \<Rightarrow> False)"

definition resolve_context :: "bridge_config option \<Rightarrow> string \<Rightarrow> config_error + bridge_context" where
  "resolve_context c name = (case c of
       None \<Rightarrow> Inl Config_Nil
     | Some cfg \<Rightarrow>
         let name = (if name = [] then bf_current cfg else name) in
         if \<not> validate_context_name name then Inl (Bad_Context_Name name)
         else (case map_of (bf_contexts cfg) name of
             None \<Rightarrow> Inl (Context_Not_Configured name)
           | Some ctx \<Rightarrow> Inr ctx))"

definition effective_context :: "bridge_config \<Rightarrow> config_error + bridge_context" where
  "effective_context cfg = resolve_context (Some cfg) []"

definition active_context :: "bridge_config \<Rightarrow> bridge_context" where
  "active_context cfg = (case effective_context cfg of Inl _ \<Rightarrow> no_context | Inr ctx \<Rightarrow> ctx)"

lemma effective_context_eq:
  "effective_context cfg = Inr ctx \<longleftrightarrow> validate_context_name (bf_current cfg) \<and> map_of (bf_contexts cfg) (bf_current cfg) = Some ctx"
  by (auto simp: effective_context_def resolve_context_def Let_def split: option.splits if_splits)

subsection \<open>Platform rules\<close>

text \<open>On Windows, names may not differ by case only and device names are reserved.\<close>

definition validate_platform_contexts :: "bool \<Rightarrow> string list \<Rightarrow> config_error option" where
  "validate_platform_contexts windows names =
     (if windows \<and> \<not> distinct (map to_lower names) then Some Names_Differ_By_Case else None)"

definition device_stems :: "string list" where "device_stems = [''CON'', ''PRN'', ''AUX'', ''NUL'']"

definition reserved_stem :: "string \<Rightarrow> bool" where
  "reserved_stem stem \<longleftrightarrow> stem \<in> set device_stems \<or>
     length stem = 4 \<and> (has_prefix stem ''COM'' \<or> has_prefix stem ''LPT'') \<and> stem ! 3 \<in> set ''123456789''"

definition name_stem :: "string \<Rightarrow> string" where
  "name_stem name = to_upper (takeWhile (\<lambda>c. c \<noteq> CHR ''.'') name)"

definition validate_registry_context_name :: "bool \<Rightarrow> string \<Rightarrow> config_error option" where
  "validate_registry_context_name windows name =
     (if \<not> validate_context_name name then Some (Invalid_Context_Name name)
      else if windows \<and> reserved_stem (name_stem name) then Some (Reserved_Device_Name name)
      else None)"

subsection \<open>os.ExpandEnv\<close>

definition is_shell_special :: "char \<Rightarrow> bool" where
  "is_shell_special c \<longleftrightarrow> c \<in> set ''*#$@!?-'' \<or> is_digit c"

definition is_alnum :: "char \<Rightarrow> bool" where
  "is_alnum c \<longleftrightarrow> c = CHR ''_'' \<or> is_digit c \<or> is_letter c"

text \<open>\<open>getShellName\<close>: the name after a dollar sign, and how many bytes it takes.\<close>

definition shell_name :: "string \<Rightarrow> string \<times> nat" where
  "shell_name s = (case s of
       [] \<Rightarrow> ([], 0)
     | c # cs \<Rightarrow>
         if c = CHR ''{'' then
           (let name = takeWhile (\<lambda>c. c \<noteq> CHR ''}'') cs in
            if 2 \<le> length cs \<and> is_shell_special (cs ! 0) \<and> cs ! 1 = CHR ''}'' then ([cs ! 0], 3)
            else if length name = length cs then ([], 1)
            else if name = [] then ([], 2)
            else (name, length name + 2))
         else if is_shell_special c then ([c], 1)
         else let name = takeWhile is_alnum s in (name, length name))"

function expand_env :: "(string \<Rightarrow> string) \<Rightarrow> string \<Rightarrow> string" where
  "expand_env getenv s = (case s of
       [] \<Rightarrow> []
     | c # cs \<Rightarrow>
         if c = CHR ''$'' \<and> cs \<noteq> [] then
           (case shell_name cs of (name, w) \<Rightarrow>
              (if name = [] \<and> 0 < w then [] else if name = [] then [c] else getenv name) @ expand_env getenv (drop w cs))
         else c # expand_env getenv cs)"
  by pat_completeness auto
termination by (relation "measure (\<lambda>(_, s). length s)") auto

declare expand_env.simps [simp del]

subsection \<open>Loading\<close>

text \<open>An unset variable reads as the empty string.\<close>

definition env_or :: "(string \<Rightarrow> string) \<Rightarrow> string \<Rightarrow> string \<Rightarrow> string" where
  "env_or getenv key old = (if getenv key \<noteq> [] then getenv key else old)"

definition override_auth :: "(string \<Rightarrow> string) \<Rightarrow> context_auth \<Rightarrow> context_auth" where
  "override_auth getenv a =
     \<lparr> ac_type = env_or getenv ''BRIDGE_AUTH_TYPE'' (ac_type a),
       ac_header = env_or getenv ''BRIDGE_AUTH_HEADER'' (ac_header a),
       ac_key = env_or getenv ''BRIDGE_PASSWORD'' (env_or getenv ''BRIDGE_API_KEY'' (ac_key a)),
       ac_token = env_or getenv ''BRIDGE_TOKEN'' (ac_token a),
       ac_username = env_or getenv ''BRIDGE_USERNAME'' (ac_username a) \<rparr>"

definition override_context :: "(string \<Rightarrow> string) \<Rightarrow> bridge_context \<Rightarrow> bridge_context" where
  "override_context getenv c =
     \<lparr> bc_server = env_or getenv ''BRIDGE_SERVER'' (bc_server c),
       bc_mcp_server = env_or getenv ''BRIDGE_MCP_SERVER'' (bc_mcp_server c),
       bc_erp_base = env_or getenv ''BRIDGE_ERP_BASE'' (bc_erp_base c),
       bc_api_token = env_or getenv ''BRIDGE_API_TOKEN'' (bc_api_token c),
       bc_auth = override_auth getenv (bc_auth c) \<rparr>"

definition apply_env_overrides :: "(string \<Rightarrow> string) \<Rightarrow> bridge_config \<Rightarrow> bridge_config" where
  "apply_env_overrides getenv cfg =
     (let cfg = cfg\<lparr> bf_current := env_or getenv ''BRIDGE_CONTEXT'' (bf_current cfg) \<rparr>;
          ctx = override_context getenv (active_context cfg) in
      if map_of (bf_contexts cfg) (bf_current cfg) \<noteq> None
      then cfg\<lparr> bf_contexts := amap_put (bf_current cfg) ctx (bf_contexts cfg) \<rparr>
      else cfg)"

text \<open>The configuration file as a read finds it.\<close>

datatype config_file = File_Missing | File_Unreadable | File_Symlink config_file | File_Text string

fun read_config :: "config_file \<Rightarrow> string option" where
  "read_config (File_Text t) = Some t"
| "read_config (File_Symlink f) = read_config f"
| "read_config _ = None"

fun file_missing :: "config_file \<Rightarrow> bool" where
  "file_missing File_Missing = True"
| "file_missing (File_Symlink f) = file_missing f"
| "file_missing _ = False"

text \<open>What the YAML library does: a typed and a generic document, and the text of either.\<close>

record yaml_library =
  yl_config :: "string \<Rightarrow> bridge_config option"
  yl_document :: "string \<Rightarrow> jargs option"
  yl_encode :: "jargs \<Rightarrow> string option"
  yl_encode_config :: "bridge_config \<Rightarrow> string option"

definition raw_context_names :: "jargs \<Rightarrow> string list" where
  "raw_context_names document = (case map_of document ''contexts'' of Some (JObj cs) \<Rightarrow> map fst cs | _ \<Rightarrow> [])"

definition validate_raw_context_names :: "yaml_library \<Rightarrow> bool \<Rightarrow> string \<Rightarrow> config_error option" where
  "validate_raw_context_names y windows text =
     (if \<not> windows then None
      else case yl_document y text of
          None \<Rightarrow> Some Config_Unparsable
        | Some document \<Rightarrow> validate_platform_contexts windows (raw_context_names document))"

definition load_file :: "yaml_library \<Rightarrow> bool \<Rightarrow> (string \<Rightarrow> string) \<Rightarrow> config_file \<Rightarrow> config_error + bridge_config option" where
  "load_file y windows getenv f =
     (if file_missing f then Inr None
      else case read_config f of
        None \<Rightarrow> Inl Config_Unreadable
      | Some text \<Rightarrow> (case validate_raw_context_names y windows text of
          Some e \<Rightarrow> Inl e
        | None \<Rightarrow> (case yl_config y (expand_env getenv text) of
            None \<Rightarrow> Inl Config_Unparsable
          | Some cfg \<Rightarrow> Inr (Some cfg))))"

definition load_config :: "yaml_library \<Rightarrow> bool \<Rightarrow> (string \<Rightarrow> string) \<Rightarrow> config_file \<Rightarrow> config_error + bridge_config" where
  "load_config y windows getenv f = (case load_file y windows getenv f of
       Inl e \<Rightarrow> Inl e
     | Inr loaded \<Rightarrow>
         let cfg = (case loaded of None \<Rightarrow> default_config | Some c \<Rightarrow> c) in
         (case validate_platform_contexts windows (map fst (bf_contexts cfg)) of
            Some e \<Rightarrow> Inl e
          | None \<Rightarrow>
              let cfg = apply_env_overrides getenv cfg in
              (case effective_context cfg of Inl e \<Rightarrow> Inl e | Inr _ \<Rightarrow> Inr cfg)))"

subsection \<open>Updating the saved default\<close>

definition saved_context_exists :: "jargs \<Rightarrow> string \<Rightarrow> bool" where
  "saved_context_exists document name = (case map_of document ''contexts'' of
       Some (JObj cs) \<Rightarrow> map_of cs name \<noteq> None
     | _ \<Rightarrow> False)"

definition fingerprint_bytes :: "(string \<Rightarrow> string) \<Rightarrow> string \<Rightarrow> string" where
  "fingerprint_bytes sha text = hex_encode (sha text)"

lemma hex_pair_inj:
  "hex_digit (of_char c div 16) = hex_digit (of_char d div 16) \<and> hex_digit (of_char c mod 16) = hex_digit (of_char d mod 16) \<longleftrightarrow> c = d"
  (is "?l \<longleftrightarrow> _")
proof
  let ?c = "of_char c :: nat" and ?d = "of_char d :: nat"
  have digits: "hex_digit m = hex_digit n \<longleftrightarrow> m = n" if "m < 16" "n < 16" for m n
    using that hex_value_digit by (metis option.inject)
  have "?c div 16 < 16" "?d div 16 < 16" using nat_of_char_less_256 [of c] nat_of_char_less_256 [of d] by linarith+
  moreover assume ?l
  ultimately have "?c div 16 = ?d div 16" "?c mod 16 = ?d mod 16" using digits by simp_all
  then have "?c = ?d" by (metis div_mult_mod_eq)
  then show "c = d" by simp
qed simp

lemma hex_encode_inj: "hex_encode a = hex_encode b \<longleftrightarrow> a = b"
proof (induction a arbitrary: b)
  case Nil
  then show ?case by (cases b) (auto simp: hex_encode_def)
next
  case (Cons c a)
  show ?case
  proof (cases b)
    case (Cons d b')
    have "hex_encode (x # xs) = hex_digit (of_char x div 16) # hex_digit (of_char x mod 16) # hex_encode xs" for x xs
      by (simp add: hex_encode_def)
    with Cons Cons.IH [of b'] hex_pair_inj [of c d] show ?thesis by auto
  qed (simp add: hex_encode_def)
qed

definition with_current :: "string \<Rightarrow> jargs \<Rightarrow> jargs" where
  "with_current name document = amap_put ''current-context'' (JStr name) document"

text \<open>The replacement for a text that was read.\<close>

definition updated_text :: "yaml_library \<Rightarrow> bool \<Rightarrow> string \<Rightarrow> string \<Rightarrow> config_error + string" where
  "updated_text y windows name text = (case validate_raw_context_names y windows text of
       Some e \<Rightarrow> Inl e
     | None \<Rightarrow> (case yl_document y text of
         None \<Rightarrow> Inl Config_Unparsable
       | Some document \<Rightarrow>
           if \<not> saved_context_exists document name then Inl (Unknown_Saved_Context name)
           else (case yl_encode y (with_current name document) of
               None \<Rightarrow> Inl Config_Unencodable
             | Some encoded \<Rightarrow> Inr encoded)))"

text \<open>
  \<open>SetCurrentContext\<close> step by step. A replacement carries the fingerprint that the file must
  still have, or \<open>None\<close> when the file must still be absent.
\<close>

datatype update_phase =
    Update_Inspect
  | Update_Read
  | Update_Write string "string option"
  | Update_Recheck string "string option"
  | Update_Install string
  | Update_Done "config_error option"

definition begin_update :: "string \<Rightarrow> update_phase" where
  "begin_update name = (if validate_context_name name then Update_Inspect else Update_Done (Some (Invalid_Context_Name name)))"

definition inspect_file :: "yaml_library \<Rightarrow> string \<Rightarrow> config_file \<Rightarrow> update_phase" where
  "inspect_file y name f = (case f of
       File_Symlink _ \<Rightarrow> Update_Done (Some Config_Symlink)
     | File_Missing \<Rightarrow>
         if name \<noteq> default_context_name then Update_Done (Some (Unknown_Saved_Context name))
         else (case yl_encode_config y (default_config\<lparr> bf_current := name \<rparr>) of
             None \<Rightarrow> Update_Done (Some Config_Unencodable)
           | Some encoded \<Rightarrow> Update_Write encoded None)
     | _ \<Rightarrow> Update_Read)"

definition read_original :: "yaml_library \<Rightarrow> (string \<Rightarrow> string) \<Rightarrow> bool \<Rightarrow> string \<Rightarrow> config_file \<Rightarrow> update_phase" where
  "read_original y sha windows name f = (case read_config f of
       None \<Rightarrow> Update_Done (Some Config_Unreadable)
     | Some text \<Rightarrow> (case updated_text y windows name text of
         Inl e \<Rightarrow> Update_Done (Some e)
       | Inr encoded \<Rightarrow> Update_Write encoded (Some (fingerprint_bytes sha text))))"

definition recheck_file :: "(string \<Rightarrow> string) \<Rightarrow> string \<Rightarrow> string option \<Rightarrow> config_file \<Rightarrow> update_phase" where
  "recheck_file sha encoded expected f = (case expected of
       None \<Rightarrow>
         if read_config f \<noteq> None then Update_Done (Some Config_Changed)
         else if file_missing f then Update_Install encoded
         else Update_Done (Some Config_Unreadable)
     | Some fp \<Rightarrow> (case read_config f of
         None \<Rightarrow> Update_Done (Some Config_Unreadable)
       | Some text \<Rightarrow> if fingerprint_bytes sha text \<noteq> fp then Update_Done (Some Config_Changed) else Update_Install encoded))"

text \<open>One step of the update, and the steps of everybody else.\<close>

inductive update_step ::
  "yaml_library \<Rightarrow> (string \<Rightarrow> string) \<Rightarrow> bool \<Rightarrow> string \<Rightarrow> config_file \<times> update_phase \<Rightarrow> config_file \<times> update_phase \<Rightarrow> bool"
  for y sha windows name where
  inspect: "update_step y sha windows name (f, Update_Inspect) (f, inspect_file y name f)"
| read: "update_step y sha windows name (f, Update_Read) (f, read_original y sha windows name f)"
| written: "update_step y sha windows name (f, Update_Write encoded expected) (f, Update_Recheck encoded expected)"
| write_failed: "update_step y sha windows name (f, Update_Write encoded expected) (f, Update_Done (Some Config_Write_Failed))"
| recheck: "update_step y sha windows name (f, Update_Recheck encoded expected) (f, recheck_file sha encoded expected f)"
| installed: "update_step y sha windows name (f, Update_Install encoded) (File_Text encoded, Update_Done None)"
| install_failed: "update_step y sha windows name (f, Update_Install encoded) (f, Update_Done (Some Config_Write_Failed))"

inductive_cases update_stepE: "update_step y sha windows name (f, ph) x"

definition installing :: "update_phase \<Rightarrow> bool" where
  "installing ph = (case ph of Update_Install _ \<Rightarrow> True | _ \<Rightarrow> False)"

inductive shared_step ::
  "yaml_library \<Rightarrow> (string \<Rightarrow> string) \<Rightarrow> bool \<Rightarrow> string \<Rightarrow> config_file \<times> update_phase \<Rightarrow> config_file \<times> update_phase \<Rightarrow> bool"
  for y sha windows name where
  own: "update_step y sha windows name s s' \<Longrightarrow> shared_step y sha windows name s s'"
| other: "\<not> installing ph \<Longrightarrow> shared_step y sha windows name (f, ph) (f', ph)"

text \<open>What a replacement is: the text that was read, with nothing but its default changed.\<close>

definition replaces :: "yaml_library \<Rightarrow> string \<Rightarrow> string \<Rightarrow> string \<Rightarrow> bool" where
  "replaces y name text encoded \<longleftrightarrow> (\<exists>document. yl_document y text = Some document \<and> saved_context_exists document name \<and>
     yl_encode y (with_current name document) = Some encoded)"

definition default_text :: "yaml_library \<Rightarrow> string \<Rightarrow> string \<Rightarrow> bool" where
  "default_text y name encoded \<longleftrightarrow> name = default_context_name \<and> yl_encode_config y default_config = Some encoded"

definition derived :: "yaml_library \<Rightarrow> (string \<Rightarrow> string) \<Rightarrow> string \<Rightarrow> string \<Rightarrow> string option \<Rightarrow> bool" where
  "derived y sha name encoded expected = (case expected of
       None \<Rightarrow> default_text y name encoded
     | Some fp \<Rightarrow> \<exists>t. fingerprint_bytes sha t = fp \<and> replaces y name t encoded)"

fun update_inv :: "yaml_library \<Rightarrow> (string \<Rightarrow> string) \<Rightarrow> string \<Rightarrow> config_file \<times> update_phase \<Rightarrow> bool" where
  "update_inv y sha name (f, Update_Write encoded expected) = derived y sha name encoded expected"
| "update_inv y sha name (f, Update_Recheck encoded expected) = derived y sha name encoded expected"
| "update_inv y sha name (f, Update_Install encoded) = (case read_config f of
       Some text \<Rightarrow> derived y sha name encoded (Some (fingerprint_bytes sha text))
     | None \<Rightarrow> file_missing f \<and> derived y sha name encoded None)"
| "update_inv y sha name (f, _) = True"

lemma file_missing_unread: "file_missing f \<Longrightarrow> read_config f = None"
  by (induction f) auto

lemma updated_text_replaces: "updated_text y windows name text = Inr encoded \<Longrightarrow> replaces y name text encoded"
  by (auto simp: updated_text_def replaces_def split: option.splits if_splits)

lemma update_step_inv:
  assumes "update_step y sha windows name s s'" and "update_inv y sha name s"
  shows "update_inv y sha name s'"
  using assms
proof (induction rule: update_step.induct)
  case (inspect f)
  then show ?case
    by (auto simp: inspect_file_def derived_def default_text_def default_config_def split: config_file.split option.split)
next
  case (read f)
  then show ?case by (auto simp: read_original_def derived_def dest: updated_text_replaces split: option.split sum.split)
next
  case (recheck f encoded expected)
  then show ?case by (auto simp: recheck_file_def file_missing_unread split: option.split)
qed auto

lemma shared_step_inv: "shared_step y sha windows name s s' \<Longrightarrow> update_inv y sha name s \<Longrightarrow> update_inv y sha name s'"
proof (induction rule: shared_step.induct)
  case (other ph f f')
  then show ?case
    by (cases ph) (auto simp: installing_def)
qed (rule update_step_inv)


lemma shared_steps_inv:
  "(shared_step y sha windows name)\<^sup>*\<^sup>* s s' \<Longrightarrow> update_inv y sha name s \<Longrightarrow> update_inv y sha name s'"
  by (induction rule: rtranclp_induct) (auto dest: shared_step_inv)

lemma begin_update_inv: "update_inv y sha name (f, begin_update name)"
  by (simp add: begin_update_def)

text \<open>
  C33: changing the saved default loses no other change. Whatever other processes do to the
  configuration file while an update runs, up to its last check, the text it installs is the
  text the file has at that moment, decoded, with the selected context as its default and
  every other member as it was, or the built-in defaults if there is no file; and the context
  is one the file declares.
\<close>

theorem saved_default_keeps_changes:
  assumes "(shared_step y sha windows name)\<^sup>*\<^sup>* (f0, begin_update name) (f, Update_Install encoded)"
    and "\<And>t text. read_config f = Some text \<Longrightarrow> fingerprint_bytes sha t = fingerprint_bytes sha text \<Longrightarrow> t = text"
  shows "case read_config f of
      Some text \<Rightarrow> \<exists>document updated. yl_document y text = Some document \<and> saved_context_exists document name \<and>
        yl_encode y updated = Some encoded \<and> map_of updated = (map_of document)(''current-context'' \<mapsto> JStr name)
    | None \<Rightarrow> file_missing f \<and> name = default_context_name \<and> yl_encode_config y default_config = Some encoded"
proof -
  from shared_steps_inv [OF assms(1) begin_update_inv] have iv: "update_inv y sha name (f, Update_Install encoded)" .
  show ?thesis
  proof (cases "read_config f")
    case None
    with iv show ?thesis by (simp add: derived_def default_text_def)
  next
    case (Some raw)
    with iv obtain t where "fingerprint_bytes sha t = fingerprint_bytes sha raw" "replaces y name t encoded"
      by (auto simp: derived_def)
    with assms(2) [OF Some] have "replaces y name raw encoded" by blast
    with Some show ?thesis by (force simp: replaces_def with_current_def)
  qed
qed

text \<open>A library whose texts are the documents, and a file with two contexts.\<close>

definition sample_yaml :: yaml_library where
  "sample_yaml = \<lparr> yl_config = (\<lambda>_. None), yl_document = (\<lambda>t. case json_unmarshal t of Some (JObj m) \<Rightarrow> Some m | _ \<Rightarrow> None),
     yl_encode = (\<lambda>m. Some (json_text (JObj m))), yl_encode_config = (\<lambda>_. None) \<rparr>"

definition sample_document :: jargs where
  "sample_document = [(''contexts'', JObj [(''dev'', JNull), (''prod'', JNull)]), (''extra'', JBool True)]"

definition sample_text :: string where "sample_text = json_text (JObj sample_document)"

lemma sample_decodes: "yl_document sample_yaml sample_text = Some sample_document"
  by code_simp

lemma sample_updates:
  "updated_text sample_yaml False ''prod'' sample_text = Inr (json_text (JObj (with_current ''prod'' sample_document)))"
proof -
  have "saved_context_exists sample_document ''prod''" by code_simp
  with sample_decodes show ?thesis by (simp add: updated_text_def validate_raw_context_names_def sample_yaml_def)
qed

lemma sample_run:
  "(shared_step sample_yaml id False ''prod'')\<^sup>*\<^sup>* (File_Text sample_text, begin_update ''prod'')
     (File_Text sample_text, Update_Install (json_text (JObj (with_current ''prod'' sample_document))))"
proof -
  let ?e = "json_text (JObj (with_current ''prod'' sample_document))"
  let ?f = "File_Text sample_text" and ?fp = "Some (fingerprint_bytes id sample_text)"
  have b: "begin_update ''prod'' = Update_Inspect" by code_simp
  have 1: "shared_step sample_yaml id False ''prod'' (?f, Update_Inspect) (?f, Update_Read)"
    using shared_step.own [OF update_step.inspect [of sample_yaml id False "''prod''" ?f]] by (simp add: inspect_file_def)
  have 2: "shared_step sample_yaml id False ''prod'' (?f, Update_Read) (?f, Update_Write ?e ?fp)"
    using shared_step.own [OF update_step.read [of sample_yaml id False "''prod''" ?f]]
    by (simp add: read_original_def sample_updates)
  have 3: "shared_step sample_yaml id False ''prod'' (?f, Update_Write ?e ?fp) (?f, Update_Recheck ?e ?fp)"
    by (rule shared_step.own [OF update_step.written])
  have 4: "shared_step sample_yaml id False ''prod'' (?f, Update_Recheck ?e ?fp) (?f, Update_Install ?e)"
    using shared_step.own [OF update_step.recheck [of sample_yaml id False "''prod''" ?f ?e ?fp]] by (simp add: recheck_file_def)
  show ?thesis unfolding b
    by (rule converse_rtranclp_into_rtranclp, rule 1, rule converse_rtranclp_into_rtranclp, rule 2,
        rule converse_rtranclp_into_rtranclp, rule 3, rule r_into_rtranclp, rule 4)
qed

theorem saved_default_keeps_changes_witness:
  "\<exists>updated. yl_encode sample_yaml updated = Some (json_text (JObj (with_current ''prod'' sample_document))) \<and>
     map_of updated = (map_of sample_document)(''current-context'' \<mapsto> JStr ''prod'')"
proof -
  have unique: "t = r" if "read_config (File_Text sample_text) = Some r" "fingerprint_bytes id t = fingerprint_bytes id r" for t r
    using that by (simp add: fingerprint_bytes_def hex_encode_inj)
  from saved_default_keeps_changes [OF sample_run unique] sample_decodes show ?thesis by auto
qed

text \<open>A change between the last check and the rename is lost, whatever it is.\<close>

lemma change_before_rename_lost:
  "update_step y sha windows name (File_Text other, Update_Install encoded) (File_Text encoded, Update_Done None)"
  by (rule update_step.installed)

end
