(* ===== verification/Cli_Root.thy ===== *)
theory Cli_Root
  imports Config Cli_Session
begin

text \<open>
  The start of every bridgectl command: internal/cli/root.go with the selection of the context,
  and internal/cli/mcp.go with the launch of a management session and the check a child makes
  of the selection it was started with. The environment is a function that reads an unset
  variable as empty.
\<close>

subsection \<open>Errors of the command line\<close>

record cli_exit =
  ce_exit :: int
  ce_name :: string
  ce_text :: string
  ce_hint :: string

definition new_cli_error :: "int \<Rightarrow> string \<Rightarrow> string \<Rightarrow> string \<Rightarrow> cli_exit" where
  "new_cli_error code name message suggestion = \<lparr> ce_exit = code, ce_name = name, ce_text = message, ce_hint = suggestion \<rparr>"

text \<open>An error that has no envelope ends with exit code 1.\<close>

datatype command_error = Actionable cli_exit | Plain_Error config_error

definition code_not_found :: int where "code_not_found = 3"
definition code_conflict :: int where "code_conflict = 5"
definition code_precond_fail :: int where "code_precond_fail = 7"
definition code_bad_args :: int where "code_bad_args = 2"

definition context_changed_error :: command_error where
  "context_changed_error = Actionable (new_cli_error code_precond_fail ''MCP_CONTEXT_CHANGED''
     ''the management MCP session selection no longer matches the saved configuration''
     ''Restart the management MCP process to adopt the changed context, endpoint, or credential.'')"

text \<open>The text of the not-found error quotes the context, and is left out.\<close>

definition context_missing_error :: command_error where
  "context_missing_error = Actionable (new_cli_error code_not_found ''CONTEXT_NOT_FOUND'' []
     (''Run '' @ [CHR 0x27] @ ''bridgectl context list'' @ [CHR 0x27] @ '' or select a configured context with --context.''))"

subsection \<open>Tokens and snapshots\<close>

definition client_token :: "string \<Rightarrow> string \<Rightarrow> string \<Rightarrow> string" where
  "client_token explicit environment contextToken =
     (if explicit \<noteq> [] then explicit else if environment \<noteq> [] then environment else contextToken)"

definition bridge_api_token :: "string \<Rightarrow> (string \<Rightarrow> string) \<Rightarrow> bridge_config \<Rightarrow> string" where
  "bridge_api_token tokenFlag getenv cfg = client_token tokenFlag (getenv ''BRIDGE_API_TOKEN'')
     (case effective_context cfg of Inl _ \<Rightarrow> [] | Inr ctx \<Rightarrow> bc_api_token ctx)"

definition selection :: "string \<Rightarrow> (string \<Rightarrow> string) \<Rightarrow> bridge_config \<Rightarrow> bridge_context \<Rightarrow> snapshot" where
  "selection tokenFlag getenv cfg ctx =
     \<lparr> sn_context_name = bf_current cfg, sn_server = bc_server ctx, sn_mcp_server = bc_mcp_server ctx,
       sn_api_token = bridge_api_token tokenFlag getenv cfg \<rparr>"

definition child_snapshot_requested :: "(string \<Rightarrow> string) \<Rightarrow> bool" where
  "child_snapshot_requested getenv \<longleftrightarrow> getenv child_snapshot_env \<noteq> []"

definition verify_child_snapshot :: "(string \<Rightarrow> string) \<Rightarrow> string \<Rightarrow> (string \<Rightarrow> string) \<Rightarrow> bridge_config \<Rightarrow> bridge_context \<Rightarrow> command_error option" where
  "verify_child_snapshot sha tokenFlag getenv cfg ctx =
     (if getenv child_snapshot_env = [] then None
      else if getenv child_snapshot_env \<noteq> fingerprint sha (selection tokenFlag getenv cfg ctx) then Some context_changed_error
      else None)"

subsection \<open>Before a command runs\<close>

definition selection_error :: "(string \<Rightarrow> string) \<Rightarrow> config_error \<Rightarrow> command_error" where
  "selection_error getenv e =
     (if is_context_not_found e then
        (if child_snapshot_requested getenv then context_changed_error else context_missing_error)
      else Plain_Error e)"

text \<open>\<open>PersistentPreRunE\<close>: what a command works with, or why it does not run.\<close>

definition pre_run ::
  "yaml_library \<Rightarrow> bool \<Rightarrow> (string \<Rightarrow> string) \<Rightarrow> string \<Rightarrow> string \<Rightarrow> (string \<Rightarrow> string) \<Rightarrow> config_file \<Rightarrow>
     command_error + bridge_config \<times> bridge_context" where
  "pre_run y windows sha contextFlag tokenFlag getenv f = (case load_config y windows getenv f of
       Inl e \<Rightarrow> Inl (selection_error getenv e)
     | Inr cfg \<Rightarrow>
         let cfg = (if contextFlag \<noteq> [] then cfg\<lparr> bf_current := contextFlag \<rparr> else cfg) in
         (case effective_context cfg of
            Inl e \<Rightarrow> Inl (selection_error getenv e)
          | Inr ctx \<Rightarrow> (case verify_child_snapshot sha tokenFlag getenv cfg ctx of
              Some e \<Rightarrow> Inl e
            | None \<Rightarrow> Inr (cfg, ctx))))"

text \<open>\<open>parseAllowWrite\<close>: the groups of every flag, trimmed, without blanks and repetitions, in order.\<close>

fun first_occurrences :: "string list \<Rightarrow> string list \<Rightarrow> string list" where
  "first_occurrences seen [] = []"
| "first_occurrences seen (p # ps) =
     (if p = [] \<or> p \<in> set seen then first_occurrences seen ps else p # first_occurrences (p # seen) ps)"

definition parse_allow_write :: "string list \<Rightarrow> string list" where
  "parse_allow_write flags = first_occurrences [] (concat (map (\<lambda>v. map trim_space (split_at_char (CHR '','') v)) flags))"

lemma first_occurrences_set: "set (first_occurrences seen ps) = set ps - set seen - {[]}"
  by (induction seen ps rule: first_occurrences.induct) auto

lemma first_occurrences_distinct: "distinct (first_occurrences seen ps)"
  by (induction seen ps rule: first_occurrences.induct) (auto simp: first_occurrences_set)

text \<open>\<open>runMCP\<close> up to the session: its snapshot and its groups.\<close>

definition run_mcp ::
  "bool \<Rightarrow> string list \<Rightarrow> string \<Rightarrow> (string \<Rightarrow> string) \<Rightarrow> bridge_config \<Rightarrow> bridge_context \<Rightarrow>
     (command_error + string) + snapshot \<times> string list" where
  "run_mcp stdio allowWrite tokenFlag getenv cfg ctx =
     (if \<not> stdio then Inl (Inl (Actionable (new_cli_error code_bad_args ''MCP_STDIO_REQUIRED''
          ''the mcp command requires --stdio'' (''Run '' @ [CHR 0x27] @ ''bridgectl mcp --stdio'' @ [CHR 0x27] @ ''.''))))
      else case parse_write_groups (parse_allow_write allowWrite) of
          Inl g \<Rightarrow> Inl (Inr g)
        | Inr groups \<Rightarrow> Inr (selection tokenFlag getenv cfg ctx, groups))"

subsection \<open>What a child selects\<close>

text \<open>A started program reads the last entry of a variable.\<close>

definition child_getenv :: "string list \<Rightarrow> string \<Rightarrow> string" where
  "child_getenv entries key = (case entries_of key entries of [] \<Rightarrow> [] | vs \<Rightarrow> last vs)"

lemma child_getenv_pinned:
  "map_of (pinned_values sha s) key = Some v \<Longrightarrow> child_getenv (child_environment sha s base) key = v"
  by (simp add: child_getenv_def entries_of_child)

lemmas pinned_lookups = child_getenv_pinned pinned_values_def child_snapshot_env_def

lemma child_pinned_env:
  "child_getenv (child_environment sha s base) ''BRIDGE_CONTEXT'' = sn_context_name s"
  "child_getenv (child_environment sha s base) ''BRIDGE_SERVER'' = sn_server s"
  "child_getenv (child_environment sha s base) ''BRIDGE_MCP_SERVER'' = sn_mcp_server s"
  "child_getenv (child_environment sha s base) ''BRIDGE_API_TOKEN'' = sn_api_token s"
  "child_getenv (child_environment sha s base) child_snapshot_env = fingerprint sha s"
  by (simp_all add: pinned_lookups)

lemma fingerprint_not_empty: "length (sha x) = 32 \<Longrightarrow> hex_encode (sha x) \<noteq> []"
  by (cases "sha x") (auto simp: hex_encode_def)

lemma load_config_eq:
  "load_config y windows getenv f = Inr cfg \<longleftrightarrow>
     (\<exists>loaded. load_file y windows getenv f = Inr loaded \<and>
        (let fcfg = (case loaded of None \<Rightarrow> default_config | Some c \<Rightarrow> c) in
         validate_platform_contexts windows (map fst (bf_contexts fcfg)) = None \<and>
         cfg = apply_env_overrides getenv fcfg \<and> (\<exists>ctx. effective_context cfg = Inr ctx)))"
  by (auto simp: load_config_def Let_def split: sum.splits option.splits)

text \<open>The selected context is overridden, the others are the file's.\<close>

lemma apply_env_overrides_contexts:
  assumes "map_of (bf_contexts fcfg) (env_or getenv ''BRIDGE_CONTEXT'' (bf_current fcfg)) = Some ctx"
    and "validate_context_name (env_or getenv ''BRIDGE_CONTEXT'' (bf_current fcfg))"
  shows "bf_current (apply_env_overrides getenv fcfg) = env_or getenv ''BRIDGE_CONTEXT'' (bf_current fcfg)"
    "map_of (bf_contexts (apply_env_overrides getenv fcfg)) =
       (map_of (bf_contexts fcfg))(env_or getenv ''BRIDGE_CONTEXT'' (bf_current fcfg) \<mapsto> override_context getenv ctx)"
  using assms by (simp_all add: apply_env_overrides_def Let_def active_context_def effective_context_def resolve_context_def)

lemma overridden_current:
  assumes "effective_context (apply_env_overrides getenv fcfg) = Inr ctx"
  obtains fctx where "map_of (bf_contexts fcfg) (env_or getenv ''BRIDGE_CONTEXT'' (bf_current fcfg)) = Some fctx"
    "validate_context_name (env_or getenv ''BRIDGE_CONTEXT'' (bf_current fcfg))"
proof -
  have "bf_current (apply_env_overrides getenv fcfg) = env_or getenv ''BRIDGE_CONTEXT'' (bf_current fcfg)"
    by (simp add: apply_env_overrides_def Let_def)
  with assms show thesis using that
    by (auto simp: effective_context_eq apply_env_overrides_def Let_def split: if_splits)
qed

text \<open>A selection keeps what the file says where the session's value is empty.\<close>

lemma launch_selection:
  assumes "pre_run y windows sha contextFlag tokenFlag getenv f = Inr (cfg, ctx)"
  obtains loaded fcfg fctx where "load_file y windows getenv f = Inr loaded" "fcfg = (case loaded of None \<Rightarrow> default_config | Some c \<Rightarrow> c)"
    "validate_platform_contexts windows (map fst (bf_contexts fcfg)) = None"
    "validate_context_name (bf_current cfg)" "map_of (bf_contexts fcfg) (bf_current cfg) = Some fctx"
    "ctx = fctx \<or> ctx = override_context getenv fctx" "effective_context cfg = Inr ctx"
proof -
  from assms obtain c1 ctx1 where l: "load_config y windows getenv f = Inr c1" "effective_context c1 = Inr ctx1"
    and cfg: "cfg = (if contextFlag \<noteq> [] then c1\<lparr> bf_current := contextFlag \<rparr> else c1)" "effective_context cfg = Inr ctx"
    by (auto simp: pre_run_def load_config_eq Let_def split: sum.splits option.splits)
  from l(1) obtain loaded where ld: "load_file y windows getenv f = Inr loaded"
    "validate_platform_contexts windows (map fst (bf_contexts (case loaded of None \<Rightarrow> default_config | Some c \<Rightarrow> c))) = None"
    "c1 = apply_env_overrides getenv (case loaded of None \<Rightarrow> default_config | Some c \<Rightarrow> c)"
    by (auto simp: load_config_eq Let_def)
  let ?file = "case loaded of None \<Rightarrow> default_config | Some c \<Rightarrow> c"
  from overridden_current [OF l(2) [unfolded ld(3)]] obtain octx
    where o: "map_of (bf_contexts ?file) (env_or getenv ''BRIDGE_CONTEXT'' (bf_current ?file)) = Some octx"
      "validate_context_name (env_or getenv ''BRIDGE_CONTEXT'' (bf_current ?file))" .
  have contexts: "map_of (bf_contexts cfg) = (map_of (bf_contexts ?file))(env_or getenv ''BRIDGE_CONTEXT'' (bf_current ?file) \<mapsto> override_context getenv octx)"
    using apply_env_overrides_contexts(2) [OF o] cfg(1) ld(3) by simp
  from cfg(2) have ctx: "validate_context_name (bf_current cfg)" "map_of (bf_contexts cfg) (bf_current cfg) = Some ctx"
    by (simp_all add: effective_context_eq)
  show thesis
  proof (cases "bf_current cfg = env_or getenv ''BRIDGE_CONTEXT'' (bf_current ?file)")
    case True
    with contexts ctx(2) o(1) that [OF ld(1) refl ld(2) ctx(1) _ _ cfg(2), of octx] show thesis by simp
  next
    case False
    with contexts ctx(2) that [OF ld(1) refl ld(2) ctx(1) _ _ cfg(2), of ctx] show thesis by simp
  qed
qed

lemma env_or_empty [simp]: "env_or getenv key old = [] \<longleftrightarrow> getenv key = [] \<and> old = []"
  by (simp add: env_or_def)

text \<open>
  C5: a management session keeps its selection. A command that a session starts and that gets
  past its start works on the session's context, endpoints and credential, whatever the saved
  configuration has become; and if the file still reads as it did at launch, every command the
  session starts does get past its start.
\<close>

theorem session_selection_kept:
  assumes launch: "pre_run y windows sha contextFlag tokenFlag getenv f = Inr (cfg, ctx)"
    and digest: "\<And>x. length (sha x) = 32" "\<And>t. sha t = sha (fingerprint_text session) \<Longrightarrow> t = fingerprint_text session"
    and session: "session = selection tokenFlag getenv cfg ctx" "child = child_getenv (child_environment sha session base)"
  shows "(case pre_run y windows sha [] [] child f' of
       Inr (cfg', ctx') \<Rightarrow> bf_current cfg' = bf_current cfg \<and> bc_server ctx' = bc_server ctx \<and>
         bc_mcp_server ctx' = bc_mcp_server ctx \<and> bridge_api_token [] child cfg' = bridge_api_token tokenFlag getenv cfg
     | Inl _ \<Rightarrow> load_file y windows child f' \<noteq> load_file y windows getenv f)"
proof (cases "pre_run y windows sha [] [] child f'")
  case (Inr r)
  obtain cfg' ctx' where r: "r = (cfg', ctx')" by (cases r)
  have "child child_snapshot_env = fingerprint sha session" "fingerprint sha session \<noteq> []"
    by (simp_all add: session(2) child_pinned_env(5) fingerprint_def fingerprint_not_empty digest(1))
  with Inr r have "fingerprint sha session = fingerprint sha (selection [] child cfg' ctx')"
    by (auto simp: pre_run_def verify_child_snapshot_def Let_def split: sum.splits option.splits if_splits)
  then have "sha (fingerprint_text (selection [] child cfg' ctx')) = sha (fingerprint_text session)"
    by (simp add: fingerprint_def hex_encode_inj)
  then have "selection [] child cfg' ctx' = session" using digest(2) fingerprint_text_inj by blast
  with Inr r show ?thesis by (simp add: session(1) selection_def)
next
  case (Inl e)
  have False if same: "load_file y windows child f' = load_file y windows getenv f"
  proof -
    obtain loaded fcfg fctx where l: "load_file y windows getenv f = Inr loaded" "fcfg = (case loaded of None \<Rightarrow> default_config | Some c \<Rightarrow> c)"
      "validate_platform_contexts windows (map fst (bf_contexts fcfg)) = None"
      "validate_context_name (bf_current cfg)" "map_of (bf_contexts fcfg) (bf_current cfg) = Some fctx"
      "ctx = fctx \<or> ctx = override_context getenv fctx" "effective_context cfg = Inr ctx"
      using launch_selection [OF launch] by blast
    have env: "child ''BRIDGE_CONTEXT'' = bf_current cfg" "child ''BRIDGE_SERVER'' = bc_server ctx"
      "child ''BRIDGE_MCP_SERVER'' = bc_mcp_server ctx" "child ''BRIDGE_API_TOKEN'' = bridge_api_token tokenFlag getenv cfg"
      by (simp_all add: session child_pinned_env selection_def)
    have "bf_current cfg \<noteq> []" using l(4) by (auto simp: validate_context_name_def)
    with env(1) have cur: "env_or child ''BRIDGE_CONTEXT'' (bf_current fcfg) = bf_current cfg" by (simp add: env_or_def)
    let ?c = "apply_env_overrides child fcfg"
    have c: "bf_current ?c = bf_current cfg" "map_of (bf_contexts ?c) (bf_current cfg) = Some (override_context child fctx)"
      using apply_env_overrides_contexts [of fcfg child fctx, unfolded cur, OF l(5) l(4)] by simp_all
    then have eff: "effective_context ?c = Inr (override_context child fctx)" by (simp add: effective_context_eq l(4))
    then have load: "load_config y windows child f' = Inr ?c"
      using l(1,2,3) same by (auto simp: load_config_eq Let_def)
    have server: "bc_server (override_context child fctx) = bc_server ctx"
      "bc_mcp_server (override_context child fctx) = bc_mcp_server ctx"
      using l(6) env(2,3) by (auto simp: override_context_def env_or_def split: if_splits)
    have "bridge_api_token tokenFlag getenv cfg = [] \<Longrightarrow> bc_api_token fctx = []"
      using l(6,7) by (auto simp: bridge_api_token_def client_token_def override_context_def env_or_def split: if_splits)
    then have token: "bridge_api_token [] child ?c = bridge_api_token tokenFlag getenv cfg"
      using eff env(4) by (auto simp: bridge_api_token_def [of "[]"] client_token_def override_context_def env_or_def)
    have "selection [] child ?c (override_context child fctx) = session"
      by (simp add: session(1) selection_def c server token)
    then have "verify_child_snapshot sha [] child ?c (override_context child fctx) = None"
      by (simp add: verify_child_snapshot_def session(2) child_pinned_env(5))
    with load eff Inl show False by (simp add: pre_run_def Let_def)
  qed
  with Inl show ?thesis by auto
qed


text \<open>A session launched with a token flag on the built-in defaults, no file being there.\<close>

definition sample_selection :: snapshot where
  "sample_selection = \<lparr> sn_context_name = ''local'', sn_server = ''http://localhost:8082'',
     sn_mcp_server = ''http://localhost:8080'', sn_api_token = ''erpbt_1'' \<rparr>"

definition sample_digest :: "string \<Rightarrow> string" where
  "sample_digest t = replicate 32 (if t = fingerprint_text sample_selection then CHR ''a'' else CHR ''b'')"

theorem session_selection_kept_witness:
  "\<exists>cfg ctx. pre_run sample_yaml False sample_digest [] [] (child_getenv (child_environment sample_digest sample_selection [''BRIDGE_SERVER=http://other'']))
       File_Missing = Inr (cfg, ctx) \<and> bf_current cfg = ''local'' \<and> bc_server ctx = ''http://localhost:8082''"
proof -
  let ?env = "\<lambda>_ :: string. [] :: string"
  let ?child = "child_getenv (child_environment sample_digest sample_selection [''BRIDGE_SERVER=http://other''])"
  have launch: "pre_run sample_yaml False sample_digest [] ''erpbt_1'' ?env File_Missing = Inr (default_config, default_context)"
    by code_simp
  have session: "sample_selection = selection ''erpbt_1'' ?env default_config default_context" by code_simp
  have digest: "length (sample_digest x) = 32"
    "sample_digest t = sample_digest (fingerprint_text sample_selection) \<Longrightarrow> t = fingerprint_text sample_selection" for x t
    by (auto simp: sample_digest_def split: if_splits)
  have same: "load_file sample_yaml False ?child File_Missing = load_file sample_yaml False ?env File_Missing"
    by (simp add: load_file_def)
  from session_selection_kept [OF launch digest session refl, of "[''BRIDGE_SERVER=http://other'']" File_Missing]
  obtain cfg ctx where "pre_run sample_yaml False sample_digest [] [] ?child File_Missing = Inr (cfg, ctx)"
    "bf_current cfg = bf_current default_config" "bc_server ctx = bc_server default_context"
    by (auto simp: same split: sum.splits)
  then show ?thesis by (simp add: default_config_def default_context_name_def default_context_def)
qed

end
