(* ===== verification/Remote_Text.thy ===== *)
theory Remote_Text
  imports Cli_Root Cli_Result "HOL-Library.Monad_Syntax"
begin

text \<open>
  The error a control plane answers with, as internal/bridgeclient/client.go shows it: the
  envelope is decoded from a bounded body, and addresses and credentials are replaced in its
  texts. The four patterns are written as matchers; texts are ASCII.
\<close>

subsection \<open>Patterns\<close>

text \<open>The classes \<open>\s\<close> and \<open>\w\<close> of package regexp.\<close>

definition re_space :: "char \<Rightarrow> bool" where
  "re_space c \<longleftrightarrow> c \<in> {CHR 0x09, CHR 0x0A, CHR 0x0C, CHR 0x0D, CHR '' ''}"

definition re_word :: "char \<Rightarrow> bool" where
  "re_word c \<longleftrightarrow> is_letter c \<or> is_digit c \<or> c = CHR ''_''"

text \<open>A boundary before a character that belongs to a word.\<close>

definition word_starts :: "char option \<Rightarrow> bool" where
  "word_starts before \<longleftrightarrow> (case before of None \<Rightarrow> True | Some c \<Rightarrow> \<not> re_word c)"

text \<open>A keyword without regard to case, with what follows it.\<close>

definition after_keyword :: "string \<Rightarrow> string \<Rightarrow> (string \<times> string) option" where
  "after_keyword kw s =
     (if to_lower (take (length kw) s) = kw then Some (take (length kw) s, drop (length kw) s) else None)"

fun first_keyword :: "string list \<Rightarrow> string \<Rightarrow> (string \<times> string) option" where
  "first_keyword [] s = None"
| "first_keyword (kw # kws) s = (case after_keyword kw s of None \<Rightarrow> first_keyword kws s | Some r \<Rightarrow> Some r)"

text \<open>
  A matcher looks at a position, with the character before it, and answers with the
  replacement and the rest of the text. \<open>ReplaceAllString\<close> replaces from left to right.
\<close>

type_synonym matcher = "char option \<Rightarrow> string \<Rightarrow> (string \<times> string) option"

function replace_matches :: "matcher \<Rightarrow> char option \<Rightarrow> string \<Rightarrow> string" where
  "replace_matches m before [] = []"
| "replace_matches m before (c # s) = (case m before (c # s) of
       Some (new, rest) \<Rightarrow>
         if length rest < length (c # s)
         then new @ replace_matches m (Some (last (take (length (c # s) - length rest) (c # s)))) rest
         else c # replace_matches m (Some c) s
     | None \<Rightarrow> c # replace_matches m (Some c) s)"
  by pat_completeness auto
termination by (relation "measure (\<lambda>(_, _, s). length s)") auto

declare replace_matches.simps(2) [simp del]

definition url_char :: "char \<Rightarrow> bool" where
  "url_char c \<longleftrightarrow> \<not> re_space c \<and> c \<notin> {CHR ''<'', CHR ''>'', CHR 0x22, CHR 0x27}"

definition value_char :: "char \<Rightarrow> bool" where
  "value_char c \<longleftrightarrow> \<not> re_space c \<and> c \<noteq> CHR '','' \<and> c \<noteq> CHR '';''"

definition query_char :: "char \<Rightarrow> bool" where
  "query_char c \<longleftrightarrow> value_char c \<and> c \<noteq> CHR ''&''"

text \<open>One or more characters of a class.\<close>

definition some_run :: "(char \<Rightarrow> bool) \<Rightarrow> string \<Rightarrow> string option" where
  "some_run P s = (case s of c # _ \<Rightarrow> if P c then Some (dropWhile P s) else None | [] \<Rightarrow> None)"

definition url_match :: matcher where
  "url_match before s = (case first_keyword [''https://'', ''http://''] s of
       None \<Rightarrow> None
     | Some (_, r) \<Rightarrow> map_option (Pair ''[REDACTED_URL]'') (some_run url_char r))"

definition bearer_match :: matcher where
  "bearer_match before s =
     (if \<not> word_starts before then None
      else case after_keyword ''bearer'' s of
          None \<Rightarrow> None
        | Some (_, r) \<Rightarrow> map_option (Pair ''Bearer [REDACTED]'') (Option.bind (some_run re_space r) (some_run value_char)))"

definition secret_headers :: "string list" where
  "secret_headers = [''authorization'', ''proxy-authorization'', ''cookie'', ''set-cookie'', ''x-api-key'', ''api-key'']"

definition header_match :: matcher where
  "header_match before s =
     (if \<not> word_starts before then None
      else case first_keyword secret_headers s of
          None \<Rightarrow> None
        | Some (name, r) \<Rightarrow> (case dropWhile re_space r of
            [] \<Rightarrow> None
          | c # r' \<Rightarrow>
              if c = CHR '':'' \<or> c = CHR ''=''
              then map_option (Pair (name @ '': [REDACTED]'')) (some_run value_char (dropWhile re_space r'))
              else None))"

definition secret_words :: "string list" where
  "secret_words = [''token'', ''secret'', ''password'', ''credential'', ''api-key'', ''api_key'', ''apikey'']"

definition secret_match :: matcher where
  "secret_match before s = (case first_keyword secret_words s of
       None \<Rightarrow> None
     | Some (name, r) \<Rightarrow> (case r of
         [] \<Rightarrow> None
       | c # r' \<Rightarrow> if c = CHR ''='' then map_option (Pair (name @ ''=[REDACTED]'')) (some_run query_char r') else None))"

definition sanitize_remote_text :: "string \<Rightarrow> string" where
  "sanitize_remote_text s =
     replace_matches secret_match None (replace_matches header_match None
      (replace_matches bearer_match None (replace_matches url_match None s)))"

subsection \<open>The error envelope\<close>

record remote_error =
  re_code :: string
  re_message :: string
  re_suggestion :: string
  re_number :: int
  re_status :: int

definition remote_failure :: "int \<Rightarrow> string \<Rightarrow> string \<Rightarrow> remote_error" where
  "remote_failure status message suggestion =
     \<lparr> re_code = ''REMOTE_ERROR'', re_message = message, re_suggestion = suggestion, re_number = status, re_status = status \<rparr>"

definition fallback_texts :: "int \<Rightarrow> string \<times> string" where
  "fallback_texts status =
     (if status = 401 then (''the server rejected the authentication credentials'', ''set a valid --token, BRIDGE_API_TOKEN, or context api-token'')
      else if status = 403 then (''the server denied this operation'', ''use a token with the required scope or administrator permission'')
      else if status = 404 then (''the requested control-plane resource was not found'', ''check the control-plane root and resource name'')
      else if status = 409 then (''the request conflicts with existing state'', ''inspect the existing resource before retrying'')
      else if status = 422 then (''the request failed validation'', ''review the resource fields and retry'')
      else if status = 502 \<or> status = 504 then (''the upstream service could not be reached'', ''check ERPBridge connectivity and upstream health'')
      else if status = 503 then (''the control-plane service is unavailable'', ''check ERPBridge health and retry'')
      else (''the server rejected the request'', ''inspect the selected ERPBridge context and retry''))"

definition fallback_remote_error :: "int \<Rightarrow> remote_error" where
  "fallback_remote_error status = (case fallback_texts status of (m, s) \<Rightarrow> remote_failure status m s)"

text \<open>The pattern \<open>^[A-Z][A-Z0-9_]{1,63}$\<close>.\<close>

definition remote_code_ok :: "string \<Rightarrow> bool" where
  "remote_code_ok code = (case code of
       [] \<Rightarrow> False
     | c # cs \<Rightarrow> is_upper c \<and> 1 \<le> length cs \<and> length cs \<le> 63 \<and> list_all (\<lambda>c. is_upper c \<or> is_digit c \<or> c = CHR ''_'') cs)"

definition max_remote_error_bytes :: nat where "max_remote_error_bytes = 16384"

definition decode_envelope :: "string \<Rightarrow> (string \<times> string \<times> string \<times> int) option" where
  "decode_envelope body = do {
     v \<leftarrow> json_unmarshal body; m \<leftarrow> wire_object v;
     code \<leftarrow> field m ''error'' wire_string; message \<leftarrow> field m ''message'' wire_string;
     suggestion \<leftarrow> field m ''suggestion'' wire_string; number \<leftarrow> field m ''code'' wire_int;
     Some (code, message, suggestion, number) }"

text \<open>
  \<open>DecodeRemoteErrorResponse\<close> of a status and what reading its body gave, \<open>None\<close> when that
  failed. An absent response has status 502 and a text of its own.
\<close>

definition no_response_error :: remote_error where
  "no_response_error = \<lparr> re_code = ''REMOTE_ERROR'', re_message = ''the server returned no response'', re_suggestion = [],
     re_number = 502, re_status = 502 \<rparr>"

definition decode_remote_error :: "(int \<times> string option) option \<Rightarrow> remote_error option" where
  "decode_remote_error response = (case response of
       None \<Rightarrow> Some no_response_error
     | Some (status, body) \<Rightarrow>
         if status < 400 then None
         else Some (case body of
             None \<Rightarrow> fallback_remote_error status
           | Some b \<Rightarrow>
               if max_remote_error_bytes < length b then fallback_remote_error status
               else (case decode_envelope b of
                   None \<Rightarrow> fallback_remote_error status
                 | Some (code, message, suggestion, number) \<Rightarrow>
                     if \<not> remote_code_ok code \<or> trim_space message = [] then fallback_remote_error status
                     else \<lparr> re_code = code, re_message = sanitize_remote_text message, re_suggestion = sanitize_remote_text suggestion,
                            re_number = (if number \<le> 0 then status else number), re_status = status \<rparr>)))"

subsection \<open>What a text still shows\<close>

lemma after_keyword_Some: "after_keyword kw s = Some (name, r) \<longleftrightarrow> s = name @ r \<and> to_lower name = kw"
proof
  assume "after_keyword kw s = Some (name, r)"
  then have "name = take (length kw) s" "r = drop (length kw) s" "to_lower (take (length kw) s) = kw"
    by (auto simp: after_keyword_def split: if_splits)
  then show "s = name @ r \<and> to_lower name = kw" by simp
next
  assume "s = name @ r \<and> to_lower name = kw"
  moreover from this have "length kw = length name" by (auto simp: to_lower_def)
  ultimately show "after_keyword kw s = Some (name, r)" by (simp add: after_keyword_def)
qed

lemma first_keyword_Some: "first_keyword kws s = Some (name, r) \<Longrightarrow> s = name @ r \<and> to_lower name \<in> set kws"
  by (induction kws) (auto simp: after_keyword_Some split: option.splits)

definition no_prefixes :: "string list \<Rightarrow> bool" where
  "no_prefixes kws \<longleftrightarrow> (\<forall>a \<in> set kws. \<forall>b \<in> set kws. has_prefix a b \<longrightarrow> a = b)"

lemma first_keyword_at:
  assumes "no_prefixes kws" and "to_lower kw \<in> set kws"
  shows "first_keyword kws (kw @ r) = Some (kw, r)"
proof (cases "first_keyword kws (kw @ r)")
  case None
  have self: "after_keyword (to_lower kw) (kw @ r) \<noteq> None"
    using after_keyword_Some [of "to_lower kw" "kw @ r" kw r] by simp
  have "to_lower kw \<in> set ks \<Longrightarrow> first_keyword ks (kw @ r) \<noteq> None" for ks
    using self by (induction ks) (auto split: option.splits)
  with None assms(2) show ?thesis by blast
next
  case (Some x)
  obtain name r' where x: "x = (name, r')" by (cases x)
  from first_keyword_Some [OF Some [unfolded x]] have e: "kw @ r = name @ r'" "to_lower name \<in> set kws" by auto
  have prefix: "has_prefix (to_lower a) (to_lower b)" if "a = b @ c" for a b c
    using that by (simp add: has_prefix_iff to_lower_def)
  from e(1) obtain c where "kw = name @ c \<or> name = kw @ c" by (auto simp: append_eq_append_conv2)
  with prefix assms e(2) have "to_lower kw = to_lower name" unfolding no_prefixes_def by metis
  then have "length kw = length name" by (metis length_map to_lower_def)
  with e(1) x Some show ?thesis by simp
qed

lemma secret_words_plain: "no_prefixes secret_words" "\<forall>kw \<in> set secret_words. kw \<noteq> [] \<and> list_all (\<lambda>c. c \<in> set ''abcdefghijklmnopqrstuvwxyz-_'') kw"
  by code_simp+

lemma secret_word_chars:
  assumes "to_lower kw \<in> set secret_words"
  shows "kw \<noteq> []" "CHR ''='' \<notin> set kw" "CHR '']'' \<notin> set kw" "query_char (hd kw)"
proof -
  have low: "\<forall>c \<in> set kw. lower_char c \<in> set ''abcdefghijklmnopqrstuvwxyz-_''" "kw \<noteq> []"
    using assms secret_words_plain(2) by (auto simp: to_lower_def list_all_iff)
  have bad: "lower_char (CHR ''='') = CHR ''=''" "lower_char (CHR '']'') = CHR '']''" by (simp_all add: lower_char_def)
  from low bad show "kw \<noteq> []" "CHR ''='' \<notin> set kw" "CHR '']'' \<notin> set kw" by (force, force, force)
  have "\<not> query_char c \<Longrightarrow> lower_char c \<notin> set ''abcdefghijklmnopqrstuvwxyz-_''" for c
    by (auto simp: query_char_def value_char_def re_space_def lower_char_def)
  with low show "query_char (hd kw)" by (metis hd_in_set)
qed

lemma secret_match_Some:
  "secret_match b s = Some (new, rest) \<Longrightarrow>
     \<exists>name d v. s = name @ ''='' @ d # v \<and> to_lower name \<in> set secret_words \<and> query_char d \<and> new = name @ ''=[REDACTED]'' \<and>
       rest = dropWhile query_char v"
  by (auto simp: secret_match_def some_run_def dest!: first_keyword_Some split: option.splits list.splits if_splits)

lemma secret_match_at:
  "to_lower kw \<in> set secret_words \<Longrightarrow> query_char d \<Longrightarrow> secret_match b (kw @ CHR ''='' # d # v) \<noteq> None"
  by (simp add: secret_match_def first_keyword_at [OF secret_words_plain(1)] some_run_def)

lemma secret_match_shorter: "secret_match b s = Some (new, rest) \<Longrightarrow> length rest < length s"
proof -
  assume "secret_match b s = Some (new, rest)"
  then obtain name d v where "s = name @ ''='' @ d # v" "rest = dropWhile query_char v" using secret_match_Some by blast
  moreover have "length (dropWhile query_char v) \<le> length v" by (rule length_dropWhile_le)
  ultimately show "length rest < length s" by simp
qed

text \<open>The pass over secrets does not look back.\<close>

lemma secret_pass:
  "replace_matches secret_match b (c # s) = (case secret_match None (c # s) of
     Some (new, rest) \<Rightarrow> new @ replace_matches secret_match None rest
   | None \<Rightarrow> c # replace_matches secret_match None s)"
proof -
  have before: "secret_match b t = secret_match None t" for b t by (simp add: secret_match_def)
  have "replace_matches secret_match b t = replace_matches secret_match None t" for b t
  proof (induction t arbitrary: b rule: measure_induct_rule [of length])
    case (less t)
    show ?case
    proof (cases t)
      case (Cons c s)
      have "replace_matches secret_match b' (c # s) = (case secret_match None (c # s) of
          Some (new, rest) \<Rightarrow> if length rest < length (c # s) then new @ replace_matches secret_match None rest
            else c # replace_matches secret_match None s
        | None \<Rightarrow> c # replace_matches secret_match None s)" for b'
      proof -
        have "replace_matches secret_match (Some x) t' = replace_matches secret_match None t'" if "length t' < length t" for x t'
          using that by (rule less.IH)
        then show ?thesis by (subst replace_matches.simps(2)) (simp add: before [of b'] Cons split: option.split)
      qed
      then show ?thesis by (simp add: Cons)
    qed simp
  qed
  note same = this
  show ?thesis
    using secret_match_shorter [of None "c # s"]
    by (subst replace_matches.simps(2)) (simp add: before [of b] same [of "Some _"] split: option.split prod.split)
qed

lemma first_split: "x \<notin> set a \<Longrightarrow> x \<notin> set b \<Longrightarrow> a @ x # s = b @ x # t \<longleftrightarrow> a = b \<and> s = t"
proof (induction a arbitrary: b)
  case Nil
  then show ?case by (cases b) auto
next
  case (Cons y a)
  then show ?case by (cases b) auto
qed

lemma append_split: "a @ b = p @ q \<Longrightarrow> (\<exists>r. b = r @ q \<and> p = a @ r) \<or> (\<exists>r. r \<noteq> [] \<and> a = p @ r \<and> r @ b = q)"
proof -
  assume "a @ b = p @ q"
  then obtain us where "a = p @ us \<and> us @ b = q \<or> a @ us = p \<and> b = us @ q" by (auto simp: append_eq_append_conv2)
  then show ?thesis by (cases "us = []") auto
qed

lemma append_inside: "r @ a = kw @ x # b \<Longrightarrow> x \<notin> set r \<Longrightarrow> \<exists>k. kw = r @ k"
  by (auto simp: append_eq_append_conv2 append_eq_Cons_conv)

lemma mark_inside:
  assumes "name @ x # mark = pre @ r" and "x \<notin> set mark" and "x \<in> set r"
  shows "\<exists>n. r = n @ x # mark \<and> set n \<subseteq> set name"
proof -
  from append_split [OF assms(1)] show ?thesis
  proof
    assume "\<exists>k. x # mark = k @ r \<and> pre = name @ k"
    then obtain k where k: "x # mark = k @ r" by blast
    with assms(2,3) have "k = []" by (cases k) auto
    with k show ?thesis by (intro exI [of _ "[]"]) simp
  next
    assume "\<exists>n. n \<noteq> [] \<and> name = pre @ n \<and> n @ x # mark = r"
    then show ?thesis by auto
  qed
qed

text \<open>The mark alone, up to the end of a value.\<close>

definition only_mark :: "string \<Rightarrow> bool" where
  "only_mark s \<longleftrightarrow> has_prefix s ''[REDACTED]'' \<and>
     (case drop (length ''[REDACTED]'') s of [] \<Rightarrow> True | c # _ \<Rightarrow> \<not> query_char c)"

lemma secret_pass_after:
  assumes "rest = dropWhile query_char w" and "out = ''[REDACTED]'' @ replace_matches secret_match None rest"
  shows "only_mark out"
proof (cases rest)
  case (Cons x r)
  then have x: "\<not> query_char x" using assms(1) hd_dropWhile [of query_char w] by simp
  have "secret_match None rest = None"
  proof (rule ccontr)
    assume "secret_match None rest \<noteq> None"
    then obtain new rest' where "secret_match None rest = Some (new, rest')" by auto
    from secret_match_Some [OF this] obtain name d v where "rest = name @ ''='' @ d # v" "to_lower name \<in> set secret_words" by blast
    with secret_word_chars [of name] Cons x show False by (cases name) auto
  qed
  with Cons assms(2) x show ?thesis by (simp add: only_mark_def secret_pass has_prefix_iff)
qed (simp add: only_mark_def assms(2) has_prefix_iff)

text \<open>The first equals sign of an output belongs to the input, or to a replacement.\<close>

lemma secret_pass_first:
  assumes "replace_matches secret_match b s = p @ CHR ''='' # c # suf" and "CHR ''='' \<notin> set p" and "query_char c"
  shows "only_mark (c # suf) \<or> (\<exists>d v. s = p @ CHR ''='' # d # v \<and> query_char d)"
  using assms(1,2)
proof (induction p arbitrary: b s)
  case (Cons y p)
  then obtain x t where s: "s = x # t" by (cases s) auto
  show ?case
  proof (cases "secret_match None s")
    case None
    with Cons.prems s have "x = y" "replace_matches secret_match None t = p @ CHR ''='' # c # suf" by (simp_all add: secret_pass)
    with Cons.IH [of None t] Cons.prems(2) s show ?thesis by auto
  next
    case (Some m)
    with secret_match_Some [of None s] obtain name rest w where
      m: "m = (name @ ''=[REDACTED]'', rest)" "to_lower name \<in> set secret_words" "rest = dropWhile query_char w" by (cases m) blast
    with Cons.prems(1) s Some have "name @ CHR ''='' # ''[REDACTED]'' @ replace_matches secret_match None rest = (y # p) @ CHR ''='' # c # suf"
      by (simp add: secret_pass)
    moreover have "CHR ''='' \<notin> set name" using secret_word_chars [OF m(2)] by blast
    ultimately have "c # suf = ''[REDACTED]'' @ replace_matches secret_match None rest"
      using Cons.prems(2) first_split by metis
    then show ?thesis using secret_pass_after [OF m(3)] by simp
  qed
next
  case Nil
  then obtain x t where s: "s = x # t" by (cases s) auto
  show ?case
  proof (cases "secret_match None s")
    case None
    with Nil s have x: "x = CHR ''=''" and t: "replace_matches secret_match None t = c # suf" by (simp_all add: secret_pass)
    from t obtain d v where dv: "t = d # v" by (cases t) auto
    have "query_char d"
    proof (cases "secret_match None t")
      case None
      with t dv assms(3) show ?thesis by (simp add: secret_pass)
    next
      case (Some m)
      then obtain name e w where "t = name @ ''='' @ e # w" "to_lower name \<in> set secret_words"
        using secret_match_Some [of None t] by (cases m) blast
      with secret_word_chars [of name] dv show ?thesis by (cases name) auto
    qed
    with s x dv show ?thesis by auto
  next
    case (Some m)
    with secret_match_Some [of None s] obtain name rest w where
      m: "m = (name @ ''=[REDACTED]'', rest)" "to_lower name \<in> set secret_words" "rest = dropWhile query_char w" by (cases m) blast
    with secret_word_chars [OF m(2)] Nil s Some show ?thesis by (cases name) (auto simp: secret_pass)
  qed
qed

lemma secret_pass_redacts:
  assumes "replace_matches secret_match b s = pre @ kw @ CHR ''='' # c # suf"
    and "to_lower kw \<in> set secret_words" and "query_char c"
  shows "only_mark (c # suf)"
  using assms(1)
proof (induction s arbitrary: b pre rule: measure_induct_rule [of length])
  case (less s)
  note kw = secret_word_chars [OF assms(2)]
  show ?case
  proof (cases pre)
    case Nil
    with less.prems have out: "replace_matches secret_match b s = kw @ CHR ''='' # c # suf" by simp
    from secret_pass_first [OF out kw(2) assms(3)] show ?thesis
    proof
      assume "\<exists>d v. s = kw @ CHR ''='' # d # v \<and> query_char d"
      then obtain d v where s: "s = kw @ CHR ''='' # d # v" "query_char d" by blast
      then obtain m where m: "secret_match None s = Some m" using secret_match_at [OF assms(2)] by blast
      with secret_match_Some [of None s] obtain name rest w where
        n: "m = (name @ ''=[REDACTED]'', rest)" "to_lower name \<in> set secret_words" "rest = dropWhile query_char w" by (cases m) blast
      from s(1) have "s \<noteq> []" by simp
      then obtain x t where "s = x # t" by (cases s) auto
      with m n out have "name @ CHR ''='' # ''[REDACTED]'' @ replace_matches secret_match None rest = kw @ CHR ''='' # c # suf"
        by (simp add: secret_pass)
      moreover have "CHR ''='' \<notin> set name" using secret_word_chars [OF n(2)] by blast
      ultimately have "c # suf = ''[REDACTED]'' @ replace_matches secret_match None rest"
        using kw(2) first_split by metis
      then show ?thesis using secret_pass_after [OF n(3)] by simp
    qed
  next
    case (Cons y pre')
    with less.prems obtain x t where s: "s = x # t" by (cases s) auto
    show ?thesis
    proof (cases "secret_match None s")
      case None
      with less.prems s Cons have "replace_matches secret_match None t = pre' @ kw @ CHR ''='' # c # suf" by (simp add: secret_pass)
      then show ?thesis using less.IH [of t None pre'] s by simp
    next
      case (Some m)
      then obtain name rest e w where
        m: "m = (name @ ''=[REDACTED]'', rest)" "to_lower name \<in> set secret_words" "s = name @ ''='' @ e # w" "rest = dropWhile query_char w"
        using secret_match_Some [of None s] by (cases m) blast
      have shorter: "length rest < length s"
        using length_dropWhile_le [of query_char w] m(3,4) by simp
      have out: "(name @ ''=[REDACTED]'') @ replace_matches secret_match None rest = pre @ kw @ CHR ''='' # c # suf"
        using less.prems s Some m by (simp add: secret_pass)
      consider q where "replace_matches secret_match None rest = q @ kw @ CHR ''='' # c # suf"
        | r where "name @ ''=[REDACTED]'' = pre @ r" "r \<noteq> []" "r @ replace_matches secret_match None rest = kw @ CHR ''='' # c # suf"
        using append_split [OF out] by blast
      then show ?thesis
      proof cases
        case 1
        then show ?thesis using less.IH [OF shorter] by blast
      next
        case 2
        show ?thesis
        proof (cases "CHR ''='' \<in> set r")
          case True
          have "CHR ''='' \<notin> set ''[REDACTED]''" by simp
          from mark_inside [OF 2(1) this True] obtain n2 where n2: "r = n2 @ ''=[REDACTED]''" "set n2 \<subseteq> set name" by blast
          with secret_word_chars [OF m(2)] have "CHR ''='' \<notin> set n2" by blast
          from 2(3) n2(1) have "n2 @ CHR ''='' # ''[REDACTED]'' @ replace_matches secret_match None rest = kw @ CHR ''='' # c # suf" by simp
          with \<open>CHR ''='' \<notin> set n2\<close> kw(2) have "c # suf = ''[REDACTED]'' @ replace_matches secret_match None rest"
            using first_split by metis
          then show ?thesis using secret_pass_after [OF m(4)] by simp
        next
          case False
          from 2(1,2) have "last (name @ ''=[REDACTED]'') = last r" by (metis last_appendR)
          then have "CHR '']'' \<in> set r" using 2(2) by (metis last_in_set last_appendR last.simps list.distinct(1))
          moreover have "\<exists>k. kw = r @ k" using append_inside [OF 2(3) False] .
          ultimately show ?thesis using kw(3) by auto
        qed
      qed
    qed
  qed
qed

text \<open>Every secret name with an equals sign and a value has the redaction mark for its whole value.\<close>

definition redacted_at :: "string \<Rightarrow> bool" where
  "redacted_at s = (case first_keyword secret_words s of
       Some (_, x # c # r) \<Rightarrow> x = CHR ''='' \<and> query_char c \<longrightarrow> only_mark (c # r)
     | _ \<Rightarrow> True)"

fun shows_no_secret :: "string \<Rightarrow> bool" where
  "shows_no_secret [] = True"
| "shows_no_secret (c # s) = (redacted_at (c # s) \<and> shows_no_secret s)"

lemma shows_no_secretI: "(\<And>pre t. s = pre @ t \<Longrightarrow> redacted_at t) \<Longrightarrow> shows_no_secret s"
proof (induction s)
  case (Cons c s)
  have "redacted_at (c # s)" by (rule Cons.prems [of "[]"]) simp
  moreover have "shows_no_secret s"
  proof (rule Cons.IH)
    fix pre t assume "s = pre @ t"
    then show "redacted_at t" using Cons.prems [of "c # pre" t] by simp
  qed
  ultimately show ?case by simp
qed simp

lemma sanitized_shows_no_secret: "shows_no_secret (sanitize_remote_text s)"
proof (rule shows_no_secretI)
  fix pre t assume out: "sanitize_remote_text s = pre @ t"
  show "redacted_at t"
  proof (cases "first_keyword secret_words t")
    case (Some x)
    obtain kw r where x: "x = (kw, r)" by (cases x)
    note kw = first_keyword_Some [OF Some [unfolded x]]
    have "only_mark (c # r')" if "r = CHR ''='' # c # r'" "query_char c" for c r'
      using secret_pass_redacts [of None _ pre kw c r'] out kw that unfolding sanitize_remote_text_def by auto
    with Some x show ?thesis by (auto simp: redacted_at_def split: list.split)
  qed (simp add: redacted_at_def)
qed

lemma no_equals_no_secret: "CHR ''='' \<notin> set s \<Longrightarrow> shows_no_secret s"
proof (induction s)
  case (Cons c s)
  have "redacted_at (c # s)"
  proof (cases "first_keyword secret_words (c # s)")
    case (Some x)
    obtain kw r where x: "x = (kw, r)" by (cases x)
    from first_keyword_Some [OF Some [unfolded x]] have "set r \<subseteq> set (c # s)" by auto
    with Cons.prems Some x show ?thesis by (auto simp: redacted_at_def split: list.split)
  qed (simp add: redacted_at_def)
  with Cons show ?case by simp
qed simp

lemma fallback_texts_plain: "CHR ''='' \<notin> set (fst (fallback_texts n)) \<and> CHR ''='' \<notin> set (snd (fallback_texts n))"
  by (simp add: fallback_texts_def)


definition sample_body :: string where
  "sample_body = ''{'' @ [CHR 0x22] @ ''error'' @ [CHR 0x22] @ '':'' @ [CHR 0x22] @ ''BAD'' @ [CHR 0x22] @ '','' @ [CHR 0x22] @ ''message'' @
     [CHR 0x22] @ '':'' @ [CHR 0x22] @ ''Token=s3 x'' @ [CHR 0x22] @ ''}''"

lemma sample_decoded: "decode_remote_error (Some (404, Some sample_body)) =
    Some \<lparr> re_code = ''BAD'', re_message = ''Token=[REDACTED] x'', re_suggestion = [], re_number = 404, re_status = 404 \<rparr>"
  by code_simp


end
