(* ===== verification/Url_Text.thy ===== *)
theory Url_Text
  imports Request_Map
begin

text \<open>
  The text of an http address reads back as the address. A client that builds an address from
  parts, writes its text and lets the request library parse it again sends to what it built.
\<close>

subsection \<open>Paths\<close>

lemma path_special: "should_escape EncodePath (CHR ''%'')" "should_escape EncodePath (CHR ''?'')" "should_escape EncodePath (CHR ''#'')"
  "\<not> should_escape EncodePath (CHR ''/'')"
  by code_simp+

lemma hex_escape_read:
  "url_unescape EncodePath (CHR ''%'' # upper_hex (of_char c div 16) # upper_hex (of_char c mod 16) # r) = map_option ((#) c) (url_unescape EncodePath r)"
proof -
  have "of_char c div 16 < (16 :: nat)" by (rule char_div_16)
  moreover have "char_of (16 * (of_char c div 16) + of_char c mod 16 :: nat) = c" by simp
  ultimately show ?thesis using upper_hex_read [of "of_char c div 16"] upper_hex_read [of "of_char c mod 16"] by simp
qed

lemma path_text_read: "url_unescape EncodePath (url_escape EncodePath s) = Some s"
proof (induction s)
  case (Cons c s)
  have esc: "url_escape EncodePath (c # s) = (if should_escape EncodePath c
      then CHR ''%'' # upper_hex (of_char c div 16) # upper_hex (of_char c mod 16) # url_escape EncodePath s else c # url_escape EncodePath s)"
    by (simp add: url_escape_def)
  show ?case
  proof (cases "should_escape EncodePath c")
    case True
    with Cons.IH esc show ?thesis by (simp only: if_True hex_escape_read) simp
  next
    case False
    with path_special have "c \<noteq> CHR ''%''" by metis
    with False Cons.IH esc show ?thesis by simp
  qed
qed (simp add: url_escape_def)

lemma upper_hex_plain: "d < 16 \<Longrightarrow> upper_hex d \<noteq> CHR ''?'' \<and> upper_hex d \<noteq> CHR ''#'' \<and> \<not> has_ctl_byte [upper_hex d]"
proof -
  assume "d < 16"
  then have "d \<in> {0, 1, 2, 3, 4, 5, 6, 7, 8, 9, 10, 11, 12, 13, 14, 15}" unfolding insert_iff empty_iff by presburger
  then have "of_char (upper_hex d) \<notin> {63, 35 :: nat} \<and> 32 \<le> (of_char (upper_hex d) :: nat) \<and> of_char (upper_hex d) \<noteq> (127 :: nat)"
    by (elim insertE) (simp_all, simp_all add: upper_hex_def)
  then have code: "of_char (upper_hex d) \<noteq> (63 :: nat)" "of_char (upper_hex d) \<noteq> (35 :: nat)"
    "\<not> (of_char (upper_hex d) :: nat) < 32" "of_char (upper_hex d) \<noteq> (127 :: nat)" by simp_all
  have "of_char (CHR ''?'') = (63 :: nat)" "of_char (CHR ''#'') = (35 :: nat)" by simp_all
  with code(1,2) have "upper_hex d \<noteq> CHR ''?''" "upper_hex d \<noteq> CHR ''#''" by metis+
  moreover have "\<not> has_ctl_byte [upper_hex d]"
    unfolding has_ctl_byte_def using code(3,4) by simp
  ultimately show ?thesis by blast
qed

lemma ctl_escaped:
  assumes "has_ctl_byte [c]"
  shows "should_escape mode c"
proof -
  have c: "(of_char c :: nat) < 32 \<or> of_char c = (127 :: nat)" using assms by (simp add: has_ctl_byte_def)
  have out: "c \<notin> set s" if "list_all (\<lambda>x. \<not> has_ctl_byte [x]) s" for s using that assms by (auto simp: list_all_iff)
  have "list_all (\<lambda>x. \<not> has_ctl_byte [x]) ''-_.~''" "list_all (\<lambda>x. \<not> has_ctl_byte [x]) ''$&+,/:;=?@''"
    "list_all (\<lambda>x. \<not> has_ctl_byte [x]) (''!$&()*+,;=:[]<>'' @ [CHR 0x27, CHR 0x22])" "list_all (\<lambda>x. \<not> has_ctl_byte [x]) ''!()*''" by code_simp+
  then have "c \<notin> set ''-_.~''" "c \<notin> set ''$&+,/:;=?@''" "c \<notin> set (''!$&()*+,;=:[]<>'' @ [CHR 0x27, CHR 0x22])" "c \<notin> set ''!()*''"
    using out by blast+
  moreover have "\<not> is_letter c" "\<not> is_digit c" using c by (auto simp: is_letter_def is_lower_def is_upper_def is_digit_def Let_def)
  ultimately show ?thesis unfolding should_escape_def by auto
qed

lemma has_ctl_byte_append [simp]: "has_ctl_byte (a @ b) \<longleftrightarrow> has_ctl_byte a \<or> has_ctl_byte b"
  by (simp add: has_ctl_byte_def list_ex_iff) blast

lemma has_ctl_byte_Cons: "has_ctl_byte (c # s) \<longleftrightarrow> has_ctl_byte [c] \<or> has_ctl_byte s"
  by (simp add: has_ctl_byte_def)

lemma path_text_plain:
  "CHR ''?'' \<notin> set (url_escape EncodePath s) \<and> CHR ''#'' \<notin> set (url_escape EncodePath s) \<and> \<not> has_ctl_byte (url_escape EncodePath s)"
proof (induction s)
  case (Cons c s)
  have esc: "url_escape EncodePath (c # s) = (if should_escape EncodePath c
      then [CHR ''%'', upper_hex (of_char c div 16), upper_hex (of_char c mod 16)] else [c]) @ url_escape EncodePath s"
    by (simp add: url_escape_def)
  have pct: "\<not> has_ctl_byte [CHR ''%'']" by (simp add: has_ctl_byte_def)
  have hex: "upper_hex (of_char c div 16) \<noteq> CHR ''?'' \<and> upper_hex (of_char c div 16) \<noteq> CHR ''#'' \<and> \<not> has_ctl_byte [upper_hex (of_char c div 16)]"
    "upper_hex (of_char c mod 16) \<noteq> CHR ''?'' \<and> upper_hex (of_char c mod 16) \<noteq> CHR ''#'' \<and> \<not> has_ctl_byte [upper_hex (of_char c mod 16)]"
    using char_div_16 [of c] by (intro upper_hex_plain, simp)+
  show ?case
  proof (cases "should_escape EncodePath c")
    case True
    with esc hex pct Cons.IH show ?thesis
      by (auto simp: has_ctl_byte_def)
  next
    case False
    with path_special ctl_escaped have "c \<noteq> CHR ''?''" "c \<noteq> CHR ''#''" "\<not> has_ctl_byte [c]" by metis+
    with False esc Cons.IH show ?thesis by (auto simp: has_ctl_byte_def)
  qed
qed (simp add: url_escape_def has_ctl_byte_def)

lemma path_text_start: "s = [] \<or> hd s = CHR ''/'' \<Longrightarrow> url_escape EncodePath s = [] \<or> hd (url_escape EncodePath s) = CHR ''/''"
  using path_special(4) by (cases s) (auto simp: url_escape_def)

subsection \<open>Hosts\<close>

text \<open>
  A host that is written as it is read: a name, an IPv4 address or an IPv6 address in brackets,
  with or without a port, in bytes that are not escaped.
\<close>

definition plain_host :: "string \<Rightarrow> bool" where
  "plain_host h \<longleftrightarrow> h \<noteq> [] \<and> list_all (\<lambda>c. \<not> should_escape EncodeHost c) h \<and> parse_host h = Some h"

lemma host_special: "should_escape EncodeHost (CHR ''%'')" "should_escape EncodeHost (CHR ''?'')" "should_escape EncodeHost (CHR ''#'')"
  "should_escape EncodeHost (CHR ''/'')" "should_escape EncodeHost (CHR ''@'')"
  by code_simp+

lemma plain_host_chars:
  assumes "plain_host h" and "c \<in> set h"
  shows "\<not> should_escape EncodeHost c" "c \<noteq> CHR ''%''" "c \<noteq> CHR ''/''" "c \<noteq> CHR ''@''" "c \<noteq> CHR ''?''" "c \<noteq> CHR ''#''"
    "\<not> has_ctl_byte [c]"
proof -
  from assms show c: "\<not> should_escape EncodeHost c" by (auto simp: plain_host_def list_all_iff)
  with host_special show "c \<noteq> CHR ''%''" "c \<noteq> CHR ''/''" "c \<noteq> CHR ''@''" "c \<noteq> CHR ''?''" "c \<noteq> CHR ''#''" by metis+
  from c show "\<not> has_ctl_byte [c]" using ctl_escaped by blast
qed

lemma plain_host_text:
  assumes "plain_host h"
  shows "url_escape EncodeHost h = h" "parse_authority h = Some (None, h)" "\<not> has_ctl_byte h"
proof -
  note plain = plain_host_chars [OF assms]
  have "(\<forall>c \<in> set s. \<not> should_escape EncodeHost c) \<Longrightarrow> url_escape EncodeHost s = s" for s
    by (induction s) (auto simp: url_escape_def)
  with plain(1) show "url_escape EncodeHost h = h" by blast
  have "CHR ''@'' \<notin> set (rev h)" using plain(4) by auto
  then have "cut_last (CHR ''@'') h = None" by (simp add: cut_last_def str_cut_def)
  with assms show "parse_authority h = Some (None, h)" by (simp add: parse_authority_def plain_host_def)
  from plain(7) show "\<not> has_ctl_byte h" by (auto simp: has_ctl_byte_def list_ex_iff)
qed

text \<open>Every host that is read from ASCII text without a percent sign is of this kind.\<close>

definition plain_text :: "string \<Rightarrow> bool" where
  "plain_text s \<longleftrightarrow> list_all (\<lambda>c. (of_char c :: nat) < 128 \<and> c \<noteq> CHR ''%'') s"

lemma plain_unescape:
  "plain_text s \<Longrightarrow> url_unescape EncodeHost s = Some h \<Longrightarrow> h = s \<and> list_all (\<lambda>c. \<not> should_escape EncodeHost c) s"
  by (induction s arbitrary: h) (auto simp: plain_text_def split: if_splits)

lemma plain_no_zone: "plain_text s \<Longrightarrow> cut_zone s = None"
  by (induction s) (auto simp: plain_text_def has_prefix_def)

lemma str_cut_set: "str_cut c s = Some (a, b) \<Longrightarrow> set a \<subseteq> set s \<and> set b \<subseteq> set s \<and> c \<notin> set a"
  unfolding str_cut_def by (auto split: if_splits dest: in_set_dropD set_dropWhileD set_takeWhileD)

lemma cut_last_sets: "cut_last c s = Some (a, b) \<Longrightarrow> set a \<subseteq> set s \<and> set b \<subseteq> set s"
  using str_cut_set [of c "rev s" "rev b" "rev a"] by (auto simp: cut_last_def split: option.splits prod.splits)

lemma plain_text_subset: "plain_text s \<Longrightarrow> set x \<subseteq> set s \<Longrightarrow> plain_text x"
  by (auto simp: plain_text_def list_all_iff)

lemma parse_plain_host:
  assumes "plain_text x" and "parse_host x = Some h" and "h \<noteq> []"
  shows "plain_host h"
proof -
  have "url_unescape EncodeHost x = Some h"
  proof (cases "has_prefix x ''[''")
    case True
    with assms(2) obtain i p where i: "cut_last (CHR '']'') x = Some (i, p)" by (auto simp: parse_host_def split: option.splits)
    have "cut_zone i = None" using plain_no_zone plain_text_subset [OF assms(1)] cut_last_sets [OF i] by blast
    with True i assms(2) show ?thesis by (auto simp: parse_host_def split: if_splits)
  next
    case False
    with assms(2) show ?thesis by (auto simp: parse_host_def split: option.splits if_splits)
  qed
  from plain_unescape [OF assms(1) this] assms show ?thesis by (simp add: plain_host_def)
qed

lemma parse_authority_host:
  assumes "parse_authority a = Some (user, host)"
  shows "\<exists>x. set x \<subseteq> set a \<and> parse_host x = Some host"
proof (cases "cut_last (CHR ''@'') a")
  case None
  with assms show ?thesis by (auto simp: parse_authority_def)
next
  case (Some p)
  obtain i x where p: "p = (i, x)" by (cases p)
  from assms Some p have "parse_host x = Some host" by (auto simp: parse_authority_def split: option.splits if_splits)
  with cut_last_sets [of "CHR ''@''" a i x] Some p show ?thesis by blast
qed

subsection \<open>Addresses\<close>

definition web_url :: "url \<Rightarrow> bool" where
  "web_url u \<longleftrightarrow> (u_scheme u = ''http'' \<or> u_scheme u = ''https'') \<and> u_opaque u = [] \<and> u_user u = None \<and> plain_host (u_host u) \<and>
     (u_path u = [] \<or> hd (u_path u) = CHR ''/'') \<and> u_raw_path u = [] \<and> \<not> u_omit_host u \<and> u_fragment u = [] \<and>
     CHR ''#'' \<notin> set (u_raw_query u) \<and> \<not> has_ctl_byte (u_raw_query u)"

text \<open>An address, its question mark and its query.\<close>

definition query_text :: "url \<Rightarrow> string" where
  "query_text u = (if u_force_query u \<or> u_raw_query u \<noteq> [] then CHR ''?'' # u_raw_query u else [])"

lemma web_url_string:
  assumes "web_url u"
  shows "url_string u = u_scheme u @ ''://'' @ u_host u @ url_escape EncodePath (u_path u) @ query_text u"
proof -
  have start: "url_escape EncodePath (u_path u) = [] \<or> has_prefix (url_escape EncodePath (u_path u)) ''/''"
    using assms path_text_start [of "u_path u"] by (cases "url_escape EncodePath (u_path u)") (auto simp: web_url_def has_prefix_def)
  have "u_path u \<noteq> ''*''" using assms by (auto simp: web_url_def)
  then have path: "escaped_path u = url_escape EncodePath (u_path u)" using assms by (simp add: escaped_path_def web_url_def)
  have "u_host u \<noteq> []" "u_scheme u \<noteq> []" "u_user u = None" "u_opaque u = []" "u_fragment u = []"
    using assms by (auto simp: web_url_def plain_host_def)
  moreover have "url_escape EncodeHost (u_host u) = u_host u" using assms plain_host_text(1) by (simp add: web_url_def)
  ultimately show ?thesis using start by (auto simp: url_string_def path query_text_def Let_def)
qed

lemma get_web_scheme:
  "get_scheme (''http://'' @ s) = Some (''http'', ''//'' @ s)" "get_scheme (''https://'' @ s) = Some (''https'', ''//'' @ s)"
  by (simp_all add: get_scheme_def char_class_defs)

lemma read_query:
  assumes "CHR ''?'' \<notin> set x" and rest0: "rest0 = x @ (if force \<or> q \<noteq> [] then CHR ''?'' # q else [])"
    and read: "force' \<longleftrightarrow> has_suffix rest0 ''?'' \<and> length (filter (\<lambda>c. c = CHR ''?'') rest0) = 1"
  shows "force' \<longleftrightarrow> force \<and> q = []"
    "(if force' then (butlast rest0, []) else case str_cut (CHR ''?'') rest0 of None \<Rightarrow> (rest0, []) | Some (a, b) \<Rightarrow> (a, b)) = (x, q)"
proof -
  have none: "filter (\<lambda>c. c = CHR ''?'') x = []" using assms(1) by (auto simp: filter_empty_conv)
  have suffix: "has_suffix s ''?'' \<longleftrightarrow> s \<noteq> [] \<and> last s = CHR ''?''" for s
    by (cases s rule: rev_cases) (auto simp: has_suffix_def has_prefix_def)
  have cut: "str_cut (CHR ''?'') (x @ CHR ''?'' # q) = Some (x, q)"
    using assms(1) by (auto simp: str_cut_def takeWhile_append dropWhile_append)
  have "force' \<longleftrightarrow> force \<and> q = [] \<and> (force \<or> q \<noteq> [])"
  proof (cases "q = []")
    case True
    show ?thesis
    proof (cases force)
      case False
      have "last x \<noteq> CHR ''?'' \<or> x = []" using assms(1) by (metis last_in_set)
      with True False show ?thesis by (simp add: read rest0 suffix)
    qed (simp add: read rest0 suffix none True)
  next
    case False
    then have "has_suffix rest0 ''?'' \<Longrightarrow> CHR ''?'' \<in> set q" using last_in_set [of q] by (auto simp: rest0 suffix)
    then have "has_suffix rest0 ''?'' \<Longrightarrow> filter (\<lambda>c. c = CHR ''?'') q \<noteq> []" by (auto simp: filter_empty_conv)
    with False show ?thesis by (auto simp: read rest0 none)
  qed
  then show f: "force' \<longleftrightarrow> force \<and> q = []" by blast
  show "(if force' then (butlast rest0, []) else case str_cut (CHR ''?'') rest0 of None \<Rightarrow> (rest0, []) | Some (a, b) \<Rightarrow> (a, b)) = (x, q)"
  proof (cases "force \<or> q \<noteq> []")
    case True
    with f cut show ?thesis by (cases "q = []") (simp_all add: rest0 butlast_append)
  next
    case False
    with f assms(1) show ?thesis by (simp add: rest0 str_cut_def)
  qed
qed

theorem web_url_text_roundtrip:
  assumes u: "web_url u"
  shows "url_parse (url_string u) = Some (u\<lparr> u_force_query := u_force_query u \<and> u_raw_query u = [] \<rparr>)"
proof -
  let ?ep = "url_escape EncodePath (u_path u)" and ?x = "''//'' @ u_host u @ url_escape EncodePath (u_path u)"
  have parts: "u_scheme u = ''http'' \<or> u_scheme u = ''https''" "plain_host (u_host u)" "u_path u = [] \<or> hd (u_path u) = CHR ''/''"
    "u_user u = None" "u_opaque u = []" "u_raw_path u = []" "\<not> u_omit_host u" "u_fragment u = []"
    "CHR ''#'' \<notin> set (u_raw_query u)" "\<not> has_ctl_byte (u_raw_query u)"
    using u by (auto simp: web_url_def)
  note host = plain_host_text [OF parts(2)]
  note ep = path_text_plain [of "u_path u"]
  have raw: "url_string u = u_scheme u @ ''://'' @ u_host u @ ?ep @ query_text u" by (rule web_url_string [OF u])
  have q: "CHR ''#'' \<notin> set (query_text u)" "\<not> has_ctl_byte (query_text u)"
    using parts(9,10) by (auto simp: query_text_def has_ctl_byte_def)
  have no_hash: "CHR ''#'' \<notin> set (url_string u)"
    using parts(1) ep q(1) plain_host_chars(6) [OF parts(2)] unfolding raw by auto
  have no_ctl: "\<not> has_ctl_byte (url_string u)"
    using parts(1) ep q(2) host(3) unfolding raw by (auto simp: has_ctl_byte_def)
  have "url_string u \<noteq> ''*''" using parts(1) unfolding raw by auto
  have scheme: "get_scheme (url_string u) = Some (u_scheme u, ?x @ query_text u)" "to_lower (u_scheme u) = u_scheme u" "u_scheme u \<noteq> []"
    using parts(1) get_web_scheme unfolding raw by (auto simp: to_lower_def lower_char_def)
  have x: "CHR ''?'' \<notin> set ?x" using ep plain_host_chars(5) [OF parts(2)] by auto
  define t where "t = ?x @ query_text u"
  define force' where "force' \<longleftrightarrow> has_suffix t ''?'' \<and> length (filter (\<lambda>c. c = CHR ''?'') t) = 1"
  note query = read_query [OF x t_def [unfolded query_text_def] force'_def]
  have scheme': "get_scheme (url_string u) = Some (u_scheme u, t)" using scheme(1) by (simp add: t_def)
  have authority: "takeWhile (\<lambda>c. c \<noteq> CHR ''/'') (u_host u @ ?ep) = u_host u" "dropWhile (\<lambda>c. c \<noteq> CHR ''/'') (u_host u @ ?ep) = ?ep"
    using path_text_start [OF parts(3)] plain_host_chars(3) [OF parts(2)] by (cases ?ep; auto simp: takeWhile_append dropWhile_append)+
  have path: "set_path ?ep v = Some (v\<lparr> u_path := u_path u, u_raw_path := [] \<rparr>)" for v
    by (simp add: set_path_def path_text_read)
  have "url_parse_body (url_string u) = Some (u\<lparr> u_force_query := u_force_query u \<and> u_raw_query u = [] \<rparr>)"
    unfolding url_parse_body_def if_not_P [OF no_ctl] if_not_P [OF \<open>url_string u \<noteq> ''*''\<close>] scheme' option.case prod.case Let_def
      force'_def [symmetric] query(2)
    using query(1) scheme(2,3) authority host(2) path parts by (simp add: has_prefix_def empty_url_def)
  moreover have "str_cut (CHR ''#'') (url_string u) = None" using no_hash by (simp add: str_cut_def)
  ultimately show ?thesis by (simp add: url_parse_def)
qed

end
