(* ===== verification/Bridge_Client.thy ===== *)
theory Bridge_Client
  imports Remote_Text Url_Text
begin

text \<open>
  The HTTP client that bridgectl and the console share, internal/bridgeclient/client.go: where
  a request goes, which headers it has and how much of an answer is read. Redirects are not
  followed: the client answers with the redirecting response itself.
\<close>

subsection \<open>Addresses\<close>

datatype client_error =
    Url_Unparsable
  | Url_Not_Http
  | Url_With_Parts
  | Target_Unavailable
  | Path_Not_Absolute
  | Path_Unparsable
  | Path_With_Destination
  | Path_Escapes
  | Request_Invalid
  | Request_Failed

definition parse_server_url :: "string \<Rightarrow> client_error + url option" where
  "parse_server_url raw =
     (if raw = [] then Inr None
      else case url_parse raw of
          None \<Rightarrow> Inl Url_Unparsable
        | Some u \<Rightarrow>
            if u_scheme u \<noteq> ''http'' \<and> u_scheme u \<noteq> ''https'' \<or> u_host u = [] then Inl Url_Not_Http
            else if u_user u \<noteq> None \<or> u_raw_query u \<noteq> [] \<or> u_fragment u \<noteq> [] then Inl Url_With_Parts
            else Inr (Some (u\<lparr> u_path := trim_right_slash (u_path u), u_raw_path := [] \<rparr>)))"

text \<open>\<open>ValidateServerURL\<close> refuses the empty address too.\<close>

definition validate_server_url :: "string \<Rightarrow> bool" where
  "validate_server_url raw \<longleftrightarrow> raw \<noteq> [] \<and> (case parse_server_url raw of Inl _ \<Rightarrow> False | Inr _ \<Rightarrow> True)"

definition parse_relative_path :: "string \<Rightarrow> client_error + url" where
  "parse_relative_path raw =
     (if \<not> has_prefix raw ''/'' then Inl Path_Not_Absolute
      else case url_parse raw of
          None \<Rightarrow> Inl Path_Unparsable
        | Some u \<Rightarrow>
            if url_is_abs u \<or> u_host u \<noteq> [] \<or> u_user u \<noteq> None \<or> u_fragment u \<noteq> [] then Inl Path_With_Destination
            else if ''..'' \<in> set (split_at_char (CHR ''/'') (u_path u)) then Inl Path_Escapes
            else Inr u)"

subsection \<open>The client\<close>

datatype upstream = Target_Server | Target_Mcp | Target_Other string

record bridge_client =
  bl_server :: "url option"
  bl_mcp :: "url option"
  bl_token :: string
  bl_max :: int

definition default_max_response_bytes :: int where "default_max_response_bytes = 4194304"

definition new_bridge_client :: "string \<Rightarrow> (string \<Rightarrow> string) \<Rightarrow> bridge_context \<Rightarrow> client_error + bridge_client" where
  "new_bridge_client tokenOverride getenv ctx = (case parse_server_url (bc_server ctx) of
       Inl e \<Rightarrow> Inl e
     | Inr server \<Rightarrow> (case parse_server_url (bc_mcp_server ctx) of
         Inl e \<Rightarrow> Inl e
       | Inr mcp \<Rightarrow> Inr \<lparr> bl_server = server, bl_mcp = mcp,
           bl_token = client_token tokenOverride (getenv ''BRIDGE_API_TOKEN'') (bc_api_token ctx),
           bl_max = default_max_response_bytes \<rparr>))"

definition base_url_of :: "bridge_client \<Rightarrow> upstream \<Rightarrow> client_error + url" where
  "base_url_of c t = (case (case t of Target_Server \<Rightarrow> bl_server c | Target_Mcp \<Rightarrow> bl_mcp c | Target_Other _ \<Rightarrow> None) of
       None \<Rightarrow> Inl Target_Unavailable
     | Some u \<Rightarrow> Inr u)"

text \<open>Values of one header, in order. Only two of the caller's headers are copied.\<close>

type_synonym multi_headers = "(string \<times> string list) list"

definition header_values :: "multi_headers \<Rightarrow> string \<Rightarrow> string list" where
  "header_values h name = (case map_of h (canonical_header name) of None \<Rightarrow> [] | Some vs \<Rightarrow> vs)"

definition header_add :: "string \<Rightarrow> string \<Rightarrow> multi_headers \<Rightarrow> multi_headers" where
  "header_add name v h = amap_put (canonical_header name) (header_values h name @ [v]) h"

definition copied_headers :: "string list" where "copied_headers = [''Accept'', ''Content-Type'']"

definition copy_allowed_headers :: "multi_headers \<Rightarrow> multi_headers \<Rightarrow> multi_headers" where
  "copy_allowed_headers destination source =
     fold (\<lambda>key d. fold (header_add key) (header_values source key) d) copied_headers destination"

definition authorize :: "string \<Rightarrow> multi_headers \<Rightarrow> multi_headers" where
  "authorize token h = (if token = [] then h else amap_put ''Authorization'' [''Bearer '' @ token] h)"

record client_request =
  cr_method :: string
  cr_url :: url
  cr_headers :: multi_headers

text \<open>
  What \<open>Do\<close> sends. The request library refuses a method that is no token, and parses the
  text of the address again, dropping an empty port.
\<close>

definition client_url :: "url \<Rightarrow> url \<Rightarrow> url" where
  "client_url b r = b\<lparr> u_path := trim_right_slash (u_path b) @ u_path r, u_raw_path := [], u_raw_query := u_raw_query r, u_fragment := [] \<rparr>"

definition valid_method :: "string \<Rightarrow> bool" where
  "valid_method m \<longleftrightarrow> m \<noteq> [] \<and> list_all is_header_token m"

definition remove_empty_port :: "string \<Rightarrow> string" where
  "remove_empty_port host = (if has_suffix host '':'' then butlast host else host)"

definition client_request_for ::
  "bridge_client \<Rightarrow> upstream \<Rightarrow> string \<Rightarrow> string \<Rightarrow> multi_headers \<Rightarrow> client_error + client_request" where
  "client_request_for c t method path headers = (case base_url_of c t of
       Inl e \<Rightarrow> Inl e
     | Inr b \<Rightarrow> (case parse_relative_path path of
         Inl e \<Rightarrow> Inl e
       | Inr r \<Rightarrow>
           if \<not> valid_method method \<and> method \<noteq> [] then Inl Request_Invalid
           else (case url_parse (url_string (client_url b r)) of
               None \<Rightarrow> Inl Request_Invalid
             | Some u \<Rightarrow> Inr \<lparr> cr_method = (if method = [] then ''GET'' else method),
                 cr_url = u\<lparr> u_host := remove_empty_port (u_host u) \<rparr>,
                 cr_headers = authorize (bl_token c) (copy_allowed_headers [] headers) \<rparr>)))"

text \<open>\<open>NewAuthenticatedRequest\<close>: the headers of the commands' own requests.\<close>

definition authenticated_headers :: "string \<Rightarrow> multi_headers" where
  "authenticated_headers token = authorize token []"

subsection \<open>Bounded answers\<close>

text \<open>
  A body as the chunks that reading it gives, and how it ends. \<open>boundedBody\<close> gives a chunk
  that passes the limit together with its error, and nothing after it.
\<close>

datatype body_end = Body_Ended | Body_Broken | Body_Too_Large

record bounded_body =
  bb_read :: int
  bb_max :: int
  bb_failed :: bool

definition bounded_chunk :: "string \<Rightarrow> bounded_body \<Rightarrow> bool \<times> bounded_body" where
  "bounded_chunk p b =
     (if bb_max b \<le> 0 then (True, b)
      else
        let b = b\<lparr> bb_read := bb_read b + int (length p) \<rparr> in
        if bb_max b < bb_read b then (False, b\<lparr> bb_failed := True \<rparr>) else (True, b))"

text \<open>\<open>io.ReadAll\<close> over a bounded body.\<close>

fun read_bounded :: "string list \<Rightarrow> body_end \<Rightarrow> bounded_body \<Rightarrow> string \<times> body_end" where
  "read_bounded [] fin b = ([], if bb_failed b then Body_Too_Large else fin)"
| "read_bounded (p # ps) fin b =
     (if bb_failed b then ([], Body_Too_Large)
      else case bounded_chunk p b of
          (False, b') \<Rightarrow> (p, Body_Too_Large)
        | (True, b') \<Rightarrow> (case read_bounded ps fin b' of (rest, e) \<Rightarrow> (p @ rest, e)))"

definition read_response :: "int \<Rightarrow> string list \<Rightarrow> body_end \<Rightarrow> string \<times> body_end" where
  "read_response limit ps fin = read_bounded ps fin \<lparr> bb_read = 0, bb_max = limit, bb_failed = False \<rparr>"

lemma read_bounded_whole:
  assumes "read_bounded ps Body_Ended b = (d, Body_Ended)"
  shows "d = concat ps \<and> (0 < bb_max b \<longrightarrow> bb_read b \<le> bb_max b \<longrightarrow> bb_read b + int (length d) \<le> bb_max b)"
  using assms
proof (induction ps "Body_Ended" b arbitrary: d rule: read_bounded.induct)
  case (2 p ps b)
  from "2.prems" obtain b' rest where b': "\<not> bb_failed b" "bounded_chunk p b = (True, b')" "read_bounded ps Body_Ended b' = (rest, Body_Ended)"
    "d = p @ rest" by (auto split: if_splits prod.splits bool.splits)
  from "2.hyps" [OF b'(1) b'(2) [symmetric] refl b'(3)] b'
  show ?case by (auto simp: bounded_chunk_def Let_def split: if_splits)
qed (auto split: if_splits)

lemma read_bounded_complete:
  assumes "\<not> bb_failed b" and "bb_max b \<le> 0 \<or> bb_read b + int (length (concat ps)) \<le> bb_max b"
  shows "read_bounded ps fin b = (concat ps, fin)"
  using assms
proof (induction ps arbitrary: b)
  case (Cons p ps)
  let ?b = "if bb_max b \<le> 0 then b else b\<lparr> bb_read := bb_read b + int (length p) \<rparr>"
  have "bounded_chunk p b = (True, ?b)" using Cons.prems by (auto simp: bounded_chunk_def Let_def)
  moreover have "read_bounded ps fin ?b = (concat ps, fin)" using Cons.prems by (intro Cons.IH) auto
  ultimately show ?case using Cons.prems(1) by simp
qed simp

text \<open>
  C21: an answer is read whole or refused. A body within the limit is read completely, however
  it arrives in chunks; one beyond the limit never reads as complete, so a truncated document
  is not taken for the document.
\<close>

theorem answer_whole_or_refused:
  assumes "0 < limit"
  shows "(case read_response limit chunks Body_Ended of (data, e) \<Rightarrow>
    if int (length (concat chunks)) \<le> limit then data = concat chunks \<and> e = Body_Ended else e \<noteq> Body_Ended)"
proof (cases "int (length (concat chunks)) \<le> limit")
  case True
  then have "read_response limit chunks Body_Ended = (concat chunks, Body_Ended)"
    unfolding read_response_def by (intro read_bounded_complete) auto
  with True show ?thesis by simp
next
  case False
  obtain d e where r: "read_response limit chunks Body_Ended = (d, e)" by (cases "read_response limit chunks Body_Ended")
  have "e \<noteq> Body_Ended"
  proof
    assume "e = Body_Ended"
    with read_bounded_whole [of chunks _ d] r assms have "d = concat chunks" "int (length d) \<le> limit"
      unfolding read_response_def by fastforce+
    with False show False by simp
  qed
  with r False show ?thesis by simp
qed

lemma answer_whole_or_refused_witness:
  "read_response 4 [''ab'', ''cd''] Body_Ended = (''abcd'', Body_Ended) \<and> snd (read_response 4 [''abc'', ''de''] Body_Ended) \<noteq> Body_Ended"
  using answer_whole_or_refused [of 4 "[''ab'', ''cd'']"] answer_whole_or_refused [of 4 "[''abc'', ''de'']"]
  by (auto split: prod.splits)

subsection \<open>Where a request goes\<close>

lemma parse_server_url_Some:
  "parse_server_url raw = Inr (Some u) \<Longrightarrow>
     u_scheme u \<in> {''http'', ''https''} \<and> u_host u \<noteq> [] \<and> u_user u = None \<and> u_raw_query u = [] \<and> u_fragment u = []"
  by (auto simp: parse_server_url_def split: if_splits option.splits)

lemma trim_right_slash_start: "s = [] \<or> hd s = CHR ''/'' \<Longrightarrow> trim_right_slash s = [] \<or> hd (trim_right_slash s) = CHR ''/''"
proof -
  assume s: "s = [] \<or> hd s = CHR ''/''"
  have "rev s = takeWhile (\<lambda>c. c = CHR ''/'') (rev s) @ dropWhile (\<lambda>c. c = CHR ''/'') (rev s)" by simp
  then obtain w where "s = trim_right_slash s @ w" by (metis rev_append rev_rev_ident trim_right_slash_def)
  then have "trim_right_slash s \<noteq> [] \<Longrightarrow> s \<noteq> [] \<and> hd s = hd (trim_right_slash s)" by (metis hd_append2 append_is_Nil_conv)
  with s show ?thesis by (cases "trim_right_slash s = []") auto
qed

text \<open>What a parsed address looks like.\<close>

definition path_start :: "string \<Rightarrow> bool" where
  "path_start p \<longleftrightarrow> p = [] \<or> hd p = CHR ''/''"

lemma url_unescape_start: "url_unescape EncodePath s = Some p \<Longrightarrow> path_start s \<Longrightarrow> path_start p"
proof -
  assume read: "url_unescape EncodePath s = Some p" and s: "path_start s"
  show ?thesis
  proof (cases s)
    case (Cons c r)
    with s have "c = CHR ''/''" by (simp add: path_start_def)
    with read Cons obtain q where "p = CHR ''/'' # q" by auto
    then show ?thesis by (simp add: path_start_def)
  qed (use read in \<open>simp add: path_start_def\<close>)
qed

lemma set_path_read: "set_path p v = Some u \<Longrightarrow> path_start p \<Longrightarrow>
    path_start (u_path u) \<and> u_opaque u = u_opaque v \<and> u_raw_query u = u_raw_query v \<and> u_omit_host u = u_omit_host v"
  unfolding set_path_def using url_unescape_start [of p] by (auto split: option.splits)

lemma get_scheme_from_set: "get_scheme_from first whole acc s = Some (scheme, rest) \<Longrightarrow> set s \<subseteq> set whole \<Longrightarrow> set rest \<subseteq> set whole"
proof (induction first whole acc s rule: get_scheme_from.induct)
  case (2 first whole acc c s)
  show ?case
  proof (cases "is_letter c \<or> (is_digit c \<or> c \<in> set ''+-.'') \<and> \<not> first")
    case True
    moreover have "set s \<subseteq> set whole" using "2.prems"(2) by simp
    ultimately show ?thesis using "2.IH" "2.prems"(1) by (metis (no_types, lifting) get_scheme_from.simps(2))
  next
    case False
    with "2.prems" show ?thesis by (auto split: if_splits)
  qed
qed simp

lemma get_scheme_set: "get_scheme raw = Some (scheme, rest) \<Longrightarrow> set rest \<subseteq> set raw"
  unfolding get_scheme_def using get_scheme_from_set [of True raw "[]" raw scheme rest] by simp

lemma get_scheme_slash: "has_prefix raw ''/'' \<Longrightarrow> get_scheme raw = Some ([], raw)"
proof (cases raw)
  case (Cons c s)
  assume "has_prefix raw ''/''"
  with Cons have "c = CHR ''/''" by (simp add: has_prefix_def)
  moreover have "\<not> is_letter (CHR ''/'')" "\<not> is_digit (CHR ''/'')" by code_simp+
  ultimately show ?thesis by (simp add: get_scheme_def Cons)
qed (simp add: has_prefix_def)

lemma dropWhile_path_start: "path_start (dropWhile (\<lambda>c. c \<noteq> CHR ''/'') s)"
  unfolding path_start_def using hd_dropWhile [of "\<lambda>c. c \<noteq> CHR ''/''" s] by blast


lemma url_parse_body_parts:
  assumes "url_parse_body raw = Some u" and "raw \<noteq> ''*''"
  obtains scheme rest0 rest query v where "get_scheme raw = Some (scheme, rest0)"
    and "rest = butlast rest0 \<and> has_suffix rest0 ''?'' \<and> query = [] \<or> rest = rest0 \<and> query = [] \<or> str_cut (CHR ''?'') rest0 = Some (rest, query)"
    and "u_opaque v = []" "u_raw_query v = query"
    and "\<not> has_prefix rest ''/'' \<and> u_host u = [] \<and> u_raw_query u = query \<or>
         (\<exists>w. set_path (dropWhile (\<lambda>c. c \<noteq> CHR ''/'') w) v = Some u) \<and> \<not> u_omit_host v \<and>
           (\<exists>x. set x \<subseteq> set rest \<and> parse_host x = Some (u_host u)) \<or>
         set_path rest v = Some u \<and> u_host u = []"
proof -
  have ctl: "\<not> has_ctl_byte raw" using assms(1) by (auto simp: url_parse_body_def)
  obtain scheme rest0 where gs: "get_scheme raw = Some (scheme, rest0)"
    using assms ctl by (cases "get_scheme raw") (auto simp: url_parse_body_def)
  define force where "force \<longleftrightarrow> has_suffix rest0 ''?'' \<and> length (filter (\<lambda>c. c = CHR ''?'') rest0) = 1"
  obtain rest query where rq: "(if force then (butlast rest0, []) else case str_cut (CHR ''?'') rest0 of None \<Rightarrow> (rest0, []) | Some (a, b) \<Rightarrow> (a, b)) = (rest, query)"
    by fastforce
  then have q: "rest = butlast rest0 \<and> has_suffix rest0 ''?'' \<and> query = [] \<or> rest = rest0 \<and> query = [] \<or> str_cut (CHR ''?'') rest0 = Some (rest, query)"
    by (auto simp: force_def split: if_splits option.splits)
  define v where "v = empty_url\<lparr> u_scheme := to_lower scheme, u_force_query := force, u_raw_query := query \<rparr>"
  have vp: "u_opaque v = []" "u_raw_query v = query" "u_host v = []" "\<not> u_omit_host v" by (simp_all add: v_def empty_url_def)
  have host: "u_host x = u_host y" if "set_path p y = Some x" for p x y using that by (auto simp: set_path_def split: option.splits)
  note body = assms(1) [unfolded url_parse_body_def if_not_P [OF ctl] if_not_P [OF assms(2)] gs option.case prod.case Let_def
      force_def [symmetric] rq v_def [symmetric]]
  consider (opaque) "\<not> has_prefix rest ''/''" "u = v\<lparr> u_opaque := rest \<rparr>"
    | (auth) user host where "set_path (dropWhile (\<lambda>c. c \<noteq> CHR ''/'') (drop 2 rest)) (v\<lparr> u_user := user, u_host := host \<rparr>) = Some u"
        "parse_authority (takeWhile (\<lambda>c. c \<noteq> CHR ''/'') (drop 2 rest)) = Some (user, host)"
    | (path) om where "set_path rest (v\<lparr> u_omit_host := om \<rparr>) = Some u"
  proof (cases "\<not> has_prefix rest ''/'' \<and> to_lower scheme \<noteq> []")
    case True
    with body show ?thesis using opaque by (simp only: if_True simp_thms option.inject)
  next
    case False
    note body = body [unfolded if_not_P [OF False]]
    then have colon: "\<not> (\<not> has_prefix rest ''/'' \<and> CHR '':'' \<in> set (takeWhile (\<lambda>c. c \<noteq> CHR ''/'') rest))" by (metis option.distinct(1))
    note body = body [unfolded if_not_P [OF colon]]
    show ?thesis
    proof (cases "(to_lower scheme \<noteq> [] \<or> \<not> has_prefix rest ''///'') \<and> has_prefix rest ''//''")
      case True
      from body [unfolded if_P [OF True]] show ?thesis using auth by (cases "parse_authority (takeWhile (\<lambda>c. c \<noteq> CHR ''/'') (drop 2 rest))") auto
    next
      case False
      from body [unfolded if_not_P [OF False]] show ?thesis by (rule path)
    qed
  qed
  then show ?thesis
  proof cases
    case opaque
    with vp show ?thesis by (intro that [OF gs q, of v]) simp_all
  next
    case auth
    have "set (takeWhile (\<lambda>c. c \<noteq> CHR ''/'') (drop 2 rest)) \<subseteq> set rest" by (auto dest: set_takeWhileD in_set_dropD)
    moreover have "u_host u = host" using host [OF auth(1)] by simp
    moreover note parse_authority_host [OF auth(2)]
    ultimately have "\<exists>x. set x \<subseteq> set rest \<and> parse_host x = Some (u_host u)" by blast
    show ?thesis
    proof (rule that [OF gs q])
      let ?v = "v\<lparr> u_user := user, u_host := host \<rparr>"
      show "u_opaque ?v = []" "u_raw_query ?v = query" using vp by simp_all
      have "\<not> u_omit_host ?v" using vp by simp
      with auth(1) \<open>\<exists>x. set x \<subseteq> set rest \<and> parse_host x = Some (u_host u)\<close>
      show "\<not> has_prefix rest ''/'' \<and> u_host u = [] \<and> u_raw_query u = query \<or>
         (\<exists>w. set_path (dropWhile (\<lambda>c. c \<noteq> CHR ''/'') w) ?v = Some u) \<and> \<not> u_omit_host ?v \<and>
           (\<exists>x. set x \<subseteq> set rest \<and> parse_host x = Some (u_host u)) \<or>
         set_path rest ?v = Some u \<and> u_host u = []" by blast
    qed
  next
    case path
    with vp host [OF path] show ?thesis by (intro that [OF gs q, of "v\<lparr> u_omit_host := om \<rparr>"]) simp_all
  qed
qed

lemma url_parse_body_shape:
  assumes u: "url_parse_body raw = Some u"
  shows "set (u_raw_query u) \<subseteq> set raw" "\<not> has_ctl_byte (u_raw_query u)"
    "u_host u \<noteq> [] \<Longrightarrow> u_opaque u = [] \<and> \<not> u_omit_host u \<and> path_start (u_path u)"
    "has_prefix raw ''/'' \<Longrightarrow> u_opaque u = [] \<and> path_start (u_path u)"
proof -
  have "set (u_raw_query u) \<subseteq> set raw \<and> (u_host u \<noteq> [] \<longrightarrow> u_opaque u = [] \<and> \<not> u_omit_host u \<and> path_start (u_path u)) \<and>
    (has_prefix raw ''/'' \<longrightarrow> u_opaque u = [] \<and> path_start (u_path u))"
  proof (cases "raw = ''*''")
    case True
    with u show ?thesis by (auto simp: url_parse_body_def has_ctl_byte_def empty_url_def has_prefix_def)
  next
    case False
    obtain scheme rest0 rest query v where p: "get_scheme raw = Some (scheme, rest0)"
      "rest = butlast rest0 \<and> has_suffix rest0 ''?'' \<and> query = [] \<or> rest = rest0 \<and> query = [] \<or> str_cut (CHR ''?'') rest0 = Some (rest, query)"
      "u_opaque v = []" "u_raw_query v = query"
      "\<not> has_prefix rest ''/'' \<and> u_host u = [] \<and> u_raw_query u = query \<or>
         (\<exists>w. set_path (dropWhile (\<lambda>c. c \<noteq> CHR ''/'') w) v = Some u) \<and> \<not> u_omit_host v \<and>
           (\<exists>x. set x \<subseteq> set rest \<and> parse_host x = Some (u_host u)) \<or>
         set_path rest v = Some u \<and> u_host u = []"
      by (rule url_parse_body_parts [OF u False])
    have q: "set query \<subseteq> set raw" using p(2) get_scheme_set [OF p(1)] str_cut_set [of "CHR ''?''" rest0 rest query] by auto
    have rest: "has_prefix rest ''/''" if slash: "has_prefix raw ''/''"
    proof -
      have "rest0 = raw" using p(1) get_scheme_slash [OF slash] by simp
      moreover obtain r where "raw = CHR ''/'' # r"
      proof (cases raw)
        case (Cons c r)
        with slash have "c = CHR ''/''" by (simp add: has_prefix_def)
        with Cons that show ?thesis by blast
      qed (use slash in \<open>simp add: has_prefix_def\<close>)
      ultimately have r: "rest0 = CHR ''/'' # r" by simp
      from p(2) show ?thesis
        unfolding r by (auto simp: has_prefix_def has_suffix_def str_cut_def split: if_splits)
    qed
    then have start: "path_start rest" if "has_prefix raw ''/''" using that by (cases rest) (auto simp: path_start_def has_prefix_def)
    from p(5) show ?thesis
    proof (elim disjE conjE exE)
      assume "\<not> has_prefix rest ''/''" "u_host u = []" "u_raw_query u = query"
      with q rest show ?thesis by blast
    next
      fix w assume "set_path (dropWhile (\<lambda>c. c \<noteq> CHR ''/'') w) v = Some u" "\<not> u_omit_host v"
      with set_path_read [OF this(1) dropWhile_path_start] q p(3,4) show ?thesis by simp
    next
      assume s: "set_path rest v = Some u" "u_host u = []"
      from s(1) have "u_raw_query u = query" using p(4) by (auto simp: set_path_def split: option.splits)
      with s q set_path_read [OF s(1) start] p(3) show ?thesis by auto
    qed
  qed
  moreover have "\<not> has_ctl_byte raw" using u by (auto simp: url_parse_body_def)
  ultimately show "set (u_raw_query u) \<subseteq> set raw" "\<not> has_ctl_byte (u_raw_query u)"
    "u_host u \<noteq> [] \<Longrightarrow> u_opaque u = [] \<and> \<not> u_omit_host u \<and> path_start (u_path u)"
    "has_prefix raw ''/'' \<Longrightarrow> u_opaque u = [] \<and> path_start (u_path u)"
    by (auto simp: has_ctl_byte_def list_ex_iff)
qed


text \<open>The host of an address is read from a part of its text.\<close>

lemma url_parse_host:
  assumes "url_parse raw = Some u" and "u_host u \<noteq> []"
  shows "\<exists>x. set x \<subseteq> set raw \<and> parse_host x = Some (u_host u)"
proof -
  obtain body v where b: "url_parse_body body = Some v" "u_host v = u_host u" "set body \<subseteq> set raw"
  proof (cases "str_cut (CHR ''#'') raw")
    case None
    with assms(1) show ?thesis by (intro that [of raw u]) (simp_all add: url_parse_def)
  next
    case (Some bf)
    then obtain body frag where bf: "str_cut (CHR ''#'') raw = Some (body, frag)" by (cases bf) simp
    with assms(1) obtain v f where "url_parse_body body = Some v" "u = v\<lparr> u_fragment := f \<rparr>" by (auto simp: url_parse_def split: option.splits)
    then show ?thesis using str_cut_set [OF bf] by (intro that [of body v]) simp_all
  qed
  have "body \<noteq> ''*''" using b(1,2) assms(2) by (auto simp: url_parse_body_def has_ctl_byte_def empty_url_def)
  from url_parse_body_parts [OF b(1) this] obtain scheme rest0 rest query where
    p: "get_scheme body = Some (scheme, rest0)"
      "rest = butlast rest0 \<and> has_suffix rest0 ''?'' \<and> query = [] \<or> rest = rest0 \<and> query = [] \<or> str_cut (CHR ''?'') rest0 = Some (rest, query)"
      "u_host v = [] \<or> (\<exists>x. set x \<subseteq> set rest \<and> parse_host x = Some (u_host v))" by metis
  have "set rest \<subseteq> set body"
    using p(2) get_scheme_set [OF p(1)] str_cut_set [of "CHR ''?''" rest0 rest query] in_set_butlastD [of _ rest0] by blast
  with p(3) b assms(2) show ?thesis by auto
qed

lemma url_parse_shape:
  assumes u: "url_parse raw = Some u"
  shows "CHR ''#'' \<notin> set (u_raw_query u)" "\<not> has_ctl_byte (u_raw_query u)"
    "u_host u \<noteq> [] \<Longrightarrow> u_opaque u = [] \<and> \<not> u_omit_host u \<and> path_start (u_path u)"
    "has_prefix raw ''/'' \<Longrightarrow> u_opaque u = [] \<and> path_start (u_path u)"
proof -
  obtain body v f where b: "url_parse_body body = Some v" "u = v\<lparr> u_fragment := f \<rparr>" "CHR ''#'' \<notin> set body" "body = takeWhile (\<lambda>c. c \<noteq> CHR ''#'') raw"
  proof (cases "str_cut (CHR ''#'') raw")
    case None
    then have "CHR ''#'' \<notin> set raw" by (auto simp: str_cut_def split: if_splits)
    moreover have "CHR ''#'' \<notin> set s \<Longrightarrow> s = takeWhile (\<lambda>c. c \<noteq> CHR ''#'') s" for s by (induction s) auto
    moreover have "url_parse_body raw = Some u" using u None by (simp add: url_parse_def)
    moreover have "u = u\<lparr> u_fragment := u_fragment u \<rparr>" by simp
    ultimately show ?thesis by (intro that [of raw u "u_fragment u"]) simp_all
  next
    case (Some bf)
    then obtain body frag where bf: "str_cut (CHR ''#'') raw = Some (body, frag)" by (cases bf) simp
    with u obtain v f where "url_parse_body body = Some v" "u = v\<lparr> u_fragment := f \<rparr>" by (auto simp: url_parse_def split: option.splits)
    moreover have "body = takeWhile (\<lambda>c. c \<noteq> CHR ''#'') raw" using bf by (auto simp: str_cut_def split: if_splits)
    ultimately show ?thesis using that str_cut_set [OF bf] by blast
  qed
  note shape = url_parse_body_shape [OF b(1)]
  show "CHR ''#'' \<notin> set (u_raw_query u)" "\<not> has_ctl_byte (u_raw_query u)" using shape(1,2) b(2,3) by auto
  show "u_host u \<noteq> [] \<Longrightarrow> u_opaque u = [] \<and> \<not> u_omit_host u \<and> path_start (u_path u)" using shape(3) b(2) by simp
  have "has_prefix raw ''/'' \<Longrightarrow> has_prefix body ''/''" unfolding b(4) by (cases raw) (simp_all add: has_prefix_def)
  then show "has_prefix raw ''/'' \<Longrightarrow> u_opaque u = [] \<and> path_start (u_path u)" using shape(4) b(2) by simp
qed

lemma client_url_web:
  assumes b: "parse_server_url raw = Inr (Some b)" "plain_text raw" and r: "parse_relative_path path = Inr r"
  shows "web_url (client_url b r)"
proof -
  from b(1) obtain u where u: "url_parse raw = Some u" "b = u\<lparr> u_path := trim_right_slash (u_path u), u_raw_path := [] \<rparr>" "u_host u \<noteq> []"
    by (auto simp: parse_server_url_def split: if_splits option.splits)
  note shape = url_parse_shape [OF u(1)]
  have host: "plain_host (u_host b)"
    using url_parse_host [OF u(1,3)] parse_plain_host plain_text_subset [OF b(2)] u(2,3) by auto
  from r have rr: "url_parse path = Some r" "has_prefix path ''/''" by (auto simp: parse_relative_path_def split: if_splits option.splits)
  note rshape = url_parse_shape [OF rr(1)]
  have bp: "path_start (u_path b)" using shape(3) [OF u(3)] trim_right_slash_start [of "u_path u"] u(2) by (simp add: path_start_def)
  then have "path_start (trim_right_slash (u_path b))" using trim_right_slash_start [of "u_path b"] by (simp add: path_start_def)
  then have start: "path_start (trim_right_slash (u_path b) @ u_path r)"
    using rshape(4) [OF rr(2)] by (cases "trim_right_slash (u_path b)") (simp_all add: path_start_def)
  from parse_server_url_Some [OF b(1)] shape(3) [OF u(3)] u(2)
  have "u_scheme b \<in> {''http'', ''https''}" "u_user b = None" "u_opaque b = []" "\<not> u_omit_host b" by simp_all
  then show ?thesis using start host rshape(1,2) by (simp add: web_url_def client_url_def path_start_def)
qed

lemma trim_right_slash_idem: "trim_right_slash (trim_right_slash s) = trim_right_slash s"
proof -
  have "dropWhile P (dropWhile P xs) = dropWhile P xs" for P and xs :: string by (induction xs) auto
  then show ?thesis by (simp add: trim_right_slash_def)
qed

lemma base_path_trimmed: "parse_server_url raw = Inr (Some b) \<Longrightarrow> trim_right_slash (u_path b) = u_path b"
  by (auto simp: parse_server_url_def trim_right_slash_idem split: if_splits option.splits)

text \<open>The configured address of a target.\<close>

definition target_address :: "bridge_context \<Rightarrow> upstream \<Rightarrow> string" where
  "target_address ctx t = (case t of Target_Server \<Rightarrow> bc_server ctx | Target_Mcp \<Rightarrow> bc_mcp_server ctx | Target_Other _ \<Rightarrow> [])"

lemma base_url_parsed:
  "new_bridge_client tokenOverride getenv ctx = Inr c \<Longrightarrow> base_url_of c t = Inr b \<Longrightarrow> parse_server_url (target_address ctx t) = Inr (Some b)"
  by (cases t) (auto simp: new_bridge_client_def base_url_of_def target_address_def split: sum.splits option.splits)

text \<open>Which headers a request has.\<close>

lemma header_add_keys: "fst ` set (header_add name v h) \<subseteq> insert (canonical_header name) (fst ` set h)"
  by (auto simp: header_add_def amap_put_def)

lemma add_values_keys: "fst ` set (fold (header_add key) vs h) \<subseteq> insert (canonical_header key) (fst ` set h)"
proof (induction vs arbitrary: h)
  case (Cons v vs)
  show ?case using Cons.IH [of "header_add key v h"] header_add_keys [of key v h] unfolding fold_simps by blast
qed auto

lemma copied_keys: "fst ` set (copy_allowed_headers [] headers) \<subseteq> {''Accept'', ''Content-Type''}"
proof -
  have canon: "canonical_header ''Accept'' = ''Accept''" "canonical_header ''Content-Type'' = ''Content-Type''" by code_simp+
  let ?a = "fold (header_add ''Accept'') (header_values headers ''Accept'') []"
  have "fst ` set ?a \<subseteq> {''Accept''}" using add_values_keys [of "''Accept''" _ "[]"] by (simp add: canon)
  moreover have "fst ` set (fold (header_add ''Content-Type'') (header_values headers ''Content-Type'') ?a) \<subseteq> insert ''Content-Type'' (fst ` set ?a)"
    using add_values_keys [of "''Content-Type''"] by (simp add: canon)
  ultimately show ?thesis unfolding copy_allowed_headers_def copied_headers_def fold_simps by blast
qed

text \<open>
  C14: a request goes where its target is configured. The path that a caller gives can only
  extend the path of the configured address, without climbing out of it: the scheme and the
  host of the request are the target's. No header of the caller passes but the accepted and
  the sent content type, and the authorization is the client's own token or absent. The
  configured address is assumed to be ASCII text without a percent sign: names, IPv4 and
  bracketed IPv6 hosts with or without a port, but no zone and no percent-encoded name.
\<close>

theorem client_destination_contained:
  assumes c: "new_bridge_client tokenOverride getenv ctx = Inr c"
    and rq: "client_request_for c t verb path headers = Inr rq"
    and plain: "plain_text (target_address ctx t)"
  shows "\<exists>b suffix. parse_server_url (target_address ctx t) = Inr (Some b) \<and>
    u_scheme (cr_url rq) = u_scheme b \<and> u_host (cr_url rq) = remove_empty_port (u_host b) \<and> u_user (cr_url rq) = None \<and>
    u_path (cr_url rq) = u_path b @ suffix \<and> ''..'' \<notin> set (split_at_char (CHR ''/'') suffix) \<and>
    fst ` set (cr_headers rq) \<subseteq> {''Accept'', ''Content-Type'', ''Authorization''} \<and>
    (\<forall>vs. (''Authorization'', vs) \<in> set (cr_headers rq) \<longrightarrow> bl_token c \<noteq> [] \<and> vs = [''Bearer '' @ bl_token c])"
proof -
  from rq obtain b r u where b: "base_url_of c t = Inr b" and r: "parse_relative_path path = Inr r"
    and u: "url_parse (url_string (client_url b r)) = Some u"
    and q: "rq = \<lparr> cr_method = (if verb = [] then ''GET'' else verb), cr_url = u\<lparr> u_host := remove_empty_port (u_host u) \<rparr>,
                 cr_headers = authorize (bl_token c) (copy_allowed_headers [] headers) \<rparr>"
    by (auto simp: client_request_for_def split: sum.splits option.splits if_splits)
  have raw: "parse_server_url (target_address ctx t) = Inr (Some b)" by (rule base_url_parsed [OF c b])
  have web: "web_url (client_url b r)" by (rule client_url_web [OF raw plain r])
  have cu: "cr_url rq = (client_url b r)\<lparr> u_host := remove_empty_port (u_host b), u_force_query := u_force_query (client_url b r) \<and> u_raw_query (client_url b r) = [] \<rparr>"
    using u web_url_text_roundtrip [OF web] q by (simp add: client_url_def)
  have "''..'' \<notin> set (split_at_char (CHR ''/'') (u_path r))"
    using r by (auto simp: parse_relative_path_def split: if_splits option.splits)
  moreover have "u_user b = None" using parse_server_url_Some [OF raw] by simp
  moreover have "fst ` set (cr_headers rq) \<subseteq> {''Accept'', ''Content-Type'', ''Authorization''}"
    using copied_keys [of headers] unfolding q by (auto simp: authorize_def amap_put_def)
  moreover have "bl_token c \<noteq> [] \<and> vs = [''Bearer '' @ bl_token c]" if "(''Authorization'', vs) \<in> set (cr_headers rq)" for vs
    using that copied_keys [of headers] unfolding q by (force simp: authorize_def amap_put_def split: if_splits)
  ultimately show ?thesis using raw cu base_path_trimmed [OF raw]
    by (intro exI [of _ b] exI [of _ "u_path r"]) (simp add: client_url_def)
qed

definition sample_context :: bridge_context where
  "sample_context = no_context\<lparr> bc_server := ''http://erp:8080/base/'', bc_api_token := ''t'' \<rparr>"

lemma client_destination_contained_witness:
  "\<exists>rq suffix. client_request_for \<lparr> bl_server = Some (empty_url\<lparr> u_scheme := ''http'', u_host := ''erp:8080'', u_path := ''/base'' \<rparr>),
      bl_mcp = None, bl_token = ''t'', bl_max = default_max_response_bytes \<rparr> Target_Server [] ''/v1/tools?all=1'' [(''Cookie'', [''c''])] = Inr rq \<and>
    u_host (cr_url rq) = ''erp:8080'' \<and> u_path (cr_url rq) = ''/base'' @ suffix \<and>
    fst ` set (cr_headers rq) \<subseteq> {''Accept'', ''Content-Type'', ''Authorization''}"
proof -
  let ?b = "empty_url\<lparr> u_scheme := ''http'', u_host := ''erp:8080'', u_path := ''/base'' \<rparr>"
  let ?c = "\<lparr> bl_server = Some ?b, bl_mcp = None, bl_token = ''t'', bl_max = default_max_response_bytes \<rparr>"
  let ?rq = "\<lparr> cr_method = ''GET'', cr_url = ?b\<lparr> u_path := ''/base/v1/tools'', u_raw_query := ''all=1'' \<rparr>,
      cr_headers = [(''Authorization'', [''Bearer t''])] \<rparr>"
  have b: "parse_server_url (target_address sample_context Target_Server) = Inr (Some ?b)" by code_simp
  have c: "new_bridge_client [] (\<lambda>_. []) sample_context = Inr ?c" by code_simp
  have r: "client_request_for ?c Target_Server [] ''/v1/tools?all=1'' [(''Cookie'', [''c''])] = Inr ?rq" by code_simp
  have "plain_text (target_address sample_context Target_Server)"
    by (simp add: plain_text_def target_address_def sample_context_def no_context_def)
  from client_destination_contained [OF c r this] b r show ?thesis by auto
qed

end
