(* ===== verification/Json_Indent.thy ===== *)
theory Json_Indent
  imports Json_Roundtrip
begin

text \<open>
  \<open>json.MarshalIndent\<close> with an empty prefix and two spaces, the form the registry and the
  generated tools are saved in, and the proof that decoding reads it back. The members of an
  object are written in the order they have: a struct lists its fields, a map its sorted keys.
\<close>

definition new_line :: "nat \<Rightarrow> string" where
  "new_line d = CHR 0x0A # replicate (2 * d) (CHR 0x20)"

fun json_indent :: "nat \<Rightarrow> jval \<Rightarrow> string" where
  "json_indent d (JArr vs) = (if vs = [] then ''[]''
     else ''['' @ new_line (Suc d) @ join_with ('','' @ new_line (Suc d)) (map (json_indent (Suc d)) vs) @ new_line d @ '']'')"
| "json_indent d (JObj ms) = (if ms = [] then ''{}''
     else ''{'' @ new_line (Suc d) @
       join_with ('','' @ new_line (Suc d)) (map (\<lambda>(k, v). json_string k @ '': '' @ json_indent (Suc d) v) ms) @ new_line d @ ''}'')"
| "json_indent d v = json_text v"

definition marshal_indent :: "jval \<Rightarrow> string" where
  "marshal_indent v = json_indent 0 v"

lemma skip_new_line [simp]: "skip_ws (new_line d @ s) = skip_ws s"
proof -
  have "skip_ws (replicate n (CHR 0x20) @ s) = skip_ws s" for n
    by (induction n) (simp_all add: skip_ws_def is_json_space_def)
  then show ?thesis by (simp add: new_line_def skip_ws_def is_json_space_def)
qed

lemma delimited_new_line [simp]: "delimited (new_line d @ s)"
  by (simp add: new_line_def)

lemma decode_value_skip: "decode_value n s = decode_value n (skip_ws s)"
  by (cases n) (simp_all add: skip_ws_def)

lemma decode_elements_skip: "decode_elements n acc s = decode_elements n acc (skip_ws s)"
  by (cases n) (simp_all, metis decode_value_skip)

lemma decode_members_skip: "decode_members n acc s = decode_members n acc (skip_ws s)"
  by (cases n) (simp_all add: skip_ws_def)

lemma decode_skips_line [simp]:
  "decode_value n (new_line d @ s) = decode_value n s"
  "decode_elements n vs (new_line d @ s) = decode_elements n vs s"
  "decode_members n ms (new_line d @ s) = decode_members n ms s"
  by (metis decode_value_skip skip_new_line)+ (metis decode_elements_skip skip_new_line, metis decode_members_skip skip_new_line)

text \<open>The decoder reads an indented value and leaves what follows, for every sufficient fuel.\<close>

definition indent_reads :: "nat \<Rightarrow> jval \<Rightarrow> bool" where
  "indent_reads d v \<longleftrightarrow> (\<forall>n r. length (json_indent d v) < n \<longrightarrow> delimited r \<longrightarrow>
     decode_value n (json_indent d v @ r) = Some (v, r))"

lemma indent_readsD:
  "indent_reads d v \<Longrightarrow> length (json_indent d v) < n \<Longrightarrow> delimited r \<Longrightarrow> decode_value n (json_indent d v @ r) = Some (v, r)"
  by (simp add: indent_reads_def)

lemma skip_ws_not_space [simp]: "skip_ws (CHR '','' # s) = CHR '','' # s" "skip_ws (CHR '']'' # s) = CHR '']'' # s" "skip_ws (CHR ''}'' # s) = CHR ''}'' # s"
  by simp_all

lemma indented_elements:
  assumes "vs \<noteq> []" and "\<forall>v \<in> set vs. indent_reads e v"
    and "length (join_with ('','' @ new_line e) (map (json_indent e) vs)) + 1 < n"
  shows "decode_elements n acc (join_with ('','' @ new_line e) (map (json_indent e) vs) @ new_line d @ CHR '']'' # r) = Some (JArr (acc @ vs), r)"
  using assms
proof (induction vs arbitrary: acc n rule: list_nonempty_induct)
  case (single v)
  obtain m where n: "n = Suc m" using single.prems(2) by (cases n) auto
  have "decode_value m (json_indent e v @ new_line d @ CHR '']'' # r) = Some (v, new_line d @ CHR '']'' # r)"
    using single.prems n by (intro indent_readsD) auto
  with n show ?case by simp
next
  case (cons v vs)
  obtain m where n: "n = Suc m" using cons.prems(2) by (cases n) auto
  have j: "join_with ('','' @ new_line e) (map (json_indent e) (v # vs)) =
      json_indent e v @ CHR '','' # new_line e @ join_with ('','' @ new_line e) (map (json_indent e) vs)"
    using cons.hyps(1) by (cases vs) auto
  let ?rest = "join_with ('','' @ new_line e) (map (json_indent e) vs) @ new_line d @ CHR '']'' # r"
  have "decode_value m (json_indent e v @ CHR '','' # new_line e @ ?rest) = Some (v, CHR '','' # new_line e @ ?rest)"
    using cons.prems n j by (intro indent_readsD) auto
  moreover have "decode_elements m (acc @ [v]) ?rest = Some (JArr ((acc @ [v]) @ vs), r)"
    using cons.prems n j by (intro cons.IH) auto
  ultimately show ?case using n j by simp
qed

definition member_line :: "nat \<Rightarrow> string \<times> jval \<Rightarrow> string" where
  "member_line e p = json_string (fst p) @ '': '' @ json_indent e (snd p)"

lemma indented_member:
  assumes "indent_reads e (snd p)" and "length (json_indent e (snd p)) < m" and "delimited s"
  shows "decode_members (Suc m) acc (member_line e p @ s) =
     (case skip_ws s of [] \<Rightarrow> None
      | d # r \<Rightarrow> if d = CHR '','' then decode_members m (member_put (fst p) (snd p) acc) r
                 else if d = CHR ''}'' then Some (JObj (member_put (fst p) (snd p) acc), r) else None)"
proof -
  have "string_body (concat (map json_char (fst p)) @ CHR 0x22 # CHR '':'' # CHR 0x20 # json_indent e (snd p) @ s)
      = Some (fst p, CHR '':'' # CHR 0x20 # json_indent e (snd p) @ s)" by (rule string_body_text)
  moreover have "decode_value m (CHR 0x20 # json_indent e (snd p) @ s) = Some (snd p, s)"
  proof -
    have "decode_value m (CHR 0x20 # json_indent e (snd p) @ s) = decode_value m (json_indent e (snd p) @ s)"
      by (subst (1 2) decode_value_skip) (simp add: skip_ws_def is_json_space_def)
    also have "\<dots> = Some (snd p, s)" using assms by (intro indent_readsD)
    finally show ?thesis .
  qed
  ultimately show ?thesis by (simp add: member_line_def json_string_def)
qed

lemma indented_members:
  assumes "ms \<noteq> []" and "\<forall>p \<in> set ms. indent_reads e (snd p)"
    and "length (join_with ('','' @ new_line e) (map (member_line e) ms)) + 1 < n"
    and "distinct (map fst (acc @ ms))"
  shows "decode_members n acc (join_with ('','' @ new_line e) (map (member_line e) ms) @ new_line d @ CHR ''}'' # r) = Some (JObj (acc @ ms), r)"
  using assms
proof (induction ms arbitrary: acc n rule: list_nonempty_induct)
  case (single p)
  obtain m where n: "n = Suc m" using single.prems(2) by (cases n) auto
  have "length (json_indent e (snd p)) < m" using single.prems(2) n by (simp add: member_line_def)
  moreover have "member_put (fst p) (snd p) acc = acc @ [p]"
    using single.prems(3) by (simp add: member_put_new)
  ultimately show ?case
    using single.prems(1) n by (simp add: indented_member del: decode_members.simps)
next
  case (cons p ms)
  obtain m where n: "n = Suc m" using cons.prems(2) by (cases n) auto
  have j: "join_with ('','' @ new_line e) (map (member_line e) (p # ms)) =
      member_line e p @ CHR '','' # new_line e @ join_with ('','' @ new_line e) (map (member_line e) ms)"
    using cons.hyps(1) by (cases ms) auto
  have "length (json_indent e (snd p)) < length (member_line e p)" by (simp add: member_line_def)
  then have "length (json_indent e (snd p)) < m" using cons.prems(2) n j by simp
  moreover have "member_put (fst p) (snd p) acc = acc @ [p]"
    using cons.prems(3) by (simp add: member_put_new)
  moreover have "decode_members m (acc @ [p]) (join_with ('','' @ new_line e) (map (member_line e) ms) @ new_line d @ CHR ''}'' # r)
      = Some (JObj ((acc @ [p]) @ ms), r)"
    using cons.prems n j by (intro cons.IH) auto
  ultimately show ?case
    using cons.prems(1) n j by (simp add: indented_member del: decode_members.simps)
qed

lemma json_indent_object:
  "ms \<noteq> [] \<Longrightarrow> json_indent d (JObj ms) = ''{'' @ new_line (Suc d) @
     join_with ('','' @ new_line (Suc d)) (map (member_line (Suc d)) ms) @ new_line d @ ''}''"
proof -
  have "member_line (Suc d) = (\<lambda>(k, v). json_string k @ '': '' @ json_indent (Suc d) v)"
    by (simp add: member_line_def fun_eq_iff)
  then show "ms \<noteq> [] \<Longrightarrow> ?thesis" by simp
qed

text \<open>A value the writer can be given: number literals are well formed, member names differ.\<close>

fun writable_json :: "jval \<Rightarrow> bool" where
  "writable_json (JNum n) = (number_literal n = Some (n, []))"
| "writable_json (JArr vs) = (\<forall>v \<in> set vs. writable_json v)"
| "writable_json (JObj ms) = (distinct (map fst ms) \<and> (\<forall>p \<in> set ms. writable_json (snd p)))"
| "writable_json _ = True"

lemma json_indent_head:
  assumes "writable_json v"
  shows "\<exists>c t. json_indent d v = c # t \<and> \<not> is_json_space c \<and> c \<noteq> CHR '']''"
proof (cases v)
  case (JNum n)
  with assms json_text_head [of v] show ?thesis by simp
qed (use json_text_head [of v] in auto)

lemma indented_scalar: "canonical_json v \<Longrightarrow> json_indent d v = json_text v \<Longrightarrow> indent_reads d v"
  using canonical_reads_back [of v] by (simp add: indent_reads_def reads_back_def)

lemma writable_indent_reads: "writable_json v \<Longrightarrow> indent_reads d v"
proof (induction v arbitrary: d rule: writable_json.induct)
  case (2 vs)
  then have vs: "\<forall>v \<in> set vs. indent_reads (Suc d) v" "\<forall>v \<in> set vs. writable_json v" by auto
  show ?case
  proof (cases vs)
    case Nil
    then show ?thesis by (intro indented_scalar) simp_all
  next
    case (Cons v ws)
    have "decode_value k (json_indent d (JArr vs) @ r) = Some (JArr vs, r)" if k: "length (json_indent d (JArr vs)) < k" for k r
    proof -
      let ?body = "join_with ('','' @ new_line (Suc d)) (map (json_indent (Suc d)) vs) @ new_line d @ CHR '']'' # r"
      obtain m where m: "k = Suc m" using k by (cases k) auto
      obtain c t where c: "json_indent (Suc d) v = c # t" "\<not> is_json_space c" "c \<noteq> CHR '']''"
        using json_indent_head vs(2) Cons by (metis list.set_intros(1))
      then have "\<exists>u. ?body = c # u" using Cons by (cases ws) auto
      moreover have "decode_elements m [] ?body = Some (JArr ([] @ vs), r)"
        using k m vs(1) Cons by (intro indented_elements) auto
      ultimately show ?thesis using m c Cons by auto
    qed
    then show ?thesis by (simp add: indent_reads_def)
  qed
next
  case (3 ms)
  then have ms: "\<forall>p \<in> set ms. indent_reads (Suc d) (snd p)" "distinct (map fst ms)" by auto
  show ?case
  proof (cases ms)
    case Nil
    then show ?thesis by (intro indented_scalar) (simp_all add: sort_members_def)
  next
    case (Cons p ps)
    have "decode_value k (json_indent d (JObj ms) @ r) = Some (JObj ms, r)" if k: "length (json_indent d (JObj ms)) < k" for k r
    proof -
      let ?body = "join_with ('','' @ new_line (Suc d)) (map (member_line (Suc d)) ms) @ new_line d @ CHR ''}'' # r"
      have ne: "ms \<noteq> []" using Cons by simp
      obtain m where m: "k = Suc m" using k by (cases k) auto
      have "\<exists>u. ?body = CHR 0x22 # u"
        using Cons by (cases ps) (auto simp: member_line_def json_string_def)
      moreover have "decode_members m [] ?body = Some (JObj ([] @ ms), r)"
        using k m ms ne unfolding json_indent_object [OF ne] by (intro indented_members) auto
      ultimately show ?thesis unfolding json_indent_object [OF ne] using m by auto
    qed
    then show ?thesis by (simp add: indent_reads_def)
  qed
qed (simp_all add: indented_scalar)

lemma json_unmarshal_indent:
  assumes "writable_json v"
  shows "json_unmarshal (marshal_indent v) = Some v"
proof -
  have "decode_value (Suc (length (json_indent 0 v))) (json_indent 0 v @ []) = Some (v, [])"
    by (rule indent_readsD [OF writable_indent_reads [OF assms]]) simp_all
  then show ?thesis by (simp add: json_unmarshal_def marshal_indent_def skip_ws_def)
qed

subsection \<open>Decoded objects\<close>

text \<open>Decoding keeps one member for every name.\<close>

fun unique_members :: "jval \<Rightarrow> bool" where
  "unique_members (JArr vs) = (\<forall>v \<in> set vs. unique_members v)"
| "unique_members (JObj ms) = (distinct (map fst ms) \<and> (\<forall>p \<in> set ms. unique_members (snd p)))"
| "unique_members _ = True"

lemma member_put_unique:
  "unique_members (JObj acc) \<Longrightarrow> unique_members v \<Longrightarrow> unique_members (JObj (member_put k v acc))"
  by (auto simp: member_put_def distinct_map_filter)

lemma decode_members_step:
  assumes "decode_members (Suc n) ms s = Some (v, r)"
  obtains k x rest t where "decode_value n rest = Some (x, t)"
    "v = JObj (member_put k x ms) \<or> (\<exists>t. decode_members n (member_put k x ms) t = Some (v, r))"
  using assms by (auto split: list.splits if_splits option.splits) blast+

lemma decode_elements_step:
  assumes "decode_elements (Suc n) vs s = Some (v, r)"
  obtains x t where "decode_value n s = Some (x, t)" "v = JArr (vs @ [x]) \<or> (\<exists>u. decode_elements n (vs @ [x]) u = Some (v, r))"
  using assms by (auto split: list.splits if_splits option.splits) blast+

lemma decode_unique:
  "(\<forall>s v r. decode_value n s = Some (v, r) \<longrightarrow> unique_members v) \<and>
   (\<forall>ms s v r. unique_members (JObj ms) \<longrightarrow> decode_members n ms s = Some (v, r) \<longrightarrow> unique_members v) \<and>
   (\<forall>vs s v r. unique_members (JArr vs) \<longrightarrow> decode_elements n vs s = Some (v, r) \<longrightarrow> unique_members v)"
proof (induction n)
  case (Suc n)
  then have IH: "\<And>s v r. decode_value n s = Some (v, r) \<Longrightarrow> unique_members v"
    "\<And>ms s v r. unique_members (JObj ms) \<Longrightarrow> decode_members n ms s = Some (v, r) \<Longrightarrow> unique_members v"
    "\<And>vs s v r. unique_members (JArr vs) \<Longrightarrow> decode_elements n vs s = Some (v, r) \<Longrightarrow> unique_members v"
    by blast+
  have "unique_members v" if "decode_value (Suc n) s = Some (v, r)" for s v r
    using that IH(2) [of "[]"] IH(3) [of "[]"] by (auto split: list.splits if_splits)
  moreover have "unique_members v" if "unique_members (JObj ms)" "decode_members (Suc n) ms s = Some (v, r)" for ms s v r
  proof (rule decode_members_step [OF that(2)])
    fix k x rest t
    assume x: "decode_value n rest = Some (x, t)"
      and v: "v = JObj (member_put k x ms) \<or> (\<exists>t. decode_members n (member_put k x ms) t = Some (v, r))"
    from x IH(1) have "unique_members x" by blast
    with that(1) have "unique_members (JObj (member_put k x ms))" by (rule member_put_unique)
    with v IH(2) show "unique_members v" by blast
  qed
  moreover have "unique_members v" if "unique_members (JArr vs)" "decode_elements (Suc n) vs s = Some (v, r)" for vs s v r
  proof -
    from that(2) obtain x t where x: "decode_value n s = Some (x, t)"
      and v: "v = JArr (vs @ [x]) \<or> (\<exists>u. decode_elements n (vs @ [x]) u = Some (v, r))"
      by (rule decode_elements_step)
    from IH(1) [OF x] that(1) have "unique_members (JArr (vs @ [x]))" by simp
    with v IH(3) show ?thesis by blast
  qed
  ultimately show ?case by blast
qed simp

lemma json_unmarshal_unique:
  assumes "json_unmarshal s = Some v"
  shows "unique_members v"
proof -
  from assms obtain r where "decode_value (Suc (length s)) s = Some (v, r)"
    unfolding json_unmarshal_def by (cases "decode_value (Suc (length s)) s") (auto simp del: decode_value.simps split: if_splits)
  with decode_unique [of "Suc (length s)"] show ?thesis by blast
qed

end
