(* ===== verification/Idp_Registry.thy ===== *)
theory Idp_Registry
  imports Json_Indent Cli_Result Config
begin

text \<open>
  internal/idp/registry.go: the file of registered APIs that bridgectl keeps for a context,
  shared by concurrent commands through a lock file and replaced as a whole by a rename. The
  texts of times are the time library's and a parameter.
\<close>

subsection \<open>Registered APIs\<close>

record api =
  ap_id :: string
  ap_name :: string
  ap_url :: string
  ap_method :: string
  ap_auth_type :: string
  ap_auth_header :: string
  ap_credential_ref :: string
  ap_credential_source :: string
  ap_auth_username :: string
  ap_module :: string
  ap_description :: string
  ap_status :: string
  ap_created_at :: timestamp

type_synonym apis = "(string \<times> api) list"

record time_codec =
  tc_format :: "timestamp \<Rightarrow> string"
  tc_parse :: "string \<Rightarrow> timestamp option"

definition faithful_codec :: "time_codec \<Rightarrow> bool" where
  "faithful_codec tc \<longleftrightarrow> (\<forall>t. tc_parse tc (tc_format tc t) = Some t)"

text \<open>A member with \<open>omitempty\<close>.\<close>

definition opt_member :: "string \<Rightarrow> string \<Rightarrow> jargs" where
  "opt_member k v = (if v = [] then [] else [(k, JStr v)])"

definition api_members :: "time_codec \<Rightarrow> api \<Rightarrow> jargs" where
  "api_members tc a =
     [(''id'', JStr (ap_id a)), (''name'', JStr (ap_name a)), (''url'', JStr (ap_url a)), (''method'', JStr (ap_method a)),
      (''authType'', JStr (ap_auth_type a))] @ opt_member ''authHeader'' (ap_auth_header a) @
     opt_member ''credentialRef'' (ap_credential_ref a) @ opt_member ''credentialSource'' (ap_credential_source a) @
     opt_member ''authUsername'' (ap_auth_username a) @
     [(''module'', JStr (ap_module a)), (''description'', JStr (ap_description a)), (''status'', JStr (ap_status a)),
      (''createdAt'', JStr (tc_format tc (ap_created_at a)))]"

definition registry_text :: "time_codec \<Rightarrow> apis \<Rightarrow> string" where
  "registry_text tc as = marshal_indent (JObj [(''apis'', JObj (map (\<lambda>(name, a). (name, JObj (api_members tc a))) (sort_key fst as)))])"

definition decode_api :: "time_codec \<Rightarrow> jval \<Rightarrow> api option" where
  "decode_api tc v = do {
     m \<leftarrow> wire_object v;
     id \<leftarrow> field m ''id'' wire_string; name \<leftarrow> field m ''name'' wire_string;
     url \<leftarrow> field m ''url'' wire_string; method \<leftarrow> field m ''method'' wire_string;
     authType \<leftarrow> field m ''authType'' wire_string; authHeader \<leftarrow> field m ''authHeader'' wire_string;
     ref \<leftarrow> field m ''credentialRef'' wire_string; source \<leftarrow> field m ''credentialSource'' wire_string;
     user \<leftarrow> field m ''authUsername'' wire_string; moduleName \<leftarrow> field m ''module'' wire_string;
     description \<leftarrow> field m ''description'' wire_string; status \<leftarrow> field m ''status'' wire_string;
     created \<leftarrow> field m ''createdAt'' (wire_time (tc_parse tc));
     Some \<lparr> ap_id = id, ap_name = name, ap_url = url, ap_method = method, ap_auth_type = authType, ap_auth_header = authHeader,
       ap_credential_ref = ref, ap_credential_source = source, ap_auth_username = user, ap_module = moduleName,
       ap_description = description, ap_status = status, ap_created_at = (case created of None \<Rightarrow> zero_time | Some t \<Rightarrow> t) \<rparr> }"

datatype registry_error =
    Registry_Unreadable
  | Registry_Undecodable
  | Invalid_Credential_Source string
  | Missing_Credential_Ref string
  | Invalid_Credential_Ref string
  | Legacy_Credentials
  | Legacy_Registry
  | Registry_Conflict string
  | Api_Missing string
  | Registry_Locked
  | Registry_Dir_Failed
  | Registry_Save_Failed
  | Bad_Registry_Context config_error
  | Global_Missing
  | Global_Not_Removed

text \<open>The credential rules of a definition, for a file that is loaded and for a registration.\<close>

definition check_api :: "string \<Rightarrow> api \<Rightarrow> registry_error option" where
  "check_api name a =
     (if \<not> validate_credential_source (ap_credential_source a) then Some (Invalid_Credential_Source name)
      else if ap_credential_source a = ''file'' \<and> ap_credential_ref a = [] then Some (Missing_Credential_Ref name)
      else if ap_credential_ref a \<noteq> [] \<and> \<not> validate_reference (ap_credential_ref a) then Some (Invalid_Credential_Ref name)
      else None)"

definition legacy_members :: "jargs \<Rightarrow> bool" where
  "legacy_members m \<longleftrightarrow> map_of m ''authKey'' \<noteq> None \<or> map_of m ''authToken'' \<noteq> None"

subsection \<open>Loading\<close>

text \<open>One entry: its definition, and whether it has a raw credential.\<close>

definition load_api :: "time_codec \<Rightarrow> string \<times> jval \<Rightarrow> registry_error + (string \<times> api) \<times> bool" where
  "load_api tc e = (case (wire_object (snd e), decode_api tc (snd e)) of
       (Some m, Some a) \<Rightarrow> (case check_api (fst e) a of Some err \<Rightarrow> Inl err | None \<Rightarrow> Inr ((fst e, a), legacy_members m))
     | _ \<Rightarrow> Inl Registry_Undecodable)"

fun load_apis :: "time_codec \<Rightarrow> (string \<times> jval) list \<Rightarrow> registry_error + apis \<times> bool" where
  "load_apis tc [] = Inr ([], False)"
| "load_apis tc (e # es) = (case load_api tc e of
       Inl err \<Rightarrow> Inl err
     | Inr (entry, legacy) \<Rightarrow> (case load_apis tc es of
         Inl err \<Rightarrow> Inl err
       | Inr (rest, legacy') \<Rightarrow> Inr (entry # rest, legacy \<or> legacy')))"

definition load_text :: "time_codec \<Rightarrow> string \<Rightarrow> registry_error + apis \<times> bool" where
  "load_text tc s = (case json_unmarshal s of
       None \<Rightarrow> Inl Registry_Undecodable
     | Some v \<Rightarrow> (case Option.bind (wire_object v) (\<lambda>m. wire_object (wire_member ''apis'' m)) of
         None \<Rightarrow> Inl Registry_Undecodable
       | Some es \<Rightarrow> load_apis tc es))"

datatype registry_file = Registry_Absent | Registry_Denied | Registry_Text string

record idp_registry =
  ir_apis :: apis
  ir_legacy :: bool

definition empty_registry :: idp_registry where
  "empty_registry = \<lparr> ir_apis = [], ir_legacy = False \<rparr>"

text \<open>\<open>loadLocked\<close>, whose callers let a missing file be: it leaves the memory as it was.\<close>

definition load_locked :: "time_codec \<Rightarrow> registry_file \<Rightarrow> idp_registry \<Rightarrow> registry_error + idp_registry" where
  "load_locked tc f r = (case f of
       Registry_Absent \<Rightarrow> Inr r
     | Registry_Denied \<Rightarrow> Inl Registry_Unreadable
     | Registry_Text s \<Rightarrow> (case load_text tc s of
         Inl e \<Rightarrow> Inl e
       | Inr (as, legacy) \<Rightarrow> Inr \<lparr> ir_apis = as, ir_legacy = legacy \<rparr>))"

definition new_registry :: "time_codec \<Rightarrow> registry_file \<Rightarrow> registry_error + idp_registry" where
  "new_registry tc f = load_locked tc f empty_registry"

subsection \<open>Writing\<close>

text \<open>
  \<open>withWrite\<close> for one command. \<open>disk\<close> says what the operating system answers: whether the
  directory can be made, the lock taken and the new file put in place.
\<close>

record disk_answers =
  da_directory :: bool
  da_lock :: bool
  da_saved :: bool

definition with_write ::
  "time_codec \<Rightarrow> disk_answers \<Rightarrow> (apis \<Rightarrow> registry_error + apis) \<Rightarrow> idp_registry \<Rightarrow> registry_file \<Rightarrow>
     registry_error option \<times> idp_registry \<times> registry_file" where
  "with_write tc disk change r f =
     (if \<not> da_directory disk then (Some Registry_Dir_Failed, r, f)
      else if \<not> da_lock disk then (Some Registry_Locked, r, f)
      else (case load_locked tc f r of
          Inl e \<Rightarrow> (Some e, r, f)
        | Inr r1 \<Rightarrow>
            if ir_legacy r1 then (Some Legacy_Credentials, r1, f)
            else (case change (ir_apis r1) of
                Inl e \<Rightarrow> (Some e, r1, f)
              | Inr as \<Rightarrow>
                  if da_saved disk then (None, r1\<lparr> ir_apis := as \<rparr>, Registry_Text (registry_text tc as))
                  else (Some Registry_Save_Failed, r1\<lparr> ir_apis := as \<rparr>, f))))"

text \<open>The changes: registration with its time, removal, a credential reference, a migration.\<close>

datatype registry_op =
    Op_Register api bool timestamp
  | Op_Delete string
  | Op_Set_Ref string string
  | Op_Merge apis

definition stamped :: "timestamp \<Rightarrow> api \<Rightarrow> api" where
  "stamped now a = a\<lparr> ap_id := (if ap_id a = [] then ''api-'' @ itoa now else ap_id a), ap_created_at := now, ap_status := ''active'' \<rparr>"

fun change_of :: "registry_op \<Rightarrow> apis \<Rightarrow> registry_error + apis" where
  "change_of (Op_Register a force now) as =
     (if map_of as (ap_name a) \<noteq> None \<and> \<not> force then Inl (Registry_Conflict (ap_name a))
      else Inr (amap_put (ap_name a) (stamped now a) as))"
| "change_of (Op_Delete name) as = Inr (amap_del name as)"
| "change_of (Op_Set_Ref name ref) as = (case map_of as name of
       None \<Rightarrow> Inl (Api_Missing name)
     | Some a \<Rightarrow> Inr (amap_put name (a\<lparr> ap_credential_ref := ref \<rparr>) as))"
| "change_of (Op_Merge new) as = Inr (fold (\<lambda>(_, a). amap_put (ap_name a) a) new as)"

text \<open>\<open>RegisterWithOptions\<close>: the result says whether a definition was replaced.\<close>

definition register_with_options ::
  "time_codec \<Rightarrow> disk_answers \<Rightarrow> timestamp \<Rightarrow> api \<Rightarrow> bool \<Rightarrow> idp_registry \<Rightarrow> registry_file \<Rightarrow>
     (registry_error + bool) \<times> idp_registry \<times> registry_file" where
  "register_with_options tc disk now a force r f = (case check_api (ap_name a) a of
       Some e \<Rightarrow> (Inl e, r, f)
     | None \<Rightarrow> (case with_write tc disk (change_of (Op_Register a force now)) r f of
         (Some e, r', f') \<Rightarrow> (Inl e, r', f')
       | (None, r', f') \<Rightarrow>
           (Inr (case load_locked tc f r of Inr r1 \<Rightarrow> map_of (ir_apis r1) (ap_name a) \<noteq> None | Inl _ \<Rightarrow> False), r', f')))"

definition registry_delete :: "time_codec \<Rightarrow> disk_answers \<Rightarrow> string \<Rightarrow> idp_registry \<Rightarrow> registry_file \<Rightarrow>
    registry_error option \<times> idp_registry \<times> registry_file" where
  "registry_delete tc disk name r f = with_write tc disk (change_of (Op_Delete name)) r f"

definition set_credential_ref :: "time_codec \<Rightarrow> disk_answers \<Rightarrow> string \<Rightarrow> string \<Rightarrow> idp_registry \<Rightarrow> registry_file \<Rightarrow>
    registry_error option \<times> idp_registry \<times> registry_file" where
  "set_credential_ref tc disk name ref r f =
     (if \<not> validate_reference ref then (Some (Invalid_Credential_Ref name), r, f)
      else with_write tc disk (change_of (Op_Set_Ref name ref)) r f)"

definition registry_list :: "idp_registry \<Rightarrow> api list" where
  "registry_list r = sort_key ap_name (sort_key ap_id (map snd (ir_apis r)))"

definition registry_get :: "idp_registry \<Rightarrow> string \<Rightarrow> api option" where
  "registry_get r name = map_of (ir_apis r) name"

text \<open>\<open>ScrubCredentials\<close>: a file with raw credentials is written again without them.\<close>

definition scrub_credentials ::
  "time_codec \<Rightarrow> disk_answers \<Rightarrow> idp_registry \<Rightarrow> registry_file \<Rightarrow> registry_error option \<times> idp_registry \<times> registry_file" where
  "scrub_credentials tc disk r f =
     (if f = Registry_Absent then (None, empty_registry, f)
      else if \<not> da_lock disk then (Some Registry_Locked, r, f)
      else (case load_locked tc f r of
          Inl e \<Rightarrow> (Some e, r, f)
        | Inr r1 \<Rightarrow>
            if \<not> ir_legacy r1 then (None, r1, f)
            else if \<not> (da_directory disk \<and> da_saved disk) then (Some Registry_Save_Failed, r1, f)
            else (None, r1\<lparr> ir_legacy := False \<rparr>, Registry_Text (registry_text tc (ir_apis r1)))))"

text \<open>\<open>MigrateGlobalRegistry\<close>: the global file goes only after the target was written.\<close>

definition migrate_conflict :: "bool \<Rightarrow> idp_registry \<Rightarrow> api list \<Rightarrow> string option" where
  "migrate_conflict force target as = map_option ap_name (find (\<lambda>a. map_of (ir_apis target) (ap_name a) \<noteq> None \<and> \<not> force) as)"

definition migrate_global ::
  "time_codec \<Rightarrow> disk_answers \<Rightarrow> bool \<Rightarrow> config_error option \<Rightarrow> bool \<Rightarrow> registry_file \<Rightarrow> registry_file \<Rightarrow>
     (registry_error + nat) \<times> registry_file \<times> registry_file" where
  "migrate_global tc disk removable badContext force global f =
     (case badContext of Some e \<Rightarrow> (Inl (Bad_Registry_Context e), global, f) | None \<Rightarrow>
      if global = Registry_Absent then (Inl Global_Missing, global, f)
      else (case new_registry tc global of
          Inl e \<Rightarrow> (Inl e, global, f)
        | Inr source \<Rightarrow>
            if ir_legacy source then (Inl Legacy_Credentials, global, f)
            else (case new_registry tc f of
                Inl e \<Rightarrow> (Inl e, global, f)
              | Inr target \<Rightarrow>
                  let as = registry_list source in
                  (case migrate_conflict force target as of
                     Some name \<Rightarrow> (Inl (Registry_Conflict name), global, f)
                   | None \<Rightarrow> (case with_write tc disk (change_of (Op_Merge (map (\<lambda>a. (ap_name a, a)) as))) target f of
                       (Some e, _, f') \<Rightarrow> (Inl e, global, f')
                     | (None, _, f') \<Rightarrow>
                         if removable then (Inr (length as), Registry_Absent, f') else (Inl Global_Not_Removed, global, f'))))))"

subsection \<open>Round trip\<close>

definition api_keys :: "string list" where
  "api_keys = [''id'', ''name'', ''url'', ''method'', ''authType'', ''authHeader'', ''credentialRef'', ''credentialSource'',
     ''authUsername'', ''module'', ''description'', ''status'', ''createdAt'']"

lemma api_keys_folded: "inj_on fold_json_name (set api_keys)"
proof -
  have "distinct (map fold_json_name api_keys)" by code_simp
  then show ?thesis by (simp add: distinct_map)
qed

lemma api_members_keys: "set (map fst (api_members tc a)) \<subseteq> set api_keys" "distinct (map fst (api_members tc a))"
  by (auto simp: api_members_def opt_member_def api_keys_def)

lemma find_rev_key:
  assumes "distinct (map fst ms)"
  shows "find (\<lambda>m. fst m = k) (rev ms) = map_option (Pair k) (map_of ms k)"
proof -
  have f: "find (\<lambda>m. fst m = k) xs = map_option (Pair k) (map_of xs k)" for xs :: "('a \<times> 'b) list"
    by (induction xs) auto
  have "map_of (rev ms) = map_of ms" using assms by (subst map_of_inject_set) (simp_all add: rev_map [symmetric])
  with f [of "rev ms"] show ?thesis by simp
qed

lemma wire_member_exact:
  assumes "inj_on fold_json_name K" and "k \<in> K" and "fst ` set ms \<subseteq> K" and "distinct (map fst ms)"
  shows "wire_member k ms = (case map_of ms k of None \<Rightarrow> JNull | Some v \<Rightarrow> v)"
proof -
  have "find (\<lambda>m. fold_json_name (fst m) = fold_json_name k) (rev ms) = find (\<lambda>m. fst m = k) (rev ms)"
    using assms(1-3) by (intro find_cong) (auto simp: inj_on_def)
  then show ?thesis by (simp add: wire_member_def find_rev_key [OF assms(4)] split: option.split)
qed

lemma api_field:
  "k \<in> set api_keys \<Longrightarrow> wire_member k (api_members tc a) = (case map_of (api_members tc a) k of None \<Rightarrow> JNull | Some v \<Rightarrow> v)"
  using api_members_keys by (intro wire_member_exact [OF api_keys_folded]) auto

lemma map_of_opt_member [simp]:
  "map_of (opt_member k v) k' = (if k = k' \<and> v \<noteq> [] then Some (JStr v) else None)"
  by (simp add: opt_member_def)

lemma decode_api_members:
  assumes "faithful_codec tc"
  shows "decode_api tc (JObj (api_members tc a)) = Some a"
proof -
  have t: "tc_parse tc (tc_format tc t) = Some t" for t using assms by (simp add: faithful_codec_def)
  have f: "wire_string (wire_member k (api_members tc a)) = Some v"
    if "k \<in> set api_keys" "map_of (api_members tc a) k = (if v = [] then map_of (api_members tc a) k else Some (JStr v))"
      "v = [] \<Longrightarrow> map_of (api_members tc a) k \<in> {None, Some (JStr [])}" for k v
    using that by (cases "v = []") (auto simp: api_field)
  have created: "wire_time (tc_parse tc) (wire_member ''createdAt'' (api_members tc a)) = Some (Some (ap_created_at a))"
    by (subst api_field) (simp_all add: api_keys_def api_members_def wire_time_def t map_of_append map_add_def split: option.split)
  have strings:
    "wire_string (wire_member ''id'' (api_members tc a)) = Some (ap_id a)"
    "wire_string (wire_member ''name'' (api_members tc a)) = Some (ap_name a)"
    "wire_string (wire_member ''url'' (api_members tc a)) = Some (ap_url a)"
    "wire_string (wire_member ''method'' (api_members tc a)) = Some (ap_method a)"
    "wire_string (wire_member ''authType'' (api_members tc a)) = Some (ap_auth_type a)"
    "wire_string (wire_member ''authHeader'' (api_members tc a)) = Some (ap_auth_header a)"
    "wire_string (wire_member ''credentialRef'' (api_members tc a)) = Some (ap_credential_ref a)"
    "wire_string (wire_member ''credentialSource'' (api_members tc a)) = Some (ap_credential_source a)"
    "wire_string (wire_member ''authUsername'' (api_members tc a)) = Some (ap_auth_username a)"
    "wire_string (wire_member ''module'' (api_members tc a)) = Some (ap_module a)"
    "wire_string (wire_member ''description'' (api_members tc a)) = Some (ap_description a)"
    "wire_string (wire_member ''status'' (api_members tc a)) = Some (ap_status a)"
    by (subst api_field, simp add: api_keys_def, simp add: api_members_def map_add_def)+
  from strings created show ?thesis by (simp add: decode_api_def)
qed

lemma load_apis_members:
  assumes "faithful_codec tc" and "\<forall>e \<in> set as. check_api (fst e) (snd e) = None"
  shows "load_apis tc (map (\<lambda>(name, a). (name, JObj (api_members tc a))) as) = Inr (as, False)"
  using assms(2)
proof (induction as)
  case (Cons e as)
  have "\<not> legacy_members (api_members tc (snd e))"
    by (simp add: legacy_members_def api_members_def map_add_def split: option.split)
  with Cons assms(1) show ?case
    by (simp add: load_api_def decode_api_members case_prod_beta)
qed simp

definition sound_apis :: "apis \<Rightarrow> bool" where
  "sound_apis as \<longleftrightarrow> amap_wf as \<and> (\<forall>e \<in> set as. check_api (fst e) (snd e) = None)"

lemma writable_members: "writable_json (JObj (api_members tc a))"
  using api_members_keys(2) [of tc a] by (auto simp: api_members_def opt_member_def)

lemma load_registry_text:
  assumes "faithful_codec tc" and "sound_apis as"
  shows "load_text tc (registry_text tc as) = Inr (sort_key fst as, False)"
proof -
  let ?es = "map (\<lambda>(name, a). (name, JObj (api_members tc a))) (sort_key fst as)"
  have "map fst ?es = map fst (sort_key fst as)" by (simp add: case_prod_beta o_def)
  moreover have "distinct (map fst (sort_key fst as))"
    using assms(2) by (simp add: sound_apis_def distinct_map)
  ultimately have "writable_json (JObj [(''apis'', JObj ?es)])"
    using writable_members by (auto simp: case_prod_beta o_def)
  then have "json_unmarshal (registry_text tc as) = Some (JObj [(''apis'', JObj ?es)])"
    by (simp add: registry_text_def json_unmarshal_indent)
  moreover have "load_apis tc ?es = Inr (sort_key fst as, False)"
    using assms by (intro load_apis_members) (auto simp: sound_apis_def)
  ultimately show ?thesis by (simp add: load_text_def wire_member_def)
qed

text \<open>Every file that loads is sound.\<close>

lemma load_apis_sound: "load_apis tc es = Inr (as, legacy) \<Longrightarrow> map fst as = map fst es \<and> (\<forall>e \<in> set as. check_api (fst e) (snd e) = None)"
  by (induction es arbitrary: as legacy) (auto simp: load_api_def split: sum.splits option.splits prod.splits)

lemma wire_member_unique: "unique_members (JObj ms) \<Longrightarrow> unique_members (wire_member k ms)"
  by (fastforce simp: wire_member_def dest!: find_SomeD split: option.split)

lemma wire_object_unique: "unique_members v \<Longrightarrow> wire_object v = Some ms \<Longrightarrow> unique_members (JObj ms)"
  by (cases v rule: wire_object.cases) auto

lemma load_text_sound: "load_text tc s = Inr (as, legacy) \<Longrightarrow> sound_apis as"
proof -
  assume load: "load_text tc s = Inr (as, legacy)"
  then obtain v ms es where v: "json_unmarshal s = Some v" "wire_object v = Some ms" "wire_object (wire_member ''apis'' ms) = Some es"
    "load_apis tc es = Inr (as, legacy)"
    by (auto simp: load_text_def split: option.splits bind_splits)
  have "unique_members (JObj ms)" by (rule wire_object_unique [OF json_unmarshal_unique [OF v(1)] v(2)])
  then have "unique_members (JObj es)" by (rule wire_object_unique [OF wire_member_unique v(3)])
  with load_apis_sound [OF v(4)] show ?thesis by (simp add: sound_apis_def)
qed

end
