(* ===== verification/Cli_Remote.thy ===== *)
theory Cli_Remote
  imports Bridge_Client Cli_Catalog Connector Plugin_Types Idp_Registry
begin

text \<open>
  How a bridgectl command reaches the server and what it makes of the answer:
  internal/cli/errors.go (exit codes, the control-plane root, remote errors) and http.go
  (authenticated requests, which follow no redirect).
\<close>

subsection \<open>Failures of a command\<close>

definition code_success :: int where "code_success = 0"
definition code_general_err :: int where "code_general_err = 1"
definition code_auth_fail :: int where "code_auth_fail = 4"
definition code_timeout :: int where "code_timeout = 6"

text \<open>A failure with an exit code and the HTTP status it came from, or one without.\<close>

datatype command_failure =
    Cli_Failed cli_exit int
  | Config_Failure config_error
  | Registry_Failure registry_error
  | Bad_Target
  | Unreadable_Answer
  | Plain_Failure string
  | Panicked

definition cli_failed :: "int \<Rightarrow> string \<Rightarrow> string \<Rightarrow> string \<Rightarrow> command_failure" where
  "cli_failed code name message hint = Cli_Failed (new_cli_error code name message hint) 0"

definition exit_code_of :: "command_failure option \<Rightarrow> int" where
  "exit_code_of f = (case f of
       None \<Rightarrow> code_success
     | Some (Cli_Failed e _) \<Rightarrow> ce_exit e
     | Some (Config_Failure e) \<Rightarrow> if is_context_not_found e then code_not_found else code_general_err
     | Some (Registry_Failure e) \<Rightarrow>
         (case e of Legacy_Credentials \<Rightarrow> code_precond_fail | Legacy_Registry \<Rightarrow> code_precond_fail | Global_Missing \<Rightarrow> code_precond_fail
            | Registry_Conflict _ \<Rightarrow> code_conflict | _ \<Rightarrow> code_general_err)
     | Some _ \<Rightarrow> code_general_err)"

subsection \<open>The configured server\<close>

definition has_protocol :: "string \<Rightarrow> bool" where
  "has_protocol raw \<longleftrightarrow> has_prefix raw ''http://'' \<or> has_prefix raw ''https://''"

definition validate_cli_url :: "string \<Rightarrow> string \<Rightarrow> string \<Rightarrow> command_failure option" where
  "validate_cli_url raw serverType contextName =
     (if raw = [] then Some (cli_failed code_precond_fail ''MISCONFIGURED_CONTEXT''
         (serverType @ '' URL is not set for context '' @ strconv_quote contextName)
         (''Update it using '' @ [CHR 0x27] @ ''BRIDGE_'' @ serverType @ ''_SERVER'' @ [CHR 0x27] @ '' environment variable or in ~/.bridgectl/config.yaml''))
      else if \<not> has_protocol raw then Some (cli_failed code_bad_args ''INVALID_URL''
         (''Invalid '' @ serverType @ '' URL: missing protocol (http:// or https://)'')
         ''Ensure the server URL starts with http:// or https://'')
      else None)"

definition root_paths :: "string list" where "root_paths = [[], ''/'', ''/mcp'', ''/mcp/'']"

definition control_plane_root :: "string \<Rightarrow> string \<Rightarrow> command_failure + string" where
  "control_plane_root raw contextName = (case validate_cli_url raw ''MCP'' contextName of
       Some e \<Rightarrow> Inl e
     | None \<Rightarrow>
         let invalid = cli_failed code_bad_args ''CONTROL_PLANE_URL_INVALID'' ''the configured MCP URL is not a valid control-plane root''
               ''Set mcp-server to an http(s) host root, or use only the exact /mcp or /mcp/ suffix for the MCP transport.'' in
         (case url_parse raw of
            None \<Rightarrow> Inl invalid
          | Some u \<Rightarrow>
              if u_host u = [] \<or> u_user u \<noteq> None \<or> u_raw_query u \<noteq> [] \<or> u_fragment u \<noteq> [] then Inl invalid
              else if u_path u \<in> set root_paths then Inr (trim_right_slash (url_string (u\<lparr> u_path := [], u_raw_path := [] \<rparr>)))
              else Inl (cli_failed code_bad_args ''CONTROL_PLANE_URL_INVALID''
                ''the configured MCP URL has a non-transport path and cannot be used for control-plane requests''
                ''Set mcp-server to the host root, or use only the exact /mcp or /mcp/ suffix for the MCP transport.'')))"

text \<open>\<open>toolServerBase\<close> and \<open>pluginServerBase\<close>; no configuration is the first failure.\<close>

definition server_base :: "bridge_config option \<Rightarrow> command_failure + string" where
  "server_base cfg = (case cfg of
       None \<Rightarrow> Inl (Plain_Failure ''CLI configuration is not initialized'')
     | Some c \<Rightarrow> (case effective_context c of
         Inl e \<Rightarrow> Inl (Config_Failure e)
       | Inr ctx \<Rightarrow> control_plane_root (bc_mcp_server ctx) (bf_current c)))"

subsection \<open>Remote errors\<close>

definition code_of_error_name :: "string \<Rightarrow> int option" where
  "code_of_error_name name =
     (if name \<in> {''CONTEXT_NOT_FOUND'', ''RESOURCE_NOT_FOUND''} then Some code_not_found
      else if name = ''REGISTRY_CONFLICT'' then Some code_conflict
      else if name \<in> {''CONTROL_PLANE_URL_INVALID'', ''VALIDATION_FAILED'', ''INSECURE_TRANSPORT'', ''LEGACY_REGISTRY''} then Some code_bad_args
      else if name \<in> {''AUTHENTICATION_FAILED'', ''AUTHORIZATION_DENIED''} then Some code_auth_fail
      else if name \<in> {''UPSTREAM_UNREACHABLE'', ''HEALTH_CHECK_FAILED''} then Some code_timeout
      else if name = ''RECONCILIATION_FAILED'' then Some code_precond_fail
      else None)"

definition code_of_status :: "int \<Rightarrow> int" where
  "code_of_status status =
     (if status \<in> {401, 403} then code_auth_fail
      else if status = 404 then code_not_found
      else if status = 409 then code_conflict
      else if status \<in> {408, 502, 503, 504} then code_timeout
      else if status \<in> {400, 422} then code_bad_args
      else code_general_err)"

definition map_remote_error :: "remote_error \<Rightarrow> command_failure" where
  "map_remote_error e = Cli_Failed
     (new_cli_error (case code_of_error_name (re_code e) of Some c \<Rightarrow> c | None \<Rightarrow> code_of_status (re_status e)) (re_code e) (re_message e) (re_suggestion e))
     (re_status e)"

text \<open>An answer: its status and its body, \<open>None\<close> where reading it fails.\<close>

type_synonym answer = "int \<times> string option"

definition bridge_response_error :: "answer \<Rightarrow> command_failure option" where
  "bridge_response_error a = map_option map_remote_error (decode_remote_error (Some a))"

definition unreachable_control_plane :: command_failure where
  "unreachable_control_plane = cli_failed code_timeout ''UPSTREAM_UNREACHABLE'' ''the ERPBridge control plane could not be reached''
     (''Check the selected context'' @ [CHR 0x27] @ ''s control-plane root and confirm ERPBridge is running.'')"

subsection \<open>Requests\<close>

record cli_request =
  cq_method :: string
  cq_target :: string
  cq_headers :: multi_headers
  cq_body :: string

text \<open>
  The server: what it answers to the last of the requests sent so far, \<open>None\<close> when it is not
  reached.
\<close>

type_synonym peer = "cli_request list \<Rightarrow> answer option"

definition new_bridge_request :: "string \<Rightarrow> string \<Rightarrow> string \<Rightarrow> multi_headers \<Rightarrow> string \<Rightarrow> cli_request option" where
  "new_bridge_request token verb target headers body =
     (if url_parse target = None then None
      else Some \<lparr> cq_method = verb, cq_target = target,
        cq_headers = fold (\<lambda>(key, vs) h. fold (header_add key) vs h) headers (authenticated_headers token), cq_body = body \<rparr>)"

definition do_bridge_request ::
  "peer \<Rightarrow> string \<Rightarrow> string \<Rightarrow> string \<Rightarrow> multi_headers \<Rightarrow> string \<Rightarrow> cli_request list \<Rightarrow> cli_request list \<times> (command_failure + answer)" where
  "do_bridge_request peer token verb target headers body sent = (case new_bridge_request token verb target headers body of
       None \<Rightarrow> (sent, Inl Bad_Target)
     | Some rq \<Rightarrow> (sent @ [rq], case peer (sent @ [rq]) of None \<Rightarrow> Inl unreachable_control_plane | Some a \<Rightarrow> Inr a))"

text \<open>The answer that most commands ask for: one below 400, anything else being a failure.\<close>

definition ask_server ::
  "peer \<Rightarrow> string \<Rightarrow> string \<Rightarrow> string \<Rightarrow> multi_headers \<Rightarrow> string \<Rightarrow> cli_request list \<Rightarrow> cli_request list \<times> (command_failure + answer)" where
  "ask_server peer token verb target headers body sent = (case do_bridge_request peer token verb target headers body sent of
       (sent', Inl e) \<Rightarrow> (sent', Inl e)
     | (sent', Inr a) \<Rightarrow>
         if 400 \<le> fst a then (case bridge_response_error a of Some e \<Rightarrow> (sent', Inl e) | None \<Rightarrow> (sent', Inr a))
         else (sent', Inr a))"

definition json_headers :: multi_headers where "json_headers = [(''Content-Type'', [''application/json''])]"

subsection \<open>Exit codes\<close>

lemma map_remote_error_code: "exit_code_of (Some (map_remote_error e)) \<in> {1..7}"
  by (auto simp: exit_code_of_def map_remote_error_def new_cli_error_def code_of_error_name_def code_of_status_def
      code_general_err_def code_auth_fail_def code_timeout_def code_not_found_def code_conflict_def code_precond_fail_def code_bad_args_def)

lemma error_status_fails: "400 \<le> fst a \<Longrightarrow> \<exists>e. bridge_response_error a = Some (map_remote_error e)"
  by (cases a) (simp add: bridge_response_error_def decode_remote_error_def, blast)

lemma ask_server_accepted:
  "ask_server peer token verb target headers body sent = (sent', Inr a) \<Longrightarrow> fst a < 400 \<and>
     (\<exists>rq. new_bridge_request token verb target headers body = Some rq \<and> sent' = sent @ [rq] \<and> peer sent' = Some a)"
  using error_status_fails [of a] linorder_not_le [of 400 "fst a"]
  by (auto simp: ask_server_def do_bridge_request_def split: option.splits sum.splits prod.splits if_splits)

text \<open>
  A refused request is a failed command. For an answer with an error status the command
  ends with an exit code from 1 to 7, never with success, whatever envelope the server sent:
  the exit code comes from the name of the error or from the status, not from the number in
  the envelope.
\<close>

theorem refusal_exits_nonzero:
  "400 \<le> fst a \<Longrightarrow> bridge_response_error a \<noteq> None \<and> 1 \<le> exit_code_of (bridge_response_error a) \<and> exit_code_of (bridge_response_error a) \<le> 7"
  using error_status_fails [of a] map_remote_error_code by fastforce

lemma refusal_exits_nonzero_witness:
  "exit_code_of (bridge_response_error (403, None)) = 4 \<and> 1 \<le> exit_code_of (bridge_response_error (403, None))"
proof -
  have "exit_code_of (bridge_response_error (403, None)) = 4" by code_simp
  with refusal_exits_nonzero [of "(403, None)"] show ?thesis by simp
qed

text \<open>A redirect is no refusal, and is not followed either: a command takes it for the answer.\<close>

lemma redirect_is_no_error: "300 \<le> status \<Longrightarrow> status < 400 \<Longrightarrow> bridge_response_error (status, body) = None"
  by (simp add: bridge_response_error_def decode_remote_error_def)

end
