(* ===== verification/Cli_Commands.thy ===== *)
theory Cli_Commands
  imports Cli_Remote
begin

text \<open>
  The commands of bridgectl that work on a deployment: tools, plugins and their bindings
  (internal/cli/tool.go, plugin.go, plugin_binding.go), tokens, the cache and the logs
  (token.go, cache.go, log.go), and on the local API registry (api.go). A command sends its
  requests one after the other; what the server answers may depend on all of them.
\<close>

record cli_env =
  cv_config :: "bridge_config option"
  cv_token :: string
  cv_peer :: peer

subsection \<open>Resource files\<close>

text \<open>
  One kind of resource. The JSON and YAML libraries are parameters: a JSON text as a list or
  as one resource, the documents of a YAML text, one YAML value as a resource, and the JSON
  text of a resource. A check may also complete the resource.
\<close>

record 'r resource_kind =
  rk_path :: string
  rk_any_case :: bool
  rk_empty_list :: bool
  rk_stat_first :: bool
  rk_json_list :: "string \<Rightarrow> 'r list option"
  rk_json_one :: "string \<Rightarrow> 'r option"
  rk_yaml :: "string \<Rightarrow> jval list option"
  rk_item :: "jval \<Rightarrow> 'r option"
  rk_check :: "'r \<Rightarrow> command_failure + 'r"
  rk_encode :: "'r \<Rightarrow> string"

definition kind_path :: "'r resource_kind \<Rightarrow> string \<Rightarrow> string" where
  "kind_path k path = (if rk_any_case k then to_lower path else path)"

definition yaml_items :: "jval \<Rightarrow> jval list" where
  "yaml_items doc = (case doc of JNull \<Rightarrow> [] | JArr vs \<Rightarrow> vs | v \<Rightarrow> [v])"

definition decode_documents :: "'r resource_kind \<Rightarrow> string \<Rightarrow> string \<Rightarrow> 'r list option" where
  "decode_documents k data path =
     (if has_suffix (kind_path k path) ''.json'' then
        (case rk_json_list k data of
           Some rs \<Rightarrow> if rs = [] \<and> \<not> rk_empty_list k then None else Some rs
         | None \<Rightarrow> map_option (\<lambda>r. [r]) (rk_json_one k data))
      else (case rk_yaml k data of
          None \<Rightarrow> None
        | Some docs \<Rightarrow> (case those (map (rk_item k) (concat (map yaml_items docs))) of
            None \<Rightarrow> None
          | Some rs \<Rightarrow> if rs = [] then None else Some rs)))"

definition resource_suffix :: "string \<Rightarrow> bool" where
  "resource_suffix path \<longleftrightarrow> has_suffix path ''.json'' \<or> has_suffix path ''.yaml'' \<or> has_suffix path ''.yml''"

text \<open>The requests sent, the resources reported as applied, and the failure that ended the command.\<close>

type_synonym 'r applied = "cli_request list \<times> 'r list \<times> command_failure option"

fun apply_documents :: "cli_env \<Rightarrow> 'r resource_kind \<Rightarrow> string \<Rightarrow> 'r list \<Rightarrow> cli_request list \<Rightarrow> 'r applied" where
  "apply_documents env k base [] sent = (sent, [], None)"
| "apply_documents env k base (r # rs) sent = (case rk_check k r of
       Inl e \<Rightarrow> (sent, [], Some e)
     | Inr r' \<Rightarrow> (case ask_server (cv_peer env) (cv_token env) ''POST'' (base @ rk_path k) json_headers (rk_encode k r') sent of
         (sent', Inl e) \<Rightarrow> (sent', [], Some e)
       | (sent', Inr _) \<Rightarrow> (case apply_documents env k base rs sent' of (s, ok, e) \<Rightarrow> (s, r' # ok, e))))"

definition apply_file :: "cli_env \<Rightarrow> 'r resource_kind \<Rightarrow> string \<Rightarrow> string \<Rightarrow> string option \<Rightarrow> cli_request list \<Rightarrow> 'r applied" where
  "apply_file env k base path content sent =
     (if \<not> resource_suffix (kind_path k path) then (sent, [], None)
      else (case content of
          None \<Rightarrow> (sent, [], Some (Plain_Failure ''read''))
        | Some data \<Rightarrow> (case decode_documents k data path of
            None \<Rightarrow> (sent, [], Some (Plain_Failure ''unmarshal''))
          | Some rs \<Rightarrow> apply_documents env k base rs sent)))"

text \<open>A directory in the order it is walked.\<close>

datatype tree_entry = Walk_Failed | Walk_Directory | Walk_File "string option"

fun apply_entries :: "cli_env \<Rightarrow> 'r resource_kind \<Rightarrow> string \<Rightarrow> (string \<times> tree_entry) list \<Rightarrow> cli_request list \<Rightarrow> 'r applied" where
  "apply_entries env k base [] sent = (sent, [], None)"
| "apply_entries env k base ((path, Walk_Failed) # es) sent = (sent, [], Some (Plain_Failure ''walk''))"
| "apply_entries env k base ((path, Walk_Directory) # es) sent = apply_entries env k base es sent"
| "apply_entries env k base ((path, Walk_File content) # es) sent = (case apply_file env k base path content sent of
       (s, ok, Some e) \<Rightarrow> (s, ok, Some e)
     | (s, ok, None) \<Rightarrow> (case apply_entries env k base es s of (s', ok', e) \<Rightarrow> (s', ok @ ok', e)))"

datatype stat_outcome = Stat_Failed | One_File "string option" | Tree "(string \<times> tree_entry) list"

definition apply_command :: "cli_env \<Rightarrow> 'r resource_kind \<Rightarrow> string \<Rightarrow> stat_outcome \<Rightarrow> 'r applied" where
  "apply_command env k path st =
     (if path = [] then ([], [], Some (Plain_Failure ''file path is required''))
      else (case server_base (cv_config env) of
          Inl e \<Rightarrow> ([], [], Some (if st = Stat_Failed \<and> rk_stat_first k then Plain_Failure ''stat'' else e))
        | Inr base \<Rightarrow> (case st of
            Stat_Failed \<Rightarrow> ([], [], Some (Plain_Failure ''stat''))
          | One_File content \<Rightarrow> apply_file env k base path content []
          | Tree es \<Rightarrow> apply_entries env k base es [])))"

subsection \<open>The three kinds\<close>

text \<open>The libraries come with \<open>c\<close>. Tools are sent as they are, the other kinds are checked first.\<close>

definition tools_path :: string where "tools_path = ''/apis/erpbridge.io/v1/tools''"
definition plugins_path :: string where "plugins_path = ''/apis/erpbridge.io/v1/plugins''"
definition bindings_path :: string where "bindings_path = ''/apis/erpbridge.io/v1/pluginbindings''"

definition tool_kind :: "tool resource_kind \<Rightarrow> tool resource_kind" where
  "tool_kind c = c\<lparr> rk_path := tools_path, rk_any_case := False, rk_empty_list := True, rk_stat_first := True, rk_check := Inr \<rparr>"

definition plugin_kind :: "('v, 'c) semver \<Rightarrow> plugin resource_kind \<Rightarrow> plugin resource_kind" where
  "plugin_kind sv c = c\<lparr> rk_path := plugins_path, rk_any_case := True, rk_empty_list := False, rk_stat_first := False,
     rk_check := (\<lambda>p. case plugin_validate sv p of (Inl e, _) \<Rightarrow> Inl (Plain_Failure e) | (Inr _, p') \<Rightarrow> Inr p') \<rparr>"

definition binding_kind :: "('v, 'c) semver \<Rightarrow> plugin_binding resource_kind \<Rightarrow> plugin_binding resource_kind" where
  "binding_kind sv c = c\<lparr> rk_path := bindings_path, rk_any_case := True, rk_empty_list := False, rk_stat_first := False,
     rk_check := (\<lambda>b. case plugin_binding_validate sv b of Inl e \<Rightarrow> Inl (Plain_Failure e) | Inr _ \<Rightarrow> Inr b) \<rparr>"

definition tool_apply :: "cli_env \<Rightarrow> tool resource_kind \<Rightarrow> string \<Rightarrow> stat_outcome \<Rightarrow> tool applied" where
  "tool_apply env c path st = apply_command env (tool_kind c) path st"

definition plugin_apply :: "('v, 'c) semver \<Rightarrow> cli_env \<Rightarrow> plugin resource_kind \<Rightarrow> string \<Rightarrow> stat_outcome \<Rightarrow> plugin applied" where
  "plugin_apply sv env c path st = apply_command env (plugin_kind sv c) path st"

definition binding_apply :: "('v, 'c) semver \<Rightarrow> cli_env \<Rightarrow> plugin_binding resource_kind \<Rightarrow> string \<Rightarrow> stat_outcome \<Rightarrow> plugin_binding applied" where
  "binding_apply sv env c path st = apply_command env (binding_kind sv c) path st"

subsection \<open>Reading resources\<close>

definition list_resources :: "cli_env \<Rightarrow> (string \<Rightarrow> 'a list option) \<Rightarrow> string \<Rightarrow> (string \<times> string) list \<Rightarrow> cli_request list \<times> (command_failure + 'a list)" where
  "list_resources env dec path q = (case server_base (cv_config env) of
       Inl e \<Rightarrow> ([], Inl e)
     | Inr base \<Rightarrow>
         let target = base @ path @ (if q = [] then [] else ''?'' @ query_encode q) in
         (case ask_server (cv_peer env) (cv_token env) ''GET'' target [] [] [] of
            (sent, Inl e) \<Rightarrow> (sent, Inl e)
          | (sent, Inr a) \<Rightarrow> (case Option.bind (snd a) dec of None \<Rightarrow> (sent, Inl Unreadable_Answer) | Some rs \<Rightarrow> (sent, Inr rs))))"

definition resource_not_found :: "string \<Rightarrow> string \<Rightarrow> string \<Rightarrow> command_failure" where
  "resource_not_found what arg hint =
     cli_failed code_not_found ''RESOURCE_NOT_FOUND'' (what @ '' '' @ strconv_quote arg @ '' was not found in the selected deployment'') hint"

definition identity_query :: "string \<Rightarrow> string \<Rightarrow> (string \<times> string) list" where
  "identity_query name version = (''name'', name) # (if version = [] then [] else [(''version'', version)])"

definition get_resources ::
  "cli_env \<Rightarrow> (string \<Rightarrow> 'a list option) \<Rightarrow> ('a \<Rightarrow> string \<times> string) \<Rightarrow> string \<Rightarrow> string \<Rightarrow> string \<Rightarrow> bool \<Rightarrow> string option \<Rightarrow>
     cli_request list \<times> (command_failure + 'a list)" where
  "get_resources env dec identity path what hint exact arg = (case arg of
       None \<Rightarrow> list_resources env dec path []
     | Some ident \<Rightarrow>
         let (name, version) = parse_tool_identifier ident in
         if exact \<and> (name = [] \<or> version = []) then ([], Inl (Plain_Failure (what @ '' identity must use name@version'')))
         else (case list_resources env dec path (identity_query name version) of
             (sent, Inl e) \<Rightarrow> (sent, Inl e)
           | (sent, Inr rs) \<Rightarrow> (case find (\<lambda>r. fst (identity r) = name \<and> (version = [] \<or> snd (identity r) = version)) rs of
               None \<Rightarrow> (sent, Inl (resource_not_found what ident hint))
             | Some r \<Rightarrow> (sent, Inr [r]))))"

definition tool_hint :: string where "tool_hint = ''List the available tools, or correct the name and version.''"

definition tool_get :: "cli_env \<Rightarrow> (string \<Rightarrow> tool list option) \<Rightarrow> string option \<Rightarrow> cli_request list \<times> (command_failure + tool list)" where
  "tool_get env dec arg = get_resources env dec (\<lambda>t. (md_name (tl_metadata t), md_version (tl_metadata t))) tools_path ''tool'' tool_hint False arg"

definition tool_describe :: "cli_env \<Rightarrow> (string \<Rightarrow> tool list option) \<Rightarrow> string \<Rightarrow> cli_request list \<times> (command_failure + tool)" where
  "tool_describe env dec ident = (case tool_get env dec (Some ident) of
       (sent, Inl e) \<Rightarrow> (sent, Inl e)
     | (sent, Inr ts) \<Rightarrow> (sent, Inr (hd ts)))"

text \<open>Completion is silent: a failure is only a directive.\<close>

definition tool_completions :: "cli_env \<Rightarrow> (string \<Rightarrow> tool list option) \<Rightarrow> string list \<Rightarrow> string \<Rightarrow> string list option" where
  "tool_completions env dec args toComplete =
     (if args \<noteq> [] then Some []
      else (case snd (list_resources env dec tools_path []) of
          Inl _ \<Rightarrow> None
        | Inr ts \<Rightarrow> Some (filter (\<lambda>n. has_prefix n toComplete) (map (\<lambda>t. md_name (tl_metadata t)) ts))))"

text \<open>What a tool list shows as the status of a tool.\<close>

definition shown_status :: "tool \<Rightarrow> string" where
  "shown_status t = (if \<not> md_is_active (tl_metadata t) then ''HIDDEN'' else if md_status (tl_metadata t) = [] then ''READY'' else md_status (tl_metadata t))"

definition plugin_get :: "cli_env \<Rightarrow> (string \<Rightarrow> plugin list option) \<Rightarrow> string option \<Rightarrow> cli_request list \<times> (command_failure + plugin list)" where
  "plugin_get env dec arg = get_resources env dec (\<lambda>p. (pm_name (pl_metadata p), pm_version (pl_metadata p))) plugins_path ''plugin''
     ''List the available plugins, or correct the name and version.'' True arg"

text \<open>A binding is named by its whole argument.\<close>

definition binding_get :: "cli_env \<Rightarrow> (string \<Rightarrow> plugin_binding list option) \<Rightarrow> string option \<Rightarrow> cli_request list \<times> (command_failure + plugin_binding list)" where
  "binding_get env dec arg = (case arg of
       None \<Rightarrow> list_resources env dec bindings_path []
     | Some name \<Rightarrow> (case list_resources env dec bindings_path [(''name'', name)] of
         (sent, Inl e) \<Rightarrow> (sent, Inl e)
       | (sent, Inr bs) \<Rightarrow> (case find (\<lambda>b. bm_name (pb_metadata b) = name) bs of
           None \<Rightarrow> (sent, Inl (resource_not_found ''plugin binding'' name ''List the available bindings, or correct the name.''))
         | Some b \<Rightarrow> (sent, Inr [b]))))"

subsection \<open>Local validation\<close>

definition validate_tool_manifest :: "tool \<Rightarrow> string option" where
  "validate_tool_manifest t = (let m = tl_metadata t; s = tl_spec t; sec = ts_security s in
     if md_name m = [] then Some ''metadata.name is missing''
     else if md_version m = [] then Some ''metadata.version is missing''
     else if ts_output_schema s \<noteq> None \<and> \<not> has_concrete_output_schema (ts_output_schema s) then Some ''spec.outputSchema.type is required when outputSchema is set''
     else if \<not> validate_credential_source (se_credential_source sec) then Some ''credential source''
     else if is_file_backed (se_credential_source sec) \<and> se_credential_ref sec = [] then Some ''security.credentialRef is required for file credentials''
     else None)"

fun validate_resources :: "'r resource_kind \<Rightarrow> 'r list \<Rightarrow> 'r list \<times> command_failure option" where
  "validate_resources k [] = ([], None)"
| "validate_resources k (r # rs) = (case rk_check k r of
       Inl e \<Rightarrow> ([], Some e)
     | Inr r' \<Rightarrow> (case validate_resources k rs of (ok, e) \<Rightarrow> (r' # ok, e)))"

definition validate_command :: "'r resource_kind \<Rightarrow> string \<Rightarrow> string option \<Rightarrow> 'r list \<times> command_failure option" where
  "validate_command k path content =
     (if path = [] then ([], Some (Plain_Failure ''file path is required''))
      else (case content of
          None \<Rightarrow> ([], Some (Plain_Failure ''read''))
        | Some data \<Rightarrow> (case decode_documents k data path of
            None \<Rightarrow> ([], Some (Plain_Failure ''validation failed''))
          | Some rs \<Rightarrow> validate_resources k rs)))"

subsection \<open>Generated files\<close>

text \<open>
  \<open>writeGeneratedToolFiles\<close>: one file per tool, named after it. The result has the files
  written so far, also when a later tool fails; \<open>writable\<close> is what the file system answers.
\<close>

definition generated_extension :: "string \<Rightarrow> string option" where
  "generated_extension format = (if format = ''json'' then Some ''.json'' else if format = ''yaml'' then Some ''.yaml'' else None)"

definition generated_path :: "string \<Rightarrow> string \<Rightarrow> string \<Rightarrow> string" where
  "generated_path dir name extension =
     (if dir = ''.'' then [] else if dir = ''/'' then dir else dir @ ''/'') @ (if name = ''/'' then [] else name) @ extension"

definition plain_file_name :: "string \<Rightarrow> bool" where
  "plain_file_name name \<longleftrightarrow> file_base name = name \<and> name \<noteq> ''.'' \<and> name \<noteq> ''..''"

fun write_generated :: "(string \<Rightarrow> bool) \<Rightarrow> (tool \<Rightarrow> string) \<Rightarrow> string \<Rightarrow> string \<Rightarrow> tool list \<Rightarrow> (string \<times> string) list \<times> string option" where
  "write_generated writable encode dir extension [] = ([], None)"
| "write_generated writable encode dir extension (t # ts) = (let name = md_name (tl_metadata t); path = generated_path dir name extension in
     if name = [] then ([], Some ''generated tool has no metadata.name'')
     else if \<not> plain_file_name name then ([], Some ''cannot be used as a filename'')
     else if \<not> writable path then ([], Some ''write tool'')
     else (case write_generated writable encode dir extension ts of (fs, e) \<Rightarrow> ((path, encode t) # fs, e)))"

definition write_generated_tool_files ::
  "bool \<Rightarrow> (string \<Rightarrow> bool) \<Rightarrow> (tool \<Rightarrow> string) \<Rightarrow> string \<Rightarrow> string \<Rightarrow> tool list \<Rightarrow> (string \<times> string) list \<times> string option" where
  "write_generated_tool_files made writable encode dir format ts = (case generated_extension format of
       None \<Rightarrow> ([], Some ''unsupported output format'')
     | Some extension \<Rightarrow> if \<not> made then ([], Some ''create output directory'') else write_generated writable encode dir extension ts)"

lemma file_base_plain: "file_base name = name \<Longrightarrow> name \<noteq> ''/'' \<Longrightarrow> CHR ''/'' \<notin> set name"
proof -
  assume base: "file_base name = name" and "name \<noteq> ''/''"
  show ?thesis
  proof (cases "name = []")
    case False
    let ?p = "rev (dropWhile (\<lambda>c. c = CHR ''/'') (rev name))"
    have "name = rev (takeWhile (\<lambda>c. c \<noteq> CHR ''/'') (rev ?p))"
      using base False \<open>name \<noteq> ''/''\<close> by (simp add: file_base_def Let_def split: if_splits)
    then have "set name = set (takeWhile (\<lambda>c. c \<noteq> CHR ''/'') (rev ?p))" by (metis set_rev)
    then show ?thesis using set_takeWhileD by fastforce
  qed simp
qed

text \<open>Every file is directly in the directory.\<close>

lemma generated_files_inside:
  "(path, data) \<in> set (fst (write_generated writable encode dir extension ts)) \<Longrightarrow> CHR ''/'' \<notin> set extension \<Longrightarrow>
     \<exists>f. path = (if dir = ''.'' then [] else if dir = ''/'' then dir else dir @ ''/'') @ f \<and> CHR ''/'' \<notin> set f"
proof (induction ts)
  case (Cons t ts)
  have "CHR ''/'' \<notin> set (md_name (tl_metadata t))" if "plain_file_name (md_name (tl_metadata t))" "md_name (tl_metadata t) \<noteq> ''/''"
    using that file_base_plain by (simp add: plain_file_name_def)
  with Cons show ?case
    by (auto simp: Let_def generated_path_def split: if_splits prod.splits)
qed simp

subsection \<open>Removing resources\<close>

datatype deletion = Delete_Aborted | Deleted

definition delete_query :: "(string \<times> string) list \<Rightarrow> bool \<Rightarrow> (string \<times> string) list" where
  "delete_query q hard = q @ (if hard then [(''hard'', ''true'')] else [])"

definition delete_resource ::
  "cli_env \<Rightarrow> (string \<Rightarrow> bool) \<Rightarrow> string \<Rightarrow> (string \<times> string) list \<Rightarrow> bool \<Rightarrow> bool \<Rightarrow> string \<Rightarrow> cli_request list \<times> (command_failure + deletion)" where
  "delete_resource env accepts path q hard yes answer =
     (if hard \<and> \<not> yes \<and> \<not> accepts answer then ([], Inr Delete_Aborted)
      else (case server_base (cv_config env) of
          Inl e \<Rightarrow> ([], Inl e)
        | Inr base \<Rightarrow> (case ask_server (cv_peer env) (cv_token env) ''DELETE'' (base @ path @ ''?'' @ query_encode (delete_query q hard)) [] [] [] of
            (sent, Inl e) \<Rightarrow> (sent, Inl e)
          | (sent, Inr _) \<Rightarrow> (sent, Inr Deleted))))"

text \<open>What the three commands take for a yes.\<close>

definition tool_yes :: "string \<Rightarrow> bool" where "tool_yes s \<longleftrightarrow> to_lower s = ''y'' \<or> to_lower s = ''yes''"
definition plugin_yes :: "string \<Rightarrow> bool" where "plugin_yes s \<longleftrightarrow> equal_fold s ''y'' \<or> equal_fold s ''yes''"
definition binding_yes :: "string \<Rightarrow> bool" where "binding_yes s \<longleftrightarrow> s \<in> {''y'', ''Y'', ''yes'', ''YES''}"

definition tool_delete :: "cli_env \<Rightarrow> string list \<Rightarrow> bool \<Rightarrow> bool \<Rightarrow> string \<Rightarrow> cli_request list \<times> (command_failure + deletion)" where
  "tool_delete env args hard yes answer = (case args of
       name # version # _ \<Rightarrow> delete_resource env tool_yes tools_path [(''name'', name), (''version'', version)] hard yes answer
     | _ \<Rightarrow> ([], Inl (Plain_Failure ''missing required arguments.'')))"

definition plugin_delete :: "cli_env \<Rightarrow> string \<Rightarrow> bool \<Rightarrow> bool \<Rightarrow> string \<Rightarrow> cli_request list \<times> (command_failure + deletion)" where
  "plugin_delete env ident hard yes answer = (case parse_tool_identifier ident of (name, version) \<Rightarrow>
     if name = [] \<or> version = [] then ([], Inl (Plain_Failure ''plugin identity must use name@version''))
     else delete_resource env plugin_yes plugins_path [(''name'', name), (''version'', version)] hard yes answer)"

definition binding_delete :: "cli_env \<Rightarrow> string \<Rightarrow> bool \<Rightarrow> bool \<Rightarrow> string \<Rightarrow> cli_request list \<times> (command_failure + deletion)" where
  "binding_delete env name hard yes answer = delete_resource env binding_yes bindings_path [(''name'', name)] hard yes answer"

definition plugin_validate_command :: "('v, 'c) semver \<Rightarrow> plugin resource_kind \<Rightarrow> string \<Rightarrow> string option \<Rightarrow> plugin list \<times> command_failure option" where
  "plugin_validate_command sv c path content = validate_command (plugin_kind sv c) path content"

definition binding_validate_command ::
  "('v, 'c) semver \<Rightarrow> plugin_binding resource_kind \<Rightarrow> string \<Rightarrow> string option \<Rightarrow> plugin_binding list \<times> command_failure option" where
  "binding_validate_command sv c path content = validate_command (binding_kind sv c) path content"

text \<open>\<open>tool validate\<close> reads one resource.\<close>

definition tool_validate :: "(string \<Rightarrow> tool option) \<Rightarrow> (string \<Rightarrow> tool option) \<Rightarrow> string \<Rightarrow> string option \<Rightarrow> tool + string" where
  "tool_validate dec_yaml dec_json path content = (case content of
       None \<Rightarrow> Inr ''read''
     | Some data \<Rightarrow> (case (if has_suffix path ''.yaml'' \<or> has_suffix path ''.yml'' then dec_yaml data else dec_json data) of
         None \<Rightarrow> Inr ''parse''
       | Some t \<Rightarrow> (case validate_tool_manifest t of Some e \<Rightarrow> Inr e | None \<Rightarrow> Inl t)))"

subsection \<open>Tokens\<close>

definition token_url :: "string \<Rightarrow> string \<Rightarrow> string" where
  "token_url base ident = trim_right_slash base @ ''/api/auth/tokens'' @ (if ident = [] then [] else ''/'' @ path_escape ident)"

text \<open>\<open>parseTokenExpiry\<close>: a time, or a positive duration from now; the time library reads both.\<close>

definition parse_token_expiry :: "(string \<Rightarrow> timestamp option) \<Rightarrow> (string \<Rightarrow> int option) \<Rightarrow> timestamp \<Rightarrow> string \<Rightarrow> timestamp option" where
  "parse_token_expiry read_time read_duration now text = (case read_time text of
       Some t \<Rightarrow> Some t
     | None \<Rightarrow> (case read_duration text of None \<Rightarrow> None | Some d \<Rightarrow> if d \<le> 0 then None else Some (now + d)))"

definition server_context :: "cli_env \<Rightarrow> command_failure + bridge_context" where
  "server_context env = (case cv_config env of
       None \<Rightarrow> Inl Panicked
     | Some c \<Rightarrow> (case effective_context c of
         Inl e \<Rightarrow> Inl (Config_Failure e)
       | Inr ctx \<Rightarrow> (case validate_cli_url (bc_server ctx) ''BRIDGE'' (bf_current c) of Some e \<Rightarrow> Inl e | None \<Rightarrow> Inr ctx)))"

definition token_payload :: "(timestamp \<Rightarrow> string) \<Rightarrow> string \<Rightarrow> string list \<Rightarrow> string list \<Rightarrow> timestamp option \<Rightarrow> jval" where
  "token_payload fmt name scopes roles expires = JObj
     ([(''name'', JStr name), (''scopes'', if scopes = [] then JNull else JArr (map JStr scopes)),
       (''roles'', if roles = [] then JNull else JArr (map JStr roles))] @
      (case expires of None \<Rightarrow> [] | Some t \<Rightarrow> [(''expiresAt'', JStr (fmt t))]))"

definition ask_decoded :: "cli_env \<Rightarrow> (string \<Rightarrow> 'a option) \<Rightarrow> string \<Rightarrow> string \<Rightarrow> multi_headers \<Rightarrow> string \<Rightarrow> cli_request list \<times> (command_failure + 'a)" where
  "ask_decoded env dec verb target headers body = (case ask_server (cv_peer env) (cv_token env) verb target headers body [] of
       (sent, Inl e) \<Rightarrow> (sent, Inl e)
     | (sent, Inr a) \<Rightarrow> (case Option.bind (snd a) dec of None \<Rightarrow> (sent, Inl Unreadable_Answer) | Some x \<Rightarrow> (sent, Inr x)))"

definition token_create ::
  "cli_env \<Rightarrow> (string \<Rightarrow> 'a option) \<Rightarrow> (timestamp \<Rightarrow> string) \<Rightarrow> (string \<Rightarrow> timestamp option) \<Rightarrow> string \<Rightarrow> string list \<Rightarrow> string list \<Rightarrow> string \<Rightarrow>
     cli_request list \<times> (command_failure + 'a)" where
  "token_create env dec fmt expiry name scopes roles expires = (case server_context env of
       Inl e \<Rightarrow> ([], Inl e)
     | Inr ctx \<Rightarrow>
         if expires \<noteq> [] \<and> expiry expires = None then ([], Inl (Plain_Failure ''invalid token expiry''))
         else ask_decoded env dec ''POST'' (token_url (bc_server ctx) []) json_headers
           (json_text (token_payload fmt name scopes roles (if expires = [] then None else expiry expires))))"

definition token_list :: "cli_env \<Rightarrow> (string \<Rightarrow> 'a list option) \<Rightarrow> cli_request list \<times> (command_failure + 'a list)" where
  "token_list env dec = (case server_context env of
       Inl e \<Rightarrow> ([], Inl e)
     | Inr ctx \<Rightarrow> ask_decoded env dec ''GET'' (token_url (bc_server ctx) []) [] [])"

definition token_revoke :: "cli_env \<Rightarrow> string \<Rightarrow> cli_request list \<times> (command_failure + unit)" where
  "token_revoke env ident = (case server_context env of
       Inl e \<Rightarrow> ([], Inl e)
     | Inr ctx \<Rightarrow> (case ask_server (cv_peer env) (cv_token env) ''DELETE'' (token_url (bc_server ctx) ident) [] [] [] of
         (sent, Inl e) \<Rightarrow> (sent, Inl e)
       | (sent, Inr _) \<Rightarrow> (sent, Inr ())))"

subsection \<open>Cache\<close>

definition no_context_selected :: command_failure where
  "no_context_selected = cli_failed code_precond_fail ''NO_CONTEXT'' ''no context selected''
     (''Use '' @ [CHR 0x27] @ ''bridgectl context set'' @ [CHR 0x27] @ '' to select an active environment.'')"

text \<open>These commands look the context up without the checks of the others.\<close>

definition cache_context :: "cli_env \<Rightarrow> command_failure + bridge_context" where
  "cache_context env = (case cv_config env of
       None \<Rightarrow> Inl Panicked
     | Some c \<Rightarrow> (case map_of (bf_contexts c) (bf_current c) of None \<Rightarrow> Inl no_context_selected | Some ctx \<Rightarrow> Inr ctx))"

text \<open>Any answer but 200 goes to the error mapping, which makes nothing of one below 400.\<close>

definition cli_cache_stats :: "cli_env \<Rightarrow> (string \<Rightarrow> 'a option) \<Rightarrow> cli_request list \<times> (command_failure + 'a option)" where
  "cli_cache_stats env dec = (case cache_context env of
       Inl e \<Rightarrow> ([], Inl e)
     | Inr ctx \<Rightarrow> (case do_bridge_request (cv_peer env) (cv_token env) ''GET'' (bc_server ctx @ ''/api/cache/stats'') [] [] [] of
         (sent, Inl e) \<Rightarrow> (sent, Inl e)
       | (sent, Inr a) \<Rightarrow>
           if fst a \<noteq> 200 then (sent, case bridge_response_error a of Some e \<Rightarrow> Inl e | None \<Rightarrow> Inr None)
           else (case Option.bind (snd a) dec of None \<Rightarrow> (sent, Inl Unreadable_Answer) | Some x \<Rightarrow> (sent, Inr (Some x)))))"

text \<open>The parsed address is used without a look at the error; \<open>u.Query()\<close> reads the query it has.\<close>

definition flush_query :: "(string \<Rightarrow> (string \<times> string) list) \<Rightarrow> url \<Rightarrow> string list \<Rightarrow> string \<Rightarrow> bool \<Rightarrow> (string \<times> string) list" where
  "flush_query parse_query u args flushModule flushAll =
     (let q0 = parse_query (u_raw_query u);
          q1 = (case args of [] \<Rightarrow> q0 | t # _ \<Rightarrow> amap_put ''tool'' t q0);
          q2 = (if flushModule \<noteq> [] then amap_put ''module'' flushModule q1 else q1)
      in (if flushAll then amap_put ''all'' ''true'' q2 else q2))"

definition cache_flush ::
  "cli_env \<Rightarrow> (string \<Rightarrow> (string \<times> string) list) \<Rightarrow> (string \<Rightarrow> 'a option) \<Rightarrow> string list \<Rightarrow> string \<Rightarrow> bool \<Rightarrow> cli_request list \<times> (command_failure + 'a)" where
  "cache_flush env parse_query dec args flushModule flushAll = (case cache_context env of
       Inl e \<Rightarrow> ([], Inl e)
     | Inr ctx \<Rightarrow> (case url_parse (bc_server ctx @ ''/api/cache/flush'') of
         None \<Rightarrow> ([], Inl Panicked)
       | Some u \<Rightarrow> ask_decoded env dec ''GET''
           (url_string (u\<lparr> u_raw_query := query_encode (flush_query parse_query u args flushModule flushAll) \<rparr>)) [] []))"

subsection \<open>Logs\<close>

type_synonym log_line = jargs

definition text_member :: "string \<Rightarrow> log_line \<Rightarrow> string option" where
  "text_member k l = (case map_of l k of Some (JStr s) \<Rightarrow> Some s | _ \<Rightarrow> None)"

definition count_in :: "string list \<Rightarrow> string \<Rightarrow> nat" where "count_in xs x = length (filter (\<lambda>y. y = x) xs)"

text \<open>How many events have each level, an absent one counting as the empty level, and each tool.\<close>

definition log_levels :: "log_line list \<Rightarrow> string list" where
  "log_levels ls = map (\<lambda>l. case text_member ''level'' l of None \<Rightarrow> [] | Some s \<Rightarrow> s) ls"

definition log_tools :: "log_line list \<Rightarrow> string list" where
  "log_tools ls = filter (\<lambda>s. s \<noteq> []) (List.map_filter (text_member ''tool_name'') ls)"

definition log_counts :: "string list \<Rightarrow> (string \<times> nat) list" where
  "log_counts xs = map (\<lambda>x. (x, count_in xs x)) (remdups xs)"

definition log_stats :: "cli_env \<Rightarrow> (string \<Rightarrow> log_line list option) \<Rightarrow> cli_request list \<times> (command_failure + (string \<times> nat) list \<times> (string \<times> nat) list)" where
  "log_stats env dec = (case server_context env of
       Inl e \<Rightarrow> ([], Inl e)
     | Inr ctx \<Rightarrow> (case ask_decoded env dec ''GET'' (bc_server ctx @ ''/api/logs/recent'') [] [] of
         (sent, Inl e) \<Rightarrow> (sent, Inl e)
       | (sent, Inr ls) \<Rightarrow> (sent, Inr (log_counts (log_levels ls), log_counts (log_tools ls)))))"

record log_filter =
  lf_component :: string
  lf_tool :: string
  lf_level :: string
  lf_request :: string

definition field_matches :: "log_line \<Rightarrow> string \<Rightarrow> string \<Rightarrow> bool" where
  "field_matches l name expected \<longleftrightarrow> expected = [] \<or> text_member name l = Some expected"

text \<open>A line that is no JSON object is printed whatever the filters.\<close>

definition should_print :: "(string \<Rightarrow> log_line option) \<Rightarrow> log_filter \<Rightarrow> string \<Rightarrow> bool" where
  "should_print dec f msg = (case dec msg of
       None \<Rightarrow> True
     | Some l \<Rightarrow> field_matches l ''component'' (lf_component f) \<and> field_matches l ''tool_name'' (lf_tool f) \<and>
         field_matches l ''level'' (to_upper (lf_level f)) \<and> field_matches l ''request_id'' (lf_request f))"

text \<open>The lines of a stream, each with its end; what follows the last end is not read.\<close>

definition tail_lines :: "(string \<Rightarrow> log_line option) \<Rightarrow> log_filter \<Rightarrow> string list \<Rightarrow> string list" where
  "tail_lines dec f lines = filter (should_print dec f) (map (\<lambda>l. trim_space (drop 6 l)) (filter (\<lambda>l. has_prefix l ''data: '') lines))"

definition log_tail :: "cli_env \<Rightarrow> (string \<Rightarrow> log_line option) \<Rightarrow> log_filter \<Rightarrow> (string \<Rightarrow> string list) \<Rightarrow> cli_request list \<times> (command_failure + string list)" where
  "log_tail env dec f stream_lines = (case server_context env of
       Inl e \<Rightarrow> ([], Inl e)
     | Inr ctx \<Rightarrow> (case do_bridge_request (cv_peer env) (cv_token env) ''GET'' (bc_server ctx @ ''/api/logs/stream'') [] [] [] of
         (sent, Inl e) \<Rightarrow> (sent, Inl e)
       | (sent, Inr a) \<Rightarrow>
           if fst a \<noteq> 200 then (sent, case bridge_response_error a of Some e \<Rightarrow> Inl e | None \<Rightarrow> Inr [])
           else (case snd a of None \<Rightarrow> (sent, Inl Unreadable_Answer) | Some body \<Rightarrow> (sent, Inr (tail_lines dec f (stream_lines body))))))"

subsection \<open>Contexts\<close>

text \<open>\<open>context list\<close>: the names in order, with their server and whether they are selected.\<close>

definition context_items :: "bridge_config \<Rightarrow> (string \<times> string \<times> bool) list" where
  "context_items cfg = map (\<lambda>name. (name, bc_server (the (map_of (bf_contexts cfg) name)), name = bf_current cfg))
     (sort_strings (remdups (map fst (bf_contexts cfg))))"

subsection \<open>The local registry\<close>

text \<open>\<open>NewRegistryForContext\<close>: the old global file has to be migrated first.\<close>

definition context_registry :: "time_codec \<Rightarrow> cli_env \<Rightarrow> registry_file \<Rightarrow> (string \<Rightarrow> registry_file) \<Rightarrow> command_failure + idp_registry" where
  "context_registry tc env global files = (case cv_config env of
       None \<Rightarrow> Inl (Plain_Failure ''CLI configuration is not initialized'')
     | Some c \<Rightarrow> (case effective_context c of
         Inl e \<Rightarrow> Inl (Config_Failure e)
       | Inr _ \<Rightarrow>
           if global \<noteq> Registry_Absent then Inl (Registry_Failure Legacy_Registry)
           else (case new_registry tc (files (bf_current c)) of Inl e \<Rightarrow> Inl (Registry_Failure e) | Inr reg \<Rightarrow> Inr reg)))"

definition blank_api :: api where
  "blank_api = \<lparr> ap_id = [], ap_name = [], ap_url = [], ap_method = ''GET'', ap_auth_type = ''api-key'', ap_auth_header = ''X-API-Key'',
     ap_credential_ref = [], ap_credential_source = ''env'', ap_auth_username = [], ap_module = [], ap_description = [], ap_status = [],
     ap_created_at = 0 \<rparr>"

text \<open>\<open>api register\<close>: the definition comes from the flags, their defaults being \<open>blank_api\<close>.\<close>

definition api_register ::
  "time_codec \<Rightarrow> disk_answers \<Rightarrow> timestamp \<Rightarrow> cli_env \<Rightarrow> registry_file \<Rightarrow> (string \<Rightarrow> registry_file) \<Rightarrow> string \<Rightarrow> api \<Rightarrow> bool \<Rightarrow>
     (command_failure + bool) \<times> registry_file" where
  "api_register tc disk now env global files name flags force = (case context_registry tc env global files of
       Inl e \<Rightarrow> (Inl e, files name)
     | Inr reg \<Rightarrow> (case register_with_options tc disk now flags force reg (files name) of
         (Inl e, _, f) \<Rightarrow> (Inl (Registry_Failure e), f)
       | (Inr replaced, _, f) \<Rightarrow> (Inr replaced, f)))"

definition api_list :: "time_codec \<Rightarrow> cli_env \<Rightarrow> registry_file \<Rightarrow> (string \<Rightarrow> registry_file) \<Rightarrow> command_failure + api list" where
  "api_list tc env global files = (case context_registry tc env global files of Inl e \<Rightarrow> Inl e | Inr reg \<Rightarrow> Inr (registry_list reg))"

definition api_set_credential_ref ::
  "time_codec \<Rightarrow> disk_answers \<Rightarrow> cli_env \<Rightarrow> registry_file \<Rightarrow> (string \<Rightarrow> registry_file) \<Rightarrow> string \<Rightarrow> string \<Rightarrow> string \<Rightarrow> command_failure option \<times> registry_file" where
  "api_set_credential_ref tc disk env global files name api_name ref = (case context_registry tc env global files of
       Inl e \<Rightarrow> (Some e, files name)
     | Inr reg \<Rightarrow> (case set_credential_ref tc disk api_name ref reg (files name) of
         (Some e, _, f) \<Rightarrow> (Some (Registry_Failure e), f)
       | (None, _, f) \<Rightarrow> (None, f)))"

definition api_migrate_registry ::
  "time_codec \<Rightarrow> disk_answers \<Rightarrow> bool \<Rightarrow> cli_env \<Rightarrow> bool \<Rightarrow> bool \<Rightarrow> registry_file \<Rightarrow> (string \<Rightarrow> registry_file) \<Rightarrow> string \<Rightarrow>
     (command_failure + nat) \<times> registry_file \<times> registry_file" where
  "api_migrate_registry tc disk removable env yes force global files name =
     (if \<not> yes then (Inl (Plain_Failure ''migrate-registry is destructive; repeat with --yes''), global, files name)
      else (case cv_config env of
          None \<Rightarrow> (Inl (Plain_Failure ''CLI configuration is not initialized''), global, files name)
        | Some c \<Rightarrow> (case effective_context c of
            Inl e \<Rightarrow> (Inl (Config_Failure e), global, files name)
          | Inr _ \<Rightarrow> (case migrate_global tc disk removable None force global (files name) of
              (Inl e, g, f) \<Rightarrow> (Inl (Registry_Failure e), g, f)
            | (Inr n, g, f) \<Rightarrow> (Inr n, g, f)))))"

definition resolve_api_credential :: "credential_env \<Rightarrow> api \<Rightarrow> string + string" where
  "resolve_api_credential env a =
     (if \<not> validate_credential_source (ap_credential_source a) then Inl ''source''
      else if ap_auth_type a = [] then Inr []
      else if ap_credential_ref a = [] then Inl ''requires a credential reference before testing''
      else (case resolve_credential env (ap_credential_ref a) [ap_credential_source a] of Inl _ \<Rightarrow> Inl ''credential'' | Inr c \<Rightarrow> Inr c))"

text \<open>
  \<open>api test\<close> through the server: the definition without its description goes to the probe
  endpoint, never a credential. A registry with raw credentials is not used.
\<close>

definition api_test ::
  "time_codec \<Rightarrow> cli_env \<Rightarrow> (api \<Rightarrow> string) \<Rightarrow> (string \<Rightarrow> 'a option) \<Rightarrow> registry_file \<Rightarrow> (string \<Rightarrow> registry_file) \<Rightarrow> string \<Rightarrow>
     cli_request list \<times> (command_failure + 'a)" where
  "api_test tc env encode_probe dec global files name = (case context_registry tc env global files of
       Inl e \<Rightarrow> ([], Inl e)
     | Inr reg \<Rightarrow>
         if ir_legacy reg then ([], Inl (Registry_Failure Legacy_Credentials))
         else (case registry_get reg name of
             None \<Rightarrow> ([], Inl (cli_failed code_not_found ''API_NOT_FOUND'' (''API '' @ name @ '' not found in local registry'')
               (''Run '' @ [CHR 0x27] @ ''bridgectl api list'' @ [CHR 0x27] @ '' to see available APIs.'')))
           | Some a \<Rightarrow> (case server_base (cv_config env) of
               Inl e \<Rightarrow> ([], Inl e)
             | Inr base \<Rightarrow> ask_decoded env dec ''POST'' (base @ ''/api/apis/test'') json_headers (encode_probe a))))"

subsection \<open>What a command reports\<close>

lemma apply_documents_prefix:
  "apply_documents env k base rs sent = (s, ok, e) \<Longrightarrow>
     \<exists>new. s = sent @ new \<and> length ok \<le> length new \<and> length new \<le> Suc (length ok) \<and> length ok \<le> length rs \<and>
       map (rk_check k) (take (length ok) rs) = map Inr ok \<and>
       (e = None \<longrightarrow> length ok = length rs \<and> length new = length ok) \<and> (length ok = length rs \<longrightarrow> e = None) \<and>
       (\<forall>i < length ok. new_bridge_request (cv_token env) ''POST'' (base @ rk_path k) json_headers (rk_encode k (ok ! i)) = Some (new ! i) \<and>
          (\<exists>a. cv_peer env (sent @ take (Suc i) new) = Some a \<and> fst a < 400))"
proof (induction rs arbitrary: sent s ok e)
  case Nil
  then show ?case by simp
next
  case (Cons r rs)
  show ?case
  proof (cases "rk_check k r")
    case (Inl f)
    with Cons.prems show ?thesis by auto
  next
    case (Inr r')
    obtain s' res where ask: "ask_server (cv_peer env) (cv_token env) ''POST'' (base @ rk_path k) json_headers (rk_encode k r') sent = (s', res)"
      by fastforce
    show ?thesis
    proof (cases res)
      case (Inl f)
      with ask have "\<exists>new. s' = sent @ new \<and> length new \<le> 1"
        by (auto simp: ask_server_def do_bridge_request_def split: option.splits if_splits sum.splits)
      with Cons.prems \<open>rk_check k r = Inr r'\<close> ask Inl show ?thesis by auto
    next
      case (Inr a)
      with ask_server_accepted ask obtain rq where rq: "fst a < 400" "s' = sent @ [rq]" "cv_peer env s' = Some a"
        "new_bridge_request (cv_token env) ''POST'' (base @ rk_path k) json_headers (rk_encode k r') = Some rq" by blast
      obtain s2 ok2 e2 where rest: "apply_documents env k base rs s' = (s2, ok2, e2)" by (metis prod_cases3)
      with Cons.prems \<open>rk_check k r = Inr r'\<close> ask Inr have out: "s = s2" "ok = r' # ok2" "e = e2" by auto
      from Cons.IH [OF rest] obtain new where new: "s2 = s' @ new" "length ok2 \<le> length new" "length new \<le> Suc (length ok2)" "length ok2 \<le> length rs"
        "map (rk_check k) (take (length ok2) rs) = map Inr ok2" "e2 = None \<longrightarrow> length ok2 = length rs \<and> length new = length ok2"
        "length ok2 = length rs \<longrightarrow> e2 = None"
        "\<forall>i < length ok2. new_bridge_request (cv_token env) ''POST'' (base @ rk_path k) json_headers (rk_encode k (ok2 ! i)) = Some (new ! i) \<and>
          (\<exists>a. cv_peer env (s' @ take (Suc i) new) = Some a \<and> fst a < 400)" by blast
      have each: "new_bridge_request (cv_token env) ''POST'' (base @ rk_path k) json_headers (rk_encode k ((r' # ok2) ! i)) = Some ((rq # new) ! i) \<and>
          (\<exists>a. cv_peer env (sent @ take (Suc i) (rq # new)) = Some a \<and> fst a < 400)" if "i < length (r' # ok2)" for i
        using that new(8) rq by (cases i) auto
      show ?thesis unfolding out
        using new rq(2) \<open>rk_check k r = Inr r'\<close> each by (intro exI [of _ "rq # new"]) auto
    qed
  qed
qed

text \<open>
  C20: applying a file reports what happened. The resources reported as applied are the first
  ones of the file, each was sent once, in order, and answered without an error; the command
  succeeds only when that is all of them, and otherwise it has sent at most the one request
  that failed.
\<close>

theorem apply_reports_prefix:
  assumes "apply_documents env k base rs [] = (sent, ok, e)"
  shows "map (rk_check k) (take (length ok) rs) = map Inr ok \<and> length ok \<le> length sent \<and> length sent \<le> Suc (length ok) \<and>
    (e = None \<longleftrightarrow> length ok = length rs) \<and> (e = None \<longrightarrow> length sent = length ok) \<and>
    (\<forall>i < length ok. new_bridge_request (cv_token env) ''POST'' (base @ rk_path k) json_headers (rk_encode k (ok ! i)) = Some (sent ! i) \<and>
      (\<exists>a. cv_peer env (take (Suc i) sent) = Some a \<and> fst a < 400))"
proof -
  from apply_documents_prefix [OF assms] obtain new where "sent = [] @ new" "length ok \<le> length new" "length new \<le> Suc (length ok)"
    "map (rk_check k) (take (length ok) rs) = map Inr ok" "e = None \<longrightarrow> length ok = length rs \<and> length new = length ok"
    "length ok = length rs \<longrightarrow> e = None"
    "\<forall>i < length ok. new_bridge_request (cv_token env) ''POST'' (base @ rk_path k) json_headers (rk_encode k (ok ! i)) = Some (new ! i) \<and>
      (\<exists>a. cv_peer env ([] @ take (Suc i) new) = Some a \<and> fst a < 400)" by blast
  then show ?thesis by auto
qed

text \<open>A server that takes the first resource and refuses the next.\<close>

definition sample_peer :: peer where
  "sample_peer sent = (if length sent = 1 then Some (200, Some []) else Some (409, None))"

definition sample_kind :: "string resource_kind" where
  "sample_kind = \<lparr> rk_path = tools_path, rk_any_case = False, rk_empty_list = True, rk_stat_first = True, rk_json_list = (\<lambda>_. None),
     rk_json_one = Some, rk_yaml = (\<lambda>_. None), rk_item = (\<lambda>_. None), rk_check = Inr, rk_encode = (\<lambda>s. s) \<rparr>"

definition sample_cli :: cli_env where
  "sample_cli = \<lparr> cv_config = Some \<lparr> bf_current = ''dev'', bf_contexts = [(''dev'', no_context\<lparr> bc_mcp_server := ''http://erp/mcp'' \<rparr>)] \<rparr>,
     cv_token = ''t'', cv_peer = sample_peer \<rparr>"

lemma apply_reports_prefix_witness:
  "\<exists>sent f. apply_documents sample_cli sample_kind ''http://erp'' [''a'', ''b'', ''c''] [] = (sent, [''a''], Some f) \<and> length sent \<le> 2 \<and>
     new_bridge_request ''t'' ''POST'' (''http://erp'' @ tools_path) json_headers ''a'' = Some (sent ! 0)"
proof -
  have run: "apply_documents sample_cli sample_kind ''http://erp'' [''a'', ''b'', ''c''] [] =
      ((let r = \<lambda>b. \<lparr> cq_method = ''POST'', cq_target = ''http://erp/apis/erpbridge.io/v1/tools'',
           cq_headers = [(''Content-Type'', [''application/json'']), (''Authorization'', [''Bearer t''])], cq_body = b \<rparr> in [r ''a'', r ''b'']),
       [''a''], Some (map_remote_error (fallback_remote_error 409)))" by code_simp
  from apply_reports_prefix [OF run] show ?thesis unfolding run
    by (auto simp: sample_cli_def sample_kind_def)
qed

text \<open>The query of a request and what it asks for.\<close>

definition query_parts :: "cli_request \<Rightarrow> string list" where
  "query_parts rq = (case cut_last (CHR ''?'') (cq_target rq) of None \<Rightarrow> [] | Some (_, q) \<Rightarrow> split_at_char (CHR ''&'') q)"

definition asks_permanently :: "cli_request \<Rightarrow> bool" where
  "asks_permanently rq \<longleftrightarrow> ''hard=true'' \<in> set (query_parts rq)"

lemma query_escape_plain:
  assumes "c \<in> set (query_escape s)"
  shows "c \<noteq> CHR ''&'' \<and> c \<noteq> CHR ''?''"
proof -
  have hex: "upper_hex d \<noteq> CHR ''&'' \<and> upper_hex d \<noteq> CHR ''?''" if "d < 16" for d
  proof -
    from that have "d \<in> {0, 1, 2, 3, 4, 5, 6, 7, 8, 9, 10, 11, 12, 13, 14, 15}" unfolding insert_iff empty_iff by presburger
    then have "of_char (upper_hex d) \<notin> {38, 63 :: nat}" by (elim insertE) (simp_all, simp_all add: upper_hex_def)
    moreover have "of_char (CHR ''&'') = (38 :: nat)" "of_char (CHR ''?'') = (63 :: nat)" by simp_all
    ultimately show ?thesis by (metis insertCI)
  qed
  have "\<not> is_letter (CHR ''&'')" "\<not> is_digit (CHR ''&'')" "\<not> is_letter (CHR ''?'')" "\<not> is_digit (CHR ''?'')" by code_simp+
  then show ?thesis using assms hex char_div_16 by (auto simp: query_escape_def split: if_splits)
qed

lemma split_joined:
  "xs \<noteq> [] \<Longrightarrow> (\<forall>x \<in> set xs. c \<notin> set x) \<Longrightarrow> split_at_char c (join_with [c] xs) = xs"
proof (induction xs rule: induct_list012)
  case (2 x)
  then have "c \<notin> set x" by simp
  then show ?case by (induction x) auto
next
  case (3 x y zs)
  have "c \<notin> set x \<Longrightarrow> split_at_char c (x @ c # s) = x # split_at_char c s" for s by (induction x) auto
  with 3 show ?case by simp
qed simp

lemma cut_last_after: "c \<notin> set b \<Longrightarrow> cut_last c (a @ c # b) = Some (a, b)"
  by (simp add: cut_last_def str_cut_def takeWhile_append dropWhile_append)

definition query_part :: "string \<times> string \<Rightarrow> string" where
  "query_part p = query_escape (fst p) @ ''='' @ query_escape (snd p)"

lemma query_parts_encoded:
  assumes "cq_target rq = front @ ''?'' @ query_encode q" and "q \<noteq> []"
  shows "set (query_parts rq) = query_part ` set q"
proof -
  let ?ps = "map query_part (sort_members q)"
  have plain: "c \<noteq> CHR ''&'' \<and> c \<noteq> CHR ''?''" if "c \<in> set (query_part p)" for c p
    using that query_escape_plain by (auto simp: query_part_def)
  have enc: "query_encode q = join_with ''&'' ?ps" by (simp add: query_encode_def query_part_def [abs_def] case_prod_unfold)
  have "set (join_with s xs) \<subseteq> set s \<union> \<Union> (set ` set xs)" for s xs
    by (induction xs rule: induct_list012) auto
  then have "CHR ''?'' \<notin> set (query_encode q)" unfolding enc using plain by fastforce
  then have "query_parts rq = split_at_char (CHR ''&'') (query_encode q)"
    using cut_last_after assms(1) by (simp add: query_parts_def)
  also have "\<dots> = ?ps"
    unfolding enc
  proof (rule split_joined)
    have "length (sort_members q) = length q" by (simp add: sort_members_def)
    with assms(2) show "?ps \<noteq> []" by auto
    show "\<forall>x \<in> set ?ps. CHR ''&'' \<notin> set x" using plain by auto
  qed
  finally show ?thesis by (simp add: sort_members_def)
qed

lemma removal_parts:
  assumes "cq_target rq = front @ ''?'' @ query_encode (delete_query q hard)" and "q \<noteq> []" and "fst ` set q \<subseteq> {''name'', ''version''}"
  shows "asks_permanently rq \<longleftrightarrow> hard"
proof -
  have same: "query_escape ''name'' = ''name''" "query_escape ''version'' = ''version''" "query_part (''hard'', ''true'') = ''hard=true''"
    by code_simp+
  from query_parts_encoded [OF assms(1)] assms(2)
  have parts: "set (query_parts rq) = query_part ` set (delete_query q hard)" by (simp add: delete_query_def)
  have "query_part p \<noteq> ''hard=true''" if "p \<in> set q" for p
  proof -
    from that assms(3) have "fst p = ''name'' \<or> fst p = ''version''" by auto
    then show ?thesis by (auto simp: query_part_def same)
  qed
  then have "''hard=true'' \<notin> query_part ` set q" unfolding image_iff by fastforce
  then show ?thesis by (cases hard) (simp_all add: asks_permanently_def parts delete_query_def same(3))
qed

lemma ask_server_sent:
  assumes "ask_server peer token verb target headers body [] = (s, r)"
  shows "s = [] \<or> (\<exists>rq. new_bridge_request token verb target headers body = Some rq \<and> s = [rq])"
proof -
  have "fst (ask_server peer token verb target headers body []) = fst (do_bridge_request peer token verb target headers body [])"
    by (simp add: ask_server_def split: prod.split sum.split option.split)
  with assms have "s = fst (do_bridge_request peer token verb target headers body [])" by simp
  then show ?thesis by (cases "new_bridge_request token verb target headers body") (simp_all add: do_bridge_request_def)
qed

lemma delete_resource_requests:
  assumes run: "delete_resource env accepts path q hard yes answer = (sent, res)"
    and q: "q \<noteq> []" "fst ` set q \<subseteq> {''name'', ''version''}"
  shows "length sent \<le> 1 \<and> (\<forall>rq \<in> set sent. cq_method rq = ''DELETE'' \<and> (asks_permanently rq \<longleftrightarrow> hard) \<and> (hard \<longrightarrow> yes \<or> accepts answer)) \<and>
    (res = Inr Deleted \<longrightarrow> (\<exists>rq a. sent = [rq] \<and> cv_peer env sent = Some a \<and> fst a < 400))"
proof (cases "(hard \<and> \<not> yes \<and> \<not> accepts answer) \<or> (\<exists>e. server_base (cv_config env) = Inl e)")
  case True
  with run show ?thesis by (auto simp: delete_resource_def split: if_splits sum.splits)
next
  case False
  then obtain base where base: "server_base (cv_config env) = Inr base" by (cases "server_base (cv_config env)") auto
  let ?t = "base @ path @ ''?'' @ query_encode (delete_query q hard)"
  obtain s r where ask: "ask_server (cv_peer env) (cv_token env) ''DELETE'' ?t [] [] [] = (s, r)" by fastforce
  have out: "sent = s" "res = Inr Deleted \<Longrightarrow> \<exists>a. r = Inr a"
    using run False base ask by (auto simp: delete_resource_def split: sum.splits)
  have "cq_method rq = ''DELETE'' \<and> (asks_permanently rq \<longleftrightarrow> hard)"
    if "new_bridge_request (cv_token env) ''DELETE'' ?t [] [] = Some rq" for rq
  proof -
    from that have t: "cq_target rq = (base @ path) @ ''?'' @ query_encode (delete_query q hard)" "cq_method rq = ''DELETE''"
      by (auto simp: new_bridge_request_def split: if_splits)
    with removal_parts [OF t(1) q] show ?thesis by blast
  qed
  with ask_server_sent [OF ask] out(1) False
  have requests: "length sent \<le> 1" "\<forall>rq \<in> set sent. cq_method rq = ''DELETE'' \<and> (asks_permanently rq \<longleftrightarrow> hard) \<and> (hard \<longrightarrow> yes \<or> accepts answer)" by auto
  have "\<exists>rq a. sent = [rq] \<and> cv_peer env sent = Some a \<and> fst a < 400" if "res = Inr Deleted"
  proof -
    from out(2) [OF that] obtain a where "r = Inr a" by blast
    from ask_server_accepted [OF ask [unfolded this]] out(1) show ?thesis by (metis append_Nil)
  qed
  with requests show ?thesis by blast
qed

text \<open>What a prompt of any of the commands takes for a yes.\<close>

lemma every_yes:
  "tool_yes s \<Longrightarrow> to_lower s \<in> {''y'', ''yes''}" "plugin_yes s \<Longrightarrow> to_lower s \<in> {''y'', ''yes''}" "binding_yes s \<Longrightarrow> to_lower s \<in> {''y'', ''yes''}"
proof -
  show "tool_yes s \<Longrightarrow> to_lower s \<in> {''y'', ''yes''}" by (simp add: tool_yes_def)
  have lower: "to_lower ''y'' = ''y''" "to_lower ''yes'' = ''yes''" "to_lower ''Y'' = ''y''" "to_lower ''YES'' = ''yes''" by code_simp+
  show "plugin_yes s \<Longrightarrow> to_lower s \<in> {''y'', ''yes''}" by (auto simp: plugin_yes_def equal_fold_def lower)
  show "binding_yes s \<Longrightarrow> to_lower s \<in> {''y'', ''yes''}" by (auto simp: binding_yes_def lower)
qed

text \<open>
  C15: a permanent removal is asked for and confirmed. The commands that remove a tool, a
  plugin or a binding send at most one request, a \<open>DELETE\<close>. Its query asks for a permanent
  removal exactly when the command line did, and then the user said yes: by the flag, or with
  y or yes in any case at the prompt. The removal is reported only when the server answered
  that request with a status below 400.
\<close>

theorem delete_as_confirmed:
  assumes "(sent, res) \<in> {tool_delete env args hard yes answer, plugin_delete env ident hard yes answer, binding_delete env ident hard yes answer}"
  shows "length sent \<le> 1 \<and>
    (\<forall>rq \<in> set sent. cq_method rq = ''DELETE'' \<and> (asks_permanently rq \<longleftrightarrow> hard) \<and> (asks_permanently rq \<longrightarrow> yes \<or> to_lower answer \<in> {''y'', ''yes''})) \<and>
    (res = Inr Deleted \<longrightarrow> (\<exists>rq a. sent = [rq] \<and> cv_peer env sent = Some a \<and> fst a < 400))"
proof -
  have "(\<exists>e. sent = [] \<and> res = Inl e) \<or> (\<exists>accepts path q. delete_resource env accepts path q hard yes answer = (sent, res) \<and>
      q \<noteq> [] \<and> fst ` set q \<subseteq> {''name'', ''version''} \<and> accepts \<in> {tool_yes, plugin_yes, binding_yes})"
    using assms by (force simp: tool_delete_def plugin_delete_def binding_delete_def split: list.splits prod.splits if_splits)
  then show ?thesis
  proof (elim disjE exE conjE)
    fix accepts path q
    assume "delete_resource env accepts path q hard yes answer = (sent, res)" "q \<noteq> []" "fst ` set q \<subseteq> {''name'', ''version''}"
      and yes: "accepts \<in> {tool_yes, plugin_yes, binding_yes}"
    from delete_resource_requests [OF this(1-3)] show ?thesis using every_yes yes by blast
  qed simp
qed

text \<open>The same removal kept and permanent, the second one confirmed at the prompt.\<close>

lemma delete_as_confirmed_witness:
  "\<exists>kept gone. fst (tool_delete sample_cli [''hard=true&'', ''1''] False False ''n'') = [kept] \<and> \<not> asks_permanently kept \<and>
     fst (tool_delete sample_cli [''a'', ''1''] True False ''Yes'') = [gone] \<and> asks_permanently gone"
proof -
  let ?kept = "tool_delete sample_cli [''hard=true&'', ''1''] False False ''n''" and ?gone = "tool_delete sample_cli [''a'', ''1''] True False ''Yes''"
  have "length (fst ?kept) = 1" "length (fst ?gone) = 1" by code_simp+
  then obtain kept gone where sent: "fst ?kept = [kept]" "fst ?gone = [gone]" by (auto simp: length_Suc_conv)
  have run: "([kept], snd ?kept) = ?kept" "([gone], snd ?gone) = ?gone" using sent by (simp_all add: prod_eq_iff)
  have "(([kept], snd ?kept) \<in> {?kept, plugin_delete sample_cli [] False False ''n'', binding_delete sample_cli [] False False ''n''})"
    "(([gone], snd ?gone) \<in> {?gone, plugin_delete sample_cli [] True False ''Yes'', binding_delete sample_cli [] True False ''Yes''})"
    unfolding run by (rule insertI1)+
  from this [THEN delete_as_confirmed] have "\<not> asks_permanently kept" "asks_permanently gone" by simp_all
  with sent show ?thesis by blast
qed

text \<open>A redirected removal is reported as done.\<close>

lemma redirected_delete_reported:
  "snd (tool_delete (sample_cli\<lparr> cv_peer := \<lambda>_. Some (307, None) \<rparr>) [''a'', ''1.0.0''] True True []) = Inr Deleted"
  by code_simp

text \<open>A redirected answer leaves the cache statistics silently empty, and an address that does not parse stops the flush.\<close>

lemma redirected_stats_silent:
  "snd (cli_cache_stats (sample_cli\<lparr> cv_config := Some \<lparr> bf_current = ''dev'', bf_contexts = [(''dev'', no_context\<lparr> bc_server := ''http://erp'' \<rparr>)] \<rparr>,
     cv_peer := \<lambda>_. Some (302, None) \<rparr>) (\<lambda>s. Some s)) = Inr None"
  by code_simp

lemma flush_panics:
  "snd (cache_flush (sample_cli\<lparr> cv_config := Some \<lparr> bf_current = ''dev'', bf_contexts = [(''dev'', no_context\<lparr> bc_server := ''http://[erp'' \<rparr>)] \<rparr> \<rparr>)
     (\<lambda>_. []) (\<lambda>s. Some s) [] [] True) = Inl Panicked"
  by code_simp

end
