(* ===== verification/Idp_Sharing.thy ===== *)
theory Idp_Sharing
  imports Idp_Registry
begin

text \<open>
  Concurrent bridgectl commands on one registry file: the steps of \<open>withWrite\<close> and the lock
  file in internal/idp/registry.go, interleaved, against the map that the commands mean to
  change one after the other.
\<close>

subsection \<open>The map behind the file\<close>

type_synonym api_map = "string \<Rightarrow> api option"

fun op_effect :: "registry_op \<Rightarrow> api_map \<Rightarrow> api_map option" where
  "op_effect (Op_Register a force now) m =
     (if m (ap_name a) \<noteq> None \<and> \<not> force then None else Some (m(ap_name a \<mapsto> stamped now a)))"
| "op_effect (Op_Delete name) m = Some (m(name := None))"
| "op_effect (Op_Set_Ref name ref) m = map_option (\<lambda>a. m(name \<mapsto> a\<lparr> ap_credential_ref := ref \<rparr>)) (m name)"
| "op_effect (Op_Merge new) m = Some (fold (\<lambda>(_, a) m. m(ap_name a \<mapsto> a)) new m)"

text \<open>What a command has checked before it takes the lock.\<close>

fun checked_op :: "registry_op \<Rightarrow> bool" where
  "checked_op (Op_Register a force now) \<longleftrightarrow> check_api (ap_name a) a = None"
| "checked_op (Op_Delete name) \<longleftrightarrow> True"
| "checked_op (Op_Set_Ref name ref) \<longleftrightarrow> validate_reference ref"
| "checked_op (Op_Merge new) \<longleftrightarrow> (\<forall>e \<in> set new. check_api (ap_name (snd e)) (snd e) = None)"

definition contents :: "time_codec \<Rightarrow> registry_file \<Rightarrow> api_map option" where
  "contents tc f = (case f of
       Registry_Absent \<Rightarrow> Some Map.empty
     | Registry_Denied \<Rightarrow> None
     | Registry_Text s \<Rightarrow> (case load_text tc s of Inr (as, legacy) \<Rightarrow> if legacy then None else Some (map_of as) | Inl _ \<Rightarrow> None))"

lemma map_of_merge: "map_of (fold (\<lambda>(_, a). amap_put (ap_name a) a) new as) = fold (\<lambda>(_, a) m. m(ap_name a \<mapsto> a)) new (map_of as)"
  by (induction new arbitrary: as) auto

lemma change_of_effect:
  "op_effect c (map_of as) = (case change_of c as of Inl _ \<Rightarrow> None | Inr as' \<Rightarrow> Some (map_of as'))"
  by (cases c) (auto simp: map_of_merge split: option.splits)

lemma check_api_irrelevant:
  "check_api n (stamped now a) = None \<longleftrightarrow> check_api n' a = None"
  "check_api n a = None \<longleftrightarrow> check_api n' a = None"
  by (auto simp: check_api_def stamped_def split: if_splits)

lemma sound_put: "sound_apis as \<Longrightarrow> check_api n a = None \<Longrightarrow> sound_apis (amap_put n a as)"
  by (auto simp: sound_apis_def amap_put_def distinct_map_filter)

lemma change_of_sound:
  assumes "sound_apis as" and "checked_op c" and "change_of c as = Inr as'"
  shows "sound_apis as'"
proof (cases c)
  case (Op_Register a force now)
  with assms show ?thesis by (auto split: if_splits intro!: sound_put simp: check_api_irrelevant(1) [of _ _ _ "ap_name a"])
next
  case (Op_Delete name)
  with assms show ?thesis by (auto simp: sound_apis_def amap_del_def distinct_map_filter)
next
  case (Op_Set_Ref name ref)
  with assms obtain a where a: "map_of as name = Some a" "as' = amap_put name (a\<lparr> ap_credential_ref := ref \<rparr>) as"
    by (auto split: option.splits)
  from a(1) assms(1) have "check_api name a = None" by (force simp: sound_apis_def dest!: map_of_SomeD)
  with assms(2) Op_Set_Ref have "check_api name (a\<lparr> ap_credential_ref := ref \<rparr>) = None"
    by (auto simp: check_api_def validate_reference_def split: if_splits)
  with a(2) assms(1) show ?thesis by (simp add: sound_put)
next
  case (Op_Merge new)
  have "sound_apis (fold (\<lambda>(_, a). amap_put (ap_name a) a) new xs)"
    if "sound_apis xs" "\<forall>e \<in> set new. check_api (ap_name (snd e)) (snd e) = None" for xs
    using that
  proof (induction new arbitrary: xs)
    case (Cons e new)
    then show ?case by (cases e) (simp add: sound_put)
  qed simp
  with Op_Merge assms show ?thesis by auto
qed

text \<open>A written file has the contents that were written.\<close>

lemma map_of_sort_key: "amap_wf as \<Longrightarrow> map_of (sort_key fst as) = map_of as"
  by (rule map_of_eqI) (auto simp: distinct_map map_of_eq_Some_iff)

lemma contents_registry_text:
  assumes "faithful_codec tc" and "sound_apis as"
  shows "contents tc (Registry_Text (registry_text tc as)) = Some (map_of as)"
  using load_registry_text [OF assms] assms(2) by (simp add: contents_def sound_apis_def map_of_sort_key)

subsection \<open>Steps\<close>

datatype reg_phase =
    Reg_Start
  | Reg_Waiting idp_registry
  | Reg_Holding idp_registry
  | Reg_Loaded apis
  | Reg_Releasing "registry_error option"
  | Reg_Finished "registry_error option"
  | Reg_Crashed

record reg_world =
  rw_file :: registry_file
  rw_locked :: bool
  rw_phase :: "nat \<Rightarrow> reg_phase"
  rw_done :: "nat list"

definition set_phase :: "nat \<Rightarrow> reg_phase \<Rightarrow> reg_world \<Rightarrow> reg_world" where
  "set_phase p ph w = w\<lparr> rw_phase := (rw_phase w)(p := ph) \<rparr>"

definition opened :: "time_codec \<Rightarrow> registry_file \<Rightarrow> reg_phase" where
  "opened tc f = (case new_registry tc f of Inl e \<Rightarrow> Reg_Finished (Some e) | Inr r \<Rightarrow> Reg_Waiting r)"

definition reloaded :: "time_codec \<Rightarrow> registry_file \<Rightarrow> idp_registry \<Rightarrow> reg_phase" where
  "reloaded tc f r = (case load_locked tc f r of
       Inl e \<Rightarrow> Reg_Releasing (Some e)
     | Inr r1 \<Rightarrow> if ir_legacy r1 then Reg_Releasing (Some Legacy_Credentials) else Reg_Loaded (ir_apis r1))"

definition running :: "reg_phase \<Rightarrow> bool" where
  "running ph \<longleftrightarrow> (case ph of Reg_Finished _ \<Rightarrow> False | Reg_Crashed \<Rightarrow> False | _ \<Rightarrow> True)"

text \<open>
  A command opens the registry, takes the lock file, reads the file again, installs the new
  file with a rename and removes the lock file. It may give up waiting, fail to save, or die
  at any point, leaving its lock file.
\<close>

inductive reg_step :: "time_codec \<Rightarrow> (nat \<Rightarrow> registry_op) \<Rightarrow> reg_world \<Rightarrow> reg_world \<Rightarrow> bool" for tc ops where
  opens: "rw_phase w p = Reg_Start \<Longrightarrow> reg_step tc ops w (set_phase p (opened tc (rw_file w)) w)"
| locks: "rw_phase w p = Reg_Waiting r \<Longrightarrow> \<not> rw_locked w \<Longrightarrow>
    reg_step tc ops w (set_phase p (Reg_Holding r) (w\<lparr> rw_locked := True \<rparr>))"
| gives_up: "rw_phase w p = Reg_Waiting r \<Longrightarrow> reg_step tc ops w (set_phase p (Reg_Finished (Some Registry_Locked)) w)"
| reloads: "rw_phase w p = Reg_Holding r \<Longrightarrow> reg_step tc ops w (set_phase p (reloaded tc (rw_file w) r) w)"
| commits: "rw_phase w p = Reg_Loaded as \<Longrightarrow> change_of (ops p) as = Inr as' \<Longrightarrow>
    reg_step tc ops w (set_phase p (Reg_Releasing None)
      (w\<lparr> rw_file := Registry_Text (registry_text tc as'), rw_done := rw_done w @ [p] \<rparr>))"
| refuses: "rw_phase w p = Reg_Loaded as \<Longrightarrow> change_of (ops p) as = Inl e \<Longrightarrow>
    reg_step tc ops w (set_phase p (Reg_Releasing (Some e)) w)"
| unsaved: "rw_phase w p = Reg_Loaded as \<Longrightarrow> reg_step tc ops w (set_phase p (Reg_Releasing (Some Registry_Save_Failed)) w)"
| releases: "rw_phase w p = Reg_Releasing e \<Longrightarrow>
    reg_step tc ops w (set_phase p (Reg_Finished e) (w\<lparr> rw_locked := False \<rparr>))"
| crashes: "running (rw_phase w p) \<Longrightarrow> reg_step tc ops w (set_phase p Reg_Crashed w)"

fun replay :: "(nat \<Rightarrow> registry_op) \<Rightarrow> nat list \<Rightarrow> api_map \<Rightarrow> api_map option" where
  "replay ops [] m = Some m"
| "replay ops (p # ps) m = Option.bind (op_effect (ops p) m) (replay ops ps)"

lemma replay_append: "replay ops (ps @ qs) m = Option.bind (replay ops ps m) (replay ops qs)"
proof (induction ps arbitrary: m)
  case (Cons p ps)
  then show ?case by (cases "op_effect (ops p) m") auto
qed simp

fun holds_lock :: "reg_phase \<Rightarrow> bool" where
  "holds_lock (Reg_Holding r) = True"
| "holds_lock (Reg_Loaded as) = True"
| "holds_lock (Reg_Releasing e) = True"
| "holds_lock _ = False"

fun committed :: "reg_phase \<Rightarrow> bool" where
  "committed (Reg_Releasing e) = (e = None)"
| "committed (Reg_Finished e) = (e = None)"
| "committed _ = False"

fun memory_of :: "reg_phase \<Rightarrow> idp_registry option" where
  "memory_of (Reg_Waiting r) = Some r"
| "memory_of (Reg_Holding r) = Some r"
| "memory_of _ = None"

definition phase_ok :: "time_codec \<Rightarrow> reg_world \<Rightarrow> nat \<Rightarrow> reg_phase \<Rightarrow> bool" where
  "phase_ok tc w p ph \<longleftrightarrow>
     (\<forall>as. ph = Reg_Loaded as \<longrightarrow> contents tc (rw_file w) = Some (map_of as) \<and> sound_apis as) \<and>
     (\<forall>r. memory_of ph = Some r \<longrightarrow> rw_file w = Registry_Absent \<longrightarrow> r = empty_registry) \<and>
     (committed ph \<longrightarrow> p \<in> set (rw_done w)) \<and>
     (p \<in> set (rw_done w) \<longrightarrow> committed ph \<or> ph = Reg_Crashed)"

definition lock_ok :: "reg_world \<Rightarrow> bool" where
  "lock_ok w \<longleftrightarrow> (\<forall>p. holds_lock (rw_phase w p) \<longrightarrow> rw_locked w \<and> (\<forall>q. holds_lock (rw_phase w q) \<longrightarrow> q = p))"

text \<open>
  The file is what the commits made of the first contents, in their order; the lock has one
  owner; a command that holds it has read the current file; before there is a file no
  command remembers an entry.
\<close>

definition reg_inv :: "time_codec \<Rightarrow> (nat \<Rightarrow> registry_op) \<Rightarrow> api_map \<Rightarrow> reg_world \<Rightarrow> bool" where
  "reg_inv tc ops m0 w \<longleftrightarrow>
     replay ops (rw_done w) m0 = contents tc (rw_file w) \<and> contents tc (rw_file w) \<noteq> None \<and>
     distinct (rw_done w) \<and> lock_ok w \<and> (\<forall>p. phase_ok tc w p (rw_phase w p))"

lemma set_phase_simps [simp]:
  "rw_file (set_phase p ph w) = rw_file w" "rw_locked (set_phase p ph w) = rw_locked w" "rw_done (set_phase p ph w) = rw_done w"
  "rw_phase (set_phase p ph w) = (rw_phase w)(p := ph)"
  by (simp_all add: set_phase_def)

text \<open>A step that changes one phase only.\<close>

lemma set_phase_inv:
  assumes "reg_inv tc ops m0 w" and "phase_ok tc w p ph" and "holds_lock ph \<Longrightarrow> holds_lock (rw_phase w p)"
  shows "reg_inv tc ops m0 (set_phase p ph w)"
proof -
  have "lock_ok (set_phase p ph w)" using assms(1,3) by (auto simp: reg_inv_def lock_ok_def)
  with assms(1,2) show ?thesis by (simp add: reg_inv_def phase_ok_def)
qed

lemma reloaded_Loaded:
  assumes "reloaded tc f r = Reg_Loaded as" and "f = Registry_Absent \<Longrightarrow> r = empty_registry"
  shows "contents tc f = Some (map_of as) \<and> sound_apis as"
  using assms
  by (cases f) (auto simp: reloaded_def load_locked_def contents_def empty_registry_def sound_apis_def [of "[]"] dest: load_text_sound split: sum.splits if_splits prod.splits)

lemma phase_kinds:
  "\<not> committed (opened tc f)" "\<not> holds_lock (opened tc f)" "opened tc f \<noteq> Reg_Loaded as"
  "\<not> committed (reloaded tc f r)" "memory_of (reloaded tc f r) = None"
  "memory_of (opened tc Registry_Absent) = Some r \<Longrightarrow> r = empty_registry"
  by (auto simp: opened_def reloaded_def new_registry_def load_locked_def split: sum.splits if_splits)

lemma reg_invD:
  assumes "reg_inv tc ops m0 w"
  shows "phase_ok tc w p (rw_phase w p)" "lock_ok w"
  using assms by (simp_all add: reg_inv_def)

lemma commit_inv:
  assumes "reg_inv tc ops m0 w" and "rw_phase w p = Reg_Loaded as" and "change_of (ops p) as = Inr as'"
    and "faithful_codec tc" and "checked_op (ops p)"
  shows "reg_inv tc ops m0 (set_phase p (Reg_Releasing None)
      (w\<lparr> rw_file := Registry_Text (registry_text tc as'), rw_done := rw_done w @ [p] \<rparr>))"
proof -
  note ok = reg_invD [OF assms(1)]
  from ok(1) [of p] assms(2) have as: "contents tc (rw_file w) = Some (map_of as)" "sound_apis as" "p \<notin> set (rw_done w)"
    by (auto simp: phase_ok_def)
  have sound: "sound_apis as'" by (rule change_of_sound [OF as(2) assms(5,3)])
  note new = contents_registry_text [OF assms(4) sound] load_registry_text [OF assms(4) sound]
  have "replay ops (rw_done w @ [p]) m0 = Some (map_of as')"
    using assms(1,3) as(1) change_of_effect [of "ops p" as] by (simp add: reg_inv_def replay_append)
  moreover have "sound_apis (sort_key fst as')" using sound by (simp add: sound_apis_def distinct_map)
  moreover have other: "phase_ok tc (w\<lparr> rw_file := Registry_Text (registry_text tc as'), rw_done := rw_done w @ [p] \<rparr>) q (rw_phase w q)"
    if "q \<noteq> p" for q
  proof -
    have "\<not> holds_lock (rw_phase w q)" using ok(2) assms(2) that by (metis holds_lock.simps(2) lock_ok_def)
    then have "rw_phase w q \<noteq> Reg_Loaded bs" for bs by auto
    with ok(1) [of q] that show ?thesis by (simp add: phase_ok_def)
  qed
  moreover have "lock_ok (set_phase p (Reg_Releasing None) (w\<lparr> rw_file := Registry_Text (registry_text tc as'), rw_done := rw_done w @ [p] \<rparr>))"
  proof -
    have "rw_locked w" using ok(2) assms(2) by (metis holds_lock.simps(2) lock_ok_def)
    with ok(2) assms(2) show ?thesis by (auto simp: lock_ok_def)
  qed
  ultimately show ?thesis
    using assms(1) as(3) new by (auto simp: reg_inv_def phase_ok_def)
qed

lemma reg_step_inv:
  assumes "reg_step tc ops w w'" and "reg_inv tc ops m0 w" and "faithful_codec tc" and "\<forall>p. checked_op (ops p)"
  shows "reg_inv tc ops m0 w'"
  using assms(1,2)
proof (induction rule: reg_step.induct)
  case (opens w p)
  then show ?case using reg_invD(1) [OF opens(2), of p]
    by (intro set_phase_inv) (auto simp: phase_ok_def phase_kinds)
next
  case (locks w p r)
  have "lock_ok (set_phase p (Reg_Holding r) (w\<lparr> rw_locked := True \<rparr>))"
    using reg_invD(2) [OF locks(3)] locks(2) by (auto simp: lock_ok_def)
  with locks show ?case using reg_invD(1) [OF locks(3), of p] by (auto simp: reg_inv_def phase_ok_def)
next
  case (gives_up w p r)
  then show ?case using reg_invD(1) [OF gives_up(2), of p] by (intro set_phase_inv) (auto simp: phase_ok_def)
next
  case (reloads w p r)
  note ok = reg_invD(1) [OF reloads(2), of p]
  have "phase_ok tc w p (reloaded tc (rw_file w) r)"
    using ok reloads(1) reloaded_Loaded by (auto simp: phase_ok_def phase_kinds)
  with reloads show ?case by (intro set_phase_inv) auto
next
  case (commits w p as as')
  then show ?case using assms(3,4) by (intro commit_inv) auto
next
  case (refuses w p as e)
  then show ?case using reg_invD(1) [OF refuses(3), of p] by (intro set_phase_inv) (auto simp: phase_ok_def)
next
  case (unsaved w p as)
  then show ?case using reg_invD(1) [OF unsaved(2), of p] by (intro set_phase_inv) (auto simp: phase_ok_def)
next
  case (releases w p e)
  have "lock_ok (set_phase p (Reg_Finished e) (w\<lparr> rw_locked := False \<rparr>))"
    using reg_invD(2) [OF releases(2)] releases(1) by (auto simp: lock_ok_def)
  with releases show ?case using reg_invD(1) [OF releases(2), of p] by (auto simp: reg_inv_def phase_ok_def)
next
  case (crashes w p)
  then show ?case using reg_invD(1) [OF crashes(2), of p] by (intro set_phase_inv) (auto simp: phase_ok_def)
qed

definition reg_start :: "registry_file \<Rightarrow> reg_world" where
  "reg_start f = \<lparr> rw_file = f, rw_locked = False, rw_phase = (\<lambda>_. Reg_Start), rw_done = [] \<rparr>"

lemma reg_reachable_inv:
  assumes "(reg_step tc ops)\<^sup>*\<^sup>* (reg_start f) w" and "contents tc f = Some m0"
    and "faithful_codec tc" and "\<forall>p. checked_op (ops p)"
  shows "reg_inv tc ops m0 w"
  using assms(1)
proof (induction rule: rtranclp_induct)
  case base
  show ?case using assms(2) by (simp add: reg_inv_def reg_start_def lock_ok_def phase_ok_def)
next
  case (step w w')
  then show ?case using reg_step_inv [OF step(2) step(3) assms(3,4)] by blast
qed

lemma replay_registers:
  "replay ops ps m = Some m' \<Longrightarrow> p \<in> set ps \<Longrightarrow> ops p = Op_Register a False now \<Longrightarrow>
     \<exists>before. replay ops (takeWhile (\<lambda>q. q \<noteq> p) ps) m = Some before \<and> before (ap_name a) = None"
  by (induction ps arbitrary: m) (auto split: option.splits if_splits Option.bind_splits)


text \<open>Two commands that open the same missing registry; the first one registers an API.\<close>

definition sample_codec :: time_codec where
  "sample_codec = \<lparr> tc_format = itoa,
     tc_parse = (\<lambda>s. Some (if has_prefix s ''-'' then - digits_value (drop 1 s) else digits_value s)) \<rparr>"

lemma sample_codec_faithful: "faithful_codec sample_codec"
proof -
  have "\<not> has_prefix (digits_of n) ''-''" for n
    using digits_of_digit [of n] by (cases "digits_of n") (auto simp: has_prefix_def is_digit_def)
  then show ?thesis by (auto simp: faithful_codec_def sample_codec_def itoa_def digits_value_digits has_prefix_def)
qed

definition sample_api :: api where
  "sample_api = \<lparr> ap_id = ''a'', ap_name = ''erp'', ap_url = ''https://erp/x'', ap_method = ''GET'', ap_auth_type = ''api-key'',
     ap_auth_header = [], ap_credential_ref = ''ERP_KEY'', ap_credential_source = ''env'', ap_auth_username = [],
     ap_module = ''m'', ap_description = ''d'', ap_status = [], ap_created_at = 0 \<rparr>"

definition sample_ops :: "nat \<Rightarrow> registry_op" where
  "sample_ops p = Op_Register sample_api False (int p)"

definition sample_committed :: reg_world where
  "sample_committed =
     (let w2 = set_phase 1 (Reg_Waiting empty_registry) (set_phase 0 (Reg_Waiting empty_registry) (reg_start Registry_Absent));
          w4 = set_phase 0 (Reg_Loaded []) (set_phase 0 (Reg_Holding empty_registry) (w2\<lparr> rw_locked := True \<rparr>)) in
      set_phase 0 (Reg_Releasing None) (w4\<lparr> rw_file := Registry_Text (registry_text sample_codec [(''erp'', stamped 0 sample_api)]),
        rw_done := rw_done w4 @ [0] \<rparr>))"

lemma sample_commits: "(reg_step sample_codec sample_ops)\<^sup>*\<^sup>* (reg_start Registry_Absent) sample_committed"
proof -
  let ?w0 = "reg_start Registry_Absent" and ?r = empty_registry
  let ?w1 = "set_phase 0 (Reg_Waiting ?r) ?w0"
  let ?w2 = "set_phase 1 (Reg_Waiting ?r) ?w1"
  let ?w3 = "set_phase 0 (Reg_Holding ?r) (?w2\<lparr> rw_locked := True \<rparr>)"
  let ?w4 = "set_phase 0 (Reg_Loaded []) ?w3"
  have o: "opened sample_codec Registry_Absent = Reg_Waiting ?r" "reloaded sample_codec Registry_Absent ?r = Reg_Loaded []"
    by (simp_all add: opened_def new_registry_def load_locked_def reloaded_def empty_registry_def)
  have c: "change_of (sample_ops 0) [] = Inr [(''erp'', stamped 0 sample_api)]"
    by (simp add: sample_ops_def amap_put_def sample_api_def)
  have s1: "reg_step sample_codec sample_ops ?w0 ?w1"
    using reg_step.opens [of ?w0 0 sample_codec sample_ops] o by (simp add: reg_start_def)
  have s2: "reg_step sample_codec sample_ops ?w1 ?w2"
    using reg_step.opens [of ?w1 1 sample_codec sample_ops] o by (simp add: reg_start_def)
  have s3: "reg_step sample_codec sample_ops ?w2 ?w3"
    using reg_step.locks [of ?w2 0 ?r sample_codec sample_ops] by (simp add: reg_start_def)
  have s4: "reg_step sample_codec sample_ops ?w3 ?w4"
    using reg_step.reloads [of ?w3 0 ?r sample_codec sample_ops] o by (simp add: reg_start_def)
  have s5: "reg_step sample_codec sample_ops ?w4 sample_committed"
    using reg_step.commits [of ?w4 0 "[]" sample_ops _ sample_codec, OF _ c] by (simp add: sample_committed_def Let_def)
  show ?thesis
    by (rule converse_rtranclp_into_rtranclp, rule s1, rule converse_rtranclp_into_rtranclp, rule s2,
        rule converse_rtranclp_into_rtranclp, rule s3, rule converse_rtranclp_into_rtranclp, rule s4, rule r_into_rtranclp, rule s5)
qed


subsection \<open>Scrubbing\<close>

text \<open>
  A scrubbed file holds no raw credential any more and keeps every definition.
\<close>

lemma scrub_removes_credentials:
  assumes "scrub_credentials tc disk r (Registry_Text s) = (None, r', f')" and "faithful_codec tc"
    and "load_text tc s = Inr (as, True)"
  shows "contents tc f' = Some (map_of as) \<and> \<not> ir_legacy r'"
proof -
  from assms(1,3) have "f' = Registry_Text (registry_text tc as)" "\<not> ir_legacy r'"
    by (auto simp: scrub_credentials_def load_locked_def split: if_splits)
  with contents_registry_text [OF assms(2) load_text_sound [OF assms(3)]] show ?thesis by simp
qed

text \<open>
  A migration checks for collisions before it takes the lock: an entry that another command
  registers in between is replaced without force.
\<close>

lemma migration_replaces_late_entry:
  assumes "map_of as (ap_name a) = Some other"
  shows "\<exists>as'. change_of (Op_Merge [(ap_name a, a)]) as = Inr as' \<and> map_of as' (ap_name a) = Some a"
  by simp

end
