(* ===== verification/Generator.thy ===== *)
theory Generator
  imports Idp_Registry Server_State
begin

text \<open>
  internal/idp/generator.go: tools generated from a registered API or from an OpenAPI
  document. The document is what the OpenAPI library loaded and validated; of a schema the
  code only uses its JSON form. Texts are ASCII here, so letters and digits are those of ASCII.
\<close>

subsection \<open>The document\<close>

record oa_parameter =
  oa_in :: string
  oa_name :: string
  oa_param_description :: string
  oa_param_required :: bool
  oa_schema :: "jval option"

datatype param_ref = Param_Empty | Param_Unresolved string | Param oa_parameter

text \<open>A content by media type, with what the library's lookup of JSON answers.\<close>

record oa_content =
  oc_json :: "jval option option"
  oc_media :: "(string \<times> jval option) list"

record oa_operation =
  oo_id :: string
  oo_summary :: string
  oo_description :: string
  oo_parameters :: "param_ref list"
  oo_body :: "(bool \<times> oa_content) option"
  oo_response :: "nat \<Rightarrow> oa_content option option"

record oa_path_item =
  oi_parameters :: "param_ref list"
  oi_operations :: "(string \<times> oa_operation) list"

record oa_document =
  od_paths :: "(string \<times> oa_path_item) list"
  od_servers :: "string list"
  od_schemas :: "(string \<times> jval) list"

datatype generate_error =
    Gen_Invalid_Source
  | Gen_Missing_Ref
  | Gen_Invalid_Ref
  | Gen_Empty_Name string string
  | Gen_Name_Collision string string string
  | Gen_Empty_Parameter
  | Gen_Unresolved_Parameter string
  | Gen_Bad_Location string
  | Gen_Protected_Header string
  | Gen_No_Schema string
  | Gen_Unresolved_Schema string
  | Gen_Schema_Not_Object string
  | Gen_Argument_Collision string string
  | Gen_Never_Ends
  | Gen_Load_Failed
  | Gen_Invalid_Document

subsection \<open>Credentials, annotations, caching and descriptions\<close>

definition credential_ref_for_api :: "api \<Rightarrow> generate_error + string" where
  "credential_ref_for_api a =
     (if \<not> validate_credential_source (ap_credential_source a) then Inl Gen_Invalid_Source
      else if is_file_backed (ap_credential_source a) \<and> ap_credential_ref a = [] then Inl Gen_Missing_Ref
      else if ap_auth_type a = [] then Inr []
      else if ap_credential_ref a = [] then Inl Gen_Missing_Ref
      else if \<not> validate_reference (ap_credential_ref a) then Inl Gen_Invalid_Ref
      else Inr (ap_credential_ref a))"

definition no_annotations :: tool_annotations where
  "no_annotations = \<lparr> an_title = [], an_read_only_hint = None, an_destructive_hint = None, an_idempotent_hint = None,
     an_open_world_hint = Some True \<rparr>"

definition annotations_for_http_method :: "string \<Rightarrow> tool_annotations" where
  "annotations_for_http_method method =
     (let m = to_upper (trim_space method) in
      if m \<in> {''GET'', ''HEAD'', ''OPTIONS'', ''TRACE''} then
        no_annotations\<lparr> an_read_only_hint := Some True, an_destructive_hint := Some False, an_idempotent_hint := Some True \<rparr>
      else if m \<in> {''PUT'', ''DELETE''} then
        no_annotations\<lparr> an_read_only_hint := Some False, an_destructive_hint := Some True, an_idempotent_hint := Some True \<rparr>
      else if m \<in> {''POST'', ''PATCH''} then
        no_annotations\<lparr> an_read_only_hint := Some False, an_destructive_hint := Some True, an_idempotent_hint := Some False \<rparr>
      else no_annotations)"

definition generated_read_cache_ttl :: int where "generated_read_cache_ttl = 60"

definition default_cache :: "string \<Rightarrow> cache_config" where
  "default_cache method =
     (let m = to_upper (trim_space method) in
      if m = ''GET'' \<or> m = ''HEAD''
      then \<lparr> cc_enabled = True, cc_ttl_seconds = generated_read_cache_ttl, cc_is_read_only = True, cc_flush_on = [] \<rparr>
      else \<lparr> cc_enabled = False, cc_ttl_seconds = 0, cc_is_read_only = False, cc_flush_on = [] \<rparr>)"

definition intent_description :: "string \<Rightarrow> description" where
  "intent_description s =
     (let short = trim_space s in
      if short = [] then \<lparr> ds_short = [], ds_when_to_use = [], ds_when_not_to_use = [], ds_examples = [] \<rparr>
      else \<lparr> ds_short = short, ds_when_to_use = [''Use when the user asks for: '' @ short], ds_when_not_to_use = [],
             ds_examples = [''I need help with: '' @ short] \<rparr>)"

definition ranked_methods :: "string list" where
  "ranked_methods = [''GET'', ''HEAD'', ''POST'', ''PUT'', ''PATCH'', ''DELETE'', ''OPTIONS'', ''TRACE'']"

fun rank_in :: "string \<Rightarrow> string list \<Rightarrow> nat \<Rightarrow> nat" where
  "rank_in method [] n = 100"
| "rank_in method (c # cs) n = (if equal_fold method c then n else rank_in method cs (Suc n))"

definition method_rank :: "string \<Rightarrow> nat" where
  "method_rank method = rank_in method ranked_methods 0"

definition generated_security :: "api \<Rightarrow> string \<Rightarrow> security" where
  "generated_security a ref = \<lparr> se_auth_type = ap_auth_type a, se_auth_header = ap_auth_header a, se_credential_ref = ref,
     se_credential_source = ap_credential_source a, se_data_class = [], se_allowed_roles = [] \<rparr>"

definition generated_metadata :: "string \<Rightarrow> string \<Rightarrow> metadata" where
  "generated_metadata name moduleName = \<lparr> md_name = name, md_version = ''1.0.0'', md_module = moduleName, md_status = [],
     md_is_active = False, md_is_serving = False, md_resource_digest = [], md_admission = None \<rparr>"

definition object_schema :: input_schema where
  "object_schema = \<lparr> is_additional = JNull, is_type = ''object'', is_properties = [], is_required = [] \<rparr>"

definition http_execution :: "string \<Rightarrow> string \<Rightarrow> execution" where
  "http_execution method endpoint = \<lparr> ex_type = ''http'', ex_method = method, ex_endpoint = endpoint, ex_approved_origins = [],
     ex_mapping = [], ex_parameter_locations = [], ex_body_argument = [], ex_response_path = [] \<rparr>"

text \<open>What both generators start from.\<close>

definition generated_tool :: "api \<Rightarrow> string \<Rightarrow> string \<Rightarrow> string \<Rightarrow> string \<Rightarrow> string \<Rightarrow> tool" where
  "generated_tool a ref name short method endpoint =
     \<lparr> tl_api_version = ''erpbridge.io/v1'', tl_kind = ''MCPTool'', tl_metadata = generated_metadata name (ap_module a),
       tl_spec = \<lparr> ts_description = intent_description short, ts_annotations = Some (annotations_for_http_method method),
         ts_rate_limit = None, ts_concurrency = None, ts_input_schema = object_schema, ts_output_schema = None,
         ts_execution = http_execution method endpoint, ts_cache = Some (default_cache method),
         ts_security = generated_security a ref, ts_routing = None, ts_lifecycle = None \<rparr>,
       tl_handler = None \<rparr>"

definition map_spec :: "(tool_spec \<Rightarrow> tool_spec) \<Rightarrow> tool \<Rightarrow> tool" where
  "map_spec f t = t\<lparr> tl_spec := f (tl_spec t) \<rparr>"

definition set_property :: "string \<Rightarrow> property \<Rightarrow> tool_spec \<Rightarrow> tool_spec" where
  "set_property name p s = s\<lparr> ts_input_schema := (ts_input_schema s)\<lparr> is_properties :=
     amap_put name p (is_properties (ts_input_schema s)) \<rparr> \<rparr>"

definition page_property :: property where
  "page_property = MkProperty JNull ''integer'' ''Page number for pagination'' [] (JNum ''1'') [] None []"

text \<open>\<open>Generate\<close>: one tool from a registered API.\<close>

definition generate :: "api \<Rightarrow> generate_error + tool" where
  "generate a = (case credential_ref_for_api a of
       Inl e \<Rightarrow> Inl e
     | Inr ref \<Rightarrow>
         let method = to_upper (trim_space (ap_method a));
             name = (if has_prefix (to_lower (ap_name a)) ''get-'' then ''get_'' @ drop 4 (to_lower (ap_name a)) else ap_name a);
             t = generated_tool a ref name (ap_description a) method (ap_url a) in
         Inr (if method = ''GET'' \<or> method = ''HEAD'' then map_spec (set_property ''page'' page_property) t else t))"

subsection \<open>Names\<close>

definition name_byte :: "char \<Rightarrow> bool" where
  "name_byte c \<longleftrightarrow> is_letter c \<or> is_digit c"

text \<open>Runs of other characters become one underscore, none at either end.\<close>

fun sanitize_from :: "bool \<Rightarrow> string \<Rightarrow> string \<Rightarrow> string" where
  "sanitize_from lastUnderscore out [] = out"
| "sanitize_from lastUnderscore out (c # cs) =
     (if name_byte c then sanitize_from False (out @ [c]) cs
      else if \<not> lastUnderscore \<and> out \<noteq> [] then sanitize_from True (out @ ''_'') cs
      else sanitize_from lastUnderscore out cs)"

definition trim_char :: "char \<Rightarrow> string \<Rightarrow> string" where
  "trim_char x s = rev (dropWhile (\<lambda>c. c = x) (rev (dropWhile (\<lambda>c. c = x) s)))"

definition sanitize_operation_name :: "string \<Rightarrow> string" where
  "sanitize_operation_name name = trim_char (CHR ''_'') (sanitize_from False [] (to_lower (trim_space name)))"

definition replace_char :: "char \<Rightarrow> char \<Rightarrow> string \<Rightarrow> string" where
  "replace_char a b s = map (\<lambda>c. if c = a then b else c) s"

definition known_plurals :: "(string \<times> string) list" where
  "known_plurals = [(''bin'', ''bins''), (''department'', ''departments''), (''employee'', ''employees''), (''item'', ''items''),
     (''journal_entry'', ''journal_entries''), (''leave_application'', ''leave_applications''),
     (''payment_entry'', ''payment_entries''), (''purchase_invoice'', ''purchase_invoices''),
     (''purchase_order'', ''purchase_orders''), (''salary_slip'', ''salary_slips'')]"

definition plural :: "string \<Rightarrow> string" where
  "plural s =
     (if has_suffix s ''s'' then s
      else (case map_of known_plurals s of
          Some p \<Rightarrow> p
        | None \<Rightarrow> if has_suffix s ''y'' then trim_suffix s ''y'' @ ''ies'' else s @ ''s''))"

definition operation_prefix :: "string \<Rightarrow> string \<Rightarrow> string" where
  "operation_prefix method path =
     (let p = to_lower method in
      if p = ''post'' then ''create''
      else if p = ''get'' then (if CHR ''{'' \<in> set path then ''get'' else ''list'')
      else p)"

definition path_name :: "string \<Rightarrow> string \<Rightarrow> string" where
  "path_name method path =
     (let safe = trim_prefix (replace_char (CHR ''-'') (CHR ''_'') (replace_char (CHR ''/'') (CHR ''_'') (trim_char (CHR ''/'') path))) ''resource_'';
          p = operation_prefix method path in
      p @ ''_'' @ (if p = ''list'' then plural safe else safe))"

definition operation_name :: "string \<Rightarrow> string \<Rightarrow> oa_operation \<Rightarrow> string" where
  "operation_name method path op = sanitize_operation_name (if oo_id op = [] then path_name method path else oo_id op)"

definition operation_short :: "string \<Rightarrow> string \<Rightarrow> oa_operation \<Rightarrow> string" where
  "operation_short method path op =
     (if trim_space (oo_summary op) \<noteq> [] then trim_space (oo_summary op)
      else if trim_space (oo_description op) \<noteq> [] then trim_space (oo_description op)
      else to_upper method @ '' '' @ path)"

subsection \<open>Schemas\<close>

text \<open>
  \<open>resolveSchemaValue\<close>. Its recursion follows references and has no bound; the depth here
  is the depth of the Go stack, and \<open>Never_Ends\<close> stands for a stack that is exhausted. Map
  iteration visits members in the order they have.
\<close>

datatype 'a resolved = Resolved 'a | Unresolved_Ref string | Never_Ends

fun collect :: "'a resolved list \<Rightarrow> 'a list resolved" where
  "collect [] = Resolved []"
| "collect (r # rs) = (case r of
       Unresolved_Ref ref \<Rightarrow> Unresolved_Ref ref
     | Never_Ends \<Rightarrow> Never_Ends
     | Resolved x \<Rightarrow> (case collect rs of
         Unresolved_Ref ref \<Rightarrow> Unresolved_Ref ref
       | Never_Ends \<Rightarrow> Never_Ends
       | Resolved xs \<Rightarrow> Resolved (x # xs)))"

definition map_resolved :: "('a \<Rightarrow> 'b) \<Rightarrow> 'a resolved \<Rightarrow> 'b resolved" where
  "map_resolved f r = (case r of Resolved x \<Rightarrow> Resolved (f x) | Unresolved_Ref ref \<Rightarrow> Unresolved_Ref ref | Never_Ends \<Rightarrow> Never_Ends)"

definition resolve_members :: "(jval \<Rightarrow> jval resolved) \<Rightarrow> jargs \<Rightarrow> jval resolved" where
  "resolve_members f ms = map_resolved JObj (collect (map (\<lambda>m. map_resolved (Pair (fst m)) (f (snd m))) ms))"

text \<open>The members next to a reference override those of the schema it names.\<close>

definition overlay :: "jargs \<Rightarrow> jargs \<Rightarrow> jargs" where
  "overlay ms rs = fold (\<lambda>(k, v) acc. if k = ''$ref'' then acc else amap_put k v acc) ms rs"

fun resolve_schema :: "nat \<Rightarrow> (string \<times> jval) list \<Rightarrow> jval \<Rightarrow> jval resolved" where
  "resolve_schema 0 refs v = Never_Ends"
| "resolve_schema (Suc n) refs v = (case v of
       JObj ms \<Rightarrow> (case map_of ms ''$ref'' of
           Some (JStr ref) \<Rightarrow> (case map_of refs ref of
               None \<Rightarrow> Unresolved_Ref ref
             | Some s \<Rightarrow> (case resolve_schema n refs s of
                 Resolved (JObj rs) \<Rightarrow> resolve_members (resolve_schema n refs) (overlay ms rs)
               | r \<Rightarrow> r))
         | _ \<Rightarrow> resolve_members (resolve_schema n refs) ms)
     | JArr vs \<Rightarrow> map_resolved JArr (collect (map (resolve_schema n refs) vs))
     | _ \<Rightarrow> Resolved v)"

definition component_refs :: "oa_document \<Rightarrow> (string \<times> jval) list" where
  "component_refs doc = map (\<lambda>(name, s). (''#/components/schemas/'' @ name, s)) (od_schemas doc)"

definition dereference :: "nat \<Rightarrow> oa_document \<Rightarrow> jval \<Rightarrow> generate_error + jval" where
  "dereference depth doc s = (case resolve_schema depth (component_refs doc) s of
       Resolved v \<Rightarrow> Inr v
     | Unresolved_Ref ref \<Rightarrow> Inl (Gen_Unresolved_Schema ref)
     | Never_Ends \<Rightarrow> Inl Gen_Never_Ends)"

definition string_member :: "jargs \<Rightarrow> string \<Rightarrow> string" where
  "string_member ms k = (case map_of ms k of Some (JStr s) \<Rightarrow> s | _ \<Rightarrow> [])"

definition required_names :: "jargs \<Rightarrow> string list" where
  "required_names ms = (case map_of ms ''required'' of
       Some (JArr vs) \<Rightarrow> sort_strings (List.map_filter (\<lambda>v. case v of JStr s \<Rightarrow> Some s | _ \<Rightarrow> None) vs)
     | _ \<Rightarrow> [])"

definition property_of_members :: "jargs \<Rightarrow> (string \<times> property) list \<Rightarrow> property option \<Rightarrow> property" where
  "property_of_members ms props item = MkProperty
     (case map_of ms ''additionalProperties'' of Some v \<Rightarrow> v | None \<Rightarrow> JNull)
     (if string_member ms ''type'' = [] then ''string'' else string_member ms ''type'')
     (string_member ms ''description'')
     (case map_of ms ''enum'' of Some (JArr vs) \<Rightarrow> vs | _ \<Rightarrow> [])
     (case map_of ms ''default'' of Some v \<Rightarrow> v | None \<Rightarrow> JNull)
     props item (required_names ms)"

definition schema_children :: "jargs \<Rightarrow> (string \<times> jval) list" where
  "schema_children ms = (case map_of ms ''properties'' of Some (JObj ps) \<Rightarrow> sort_key fst ps | _ \<Rightarrow> [])"

fun sequence_results :: "('e + 'a) list \<Rightarrow> 'e + 'a list" where
  "sequence_results [] = Inr []"
| "sequence_results (r # rs) = (case r of Inl e \<Rightarrow> Inl e
     | Inr x \<Rightarrow> (case sequence_results rs of Inl e \<Rightarrow> Inl e | Inr xs \<Rightarrow> Inr (x # xs)))"

lemma sequence_results_cong [fundef_cong]: "rs = ss \<Longrightarrow> sequence_results rs = sequence_results ss"
  by simp

lemma schema_children_smaller: "(k, v) \<in> set (schema_children ms) \<Longrightarrow> size v < size (JObj ms)"
proof -
  have member: "map_of xs a = Some y \<Longrightarrow> size y < Suc (size_list (size_prod (\<lambda>x. 0) size) xs)" for xs :: jargs and a y
    by (induction xs) (auto split: if_splits)
  assume "(k, v) \<in> set (schema_children ms)"
  then obtain ps where ps: "map_of ms ''properties'' = Some (JObj ps)" "(k, v) \<in> set ps"
    by (cases "map_of ms ''properties''") (auto simp: schema_children_def split: jval.splits)
  from ps(2) have "size v < size (JObj ps)" by (induction ps) auto
  also have "\<dots> < size (JObj ms)" using member [OF ps(1)] by simp
  finally show ?thesis .
qed

lemma schema_item_smaller: "map_of ms k = Some v \<Longrightarrow> size v < size (JObj ms)"
  by (induction ms) (auto split: if_splits)

text \<open>\<open>propertyFromSchemaValue\<close>, with the location of an error.\<close>

function property_of :: "string \<Rightarrow> jval \<Rightarrow> generate_error + property" where
  "property_of location v = (case v of
       JObj ms \<Rightarrow>
         (case sequence_results (map (\<lambda>c. case property_of (location @ ''.'' @ fst c) (snd c) of Inl e \<Rightarrow> Inl e | Inr p \<Rightarrow> Inr (fst c, p)) (schema_children ms)) of
            Inl e \<Rightarrow> Inl e
          | Inr props \<Rightarrow> (case map_of ms ''items'' of
              None \<Rightarrow> Inr (property_of_members ms props None)
            | Some items \<Rightarrow> (case property_of (location @ ''[]'') items of
                Inl e \<Rightarrow> Inl e
              | Inr p \<Rightarrow> Inr (property_of_members ms props (Some p)))))
     | _ \<Rightarrow> Inl (Gen_Schema_Not_Object location))"
  by pat_completeness auto
termination
  by (relation "measure (\<lambda>(_, v). size v)") (auto dest: schema_children_smaller schema_item_smaller)

declare property_of.simps [simp del]

definition generated_property :: "nat \<Rightarrow> oa_document \<Rightarrow> jval \<Rightarrow> string \<Rightarrow> generate_error + property" where
  "generated_property depth doc s location = (case dereference depth doc s of Inl e \<Rightarrow> Inl e | Inr v \<Rightarrow> property_of location v)"

subsection \<open>Parameters and bodies\<close>

definition protected_generated_header :: "string \<Rightarrow> bool" where
  "protected_generated_header name \<longleftrightarrow> to_lower (trim_space name) \<in>
     {''authorization'', ''proxy-authorization'', ''cookie'', ''host'', ''connection'', ''keep-alive'', ''proxy-connection'',
      ''te'', ''trailer'', ''transfer-encoding'', ''upgrade'', ''content-length'', ''content-type''}"

text \<open>\<open>mergeParameters\<close>: of a location and a name the operation's parameter counts, in the order of the keys.\<close>

fun merge_refs :: "param_ref list \<Rightarrow> (string \<times> oa_parameter) list \<Rightarrow> generate_error + (string \<times> oa_parameter) list" where
  "merge_refs [] merged = Inr merged"
| "merge_refs (r # rs) merged = (case r of
       Param_Empty \<Rightarrow> Inl Gen_Empty_Parameter
     | Param_Unresolved ref \<Rightarrow> Inl (Gen_Unresolved_Parameter ref)
     | Param p \<Rightarrow> merge_refs rs (amap_put (to_lower (trim_space (oa_in p)) @ [CHR 0x00] @ oa_name p) p merged))"

definition merge_parameters :: "param_ref list \<Rightarrow> param_ref list \<Rightarrow> generate_error + oa_parameter list" where
  "merge_parameters pathRefs opRefs = (case merge_refs (pathRefs @ opRefs) [] of
       Inl e \<Rightarrow> Inl e
     | Inr merged \<Rightarrow> Inr (map snd (sort_key fst merged)))"

definition json_schema_content :: "oa_content \<Rightarrow> jval option option" where
  "json_schema_content c = (case oc_json c of
       Some media \<Rightarrow> Some media
     | None \<Rightarrow> map_option snd (find (\<lambda>m. has_suffix (to_lower (fst m)) ''+json'') (sort_key fst (oc_media c))))"

record generated_argument =
  ga_source :: string
  ga_erp :: string
  ga_location :: string
  ga_property :: property
  ga_required :: bool
  ga_final :: string

definition new_argument :: "string \<Rightarrow> string \<Rightarrow> property \<Rightarrow> bool \<Rightarrow> generated_argument" where
  "new_argument name location p required =
     \<lparr> ga_source = name, ga_erp = name, ga_location = location, ga_property = p, ga_required = required, ga_final = [] \<rparr>"

definition with_description :: "string \<Rightarrow> property \<Rightarrow> property" where
  "with_description d p = (case p of MkProperty a t d0 e df ps i r \<Rightarrow> MkProperty a t (if d = [] then d0 else d) e df ps i r)"

definition parameter_argument :: "nat \<Rightarrow> oa_document \<Rightarrow> oa_parameter \<Rightarrow> generate_error + generated_argument" where
  "parameter_argument depth doc p =
     (let location = to_lower (trim_space (oa_in p)) in
      if location \<noteq> ''path'' \<and> location \<noteq> ''query'' \<and> location \<noteq> ''header'' then Inl (Gen_Bad_Location (oa_in p))
      else if location = ''header'' \<and> protected_generated_header (oa_name p) then Inl (Gen_Protected_Header (oa_name p))
      else (case oa_schema p of
          None \<Rightarrow> Inl (Gen_No_Schema (oa_name p))
        | Some s \<Rightarrow> (case generated_property depth doc s (''parameter '' @ oa_name p) of
            Inl e \<Rightarrow> Inl e
          | Inr prop \<Rightarrow> Inr (new_argument (oa_name p) location (with_description (oa_param_description p) prop) (oa_param_required p)))))"

text \<open>The arguments of a request body: its members, or the body as one argument. With them, whether the body is one, and its policy.\<close>

definition body_arguments :: "nat \<Rightarrow> oa_document \<Rightarrow> oa_operation \<Rightarrow> generate_error + generated_argument list \<times> bool \<times> jval option" where
  "body_arguments depth doc op = (case oo_body op of
       None \<Rightarrow> Inr ([], False, None)
     | Some (required, content) \<Rightarrow> (case json_schema_content content of
         Some (Some s) \<Rightarrow> (case generated_property depth doc s ''request body'' of
             Inl e \<Rightarrow> Inl e
           | Inr b \<Rightarrow>
               if pr_type b = ''object'' \<or> pr_properties b \<noteq> []
               then Inr (map (\<lambda>(name, p). new_argument name ''body'' p (name \<in> set (pr_required b))) (sort_key fst (pr_properties b)),
                      False, Some (pr_additional b))
               else Inr ([new_argument ''body'' ''body'' b required], True, None))
       | _ \<Rightarrow> Inr ([], False, None)))"

subsection \<open>Final names\<close>

definition suffixed :: "string \<Rightarrow> nat \<Rightarrow> string" where
  "suffixed base n = base @ ''__'' @ itoa (int n)"

lemma suffixed_inj: "suffixed base m = suffixed base n \<longleftrightarrow> m = n"
  using digits_of_inj by (auto simp: suffixed_def itoa_def)

text \<open>The loop that looks for a free name; it ends because the used names are finitely many.\<close>

function free_suffix :: "string list \<Rightarrow> string \<Rightarrow> nat \<Rightarrow> string" where
  "free_suffix used base n = (if suffixed base n \<notin> set used then suffixed base n else free_suffix used base (Suc n))"
  by pat_completeness auto
termination
proof (relation "measure (\<lambda>(used, base, n). card {m. n \<le> m \<and> suffixed base m \<in> set used})")
  fix used :: "string list" and base :: string and n
  assume used: "\<not> suffixed base n \<notin> set used"
  let ?S = "\<lambda>n. {m. n \<le> m \<and> suffixed base m \<in> set used}"
  have "finite (suffixed base ` ?S n)" by (rule finite_subset [of _ "set used"]) auto
  then have "finite (?S n)" by (rule finite_imageD) (simp add: inj_on_def suffixed_inj)
  moreover have "n \<in> ?S n" "n \<notin> ?S (Suc n)" "?S (Suc n) \<subseteq> ?S n" using used by auto
  then have "?S (Suc n) \<subset> ?S n" by blast
  ultimately show "((used, base, Suc n), (used, base, n)) \<in> measure (\<lambda>(used, base, n). card {m. n \<le> m \<and> suffixed base m \<in> set used})"
    by (simp add: psubset_card_mono)
qed simp

declare free_suffix.simps [simp del]

lemma free_suffix_free: "free_suffix used base n \<notin> set used"
  by (induction used base n rule: free_suffix.induct) (subst free_suffix.simps, simp)

definition free_name :: "string list \<Rightarrow> string \<Rightarrow> string" where
  "free_name used base = (if base \<notin> set used then base else free_suffix used base 2)"

lemma free_name_free: "free_name used base \<notin> set used"
  by (simp add: free_name_def free_suffix_free)

text \<open>Two arguments of one location and ERP name cannot both be sent.\<close>

fun find_collision :: "(string \<times> string) list \<Rightarrow> generated_argument list \<Rightarrow> generate_error option" where
  "find_collision seen [] = None"
| "find_collision seen (a # as) =
     (if (ga_location a, ga_erp a) \<in> set seen then Some (Gen_Argument_Collision (ga_erp a) (ga_location a))
      else find_collision ((ga_location a, ga_erp a) # seen) as)"

definition first_name :: "generated_argument list \<Rightarrow> generated_argument \<Rightarrow> generated_argument" where
  "first_name as a = a\<lparr> ga_final := (if 1 < length (filter (\<lambda>b. ga_source b = ga_source a) as)
     then ga_source a @ ''__'' @ ga_location a else ga_source a) \<rparr>"

text \<open>Arguments that keep their name come first, then by name, location and ERP name.\<close>

definition name_order :: "generated_argument list \<Rightarrow> nat list" where
  "name_order as =
     sort_key (\<lambda>i. ga_final (as ! i) \<noteq> ga_source (as ! i))
      (sort_key (\<lambda>i. ga_final (as ! i)) (sort_key (\<lambda>i. ga_location (as ! i)) (sort_key (\<lambda>i. ga_erp (as ! i)) [0..<length as])))"

fun assign_names :: "nat list \<Rightarrow> string list \<Rightarrow> generated_argument list \<Rightarrow> generated_argument list" where
  "assign_names [] used as = as"
| "assign_names (i # is) used as =
     (let name = free_name used (ga_final (as ! i)) in assign_names is (name # used) (as[i := (as ! i)\<lparr> ga_final := name \<rparr>]))"

definition finalize_arguments :: "generated_argument list \<Rightarrow> generate_error + generated_argument list" where
  "finalize_arguments as = (case find_collision [] as of
       Some e \<Rightarrow> Inl e
     | None \<Rightarrow> let named = map (first_name as) as in Inr (assign_names (name_order named) [] named))"

lemma find_collision_None:
  "find_collision seen as = None \<longleftrightarrow> distinct (map (\<lambda>a. (ga_location a, ga_erp a)) as) \<and>
     set (map (\<lambda>a. (ga_location a, ga_erp a)) as) \<inter> set seen = {}"
  by (induction seen as rule: find_collision.induct) auto

definition unnamed :: "generated_argument \<Rightarrow> generated_argument" where
  "unnamed a = a\<lparr> ga_final := [] \<rparr>"

text \<open>Only the names of arguments change, and the names given so far stay different.\<close>

lemma length_assign_names [simp]: "length (assign_names is used as) = length as"
  by (induction "is" used as rule: assign_names.induct) (simp_all add: Let_def)

lemma assign_names_other: "i \<notin> set is \<Longrightarrow> assign_names is used as ! i = as ! i"
  by (induction "is" used as rule: assign_names.induct) (auto simp: Let_def)

lemma assign_names_unnamed: "map unnamed (assign_names is used as) = map unnamed as"
proof (induction "is" used as rule: assign_names.induct)
  case (2 i "is" used as)
  have "unnamed (as[i := (as ! i)\<lparr> ga_final := name \<rparr>] ! j) = unnamed (as ! j)" if "j < length as" for j name
    using that by (cases "i = j") (simp_all add: unnamed_def)
  then have "map unnamed (as[i := (as ! i)\<lparr> ga_final := name \<rparr>]) = map unnamed as" for name
    by (intro nth_equalityI) simp_all
  with 2 show ?case by (simp add: Let_def)
qed simp

lemma assign_names_fresh:
  assumes "distinct is" and "\<forall>i \<in> set is. i < length as" and "i \<in> set is"
  shows "ga_final (assign_names is used as ! i) \<notin> set used"
  using assms
proof (induction "is" arbitrary: used as)
  case (Cons j "is")
  let ?name = "free_name used (ga_final (as ! j))"
  let ?as = "as[j := (as ! j)\<lparr> ga_final := ?name \<rparr>]"
  show ?case
  proof (cases "i = j")
    case True
    with Cons.prems have "assign_names (j # is) used as ! i = ?as ! j"
      by (simp add: Let_def assign_names_other)
    with Cons.prems free_name_free show ?thesis by simp
  next
    case False
    with Cons.prems Cons.IH [of ?as "?name # used"] show ?thesis by (simp add: Let_def)
  qed
qed simp

lemma assign_names_inj:
  assumes "distinct is" and "\<forall>i \<in> set is. i < length as" and "i \<in> set is" and "j \<in> set is"
    and "ga_final (assign_names is used as ! i) = ga_final (assign_names is used as ! j)"
  shows "i = j"
  using assms
proof (induction "is" arbitrary: used as)
  case (Cons k "is")
  let ?name = "free_name used (ga_final (as ! k))"
  let ?as = "as[k := (as ! k)\<lparr> ga_final := ?name \<rparr>]"
  have first: "ga_final (assign_names (k # is) used as ! k) = ?name"
    using Cons.prems(1,2) by (simp add: Let_def assign_names_other)
  have rest: "ga_final (assign_names (k # is) used as ! m) \<noteq> ?name" if "m \<in> set is" for m
    using assign_names_fresh [of "is" ?as m "?name # used"] that Cons.prems(1,2) by (simp add: Let_def)
  show ?case
  proof (cases "i = k \<or> j = k")
    case True
    with Cons.prems(3-5) first rest show ?thesis by (metis set_ConsD)
  next
    case False
    with Cons.prems Cons.IH [of ?as "?name # used"] show ?thesis by (simp add: Let_def)
  qed
qed simp

lemma name_order_all: "set (name_order as) = {..<length as}" "distinct (name_order as)"
  by (auto simp: name_order_def distinct_map)

text \<open>
  A generated tool has one argument for everything it sends. Final names are all
  different, each argument keeps its source, location, schema and necessity, and no two send
  to one place: a name that two sources share, or that a suffix would give to another, is
  made different, and two arguments of one place are an error.
\<close>

lemma generated_arguments_unambiguous:
  "case finalize_arguments as of
     Inr out \<Rightarrow> distinct (map ga_final out) \<and> map unnamed out = map unnamed as \<and>
       distinct (map (\<lambda>a. (ga_location a, ga_erp a)) out)
   | Inl _ \<Rightarrow> \<not> distinct (map (\<lambda>a. (ga_location a, ga_erp a)) as)"
proof (cases "find_collision [] as")
  case None
  let ?named = "map (first_name as) as"
  let ?out = "assign_names (name_order ?named) [] ?named"
  have fin: "finalize_arguments as = Inr ?out" using None by (simp add: finalize_arguments_def Let_def)
  have "map unnamed ?named = map unnamed as" by (simp add: first_name_def unnamed_def)
  then have same: "map unnamed ?out = map unnamed as" by (simp add: assign_names_unnamed)
  have "i = j" if "i < length as" "j < length as" "ga_final (?out ! i) = ga_final (?out ! j)" for i j
    by (rule assign_names_inj [OF _ _ _ _ that(3)]) (use that name_order_all [of ?named] in auto)
  then have "distinct (map ga_final ?out)" by (auto simp: distinct_conv_nth)
  moreover have "map (\<lambda>a. (ga_location a, ga_erp a)) bs = map (\<lambda>a. (ga_location a, ga_erp a)) (map unnamed bs)" for bs
    by (simp add: unnamed_def)
  then have "map (\<lambda>a. (ga_location a, ga_erp a)) ?out = map (\<lambda>a. (ga_location a, ga_erp a)) as"
    using same by metis
  ultimately show ?thesis using None same fin by (simp add: find_collision_None)
next
  case (Some e)
  then show ?thesis using find_collision_None [of "[]" as] by (simp add: finalize_arguments_def)
qed

end
