(* ===== verification/Schema_Refs.thy ===== *)
theory Schema_Refs
  imports Generator
begin

text \<open>
  Resolution of schema references in internal/idp/generator.go ends when the references of
  the document have no cycle, and never does when a schema refers to itself.
\<close>

subsection \<open>References\<close>

text \<open>The references of a value, at any depth.\<close>

definition own_ref :: "jargs \<Rightarrow> string list" where
  "own_ref ms = (case map_of ms ''$ref'' of Some (JStr ref) \<Rightarrow> [ref] | _ \<Rightarrow> [])"

fun refs_of :: "jval \<Rightarrow> string list" where
  "refs_of (JObj ms) = own_ref ms @ concat (map (\<lambda>(k, v). refs_of v) ms)"
| "refs_of (JArr vs) = concat (map refs_of vs)"
| "refs_of _ = []"

text \<open>A schema is no text, and refers only to schemas of a lower rank.\<close>

definition ranked :: "(string \<times> jval) list \<Rightarrow> (string \<Rightarrow> nat) \<Rightarrow> bool" where
  "ranked refs rank \<longleftrightarrow> (\<forall>(name, s) \<in> set refs. (\<forall>x. s \<noteq> JStr x) \<and> (\<forall>r \<in> set (refs_of s). rank r < rank name))"

definition returns :: "(string \<times> jval) list \<Rightarrow> jval \<Rightarrow> bool" where
  "returns refs v \<longleftrightarrow> (\<exists>n. resolve_schema n refs v \<noteq> Never_Ends)"

subsection \<open>More depth changes nothing\<close>

lemma map_resolved_simps [simp]:
  "map_resolved f (Resolved x) = Resolved (f x)" "map_resolved f (Unresolved_Ref ref) = Unresolved_Ref ref"
  "map_resolved f Never_Ends = Never_Ends" "map_resolved f r = Never_Ends \<longleftrightarrow> r = Never_Ends"
  by (simp_all add: map_resolved_def split: resolved.split)

lemma map_resolved_Resolved: "map_resolved f r = Resolved y \<longleftrightarrow> (\<exists>x. r = Resolved x \<and> y = f x)"
  by (cases r) auto

lemma collect_mono:
  assumes "\<forall>x \<in> set xs. f x \<noteq> Never_Ends \<longrightarrow> g x = f x" and "collect (map f xs) \<noteq> Never_Ends"
  shows "collect (map g xs) = collect (map f xs)"
  using assms by (induction xs) (auto split: resolved.splits)

lemma collect_returns: "\<forall>x \<in> set xs. f x \<noteq> Never_Ends \<Longrightarrow> collect (map f xs) \<noteq> Never_Ends"
  by (induction xs) (auto split: resolved.split)

lemma collect_Resolved: "collect (map f xs) = Resolved ys \<Longrightarrow> list_all2 (\<lambda>x y. f x = Resolved y) xs ys"
  by (induction xs arbitrary: ys) (auto split: resolved.splits)

lemma resolve_members_mono:
  assumes "\<forall>m \<in> set ms. f (snd m) \<noteq> Never_Ends \<longrightarrow> g (snd m) = f (snd m)" and "resolve_members f ms \<noteq> Never_Ends"
  shows "resolve_members g ms = resolve_members f ms"
proof -
  have "collect (map (\<lambda>m. map_resolved (Pair (fst m)) (g (snd m))) ms) = collect (map (\<lambda>m. map_resolved (Pair (fst m)) (f (snd m))) ms)"
    using assms by (intro collect_mono) (auto simp: resolve_members_def)
  then show ?thesis by (simp add: resolve_members_def)
qed

lemma resolve_schema_Suc: "resolve_schema n refs v \<noteq> Never_Ends \<Longrightarrow> resolve_schema (Suc n) refs v = resolve_schema n refs v"
proof (induction n arbitrary: v)
  case (Suc n)
  let ?f = "resolve_schema n refs" and ?g = "resolve_schema (Suc n) refs"
  have fg: "?f x \<noteq> Never_Ends \<Longrightarrow> ?g x = ?f x" for x by (rule Suc.IH)
  have members: "resolve_members ?g ms = resolve_members ?f ms" if "resolve_members ?f ms \<noteq> Never_Ends" for ms
    using that fg by (intro resolve_members_mono) blast+
  have elements: "collect (map ?g vs) = collect (map ?f vs)" if "collect (map ?f vs) \<noteq> Never_Ends" for vs
    using that fg by (intro collect_mono) blast+
  show ?case
  proof (cases v)
    case (JArr vs)
    have "resolve_schema (Suc n) refs v = map_resolved JArr (collect (map ?f vs))"
      "resolve_schema (Suc (Suc n)) refs v = map_resolved JArr (collect (map ?g vs))" using JArr by simp_all
    with Suc.prems elements show ?thesis by simp
  next
    case (JObj ms)
    define branch where "branch f = (case map_of ms ''$ref'' of
        Some (JStr ref) \<Rightarrow> (case map_of refs ref of None \<Rightarrow> Unresolved_Ref ref
          | Some s \<Rightarrow> (case f s of Resolved (JObj rs) \<Rightarrow> resolve_members f (overlay ms rs) | r \<Rightarrow> r))
      | _ \<Rightarrow> resolve_members f ms)" for f
    have unfolded: "resolve_schema (Suc n) refs v = branch ?f" "resolve_schema (Suc (Suc n)) refs v = branch ?g"
      using JObj by (simp_all only: resolve_schema.simps branch_def jval.case)
    have "branch ?g = branch ?f" if ne: "branch ?f \<noteq> Never_Ends"
    proof (cases "\<exists>ref s. map_of ms ''$ref'' = Some (JStr ref) \<and> map_of refs ref = Some s")
      case True
      then obtain ref s where s: "map_of ms ''$ref'' = Some (JStr ref)" "map_of refs ref = Some s" by blast
      from ne s have "?f s \<noteq> Never_Ends" by (auto simp: branch_def)
      from fg [OF this] ne s members show ?thesis by (auto simp: branch_def split: resolved.splits jval.splits)
    next
      case False
      with ne members show ?thesis by (auto simp: branch_def split: option.splits jval.splits)
    qed
    with Suc.prems show ?thesis unfolding unfolded by blast
  qed simp_all
qed simp

lemma resolve_schema_mono: "resolve_schema n refs v \<noteq> Never_Ends \<Longrightarrow> n \<le> m \<Longrightarrow> resolve_schema m refs v = resolve_schema n refs v"
proof (induction m)
  case (Suc m)
  then show ?case using resolve_schema_Suc [of m refs v] by (cases "n = Suc m") simp_all
qed simp

text \<open>One depth serves all values of a list.\<close>

lemma returns_together:
  assumes "\<forall>v \<in> set vs. returns refs v"
  shows "\<exists>n. \<forall>v \<in> set vs. resolve_schema n refs v \<noteq> Never_Ends"
  using assms
proof (induction vs)
  case (Cons v vs)
  then obtain m n where m: "\<forall>v \<in> set vs. resolve_schema m refs v \<noteq> Never_Ends" and n: "resolve_schema n refs v \<noteq> Never_Ends"
    by (auto simp: returns_def)
  have "resolve_schema (max m n) refs x = resolve_schema m refs x" if "x \<in> set vs" for x
    using m that by (intro resolve_schema_mono) auto
  moreover have "resolve_schema (max m n) refs v = resolve_schema n refs v"
    using n by (intro resolve_schema_mono) auto
  ultimately have "\<forall>x \<in> set (v # vs). resolve_schema (max m n) refs x \<noteq> Never_Ends" using m n by simp
  then show ?case by blast
qed simp

lemma members_return:
  assumes "\<forall>m \<in> set ms. returns refs (snd m)"
  shows "\<exists>n. \<forall>k \<ge> n. resolve_members (resolve_schema k refs) ms \<noteq> Never_Ends"
proof -
  from returns_together [of "map snd ms" refs] assms
  obtain n where n: "\<forall>m \<in> set ms. resolve_schema n refs (snd m) \<noteq> Never_Ends" by auto
  have "resolve_members (resolve_schema k refs) ms \<noteq> Never_Ends" if "n \<le> k" for k
  proof -
    have "\<forall>m \<in> set ms. resolve_schema k refs (snd m) \<noteq> Never_Ends"
      using n resolve_schema_mono that by metis
    then have "collect (map (\<lambda>m. map_resolved (Pair (fst m)) (resolve_schema k refs (snd m))) ms) \<noteq> Never_Ends"
      by (intro collect_returns) simp
    then show ?thesis by (simp add: resolve_members_def)
  qed
  then show ?thesis by blast
qed

lemma returnsI: "resolve_schema n refs v \<noteq> Never_Ends \<Longrightarrow> returns refs v"
  by (auto simp: returns_def)

lemma returns_array:
  assumes "\<forall>v \<in> set vs. returns refs v"
  shows "returns refs (JArr vs)"
proof -
  obtain n where "\<forall>v \<in> set vs. resolve_schema n refs v \<noteq> Never_Ends" using returns_together [OF assms] by blast
  then have "collect (map (resolve_schema n refs) vs) \<noteq> Never_Ends" by (intro collect_returns)
  then show ?thesis by (intro returnsI [of "Suc n"]) simp
qed

lemma returns_plain_object:
  assumes "own_ref ms = []" and "\<forall>m \<in> set ms. returns refs (snd m)"
  shows "returns refs (JObj ms)"
proof -
  obtain n where "resolve_members (resolve_schema n refs) ms \<noteq> Never_Ends" using members_return [OF assms(2)] by blast
  with assms(1) show ?thesis
    by (intro returnsI [of "Suc n"]) (auto simp: own_ref_def split: option.splits jval.splits)
qed

text \<open>What a resolution gives has no references left.\<close>

lemma resolved_string:
  assumes "\<forall>(name, s) \<in> set refs. \<forall>x. s \<noteq> JStr x" and "resolve_schema n refs v = Resolved (JStr x)"
  shows "v = JStr x"
  using assms(2)
proof (induction n arbitrary: v)
  case (Suc n)
  show ?case
  proof (cases v)
    case (JObj ms)
    have no: "resolve_members f qs \<noteq> Resolved (JStr x)" for f qs by (auto simp: resolve_members_def map_resolved_Resolved)
    from Suc.prems JObj no obtain ref s where s: "map_of refs ref = Some s" "resolve_schema n refs s = Resolved (JStr x)"
      by (auto split: option.splits jval.splits resolved.splits)
    have "s = JStr x" by (rule Suc.IH [OF s(2)])
    with assms(1) map_of_SomeD [OF s(1)] show ?thesis by blast
  next
    case (JArr vs)
    with Suc.prems show ?thesis by (auto simp: map_resolved_Resolved)
  qed (use Suc.prems in simp_all)
qed simp

lemma resolved_members_free:
  assumes "resolve_members f ms = Resolved r" and "own_ref ms = []"
    and "\<And>m y. m \<in> set ms \<Longrightarrow> f (snd m) = Resolved y \<Longrightarrow> refs_of y = []"
    and "\<And>m x. m \<in> set ms \<Longrightarrow> f (snd m) = Resolved (JStr x) \<Longrightarrow> snd m = JStr x"
  shows "refs_of r = []"
proof -
  obtain qs where r: "r = JObj qs" and c: "collect (map (\<lambda>m. map_resolved (Pair (fst m)) (f (snd m))) ms) = Resolved qs"
    using assms(1) by (auto simp: resolve_members_def map_resolved_Resolved)
  from collect_Resolved [OF c] have rel: "list_all2 (\<lambda>m q. fst q = fst m \<and> f (snd m) = Resolved (snd q)) ms qs"
    by (rule list_all2_mono) (auto simp: map_resolved_Resolved)
  then have member: "\<forall>q \<in> set qs. \<exists>m \<in> set ms. f (snd m) = Resolved (snd q)"
    by (induction rule: list_all2_induct) auto
  have kept: "\<forall>m \<in> set ms. \<forall>x. f (snd m) = Resolved (JStr x) \<longrightarrow> snd m = JStr x" using assms(4) by blast
  have "map_of qs k = Some (JStr x) \<Longrightarrow> map_of ms k = Some (JStr x)" for k x
    using rel kept
  proof (induction rule: list_all2_induct)
    case (Cons m ms q qs)
    then show ?case by (cases m; cases q) (auto split: if_splits)
  qed simp
  with assms(2) have "own_ref qs = []" by (auto simp: own_ref_def split: option.splits jval.splits)
  moreover have "refs_of (snd q) = []" if "q \<in> set qs" for q using member that assms(3) by blast
  ultimately show ?thesis by (auto simp: r)
qed

lemma map_of_overlay: "map_of (overlay ms rs) ''$ref'' = map_of rs ''$ref''"
proof -
  have "map_of (fold (\<lambda>(k, v) acc. if k = ''$ref'' then acc else amap_put k v acc) ms rs) ''$ref'' = map_of rs ''$ref''" for rs
    by (induction ms arbitrary: rs) (auto simp: case_prod_beta)
  then show ?thesis by (simp add: overlay_def)
qed

lemma set_overlay: "set (overlay ms rs) \<subseteq> set ms \<union> set rs"
proof -
  have "set (fold (\<lambda>(k, v) acc. if k = ''$ref'' then acc else amap_put k v acc) ms rs) \<subseteq> set ms \<union> set rs" for rs
  proof (induction ms arbitrary: rs)
    case (Cons m ms)
    have put: "set (amap_put k v rs) \<subseteq> insert (k, v) (set rs)" for k v by (auto simp: amap_put_def)
    obtain k v where m: "m = (k, v)" by (cases m)
    have "set (fold (\<lambda>(k, v) acc. if k = ''$ref'' then acc else amap_put k v acc) ms (if k = ''$ref'' then rs else amap_put k v rs))
      \<subseteq> set ms \<union> set (if k = ''$ref'' then rs else amap_put k v rs)" by (rule Cons.IH)
    with put [of k v] show ?case by (auto simp: m split: if_splits)
  qed simp
  then show ?thesis by (simp add: overlay_def)
qed

lemma resolved_free:
  assumes "\<forall>(name, s) \<in> set refs. \<forall>x. s \<noteq> JStr x" and "resolve_schema n refs v = Resolved r"
  shows "refs_of r = []"
  using assms(2)
proof (induction n arbitrary: v r)
  case (Suc n)
  let ?f = "resolve_schema n refs"
  have members: "refs_of r = []" if "resolve_members ?f ms = Resolved r" "own_ref ms = []" for ms r
    using that Suc.IH resolved_string [OF assms(1)] by (intro resolved_members_free [OF that]) auto
  show ?case
  proof (cases v)
    case (JArr vs)
    with Suc.prems obtain ys where "r = JArr ys" "collect (map ?f vs) = Resolved ys" by (auto simp: map_resolved_Resolved)
    moreover from collect_Resolved [OF this(2)] have "\<forall>y \<in> set ys. \<exists>x. ?f x = Resolved y"
      by (induction rule: list_all2_induct) auto
    ultimately show ?thesis using Suc.IH by auto
  next
    case (JObj ms)
    show ?thesis
    proof (cases "own_ref ms")
      case Nil
      with Suc.prems JObj members show ?thesis by (auto simp: own_ref_def split: option.splits jval.splits)
    next
      case (Cons ref _)
      then have ref: "map_of ms ''$ref'' = Some (JStr ref)" by (auto simp: own_ref_def split: option.splits jval.splits)
      with Suc.prems JObj obtain s where s: "map_of refs ref = Some s" by (auto split: option.splits)
      from Suc.prems JObj ref s obtain q where q: "?f s = Resolved q" by (auto split: resolved.splits)
      note free = Suc.IH [OF q]
      show ?thesis
      proof (cases q)
        case (JObj rs)
        with Suc.prems \<open>v = JObj ms\<close> ref s q have r: "resolve_members ?f (overlay ms rs) = Resolved r" by simp
        have "own_ref (overlay ms rs) = []" using free JObj by (simp add: own_ref_def map_of_overlay)
        with r show ?thesis by (rule members)
      qed (use Suc.prems \<open>v = JObj ms\<close> ref s q free in auto)
    qed
  qed (use Suc.prems in auto)
qed simp

subsection \<open>Resolution ends\<close>

lemma refs_of_member: "m \<in> set ms \<Longrightarrow> set (refs_of (snd m)) \<subseteq> set (refs_of (JObj ms))"
  by (cases m) auto

lemma returns_reference:
  assumes ref: "map_of ms ''$ref'' = Some (JStr ref)" "map_of refs ref = Some s"
    and strings: "\<forall>(name, s) \<in> set refs. \<forall>x. s \<noteq> JStr x" and target: "returns refs s"
    and free: "\<And>x. refs_of x = [] \<Longrightarrow> returns refs x" and own: "\<forall>m \<in> set ms. returns refs (snd m)"
  shows "returns refs (JObj ms)"
proof -
  obtain n where n: "resolve_schema n refs s \<noteq> Never_Ends" using target by (auto simp: returns_def)
  show ?thesis
  proof (cases "\<exists>rs. resolve_schema n refs s = Resolved (JObj rs)")
    case False
    with n ref show ?thesis by (intro returnsI [of "Suc n"]) (auto split: resolved.split jval.split)
  next
    case True
    then obtain rs where rs: "resolve_schema n refs s = Resolved (JObj rs)" by blast
    from resolved_free [OF strings rs] have "\<forall>m \<in> set rs. refs_of (snd m) = []" by auto
    with free own set_overlay [of ms rs] have "\<forall>m \<in> set (overlay ms rs). returns refs (snd m)" by blast
    then obtain k where k: "\<forall>j \<ge> k. resolve_members (resolve_schema j refs) (overlay ms rs) \<noteq> Never_Ends"
      using members_return by blast
    have "resolve_schema (max n k) refs s = Resolved (JObj rs)" using resolve_schema_mono [of n refs s "max n k"] rs by simp
    with ref k show ?thesis by (intro returnsI [of "Suc (max n k)"]) simp
  qed
qed

lemma ranked_returns:
  assumes "ranked refs rank" and "\<forall>r \<in> set (refs_of v). rank r < k"
  shows "returns refs v"
  using assms(2)
proof (induction k arbitrary: v rule: less_induct)
  case (less k)
  have strings: "\<forall>(name, s) \<in> set refs. \<forall>x. s \<noteq> JStr x" using assms(1) by (auto simp: ranked_def)
  from less.prems show ?case
  proof (induction v)
    case (JArr vs)
    then show ?case by (intro returns_array) auto
  next
    case (JObj ms)
    have own: "\<forall>m \<in> set ms. returns refs (snd m)"
    proof
      fix m assume m: "m \<in> set ms"
      have "snd m \<in> Basic_BNFs.snds m" by (cases m) simp
      then show "returns refs (snd m)" using JObj.IH [OF m] refs_of_member [OF m] JObj.prems by blast
    qed
    show ?case
    proof (cases "own_ref ms")
      case Nil
      then show ?thesis using own by (rule returns_plain_object)
    next
      case (Cons ref rest)
      then have ref: "map_of ms ''$ref'' = Some (JStr ref)" by (auto simp: own_ref_def split: option.splits jval.splits)
      have lower: "rank ref < k" using JObj.prems Cons by simp
      show ?thesis
      proof (cases "map_of refs ref")
        case None
        with ref show ?thesis by (intro returnsI [of 1]) simp
      next
        case (Some s)
        from map_of_SomeD [OF Some] assms(1) have "\<forall>r \<in> set (refs_of s). rank r < rank ref" by (auto simp: ranked_def)
        then have "returns refs s" by (rule less.IH [OF lower])
        moreover have "refs_of x = [] \<Longrightarrow> returns refs x" for x by (rule less.IH [OF lower]) simp
        ultimately show ?thesis using returns_reference [OF ref Some strings] own by blast
      qed
    qed
  qed (rule returnsI [of 1], simp)+
qed

text \<open>
  C32: schema resolution ends when references have no cycle. If every schema refers only to
  schemas of a lower rank, there is a depth of recursion from which on the resolution of any
  value has one and the same answer, and a value it gives has no reference left. (A schema
  that refers to itself is resolved without end, see below.)
\<close>

theorem schema_resolution_terminates:
  assumes "ranked refs rank"
  shows "\<exists>depth r. r \<noteq> Never_Ends \<and> (\<forall>n \<ge> depth. resolve_schema n refs v = r) \<and>
    (case r of Resolved s \<Rightarrow> refs_of s = [] | _ \<Rightarrow> True)"
proof -
  have "\<forall>r \<in> set (refs_of v). rank r < Suc (sum_list (map rank (refs_of v)))"
    by (simp add: less_Suc_eq_le member_le_sum_list)
  with assms have "returns refs v" by (rule ranked_returns)
  then obtain depth where depth: "resolve_schema depth refs v \<noteq> Never_Ends" by (auto simp: returns_def)
  have "\<forall>(name, s) \<in> set refs. \<forall>x. s \<noteq> JStr x" using assms by (auto simp: ranked_def)
  then have "resolve_schema depth refs v = Resolved s \<Longrightarrow> refs_of s = []" for s by (rule resolved_free)
  then have "case resolve_schema depth refs v of Resolved s \<Rightarrow> refs_of s = [] | _ \<Rightarrow> True"
    by (simp split: resolved.split)
  moreover have "\<forall>n \<ge> depth. resolve_schema n refs v = resolve_schema depth refs v"
    using resolve_schema_mono [OF depth] by blast
  ultimately show ?thesis using depth by blast
qed

definition sample_refs :: "(string \<times> jval) list" where
  "sample_refs = [(''#/components/schemas/Item'', JObj [(''type'', JStr ''object''), (''properties'',
     JObj [(''id'', JObj [(''$ref'', JStr ''#/components/schemas/Id'')])])]),
     (''#/components/schemas/Id'', JObj [(''type'', JStr ''string'')])]"

lemma schema_resolution_terminates_witness:
  "\<exists>depth r. r \<noteq> Never_Ends \<and> (\<forall>n \<ge> depth. resolve_schema n sample_refs (JObj [(''$ref'', JStr ''#/components/schemas/Item'')]) = r) \<and>
    (case r of Resolved s \<Rightarrow> refs_of s = [] | _ \<Rightarrow> True)"
proof (rule schema_resolution_terminates)
  show "ranked sample_refs length" by (simp add: ranked_def sample_refs_def own_ref_def)
qed

lemma sample_resolved:
  "resolve_schema 9 sample_refs (JObj [(''$ref'', JStr ''#/components/schemas/Item'')]) =
     Resolved (JObj [(''type'', JStr ''object''), (''properties'', JObj [(''id'', JObj [(''type'', JStr ''string'')])])])"
  by code_simp

text \<open>A schema with itself as a property, as trees have it, has no end.\<close>

lemma cyclic_schema_never_ends:
  fixes tree defines "tree \<equiv> JObj [(''child'', JObj [(''$ref'', JStr ''tree'')])]"
  shows "resolve_schema n [(''tree'', tree)] (JObj [(''$ref'', JStr ''tree'')]) = Never_Ends"
proof -
  have "resolve_schema n [(''tree'', tree)] (JObj [(''$ref'', JStr ''tree'')]) = Never_Ends \<and>
    resolve_schema n [(''tree'', tree)] tree = Never_Ends"
    by (induction n) (simp_all add: tree_def resolve_members_def)
  then show ?thesis by blast
qed

end
