(* ===== verification/Generated_Tools.thy ===== *)
theory Generated_Tools
  imports Generator
begin

text \<open>
  \<open>GenerateFromOpenAPI\<close> of internal/idp/generator.go: one tool for every operation of a
  document, and what the server that admits tools makes of them. Loading and validating the
  document is the OpenAPI library's.
\<close>

subsection \<open>The input schema and the mapping\<close>

definition put_argument :: "string \<Rightarrow> generated_argument \<Rightarrow> tool_spec \<Rightarrow> tool_spec" where
  "put_argument bodySource a s =
     (let s = set_property (ga_final a) (ga_property a) s;
          sch = ts_input_schema s; ex = ts_execution s in
      s\<lparr> ts_input_schema := (if ga_required a then sch\<lparr> is_required := is_required sch @ [ga_final a] \<rparr> else sch),
         ts_execution := ex\<lparr>
           ex_mapping := amap_put (ga_final a) (ga_erp a) (ex_mapping ex),
           ex_parameter_locations := amap_put (ga_final a) (ga_location a) (ex_parameter_locations ex),
           ex_body_argument := (if ga_source a = bodySource then ga_final a else ex_body_argument ex) \<rparr> \<rparr>)"

definition put_arguments :: "string \<Rightarrow> generated_argument list \<Rightarrow> tool_spec \<Rightarrow> tool_spec" where
  "put_arguments bodySource as s =
     (let s = fold (put_argument bodySource) as s; sch = ts_input_schema s in
      s\<lparr> ts_input_schema := sch\<lparr> is_required := sort_strings (is_required sch) \<rparr> \<rparr>)"

definition set_additional :: "jval \<Rightarrow> tool_spec \<Rightarrow> tool_spec" where
  "set_additional v s = s\<lparr> ts_input_schema := (ts_input_schema s)\<lparr> is_additional := v \<rparr> \<rparr>"

subsection \<open>The response\<close>

definition response_content :: "oa_operation \<Rightarrow> oa_content option" where
  "response_content op = (case oo_response op 200 of
       Some c \<Rightarrow> c
     | None \<Rightarrow> (case oo_response op 201 of Some c \<Rightarrow> c | None \<Rightarrow> None))"

text \<open>An object with a member \<open>data\<close> is unwrapped.\<close>

definition unwrap_data :: "jval \<Rightarrow> string \<times> jval" where
  "unwrap_data v = (case v of
       JObj ms \<Rightarrow> (case (map_of ms ''type'', map_of ms ''properties'') of
           (Some (JStr t), Some (JObj ps)) \<Rightarrow>
             (if t = ''object'' then (case map_of ps ''data'' of Some d \<Rightarrow> (''data'', d) | None \<Rightarrow> ([], v)) else ([], v))
         | _ \<Rightarrow> ([], v))
     | _ \<Rightarrow> ([], v))"

definition response_schema :: "nat \<Rightarrow> oa_document \<Rightarrow> oa_operation \<Rightarrow> generate_error + string \<times> jval option" where
  "response_schema depth doc op = (case Option.bind (response_content op) json_schema_content of
       Some (Some s) \<Rightarrow> (case dereference depth doc s of
           Inl e \<Rightarrow> Inl e
         | Inr resolved \<Rightarrow> (case unwrap_data resolved of (path, output) \<Rightarrow>
             Inr (path, if has_concrete_output_schema (Some output) then Some output else None)))
     | _ \<Rightarrow> Inr ([], None))"

definition set_response :: "string \<times> jval option \<Rightarrow> tool_spec \<Rightarrow> tool_spec" where
  "set_response r s = s\<lparr> ts_execution := (ts_execution s)\<lparr> ex_response_path := fst r \<rparr>, ts_output_schema := snd r \<rparr>"

subsection \<open>One operation\<close>

definition base_url :: "oa_document \<Rightarrow> string" where
  "base_url doc = (case od_servers doc of [] \<Rightarrow> [] | s # _ \<Rightarrow> s)"

text \<open>The argument \<open>body\<close> names the source that is the whole body; an object's policy becomes the tool's.\<close>

definition filled :: "string \<times> jval option \<Rightarrow> string \<Rightarrow> generated_argument list \<Rightarrow> jval option \<Rightarrow> tool_spec \<Rightarrow> tool_spec" where
  "filled response b as policy s = set_response response (put_arguments b as (case policy of None \<Rightarrow> s | Some v \<Rightarrow> set_additional v s))"

definition operation_tool ::
  "nat \<Rightarrow> oa_document \<Rightarrow> api \<Rightarrow> string \<Rightarrow> string \<Rightarrow> string \<Rightarrow> oa_path_item \<Rightarrow> string \<Rightarrow> oa_operation \<Rightarrow> generate_error + tool" where
  "operation_tool depth doc a ref toolName path item method op =
     (case merge_parameters (oi_parameters item) (oo_parameters op) of
        Inl e \<Rightarrow> Inl e
      | Inr parameters \<Rightarrow> (case sequence_results (map (parameter_argument depth doc) parameters) of
          Inl e \<Rightarrow> Inl e
        | Inr pargs \<Rightarrow> (case body_arguments depth doc op of
            Inl e \<Rightarrow> Inl e
          | Inr (bargs, whole, policy) \<Rightarrow> (case finalize_arguments (pargs @ bargs) of
              Inl e \<Rightarrow> Inl e
            | Inr arguments \<Rightarrow> (case response_schema depth doc op of
                Inl e \<Rightarrow> Inl e
              | Inr response \<Rightarrow>
                  Inr (map_spec (filled response (if whole then ''body'' else []) arguments policy)
                    (generated_tool a ref toolName (operation_short method path op) (to_upper method) (base_url doc @ path))))))))"

subsection \<open>All operations\<close>

text \<open>Paths in order, and the methods of a path by rank and name.\<close>

definition ordered_operations :: "oa_document \<Rightarrow> (string \<times> oa_path_item \<times> string \<times> oa_operation) list" where
  "ordered_operations doc = concat (map (\<lambda>(path, item). map (\<lambda>(method, op). (path, item, method, op))
     (sort_key (\<lambda>m. method_rank (fst m)) (sort_key fst (oi_operations item)))) (sort_key fst (od_paths doc)))"

fun generate_operations ::
  "nat \<Rightarrow> oa_document \<Rightarrow> api \<Rightarrow> string \<Rightarrow> (string \<times> oa_path_item \<times> string \<times> oa_operation) list \<Rightarrow> (string \<times> string) list \<Rightarrow>
     generate_error + tool list" where
  "generate_operations depth doc a ref [] seen = Inr []"
| "generate_operations depth doc a ref ((path, item, method, op) # rest) seen =
     (let name = operation_name method path op; source = to_upper method @ '' '' @ path in
      if name = [] then Inl (Gen_Empty_Name method path)
      else (case map_of seen name of
          Some previous \<Rightarrow> Inl (Gen_Name_Collision name previous source)
        | None \<Rightarrow> (case operation_tool depth doc a ref name path item method op of
            Inl e \<Rightarrow> Inl e
          | Inr t \<Rightarrow> (case generate_operations depth doc a ref rest ((name, source) # seen) of
              Inl e \<Rightarrow> Inl e
            | Inr ts \<Rightarrow> Inr (t # ts)))))"

text \<open>How the library answers for a location, and the request the code falls back to.\<close>

record openapi_loader =
  ol_uri :: "string \<Rightarrow> oa_document option"
  ol_fetch :: "string \<Rightarrow> oa_document option"
  ol_file :: "string \<Rightarrow> oa_document option"
  ol_valid :: "oa_document \<Rightarrow> bool"

definition load_document :: "openapi_loader \<Rightarrow> string \<Rightarrow> generate_error + oa_document" where
  "load_document ld location =
     (if has_prefix location ''http'' then
        (if url_parse location = None then Inl Gen_Load_Failed
         else (case ol_uri ld location of
             Some doc \<Rightarrow> Inr doc
           | None \<Rightarrow> (case ol_fetch ld location of None \<Rightarrow> Inl Gen_Load_Failed | Some doc \<Rightarrow> Inr doc)))
      else (case ol_file ld location of None \<Rightarrow> Inl Gen_Load_Failed | Some doc \<Rightarrow> Inr doc))"

definition generate_from_openapi :: "nat \<Rightarrow> openapi_loader \<Rightarrow> api \<Rightarrow> string \<Rightarrow> generate_error + tool list" where
  "generate_from_openapi depth ld a location = (case credential_ref_for_api a of
       Inl e \<Rightarrow> Inl e
     | Inr ref \<Rightarrow> (case load_document ld location of
         Inl e \<Rightarrow> Inl e
       | Inr doc \<Rightarrow>
           if \<not> ol_valid ld doc then Inl Gen_Invalid_Document
           else generate_operations depth doc a ref (ordered_operations doc) []))"

subsection \<open>Names\<close>

definition plain_name :: "string \<Rightarrow> bool" where
  "plain_name s \<longleftrightarrow> s \<noteq> [] \<and> (\<forall>c \<in> set s. is_lower c \<or> is_digit c \<or> c = CHR ''_'')"

lemma sanitize_from_set:
  "set (sanitize_from b out cs) \<subseteq> set out \<union> {c \<in> set cs. name_byte c} \<union> {CHR ''_''}"
  by (induction b out cs rule: sanitize_from.induct) auto

lemma lower_not_upper: "\<not> is_upper (lower_char c)"
  by (simp add: lower_char_def is_upper_def Let_def)

lemma operation_name_plain: "operation_name method path op \<noteq> [] \<Longrightarrow> plain_name (operation_name method path op)"
proof -
  have "set (sanitize_operation_name s) \<subseteq> {c. is_lower c \<or> is_digit c \<or> c = CHR ''_''}" for s
  proof -
    have "set (sanitize_operation_name s) \<subseteq> set (sanitize_from False [] (to_lower (trim_space s)))"
      by (auto simp: sanitize_operation_name_def trim_char_def dest!: set_dropWhileD)
    also have "\<dots> \<subseteq> {c \<in> set (to_lower (trim_space s)). name_byte c} \<union> {CHR ''_''}"
      using sanitize_from_set [of False "[]"] by fastforce
    also have "\<dots> \<subseteq> {c. is_lower c \<or> is_digit c \<or> c = CHR ''_''}"
      using lower_not_upper by (auto simp: to_lower_def name_byte_def is_letter_def)
    finally show ?thesis .
  qed
  then show "operation_name method path op \<noteq> [] \<Longrightarrow> plain_name (operation_name method path op)"
    unfolding operation_name_def plain_name_def by blast
qed

lemma has_prefix_set: "has_prefix s p \<Longrightarrow> set p \<subseteq> set s"
  by (auto simp: has_prefix_iff)

lemma str_contains_set: "str_contains s p \<Longrightarrow> set p \<subseteq> set s"
proof (induction s)
  case (Cons c s)
  then show ?case using has_prefix_set [of "c # s" p] by auto
qed simp

lemma plain_name_intent:
  assumes "plain_name s"
  shows "\<not> names_http_verb s" "\<not> str_contains s ''.rev_''"
proof -
  have plain: "c \<in> set s \<Longrightarrow> lower_char c = c \<and> c \<noteq> CHR ''-'' \<and> c \<noteq> CHR ''.''" for c
    using assms by (auto simp: plain_name_def char_class_defs)
  then have "to_lower s = s" unfolding to_lower_def by (intro map_idI) blast
  moreover have no: "CHR ''-'' \<notin> set s" "CHR ''.'' \<notin> set s" using plain by blast+
  ultimately show "\<not> names_http_verb s" by (auto simp: names_http_verb_def dest!: str_contains_set)
  from no show "\<not> str_contains s ''.rev_''" by (auto dest!: str_contains_set)
qed

subsection \<open>What an argument leaves as it is\<close>

lemma put_argument_keeps [simp]:
  "ts_security (put_argument b a s) = ts_security s" "ts_rate_limit (put_argument b a s) = ts_rate_limit s"
  "ts_concurrency (put_argument b a s) = ts_concurrency s" "ts_cache (put_argument b a s) = ts_cache s"
  "ts_annotations (put_argument b a s) = ts_annotations s"
  "ex_endpoint (ts_execution (put_argument b a s)) = ex_endpoint (ts_execution s)"
  "ex_method (ts_execution (put_argument b a s)) = ex_method (ts_execution s)"
  by (simp_all add: put_argument_def set_property_def Let_def)

lemma fold_put_argument_keeps:
  "ts_security (fold (put_argument b) as s) = ts_security s" "ts_rate_limit (fold (put_argument b) as s) = ts_rate_limit s"
  "ts_concurrency (fold (put_argument b) as s) = ts_concurrency s" "ts_cache (fold (put_argument b) as s) = ts_cache s"
  "ts_annotations (fold (put_argument b) as s) = ts_annotations s"
  "ex_endpoint (ts_execution (fold (put_argument b) as s)) = ex_endpoint (ts_execution s)"
  "ex_method (ts_execution (fold (put_argument b) as s)) = ex_method (ts_execution s)"
  by (induction as arbitrary: s) simp_all

lemma filled_keeps:
  "ts_security (filled r b as policy s) = ts_security s" "ts_rate_limit (filled r b as policy s) = ts_rate_limit s"
  "ts_concurrency (filled r b as policy s) = ts_concurrency s" "ts_cache (filled r b as policy s) = ts_cache s"
  "ts_annotations (filled r b as policy s) = ts_annotations s"
  "ex_endpoint (ts_execution (filled r b as policy s)) = ex_endpoint (ts_execution s)"
  "ex_method (ts_execution (filled r b as policy s)) = ex_method (ts_execution s)"
  by (cases policy; simp add: filled_def set_response_def put_arguments_def set_additional_def Let_def fold_put_argument_keeps)+

text \<open>An operation's tool: what both generators start from, filled with named arguments.\<close>

lemma operation_tool_filled:
  assumes "operation_tool depth doc a ref toolName path item method op = Inr t"
  obtains parameters pargs bargs whole policy arguments response where
    "merge_parameters (oi_parameters item) (oo_parameters op) = Inr parameters"
    "sequence_results (map (parameter_argument depth doc) parameters) = Inr pargs"
    "body_arguments depth doc op = Inr (bargs, whole, policy)"
    "finalize_arguments (pargs @ bargs) = Inr arguments"
    "t = map_spec (filled response (if whole then ''body'' else []) arguments policy)
       (generated_tool a ref toolName (operation_short method path op) (to_upper method) (base_url doc @ path))"
  using assms by (auto simp: operation_tool_def split: sum.splits prod.splits)

lemmas generated_defs = map_spec_def generated_tool_def generated_metadata_def generated_security_def http_execution_def

lemma operation_tool_keeps:
  assumes "operation_tool depth doc a ref toolName path item method op = Inr t"
  shows "tool_name t = toolName" "tool_version t = ''1.0.0''" "ts_security (tl_spec t) = generated_security a ref"
    "ts_rate_limit (tl_spec t) = None" "ts_concurrency (tl_spec t) = None"
    "ts_cache (tl_spec t) = Some (default_cache (to_upper method))" "ex_method (ts_execution (tl_spec t)) = to_upper method"
    "ts_annotations (tl_spec t) = Some (annotations_for_http_method (to_upper method))"
    "tool_endpoint t = base_url doc @ path"
  by (rule operation_tool_filled [OF assms], simp add: generated_defs filled_keeps tool_name_def tool_version_def tool_endpoint_def)+

subsection \<open>What the inputs of a tool are for\<close>

text \<open>The argument that a final name stands for.\<close>

definition named_argument :: "generated_argument list \<Rightarrow> string \<Rightarrow> generated_argument option" where
  "named_argument as k = find (\<lambda>a. ga_final a = k) (rev as)"

lemma put_arguments_lookup:
  "map_of (ex_mapping (ts_execution (fold (put_argument b) as s))) k =
     (case named_argument as k of Some a \<Rightarrow> Some (ga_erp a) | None \<Rightarrow> map_of (ex_mapping (ts_execution s)) k)"
  "map_of (ex_parameter_locations (ts_execution (fold (put_argument b) as s))) k =
     (case named_argument as k of Some a \<Rightarrow> Some (ga_location a) | None \<Rightarrow> map_of (ex_parameter_locations (ts_execution s)) k)"
  "map_of (is_properties (ts_input_schema (fold (put_argument b) as s))) k =
     (case named_argument as k of Some a \<Rightarrow> Some (ga_property a) | None \<Rightarrow> map_of (is_properties (ts_input_schema s)) k)"
  by (induction as rule: rev_induct) (auto simp: named_argument_def put_argument_def set_property_def Let_def)

lemma put_arguments_required:
  "set (is_required (ts_input_schema (fold (put_argument b) as s))) =
     set (is_required (ts_input_schema s)) \<union> ga_final ` {a \<in> set as. ga_required a}"
  by (induction as rule: rev_induct) (auto simp: put_argument_def set_property_def Let_def)

lemma named_argument_Some: "named_argument as k = Some a \<Longrightarrow> a \<in> set as \<and> ga_final a = k"
  by (auto simp: named_argument_def dest: find_SomeD)

lemma named_argument_None: "named_argument as k = None \<longleftrightarrow> k \<notin> ga_final ` set as"
  by (auto simp: named_argument_def find_None_iff)

lemma filled_lookup:
  assumes t: "t = map_spec (filled r b as policy) (generated_tool a ref toolName short method endpoint)"
  shows "map_of (ex_mapping (ts_execution (tl_spec t))) k = map_option ga_erp (named_argument as k)"
    "map_of (ex_parameter_locations (ts_execution (tl_spec t))) k = map_option ga_location (named_argument as k)"
    "map_of (is_properties (ts_input_schema (tl_spec t))) k = map_option ga_property (named_argument as k)"
    "set (is_required (ts_input_schema (tl_spec t))) = ga_final ` {a \<in> set as. ga_required a}"
  unfolding t
  by (cases policy; simp add: generated_defs filled_def set_response_def put_arguments_def set_additional_def object_schema_def Let_def
        sort_strings_def put_arguments_lookup put_arguments_required split: option.split)+

text \<open>Where an argument goes.\<close>

definition sendable :: "generated_argument \<Rightarrow> bool" where
  "sendable a \<longleftrightarrow> ga_location a = ''body'' \<or> ga_location a = ''path'' \<or> ga_location a = ''query'' \<or>
     ga_location a = ''header'' \<and> \<not> protected_generated_header (ga_erp a)"

lemma sequence_results_Inr: "sequence_results rs = Inr xs \<Longrightarrow> rs = map Inr xs"
  by (induction rs arbitrary: xs) (auto split: sum.splits)

lemma parameter_argument_sendable: "parameter_argument depth doc p = Inr a \<Longrightarrow> sendable a"
  by (auto simp: parameter_argument_def sendable_def new_argument_def Let_def split: if_splits option.splits sum.splits)

lemma body_arguments_sendable: "body_arguments depth doc op = Inr (as, whole, policy) \<Longrightarrow> a \<in> set as \<Longrightarrow> sendable a"
  by (auto simp: body_arguments_def sendable_def new_argument_def Let_def split: if_splits option.splits sum.splits prod.splits)

lemma sendable_unnamed: "sendable (unnamed a) = sendable a"
  by (simp add: sendable_def unnamed_def)

lemma operation_tool_arguments:
  assumes "operation_tool depth doc a ref toolName path item method op = Inr t"
  obtains as where "distinct (map (\<lambda>a. (ga_location a, ga_erp a)) as)" "\<forall>x \<in> set as. sendable x"
    "\<And>k. map_of (ex_mapping (ts_execution (tl_spec t))) k = map_option ga_erp (named_argument as k)"
    "\<And>k. map_of (ex_parameter_locations (ts_execution (tl_spec t))) k = map_option ga_location (named_argument as k)"
    "\<And>k. map_of (is_properties (ts_input_schema (tl_spec t))) k = map_option ga_property (named_argument as k)"
    "set (is_required (ts_input_schema (tl_spec t))) = ga_final ` {x \<in> set as. ga_required x}"
proof -
  obtain parameters pargs bargs whole policy arguments response where
    p: "sequence_results (map (parameter_argument depth doc) parameters) = Inr pargs"
    and b: "body_arguments depth doc op = Inr (bargs, whole, policy)"
    and f: "finalize_arguments (pargs @ bargs) = Inr arguments"
    and t: "t = map_spec (filled response (if whole then ''body'' else []) arguments policy)
       (generated_tool a ref toolName (operation_short method path op) (to_upper method) (base_url doc @ path))"
    using operation_tool_filled [OF assms] by metis
  from generated_arguments_unambiguous [of "pargs @ bargs"] f
  have same: "map unnamed arguments = map unnamed (pargs @ bargs)"
    and d: "distinct (map (\<lambda>a. (ga_location a, ga_erp a)) arguments)" by simp_all
  have "sendable x" if "x \<in> set pargs" for x
  proof -
    from that have "Inr x \<in> set (map (parameter_argument depth doc) parameters)" by (simp add: sequence_results_Inr [OF p])
    then obtain q where "parameter_argument depth doc q = Inr x" by (metis ex_map_conv)
    then show "sendable x" by (rule parameter_argument_sendable)
  qed
  with body_arguments_sendable [OF b] have "\<forall>x \<in> set (pargs @ bargs). sendable x" by auto
  then have "\<forall>x \<in> set (map unnamed (pargs @ bargs)). sendable x" by (simp add: sendable_unnamed ball_Un)
  then have "\<forall>x \<in> set arguments. sendable x" unfolding same [symmetric] by (simp add: sendable_unnamed)
  with d show thesis using that filled_lookup [OF t] by blast
qed

text \<open>
  C30: the inputs of a generated tool are what the mapping sends. Every input has a schema, a
  name and a place in the request, required inputs are among them, no two inputs have the same
  place and the same name there, and no header input has one of the thirteen names that the
  generator reserves, in whatever case and with whatever space around it. Names are compared
  as texts: header names that differ only in case stay different, and the header that carries
  the API's own credential is not reserved (see below).
\<close>

theorem generated_tool_wired:
  assumes "operation_tool depth doc a ref toolName path item method op = Inr t"
    and "mapping = map_of (ex_mapping (ts_execution (tl_spec t)))"
    and "places = map_of (ex_parameter_locations (ts_execution (tl_spec t)))"
    and "inputs = map_of (is_properties (ts_input_schema (tl_spec t)))"
  shows "dom mapping = dom inputs \<and> dom places = dom inputs \<and> set (is_required (ts_input_schema (tl_spec t))) \<subseteq> dom inputs \<and>
    inj_on (\<lambda>k. (places k, mapping k)) (dom inputs) \<and>
    (\<forall>k \<in> dom inputs. the (places k) \<in> {''path'', ''query'', ''body'', ''header''} \<and>
       \<not> (places k = Some ''header'' \<and> protected_generated_header (the (mapping k))))"
proof -
  obtain as where "distinct (map (\<lambda>a. (ga_location a, ga_erp a)) as)" "\<forall>x \<in> set as. sendable x"
    "\<And>k. map_of (ex_mapping (ts_execution (tl_spec t))) k = map_option ga_erp (named_argument as k)"
    "\<And>k. map_of (ex_parameter_locations (ts_execution (tl_spec t))) k = map_option ga_location (named_argument as k)"
    "\<And>k. map_of (is_properties (ts_input_schema (tl_spec t))) k = map_option ga_property (named_argument as k)"
    "set (is_required (ts_input_schema (tl_spec t))) = ga_final ` {x \<in> set as. ga_required x}"
    by (rule operation_tool_arguments [OF assms(1)]) (rule that)
  note as = this [folded assms(2-4)]
  have dom: "k \<in> dom inputs \<longleftrightarrow> (\<exists>x. named_argument as k = Some x)" for k by (auto simp: as(5) dom_def)
  have required: "set (is_required (ts_input_schema (tl_spec t))) \<subseteq> dom inputs"
    using named_argument_None by (fastforce simp: as(5,6) dom_def)
  have "j = k" if "j \<in> dom inputs" "k \<in> dom inputs" "(places j, mapping j) = (places k, mapping k)" for j k
  proof -
    from that(1,2) dom obtain x y where xy: "named_argument as j = Some x" "named_argument as k = Some y" by blast
    with that(3) have "(ga_location x, ga_erp x) = (ga_location y, ga_erp y)" by (simp add: as(3,4))
    moreover have "x \<in> set as" "y \<in> set as" using xy named_argument_Some by blast+
    ultimately have "x = y" using as(1) by (auto simp: distinct_map inj_on_def)
    with xy named_argument_Some show "j = k" by metis
  qed
  then have "inj_on (\<lambda>k. (places k, mapping k)) (dom inputs)" by (auto simp: inj_on_def)
  moreover have "the (places k) \<in> {''path'', ''query'', ''body'', ''header''} \<and>
      \<not> (places k = Some ''header'' \<and> protected_generated_header (the (mapping k)))" if "k \<in> dom inputs" for k
  proof -
    from that dom obtain x where x: "named_argument as k = Some x" by blast
    with as(2) named_argument_Some [OF x] have "sendable x" by blast
    with x show ?thesis by (auto simp: as(3,4) sendable_def)
  qed
  moreover have "dom mapping = dom inputs" "dom places = dom inputs" by (auto simp: as(3-5) dom_def)
  ultimately show ?thesis using required by blast
qed

text \<open>
  Two header inputs that differ only in case are both accepted, although on the wire they are
  one header, and so is one with the name of the header that the API's credential is sent in.
\<close>

lemma header_inputs_meet:
  defines "input \<equiv> \<lambda>name. new_argument name ''header'' (MkProperty JNull ''string'' [] [] JNull [] None []) False"
  shows "finalize_arguments [input ''X-Trace'', input ''x-trace''] =
       Inr [(input ''X-Trace'')\<lparr> ga_final := ''X-Trace'' \<rparr>, (input ''x-trace'')\<lparr> ga_final := ''x-trace'' \<rparr>] \<and>
     canonical_header ''x-trace'' = ''X-Trace'' \<and> \<not> protected_generated_header ''X-API-Key''"
  unfolding input_def by code_simp

subsection \<open>What the server makes of them\<close>

lemma generate_operations_names:
  assumes "generate_operations depth doc a ref ops seen = Inr ts"
  shows "distinct (map tool_name ts) \<and> set (map tool_name ts) \<inter> set (map fst seen) = {} \<and>
    (\<forall>t \<in> set ts. plain_name (tool_name t) \<and>
       (\<exists>path item method op. operation_tool depth doc a ref (tool_name t) path item method op = Inr t))"
  using assms
proof (induction depth doc a ref ops seen arbitrary: ts rule: generate_operations.induct)
  case (2 depth doc a ref path item verb op rest seen)
  let ?name = "operation_name verb path op"
  from "2.prems" obtain t ts' where t: "?name \<noteq> []" "map_of seen ?name = None"
    "operation_tool depth doc a ref ?name path item verb op = Inr t" "ts = t # ts'"
    "generate_operations depth doc a ref rest ((?name, to_upper verb @ '' '' @ path) # seen) = Inr ts'"
    by (auto simp: Let_def split: if_splits option.splits sum.splits)
  have "tool_name t = ?name" using operation_tool_keeps(1) [OF t(3)] .
  with "2.IH" [OF refl refl t(1,2) t(3,5)] t operation_name_plain [OF t(1)] show ?case
    by (auto simp: map_of_eq_None_iff)
qed simp

lemma credential_ref_accepted:
  assumes "credential_ref_for_api a = Inr ref" and "ap_auth_type a \<noteq> [] \<or> \<not> is_file_backed (ap_credential_source a)"
  shows "validate_credential_fields (generated_security a ref) = Inr ()"
  using assms by (auto simp: credential_ref_for_api_def validate_credential_fields_def generated_security_def split: if_splits)

lemma operation_tool_admitted:
  assumes t: "operation_tool depth doc a ref toolName path item method op = Inr t" and "plain_name toolName"
    and "validate_credential_fields (generated_security a ref) = Inr ()"
    and "\<not> embeds_secret (tool_endpoint t)" and b: "bind_approved_origins base t = Inr t1"
  shows "validate_tool base t = Inr t1"
proof -
  note k = operation_tool_keeps [OF t]
  have sec: "ts_security (tl_spec t1) = generated_security a ref"
    using b k(3) by (auto simp: bind_approved_origins_def set_tool_origins_def Let_def split: if_splits sum.splits)
  have "validate_identity t = Inr ()"
    using assms(2,4) plain_name_intent [OF assms(2)] by (simp add: validate_identity_def k(1,2) plain_name_def)
  moreover have "validate_limits t = Inr ()" by (simp add: validate_limits_def k(4,5))
  moreover have "validate_roles t1 = Inr t1"
    by (simp add: validate_roles_def tool_roles_def sec generated_security_def normalize_roles_def sort_strings_def)
  moreover have "validate_data_class (ts_security (tl_spec t1)) = Inr ()"
    by (simp add: sec validate_data_class_def generated_security_def)
  ultimately show ?thesis using assms(3) b by (simp add: validate_tool_def k(3))
qed

lemma default_cache_reads: "cc_enabled (default_cache method) \<Longrightarrow> to_upper (trim_space method) \<in> {''GET'', ''HEAD''}"
  by (auto simp: default_cache_def Let_def split: if_splits)

text \<open>
  C31: the server admits what is generated. The tools of a document have different names, made
  of lower-case letters, digits and underscores; each passes \<open>validateTool\<close> with the origins
  of its endpoint bound, provided its endpoint has an origin and holds no secret; and only
  the tool of a read is cached. The API is assumed to name a kind of authentication unless its
  credential source is not a file: without one the server refuses its tools (see below).
\<close>

theorem generated_tools_admitted:
  assumes "generate_from_openapi depth ld a location = Inr tools"
    and "ap_auth_type a \<noteq> [] \<or> \<not> is_file_backed (ap_credential_source a)"
  shows "distinct (map tool_name tools) \<and>
    (\<forall>t \<in> set tools. plain_name (tool_name t) \<and>
       (embeds_secret (tool_endpoint t) \<or>
         (case bind_approved_origins base t of Inl e \<Rightarrow> True | Inr t1 \<Rightarrow> validate_tool base t = Inr t1)) \<and>
       (\<forall>c. ts_cache (tl_spec t) = Some c \<longrightarrow> cc_enabled c \<longrightarrow>
          to_upper (trim_space (ex_method (ts_execution (tl_spec t)))) \<in> {''GET'', ''HEAD''}))"
proof -
  from assms(1) obtain ref doc where ref: "credential_ref_for_api a = Inr ref"
    and ops: "generate_operations depth doc a ref (ordered_operations doc) [] = Inr tools"
    by (auto simp: generate_from_openapi_def split: sum.splits if_splits)
  note names = generate_operations_names [OF ops]
  note fields = credential_ref_accepted [OF ref assms(2)]
  have "(embeds_secret (tool_endpoint t) \<or>
      (case bind_approved_origins base t of Inl e \<Rightarrow> True | Inr t1 \<Rightarrow> validate_tool base t = Inr t1)) \<and>
    (\<forall>c. ts_cache (tl_spec t) = Some c \<longrightarrow> cc_enabled c \<longrightarrow>
      to_upper (trim_space (ex_method (ts_execution (tl_spec t)))) \<in> {''GET'', ''HEAD''})" if t: "t \<in> set tools" for t
  proof -
    from names t obtain path item verb op where
      o: "operation_tool depth doc a ref (tool_name t) path item verb op = Inr t" and n: "plain_name (tool_name t)" by blast
    have "embeds_secret (tool_endpoint t) \<or>
      (case bind_approved_origins base t of Inl e \<Rightarrow> True | Inr t1 \<Rightarrow> validate_tool base t = Inr t1)"
      using operation_tool_admitted [OF o n fields] by (auto split: sum.split)
    moreover have "ts_cache (tl_spec t) = Some (default_cache (to_upper verb))" "ex_method (ts_execution (tl_spec t)) = to_upper verb"
      using operation_tool_keeps [OF o] by blast+
    ultimately show ?thesis using default_cache_reads by (metis option.inject)
  qed
  with names show ?thesis by blast
qed

definition sample_operation :: oa_operation where
  "sample_operation = \<lparr> oo_id = [], oo_summary = ''List items'', oo_description = [],
     oo_parameters = [Param \<lparr> oa_in = ''query'', oa_name = ''limit'', oa_param_description = [], oa_param_required = True,
       oa_schema = Some (JObj [(''type'', JStr ''integer'')]) \<rparr>],
     oo_body = None, oo_response = (\<lambda>_. None) \<rparr>"

definition sample_document :: oa_document where
  "sample_document = \<lparr> od_paths = [(''/item'', \<lparr> oi_parameters = [], oi_operations = [(''GET'', sample_operation)] \<rparr>)],
     od_servers = [''https://erp.example''], od_schemas = [] \<rparr>"

definition sample_loader :: openapi_loader where
  "sample_loader = \<lparr> ol_uri = (\<lambda>_. None), ol_fetch = (\<lambda>_. None), ol_file = (\<lambda>_. Some sample_document), ol_valid = (\<lambda>_. True) \<rparr>"

definition sample_erp_api :: api where
  "sample_erp_api = \<lparr> ap_id = [], ap_name = ''items'', ap_url = [], ap_method = ''GET'', ap_auth_type = [], ap_auth_header = [],
     ap_credential_ref = [], ap_credential_source = [], ap_auth_username = [], ap_module = ''stock'', ap_description = [],
     ap_status = [], ap_created_at = 0 \<rparr>"

definition sample_item_tool :: tool where
  "sample_item_tool = map_spec (put_arguments [] [(new_argument ''limit'' ''query'' (MkProperty JNull ''integer'' [] [] JNull [] None []) True)\<lparr> ga_final := ''limit'' \<rparr>])
     (generated_tool sample_erp_api [] ''list_items'' ''List items'' ''GET'' ''https://erp.example/item'')"

lemma sample_generated: "generate_from_openapi 9 sample_loader sample_erp_api ''erp.json'' = Inr [sample_item_tool]"
  by code_simp

lemma generated_tools_admitted_witness:
  "plain_name (tool_name sample_item_tool) \<and>
   validate_tool [] sample_item_tool = Inr (set_tool_origins [''https://erp.example''] sample_item_tool)"
proof -
  have "bind_approved_origins [] sample_item_tool = Inr (set_tool_origins [''https://erp.example''] sample_item_tool)"
    "\<not> embeds_secret (tool_endpoint sample_item_tool)" "\<not> is_file_backed (ap_credential_source sample_erp_api)" by code_simp+
  with generated_tools_admitted [OF sample_generated, of "[]"] show ?thesis by simp
qed

lemma generated_tool_wired_witness:
  "inj_on (\<lambda>k. (map_of (ex_parameter_locations (ts_execution (tl_spec sample_item_tool))) k,
      map_of (ex_mapping (ts_execution (tl_spec sample_item_tool))) k))
    (dom (map_of (is_properties (ts_input_schema (tl_spec sample_item_tool))))) \<and>
   ''limit'' \<in> dom (map_of (ex_mapping (ts_execution (tl_spec sample_item_tool))))"
proof -
  have "operation_tool 9 sample_document sample_erp_api [] ''list_items'' ''/item''
      \<lparr> oi_parameters = [], oi_operations = [(''GET'', sample_operation)] \<rparr> ''GET'' sample_operation = Inr sample_item_tool"
    "is_required (ts_input_schema (tl_spec sample_item_tool)) = [''limit'']" by code_simp+
  with generated_tool_wired [OF _ refl refl refl] show ?thesis by fastforce
qed

text \<open>
  An API that takes its credential from a file but names no authentication: the generated
  tool keeps the source and drops the reference, which the server refuses.
\<close>

lemma file_source_without_auth_refused:
  assumes "ap_auth_type a = []" and "ap_credential_source a = ''file''" and "ap_credential_ref a \<noteq> []"
  shows "credential_ref_for_api a = Inr []"
    "validate_credential_fields (generated_security a []) = Inl ''security.credentialRef is required for file credentials''"
  using assms by (simp_all add: credential_ref_for_api_def validate_credential_fields_def generated_security_def
    is_file_backed_def validate_credential_source_def)

text \<open>\<open>Generate\<close> renames a leading \<open>get-\<close> but no other verb: such a name is refused as well.\<close>

lemma post_name_refused:
  "case generate (sample_erp_api\<lparr> ap_name := ''post-invoice'' \<rparr>) of Inr t \<Rightarrow> names_http_verb (tool_name t) | Inl _ \<Rightarrow> False"
  by code_simp

end
