(* ===== verification/Console_Guard.thy ===== *)
theory Console_Guard
  imports Bridge_Client
begin

text \<open>
  The local console, internal/web: the server on a loopback address and the checks in front of
  every request (server.go, security.go), the routes, and the configuration snapshot the
  console serves from (context_api.go).
\<close>

subsection \<open>The server\<close>

record console =
  co_host :: string
  co_origin :: string
  co_capability :: string
  co_base :: string

definition loopback_hosts :: "string list" where "loopback_hosts = [''127.0.0.1'', ''::1'']"

definition validate_loopback_address :: "string \<Rightarrow> bool" where
  "validate_loopback_address address = (case net_split_host_port address of
       None \<Rightarrow> False
     | Some (host, _) \<Rightarrow> host \<in> set loopback_hosts)"

definition default_listen :: string where "default_listen = ''127.0.0.1:0''"

definition default_console_url :: "string \<Rightarrow> string" where
  "default_console_url address = (case net_split_host_port address of
       None \<Rightarrow> ''http://'' @ address
     | Some (host, port) \<Rightarrow> ''http://'' @ join_host_port host port)"

datatype console_error = Bad_Listen_Address | Listen_Failed | Bad_Listener | Short_Capability | No_Random | Bad_Console_Url

text \<open>
  \<open>NewServer\<close>. \<open>listen\<close> is what the operating system answers for an address, the address it
  bound; the capability is given or made of random bytes, \<open>None\<close> when there are none.
\<close>

definition new_console ::
  "(string \<Rightarrow> string option) \<Rightarrow> string option \<Rightarrow> string \<Rightarrow> string option \<Rightarrow> string \<Rightarrow> (string \<Rightarrow> string) option \<Rightarrow> console_error + console" where
  "new_console listen listener listenAddress random capability urlBuilder =
     (let address = (if listenAddress = [] then default_listen else listenAddress) in
      case (case listener of
          Some a \<Rightarrow> Inr a
        | None \<Rightarrow> if \<not> validate_loopback_address address then Inl Bad_Listen_Address
            else (case listen address of None \<Rightarrow> Inl Listen_Failed | Some a \<Rightarrow> Inr a)) of
        Inl e \<Rightarrow> Inl e
      | Inr bound \<Rightarrow>
          if \<not> validate_loopback_address bound then Inl Bad_Listener
          else (case (if capability = [] then random else Some capability) of
              None \<Rightarrow> Inl No_Random
            | Some cap \<Rightarrow>
                if length cap < 32 then Inl Short_Capability
                else
                  let base = (case urlBuilder of None \<Rightarrow> default_console_url bound | Some f \<Rightarrow> trim_right_slash (f bound)) in
                  (case url_parse base of
                     None \<Rightarrow> Inl Bad_Console_Url
                   | Some u \<Rightarrow>
                       if u_scheme u = [] \<or> u_host u = [] \<or> u_path u \<noteq> [] then Inl Bad_Console_Url
                       else Inr \<lparr> co_host = u_host u, co_origin = u_scheme u @ ''://'' @ u_host u, co_capability = cap, co_base = base \<rparr>)))"

definition capability_url :: "console \<Rightarrow> string" where
  "capability_url c = co_base c @ ''#cap='' @ co_capability c"

subsection \<open>Requests\<close>

text \<open>A request as the handlers read it; an absent header or parameter reads as empty.\<close>

record web_request =
  wq_method :: string
  wq_host :: string
  wq_path :: string
  wq_query :: "string \<Rightarrow> string"
  wq_header :: "string \<Rightarrow> string"

definition capability_header :: string where "capability_header = ''X-ERPBridge-Console-Capability''"

definition guarded_path :: "string \<Rightarrow> bool" where
  "guarded_path path \<longleftrightarrow> has_prefix path ''/api/'' \<or> path = ''/api''"

text \<open>\<open>secureHandler\<close>: the status and text of a refusal, in front of the wrapped handler.\<close>

definition console_refusal :: "console \<Rightarrow> web_request \<Rightarrow> (int \<times> string) option" where
  "console_refusal c r =
     (if wq_host r \<noteq> co_host c then Some (403, ''forbidden host'')
      else if wq_header r ''Origin'' \<noteq> [] \<and> wq_header r ''Origin'' \<noteq> co_origin c then Some (403, ''forbidden origin'')
      else if guarded_path (wq_path r) \<and> wq_header r capability_header \<noteq> co_capability c
        then Some (401, ''missing or invalid capability'')
      else None)"

datatype 'a console_answer =
    Refused_Console int string
  | Health_Ok
  | Handled 'a

definition secure_handler :: "console \<Rightarrow> (web_request \<Rightarrow> 'a) \<Rightarrow> web_request \<Rightarrow> 'a console_answer" where
  "secure_handler c handle r = (case console_refusal c r of
       Some (status, message) \<Rightarrow> Refused_Console status message
     | None \<Rightarrow> if wq_path r = ''/healthz'' then Health_Ok else Handled (handle r))"

definition quoted :: "string \<Rightarrow> string" where "quoted s = [CHR 0x27] @ s @ [CHR 0x27]"

definition security_headers :: "(string \<times> string) list" where
  "security_headers =
     [(''Content-Security-Policy'', ''default-src '' @ quoted ''self'' @ ''; connect-src '' @ quoted ''self'' @
         ''; img-src '' @ quoted ''self'' @ '' data:; style-src '' @ quoted ''self'' @ '' '' @ quoted ''unsafe-inline'' @
         ''; script-src '' @ quoted ''self'' @ ''; frame-ancestors '' @ quoted ''none'' @ ''; base-uri '' @ quoted ''none''),
      (''X-Content-Type-Options'', ''nosniff''), (''X-Frame-Options'', ''DENY''), (''Referrer-Policy'', ''no-referrer''),
      (''Cache-Control'', ''no-store'')]"

subsection \<open>Routes\<close>

datatype console_route =
    R_Contexts | R_Deployment | R_Health | R_Tools | R_Plugins | R_Plugin_Bindings | R_Cache | R_Logs_Recent | R_Logs_Stream
  | R_Metrics | R_Topology | R_Server_Info | R_Unknown | R_Assets | R_Moved

definition console_routes :: "(string \<times> console_route) list" where
  "console_routes =
     [(''/api/console/v1/contexts'', R_Contexts), (''/api/console/v1/deployment'', R_Deployment),
      (''/api/console/v1/health'', R_Health), (''/api/console/v1/tools'', R_Tools), (''/api/console/v1/plugins'', R_Plugins),
      (''/api/console/v1/plugin-bindings'', R_Plugin_Bindings), (''/api/console/v1/cache'', R_Cache),
      (''/api/console/v1/logs/recent'', R_Logs_Recent), (''/api/console/v1/logs/stream'', R_Logs_Stream),
      (''/api/console/v1/metrics'', R_Metrics), (''/api/console/v1/topology'', R_Topology),
      (''/api/console/v1/server-info'', R_Server_Info)]"

text \<open>
  \<open>http.ServeMux\<close>: the exact path, then the longest prefix that ends in a slash; a path that
  is not clean is answered with a redirect to the clean one, except for CONNECT.
\<close>

definition clean_path :: "string \<Rightarrow> bool" where
  "clean_path path \<longleftrightarrow> has_prefix path ''/'' \<and> (case rev (split_at_char (CHR ''/'') (drop 1 path)) of
       [] \<Rightarrow> True
     | l # ps \<Rightarrow> l \<noteq> ''.'' \<and> l \<noteq> ''..'' \<and> list_all (\<lambda>p. p \<noteq> [] \<and> p \<noteq> ''.'' \<and> p \<noteq> ''..'') ps)"

definition console_route_of :: "web_request \<Rightarrow> console_route" where
  "console_route_of r =
     (if wq_method r \<noteq> ''CONNECT'' \<and> \<not> clean_path (wq_path r) then R_Moved
      else case map_of console_routes (wq_path r) of
          Some route \<Rightarrow> route
        | None \<Rightarrow>
            if has_prefix (wq_path r) ''/api/console/'' then R_Unknown
            else if wq_path r = ''/api/console'' \<and> wq_method r \<noteq> ''CONNECT'' then R_Moved
            else R_Assets)"

text \<open>Answers that say nothing of the deployment: pages, redirects, and the absence of a route.\<close>

definition public_route :: "console_route \<Rightarrow> bool" where
  "public_route route \<longleftrightarrow> route \<in> {R_Assets, R_Moved}"

lemma routes_guarded: "map_of console_routes path = Some route \<Longrightarrow> guarded_path path"
proof -
  have "list_all (\<lambda>e. guarded_path (fst e)) console_routes" by code_simp
  then show "map_of console_routes path = Some route \<Longrightarrow> guarded_path path" by (auto simp: list_all_iff dest!: map_of_SomeD)
qed

text \<open>
  C13: the console answers only its own browser. A request reaches a handler only with the
  exact host the server listens on and with no other origin, and reaches one that reads
  configuration, tools, logs or metrics only with the capability of this launch; otherwise
  it gets the health answer, a refusal, a page or a redirect.
\<close>

theorem console_closed:
  "case secure_handler c console_route_of r of
     Handled route \<Rightarrow> wq_host r = co_host c \<and> (wq_header r ''Origin'' = [] \<or> wq_header r ''Origin'' = co_origin c) \<and>
       (public_route route \<or> wq_header r capability_header = co_capability c)
   | Health_Ok \<Rightarrow> wq_host r = co_host c \<and> wq_path r = ''/healthz''
   | Refused_Console status _ \<Rightarrow> status = 401 \<or> status = 403"
proof (cases "console_refusal c r")
  case None
  then have ok: "wq_host r = co_host c" "wq_header r ''Origin'' = [] \<or> wq_header r ''Origin'' = co_origin c"
    "guarded_path (wq_path r) \<Longrightarrow> wq_header r capability_header = co_capability c"
    by (auto simp: console_refusal_def split: if_splits)
  have "public_route (console_route_of r) \<or> guarded_path (wq_path r)"
  proof (cases "map_of console_routes (wq_path r)")
    case None
    have "has_prefix (wq_path r) ''/api/console/'' \<Longrightarrow> guarded_path (wq_path r)"
      by (auto simp: guarded_path_def has_prefix_iff)
    with None show ?thesis by (auto simp: console_route_of_def public_route_def)
  next
    case (Some route)
    then show ?thesis using routes_guarded by blast
  qed
  with None ok show ?thesis by (auto simp: secure_handler_def)
next
  case (Some x)
  then show ?thesis by (auto simp: secure_handler_def console_refusal_def split: if_splits)
qed

text \<open>A console listens on a loopback address only, with a capability of at least 32 bytes.\<close>

lemma new_console_loopback:
  assumes "new_console listen listener listenAddress random capability urlBuilder = Inr c"
  shows "32 \<le> length (co_capability c) \<and> (\<exists>bound. validate_loopback_address bound \<and>
    (listener = Some bound \<or> (\<exists>a. validate_loopback_address a \<and> listen a = Some bound)))"
  using assms by (auto simp: new_console_def Let_def split: if_splits option.splits sum.splits)

subsection \<open>The configuration snapshot\<close>

record config_snapshot =
  cs_config :: "bridge_config option"
  cs_refreshed :: timestamp
  cs_failed :: bool

definition default_refresh :: int where "default_refresh = 15 * second"
definition max_refresh :: int where "max_refresh = 300 * second"

definition refresh_interval :: "int \<Rightarrow> int" where
  "refresh_interval given = (let i = (if given \<le> 0 then default_refresh else given) in if max_refresh < i then max_refresh else i)"

text \<open>\<open>refreshConfig\<close>: a failed reload keeps the last good snapshot and marks it stale. Without a provider nothing is reloaded.\<close>

definition config_due :: "int \<Rightarrow> timestamp \<Rightarrow> config_snapshot \<Rightarrow> bool" where
  "config_due interval now cs \<longleftrightarrow> cs_config cs = None \<or> interval \<le> now - cs_refreshed cs"

definition usable_config :: "bridge_config option \<Rightarrow> bool" where
  "usable_config loaded = (case loaded of None \<Rightarrow> False | Some cfg \<Rightarrow> (case effective_context cfg of Inl _ \<Rightarrow> False | Inr _ \<Rightarrow> True))"

definition refresh_config :: "bool \<Rightarrow> int \<Rightarrow> bool \<Rightarrow> timestamp \<Rightarrow> bridge_config option \<Rightarrow> config_snapshot \<Rightarrow> config_snapshot" where
  "refresh_config provided interval force now loaded cs =
     (if \<not> provided \<or> \<not> force \<and> \<not> config_due interval now cs then cs
      else if usable_config loaded then \<lparr> cs_config = loaded, cs_refreshed = now, cs_failed = False \<rparr>
      else cs\<lparr> cs_refreshed := now, cs_failed := True \<rparr>)"

definition refresh_requested :: "web_request \<Rightarrow> bool" where
  "refresh_requested r \<longleftrightarrow> wq_query r ''refresh'' = ''1'' \<or> wq_query r ''refresh'' = ''true''"

text \<open>What loading the configuration gave, at each refresh.\<close>

type_synonym refresh = "bool \<times> timestamp \<times> bridge_config option"

definition refresh_run :: "int \<Rightarrow> refresh list \<Rightarrow> config_snapshot \<Rightarrow> config_snapshot" where
  "refresh_run interval rs cs = fold (\<lambda>(force, now, loaded). refresh_config True interval force now loaded) rs cs"

definition last_good :: "refresh list \<Rightarrow> bridge_config option \<Rightarrow> bridge_config option" where
  "last_good rs cfg = fold (\<lambda>(_, _, loaded) c. if usable_config loaded then loaded else c) rs cfg"

text \<open>
  A failing reload never takes the configuration away: with forced refreshes the snapshot is
  the last one that loaded and selects a context, and it is marked stale exactly when the
  last refresh failed.
\<close>

lemma refresh_keeps_last_good:
  assumes "\<forall>r \<in> set rs. fst r" and "rs \<noteq> []"
  shows "cs_config (refresh_run interval rs cs) = last_good rs (cs_config cs)"
    "cs_failed (refresh_run interval rs cs) \<longleftrightarrow> \<not> usable_config (snd (snd (last rs)))"
proof -
  have step: "cs_config (refresh_config True interval True now loaded cs) = (if usable_config loaded then loaded else cs_config cs)"
    "cs_failed (refresh_config True interval True now loaded cs) \<longleftrightarrow> \<not> usable_config loaded" for now loaded cs
    by (simp_all add: refresh_config_def)
  have "cs_config (refresh_run interval rs cs) = last_good rs (cs_config cs)" if "\<forall>r \<in> set rs. fst r" for rs
    using that by (induction rs rule: rev_induct) (auto simp: refresh_run_def last_good_def step)
  with assms(1) show "cs_config (refresh_run interval rs cs) = last_good rs (cs_config cs)" by blast
  from assms show "cs_failed (refresh_run interval rs cs) \<longleftrightarrow> \<not> usable_config (snd (snd (last rs)))"
    by (cases rs rule: rev_cases) (auto simp: refresh_run_def step)
qed

lemma served_config_usable:
  assumes "cs_config cs = None \<or> usable_config (cs_config cs)"
  shows "cs_config (refresh_run interval rs cs) = None \<or> usable_config (cs_config (refresh_run interval rs cs))"
  using assms by (induction rs rule: rev_induct) (auto simp: refresh_run_def refresh_config_def)

subsection \<open>Contexts\<close>

definition endpoint_state :: "string \<Rightarrow> string" where
  "endpoint_state raw = (if raw = [] then ''unconfigured'' else if validate_server_url raw then ''configured'' else ''invalid'')"

definition context_identity :: "string \<Rightarrow> string \<Rightarrow> string" where
  "context_identity raw label = (if endpoint_state raw = ''configured'' then label else [])"

record context_projection =
  cp_name :: string
  cp_server_identity :: string
  cp_mcp_identity :: string
  cp_server_state :: string
  cp_mcp_state :: string
  cp_current :: bool

definition project_context :: "string \<Rightarrow> bridge_context \<Rightarrow> bool \<Rightarrow> context_projection" where
  "project_context name ctx current =
     \<lparr> cp_name = name, cp_server_identity = context_identity (bc_server ctx) ''server'',
       cp_mcp_identity = context_identity (bc_mcp_server ctx) ''mcp-server'',
       cp_server_state = endpoint_state (bc_server ctx), cp_mcp_state = endpoint_state (bc_mcp_server ctx), cp_current = current \<rparr>"

datatype api_error = Api_Error int string string

definition only_get :: "web_request \<Rightarrow> api_error option" where
  "only_get r = (if wq_method r = ''GET'' then None else Some (Api_Error 405 ''method_not_allowed'' ''the console route is read-only''))"

definition config_unavailable :: api_error where
  "config_unavailable = Api_Error 503 ''config_unavailable'' ''configured contexts are temporarily unavailable''"

definition context_not_found :: api_error where
  "context_not_found = Api_Error 404 ''context_not_found'' ''the selected context is not configured''"

definition list_contexts :: "web_request \<Rightarrow> config_snapshot \<Rightarrow> api_error + context_projection list \<times> bool" where
  "list_contexts r cs = (case only_get r of Some e \<Rightarrow> Inl e | None \<Rightarrow> (case cs_config cs of
       None \<Rightarrow> Inl config_unavailable
     | Some cfg \<Rightarrow>
         let names = sort_strings (filter validate_context_name (remdups (map fst (bf_contexts cfg))));
             current = (case effective_context cfg of Inl _ \<Rightarrow> [] | Inr _ \<Rightarrow> bf_current cfg) in
         Inr (List.map_filter (\<lambda>name. case resolve_context (Some cfg) name of
             Inl _ \<Rightarrow> None | Inr ctx \<Rightarrow> Some (project_context name ctx (name = current))) names, cs_failed cs)))"

definition deployment :: "web_request \<Rightarrow> config_snapshot \<Rightarrow> api_error + context_projection \<times> bool" where
  "deployment r cs = (case only_get r of Some e \<Rightarrow> Inl e | None \<Rightarrow> (case cs_config cs of
       None \<Rightarrow> Inl config_unavailable
     | Some cfg \<Rightarrow> (case resolve_context (Some cfg) (wq_query r ''context'') of
         Inl _ \<Rightarrow> Inl context_not_found
       | Inr ctx \<Rightarrow> Inr (project_context (wq_query r ''context'') ctx (bf_current cfg = wq_query r ''context''), cs_failed cs))))"

text \<open>\<open>contextNameForRequest\<close>\<close>

definition context_for_request :: "web_request \<Rightarrow> config_snapshot \<Rightarrow> api_error + string \<times> bridge_context" where
  "context_for_request r cs = (case cs_config cs of
       None \<Rightarrow> Inl config_unavailable
     | Some cfg \<Rightarrow>
         let name = (if wq_query r ''context'' = [] then bf_current cfg else wq_query r ''context'') in
         (case resolve_context (Some cfg) name of Inl _ \<Rightarrow> Inl context_not_found | Inr ctx \<Rightarrow> Inr (name, ctx)))"

text \<open>Without a name the deployment is that of the current context, but reported without its name and as not current.\<close>

lemma default_deployment_not_current:
  assumes "cs_config cs = Some cfg" and "effective_context cfg = Inr ctx" and "wq_method r = ''GET''" and "wq_query r ''context'' = []"
  shows "deployment r cs = Inr (project_context [] ctx False, cs_failed cs)"
proof -
  have "bf_current cfg \<noteq> []" using assms(2) by (auto simp: effective_context_eq validate_context_name_def)
  with assms show ?thesis by (simp add: deployment_def only_get_def effective_context_def)
qed

end
