(* ===== verification/Console_Views.thy ===== *)
theory Console_Views
  imports Console_Guard Idp_Registry Plugin_Types
begin

text \<open>
  What the console shows of a deployment (internal/web/observability_api.go, plugin_api.go and
  safe_dto.go): one request to the deployment per view, and projections of its resources that
  leave out credentials and hosts.
\<close>

subsection \<open>Asking the deployment\<close>

definition max_log_response_bytes :: int where "max_log_response_bytes = 1048576"
definition max_metrics_bytes :: int where "max_metrics_bytes = 1048576"

text \<open>The request that a view sends, and how much of its answer is read.\<close>

definition upstream_request ::
  "string \<Rightarrow> (string \<Rightarrow> string) \<Rightarrow> bridge_context \<Rightarrow> upstream \<Rightarrow> string \<Rightarrow> multi_headers \<Rightarrow> client_error + client_request \<times> int" where
  "upstream_request tokenOverride getenv ctx t path headers = (case new_bridge_client tokenOverride getenv ctx of
       Inl e \<Rightarrow> Inl e
     | Inr c0 \<Rightarrow>
         let c1 = (if has_prefix path ''/api/logs/'' then c0\<lparr> bl_max := max_log_response_bytes \<rparr> else c0);
             c = (if path = ''/metrics'' then c1\<lparr> bl_max := max_metrics_bytes \<rparr> else c1)
         in (case client_request_for c t ''GET'' path headers of Inl e \<Rightarrow> Inl e | Inr rq \<Rightarrow> Inr (rq, bl_max c)))"

text \<open>
  What came of it: nothing, or a status with its body decoded, \<open>None\<close> when it does not decode.
  A view is its state with what it shows.
\<close>

datatype 'a upstream_answer = No_Answer | Answered int "'a option"

definition state_available :: string where "state_available = ''available''"
definition state_unavailable :: string where "state_unavailable = ''unavailable''"

definition upstream_state :: "int \<Rightarrow> string" where
  "upstream_state status = (if status = 401 \<or> status = 403 then ''unauthorized'' else state_unavailable)"

definition settle_view :: "'a upstream_answer \<Rightarrow> 'b \<Rightarrow> ('a \<Rightarrow> string \<times> 'b) \<Rightarrow> string \<times> 'b" where
  "settle_view answer nothing view = (case answer of
       No_Answer \<Rightarrow> (state_unavailable, nothing)
     | Answered status body \<Rightarrow>
         if status < 200 \<or> 300 \<le> status then (upstream_state status, nothing)
         else (case body of None \<Rightarrow> (state_unavailable, nothing) | Some x \<Rightarrow> view x))"

type_synonym 'a ask = "bridge_context \<Rightarrow> upstream \<Rightarrow> string \<Rightarrow> 'a upstream_answer"

definition console_view ::
  "'a ask \<Rightarrow> upstream \<Rightarrow> string \<Rightarrow> 'b \<Rightarrow> ('a \<Rightarrow> string \<times> 'b) \<Rightarrow> web_request \<Rightarrow> config_snapshot \<Rightarrow> api_error + string \<times> 'b" where
  "console_view ask t path nothing view r cs = (case only_get r of
       Some e \<Rightarrow> Inl e
     | None \<Rightarrow> (case context_for_request r cs of
         Inl e \<Rightarrow> Inl e
       | Inr (_, ctx) \<Rightarrow> Inr (settle_view (ask ctx t path) nothing view)))"

subsection \<open>Endpoints and schemas\<close>

definition safe_endpoint_path :: "string \<Rightarrow> string" where
  "safe_endpoint_path raw = (case url_parse raw of
       None \<Rightarrow> []
     | Some u \<Rightarrow> if u_path u = [] \<and> has_prefix raw ''/'' then takeWhile (\<lambda>c. c \<noteq> CHR ''?'') raw else u_path u)"

definition schema_type :: "jval option \<Rightarrow> string" where
  "schema_type schema = (case schema of
       None \<Rightarrow> []
     | Some (JObj ms) \<Rightarrow> (case map_of ms ''type'' of Some (JStr s) \<Rightarrow> s | _ \<Rightarrow> ''defined'')
     | Some _ \<Rightarrow> ''defined'')"

definition enum_label :: "jval \<Rightarrow> string" where
  "enum_label v = (case v of JStr s \<Rightarrow> s | _ \<Rightarrow> json_text v)"

subsection \<open>Projections\<close>

record input_field_projection =
  ip_name :: string
  ip_type :: string
  ip_description :: string
  ip_enum :: "string list"
  ip_required :: bool

record execution_projection =
  xp_type :: string
  xp_method :: string
  xp_endpoint_path :: string
  xp_response_path :: string
  xp_mapping :: "(string \<times> string) list"

record manifest_projection =
  mp_api_version :: string
  mp_kind :: string
  mp_description :: description
  mp_input_type :: string
  mp_input_fields :: "input_field_projection list"
  mp_output_type :: string
  mp_execution :: execution_projection
  mp_auth_type :: string
  mp_allowed_roles :: "string list"
  mp_routing :: "routing option"

record tool_projection =
  tp_name :: string
  tp_version :: string
  tp_module :: string
  tp_status :: string
  tp_active :: bool
  tp_description :: string
  tp_method :: string
  tp_endpoint_path :: string
  tp_response_path :: string
  tp_allowed_roles :: "string list"
  tp_cache :: "(bool \<times> int \<times> bool) option"
  tp_lifecycle :: "lifecycle option"
  tp_manifest :: manifest_projection

definition project_field :: "input_schema \<Rightarrow> string \<times> property \<Rightarrow> input_field_projection" where
  "project_field s np = (case np of (name, p) \<Rightarrow>
     \<lparr> ip_name = name, ip_type = pr_type p, ip_description = pr_description p, ip_enum = map enum_label (pr_enum p),
       ip_required = (name \<in> set (is_required s)) \<rparr>)"

definition project_execution :: "execution \<Rightarrow> execution_projection" where
  "project_execution x =
     \<lparr> xp_type = ex_type x, xp_method = to_upper (ex_method x), xp_endpoint_path = safe_endpoint_path (ex_endpoint x),
       xp_response_path = ex_response_path x, xp_mapping = ex_mapping x \<rparr>"

definition project_manifest :: "tool \<Rightarrow> manifest_projection" where
  "project_manifest t = (let s = tl_spec t; i = ts_input_schema s in
     \<lparr> mp_api_version = tl_api_version t, mp_kind = tl_kind t, mp_description = ts_description s, mp_input_type = is_type i,
       mp_input_fields = map (project_field i) (sort_members (is_properties i)), mp_output_type = schema_type (ts_output_schema s),
       mp_execution = project_execution (ts_execution s), mp_auth_type = se_auth_type (ts_security s),
       mp_allowed_roles = se_allowed_roles (ts_security s), mp_routing = ts_routing s \<rparr>)"

definition project_tool :: "tool \<Rightarrow> tool_projection" where
  "project_tool t = (let m = tl_metadata t; s = tl_spec t in
     \<lparr> tp_name = md_name m, tp_version = md_version m, tp_module = md_module m, tp_status = md_status m, tp_active = md_is_active m,
       tp_description = ds_short (ts_description s), tp_method = to_upper (ex_method (ts_execution s)),
       tp_endpoint_path = safe_endpoint_path (ex_endpoint (ts_execution s)), tp_response_path = ex_response_path (ts_execution s),
       tp_allowed_roles = se_allowed_roles (ts_security s),
       tp_cache = map_option (\<lambda>c. (cc_enabled c, cc_ttl_seconds c, cc_is_read_only c)) (ts_cache s),
       tp_lifecycle = ts_lifecycle s, tp_manifest = project_manifest t \<rparr>)"

record plugin_projection =
  pp_name :: string
  pp_version :: string
  pp_type :: string
  pp_active :: bool
  pp_endpoint_configured :: bool
  pp_timeout :: int
  pp_configured :: bool

definition project_plugin :: "plugin \<Rightarrow> plugin_projection" where
  "project_plugin p =
     \<lparr> pp_name = pm_name (pl_metadata p), pp_version = pm_version (pl_metadata p), pp_type = pm_type (pl_metadata p),
       pp_active = pm_is_active (pl_metadata p), pp_endpoint_configured = (trim_space (ps_endpoint (pl_spec p)) \<noteq> []),
       pp_timeout = ps_timeout_milliseconds (pl_spec p), pp_configured = (ps_auth (pl_spec p) \<noteq> None) \<rparr>"

record binding_projection =
  bp_name :: string
  bp_active :: bool
  bp_plugin_ref :: resource_ref
  bp_tool_ref :: resource_ref
  bp_phase :: string
  bp_priority :: int
  bp_failure_policy :: string
  bp_configured :: bool

definition project_binding :: "plugin_binding \<Rightarrow> binding_projection" where
  "project_binding b = (let s = pb_spec b in
     \<lparr> bp_name = bm_name (pb_metadata b), bp_active = bm_is_active (pb_metadata b), bp_plugin_ref = bs_plugin_ref s,
       bp_tool_ref = bs_tool_ref s, bp_phase = bs_phase s, bp_priority = bs_priority s, bp_failure_policy = bs_failure_policy s,
       bp_configured = (bs_config s \<noteq> []) \<rparr>)"

subsection \<open>Views\<close>

text \<open>Health: its state with the status that the deployment reports.\<close>

definition health_view :: "string ask \<Rightarrow> web_request \<Rightarrow> config_snapshot \<Rightarrow> api_error + string \<times> string" where
  "health_view ask = console_view ask Target_Mcp ''/mcp/health'' []
     (\<lambda>status. (if equal_fold status ''ok'' then ''healthy'' else ''degraded'', status))"

definition tools_view :: "tool list ask \<Rightarrow> web_request \<Rightarrow> config_snapshot \<Rightarrow> api_error + string \<times> tool_projection list" where
  "tools_view ask = console_view ask Target_Mcp ''/apis/erpbridge.io/v1/tools'' [] (\<lambda>ts. (state_available, map project_tool ts))"

record server_info_projection =
  si_version :: string
  si_commit :: string
  si_date :: string
  si_cache_backend :: string
  si_active_tools :: int

definition server_info_view ::
  "server_info_projection ask \<Rightarrow> web_request \<Rightarrow> config_snapshot \<Rightarrow> api_error + string \<times> server_info_projection option" where
  "server_info_view ask = console_view ask Target_Mcp ''/api/info'' None (\<lambda>i. (state_available, Some i))"

definition cache_view :: "(int \<times> string) ask \<Rightarrow> web_request \<Rightarrow> config_snapshot \<Rightarrow> api_error + string \<times> (int \<times> string) option" where
  "cache_view ask = console_view ask Target_Server ''/api/cache/stats'' None (\<lambda>(exact_keys, redis_memory). (state_available, Some (exact_keys, redis_memory)))"

definition plugins_view :: "plugin list ask \<Rightarrow> web_request \<Rightarrow> config_snapshot \<Rightarrow> api_error + string \<times> plugin_projection list" where
  "plugins_view ask = console_view ask Target_Mcp ''/apis/erpbridge.io/v1/plugins'' [] (\<lambda>ps. (state_available, map project_plugin ps))"

definition bindings_view :: "plugin_binding list ask \<Rightarrow> web_request \<Rightarrow> config_snapshot \<Rightarrow> api_error + string \<times> binding_projection list" where
  "bindings_view ask = console_view ask Target_Mcp ''/apis/erpbridge.io/v1/pluginbindings'' [] (\<lambda>bs. (state_available, map project_binding bs))"

subsection \<open>What is not shown\<close>

text \<open>The parts of a tool that only the server needs, replaced by any other.\<close>

definition with_secrets :: "tool \<Rightarrow> string \<Rightarrow> string \<Rightarrow> string \<Rightarrow> string \<Rightarrow> string list \<Rightarrow> (string \<times> property) list \<Rightarrow> tool" where
  "with_secrets t endpoint ref source header origins props = t\<lparr> tl_spec := (tl_spec t)\<lparr>
     ts_execution := (ts_execution (tl_spec t))\<lparr> ex_endpoint := endpoint, ex_approved_origins := origins \<rparr>,
     ts_security := (ts_security (tl_spec t))\<lparr> se_credential_ref := ref, se_credential_source := source, se_auth_header := header \<rparr>,
     ts_input_schema := (ts_input_schema (tl_spec t))\<lparr> is_properties := props \<rparr> \<rparr> \<rparr>"

definition without_default :: "string \<times> property \<Rightarrow> string \<times> property" where
  "without_default np = (case np of (n, MkProperty a ty d e _ ps i rq) \<Rightarrow> (n, MkProperty JNull ty d e JNull [] None []))"

lemma safe_endpoint_path_same:
  assumes "url_parse a = Some u" "url_parse b = Some v" "u_path u = u_path v" "u_path u \<noteq> []"
  shows "safe_endpoint_path a = safe_endpoint_path b"
  using assms by (simp add: safe_endpoint_path_def)

lemma project_fields_same:
  assumes "map without_default ps = map without_default qs" and "is_required i = is_required j"
  shows "map (project_field i) (sort_members ps) = map (project_field j) (sort_members qs)"
proof -
  have field: "project_field i np = project_field j (without_default np)" for np
    using assms(2) by (cases np, cases "snd np") (simp add: project_field_def without_default_def)
  have field': "project_field j np = project_field j (without_default np)" for np
    by (cases np, cases "snd np") (simp add: project_field_def without_default_def)
  have key: "fst (without_default np) = fst np" for np :: "string \<times> property"
    by (cases np, cases "snd np") (simp add: without_default_def)
  have once: "map without_default (insort_key fst x xs) = insort_key fst (without_default x) (map without_default xs)" for x xs
    by (induction xs) (simp_all add: key)
  have sorted: "map without_default (sort_members xs) = sort_members (map without_default xs)" for xs
    by (induction xs) (simp_all add: sort_members_def sort_key_def once)
  have "map (project_field i) xs = map (project_field j) (map without_default xs)" "map (project_field j) xs = map (project_field j) (map without_default xs)" for xs
    unfolding map_map comp_def by (rule map_cong [OF refl], rule field) (rule map_cong [OF refl], rule field')
  with sorted assms(1) show ?thesis by metis
qed

theorem console_tool_hides:
  assumes "url_parse (ex_endpoint (ts_execution (tl_spec t))) = Some u" and "url_parse endpoint = Some v"
    and "u_path u = u_path v" and "u_path u \<noteq> []"
    and "map without_default props = map without_default (is_properties (ts_input_schema (tl_spec t)))"
  shows "project_tool (with_secrets t endpoint ref source header origins props) = project_tool t"
proof -
  have "safe_endpoint_path endpoint = safe_endpoint_path (ex_endpoint (ts_execution (tl_spec t)))"
    using assms(1-4) by (simp add: safe_endpoint_path_def)
  moreover have "map (project_field (ts_input_schema (tl_spec (with_secrets t endpoint ref source header origins props)))) (sort_members props) =
      map (project_field (ts_input_schema (tl_spec t))) (sort_members (is_properties (ts_input_schema (tl_spec t))))"
    by (rule project_fields_same [OF assms(5)]) (simp add: with_secrets_def)
  ultimately show ?thesis by (simp add: project_tool_def project_manifest_def project_execution_def with_secrets_def Let_def)
qed

text \<open>A network-path reference without a path is shown whole, with its host and user.\<close>

lemma network_reference_shown:
  "safe_endpoint_path ''//user:secret@erp'' = ''//user:secret@erp''"
  by code_simp

end
