(* ===== verification/Console_Topology.thy ===== *)
theory Console_Topology
  imports Console_Views
begin

text \<open>
  The graph of a deployment in the console (internal/web/topology.go): the tools that the
  deployment publishes, the registered ERP APIs they reach, their endpoints, and the plugins
  bound to them. The graph is bounded and closed: an edge joins two nodes of the graph.
\<close>

subsection \<open>References\<close>

text \<open>
  \<open>ResolveReference\<close> of the URL library. The segments of a path are joined again without the
  dots, starting with one slash more than needed.
\<close>

definition resolve_segment :: "string \<Rightarrow> string \<times> bool \<Rightarrow> string \<times> bool" where
  "resolve_segment elem st = (case st of (dst, first) \<Rightarrow>
     if elem = ''.'' then (dst, False)
     else if elem = ''..'' then (case cut_last (CHR ''/'') (tl dst) of
         None \<Rightarrow> (''/'', True)
       | Some (before, _) \<Rightarrow> (''/'' @ before, first))
     else (dst @ (if first then [] else ''/'') @ elem, False))"

definition resolve_path :: "string \<Rightarrow> string \<Rightarrow> string" where
  "resolve_path base ref =
     (let full = (if ref = [] then base
                  else if hd ref \<noteq> CHR ''/'' then (case cut_last (CHR ''/'') base of None \<Rightarrow> ref | Some (before, _) \<Rightarrow> before @ ''/'' @ ref)
                  else ref)
      in if full = [] then []
         else
           let elems = split_at_char (CHR ''/'') full;
               dst0 = fst (fold resolve_segment elems (''/'', True));
               dst = (if last elems = ''.'' \<or> last elems = ''..'' then dst0 @ ''/'' else dst0)
           in if has_prefix (drop 1 dst) ''/'' then tl dst else dst)"

definition set_resolved :: "string \<Rightarrow> url \<Rightarrow> url" where
  "set_resolved p u = (case set_path p u of None \<Rightarrow> u | Some v \<Rightarrow> v)"

definition resolve_reference :: "url \<Rightarrow> url \<Rightarrow> url" where
  "resolve_reference base ref =
     (let u = (if u_scheme ref = [] then ref\<lparr> u_scheme := u_scheme base \<rparr> else ref) in
      if u_scheme ref \<noteq> [] \<or> u_host ref \<noteq> [] \<or> u_user ref \<noteq> None then set_resolved (resolve_path (escaped_path ref) []) u
      else if u_opaque ref \<noteq> [] then u\<lparr> u_user := None, u_host := [], u_path := [] \<rparr>
      else
        let u = (if u_path ref = [] \<and> \<not> u_force_query ref \<and> u_raw_query ref = []
                 then u\<lparr> u_raw_query := u_raw_query base, u_fragment := (if u_fragment ref = [] then u_fragment base else u_fragment ref) \<rparr>
                 else u) in
        if u_path ref = [] \<and> u_opaque base \<noteq> [] then u\<lparr> u_opaque := u_opaque base, u_user := None, u_host := [], u_path := [] \<rparr>
        else set_resolved (resolve_path (escaped_path base) (escaped_path ref)) (u\<lparr> u_host := u_host base, u_user := u_user base \<rparr>))"

lemma resolve_path_examples:
  "resolve_path ''/a/b'' ''c'' = ''/a/c''" "resolve_path ''/a/b/'' ''../c'' = ''/a/c''" "resolve_path ''/a'' ''/x/./y/..'' = ''/x/''"
  "resolve_path ''/a'' ''/../../x'' = ''/x''" "resolve_path [] ''x'' = ''/x''"
  by code_simp+

subsection \<open>Matching a tool with an API\<close>

record normalized_endpoint =
  ne_method :: string
  ne_host :: string
  ne_path :: string

definition default_port :: "string \<Rightarrow> string \<Rightarrow> string" where
  "default_port scheme port = (if port \<noteq> [] then port else if scheme = ''https'' then ''443'' else if scheme = ''http'' then ''80'' else [])"

definition normalize_endpoint :: "string \<Rightarrow> string \<Rightarrow> string \<Rightarrow> normalized_endpoint" where
  "normalize_endpoint verb raw base = (case url_parse raw of
       None \<Rightarrow> \<lparr> ne_method = [], ne_host = [], ne_path = [] \<rparr>
     | Some p \<Rightarrow>
         let u = (if \<not> url_is_abs p \<and> base \<noteq> [] then (case url_parse base of None \<Rightarrow> p | Some b \<Rightarrow> resolve_reference b p) else p);
             port = default_port (u_scheme u) (url_port u);
             path = trim_right_slash (u_path u)
         in \<lparr> ne_method = to_upper verb, ne_host = to_lower (url_hostname u) @ (if port \<noteq> [] then '':'' @ port else []),
              ne_path = (if path = [] then ''/'' else path) \<rparr>)"

definition normalized_api :: "string \<Rightarrow> api \<Rightarrow> normalized_endpoint" where
  "normalized_api base a = normalize_endpoint (ap_method a) (ap_url a) base"

datatype match_kind = Match_Exact | Match_Base_Prefix | Match_Ambiguous | Match_Unresolved

datatype diagnostic =
    No_Diagnostic
  | Missing_Endpoint
  | Empty_Registry
  | Host_Mismatch
  | Method_Mismatch
  | No_Candidate
  | Ambiguous_Endpoint

definition match_text :: "match_kind \<Rightarrow> string" where
  "match_text k = (case k of Match_Exact \<Rightarrow> ''exact'' | Match_Base_Prefix \<Rightarrow> ''base-prefix'' | Match_Ambiguous \<Rightarrow> ''ambiguous'' | Match_Unresolved \<Rightarrow> ''unresolved'')"

definition diagnostic_text :: "diagnostic \<Rightarrow> string" where
  "diagnostic_text d = (case d of
       No_Diagnostic \<Rightarrow> []
     | Missing_Endpoint \<Rightarrow> ''The tool has no endpoint.''
     | Empty_Registry \<Rightarrow> ''No ERP APIs are registered.''
     | Host_Mismatch \<Rightarrow> ''No registered ERP API matches the endpoint host.''
     | Method_Mismatch \<Rightarrow> ''Registered ERP APIs use a different method.''
     | No_Candidate \<Rightarrow> ''No registered ERP API matches this endpoint.''
     | Ambiguous_Endpoint \<Rightarrow> ''More than one registered ERP API matches this endpoint.'')"

text \<open>The APIs found so far: exact matches, matches by prefix, and whether a host and a method matched.\<close>

record match_scan =
  mt_exact :: "api list"
  mt_prefix :: "api list"
  mt_host :: bool
  mt_method :: bool

definition scan_api :: "string \<Rightarrow> normalized_endpoint \<Rightarrow> api \<Rightarrow> match_scan \<Rightarrow> match_scan" where
  "scan_api base target a m = (let c = normalized_api base a in
     if ne_host c \<noteq> ne_host target then m
     else
       let m = m\<lparr> mt_host := True \<rparr> in
       if ne_method c \<noteq> ne_method target
       then (if ne_path c = ''/'' \<and> ne_path target \<noteq> ''/'' then m\<lparr> mt_prefix := mt_prefix m @ [a] \<rparr> else m)
       else
         let m = m\<lparr> mt_method := True \<rparr> in
         if ne_path c = ne_path target then m\<lparr> mt_exact := mt_exact m @ [a] \<rparr>
         else if has_prefix (ne_path target) (trim_right_slash (ne_path c) @ ''/'') then m\<lparr> mt_prefix := mt_prefix m @ [a] \<rparr>
         else m)"

definition scan_apis :: "string \<Rightarrow> normalized_endpoint \<Rightarrow> api list \<Rightarrow> match_scan" where
  "scan_apis base target apis = fold (scan_api base target) apis \<lparr> mt_exact = [], mt_prefix = [], mt_host = False, mt_method = False \<rparr>"

definition match_outcome :: "match_scan \<Rightarrow> match_kind \<times> api option \<times> diagnostic" where
  "match_outcome m =
     (case mt_exact m of
        [a] \<Rightarrow> (Match_Exact, Some a, No_Diagnostic)
      | _ \<Rightarrow>
          if 1 < length (mt_exact m) \<or> 1 < length (mt_prefix m) then (Match_Ambiguous, None, Ambiguous_Endpoint)
          else (case mt_prefix m of
              [a] \<Rightarrow> (Match_Base_Prefix, Some a, No_Diagnostic)
            | _ \<Rightarrow> if \<not> mt_host m then (Match_Unresolved, None, Host_Mismatch)
                   else if \<not> mt_method m then (Match_Unresolved, None, Method_Mismatch)
                   else (Match_Unresolved, None, No_Candidate)))"

definition tool_target :: "tool \<Rightarrow> string \<Rightarrow> normalized_endpoint" where
  "tool_target t base = normalize_endpoint (ex_method (ts_execution (tl_spec t))) (ex_endpoint (ts_execution (tl_spec t))) base"

definition match_api :: "tool \<Rightarrow> api list \<Rightarrow> string \<Rightarrow> match_kind \<times> api option \<times> diagnostic" where
  "match_api t apis base =
     (if trim_space (ex_endpoint (ts_execution (tl_spec t))) = [] then (Match_Unresolved, None, Missing_Endpoint)
      else if apis = [] then (Match_Unresolved, None, Empty_Registry)
      else if ne_path (tool_target t base) = [] then (Match_Unresolved, None, Missing_Endpoint)
      else match_outcome (scan_apis base (tool_target t base) apis))"

definition api_context_state :: "string \<Rightarrow> string \<Rightarrow> string" where
  "api_context_state apiURL erpBase =
     (if erpBase = [] then ''unassigned''
      else
        let a = normalize_endpoint ''GET'' apiURL []; b = normalize_endpoint ''GET'' erpBase [] in
        if ne_host a \<noteq> [] \<and> ne_host a = ne_host b then ''context matched'' else ''unassigned'')"

subsection \<open>The graph\<close>

datatype node_detail =
    No_Detail
  | Tool_Detail tool_projection
  | Api_Detail string string string string string
  | Endpoint_Detail string string
  | Plugin_Detail plugin_projection
  | Binding_Detail binding_projection

record topology_node =
  tn_id :: string
  tn_kind :: string
  tn_label :: string
  tn_reason :: diagnostic
  tn_state :: string
  tn_detail :: node_detail

record topology_edge =
  te_id :: string
  te_source :: string
  te_target :: string
  te_match :: match_kind
  te_reason :: diagnostic
  te_state :: string
  te_authoritative :: bool

definition max_topology_nodes :: nat where "max_topology_nodes = 500"
definition max_topology_edges :: nat where "max_topology_edges = 1000"

definition stable_id :: "string \<Rightarrow> string \<Rightarrow> string" where
  "stable_id main fallback = map (\<lambda>c. if c = CHR ''/'' \<or> c = CHR '' '' \<or> c = CHR ''@'' then CHR ''_'' else c) (if main = [] then fallback else main)"

definition resource_identity :: "string \<Rightarrow> string \<Rightarrow> string" where
  "resource_identity name version = name @ ''@'' @ version"

definition topology_endpoint_key :: "api \<Rightarrow> string \<Rightarrow> string \<Rightarrow> string" where
  "topology_endpoint_key a verb path = (if ap_id a = [] then ap_name a else ap_id a) @ ''|'' @ to_upper verb @ ''|'' @ path"

text \<open>The graph under construction, with the identifiers given to tools, endpoints, plugins and bindings.\<close>

record topology_build =
  tb_nodes :: "topology_node list"
  tb_edges :: "topology_edge list"
  tb_tools :: "(string \<times> string) list"
  tb_endpoints :: "(string \<times> string) list"
  tb_plugins :: "(string \<times> string) list"
  tb_bindings :: "(string \<times> string) list"

definition nodes_full :: "topology_build \<Rightarrow> bool" where
  "nodes_full b \<longleftrightarrow> max_topology_nodes \<le> length (tb_nodes b)"

definition push_node :: "topology_node \<Rightarrow> topology_build \<Rightarrow> topology_build" where
  "push_node n b = b\<lparr> tb_nodes := tb_nodes b @ [n] \<rparr>"

definition add_node :: "topology_node \<Rightarrow> topology_build \<Rightarrow> topology_build" where
  "add_node n b = (if nodes_full b then b else push_node n b)"

definition add_edge :: "topology_edge \<Rightarrow> topology_build \<Rightarrow> topology_build" where
  "add_edge e b = (if length (tb_edges b) < max_topology_edges then b\<lparr> tb_edges := tb_edges b @ [e] \<rparr> else b)"

definition edge_between :: "string \<Rightarrow> string \<Rightarrow> match_kind \<Rightarrow> diagnostic \<Rightarrow> string \<Rightarrow> topology_edge" where
  "edge_between source target kind reason state =
     \<lparr> te_id = ''edge:'' @ source @ '':'' @ target, te_source = source, te_target = target, te_match = kind, te_reason = reason,
       te_state = state, te_authoritative = (kind = Match_Exact) \<rparr>"

definition transport_id :: "string \<Rightarrow> string" where "transport_id name = ''transport:'' @ name"
definition api_node_id :: "api \<Rightarrow> string" where "api_node_id a = ''api:'' @ stable_id (ap_id a) (ap_name a)"

definition tool_node_id :: "tool \<Rightarrow> string" where
  "tool_node_id t = ''tool:'' @ stable_id (md_name (tl_metadata t)) (md_version (tl_metadata t))"

definition drawn_tool_identity :: "tool \<Rightarrow> string" where
  "drawn_tool_identity t = resource_identity (md_name (tl_metadata t)) (md_version (tl_metadata t))"

definition api_node :: "string \<Rightarrow> api \<Rightarrow> topology_node" where
  "api_node base a =
     \<lparr> tn_id = api_node_id a, tn_kind = ''erp-api'', tn_label = ap_name a, tn_reason = No_Diagnostic,
       tn_state = api_context_state (ap_url a) base,
       tn_detail = Api_Detail (ap_name a) (ap_module a) (to_upper (ap_method a)) (safe_endpoint_path (ap_url a)) (ap_status a) \<rparr>"

text \<open>Each loop stops at the first resource that finds the nodes full.\<close>

fun add_apis :: "string \<Rightarrow> api list \<Rightarrow> topology_build \<Rightarrow> topology_build" where
  "add_apis base [] b = b"
| "add_apis base (a # as) b = (if nodes_full b then b else add_apis base as (push_node (api_node base a) b))"

definition endpoint_key_of :: "tool \<Rightarrow> api \<Rightarrow> string" where
  "endpoint_key_of t a = topology_endpoint_key a (to_upper (ex_method (ts_execution (tl_spec t)))) (safe_endpoint_path (ex_endpoint (ts_execution (tl_spec t))))"

text \<open>The API of a matched tool and its endpoint, which tools may share.\<close>

definition add_matched :: "string \<Rightarrow> tool \<Rightarrow> match_kind \<Rightarrow> api \<Rightarrow> topology_build \<Rightarrow> topology_build" where
  "add_matched base t kind a b =
     (let p = project_tool t; toolID = tool_node_id t; apiID = api_node_id a; state = api_context_state (ap_url a) base;
          b = add_edge (edge_between toolID apiID kind No_Diagnostic state) b;
          key = endpoint_key_of t a
      in if key \<in> fst ` set (tb_endpoints b) then b
         else
           let endpointID = ''endpoint:'' @ stable_id key (tp_endpoint_path p);
               b = b\<lparr> tb_endpoints := amap_put key endpointID (tb_endpoints b) \<rparr>;
               b = add_node \<lparr> tn_id = endpointID, tn_kind = ''erp-endpoint'', tn_label = tp_endpoint_path p, tn_reason = No_Diagnostic,
                     tn_state = state, tn_detail = Endpoint_Detail (tp_method p) (tp_endpoint_path p) \<rparr> b
           in add_edge (edge_between apiID endpointID kind No_Diagnostic state) b)"

definition add_unmatched :: "tool \<Rightarrow> match_kind \<Rightarrow> diagnostic \<Rightarrow> topology_build \<Rightarrow> topology_build" where
  "add_unmatched t kind reason b =
     (let id = stable_id (md_name (tl_metadata t)) (md_version (tl_metadata t));
          endpointID = (if kind = Match_Ambiguous then ''ambiguous:'' @ id else ''unresolved:'' @ id);
          b = add_node \<lparr> tn_id = endpointID, tn_kind = (if kind = Match_Ambiguous then ''ambiguous-endpoint'' else ''unresolved-endpoint''),
                tn_label = tp_endpoint_path (project_tool t), tn_reason = reason, tn_state = [], tn_detail = No_Detail \<rparr> b
      in add_edge (edge_between (tool_node_id t) endpointID kind reason []) b)"

definition add_tool :: "string \<Rightarrow> string \<Rightarrow> api list \<Rightarrow> tool \<Rightarrow> topology_build \<Rightarrow> topology_build" where
  "add_tool name base apis t b =
     (let toolID = tool_node_id t;
          b = b\<lparr> tb_tools := amap_put (drawn_tool_identity t) toolID (tb_tools b) \<rparr>;
          b = push_node \<lparr> tn_id = toolID, tn_kind = ''mcp-tool'', tn_label = md_name (tl_metadata t), tn_reason = No_Diagnostic, tn_state = [],
                tn_detail = Tool_Detail (project_tool t) \<rparr> b;
          b = add_edge (edge_between (transport_id name) toolID Match_Exact No_Diagnostic []) b
      in (case match_api t apis base of
            (kind, Some a, _) \<Rightarrow> add_matched base t kind a b
          | (kind, None, reason) \<Rightarrow> add_unmatched t kind reason b))"

fun add_tools :: "string \<Rightarrow> string \<Rightarrow> api list \<Rightarrow> tool list \<Rightarrow> topology_build \<Rightarrow> topology_build" where
  "add_tools name base apis [] b = b"
| "add_tools name base apis (t # ts) b = (if nodes_full b then b else add_tools name base apis ts (add_tool name base apis t b))"

definition plugin_identity :: "plugin \<Rightarrow> string" where
  "plugin_identity p = resource_identity (pm_name (pl_metadata p)) (pm_version (pl_metadata p))"

definition add_plugin :: "plugin \<Rightarrow> topology_build \<Rightarrow> topology_build" where
  "add_plugin p b = (let id = ''plugin:'' @ stable_id (pm_name (pl_metadata p)) (pm_version (pl_metadata p)) in
     push_node \<lparr> tn_id = id, tn_kind = ''external-plugin'', tn_label = pm_name (pl_metadata p), tn_reason = No_Diagnostic, tn_state = [],
         tn_detail = Plugin_Detail (project_plugin p) \<rparr> (b\<lparr> tb_plugins := amap_put (plugin_identity p) id (tb_plugins b) \<rparr>))"

fun add_plugins :: "plugin list \<Rightarrow> topology_build \<Rightarrow> topology_build" where
  "add_plugins [] b = b"
| "add_plugins (p # ps) b = (if nodes_full b then b else add_plugins ps (add_plugin p b))"

definition binding_name :: "plugin_binding \<Rightarrow> string" where "binding_name x = bm_name (pb_metadata x)"

definition add_binding :: "plugin_binding \<Rightarrow> topology_build \<Rightarrow> topology_build" where
  "add_binding x b = (let id = ''binding:'' @ stable_id (binding_name x) (binding_name x) in
     push_node \<lparr> tn_id = id, tn_kind = ''plugin-binding'', tn_label = binding_name x, tn_reason = No_Diagnostic, tn_state = [],
         tn_detail = Binding_Detail (project_binding x) \<rparr> (b\<lparr> tb_bindings := amap_put (binding_name x) id (tb_bindings b) \<rparr>))"

fun add_bindings :: "plugin_binding list \<Rightarrow> topology_build \<Rightarrow> topology_build" where
  "add_bindings [] b = b"
| "add_bindings (x # xs) b = (if nodes_full b then b else add_bindings xs (add_binding x b))"

definition ref_identity :: "resource_ref \<Rightarrow> string" where "ref_identity r = resource_identity (rf_name r) (rf_version r)"

definition connect_binding :: "plugin_binding \<Rightarrow> topology_build \<Rightarrow> topology_build" where
  "connect_binding x b = (case map_of (tb_bindings b) (binding_name x) of
       None \<Rightarrow> b
     | Some bindingID \<Rightarrow>
         let b = (case map_of (tb_tools b) (ref_identity (bs_tool_ref (pb_spec x))) of
               None \<Rightarrow> b | Some toolID \<Rightarrow> add_edge (edge_between toolID bindingID Match_Exact No_Diagnostic []) b)
         in (case map_of (tb_plugins b) (ref_identity (bs_plugin_ref (pb_spec x))) of
               None \<Rightarrow> b | Some pluginID \<Rightarrow> add_edge (edge_between bindingID pluginID Match_Exact No_Diagnostic []) b))"

text \<open>The resources that may be drawn, and how many nodes and edges that would take.\<close>

type_synonym plugin_resources = "(plugin list \<times> plugin_binding list) option"

definition endpoint_keys :: "tool list \<Rightarrow> api list \<Rightarrow> string \<Rightarrow> string set" where
  "endpoint_keys ts apis base = set (concat (map (\<lambda>t. case match_api t apis base of (_, Some a, _) \<Rightarrow> [endpoint_key_of t a] | _ \<Rightarrow> []) ts))"

definition unmatched_tools :: "tool list \<Rightarrow> api list \<Rightarrow> string \<Rightarrow> tool list" where
  "unmatched_tools ts apis base = filter (\<lambda>t. fst (snd (match_api t apis base)) = None) ts"

definition connected_bindings :: "tool list \<Rightarrow> plugin list \<Rightarrow> plugin_binding list \<Rightarrow> plugin_binding list" where
  "connected_bindings ts ps xs = filter (\<lambda>x. ref_identity (bs_tool_ref (pb_spec x)) \<in> drawn_tool_identity ` set ts \<and>
     ref_identity (bs_plugin_ref (pb_spec x)) \<in> plugin_identity ` set ps) xs"

definition topology_candidate_counts :: "tool list \<Rightarrow> api list \<Rightarrow> plugin_resources \<Rightarrow> string \<Rightarrow> nat \<times> nat" where
  "topology_candidate_counts ts apis res base =
     (let nodes = 1 + length apis + length ts + length (unmatched_tools ts apis base) + card (endpoint_keys ts apis base);
          edges = length ts * 2 + card (endpoint_keys ts apis base)
      in (case res of
            None \<Rightarrow> (nodes, edges)
          | Some (ps, xs) \<Rightarrow> (nodes + length ps + length xs, edges + 2 * length (connected_bindings ts ps xs))))"

definition transport_node :: "string \<Rightarrow> topology_node" where
  "transport_node name = \<lparr> tn_id = transport_id name, tn_kind = ''mcp-transport'', tn_label = ''MCP transport'', tn_reason = No_Diagnostic,
     tn_state = [], tn_detail = No_Detail \<rparr>"

definition draw_resources :: "string \<Rightarrow> string \<Rightarrow> tool list \<Rightarrow> api list \<Rightarrow> plugin_resources \<Rightarrow> topology_build" where
  "draw_resources name base ts apis res =
     (let b = add_tools name base apis ts (add_apis base apis
                \<lparr> tb_nodes = [transport_node name], tb_edges = [], tb_tools = [], tb_endpoints = [], tb_plugins = [], tb_bindings = [] \<rparr>)
      in (case res of None \<Rightarrow> b | Some (ps, xs) \<Rightarrow> fold connect_binding xs (add_bindings xs (add_plugins ps b))))"

record topology_graph =
  tg_nodes :: "topology_node list"
  tg_edges :: "topology_edge list"
  tg_omitted :: "(nat \<times> nat) option"

definition edge_closed :: "topology_node list \<Rightarrow> topology_edge \<Rightarrow> bool" where
  "edge_closed ns e \<longleftrightarrow> te_source e \<in> tn_id ` set ns \<and> te_target e \<in> tn_id ` set ns"

definition topology_graph_of :: "string \<Rightarrow> string \<Rightarrow> tool list \<Rightarrow> api list \<Rightarrow> plugin_resources \<Rightarrow> topology_graph" where
  "topology_graph_of name base ts registered res =
     (let apis = sort_key ap_name registered;
          (cn, ce) = topology_candidate_counts ts apis res base;
          b = draw_resources name base ts apis res;
          edges = filter (edge_closed (tb_nodes b)) (tb_edges b);
          n = length (tb_nodes b); e = length edges
      in \<lparr> tg_nodes = tb_nodes b, tg_edges = edges,
           tg_omitted = (if n < cn \<or> e < ce then Some (cn - n, ce - e) else None) \<rparr>)"

text \<open>The handler: the plugins count only when both of their lists were read.\<close>

definition fetched :: "'a upstream_answer \<Rightarrow> 'a option" where
  "fetched answer = (case answer of Answered status (Some x) \<Rightarrow> if status < 200 \<or> 300 \<le> status then None else Some x | _ \<Rightarrow> None)"

definition fetch_plugin_resources :: "plugin list ask \<Rightarrow> plugin_binding list ask \<Rightarrow> bridge_context \<Rightarrow> plugin_resources" where
  "fetch_plugin_resources ask_plugins ask_bindings ctx =
     (case fetched (ask_plugins ctx Target_Mcp ''/apis/erpbridge.io/v1/plugins'') of
        None \<Rightarrow> None
      | Some ps \<Rightarrow> (case fetched (ask_bindings ctx Target_Mcp ''/apis/erpbridge.io/v1/pluginbindings'') of
          None \<Rightarrow> None
        | Some xs \<Rightarrow> Some (ps, xs)))"

definition empty_graph :: topology_graph where
  "empty_graph = \<lparr> tg_nodes = [], tg_edges = [], tg_omitted = None \<rparr>"

definition topology_view ::
  "tool list ask \<Rightarrow> plugin list ask \<Rightarrow> plugin_binding list ask \<Rightarrow> (string \<Rightarrow> idp_registry option) \<Rightarrow>
     web_request \<Rightarrow> config_snapshot \<Rightarrow> api_error + string \<times> topology_graph" where
  "topology_view ask_tools ask_plugins ask_bindings registry r cs = (case only_get r of
       Some e \<Rightarrow> Inl e
     | None \<Rightarrow> (case context_for_request r cs of
         Inl e \<Rightarrow> Inl e
       | Inr (name, ctx) \<Rightarrow> Inr (settle_view (ask_tools ctx Target_Mcp ''/apis/erpbridge.io/v1/tools'') empty_graph
           (\<lambda>ts. let res = fetch_plugin_resources ask_plugins ask_bindings ctx in
             (case registry name of
                None \<Rightarrow> (state_unavailable, empty_graph)
              | Some reg \<Rightarrow> (state_available, topology_graph_of name (bc_erp_base ctx) ts (registry_list reg) res))))))"

text \<open>\<open>registryForContext\<close>: the registry given for tests serves the current context only.\<close>

definition registry_for_context ::
  "(string \<Rightarrow> idp_registry option) option \<Rightarrow> idp_registry option \<Rightarrow> config_snapshot \<Rightarrow> (string \<Rightarrow> idp_registry option) \<Rightarrow> string \<Rightarrow> idp_registry option" where
  "registry_for_context provider given cs load name = (case provider of
       Some f \<Rightarrow> f name
     | None \<Rightarrow> (case (given, cs_config cs) of
         (Some reg, Some cfg) \<Rightarrow> if bf_current cfg = name then Some reg else load name
       | _ \<Rightarrow> load name))"

subsection \<open>The graph is bounded\<close>

lemma add_edge_keeps [simp]:
  "tb_nodes (add_edge e b) = tb_nodes b" "tb_endpoints (add_edge e b) = tb_endpoints b" "tb_tools (add_edge e b) = tb_tools b"
  "tb_plugins (add_edge e b) = tb_plugins b" "tb_bindings (add_edge e b) = tb_bindings b"
  by (simp_all add: add_edge_def)

lemma add_node_keeps [simp]:
  "tb_edges (add_node n b) = tb_edges b" "tb_endpoints (add_node n b) = tb_endpoints b" "tb_edges (push_node n b) = tb_edges b"
  "tb_endpoints (push_node n b) = tb_endpoints b"
  by (simp_all add: add_node_def push_node_def)

lemma push_node_count [simp]: "length (tb_nodes (push_node n b)) = Suc (length (tb_nodes b))"
  by (simp add: push_node_def)

lemma add_node_count: "length (tb_nodes b) \<le> max_topology_nodes \<Longrightarrow>
    length (tb_nodes (add_node n b)) = min max_topology_nodes (Suc (length (tb_nodes b)))"
  by (simp add: add_node_def nodes_full_def)

text \<open>Edges: their number, and that exactly the exact matches are authoritative.\<close>

definition edges_ok :: "topology_build \<Rightarrow> bool" where
  "edges_ok b \<longleftrightarrow> length (tb_edges b) \<le> max_topology_edges \<and> list_all (\<lambda>e. te_authoritative e = (te_match e = Match_Exact)) (tb_edges b)"

lemma edges_ok_add_edge [simp]: "edges_ok b \<Longrightarrow> edges_ok (add_edge (edge_between x y k d st) b)"
  by (simp add: edges_ok_def add_edge_def edge_between_def)

lemma edges_ok_keeps [simp]: "edges_ok (push_node n b) = edges_ok b" "edges_ok (add_node n b) = edges_ok b"
  "edges_ok (b\<lparr> tb_tools := m \<rparr>) = edges_ok b" "edges_ok (b\<lparr> tb_endpoints := m \<rparr>) = edges_ok b"
  "edges_ok (b\<lparr> tb_plugins := m \<rparr>) = edges_ok b" "edges_ok (b\<lparr> tb_bindings := m \<rparr>) = edges_ok b"
  by (simp_all add: edges_ok_def)

lemma edges_ok_apis: "edges_ok b \<Longrightarrow> edges_ok (add_apis base as b)"
  by (induction as arbitrary: b) simp_all

lemma edges_ok_tool: "edges_ok b \<Longrightarrow> edges_ok (add_tool name base apis t b)"
  by (simp add: add_tool_def add_matched_def add_unmatched_def Let_def split: prod.split option.split)

lemma edges_ok_tools: "edges_ok b \<Longrightarrow> edges_ok (add_tools name base apis ts b)"
  by (induction ts arbitrary: b) (simp_all add: edges_ok_tool)

lemma edges_ok_plugins: "edges_ok b \<Longrightarrow> edges_ok (add_plugins ps b)"
  by (induction ps arbitrary: b) (simp_all add: add_plugin_def Let_def)

lemma edges_ok_bindings: "edges_ok b \<Longrightarrow> edges_ok (add_bindings xs b)"
  by (induction xs arbitrary: b) (simp_all add: add_binding_def Let_def)

lemma edges_ok_connect: "edges_ok b \<Longrightarrow> edges_ok (fold connect_binding xs b)"
  by (induction xs arbitrary: b) (simp_all add: connect_binding_def Let_def split: option.split)

lemma edges_ok_draw: "edges_ok (draw_resources name base ts apis res)"
proof -
  let ?start = "\<lparr> tb_nodes = [transport_node name], tb_edges = [], tb_tools = [], tb_endpoints = [], tb_plugins = [], tb_bindings = [] \<rparr>"
  have "edges_ok ?start" by (simp add: edges_ok_def)
  then show ?thesis unfolding draw_resources_def Let_def
    by (simp add: edges_ok_apis edges_ok_tools edges_ok_plugins edges_ok_bindings edges_ok_connect split: option.split prod.split)
qed

text \<open>Nodes: each loop adds as many as there are resources, up to the bound.\<close>

abbreviation node_count :: "topology_build \<Rightarrow> nat" where "node_count b \<equiv> length (tb_nodes b)"

lemma add_apis_count: "node_count b \<le> max_topology_nodes \<Longrightarrow>
    node_count (add_apis base as b) = min max_topology_nodes (node_count b + length as) \<and> tb_endpoints (add_apis base as b) = tb_endpoints b"
  by (induction as arbitrary: b) (auto simp: nodes_full_def)

lemma add_plugins_count: "node_count b \<le> max_topology_nodes \<Longrightarrow>
    node_count (add_plugins ps b) = min max_topology_nodes (node_count b + length ps)"
  by (induction ps arbitrary: b) (auto simp: nodes_full_def add_plugin_def Let_def)

lemma add_bindings_count: "node_count b \<le> max_topology_nodes \<Longrightarrow>
    node_count (add_bindings xs b) = min max_topology_nodes (node_count b + length xs)"
  by (induction xs arbitrary: b) (auto simp: nodes_full_def add_binding_def Let_def)

lemma connect_nodes: "tb_nodes (fold connect_binding xs b) = tb_nodes b"
  by (induction xs arbitrary: b) (simp_all add: connect_binding_def Let_def split: option.split)

text \<open>Tools: a tool without an API draws an unresolved endpoint, one with an API its endpoint once.\<close>

definition drawn_keys :: "topology_build \<Rightarrow> string set" where "drawn_keys b = fst ` set (tb_endpoints b)"

definition needed_nodes :: "tool list \<Rightarrow> api list \<Rightarrow> string \<Rightarrow> topology_build \<Rightarrow> nat" where
  "needed_nodes ts apis base b = length ts + length (unmatched_tools ts apis base) + card (endpoint_keys ts apis base - drawn_keys b)"

lemma drawn_keys_put: "fst ` set (amap_put k v m) = insert k (fst ` set m)"
  by (auto simp: amap_put_def)

lemma add_tool_count:
  assumes "\<not> nodes_full b"
  shows "min max_topology_nodes (node_count (add_tool name base apis t b) + needed_nodes ts apis base (add_tool name base apis t b)) =
      min max_topology_nodes (node_count b + needed_nodes (t # ts) apis base b) \<and>
    node_count (add_tool name base apis t b) \<le> max_topology_nodes"
proof -
  from assms have room: "node_count b < max_topology_nodes" by (simp add: nodes_full_def)
  obtain kind found reason where m: "match_api t apis base = (kind, found, reason)" by (cases "match_api t apis base") auto
  have fin: "finite (endpoint_keys xs apis base)" for xs unfolding endpoint_keys_def by (rule finite_set)
  show ?thesis
  proof (cases found)
    case None
    then have keys: "endpoint_keys (t # ts) apis base = endpoint_keys ts apis base"
      and un: "length (unmatched_tools (t # ts) apis base) = Suc (length (unmatched_tools ts apis base))"
      by (simp_all add: m endpoint_keys_def unmatched_tools_def)
    have same: "drawn_keys (add_tool name base apis t b) = drawn_keys b"
      by (simp add: m None add_tool_def add_unmatched_def Let_def drawn_keys_def)
    have "node_count (add_tool name base apis t b) = min max_topology_nodes (node_count b + 2)"
      using room by (simp add: m None add_tool_def add_unmatched_def Let_def add_node_count)
    with room show ?thesis unfolding needed_nodes_def keys un same by simp
  next
    case (Some a)
    let ?k = "endpoint_key_of t a"
    have keys: "endpoint_keys (t # ts) apis base = insert ?k (endpoint_keys ts apis base)"
      and un: "unmatched_tools (t # ts) apis base = unmatched_tools ts apis base"
      using Some by (simp_all add: m endpoint_keys_def unmatched_tools_def)
    show ?thesis
    proof (cases "?k \<in> drawn_keys b")
      case True
      then have same: "drawn_keys (add_tool name base apis t b) = drawn_keys b" "node_count (add_tool name base apis t b) = Suc (node_count b)"
        by (simp_all add: m Some add_tool_def add_matched_def Let_def drawn_keys_def)
      have "insert ?k (endpoint_keys ts apis base) - drawn_keys b = endpoint_keys ts apis base - drawn_keys b" using True by blast
      then show ?thesis using room unfolding needed_nodes_def keys un same by simp
    next
      case False
      then have same: "drawn_keys (add_tool name base apis t b) = insert ?k (drawn_keys b)"
        "node_count (add_tool name base apis t b) = min max_topology_nodes (node_count b + 2)"
        using room by (simp_all add: m Some add_tool_def add_matched_def Let_def drawn_keys_def add_node_count drawn_keys_put)
      have "card (insert ?k (endpoint_keys ts apis base) - drawn_keys b) = Suc (card (endpoint_keys ts apis base - insert ?k (drawn_keys b)))"
      proof -
        have "insert ?k (endpoint_keys ts apis base) - drawn_keys b = insert ?k (endpoint_keys ts apis base - insert ?k (drawn_keys b))"
          using False by blast
        moreover have "card \<dots> = Suc (card (endpoint_keys ts apis base - insert ?k (drawn_keys b)))"
          by (rule card_insert_disjoint) (simp_all add: fin)
        ultimately show ?thesis by simp
      qed
      then show ?thesis using room unfolding needed_nodes_def keys un same by simp
    qed
  qed
qed

lemma add_tools_count: "node_count b \<le> max_topology_nodes \<Longrightarrow>
    node_count (add_tools name base apis ts b) = min max_topology_nodes (node_count b + needed_nodes ts apis base b)"
proof (induction ts arbitrary: b)
  case Nil
  then show ?case by (simp add: needed_nodes_def unmatched_tools_def endpoint_keys_def)
next
  case (Cons t ts)
  show ?case
  proof (cases "nodes_full b")
    case True
    with Cons.prems show ?thesis by (simp add: nodes_full_def)
  next
    case False
    note step = add_tool_count [OF False, where ts = ts and name = name and base = base and apis = apis and t = t]
    with Cons.IH [of "add_tool name base apis t b"] False show ?thesis by simp
  qed
qed

lemma draw_count:
  "node_count (draw_resources name base ts apis res) = min max_topology_nodes (fst (topology_candidate_counts ts apis res base))"
proof -
  let ?start = "\<lparr> tb_nodes = [transport_node name], tb_edges = [], tb_tools = [], tb_endpoints = [], tb_plugins = [], tb_bindings = [] \<rparr>"
  let ?apis = "add_apis base apis ?start"
  let ?tools = "add_tools name base apis ts ?apis"
  have a: "node_count ?apis = min max_topology_nodes (1 + length apis)" "tb_endpoints ?apis = []"
    using add_apis_count [of ?start base apis] by (simp_all add: max_topology_nodes_def)
  let ?n = "1 + length apis + length ts + length (unmatched_tools ts apis base) + card (endpoint_keys ts apis base)"
  have t: "node_count ?tools = min max_topology_nodes ?n"
    using add_tools_count [of ?apis name base apis ts] a by (simp add: needed_nodes_def drawn_keys_def)
  show ?thesis
  proof (cases res)
    case None
    with t show ?thesis by (simp add: draw_resources_def topology_candidate_counts_def Let_def)
  next
    case (Some pb)
    obtain ps xs where pb: "pb = (ps, xs)" by (cases pb)
    have "node_count (add_plugins ps ?tools) = min max_topology_nodes (?n + length ps)"
      using add_plugins_count [of ?tools ps] t by simp
    then have "node_count (add_bindings xs (add_plugins ps ?tools)) = min max_topology_nodes (?n + length ps + length xs)"
      using add_bindings_count [of "add_plugins ps ?tools" xs] by simp
    with Some pb show ?thesis
      by (simp add: draw_resources_def topology_candidate_counts_def Let_def connect_nodes)
  qed
qed

text \<open>
  C19: the graph is bounded, closed and accounts for what it leaves out. It has at most 500
  nodes and 1000 edges, every edge joins two nodes of the graph, exactly the edges of exact
  matches are authoritative, and the nodes shown and the nodes reported as omitted are all
  the nodes there would be.
\<close>

theorem topology_accounts:
  "(let g = topology_graph_of name base ts registered res;
        wanted = fst (topology_candidate_counts ts (sort_key ap_name registered) res base)
    in length (tg_nodes g) \<le> 500 \<and> length (tg_edges g) \<le> 1000 \<and> list_all (edge_closed (tg_nodes g)) (tg_edges g) \<and>
       list_all (\<lambda>e. te_authoritative e = (te_match e = Match_Exact)) (tg_edges g) \<and>
       length (tg_nodes g) + (case tg_omitted g of None \<Rightarrow> 0 | Some (n, _) \<Rightarrow> n) = wanted)"
proof -
  let ?apis = "sort_key ap_name registered"
  let ?b = "draw_resources name base ts ?apis res"
  obtain cn ce where c: "topology_candidate_counts ts ?apis res base = (cn, ce)" by fastforce
  have n: "node_count ?b = min max_topology_nodes cn" using draw_count [of name base ts ?apis res] c by simp
  have "edges_ok ?b" by (rule edges_ok_draw)
  then have e: "length (tb_edges ?b) \<le> 1000" "list_all (\<lambda>e. te_authoritative e = (te_match e = Match_Exact)) (tb_edges ?b)"
    by (simp_all add: edges_ok_def max_topology_edges_def)
  then have "length (filter (edge_closed (tb_nodes ?b)) (tb_edges ?b)) \<le> 1000" using length_filter_le le_trans by blast
  then show ?thesis using n e(2)
    by (auto simp: topology_graph_of_def c Let_def max_topology_nodes_def list_all_iff)
qed

subsection \<open>Matches\<close>

lemma scan_exact:
  "mt_exact (fold (scan_api base target) apis m) = mt_exact m @ filter (\<lambda>a. normalized_api base a = target) apis"
  by (induction apis arbitrary: m) (auto simp: scan_api_def Let_def)

text \<open>
  C22: an exact match is the only one. A tool is joined to an API as an exact match if and only
  if exactly one registered API has its method, host and path after normalisation, so that an
  authoritative edge never guesses between two APIs.
\<close>

theorem exact_match_unique:
  "match_api t apis base = (Match_Exact, Some a, d) \<longleftrightarrow>
     trim_space (ex_endpoint (ts_execution (tl_spec t))) \<noteq> [] \<and> ne_path (tool_target t base) \<noteq> [] \<and>
     filter (\<lambda>x. normalized_api base x = tool_target t base) apis = [a] \<and> d = No_Diagnostic"
proof -
  let ?f = "filter (\<lambda>x. normalized_api base x = tool_target t base) apis"
  have scan: "mt_exact (scan_apis base (tool_target t base) apis) = ?f" by (simp add: scan_apis_def scan_exact)
  have "match_outcome (scan_apis base (tool_target t base) apis) = (Match_Exact, Some a, d) \<longleftrightarrow> ?f = [a] \<and> d = No_Diagnostic"
    by (auto simp: match_outcome_def scan split: list.split)
  then show ?thesis by (auto simp: match_api_def)
qed

text \<open>Revisions of one tool share a node identifier, which has the version only for a tool without a name.\<close>

lemma revisions_share_node:
  "md_name (tl_metadata t) \<noteq> [] \<Longrightarrow> md_name (tl_metadata t') = md_name (tl_metadata t) \<Longrightarrow> tool_node_id t = tool_node_id t'"
  by (simp add: tool_node_id_def stable_id_def)

end
