(* ===== verification/Console_Observations.thy ===== *)
theory Console_Observations
  imports Console_Views
begin

text \<open>
  The logs and the metrics that the console shows (internal/web/log_projection.go and
  metrics.go): log events reduced to fixed members with their summaries redacted, and rates
  between two readings of the counters.
\<close>

subsection \<open>Patterns\<close>

text \<open>
  Expressions of package regexp with the positions where a match may end, the preferred first.
  A position is the character before it with the rest of the text.
\<close>

type_synonym here = "char option \<times> string"

datatype pattern = One "char \<Rightarrow> bool" | Run "char \<Rightarrow> bool" | Then pattern pattern | Either pattern pattern | Word_Edge

fun run_ends :: "(char \<Rightarrow> bool) \<Rightarrow> char option \<Rightarrow> string \<Rightarrow> here list" where
  "run_ends P b [] = [(b, [])]"
| "run_ends P b (c # s) = (if P c then run_ends P (Some c) s @ [(b, c # s)] else [(b, c # s)])"

definition in_word :: "char option \<Rightarrow> bool" where
  "in_word b \<longleftrightarrow> (case b of None \<Rightarrow> False | Some c \<Rightarrow> re_word c)"

fun ends :: "pattern \<Rightarrow> here \<Rightarrow> here list" where
  "ends (One P) (b, s) = (case s of [] \<Rightarrow> [] | c # r \<Rightarrow> if P c then [(Some c, r)] else [])"
| "ends (Run P) (b, s) = run_ends P b s"
| "ends (Then p q) h = concat (map (ends q) (ends p h))"
| "ends (Either p q) h = ends p h @ ends q h"
| "ends Word_Edge (b, s) = (if in_word b \<noteq> (case s of [] \<Rightarrow> False | c # _ \<Rightarrow> re_word c) then [(b, s)] else [])"

definition match_with :: "pattern \<Rightarrow> string \<Rightarrow> matcher" where
  "match_with p new before s = (case ends p (before, s) of [] \<Rightarrow> None | (_, rest) # _ \<Rightarrow> Some (new, rest))"

definition some_of :: "(char \<Rightarrow> bool) \<Rightarrow> pattern" where "some_of P = Then (One P) (Run P)"

fun any_case :: "string \<Rightarrow> pattern" where
  "any_case [] = Run (\<lambda>_. False)"
| "any_case (c # s) = Then (One (\<lambda>x. lower_char x = c)) (any_case s)"

fun any_of :: "pattern list \<Rightarrow> pattern" where
  "any_of [] = One (\<lambda>_. False)"
| "any_of (p # ps) = Either p (any_of ps)"

subsection \<open>Log events\<close>

definition max_log_event_bytes :: nat where "max_log_event_bytes = 32768"
definition max_log_events :: nat where "max_log_events = 1000"
definition max_log_streams :: nat where "max_log_streams = 4"

definition api_key_pattern :: pattern where
  "api_key_pattern = Then (any_case ''api'') (Then (Either (One (\<lambda>c. c = CHR ''_'' \<or> c = CHR ''-'')) (Run (\<lambda>_. False))) (any_case ''key''))"

definition log_secret_pattern :: pattern where
  "log_secret_pattern = Then
     (Either (Then (any_case ''bearer'') (some_of re_space))
        (Then (any_of [any_case ''token'', any_case ''password'', any_case ''secret'', api_key_pattern, any_case ''authorization''])
          (Then (Run re_space) (some_of (\<lambda>c. c = CHR ''='' \<or> c = CHR '':'' \<or> c = CHR '' '')))))
     (some_of (\<lambda>c. \<not> re_space c))"

definition log_email_pattern :: pattern where
  "log_email_pattern =
     Then Word_Edge (Then (some_of (\<lambda>c. re_word c \<or> c \<in> set ''.+-'')) (Then (One (\<lambda>c. c = CHR ''@''))
       (Then (some_of (\<lambda>c. re_word c \<or> c \<in> set ''.-'')) (Then (One (\<lambda>c. c = CHR ''.''))
         (Then (One is_letter) (Then (some_of is_letter) Word_Edge))))))"

definition redact_log_summary :: "string \<Rightarrow> string" where
  "redact_log_summary summary =
     (if summary = [] then []
      else replace_matches (match_with log_email_pattern ''[REDACTED]'') None
        (replace_matches (match_with log_secret_pattern ''[REDACTED]'') None summary))"

record log_event =
  le_timestamp :: string
  le_level :: string
  le_component :: string
  le_tool_name :: string
  le_request_id :: string
  le_summary :: string

text \<open>The first of the names whose member is a text; a null reads as an empty one.\<close>

fun raw_string :: "jargs \<Rightarrow> string list \<Rightarrow> string" where
  "raw_string fs [] = []"
| "raw_string fs (n # ns) = (case map_of fs n of
       Some (JStr s) \<Rightarrow> s
     | Some JNull \<Rightarrow> []
     | _ \<Rightarrow> raw_string fs ns)"

definition log_fields :: "string \<Rightarrow> jargs option" where
  "log_fields raw = (case json_unmarshal raw of Some (JObj ms) \<Rightarrow> Some ms | Some JNull \<Rightarrow> Some [] | _ \<Rightarrow> None)"

definition project_log_event :: "string \<Rightarrow> log_event option" where
  "project_log_event raw =
     (if raw = [] \<or> max_log_event_bytes < length raw then None
      else (case log_fields raw of
          None \<Rightarrow> None
        | Some f \<Rightarrow> Some \<lparr> le_timestamp = raw_string f [''time'', ''timestamp''], le_level = to_upper (raw_string f [''level'']),
            le_component = raw_string f [''component''], le_tool_name = raw_string f [''tool_name'', ''toolName''],
            le_request_id = raw_string f [''request_id'', ''requestId''], le_summary = redact_log_summary (raw_string f [''msg'', ''message'']) \<rparr>))"

definition recent_events :: "string list \<Rightarrow> string list" where
  "recent_events raws = drop (length raws - max_log_events) raws"

definition logs_recent_view :: "string list ask \<Rightarrow> web_request \<Rightarrow> config_snapshot \<Rightarrow> api_error + string \<times> log_event list" where
  "logs_recent_view ask = console_view ask Target_Server ''/api/logs/recent'' []
     (\<lambda>raws. (state_available, List.map_filter project_log_event (recent_events raws)))"

text \<open>
  The stream: a slot is taken for as long as it lasts, four at most. The scanner gives up at
  a line that does not fit its buffer.
\<close>

definition open_stream :: "nat \<Rightarrow> nat option" where
  "open_stream active = (if active < max_log_streams then Some (Suc active) else None)"

definition streamed_events :: "string list \<Rightarrow> log_event list" where
  "streamed_events lines =
     List.map_filter (\<lambda>l. project_log_event (trim_space (drop 6 l)))
       (filter (\<lambda>l. has_prefix l ''data: '') (takeWhile (\<lambda>l. length l < max_log_event_bytes) lines))"

definition logs_stream ::
  "string list ask \<Rightarrow> web_request \<Rightarrow> config_snapshot \<Rightarrow> nat \<Rightarrow> api_error + log_event list" where
  "logs_stream ask r cs active = (case only_get r of
       Some e \<Rightarrow> Inl e
     | None \<Rightarrow> (case open_stream active of
         None \<Rightarrow> Inl (Api_Error 429 ''stream_limit'' ''too many console log streams are active'')
       | Some _ \<Rightarrow> (case context_for_request r cs of
           Inl e \<Rightarrow> Inl e
         | Inr (_, ctx) \<Rightarrow> (case ask ctx Target_Server ''/api/logs/stream'' of
             Answered status (Some lines) \<Rightarrow>
               if status < 200 \<or> 300 \<le> status then Inl (Api_Error 503 ''upstream_unavailable'' ''the log stream is unavailable'')
               else Inr (streamed_events lines)
           | Answered status None \<Rightarrow>
               if status < 200 \<or> 300 \<le> status then Inl (Api_Error 503 ''upstream_unavailable'' ''the log stream is unavailable'') else Inr []
           | No_Answer \<Rightarrow> Inl (Api_Error 503 ''upstream_unavailable'' ''the log stream is unavailable'')))))"

lemma redact_examples:
  "redact_log_summary ''call with Bearer abc.def failed'' = ''call with [REDACTED] failed''"
  "redact_log_summary ''api-key: 17, mail a.b@erp.example now'' = ''[REDACTED] mail [REDACTED] now''"
  by code_simp+

text \<open>The keyword and its separator must follow each other: a secret that is a member of a JSON text in the summary is shown.\<close>

lemma quoted_secret_shown:
  "redact_log_summary (''rejected {'' @ [CHR 0x22] @ ''token'' @ [CHR 0x22] @ '':'' @ [CHR 0x22] @ ''abc'' @ [CHR 0x22] @ ''}'') =
   ''rejected {'' @ [CHR 0x22] @ ''token'' @ [CHR 0x22] @ '':'' @ [CHR 0x22] @ ''abc'' @ [CHR 0x22] @ ''}''"
  by code_simp

subsection \<open>Metrics\<close>

definition documented_metric_families :: "string list" where
  "documented_metric_families =
     [''erp_requests_total'', ''mcp_tool_invocations_total'', ''cache_hits_total'', ''cache_misses_total'', ''mcp_server_starts_total'',
      ''mcp_server_stops_total'', ''mcp_sessions_started_total'', ''mcp_sessions_ended_total'', ''mcp_sessions_active'',
      ''erp_request_duration_seconds'', ''mcp_tool_duration_seconds'']"

record metric_sample =
  me_name :: string
  me_labels :: "(string \<times> string) list"
  me_value :: rat

text \<open>A family as the exposition library reads it: samples with their labels, or sums and counts.\<close>

datatype metric_family =
    Counter "((string \<times> string) list \<times> rat) list"
  | Gauge "((string \<times> string) list \<times> rat) list"
  | Histogram "(rat \<times> rat) list"
  | Other_Family

record parsed_metrics =
  pd_cumulative :: "metric_sample list"
  pd_sum :: rat
  pd_count :: rat

definition metric_key :: "metric_sample \<Rightarrow> string" where
  "metric_key m = me_name m @ concat (map (\<lambda>(k, v). ''|'' @ k @ ''='' @ v) (sort_members (me_labels m)))"

definition family_samples :: "string \<Rightarrow> metric_family \<Rightarrow> metric_sample list" where
  "family_samples name f = (case f of
       Counter ms \<Rightarrow> map (\<lambda>(ls, v). \<lparr> me_name = name, me_labels = ls, me_value = v \<rparr>) ms
     | Gauge ms \<Rightarrow> map (\<lambda>(ls, v). \<lparr> me_name = name, me_labels = ls, me_value = v \<rparr>) ms
     | _ \<Rightarrow> [])"

definition family_latency :: "metric_family \<Rightarrow> (rat \<times> rat) list" where
  "family_latency f = (case f of Histogram hs \<Rightarrow> hs | _ \<Rightarrow> [])"

definition parse_metrics :: "(string \<Rightarrow> (string \<times> metric_family) list option) \<Rightarrow> string \<Rightarrow> parsed_metrics option" where
  "parse_metrics expose data =
     (if data = [] \<or> max_metrics_bytes < int (length data) then None
      else (case expose data of
          None \<Rightarrow> None
        | Some fs \<Rightarrow>
            let known = filter (\<lambda>f. fst f \<in> set documented_metric_families) fs;
                latencies = concat (map (family_latency \<circ> snd) known)
            in Some \<lparr> pd_cumulative = sort_key metric_key (concat (map (\<lambda>(n, f). family_samples n f) known)),
                 pd_sum = sum_list (map fst latencies), pd_count = sum_list (map snd latencies) \<rparr>))"

record metrics_baseline =
  mb_observed :: timestamp
  mb_values :: "(string \<times> rat) list"

record metrics_view_data =
  mv_observed :: timestamp
  mv_window :: timestamp
  mv_cumulative :: "metric_sample list"
  mv_rates :: "metric_sample list"
  mv_latency :: rat

definition metric_baseline_for :: "parsed_metrics \<Rightarrow> timestamp \<Rightarrow> metrics_baseline" where
  "metric_baseline_for p now = \<lparr> mb_observed = now, mb_values = fold (\<lambda>m. amap_put (metric_key m) (me_value m)) (pd_cumulative p) [] \<rparr>"

definition seconds_between :: "timestamp \<Rightarrow> timestamp \<Rightarrow> rat" where
  "seconds_between a b = of_int (b - a) / of_int second"

definition rate_of :: "metrics_baseline \<Rightarrow> rat \<Rightarrow> metric_sample \<Rightarrow> metric_sample option" where
  "rate_of b secs m = (case map_of (mb_values b) (metric_key m) of
       None \<Rightarrow> None
     | Some v \<Rightarrow> if me_value m < v then None else Some (m\<lparr> me_value := (me_value m - v) / secs \<rparr>))"

definition make_metrics_snapshot :: "parsed_metrics \<Rightarrow> timestamp \<Rightarrow> metrics_baseline option \<Rightarrow> metrics_view_data" where
  "make_metrics_snapshot p now previous =
     (let secs = (case previous of None \<Rightarrow> 0 | Some b \<Rightarrow> seconds_between (mb_observed b) now) in
      \<lparr> mv_observed = now, mv_window = (case previous of None \<Rightarrow> now | Some b \<Rightarrow> mb_observed b), mv_cumulative = pd_cumulative p,
        mv_rates = (case previous of None \<Rightarrow> [] | Some b \<Rightarrow> if secs \<le> 0 then [] else List.map_filter (rate_of b secs) (pd_cumulative p)),
        mv_latency = (if 0 < pd_count p then pd_sum p / pd_count p else 0) \<rparr>)"

text \<open>The handler keeps a baseline for every name that a request asks with, the empty one included.\<close>

type_synonym baselines = "(string \<times> metrics_baseline) list"

definition metrics_view ::
  "string ask \<Rightarrow> (string \<Rightarrow> (string \<times> metric_family) list option) \<Rightarrow> timestamp \<Rightarrow> web_request \<Rightarrow> config_snapshot \<Rightarrow> baselines \<Rightarrow>
     (api_error + string \<times> metrics_view_data option) \<times> baselines" where
  "metrics_view ask expose now r cs bs =
     (let name = wq_query r ''context'';
          shown = console_view ask Target_Mcp ''/metrics'' None
            (\<lambda>data. case parse_metrics expose data of
               None \<Rightarrow> (state_unavailable, None)
             | Some p \<Rightarrow> (state_available, Some p)) r cs
      in (case shown of
            Inl e \<Rightarrow> (Inl e, bs)
          | Inr (state, None) \<Rightarrow> (Inr (state, None), bs)
          | Inr (state, Some p) \<Rightarrow>
              (Inr (state, Some (make_metrics_snapshot p now (map_of bs name))), amap_put name (metric_baseline_for p now) bs)))"

text \<open>Rates are never negative, and compare a sample with the one of the same key before.\<close>

lemma metrics_rates_sound:
  "m \<in> set (mv_rates (make_metrics_snapshot p now previous)) \<Longrightarrow>
     0 \<le> me_value m \<and> (\<exists>b s v. previous = Some b \<and> mb_observed b < now \<and> s \<in> set (pd_cumulative p) \<and>
       map_of (mb_values b) (metric_key s) = Some v \<and> v \<le> me_value s \<and> me_value m = (me_value s - v) / seconds_between (mb_observed b) now)"
proof -
  assume m: "m \<in> set (mv_rates (make_metrics_snapshot p now previous))"
  then obtain b where b: "previous = Some b" "0 < seconds_between (mb_observed b) now"
    and r: "m \<in> set (List.map_filter (rate_of b (seconds_between (mb_observed b) now)) (pd_cumulative p))"
    by (auto simp: make_metrics_snapshot_def Let_def split: option.splits if_splits)
  then obtain s where s: "s \<in> set (pd_cumulative p)" "rate_of b (seconds_between (mb_observed b) now) s = Some m"
    by (auto simp: List.map_filter_def)
  then obtain v where v: "map_of (mb_values b) (metric_key s) = Some v" "\<not> me_value s < v"
    "me_value m = (me_value s - v) / seconds_between (mb_observed b) now"
    by (auto simp: rate_of_def split: option.splits if_splits)
  have "mb_observed b < now"
  proof (rule ccontr)
    assume "\<not> mb_observed b < now"
    then have "seconds_between (mb_observed b) now \<le> 0" by (simp add: seconds_between_def divide_le_0_iff)
    with b(2) show False by simp
  qed
  with b s v show ?thesis by (auto intro!: divide_nonneg_pos)
qed

text \<open>Two series have the same key when a label value contains the separators.\<close>

lemma metric_keys_collide:
  "metric_key \<lparr> me_name = ''n'', me_labels = [(''a'', ''1|b=2'')], me_value = 0 \<rparr> =
   metric_key \<lparr> me_name = ''n'', me_labels = [(''a'', ''1''), (''b'', ''2'')], me_value = 0 \<rparr>"
  by code_simp

text \<open>
  Without a name the baseline belongs to no context: after the current context has changed,
  the first rates compare the counters of two deployments.
\<close>

lemma baseline_of_other_context:
  assumes "only_get r = None" and "wq_query r ''context'' = []" and "map_of bs [] = Some b"
    and "context_for_request r cs = Inr (name, ctx)" and "ask ctx Target_Mcp ''/metrics'' = Answered 200 (Some data)"
    and "parse_metrics expose data = Some p"
  shows "fst (metrics_view ask expose now r cs bs) = Inr (state_available, Some (make_metrics_snapshot p now (Some b)))"
  using assms by (simp add: metrics_view_def console_view_def settle_view_def Let_def)

end
