(* ===== verification/Spec2Isabelle.thy ===== *)
theory Spec2Isabelle
  imports Faults Cache_Memory Cache_Manager Tool_Types Registry Plugin_Types Endpoint Store Access
    Call_Limits Tool_Exec Plugin_Pipeline Call_Safety Reconcile Control_Plane Stdio_Filter Resources
    Cli_Argv Cli_Root Cli_Commands Json_Indent Idp_Sharing Schema_Refs Generated_Tools
    Console_Topology Console_Observations
begin

text \<open>
  A verification development of ERPBridge, a gateway that offers the operations of an ERP
  system as MCP tools, with its command-line client bridgectl, a management MCP server in
  front of that client, and a local web console. File names are below internal/.

  How the program works. Operators register tool resources through the control plane; each
  revision gets a digest and an admission record and is stored. Reconciliation brings the
  runtime registry, the published tools and the plugin bindings to the stored state. A
  \<open>tools/call\<close> of an MCP client passes the middlewares (roles, cache, concurrency and rate
  limits), has its arguments mapped to a request, is committed by the authority if its revision
  is still active, and goes out through the connector; plugins may see the response, the result
  is validated against the output schema, and it may be cached. bridgectl keeps contexts and a
  registry of APIs from which it generates tools.

  The theories and what they model:
  \<^item> \<open>Prelude\<close>: the types of values, the string functions of the standard library, association
    lists; \<open>Url\<close> and \<open>Url_Text\<close> package net/url, \<open>Json\<close>, \<open>Json_Decode\<close>, \<open>Json_Roundtrip\<close> and
    \<open>Json_Indent\<close> package encoding/json, \<open>Glob\<close> \<open>path.Match\<close>.
  \<^item> \<open>Faults\<close>: faults/errors.go and mcp/errors.go, errors as values, what a client is shown of one.
  \<^item> \<open>Cache_Memory\<close>, \<open>Cache_Manager\<close>: cache/. The LRU store refines an abstract list of entries
    in order of use; the manager works over any backend that keeps the laws of its locale, and
    keys of different roles are different.
  \<^item> \<open>Tool_Types\<close>, \<open>Registry\<close>, \<open>Store\<close>: mcp/tool.go, admission.go, registry.go, store.go and
    plugin_store.go. State is one record per component; invariants: at most one serving revision,
    unique rows, admitted content that never changes under its digest.
  \<^item> \<open>Plugin_Types\<close>, \<open>Plugin_Bindings\<close>, \<open>Plugin_Client\<close>, \<open>Plugin_Pipeline\<close>, \<open>Plugin_Api\<close>:
    mcp/plugin*.go and credentials/: resources and their validation, which plugins run in which
    order, one invocation, the pipeline with its failure policies, the handlers.
  \<^item> \<open>Endpoint\<close>, \<open>Request_Map\<close>, \<open>Tool_Exec\<close>: the rest of mcp/tool.go with security/transport.go:
    the request of a call, the effective endpoint and its origin, response paths, \<open>Execute\<close>.
  \<^item> \<open>Connector\<close>: connector/client.go: retries, redirects, the classification of failures.
  \<^item> \<open>Access\<close>, \<open>Call_Limits\<close>, \<open>Middleware\<close>, \<open>Authority\<close>, \<open>Server_State\<close>, \<open>Call_Safety\<close>:
    mcp/tokens.go, auth.go, authz.go, middleware.go, authority.go and server.go: who may call,
    the limits, the middlewares in their order, dispatch and withdrawal as separate steps.
    \<open>Call_Safety\<close> holds the properties of the composition.
  \<^item> \<open>Reconcile\<close>, \<open>Tool_Api\<close>, \<open>Control_Plane\<close>: reconciliation_status.go, info_api.go, api.go and
    the handlers of server.go, with authentication in front of every route.
  \<^item> \<open>Resources\<close>, \<open>Stdio_Filter\<close>: resource.go, prompt.go and filter_writer.go.
  \<^item> \<open>Logging\<close>: logger/: redaction, levels and the hub of recent lines.
  \<^item> \<open>Config\<close>, \<open>Idp_Registry\<close>, \<open>Idp_Sharing\<close>: config/ and idp/registry.go. Files that other
    processes write are state that changes between the steps of an update; the locks and renames
    are steps of a transition relation, and concurrent commands serialize.
  \<^item> \<open>Generator\<close>, \<open>Schema_Refs\<close>, \<open>Generated_Tools\<close>: idp/generator.go.
  \<^item> \<open>Cli_Session\<close>, \<open>Cli_Result\<close>, \<open>Cli_Catalog\<close>, \<open>Cli_Dispatch\<close>, \<open>Cli_Argv\<close>: climcp/: the catalogue
    of management tools, the argument vector of a child, its runner, the envelope of the result.
  \<^item> \<open>Cli_Root\<close>, \<open>Cli_Remote\<close>, \<open>Cli_Commands\<close>: cli/: the start of a command, its requests and exit
    codes, and the commands on a deployment and on the registry.
  \<^item> \<open>Bridge_Client\<close>, \<open>Remote_Text\<close>: bridgeclient/client.go.
  \<^item> \<open>Console_Guard\<close>, \<open>Console_Views\<close>, \<open>Console_Topology\<close>, \<open>Console_Observations\<close>: web/.

  How the model corresponds to the code. A struct is a record, an operation one definition
  named after the function, with its guards in the order of the source; an operation that
  changes state returns the new state, and one that runs under a mutex is one step. Errors are
  values of a sum or an option. Go strings are lists of bytes. A map is an association list
  where its contents are compared or printed. Three interfaces are locales, each
  interpreted on the model's own definitions in the theory that provides them:
  \<open>lawful_backend\<close> (what the cache manager relies on in a backend), \<open>token_lookup\<close> (what
  authentication relies on in the token store) and \<open>outbound_runner\<close> (what the connector relies
  on in the retry loop and the breaker).

  Parameters, each an argument of the definitions that use it: SHA-256, the semver and YAML
  libraries, the OpenAPI loader, JSON-schema validation, \<open>mime.ParseMediaType\<close> and time parsing,
  the HTTP transport, the retry library and the circuit breaker, the token bucket, the Redis
  client, the reader of metrics texts, random bytes, the clock, the environment and what the
  file system and child processes answer.

  Bounds and fuel. The JSON decoder has fuel one more than the length of the text, and every
  nested value consumes a character, so a text that is JSON is always decoded. \<open>resolve_schema\<close>
  has the depth of the Go stack as its fuel: a document without a cycle of references needs no
  more than its number of components, and one with a cycle exhausts every bound. The other
  loops are structural or have a termination proof; the limits of the source (body sizes,
  numbers of nodes, edges, events, retries) are constants of their theories.

  The findings are lemmas next to the definitions they are about: they evaluate the code's model
  on an input where it does what a comment denies or a caller would not expect.

  Not modelled: the rendering of logs, tables and pages; metrics counters, telemetry hooks
  and notifications, which are output; deadlines and cancellation, which are part of the
  transport's and the child's answers; the MCP library's transports, sessions and advertised
  schemas; SQLite below its statements; the main functions; and of bridgectl the installation
  of skills, the local API test, scrubbing of all registries and the start of the console.
\<close>

end
